(* ===== verification/Prelude.thy ===== *)
theory Prelude
  imports Main "HOL-Library.Word"
begin

text \<open>
  What the component theories share: the status codes of the C sources, the faults that
  end a run outside the defined behaviour of C, the fact collections the component proofs
  are automated with, list surgery by index, and the C library routines the sources call
  on strings (\<^verbatim>\<open>snprintf\<close> with its size bound, \<^verbatim>\<open>%d\<close>, \<^verbatim>\<open>strtol\<close> with base 10).
  A C string is the \<^typ>\<open>string\<close> of its characters before the terminating NUL.
\<close>

named_theorems celix_simps \<open>rewrite rules of the container and property operations\<close>
named_theorems frame_simps \<open>fields that an operation leaves alone\<close>
named_theorems inv_intros \<open>operations that keep an invariant\<close>

section \<open>Status codes and faults\<close>

text \<open>
  The codes of \<^verbatim>\<open>celix_errno.h\<close> that the sources name; every other code a framework
  call may answer is \<open>CELIX_OTHER\<close>.
\<close>

datatype celix_status =
    CELIX_SUCCESS
  | CELIX_BUNDLE_EXCEPTION
  | CELIX_ILLEGAL_ARGUMENT
  | CELIX_ILLEGAL_STATE
  | CELIX_SERVICE_EXCEPTION
  | CELIX_ENOMEM
  | CELIX_OTHER int

text \<open>
  A C function whose run leaves the defined behaviour, or that ends the process, has a
  fault instead of a result.
\<close>

datatype fault =
    NullPointer          \<comment> \<open>NULL dereferenced, or handed to strcmp, strcpy, strlen\<close>
  | BufferOverflow       \<comment> \<open>a write behind the end of a fixed buffer or array\<close>
  | InvalidFree          \<comment> \<open>free of memory that is not allocated, or never assigned\<close>
  | Uninitialised        \<comment> \<open>a buffer or pointer used before anything was stored in it\<close>
  | UnlockNotHeld        \<comment> \<open>a mutex unlocked that the caller does not hold\<close>
  | BadFormat            \<comment> \<open>a format text whose conversions the arguments do not match\<close>
  | ProcessExit          \<comment> \<open>exit is called\<close>
  | NoReturn             \<comment> \<open>a loop that does not end, or a lock the caller itself holds\<close>
  | UseAfterFree         \<comment> \<open>an object read or changed after it was freed\<close>

type_synonym 'a result = "fault + 'a"

text \<open>Sequencing: the second computation runs on the result of the first, a fault ends both.\<close>

definition rbind :: "'a result \<Rightarrow> ('a \<Rightarrow> 'b result) \<Rightarrow> 'b result" where
  "rbind m f = (case m of Inl e \<Rightarrow> Inl e | Inr x \<Rightarrow> f x)"

lemma rbind_simps [simp]: "rbind (Inl e) f = Inl e" "rbind (Inr x) f = f x"
  by (simp_all add: rbind_def)

lemma rbind_eq_Inr: "rbind m f = Inr y \<longleftrightarrow> (\<exists>x. m = Inr x \<and> f x = Inr y)"
  by (cases m) auto

lemma Inr_eq_rbind: "Inr y = rbind m f \<longleftrightarrow> (\<exists>x. m = Inr x \<and> f x = Inr y)"
  by (cases m) auto

lemma rbind_eq_Inl: "rbind m f = Inl e \<longleftrightarrow> m = Inl e \<or> (\<exists>x. m = Inr x \<and> f x = Inl e)"
  by (cases m) auto

lemma rbind_assoc: "rbind (rbind m f) g = rbind m (\<lambda>x. rbind (f x) g)"
  by (cases m) simp_all

lemma rbind_cong [fundef_cong]:
  "m = m' \<Longrightarrow> (\<And>x. m' = Inr x \<Longrightarrow> f x = f' x) \<Longrightarrow> rbind m f = rbind m' f'"
  by (cases m') auto

text \<open>A loop over a list whose body may fault.\<close>

primrec rfold :: "('a \<Rightarrow> 's \<Rightarrow> 's result) \<Rightarrow> 'a list \<Rightarrow> 's \<Rightarrow> 's result" where
  "rfold f [] s = Inr s"
| "rfold f (x # xs) s = rbind (f x s) (rfold f xs)"

lemma rfold_append: "rfold f (xs @ ys) s = rbind (rfold f xs s) (rfold f ys)"
proof (induction xs arbitrary: s)
  case (Cons x xs)
  then show ?case by (cases "f x s") simp_all
qed simp

lemma rfold_invariant:
  assumes "rfold f xs s = Inr t" "P s"
    and "\<And>x s s'. x \<in> set xs \<Longrightarrow> P s \<Longrightarrow> f x s = Inr s' \<Longrightarrow> P s'"
  shows "P t"
  using assms
proof (induction xs arbitrary: s)
  case (Cons x xs)
  then obtain s' where s': "f x s = Inr s'" "rfold f xs s' = Inr t"
    by (auto simp: rbind_eq_Inr)
  have "P s'" by (rule Cons.prems(3) [of x s]) (use Cons.prems s' in auto)
  then show ?case using s' Cons.IH [of s'] Cons.prems(3) by auto
qed simp

lemma rfold_total:
  assumes "\<And>x s. x \<in> set xs \<Longrightarrow> P s \<Longrightarrow> \<exists>s'. f x s = Inr s' \<and> P s'" "P s"
  shows "\<exists>s'. rfold f xs s = Inr s' \<and> P s'"
  using assms
proof (induction xs arbitrary: s)
  case (Cons x xs)
  obtain s1 where s1: "f x s = Inr s1" "P s1" using Cons.prems by (metis list.set_intros(1))
  then obtain s' where "rfold f xs s1 = Inr s'" "P s'" using Cons.IH Cons.prems(1) by (meson list.set_intros(2))
  then show ?case using s1 by simp
qed simp

text \<open>A loop over a list that replaces each element and threads a state.\<close>

primrec rmapfold :: "('a \<Rightarrow> 's \<Rightarrow> ('b \<times> 's) result) \<Rightarrow> 'a list \<Rightarrow> 's \<Rightarrow> ('b list \<times> 's) result" where
  "rmapfold f [] s = Inr ([], s)"
| "rmapfold f (x # xs) s =
     rbind (f x s) (\<lambda>(y, s). rbind (rmapfold f xs s) (\<lambda>(ys, s). Inr (y # ys, s)))"

lemma rmapfold_length: "rmapfold f xs s = Inr (ys, t) \<Longrightarrow> length ys = length xs"
  by (induction xs arbitrary: s ys t) (auto simp: rbind_eq_Inr)

lemma rmapfold_list_all2:
  assumes "rmapfold f xs s = Inr (ys, t)"
    and "\<And>x s y s'. x \<in> set xs \<Longrightarrow> f x s = Inr (y, s') \<Longrightarrow> R x y"
  shows "list_all2 R xs ys"
  using assms
proof (induction xs arbitrary: s ys)
  case (Cons x xs)
  then obtain y s' ys' t' where y: "f x s = Inr (y, s')" "rmapfold f xs s' = Inr (ys', t')" "ys = y # ys'"
    by (auto simp: rbind_eq_Inr)
  then have "t' = t" using Cons.prems(1) by (auto simp: rbind_eq_Inr)
  then have "list_all2 R xs ys'" using y Cons.IH [of s' ys'] Cons.prems(2) by auto
  then show ?case using y Cons.prems(2) [of x s y s'] by simp
qed simp

section \<open>List surgery by index\<close>

definition insert_at :: "nat \<Rightarrow> 'a \<Rightarrow> 'a list \<Rightarrow> 'a list" where
  "insert_at i x xs = take i xs @ x # drop i xs"

definition remove_at :: "nat \<Rightarrow> 'a list \<Rightarrow> 'a list" where
  "remove_at i xs = take i xs @ drop (Suc i) xs"

lemma set_insert_at [simp]: "set (insert_at i x xs) = insert x (set xs)"
proof -
  have "set (take i xs) \<union> set (drop i xs) = set xs"
    by (metis append_take_drop_id set_append)
  then show ?thesis by (auto simp: insert_at_def)
qed

lemma length_insert_at [simp]: "length (insert_at i x xs) = Suc (length xs)"
  by (simp add: insert_at_def)

lemma map_insert_at: "map f (insert_at i x xs) = insert_at i (f x) (map f xs)"
  by (simp add: insert_at_def take_map drop_map)

lemma distinct_insert_at [simp]:
  "distinct (insert_at i x xs) \<longleftrightarrow> x \<notin> set xs \<and> distinct xs"
proof -
  have "distinct (insert_at i x xs) = distinct (x # take i xs @ drop i xs)"
    unfolding insert_at_def by (metis distinct_append distinct.simps(2) append_Cons
      Un_iff insert_iff list.simps(15) set_append disjoint_insert(1) append_take_drop_id)
  then show ?thesis by simp
qed

lemma insert_at_neq_Nil [simp]: "insert_at i x xs \<noteq> []"
  by (simp add: insert_at_def)

lemma set_remove_at_subset: "set (remove_at i xs) \<subseteq> set xs"
  by (auto simp: remove_at_def dest: in_set_takeD in_set_dropD)

lemma length_remove_at: "i < length xs \<Longrightarrow> length (remove_at i xs) = length xs - 1"
  by (simp add: remove_at_def)

lemma remove_at_last [simp]: "remove_at (length xs) (xs @ [x]) = xs"
  by (simp add: remove_at_def)

lemma remove_at_0 [simp]: "remove_at 0 (x # xs) = xs"
  by (simp add: remove_at_def)

lemma remove_at_Suc [simp]: "remove_at (Suc i) (x # xs) = x # remove_at i xs"
  by (simp add: remove_at_def)

section \<open>The C library on strings\<close>

text \<open>
  \<open>snprintf (buf, n, ...)\<close> stores at most \<open>n - 1\<close> characters and a NUL; what the buffer
  holds afterwards is the formatted text cut at \<open>n - 1\<close> characters.
\<close>

definition snprintf :: "nat \<Rightarrow> string \<Rightarrow> string" where
  "snprintf n s = take (n - 1) s"

lemma snprintf_id: "length s < n \<Longrightarrow> snprintf n s = s"
  by (simp add: snprintf_def)

lemma length_snprintf: "0 < n \<Longrightarrow> length (snprintf n s) < n"
  by (auto simp: snprintf_def)

text \<open>The conversions \<open>%d\<close> of a non-negative and of any \<open>int\<close>.\<close>

definition digit :: "nat \<Rightarrow> char" where
  "digit d = char_of (48 + d)"

fun dec :: "nat \<Rightarrow> string" where
  "dec n = (if n < 10 then [digit n] else dec (n div 10) @ [digit (n mod 10)])"

declare dec.simps [simp del]

definition dec_int :: "int \<Rightarrow> string" where
  "dec_int i = (if i < 0 then CHR ''-'' # dec (nat (- i)) else dec (nat i))"

definition is_digit :: "char \<Rightarrow> bool" where
  "is_digit c \<longleftrightarrow> 48 \<le> (of_char c :: nat) \<and> (of_char c :: nat) \<le> 57"

definition digit_val :: "char \<Rightarrow> nat" where
  "digit_val c = of_char c - 48"

definition is_cspace :: "char \<Rightarrow> bool" where
  "is_cspace c \<longleftrightarrow> c = CHR '' '' \<or> (9 \<le> (of_char c :: nat) \<and> (of_char c :: nat) \<le> 13)"

definition digits_val :: "string \<Rightarrow> nat" where
  "digits_val ds = foldl (\<lambda>n c. n * 10 + digit_val c) 0 ds"

text \<open>
  \<open>strtol (s, &end, 10)\<close> on a 64-bit \<open>long\<close>: blanks, an optional sign, the longest run of
  digits. Without digits the value is 0 and \<open>end\<close> is the start of the string; out of range
  the value is the nearest \<open>long\<close> and \<open>errno\<close> is set. The result is the value, the text at
  \<open>end\<close> and whether \<open>errno\<close> was set.
\<close>

definition strtol10 :: "string \<Rightarrow> int \<times> string \<times> bool" where
  "strtol10 s =
     (let s1 = dropWhile is_cspace s;
          neg = (s1 \<noteq> [] \<and> hd s1 = CHR ''-'');
          s2 = (if s1 \<noteq> [] \<and> (hd s1 = CHR ''-'' \<or> hd s1 = CHR ''+'') then tl s1 else s1);
          ds = takeWhile is_digit s2;
          v = (if neg then - int (digits_val ds) else int (digits_val ds))
      in if ds = [] then (0, s, False)
         else if v < - (2 ^ 63) then (- (2 ^ 63), dropWhile is_digit s2, True)
         else if 2 ^ 63 \<le> v then (2 ^ 63 - 1, dropWhile is_digit s2, True)
         else (v, dropWhile is_digit s2, False))"

text \<open>The conversion of a \<open>long\<close> to a 32-bit \<open>int\<close>, which keeps the low 32 bits.\<close>

definition int_of_long :: "int \<Rightarrow> int" where
  "int_of_long v = sint (word_of_int v :: 32 word)"

text \<open>
  The idiom the sources use for a numeric configuration value: a missing value, trailing
  characters or a range error select the default.
\<close>

definition config_int :: "string option \<Rightarrow> int \<Rightarrow> int" where
  "config_int v d =
     (case v of None \<Rightarrow> d
      | Some s \<Rightarrow> (case strtol10 s of (n, rest, erange) \<Rightarrow>
          if rest \<noteq> [] \<or> erange then d else int_of_long n))"

lemma digit_val_digit [simp]: "d < 10 \<Longrightarrow> digit_val (digit d) = d"
  by (simp add: digit_val_def digit_def)

lemma is_digit_digit [simp]: "d < 10 \<Longrightarrow> is_digit (digit d)"
  by (simp add: is_digit_def digit_def)

lemma dec_neq_Nil [simp]: "dec n \<noteq> []"
  by (subst dec.simps) simp

lemma dec_all_digits: "\<forall>c \<in> set (dec n). is_digit c"
proof (induction n rule: dec.induct)
  case (1 n)
  then show ?case by (subst dec.simps) auto
qed

lemma digits_val_snoc: "digits_val (ds @ [c]) = digits_val ds * 10 + digit_val c"
  by (simp add: digits_val_def)

lemma digits_val_dec [simp]: "digits_val (dec n) = n"
proof (induction n rule: dec.induct)
  case (1 n)
  show ?case
  proof (cases "n < 10")
    case True
    then show ?thesis by (subst dec.simps) (simp add: digits_val_def)
  next
    case False
    with "1" show ?thesis by (subst dec.simps) (simp add: digits_val_snoc)
  qed
qed

lemma length_dec_le: "0 < k \<Longrightarrow> n < 10 ^ k \<Longrightarrow> length (dec n) \<le> k"
proof (induction n arbitrary: k rule: dec.induct)
  case (1 n)
  show ?case
  proof (cases "n < 10")
    case True
    with "1.prems" show ?thesis by (subst dec.simps) simp
  next
    case False
    obtain j where k: "k = Suc j" using "1.prems"(1) by (cases k) auto
    with "1.prems"(2) False have "0 < j" by (cases j) auto
    note k = k this
    with "1.prems" have "n div 10 < 10 ^ j" by (simp add: less_mult_imp_div_less mult.commute)
    with "1.IH" False k have "length (dec (n div 10)) \<le> j" by blast
    with False k show ?thesis by (subst dec.simps) simp
  qed
qed

lemma takeWhile_dec [simp]: "takeWhile is_digit (dec n) = dec n"
  using dec_all_digits by (simp add: takeWhile_eq_all_conv)

lemma dropWhile_dec [simp]: "dropWhile is_digit (dec n) = []"
  using dec_all_digits by (simp add: dropWhile_eq_Nil_conv)

lemma hd_dec_digit: "is_digit (hd (dec n))"
  using dec_all_digits [of n] dec_neq_Nil [of n] by (metis list.set_sel(1))

lemma digit_not_special:
  assumes "is_digit c"
  shows "\<not> is_cspace c" and "c \<noteq> CHR ''-''" and "c \<noteq> CHR ''+''"
  using assms by (auto simp: is_digit_def is_cspace_def)

text \<open>Printing a number with \<open>%d\<close> and reading it back with \<open>strtol\<close> gives the number.\<close>

lemma strtol10_dec:
  assumes "int n < 2 ^ 63"
  shows "strtol10 (dec n) = (int n, [], False)"
proof -
  have blank: "dropWhile is_cspace (dec n) = dec n"
    using hd_dec_digit [of n] digit_not_special(1) [OF hd_dec_digit [of n]]
    by (cases "dec n") auto
  have sign: "hd (dec n) \<noteq> CHR ''-''" "hd (dec n) \<noteq> CHR ''+''"
    using digit_not_special(2,3) [OF hd_dec_digit [of n]] by auto
  show ?thesis
    using assms sign by (simp add: strtol10_def blank Let_def)
qed

lemma int_of_long_id: "- (2 ^ 31) \<le> v \<Longrightarrow> v < 2 ^ 31 \<Longrightarrow> int_of_long v = v"
  by (simp add: int_of_long_def sint_sbintrunc' signed_take_bit_int_eq_self)

lemma config_int_dec: "n < 2 ^ 31 \<Longrightarrow> config_int (Some (dec n)) d = int n"
  by (simp add: config_int_def strtol10_dec int_of_long_id)

end
