(* ===== verification/Celix.thy ===== *)
theory Celix
  imports Prelude
begin

text \<open>
  The interface to Apache Celix, whose sources are not part of the repository.

  Everything Celix computes that the wiring sources only consult (hashes, filters, bundle
  and service-reference properties, mutex answers, the names of the OSGi property keys) is
  a field of the record \<open>celix\<close>, an argument of every definition that uses it; no law
  about these fields is assumed unless a statement names it.

  The containers are represented by their contents: an \<^verbatim>\<open>array_list\<close> by the list of its
  elements, a \<^verbatim>\<open>hash_map\<close> and a \<^verbatim>\<open>properties\<close> object by the list of its entries in the
  order an iterator visits them. Which place a new entry takes in that order is
  not part of the contract of \<^verbatim>\<open>hash_map\<close>: the field \<open>hm_slot\<close> decides it from
  the hashes. Two keys are the same key of a map when they are the same pointer, or when
  their hashes agree and the equality callback of the map answers non-zero.
\<close>

type_synonym properties = "(string \<times> string) list"
type_synonym service_reference = nat
type_synonym tracker = nat
type_synonym registration = nat

record celix =
  utils_stringHash :: "string \<Rightarrow> 32 word"
  ptr_hash :: "nat \<Rightarrow> 32 word"
  hm_slot :: "32 word list \<Rightarrow> 32 word \<Rightarrow> nat"
  properties_set_null :: "properties \<Rightarrow> string \<Rightarrow> properties"
  utils_stringTrim :: "string \<Rightarrow> string"
  filter_match :: "string option \<Rightarrow> properties \<Rightarrow> bool"
  bundleContext_getProperty :: "string \<Rightarrow> celix_status \<times> string option"
  serviceReference_getProperty :: "service_reference \<Rightarrow> string \<Rightarrow> string option"
  celixThreadMutex_lock :: "string \<Rightarrow> celix_status"
  celixThreadMutex_unlock :: "string \<Rightarrow> celix_status"
  OSGI_RSA_ENDPOINT_FRAMEWORK_UUID :: string
  OSGI_FRAMEWORK_SERVICE_ID :: string
  OSGI_FRAMEWORK_OBJECTCLASS :: string
  OSGI_FRAMEWORK_FRAMEWORK_UUID :: string

section \<open>Hash maps\<close>

definition same_key :: "('k \<Rightarrow> 32 word) \<Rightarrow> ('k \<Rightarrow> 'k \<Rightarrow> bool) \<Rightarrow> 'k \<Rightarrow> 'k \<Rightarrow> bool" where
  "same_key h eq k k' \<longleftrightarrow> k = k' \<or> (h k = h k' \<and> eq k k')"

primrec hashMap_getEntry ::
    "('k \<Rightarrow> 'k \<Rightarrow> bool) \<Rightarrow> ('k \<times> 'v) list \<Rightarrow> 'k \<Rightarrow> ('k \<times> 'v) option" where
  "hashMap_getEntry same [] k = None"
| "hashMap_getEntry same (e # m) k =
     (if same k (fst e) then Some e else hashMap_getEntry same m k)"

definition hashMap_get :: "('k \<Rightarrow> 'k \<Rightarrow> bool) \<Rightarrow> ('k \<times> 'v) list \<Rightarrow> 'k \<Rightarrow> 'v option" where
  "hashMap_get same m k = map_option snd (hashMap_getEntry same m k)"

definition hashMap_containsKey :: "('k \<Rightarrow> 'k \<Rightarrow> bool) \<Rightarrow> ('k \<times> 'v) list \<Rightarrow> 'k \<Rightarrow> bool" where
  "hashMap_containsKey same m k \<longleftrightarrow> hashMap_getEntry same m k \<noteq> None"

text \<open>Storing under a key that is present replaces the value and keeps the stored key.\<close>

primrec hashMap_replace ::
    "('k \<Rightarrow> 'k \<Rightarrow> bool) \<Rightarrow> 'k \<Rightarrow> 'v \<Rightarrow> ('k \<times> 'v) list \<Rightarrow> ('k \<times> 'v) list" where
  "hashMap_replace same k v [] = []"
| "hashMap_replace same k v (e # m) =
     (if same k (fst e) then (fst e, v) # m else e # hashMap_replace same k v m)"

definition hashMap_put ::
    "celix \<Rightarrow> ('k \<Rightarrow> 32 word) \<Rightarrow> ('k \<Rightarrow> 'k \<Rightarrow> bool) \<Rightarrow> 'k \<Rightarrow> 'v \<Rightarrow> ('k \<times> 'v) list \<Rightarrow> ('k \<times> 'v) list"
  where
  "hashMap_put cx h same k v m =
     (if hashMap_containsKey same m k then hashMap_replace same k v m
      else insert_at (hm_slot cx (map (h \<circ> fst) m) (h k)) (k, v) m)"

primrec hashMap_remove :: "('k \<Rightarrow> 'k \<Rightarrow> bool) \<Rightarrow> 'k \<Rightarrow> ('k \<times> 'v) list \<Rightarrow> ('k \<times> 'v) list" where
  "hashMap_remove same k [] = []"
| "hashMap_remove same k (e # m) =
     (if same k (fst e) then m else e # hashMap_remove same k m)"

text \<open>What holds for every key comparison in which the key is the same key as itself.\<close>

lemma getEntry_None_iff: "hashMap_getEntry same m k = None \<longleftrightarrow> (\<forall>e\<in>set m. \<not> same k (fst e))"
  by (induction m) auto

lemma hashMap_get_None_iff: "hashMap_get same m k = None \<longleftrightarrow> (\<forall>e\<in>set m. \<not> same k (fst e))"
  by (simp add: hashMap_get_def getEntry_None_iff)

lemma hashMap_get_put_same:
  assumes "same k k"
  shows "hashMap_get same (hashMap_put cx h same k v m) k = Some v"
proof (cases "hashMap_containsKey same m k")
  case True
  then have "hashMap_get same (hashMap_replace same k v m) k = Some v"
    unfolding hashMap_containsKey_def hashMap_get_def by (induction m) auto
  with True show ?thesis by (simp add: hashMap_put_def)
next
  case False
  then have none: "\<forall>e\<in>set m. \<not> same k (fst e)" by (simp add: hashMap_containsKey_def getEntry_None_iff)
  have "hashMap_get same (insert_at i (k, v) m) k = Some v" for i
    using none assms unfolding hashMap_get_def
  proof (induction m arbitrary: i)
    case (Cons e m)
    then show ?case by (cases i) (simp_all add: insert_at_def)
  qed (simp add: insert_at_def)
  with False show ?thesis by (simp add: hashMap_put_def)
qed

lemma remove_insert_at:
  "\<forall>e\<in>set m. \<not> same k (fst e) \<Longrightarrow> same k k \<Longrightarrow> hashMap_remove same k (insert_at i (k, v) m) = m"
proof (induction m arbitrary: i)
  case Nil
  then show ?case by (simp add: insert_at_def)
next
  case (Cons e m)
  then show ?case by (cases i) (simp_all add: insert_at_def)
qed

lemma remove_put_new:
  assumes "hashMap_get same m k = None" "same k k"
  shows "hashMap_remove same k (hashMap_put cx h same k v m) = m"
  using assms
  by (simp add: hashMap_get_None_iff hashMap_put_def hashMap_containsKey_def getEntry_None_iff remove_insert_at)

lemma hashMap_put_empty: "hashMap_put cx h same k v [] = [(k, v)]"
  by (simp add: hashMap_put_def hashMap_containsKey_def insert_at_def)

lemma hashMap_get_split:
  "hashMap_get same m k = Some v \<Longrightarrow> \<exists>pre k' post. m = pre @ (k', v) # post \<and> hashMap_remove same k m = pre @ post"
proof (induction m)
  case (Cons e m)
  show ?case
  proof (cases "same k (fst e)")
    case True
    then show ?thesis using Cons.prems by (intro exI [of _ "[]"]) (cases e, auto simp: hashMap_get_def)
  next
    case False
    then obtain pre k' post where "m = pre @ (k', v) # post" "hashMap_remove same k m = pre @ post"
      using Cons by (auto simp: hashMap_get_def)
    then show ?thesis using False by (intro exI [of _ "e # pre"]) auto
  qed
qed (simp add: hashMap_get_def)

lemma hashMap_remove_absent: "hashMap_get same m k = None \<Longrightarrow> hashMap_remove same k m = m"
  by (induction m) (auto simp: hashMap_get_def split: if_split_asm)

lemma set_hashMap_remove: "set (hashMap_remove same k m) \<subseteq> set m"
  by (induction m) auto

lemma hashMap_put_split:
  assumes "\<not> hashMap_containsKey same m k"
  shows "\<exists>pre post. m = pre @ post \<and> hashMap_put cx h same k v m = pre @ (k, v) # post"
  using assms by (metis append_take_drop_id hashMap_put_def insert_at_def)

lemma hashMap_put_values: "snd ` set (hashMap_put cx h same k v m) \<subseteq> insert v (snd ` set m)"
proof -
  have "snd ` set (hashMap_replace same k v m) \<subseteq> insert v (snd ` set m)" by (induction m) auto
  then show ?thesis by (auto simp: hashMap_put_def insert_at_def dest!: in_set_takeD in_set_dropD)
qed

lemma map_filter_append: "List.map_filter f (xs @ ys) = List.map_filter f xs @ List.map_filter f ys"
  by (simp add: List.map_filter_def)

lemma hashMap_replace_split:
  assumes "hashMap_get same m k = Some v"
  shows "\<exists>pre k' post. m = pre @ (k', v) # post \<and> (\<forall>v'. hashMap_replace same k v' m = pre @ (k', v') # post)"
  using assms
proof (induction m)
  case (Cons e m)
  show ?case
  proof (cases "same k (fst e)")
    case True
    then show ?thesis using Cons.prems by (intro exI [of _ "[]"]) (cases e, auto simp: hashMap_get_def)
  next
    case False
    then obtain pre k' post where "m = pre @ (k', v) # post" "\<forall>v'. hashMap_replace same k v' m = pre @ (k', v') # post"
      using Cons by (auto simp: hashMap_get_def)
    then show ?thesis using False by (intro exI [of _ "e # pre"]) auto
  qed
qed (simp add: hashMap_get_def)

text \<open>
  What a client of a map relies on, for any key comparison that is the equality on the keys
  it uses.
\<close>

locale key_map =
  fixes cx :: celix
    and h :: "'k \<Rightarrow> 32 word"
    and same :: "'k \<Rightarrow> 'k \<Rightarrow> bool"
  assumes same_iff: "same k k' \<longleftrightarrow> k = k'"
begin

lemma getEntry_map_of:
  "hashMap_getEntry same m k = map_option (Pair k) (map_of m k)"
  by (induction m) (auto simp: same_iff)

lemma get_map_of: "hashMap_get same m k = map_of m k"
  by (simp add: hashMap_get_def getEntry_map_of option.map_comp comp_def option.map_ident)

lemma containsKey_iff: "hashMap_containsKey same m k \<longleftrightarrow> k \<in> fst ` set m"
  by (auto simp: hashMap_containsKey_def getEntry_map_of map_of_eq_None_iff)

lemma keys_replace: "map fst (hashMap_replace same k v m) = map fst m"
  by (induction m) auto

lemma replace_map_of:
  "k \<in> fst ` set m \<Longrightarrow> map_of (hashMap_replace same k v m) = (map_of m)(k \<mapsto> v)"
  by (induction m) (force simp: same_iff fun_eq_iff image_iff)+

lemma map_of_insert_at:
  "k \<notin> fst ` set m \<Longrightarrow> map_of (insert_at i (k, v) m) = (map_of m)(k \<mapsto> v)"
proof -
  assume new: "k \<notin> fst ` set m"
  then have "map_of (take i m) k = None"
    by (auto simp: map_of_eq_None_iff dest: in_set_takeD)
  then have "map_of (insert_at i (k, v) m) = (map_of (take i m @ drop i m))(k \<mapsto> v)"
    by (auto simp: insert_at_def map_add_def fun_eq_iff split: option.splits
             simp del: append_take_drop_id)
  then show ?thesis by simp
qed

lemma put_map_of: "map_of (hashMap_put cx h same k v m) = (map_of m)(k \<mapsto> v)"
  by (simp add: hashMap_put_def containsKey_iff replace_map_of map_of_insert_at)

lemma get_put: "hashMap_get same (hashMap_put cx h same k v m) k' =
    (if k' = k then Some v else hashMap_get same m k')"
  by (simp add: get_map_of put_map_of)

lemma put_distinct:
  "distinct (map fst m) \<Longrightarrow> distinct (map fst (hashMap_put cx h same k v m))"
  by (auto simp: hashMap_put_def containsKey_iff keys_replace map_insert_at)

lemma keys_put: "fst ` set (hashMap_put cx h same k v m) = insert k (fst ` set m)"
proof (cases "k \<in> fst ` set m")
  case True
  have "fst ` set (hashMap_replace same k v m) = fst ` set m"
    by (metis keys_replace list.set_map)
  with True show ?thesis by (auto simp: hashMap_put_def containsKey_iff)
next
  case False
  then show ?thesis by (auto simp: hashMap_put_def containsKey_iff)
qed

lemma put_neq_Nil: "hashMap_put cx h same k v m \<noteq> []"
  using keys_put [of k v m] by auto

lemma remove_map_of:
  "distinct (map fst m) \<Longrightarrow> map_of (hashMap_remove same k m) = (map_of m)(k := None)"
  by (induction m) (auto simp: same_iff fun_eq_iff map_of_eq_None_iff)

lemma remove_distinct:
  "distinct (map fst m) \<Longrightarrow> distinct (map fst (hashMap_remove same k m))"
proof (induction m)
  case Nil
  then show ?case by simp
next
  case (Cons e m)
  have "fst ` set (hashMap_remove same k m) \<subseteq> fst ` set m"
    by (induction m) (auto split: if_splits)
  with Cons show ?case by auto
qed

lemma keys_remove:
  "distinct (map fst m) \<Longrightarrow> fst ` set (hashMap_remove same k m) = fst ` set m - {k}"
  by (induction m) (auto simp: same_iff)

lemma remove_absent: "k \<notin> fst ` set m \<Longrightarrow> hashMap_remove same k m = m"
  by (induction m) (auto simp: same_iff)

end

section \<open>Maps keyed by strings and by pointers\<close>

definition string_same :: "celix \<Rightarrow> string \<Rightarrow> string \<Rightarrow> bool" where
  "string_same cx = same_key (utils_stringHash cx) (=)"

definition ptr_same :: "celix \<Rightarrow> nat \<Rightarrow> nat \<Rightarrow> bool" where
  "ptr_same cx = same_key (ptr_hash cx) (=)"

interpretation smap: key_map cx "utils_stringHash cx" "string_same cx" for cx
  by unfold_locales (auto simp: string_same_def same_key_def)

interpretation pmap: key_map cx "ptr_hash cx" "ptr_same cx" for cx
  by unfold_locales (auto simp: ptr_same_def same_key_def)

lemmas smap_simps [celix_simps] =
  smap.get_map_of smap.put_map_of smap.containsKey_iff smap.keys_put smap.getEntry_map_of

lemmas pmap_simps [celix_simps] =
  pmap.get_map_of pmap.put_map_of pmap.containsKey_iff pmap.keys_put pmap.getEntry_map_of

section \<open>Properties\<close>

definition properties_get :: "celix \<Rightarrow> properties \<Rightarrow> string \<Rightarrow> string option" where
  "properties_get cx p k = hashMap_get (string_same cx) p k"

definition properties_set :: "celix \<Rightarrow> properties \<Rightarrow> string \<Rightarrow> string option \<Rightarrow> properties" where
  "properties_set cx p k v =
     (case v of Some s \<Rightarrow> hashMap_put cx (utils_stringHash cx) (string_same cx) k s p
      | None \<Rightarrow> properties_set_null cx p k)"

lemma properties_get_map_of [celix_simps]: "properties_get cx p k = map_of p k"
  by (simp add: properties_get_def smap.get_map_of)

lemma properties_set_map_of [celix_simps]:
  "map_of (properties_set cx p k (Some v)) = (map_of p)(k \<mapsto> v)"
  by (simp add: properties_set_def smap.put_map_of)

lemma properties_set_distinct [inv_intros]:
  "distinct (map fst p) \<Longrightarrow> distinct (map fst (properties_set cx p k (Some v)))"
  by (simp add: properties_set_def smap.put_distinct)

section \<open>Array lists\<close>

text \<open>An index the list does not have is answered with NULL and changes nothing.\<close>

definition arrayList_get :: "'a list \<Rightarrow> nat \<Rightarrow> 'a option" where
  "arrayList_get xs i = (if i < length xs then Some (xs ! i) else None)"

definition arrayList_remove :: "'a list \<Rightarrow> nat \<Rightarrow> 'a option \<times> 'a list" where
  "arrayList_remove xs i = (if i < length xs then (Some (xs ! i), remove_at i xs) else (None, xs))"

definition arrayList_removeElement :: "'a \<Rightarrow> 'a list \<Rightarrow> 'a list" where
  "arrayList_removeElement x xs = remove1 x xs"

definition arrayList_contains :: "'a list \<Rightarrow> 'a \<Rightarrow> bool" where
  "arrayList_contains xs x \<longleftrightarrow> x \<in> set xs"

section \<open>An instance\<close>

text \<open>
  A Celix that appends new entries, sees only the textual filter
  \<^verbatim>\<open>(key=value)\<close>-free scope \<open>None\<close> as matching everything and answers every lock with
  success; the witnesses run the model on it.
\<close>

definition celix0 :: celix where
  "celix0 = \<lparr> utils_stringHash = (\<lambda>s. of_nat (length s)), ptr_hash = of_nat,
     hm_slot = (\<lambda>hs h. length hs), properties_set_null = (\<lambda>p k. p),
     utils_stringTrim = id, filter_match = (\<lambda>f p. f = None),
     bundleContext_getProperty = (\<lambda>k. (CELIX_SUCCESS, Some ''fw-1'')),
     serviceReference_getProperty = (\<lambda>r k. None),
     celixThreadMutex_lock = (\<lambda>l. CELIX_SUCCESS),
     celixThreadMutex_unlock = (\<lambda>l. CELIX_SUCCESS),
     OSGI_RSA_ENDPOINT_FRAMEWORK_UUID = ''endpoint.framework.uuid'',
     OSGI_FRAMEWORK_SERVICE_ID = ''service.id'',
     OSGI_FRAMEWORK_OBJECTCLASS = ''objectClass'',
     OSGI_FRAMEWORK_FRAMEWORK_UUID = ''org.osgi.framework.uuid'' \<rparr>"

end
