(* ===== verification/Wiring_Endpoint.thy ===== *)
theory Wiring_Endpoint
  imports Celix
begin

text \<open>
  \<^verbatim>\<open>wiring_common_secure\<close>: wiring endpoint descriptions
  (\<^verbatim>\<open>wiring_endpoint_description.c\<close>) and the lookup of the node's address
  (\<^verbatim>\<open>wiring_common_utils.c\<close>).

  Endpoint descriptions are heap objects that the wiring admin, the topology manager and
  the discovery share by pointer and whose properties they change in place. The heap is the
  field \<open>weds\<close> of a \<open>world\<close>: the properties of every live description; the field \<open>rest\<close> is
  the state of whatever other components a caller runs beside it.
\<close>

type_synonym wed_ptr = nat

record 'x world =
  weds :: "wed_ptr \<Rightarrow> properties option"
  rest :: 'x

definition WIRE_ID_KEY :: string where
  "WIRE_ID_KEY = ''org.inaetics.remote.admin.wiring.wireId''"

definition HTTP_URL_KEY :: string where
  "HTTP_URL_KEY = ''inaetics.wiring.https.url''"

definition WIRING_ADMIN_PROPERTIES_CONFIG_KEY :: string where
  "WIRING_ADMIN_PROPERTIES_CONFIG_KEY = ''inaetics.wiring.config''"

definition WIRING_ADMIN_PROPERTIES_SECURE_KEY :: string where
  "WIRING_ADMIN_PROPERTIES_SECURE_KEY = ''inaetics.wiring.secure''"

text \<open>
  \<open>calloc_ok\<close> is the answer of the allocator, \<open>uuid\<close> the text that
  \<^verbatim>\<open>uuid_unparse\<close> makes of a new UUID. The result is the status and the properties of the
  new description; the parameter \<open>properties\<close> is read again after the replacement for a
  NULL argument was made, so a NULL argument is a NULL dereference.
\<close>

definition wiringEndpointDescription_create ::
    "celix \<Rightarrow> bool \<Rightarrow> string \<Rightarrow> string option \<Rightarrow> properties option \<Rightarrow>
     (celix_status \<times> properties option) result" where
  "wiringEndpointDescription_create cx calloc_ok uuid wireId properties =
     (if \<not> calloc_ok then Inr (CELIX_ENOMEM, None)
      else case properties of
        None \<Rightarrow> Inl NullPointer
      | Some p \<Rightarrow>
          (case wireId of
             Some w \<Rightarrow>
               (if properties_get cx p WIRE_ID_KEY = None
                then Inr (CELIX_SUCCESS, Some (properties_set cx p WIRE_ID_KEY (Some w)))
                else Inr (CELIX_SUCCESS, Some p))
           | None \<Rightarrow> Inr (CELIX_SUCCESS, Some (properties_set cx p WIRE_ID_KEY (Some uuid)))))"

definition wiringEndpointDescription_destroy ::
    "wed_ptr \<Rightarrow> 'x world \<Rightarrow> (celix_status \<times> 'x world) result" where
  "wiringEndpointDescription_destroy d w =
     (case weds w d of
        None \<Rightarrow> Inl InvalidFree
      | Some p \<Rightarrow> Inr (CELIX_SUCCESS, w\<lparr>weds := (weds w)(d := None)\<rparr>))"

definition wireId_of :: "celix \<Rightarrow> 'x world \<Rightarrow> wed_ptr \<Rightarrow> string option" where
  "wireId_of cx w d = Option.bind (weds w d) (\<lambda>p. properties_get cx p WIRE_ID_KEY)"

definition wiringEndpointDescription_hash :: "celix \<Rightarrow> 'x world \<Rightarrow> wed_ptr \<Rightarrow> 32 word" where
  "wiringEndpointDescription_hash cx w d =
     (case wireId_of cx w d of Some i \<Rightarrow> utils_stringHash cx i | None \<Rightarrow> 0)"

text \<open>The callback answers 0 for equal wire ids and 1 otherwise, as \<^verbatim>\<open>strcmp\<close> would.\<close>

definition wiringEndpointDescription_equals :: "celix \<Rightarrow> 'x world \<Rightarrow> wed_ptr \<Rightarrow> wed_ptr \<Rightarrow> int" where
  "wiringEndpointDescription_equals cx w d1 d2 =
     (case (wireId_of cx w d1, wireId_of cx w d2) of
        (Some i1, Some i2) \<Rightarrow> if i1 = i2 then 0 else 1
      | _ \<Rightarrow> 1)"

text \<open>
  The key comparison of a map made with
  \<^verbatim>\<open>hashMap_create(wiringEndpointDescription_hash, NULL, wiringEndpointDescription_equals, NULL)\<close>.
\<close>

definition wed_same :: "celix \<Rightarrow> 'x world \<Rightarrow> wed_ptr \<Rightarrow> wed_ptr \<Rightarrow> bool" where
  "wed_same cx w = same_key (wiringEndpointDescription_hash cx w)
     (\<lambda>d d'. wiringEndpointDescription_equals cx w d d' \<noteq> 0)"

text \<open>Reading and changing the properties of a description through its pointer.\<close>

definition wed_deref :: "wed_ptr \<Rightarrow> 'x world \<Rightarrow> properties result" where
  "wed_deref d w = (case weds w d of None \<Rightarrow> Inl NullPointer | Some p \<Rightarrow> Inr p)"

definition wed_set :: "celix \<Rightarrow> wed_ptr \<Rightarrow> string \<Rightarrow> string option \<Rightarrow> 'x world \<Rightarrow> 'x world result" where
  "wed_set cx d k v w =
     rbind (wed_deref d w) (\<lambda>p. Inr (w\<lparr>weds := (weds w)(d \<mapsto> properties_set cx p k v)\<rparr>))"

text \<open>
  \<open>getifaddrs\<close> yields the interfaces in order: for each its name, whether it has an address
  and, when \<^verbatim>\<open>getnameinfo\<close> succeeds on an \<^verbatim>\<open>AF_INET\<close> address, that address as text.
\<close>

record ifaddr =
  ifa_name :: string
  ifa_addr :: bool
  ifa_host :: "string option"

fun wiring_getIpAddress_loop :: "string option \<Rightarrow> ifaddr list \<Rightarrow> celix_status \<times> string option" where
  "wiring_getIpAddress_loop interface [] = (CELIX_BUNDLE_EXCEPTION, None)"
| "wiring_getIpAddress_loop interface (ifa # ifs) =
     (if \<not> ifa_addr ifa then wiring_getIpAddress_loop interface ifs
      else case ifa_host ifa of
        Some host \<Rightarrow>
          (case interface of
             None \<Rightarrow> (CELIX_SUCCESS, Some host)
           | Some i \<Rightarrow> if ifa_name ifa = i then (CELIX_SUCCESS, Some host)
                       else wiring_getIpAddress_loop interface ifs)
      | None \<Rightarrow> wiring_getIpAddress_loop interface ifs)"

definition wiring_getIpAddress ::
    "ifaddr list option \<Rightarrow> string option \<Rightarrow> celix_status \<times> string option" where
  "wiring_getIpAddress getifaddrs interface =
     (case getifaddrs of None \<Rightarrow> (CELIX_BUNDLE_EXCEPTION, None)
      | Some ifs \<Rightarrow> wiring_getIpAddress_loop interface ifs)"

section \<open>Service interfaces\<close>

type_synonym wiring_admin_ptr = nat

text \<open>The structs \<^verbatim>\<open>wiring_admin_service\<close> and \<^verbatim>\<open>wiring_endpoint_listener\<close>.\<close>

record 'x wiring_admin_service =
  exportWiringEndpoint :: "'x world \<Rightarrow> (celix_status \<times> wed_ptr option \<times> 'x world) result"
  removeExportedWiringEndpoint :: "wed_ptr \<Rightarrow> 'x world \<Rightarrow> (celix_status \<times> 'x world) result"
  getWiringAdminProperties :: "'x world \<Rightarrow> properties option"
  importWiringEndpoint :: "wed_ptr \<Rightarrow> 'x world \<Rightarrow> (celix_status \<times> 'x world) result"
  removeImportedWiringEndpoint :: "wed_ptr \<Rightarrow> 'x world \<Rightarrow> (celix_status \<times> 'x world) result"

record 'x wiring_endpoint_listener =
  wiringEndpointAdded :: "wed_ptr \<Rightarrow> string option \<Rightarrow> 'x world \<Rightarrow> (celix_status \<times> 'x world) result"
  wiringEndpointRemoved :: "wed_ptr \<Rightarrow> string option \<Rightarrow> 'x world \<Rightarrow> (celix_status \<times> 'x world) result"

text \<open>
  What a client of a wiring admin relies on: exporting makes a new description with a wire
  id and changes no other description; importing, and giving up an imported endpoint, leave
  every description alone; removing an exported endpoint frees that description only.
\<close>

locale wiring_admin_contract =
  fixes S :: "'x wiring_admin_service"
  assumes export_fresh: "exportWiringEndpoint S w = Inr (CELIX_SUCCESS, e, w') \<Longrightarrow>
      \<exists>d p. e = Some d \<and> weds w d = None \<and> weds w' = (weds w)(d \<mapsto> p) \<and> map_of p WIRE_ID_KEY \<noteq> None"
    and import_weds: "importWiringEndpoint S d w = Inr (st, w') \<Longrightarrow> weds w' = weds w"
    and removeImported_weds: "removeImportedWiringEndpoint S d w = Inr (st, w') \<Longrightarrow> weds w' = weds w"
    and removeExported_weds: "removeExportedWiringEndpoint S d w = Inr (st, w') \<Longrightarrow>
      weds w' = (weds w)(d := None)"

text \<open>
  What a client of a listener relies on: a notification keeps every description alive and
  leaves its wire id alone (a listener may change other properties of a description).
\<close>

definition wires_kept :: "celix \<Rightarrow> 'x world \<Rightarrow> 'x world \<Rightarrow> bool" where
  "wires_kept cx w w' \<longleftrightarrow> dom (weds w') = dom (weds w) \<and> (\<forall>d. wireId_of cx w' d = wireId_of cx w d)"

lemma wires_kept_refl [simp]: "wires_kept cx w w"
  by (simp add: wires_kept_def)

lemma wires_kept_trans: "wires_kept cx w1 w2 \<Longrightarrow> wires_kept cx w2 w3 \<Longrightarrow> wires_kept cx w1 w3"
  by (simp add: wires_kept_def)

lemma wires_kept_weds: "weds w' = weds w \<Longrightarrow> wires_kept cx w w'"
  by (simp add: wires_kept_def wireId_of_def)

locale listener_contract =
  fixes cx :: celix
    and L :: "'x wiring_endpoint_listener"
  assumes added_keeps: "wiringEndpointAdded L d s w = Inr (st, w') \<Longrightarrow> wires_kept cx w w'"
    and removed_keeps: "wiringEndpointRemoved L d s w = Inr (st, w') \<Longrightarrow> wires_kept cx w w'"

section \<open>Lemmas\<close>

lemma wireId_of_Some:
  "wireId_of cx w d = Some i \<longleftrightarrow> (\<exists>p. weds w d = Some p \<and> map_of p WIRE_ID_KEY = Some i)"
  by (auto simp: wireId_of_def properties_get_map_of bind_eq_Some_conv)

lemma wireId_of_cong: "weds w d = weds w' d \<Longrightarrow> wireId_of cx w d = wireId_of cx w' d"
  by (simp add: wireId_of_def)

lemma wed_hash_cong: "weds w = weds w' \<Longrightarrow> wiringEndpointDescription_hash cx w = wiringEndpointDescription_hash cx w'"
  by (simp add: wiringEndpointDescription_hash_def wireId_of_def fun_eq_iff)

lemma wed_same_cong:
  assumes "weds w = weds w'"
  shows "wed_same cx w = wed_same cx w'"
proof -
  have "wiringEndpointDescription_equals cx w = wiringEndpointDescription_equals cx w'"
    using assms by (simp add: wiringEndpointDescription_equals_def wireId_of_def fun_eq_iff)
  then show ?thesis using wed_hash_cong [OF assms] by (simp add: wed_same_def)
qed

lemma wed_same_refl [simp]: "wed_same cx w d d"
  by (simp add: wed_same_def same_key_def)

text \<open>
  The key comparison of the endpoint maps: two different pointers are the same key exactly
  when their hashes collide although their wire ids differ or are missing.
\<close>

lemma wed_same_iff:
  "wed_same cx w d d' \<longleftrightarrow>
     d = d' \<or>
     (wiringEndpointDescription_hash cx w d = wiringEndpointDescription_hash cx w d' \<and>
      \<not> (\<exists>i. wireId_of cx w d = Some i \<and> wireId_of cx w d' = Some i))"
  by (auto simp: wed_same_def same_key_def wiringEndpointDescription_equals_def
           split: option.splits if_splits)

text \<open>Where wire ids are present and their hashes do not collide, the key is the pointer.\<close>

definition wed_keys_ok :: "celix \<Rightarrow> 'x world \<Rightarrow> wed_ptr set \<Rightarrow> bool" where
  "wed_keys_ok cx w D \<longleftrightarrow>
     (\<forall>d\<in>D. wireId_of cx w d \<noteq> None) \<and>
     (\<forall>d\<in>D. \<forall>d'\<in>D. wiringEndpointDescription_hash cx w d = wiringEndpointDescription_hash cx w d'
        \<longrightarrow> wireId_of cx w d = wireId_of cx w d')"

lemma wed_same_ptr:
  "wed_keys_ok cx w D \<Longrightarrow> d \<in> D \<Longrightarrow> d' \<in> D \<Longrightarrow> wed_same cx w d d' \<longleftrightarrow> d = d'"
  unfolding wed_keys_ok_def wed_same_iff by (metis not_None_eq)

lemma create_wireId:
  assumes "wiringEndpointDescription_create cx True uuid wireId (Some p) = Inr (s, Some p')"
  shows "map_of p' WIRE_ID_KEY =
    Some (case wireId of None \<Rightarrow> uuid
          | Some i \<Rightarrow> (case map_of p WIRE_ID_KEY of None \<Rightarrow> i | Some j \<Rightarrow> j))"
  using assms
  by (auto simp: wiringEndpointDescription_create_def celix_simps split: option.splits if_splits)

text \<open>The loop picks the first interface that has an IPv4 address and the asked-for name.\<close>

definition ifa_usable :: "string option \<Rightarrow> ifaddr \<Rightarrow> bool" where
  "ifa_usable i a \<longleftrightarrow> ifa_addr a \<and> ifa_host a \<noteq> None \<and> (i = None \<or> i = Some (ifa_name a))"

lemma getIpAddress_loop_find:
  "wiring_getIpAddress_loop i ifs =
     (case find (ifa_usable i) ifs of
        Some a \<Rightarrow> (CELIX_SUCCESS, ifa_host a)
      | None \<Rightarrow> (CELIX_BUNDLE_EXCEPTION, None))"
  by (induction ifs) (auto simp: ifa_usable_def split: option.splits)

end
