(* ===== verification/Endpoint_Codec.thy ===== *)
theory Endpoint_Codec
  imports Celix
begin

text \<open>
  The text form in which endpoint properties are stored in etcd:
  \<^verbatim>\<open>wiring_endpoint_writer.c\<close> prints them, \<^verbatim>\<open>wiring_endpoint_reader.c\<close> reads them back.
  Both work on fixed buffers; a write behind a buffer is the fault \<open>BufferOverflow\<close>.
\<close>

definition WIRING_ENDPOINT_PROP_MAX_KEY_LENGTH :: nat where
  "WIRING_ENDPOINT_PROP_MAX_KEY_LENGTH = 1024"

definition WIRING_ENDPOINT_PROP_MAX_VALUE_LENGTH :: nat where
  "WIRING_ENDPOINT_PROP_MAX_VALUE_LENGTH = 1024"

definition MAX_VALUE_LENGTH :: nat where
  "MAX_VALUE_LENGTH = 4096"

lemmas buffer_sizes =
  WIRING_ENDPOINT_PROP_MAX_KEY_LENGTH_def WIRING_ENDPOINT_PROP_MAX_VALUE_LENGTH_def

section \<open>The writer\<close>

definition needs_escape :: "char \<Rightarrow> bool" where
  "needs_escape c \<longleftrightarrow> c = CHR ''#'' \<or> c = CHR ''!'' \<or> c = CHR ''=''"

text \<open>
  The copy loop of the writer into a buffer of \<open>cap\<close> characters that holds \<open>buf\<close> so far;
  the write index is the length of \<open>buf\<close>. The last write is the terminating NUL.
\<close>

fun store_copy :: "nat \<Rightarrow> string \<Rightarrow> string \<Rightarrow> string result" where
  "store_copy cap [] buf = (if length buf < cap then Inr buf else Inl BufferOverflow)"
| "store_copy cap (c # cs) buf =
     (if needs_escape c
      then if length buf + 1 < cap then store_copy cap cs (buf @ [CHR 0x5C, c])
           else Inl BufferOverflow
      else if length buf < cap then store_copy cap cs (buf @ [c])
           else Inl BufferOverflow)"

text \<open>
  One round of the entry loop: \<open>pos\<close> is the offset of \<open>outStr\<close> from the start of the
  buffer, \<open>out\<close> the text in the buffer. \<^verbatim>\<open>snprintf\<close> answers the length it would have
  needed, so \<open>pos\<close> can pass the end; then \<open>end - outStr\<close> is negative and becomes a huge
  size.
\<close>

definition store_entry :: "string \<times> string \<Rightarrow> nat \<times> string \<Rightarrow> (nat \<times> string) result" where
  "store_entry e st =
     (case (e, st) of ((keyStr, valStr), (pos, out)) \<Rightarrow>
        rbind (store_copy WIRING_ENDPOINT_PROP_MAX_KEY_LENGTH
                 (take WIRING_ENDPOINT_PROP_MAX_KEY_LENGTH keyStr) []) (\<lambda>key.
        rbind (store_copy WIRING_ENDPOINT_PROP_MAX_VALUE_LENGTH valStr []) (\<lambda>value.
          let line = key @ ''='' @ value @ [CHR 0x0A] in
          if MAX_VALUE_LENGTH < pos then Inl BufferOverflow
          else Inr (pos + length line,
                    if pos < MAX_VALUE_LENGTH
                    then out @ snprintf (MAX_VALUE_LENGTH - pos) line else out))))"

text \<open>The result \<open>None\<close> says that the output buffer was not written at all.\<close>

definition wiringEndpoint_properties_store ::
    "properties \<Rightarrow> (celix_status \<times> string option) result" where
  "wiringEndpoint_properties_store p =
     (if length p > 0
      then rbind (rfold store_entry p (0, [])) (\<lambda>(pos, out). Inr (CELIX_SUCCESS, Some out))
      else Inr (CELIX_SUCCESS, None))"

section \<open>The reader\<close>

text \<open>\<open>strtok_r\<close> with the delimiter newline: the non-empty pieces between newlines.\<close>

fun strtok_lines :: "string \<Rightarrow> string \<Rightarrow> string list" where
  "strtok_lines [] cur = (if cur = [] then [] else [cur])"
| "strtok_lines (c # cs) cur =
     (if c = CHR 0x0A then (if cur = [] then strtok_lines cs [] else cur # strtok_lines cs [])
      else strtok_lines cs (cur @ [c]))"

datatype rd_target = OutNone | OutKey | OutValue

text \<open>
  The locals of the line loop: \<open>rd_out\<close> is where \<open>output\<close> points, \<open>rd_buf\<close> the text written
  there so far (\<open>outputPos\<close> is its length), \<open>rd_key\<close> the key once the separator was seen.
\<close>

record rd =
  precedingCharIsBackslash :: bool
  rd_out :: rd_target
  rd_buf :: string
  rd_key :: string
  isComment :: bool

definition rd_init :: rd where
  "rd_init = \<lparr>precedingCharIsBackslash = False, rd_out = OutNone, rd_buf = [], rd_key = [],
     isComment = False\<rparr>"

definition rd_push :: "char \<Rightarrow> rd \<Rightarrow> rd result" where
  "rd_push c st =
     (if length (rd_buf st) < WIRING_ENDPOINT_PROP_MAX_KEY_LENGTH
      then Inr (st\<lparr>rd_buf := rd_buf st @ [c]\<rparr>) else Inl BufferOverflow)"

definition is_blank :: "char \<Rightarrow> bool" where
  "is_blank c \<longleftrightarrow> c = CHR '' '' \<or> c = CHR 0x09"

definition rd_char :: "char \<Rightarrow> rd \<Rightarrow> rd result" where
  "rd_char c st =
     (if is_blank c \<and> rd_out st = OutNone then Inr st
      else
        rbind (if is_blank c then rd_push c st
               else Inr (if rd_out st = OutNone then st\<lparr>rd_out := OutKey\<rparr> else st)) (\<lambda>st.
        if c = CHR ''='' \<or> c = CHR '':'' \<or> c = CHR ''#'' \<or> c = CHR ''!'' then
          (if precedingCharIsBackslash st
           then rbind (rd_push c st) (\<lambda>st. Inr (st\<lparr>precedingCharIsBackslash := False\<rparr>))
           else if c = CHR ''#'' \<or> c = CHR ''!''
           then (if rd_buf st = [] then Inr (st\<lparr>isComment := True\<rparr>) else rd_push c st)
           else if rd_out st = OutValue then rd_push c st
           else rbind (rd_push (CHR 0x00) st) (\<lambda>st'.
                  Inr (st\<lparr>rd_key := rd_buf st, rd_out := OutValue, rd_buf := []\<rparr>)))
        else if c = CHR 0x5C then
          rbind (if precedingCharIsBackslash st then rd_push (CHR 0x5C) st else Inr st) (\<lambda>st.
          Inr (st\<lparr>precedingCharIsBackslash := True\<rparr>))
        else rd_push c (st\<lparr>precedingCharIsBackslash := False\<rparr>)))"

fun rd_chars :: "string \<Rightarrow> rd \<Rightarrow> rd result" where
  "rd_chars [] st = Inr st"
| "rd_chars (c # cs) st =
     rbind (rd_char c st) (\<lambda>st'. if isComment st' then Inr st' else rd_chars cs st')"

definition rd_line :: "string \<Rightarrow> rd result" where
  "rd_line line =
     rbind (rd_chars line rd_init) (\<lambda>st.
       if rd_out st \<noteq> OutNone \<and> WIRING_ENDPOINT_PROP_MAX_KEY_LENGTH \<le> length (rd_buf st)
       then Inl BufferOverflow else Inr st)"

definition rd_keyText :: "rd \<Rightarrow> string" where
  "rd_keyText st = (case rd_out st of OutNone \<Rightarrow> [] | OutKey \<Rightarrow> rd_buf st | OutValue \<Rightarrow> rd_key st)"

definition rd_valueText :: "rd \<Rightarrow> string" where
  "rd_valueText st = (if rd_out st = OutValue then rd_buf st else [])"

definition load_line :: "celix \<Rightarrow> string \<Rightarrow> properties \<Rightarrow> properties result" where
  "load_line cx line p =
     rbind (rd_line line) (\<lambda>st.
       if isComment st then Inr p
       else let key = utils_stringTrim cx (rd_keyText st) in
         if properties_get cx p key = None
         then Inr (properties_set cx p key (Some (utils_stringTrim cx (rd_valueText st))))
         else Inr p)"

definition wiringEndpoint_properties_load ::
    "celix \<Rightarrow> string \<Rightarrow> properties option \<Rightarrow> (celix_status \<times> properties option) result" where
  "wiringEndpoint_properties_load cx inStr properties =
     (case properties of
        None \<Rightarrow> Inr (CELIX_ILLEGAL_STATE, None)
      | Some p \<Rightarrow> rbind (rfold (load_line cx) (strtok_lines inStr []) p)
                    (\<lambda>q. Inr (CELIX_SUCCESS, Some q)))"

section \<open>What the writer writes\<close>

definition escape :: "string \<Rightarrow> string" where
  "escape s = concat (map (\<lambda>c. if needs_escape c then [CHR 0x5C, c] else [c]) s)"

lemma escape_simps [simp]:
  "escape [] = []"
  "escape (c # cs) = (if needs_escape c then [CHR 0x5C, c] else [c]) @ escape cs"
  by (simp_all add: escape_def)

lemma length_escape_ge: "length s \<le> length (escape s)"
  by (induction s) auto

lemma store_copy_eq:
  "length buf \<le> cap \<Longrightarrow> store_copy cap s buf =
     (if length buf + length (escape s) < cap then Inr (buf @ escape s) else Inl BufferOverflow)"
  by (induction cap s buf rule: store_copy.induct) (auto simp: Suc_le_eq)

definition entry_fits :: "string \<times> string \<Rightarrow> bool" where
  "entry_fits e \<longleftrightarrow> length (escape (fst e)) < WIRING_ENDPOINT_PROP_MAX_KEY_LENGTH \<and>
     length (escape (snd e)) < WIRING_ENDPOINT_PROP_MAX_VALUE_LENGTH"

definition entry_line :: "string \<times> string \<Rightarrow> string" where
  "entry_line e = escape (fst e) @ ''='' @ escape (snd e)"

definition entries_text :: "properties \<Rightarrow> string" where
  "entries_text p = concat (map (\<lambda>e. entry_line e @ [CHR 0x0A]) p)"

lemma entries_text_simps [simp]:
  "entries_text [] = []"
  "entries_text (e # p) = entry_line e @ [CHR 0x0A] @ entries_text p"
  by (simp_all add: entries_text_def)

lemma store_entry_fits:
  assumes "entry_fits e"
  shows "store_entry e (length t, take (MAX_VALUE_LENGTH - 1) t) =
    (if MAX_VALUE_LENGTH < length t then Inl BufferOverflow
     else let t' = t @ entry_line e @ [CHR 0x0A] in
       Inr (length t', take (MAX_VALUE_LENGTH - 1) t'))"
proof -
  obtain k v where e: "e = (k, v)" by (cases e)
  have k: "take WIRING_ENDPOINT_PROP_MAX_KEY_LENGTH k = k"
    using assms length_escape_ge [of k] by (simp add: e entry_fits_def)
  show ?thesis
    using assms unfolding e
    by (auto simp: store_entry_def k [unfolded buffer_sizes] store_copy_eq entry_fits_def
        entry_line_def Let_def snprintf_def buffer_sizes MAX_VALUE_LENGTH_def)
qed

lemma rfold_store_entry:
  assumes "\<forall>e\<in>set p. entry_fits e" "p \<noteq> []"
  shows "rfold store_entry p (length t, take (MAX_VALUE_LENGTH - 1) t) =
    (if MAX_VALUE_LENGTH < length (t @ entries_text (butlast p)) then Inl BufferOverflow
     else Inr (length (t @ entries_text p), take (MAX_VALUE_LENGTH - 1) (t @ entries_text p)))"
  using assms
proof (induction p arbitrary: t)
  case Nil
  then show ?case by simp
next
  case (Cons e p)
  let ?t = "t @ entry_line e @ [CHR 0x0A]"
  have e: "store_entry e (length t, take (MAX_VALUE_LENGTH - 1) t) =
    (if MAX_VALUE_LENGTH < length t then Inl BufferOverflow
     else Inr (length ?t, take (MAX_VALUE_LENGTH - 1) ?t))"
    using store_entry_fits [of e t] Cons.prems by (simp add: Let_def)
  show ?case
  proof (cases "p = []")
    case True
    then show ?thesis unfolding rfold.simps e by auto
  next
    case False
    then have "rfold store_entry p (length ?t, take (MAX_VALUE_LENGTH - 1) ?t) =
      (if MAX_VALUE_LENGTH < length (?t @ entries_text (butlast p)) then Inl BufferOverflow
       else Inr (length (?t @ entries_text p), take (MAX_VALUE_LENGTH - 1) (?t @ entries_text p)))"
      using Cons.prems by (intro Cons.IH) auto
    then show ?thesis unfolding rfold.simps e using False
      by (cases "MAX_VALUE_LENGTH < length t") simp_all
  qed
qed

section \<open>What the reader makes of it\<close>

text \<open>The line loop copies a blank twice: once on its own and once as a normal character.\<close>

definition double_blanks :: "string \<Rightarrow> string" where
  "double_blanks s = concat (map (\<lambda>c. if is_blank c then [c, c] else [c]) s)"

lemma double_blanks_simps [simp]:
  "double_blanks [] = []"
  "double_blanks (c # cs) = (if is_blank c then [c, c] else [c]) @ double_blanks cs"
  by (simp_all add: double_blanks_def)

lemma double_blanks_id: "\<forall>c\<in>set s. \<not> is_blank c \<Longrightarrow> double_blanks s = s"
  by (induction s) auto

lemma blank_not_special:
  "is_blank c \<Longrightarrow> c \<noteq> CHR ''='' \<and> c \<noteq> CHR '':'' \<and> c \<noteq> CHR ''#'' \<and> c \<noteq> CHR ''!'' \<and> c \<noteq> CHR 0x5C"
  by (auto simp: is_blank_def)

definition rd_special :: "char \<Rightarrow> bool" where
  "rd_special c \<longleftrightarrow> c = CHR ''='' \<or> c = CHR '':'' \<or> c = CHR ''#'' \<or> c = CHR ''!''"

lemma needs_escape_special: "needs_escape c \<Longrightarrow> rd_special c \<and> \<not> is_blank c \<and> c \<noteq> CHR 0x5C"
  by (auto simp: needs_escape_def rd_special_def is_blank_def)

text \<open>The line loop, one kind of character at a time.\<close>

lemma rd_char_blank:
  "is_blank c \<Longrightarrow> rd_out st \<noteq> OutNone \<Longrightarrow>
   rd_char c st = rbind (rd_push c st) (\<lambda>st. rd_push c (st\<lparr>precedingCharIsBackslash := False\<rparr>))"
  using blank_not_special [of c] unfolding rd_char_def by simp

lemma rd_char_normal:
  "\<not> is_blank c \<Longrightarrow> \<not> rd_special c \<Longrightarrow> c \<noteq> CHR 0x5C \<Longrightarrow>
   rd_char c st = rd_push c (st\<lparr>rd_out := (if rd_out st = OutNone then OutKey else rd_out st),
     precedingCharIsBackslash := False\<rparr>)"
  unfolding rd_char_def rd_special_def by (cases "rd_out st = OutNone") simp_all

lemma rd_char_backslash:
  "\<not> precedingCharIsBackslash st \<Longrightarrow>
   rd_char (CHR 0x5C) st = Inr (st\<lparr>rd_out := (if rd_out st = OutNone then OutKey else rd_out st),
     precedingCharIsBackslash := True\<rparr>)"
  unfolding rd_char_def is_blank_def by (cases "rd_out st = OutNone") simp_all

lemma rd_char_escaped:
  "rd_special c \<Longrightarrow> \<not> is_blank c \<Longrightarrow> precedingCharIsBackslash st \<Longrightarrow> rd_out st \<noteq> OutNone \<Longrightarrow>
   rd_char c st = rbind (rd_push c st) (\<lambda>st. Inr (st\<lparr>precedingCharIsBackslash := False\<rparr>))"
  unfolding rd_char_def rd_special_def by simp

lemma rd_char_colon_value:
  "\<not> precedingCharIsBackslash st \<Longrightarrow> rd_out st = OutValue \<Longrightarrow>
   rd_char (CHR '':'') st = rd_push (CHR '':'') st"
  unfolding rd_char_def is_blank_def by simp

lemma rd_char_separator:
  "\<not> precedingCharIsBackslash st \<Longrightarrow> rd_out st \<noteq> OutValue \<Longrightarrow>
   length (rd_buf st) < WIRING_ENDPOINT_PROP_MAX_KEY_LENGTH \<Longrightarrow>
   rd_char (CHR ''='') st = Inr (st\<lparr>rd_key := rd_buf st, rd_out := OutValue, rd_buf := []\<rparr>)"
  unfolding rd_char_def is_blank_def rd_push_def by (cases "rd_out st = OutNone") simp_all

lemma rd_chars_value_char:
  assumes "rd_out st = OutValue" "\<not> precedingCharIsBackslash st" "\<not> isComment st"
    and "c \<noteq> CHR 0x5C"
    and "length (rd_buf st) + length (double_blanks [c]) \<le> WIRING_ENDPOINT_PROP_MAX_KEY_LENGTH"
  shows "rd_chars (escape [c] @ rest) st =
    rd_chars rest (st\<lparr>rd_buf := rd_buf st @ double_blanks [c]\<rparr>)"
proof -
  consider (blank) "is_blank c" | (esc) "needs_escape c" | (colon) "c = CHR '':''"
    | (normal) "\<not> is_blank c" "\<not> rd_special c"
    by (auto simp: rd_special_def needs_escape_def)
  then show ?thesis
  proof cases
    case blank
    then have "\<not> needs_escape c" by (auto dest: needs_escape_special)
    with blank assms show ?thesis by (cases st) (simp add: rd_char_blank rd_push_def)
  next
    case esc
    note sp = needs_escape_special [OF esc]
    show ?thesis using esc sp assms
      by (cases st) (simp add: rd_char_backslash rd_char_escaped rd_push_def)
  next
    case colon
    then have "\<not> needs_escape c" "\<not> is_blank c" by (auto simp: needs_escape_def is_blank_def)
    with colon assms show ?thesis by (simp add: rd_char_colon_value rd_push_def)
  next
    case normal
    then have "\<not> needs_escape c" by (auto dest: needs_escape_special)
    with normal assms show ?thesis by (cases st) (simp add: rd_char_normal rd_push_def)
  qed
qed

lemma rd_chars_value:
  assumes "rd_out st = OutValue" "\<not> precedingCharIsBackslash st" "\<not> isComment st"
    and "CHR 0x5C \<notin> set v"
    and "length (rd_buf st) + length (double_blanks v) \<le> WIRING_ENDPOINT_PROP_MAX_KEY_LENGTH"
  shows "rd_chars (escape v @ rest) st = rd_chars rest (st\<lparr>rd_buf := rd_buf st @ double_blanks v\<rparr>)"
  using assms
proof (induction v arbitrary: st)
  case Nil
  then show ?case by simp
next
  case (Cons c v)
  let ?st = "st\<lparr>rd_buf := rd_buf st @ double_blanks [c]\<rparr>"
  have "rd_chars (escape (c # v) @ rest) st = rd_chars (escape [c] @ escape v @ rest) st"
    by simp
  also have "\<dots> = rd_chars (escape v @ rest) ?st"
    using Cons.prems by (intro rd_chars_value_char) auto
  also have "\<dots> = rd_chars rest (?st\<lparr>rd_buf := rd_buf ?st @ double_blanks v\<rparr>)"
    using Cons.prems by (intro Cons.IH) auto
  finally show ?case by (simp add: double_blanks_def)
qed

definition clean_key :: "string \<Rightarrow> bool" where
  "clean_key k \<longleftrightarrow> (\<forall>c\<in>set k. \<not> is_cspace c \<and> c \<noteq> CHR 0x5C \<and> c \<noteq> CHR '':'')"

definition clean_value :: "string \<Rightarrow> bool" where
  "clean_value v \<longleftrightarrow> (\<forall>c\<in>set v. \<not> is_cspace c \<and> c \<noteq> CHR 0x5C)"

lemma not_cspace_blank: "\<not> is_cspace c \<Longrightarrow> \<not> is_blank c \<and> c \<noteq> CHR 0x0A"
  by (auto simp: is_cspace_def is_blank_def)

lemma rd_chars_key_char:
  assumes "rd_out st \<noteq> OutValue" "\<not> precedingCharIsBackslash st" "\<not> isComment st"
    and "\<not> is_blank c" "c \<noteq> CHR 0x5C" "c \<noteq> CHR '':''"
    and "length (rd_buf st) < WIRING_ENDPOINT_PROP_MAX_KEY_LENGTH"
  shows "rd_chars (escape [c] @ rest) st =
    rd_chars rest (st\<lparr>rd_out := OutKey, rd_buf := rd_buf st @ [c]\<rparr>)"
proof (cases "needs_escape c")
  case True
  note sp = needs_escape_special [OF True]
  show ?thesis using True sp assms
    by (cases "rd_out st"; cases st) (simp_all add: rd_char_backslash rd_char_escaped rd_push_def)
next
  case False
  then have "\<not> rd_special c" using assms by (auto simp: needs_escape_def rd_special_def)
  with False assms show ?thesis
    by (cases "rd_out st"; cases st) (simp_all add: rd_char_normal rd_push_def)
qed

lemma rd_chars_key:
  assumes "rd_out st \<noteq> OutValue" "\<not> precedingCharIsBackslash st" "\<not> isComment st"
    and "\<forall>c\<in>set k. \<not> is_blank c \<and> c \<noteq> CHR 0x5C \<and> c \<noteq> CHR '':''"
    and "length (rd_buf st) + length k \<le> WIRING_ENDPOINT_PROP_MAX_KEY_LENGTH"
  shows "rd_chars (escape k @ rest) st =
    rd_chars rest (st\<lparr>rd_out := if k = [] then rd_out st else OutKey, rd_buf := rd_buf st @ k\<rparr>)"
  using assms
proof (induction k arbitrary: st)
  case Nil
  then show ?case by simp
next
  case (Cons c k)
  let ?st = "st\<lparr>rd_out := OutKey, rd_buf := rd_buf st @ [c]\<rparr>"
  have "rd_chars (escape (c # k) @ rest) st = rd_chars (escape [c] @ escape k @ rest) st"
    by simp
  also have "\<dots> = rd_chars (escape k @ rest) ?st"
    using Cons.prems by (intro rd_chars_key_char) auto
  also have "\<dots> = rd_chars rest (?st\<lparr>rd_out := if k = [] then rd_out ?st else OutKey,
      rd_buf := rd_buf ?st @ k\<rparr>)"
    using Cons.prems by (intro Cons.IH) auto
  finally show ?case by simp
qed

text \<open>
  One written line, read again: the key comes back as it was; every blank of the value comes
  back twice.
\<close>

lemma rd_line_entry:
  assumes "clean_key k" "CHR 0x5C \<notin> set v"
    and "length k < WIRING_ENDPOINT_PROP_MAX_KEY_LENGTH"
    and "length (double_blanks v) < WIRING_ENDPOINT_PROP_MAX_VALUE_LENGTH"
  shows "rd_line (entry_line (k, v)) = Inr \<lparr>precedingCharIsBackslash = False, rd_out = OutValue,
     rd_buf = double_blanks v, rd_key = k, isComment = False\<rparr>"
proof -
  let ?st1 = "rd_init\<lparr>rd_out := if k = [] then OutNone else OutKey, rd_buf := k\<rparr>"
  let ?st2 = "rd_init\<lparr>rd_out := OutValue, rd_key := k\<rparr>"
  have "\<forall>c\<in>set k. \<not> is_blank c \<and> c \<noteq> CHR 0x5C \<and> c \<noteq> CHR '':''"
    using assms(1) by (auto simp: clean_key_def dest: not_cspace_blank)
  then have "rd_chars (entry_line (k, v)) rd_init = rd_chars (CHR ''='' # escape v) ?st1"
    using assms(3) rd_chars_key [of rd_init k "CHR ''='' # escape v"]
    by (simp add: entry_line_def rd_init_def)
  also have "\<dots> = rd_chars (escape v @ []) ?st2"
    using assms(3) by (simp add: rd_char_separator rd_init_def)
  also have "\<dots> = Inr (?st2\<lparr>rd_buf := double_blanks v\<rparr>)"
    using assms(2,4) by (subst rd_chars_value) (auto simp: rd_init_def buffer_sizes)
  finally show ?thesis using assms(4) by (simp add: rd_line_def rd_init_def buffer_sizes)
qed

lemma strtok_line:
  "CHR 0x0A \<notin> set l \<Longrightarrow> cur @ l \<noteq> [] \<Longrightarrow>
   strtok_lines (l @ CHR 0x0A # rest) cur = (cur @ l) # strtok_lines rest []"
  by (induction l arbitrary: cur) auto

lemma entry_line_no_newline:
  "CHR 0x0A \<notin> set k \<Longrightarrow> CHR 0x0A \<notin> set v \<Longrightarrow> CHR 0x0A \<notin> set (entry_line (k, v))"
  by (auto simp: entry_line_def escape_def split: if_splits)

lemma strtok_entries_text:
  "\<forall>(k, v)\<in>set p. CHR 0x0A \<notin> set k \<and> CHR 0x0A \<notin> set v \<Longrightarrow>
   strtok_lines (entries_text p) [] = map entry_line p"
proof (induction p)
  case (Cons e p)
  then have "CHR 0x0A \<notin> set (entry_line e)" by (cases e) (auto dest: entry_line_no_newline)
  moreover have "entry_line e \<noteq> []" by (simp add: entry_line_def)
  ultimately show ?case using Cons strtok_line [of "entry_line e" "[]" "entries_text p"] by auto
qed simp

section \<open>Correctness\<close>

text \<open>
  C34. The writer on entries that fit their buffers: nothing is written for an empty
  property set; otherwise the buffer gets the escaped \<^verbatim>\<open>key=value\<close> lines cut at 4095 characters,
  and the run overflows the output buffer exactly when the text of all entries but the last
  is longer than 4096 characters.
\<close>

theorem properties_store_spec:
  assumes "\<forall>e\<in>set p. entry_fits e"
  shows "wiringEndpoint_properties_store p =
    (if p = [] then Inr (CELIX_SUCCESS, None)
     else if MAX_VALUE_LENGTH < length (entries_text (butlast p)) then Inl BufferOverflow
     else Inr (CELIX_SUCCESS, Some (take (MAX_VALUE_LENGTH - 1) (entries_text p))))"
  using rfold_store_entry [of p "[]"] assms by (simp add: wiringEndpoint_properties_store_def)

theorem properties_store_spec_witness:
  "wiringEndpoint_properties_store [(''a=b'', ''1#2''), (''k'', ''v'')] =
     Inr (CELIX_SUCCESS, Some (''a'' @ [CHR 0x5C] @ ''=b=1'' @ [CHR 0x5C] @ ''#2'' @ [CHR 0x0A] @
       ''k=v'' @ [CHR 0x0A]))"
  using properties_store_spec [of "[(''a=b'', ''1#2''), (''k'', ''v'')]"]
  by (simp add: entry_fits_def needs_escape_def buffer_sizes MAX_VALUE_LENGTH_def entry_line_def)

text \<open>What the code relies on of \<^verbatim>\<open>utils_stringTrim\<close>: it only removes white space at the ends.\<close>

definition trims_blanks_only :: "celix \<Rightarrow> bool" where
  "trims_blanks_only cx \<longleftrightarrow>
     (\<forall>s. (\<forall>c\<in>set s. \<not> is_cspace c) \<longrightarrow> utils_stringTrim cx s = s)"

lemma load_line_entry:
  assumes "trims_blanks_only cx" "clean_key k" "clean_value v" "entry_fits (k, v)"
  shows "load_line cx (entry_line (k, v)) p =
    Inr (if map_of p k = None then properties_set cx p k (Some v) else p)"
proof -
  have nb: "double_blanks v = v" and bs: "CHR 0x5C \<notin> set v"
    using assms(3) by (auto simp: clean_value_def dest: not_cspace_blank intro!: double_blanks_id)
  have "utils_stringTrim cx k = k" "utils_stringTrim cx v = v"
    using assms by (auto simp: trims_blanks_only_def clean_key_def clean_value_def)
  moreover have "length k < WIRING_ENDPOINT_PROP_MAX_KEY_LENGTH"
    "length v < WIRING_ENDPOINT_PROP_MAX_VALUE_LENGTH"
    using assms(4) length_escape_ge [of k] length_escape_ge [of v] by (auto simp: entry_fits_def)
  ultimately show ?thesis
    using assms(2) nb bs
    by (simp add: load_line_def rd_line_entry rd_keyText_def rd_valueText_def Let_def celix_simps)
qed

lemma rfold_load_line:
  assumes "trims_blanks_only cx" "distinct (map fst p)"
    and "\<forall>(k, v)\<in>set p. clean_key k \<and> clean_value v \<and> entry_fits (k, v)"
    and "fst ` set p \<inter> fst ` set q = {}"
  shows "\<exists>q'. rfold (load_line cx) (map entry_line p) q = Inr q' \<and> map_of q' = map_of q ++ map_of p"
  using assms(2-)
proof (induction p arbitrary: q)
  case Nil
  then show ?case by simp
next
  case (Cons e p)
  obtain k v where e: "e = (k, v)" by (cases e)
  let ?q = "properties_set cx q k (Some v)"
  have step: "load_line cx (entry_line (k, v)) q = Inr ?q"
    using Cons.prems load_line_entry [OF assms(1), of k v q] by (auto simp: e map_of_eq_None_iff)
  have "fst ` set p \<inter> fst ` set ?q = {}"
    using Cons.prems by (auto simp: e properties_set_def smap.keys_put)
  then obtain q' where "rfold (load_line cx) (map entry_line p) ?q = Inr q'"
      "map_of q' = map_of ?q ++ map_of p"
    using Cons.IH [of ?q] Cons.prems by auto
  moreover have "map_of p k = None"
    using Cons.prems by (simp add: e map_of_eq_None_iff)
  then have "map_of ?q ++ map_of p = map_of q ++ map_of ((k, v) # p)"
    by (auto simp: celix_simps map_add_def fun_eq_iff split: option.splits)
  ultimately show ?case unfolding e list.map rfold.simps step rbind_simps by metis
qed

text \<open>A text that fits the output buffer is written in full.\<close>

lemma store_in_full:
  assumes "\<forall>e\<in>set p. entry_fits e" "p \<noteq> []" "length (entries_text p) < MAX_VALUE_LENGTH"
  shows "wiringEndpoint_properties_store p = Inr (CELIX_SUCCESS, Some (entries_text p))"
proof -
  have "length (entries_text (butlast p)) \<le> length (entries_text p)"
    using assms(2) by (induction p) auto
  then show ?thesis
    using assms rfold_store_entry [of p "[]"] by (simp add: wiringEndpoint_properties_store_def)
qed

lemma store_load_id:
  assumes "trims_blanks_only cx" "p \<noteq> []" "distinct (map fst p)"
    and "\<forall>(k, v)\<in>set p. clean_key k \<and> clean_value v \<and> entry_fits (k, v)"
    and "length (entries_text p) < MAX_VALUE_LENGTH"
  shows "\<exists>str q. wiringEndpoint_properties_store p = Inr (CELIX_SUCCESS, Some str) \<and>
    wiringEndpoint_properties_load cx str (Some []) = Inr (CELIX_SUCCESS, Some q) \<and>
    map_of q = map_of p"
proof -
  have st: "wiringEndpoint_properties_store p = Inr (CELIX_SUCCESS, Some (entries_text p))"
    by (rule store_in_full [OF _ assms(2,5)]) (use assms(4) in auto)
  have "\<forall>(k, v)\<in>set p. CHR 0x0A \<notin> set k \<and> CHR 0x0A \<notin> set v"
    using assms(4) by (fastforce simp: clean_key_def clean_value_def dest: not_cspace_blank)
  then have "strtok_lines (entries_text p) [] = map entry_line p"
    by (rule strtok_entries_text)
  moreover obtain q where "rfold (load_line cx) (map entry_line p) [] = Inr q" "map_of q = map_of p"
    using rfold_load_line [OF assms(1,3,4), of "[]"] by auto
  ultimately show ?thesis using st by (simp add: wiringEndpoint_properties_load_def)
qed

text \<open>
  C16. Reading what was written gives the properties back: for property sets whose keys and
  values are free of white space and backslashes, whose keys are free of colons and whose text
  fits the buffers, the reader returns the same mapping from keys to values.
\<close>

theorem store_load_roundtrip:
  assumes "trims_blanks_only cx" "p \<noteq> []" "distinct (map fst p)"
    and "\<forall>(k, v)\<in>set p. clean_key k \<and> clean_value v \<and> entry_fits (k, v)"
    and "length (entries_text p) < MAX_VALUE_LENGTH"
  shows "\<exists>str q. wiringEndpoint_properties_store p = Inr (CELIX_SUCCESS, Some str) \<and>
    wiringEndpoint_properties_load cx str (Some []) = Inr (CELIX_SUCCESS, Some q) \<and>
    map_of q = map_of p"
  using assms by (rule store_load_id)

theorem store_load_roundtrip_witness:
  "\<exists>str q. wiringEndpoint_properties_store [(''a=b'', ''x:#1'')] = Inr (CELIX_SUCCESS, Some str) \<and>
    wiringEndpoint_properties_load celix0 str (Some []) = Inr (CELIX_SUCCESS, Some q) \<and>
    map_of q = map_of [(''a=b'', ''x:#1'')]"
  by (rule store_load_roundtrip)
    (simp_all add: trims_blanks_only_def celix0_def clean_key_def clean_value_def is_cspace_def
      entry_fits_def needs_escape_def buffer_sizes MAX_VALUE_LENGTH_def entry_line_def)

text \<open>
  White space is where the reader does not invert the writer: reading a written line gives
  the key back, but every blank or tab inside the value is doubled (before the final trim).
\<close>

theorem load_doubles_blanks:
  assumes "clean_key k" "CHR 0x5C \<notin> set v" "utils_stringTrim cx k = k"
    and "length k < WIRING_ENDPOINT_PROP_MAX_KEY_LENGTH"
    and "length (double_blanks v) < WIRING_ENDPOINT_PROP_MAX_VALUE_LENGTH"
  shows "\<exists>p. load_line cx (entry_line (k, v)) [] = Inr p \<and>
    properties_get cx p k = Some (utils_stringTrim cx (double_blanks v))"
  using assms rd_line_entry [OF assms(1,2,4,5)]
  by (simp add: load_line_def rd_keyText_def rd_valueText_def Let_def celix_simps)

theorem load_doubles_blanks_witness:
  "\<exists>p. load_line celix0 ''k=a b'' [] = Inr p \<and> properties_get celix0 p ''k'' = Some ''a  b''"
  using load_doubles_blanks [of "''k''" "''a b''" celix0]
  by (simp add: clean_key_def is_cspace_def celix0_def buffer_sizes is_blank_def entry_line_def
      needs_escape_def)

end
