(* ===== verification/Topology_Manager.thy ===== *)
theory Topology_Manager
  imports Wiring_Endpoint
begin

text \<open>
  \<^verbatim>\<open>wiring_topology_manager\<close>: \<^verbatim>\<open>wtm.c\<close>, \<^verbatim>\<open>wtm_wadmin_tracker.c\<close> and
  \<^verbatim>\<open>wtm_wendpointlistener_tracker.c\<close>. The manager keeps the wiring admins, the listeners, the
  exported and imported wires and two waiting lists; it calls wiring admins and listeners
  through their service structs, here records of functions on the world. Log output is left
  out; the locks only matter through the status they answer.
\<close>

record 'x wtm_env =
  wtm_cx :: celix
  wtm_admin :: "wiring_admin_ptr \<Rightarrow> 'x wiring_admin_service"
  wtm_getService :: "service_reference \<Rightarrow> celix_status \<times> 'x wiring_endpoint_listener"

record wtm =
  waList :: "wiring_admin_ptr list"
  listenerList :: "(service_reference \<times> unit) list"
  exportedWiringEndpoints :: "(properties \<times> (wiring_admin_ptr \<times> wed_ptr) list) list"
  waitingForExport :: "properties list"
  waitingForImport :: "properties list"
  importedWiringEndpoints :: "(wed_ptr \<times> wiring_admin_ptr list) list"

definition INAETICS_WIRING_ENDPOINT_LISTENER_SCOPE :: string where
  "INAETICS_WIRING_ENDPOINT_LISTENER_SCOPE = ''wiring.endpoint.listener.scope''"

definition wiringTopologyManager_create :: "bool \<Rightarrow> celix_status \<times> wtm option" where
  "wiringTopologyManager_create malloc_ok =
     (if \<not> malloc_ok then (CELIX_ENOMEM, None)
      else (CELIX_SUCCESS, Some \<lparr>waList = [], listenerList = [], exportedWiringEndpoints = [],
              waitingForExport = [], waitingForImport = [], importedWiringEndpoints = []\<rparr>))"

section \<open>Matching properties\<close>

definition srvc_ignored :: "celix \<Rightarrow> string \<Rightarrow> bool" where
  "srvc_ignored cx k \<longleftrightarrow> k = OSGI_RSA_ENDPOINT_FRAMEWORK_UUID cx \<or> k = OSGI_FRAMEWORK_SERVICE_ID cx \<or>
     k = OSGI_FRAMEWORK_OBJECTCLASS cx \<or> k = ''service.exported.interfaces''"

fun wiringTopologyManager_srvcProperties_hash :: "celix \<Rightarrow> properties \<Rightarrow> 32 word \<Rightarrow> 32 word" where
  "wiringTopologyManager_srvcProperties_hash cx [] hash = hash"
| "wiringTopologyManager_srvcProperties_hash cx ((k, v) # ps) hash =
     wiringTopologyManager_srvcProperties_hash cx ps
       (if \<not> srvc_ignored cx k
        then xor (xor hash (utils_stringHash cx k)) (utils_stringHash cx v) else hash)"

definition srvc_hash :: "celix \<Rightarrow> properties \<Rightarrow> 32 word" where
  "srvc_hash cx p = wiringTopologyManager_srvcProperties_hash cx p 1216721012"

fun wiringTopologyManager_srvcProperties_equals :: "celix \<Rightarrow> properties \<Rightarrow> properties \<Rightarrow> bool" where
  "wiringTopologyManager_srvcProperties_equals cx [] toCompare = True"
| "wiringTopologyManager_srvcProperties_equals cx ((k, v) # ps) toCompare =
     (if \<not> srvc_ignored cx k
      then (case hashMap_get (string_same cx) toCompare k of
              None \<Rightarrow> False
            | Some ref_value \<Rightarrow> if ref_value \<noteq> v then False
                else wiringTopologyManager_srvcProperties_equals cx ps toCompare)
      else wiringTopologyManager_srvcProperties_equals cx ps toCompare)"

definition srvc_same :: "celix \<Rightarrow> properties \<Rightarrow> properties \<Rightarrow> bool" where
  "srvc_same cx = same_key (srvc_hash cx) (wiringTopologyManager_srvcProperties_equals cx)"

fun properties_match :: "celix \<Rightarrow> properties \<Rightarrow> properties \<Rightarrow> bool" where
  "properties_match cx [] reference = True"
| "properties_match cx ((k, v) # ps) reference =
     (if k \<noteq> OSGI_RSA_ENDPOINT_FRAMEWORK_UUID cx \<and> k \<noteq> OSGI_FRAMEWORK_SERVICE_ID cx \<and>
         k \<noteq> OSGI_FRAMEWORK_OBJECTCLASS cx \<and> k \<noteq> ''service.exported.interfaces'' \<and>
         k \<noteq> ''requested.service'' \<and> k \<noteq> ''type''
      then (case hashMap_get (string_same cx) reference k of
              None \<Rightarrow> False
            | Some ref_value \<Rightarrow> if ref_value \<noteq> v then False else properties_match cx ps reference)
      else properties_match cx ps reference)"

section \<open>Notifying listeners\<close>

definition notify_listener ::
    "'x wtm_env \<Rightarrow>
     ('x wiring_endpoint_listener \<Rightarrow> wed_ptr \<Rightarrow> string option \<Rightarrow> 'x world \<Rightarrow> (celix_status \<times> 'x world) result) \<Rightarrow>
     wed_ptr \<Rightarrow> service_reference \<Rightarrow> 'x world \<Rightarrow> 'x world result" where
  "notify_listener env op d ref w =
     (let scope = serviceReference_getProperty (wtm_cx env) ref INAETICS_WIRING_ENDPOINT_LISTENER_SCOPE;
          rsa = serviceReference_getProperty (wtm_cx env) ref ''RSA'';
          (status, listener) = wtm_getService env ref
      in if status = CELIX_SUCCESS
         then rbind (wed_deref d w) (\<lambda>p.
           if filter_match (wtm_cx env) scope p \<or> rsa \<noteq> None
           then rbind (op listener d scope w) (\<lambda>(status, w). Inr w)
           else Inr w)
         else Inr w)"

definition notifyListeners ::
    "'x wtm_env \<Rightarrow>
     ('x wiring_endpoint_listener \<Rightarrow> wed_ptr \<Rightarrow> string option \<Rightarrow> 'x world \<Rightarrow> (celix_status \<times> 'x world) result) \<Rightarrow>
     wtm \<Rightarrow> wed_ptr \<Rightarrow> 'x world \<Rightarrow> (celix_status \<times> 'x world) result" where
  "notifyListeners env op m d w =
     (let status = celixThreadMutex_lock (wtm_cx env) ''listenerListLock''
      in if status = CELIX_SUCCESS
         then rbind (rfold (notify_listener env op d) (map fst (listenerList m)) w) (\<lambda>w.
                Inr (celixThreadMutex_unlock (wtm_cx env) ''listenerListLock'', w))
         else Inr (status, w))"

definition wiringTopologyManager_notifyListenersWiringEndpointAdded ::
    "'x wtm_env \<Rightarrow> wtm \<Rightarrow> wed_ptr \<Rightarrow> 'x world \<Rightarrow> (celix_status \<times> 'x world) result" where
  "wiringTopologyManager_notifyListenersWiringEndpointAdded env =
     notifyListeners env wiringEndpointAdded"

definition wiringTopologyManager_notifyListenersWiringEndpointRemoved ::
    "'x wtm_env \<Rightarrow> wtm \<Rightarrow> wed_ptr \<Rightarrow> 'x world \<Rightarrow> (celix_status \<times> 'x world) result" where
  "wiringTopologyManager_notifyListenersWiringEndpointRemoved env =
     notifyListeners env wiringEndpointRemoved"

section \<open>Exporting wires\<close>

text \<open>
  The result carries what the call left in \<open>*wEndpoint\<close>, which starts as NULL: an admin may
  store a description and still answer a failure.
\<close>

definition wiringTopologyManager_WiringAdminServiceExportWiringEndpoint ::
    "'x wtm_env \<Rightarrow> wtm \<Rightarrow> wiring_admin_ptr \<Rightarrow> properties \<Rightarrow> 'x world \<Rightarrow>
     (celix_status \<times> wed_ptr option \<times> 'x world) result" where
  "wiringTopologyManager_WiringAdminServiceExportWiringEndpoint env m wa srvcProperties w =
     (case getWiringAdminProperties (wtm_admin env wa) w of
        None \<Rightarrow> Inr (CELIX_BUNDLE_EXCEPTION, None, w)
      | Some adminProperties \<Rightarrow>
          if properties_match (wtm_cx env) srvcProperties adminProperties
          then rbind (exportWiringEndpoint (wtm_admin env wa) w) (\<lambda>(status, wEndpoint, w).
            if status \<noteq> CELIX_SUCCESS then Inr (status, wEndpoint, w)
            else case wEndpoint of
              None \<Rightarrow> Inl NullPointer
            | Some d \<Rightarrow>
                let serviceId = properties_get (wtm_cx env) srvcProperties ''service.id''
                in rbind (wed_set (wtm_cx env) d ''requested.service.id'' serviceId w) (\<lambda>w.
                   rbind (wiringTopologyManager_notifyListenersWiringEndpointAdded env m d w)
                     (\<lambda>(status, w). Inr (status, Some d, w))))
          else Inr (CELIX_BUNDLE_EXCEPTION, None, w))"

definition wiringTopologyManager_getWAs :: "wtm \<Rightarrow> wiring_admin_ptr list" where
  "wiringTopologyManager_getWAs m = waList m"

text \<open>The loop over the admins, which stops as soon as \<open>wEndpoint\<close> is set.\<close>

fun export_loop ::
    "'x wtm_env \<Rightarrow> wtm \<Rightarrow> properties \<Rightarrow> wiring_admin_ptr list \<Rightarrow>
     celix_status \<times> wed_ptr option \<times> (wiring_admin_ptr \<times> wed_ptr) list \<times> 'x world \<Rightarrow>
     (celix_status \<times> wed_ptr option \<times> (wiring_admin_ptr \<times> wed_ptr) list \<times> 'x world) result" where
  "export_loop env m p [] s = Inr s"
| "export_loop env m p (wa # was) (status, wEndpoint, wiringAdminList, w) =
     (if wEndpoint \<noteq> None then Inr (status, wEndpoint, wiringAdminList, w)
      else rbind (wiringTopologyManager_WiringAdminServiceExportWiringEndpoint env m wa p w)
        (\<lambda>(status, wEndpoint, w).
           export_loop env m p was (status, wEndpoint,
             (case (if status = CELIX_SUCCESS then wEndpoint else None) of
                Some d \<Rightarrow>
                  hashMap_put (wtm_cx env) (ptr_hash (wtm_cx env)) (ptr_same (wtm_cx env)) wa d wiringAdminList
              | None \<Rightarrow> wiringAdminList), w)))"

text \<open>Re-using a wire: every endpoint of the entry is announced again for the new service.\<close>

fun reuse_loop ::
    "'x wtm_env \<Rightarrow> wtm \<Rightarrow> string option \<Rightarrow> (wiring_admin_ptr \<times> wed_ptr) list \<Rightarrow>
     celix_status \<times> 'x world \<Rightarrow> (celix_status \<times> 'x world) result" where
  "reuse_loop env m serviceId [] s = Inr s"
| "reuse_loop env m serviceId ((wa, d) # es) (status, w) =
     (if status \<noteq> CELIX_SUCCESS then Inr (status, w)
      else rbind (wed_set (wtm_cx env) d ''requested.service.id'' serviceId w) (\<lambda>w.
           rbind (wiringTopologyManager_notifyListenersWiringEndpointAdded env m d w)
             (reuse_loop env m serviceId es)))"

definition wiringTopologyManager_exportWiringEndpoint ::
    "'x wtm_env \<Rightarrow> properties option \<Rightarrow> wtm \<Rightarrow> 'x world \<Rightarrow> (celix_status \<times> wtm \<times> 'x world) result" where
  "wiringTopologyManager_exportWiringEndpoint env srvc m w =
     (case srvc of
        None \<Rightarrow> Inr (CELIX_ILLEGAL_ARGUMENT, m, w)
      | Some srvcProperties \<Rightarrow>
          (case hashMap_get (srvc_same (wtm_cx env)) (exportedWiringEndpoints m) srvcProperties of
             None \<Rightarrow>
               (if wiringTopologyManager_getWAs m \<noteq> []
                then rbind (export_loop env m srvcProperties (wiringTopologyManager_getWAs m)
                             (CELIX_BUNDLE_EXCEPTION, None, [], w))
                  (\<lambda>(status, wEndpoint, wiringAdminList, w).
                     Inr (status, m\<lparr>exportedWiringEndpoints :=
                        hashMap_put (wtm_cx env) (srvc_hash (wtm_cx env)) (srvc_same (wtm_cx env))
                          srvcProperties wiringAdminList (exportedWiringEndpoints m)\<rparr>, w))
                else Inr (CELIX_BUNDLE_EXCEPTION,
                          m\<lparr>waitingForExport := waitingForExport m @ [srvcProperties]\<rparr>, w))
           | Some wiringAdminList \<Rightarrow>
               rbind (reuse_loop env m (properties_get (wtm_cx env) srvcProperties ''service.id'')
                        wiringAdminList (CELIX_SUCCESS, w))
                 (\<lambda>(status, w). Inr (status, m, w))))"

fun remove_exported_loop ::
    "'x wtm_env \<Rightarrow> (wiring_admin_ptr \<times> wed_ptr) list \<Rightarrow> celix_status \<times> 'x world \<Rightarrow>
     (celix_status \<times> 'x world) result" where
  "remove_exported_loop env [] s = Inr s"
| "remove_exported_loop env ((wa, d) # es) (status, w) =
     (if status \<noteq> CELIX_SUCCESS then Inr (status, w)
      else rbind (removeExportedWiringEndpoint (wtm_admin env wa) d w) (\<lambda>(st, w).
           remove_exported_loop env es
             (if st \<noteq> CELIX_SUCCESS then CELIX_BUNDLE_EXCEPTION else status, w)))"

definition wiringTopologyManager_removeExportedWiringEndpoint ::
    "'x wtm_env \<Rightarrow> properties option \<Rightarrow> wtm \<Rightarrow> 'x world \<Rightarrow> (celix_status \<times> wtm \<times> 'x world) result" where
  "wiringTopologyManager_removeExportedWiringEndpoint env props m w =
     (case props of
        None \<Rightarrow> Inr (CELIX_ILLEGAL_ARGUMENT, m, w)
      | Some p \<Rightarrow>
          (let same = srvc_same (wtm_cx env);
               m' = m\<lparr>exportedWiringEndpoints := hashMap_remove same p (exportedWiringEndpoints m)\<rparr>
           in case hashMap_get same (exportedWiringEndpoints m) p of
                None \<Rightarrow> Inr (CELIX_ILLEGAL_STATE, m', w)
              | Some wiringAdminList \<Rightarrow>
                  rbind (remove_exported_loop env wiringAdminList (CELIX_SUCCESS, w))
                    (\<lambda>(status, w). Inr (status, m', w))))"

section \<open>Importing wires\<close>

definition wiringTopologyManager_checkWiringAdminForImportWiringEndpoint ::
    "'x wtm_env \<Rightarrow> wiring_admin_ptr \<Rightarrow> wed_ptr \<Rightarrow> 'x world \<Rightarrow> (celix_status \<times> 'x world) result" where
  "wiringTopologyManager_checkWiringAdminForImportWiringEndpoint env wa d w =
     (case getWiringAdminProperties (wtm_admin env wa) w of
        None \<Rightarrow> Inr (CELIX_BUNDLE_EXCEPTION, w)
      | Some adminProperties \<Rightarrow>
          rbind (wed_deref d w) (\<lambda>p.
            case (properties_get (wtm_cx env) p WIRING_ADMIN_PROPERTIES_CONFIG_KEY,
                  properties_get (wtm_cx env) adminProperties WIRING_ADMIN_PROPERTIES_CONFIG_KEY) of
              (Some wiringConfigEndpoint, Some wiringConfigAdmin) \<Rightarrow>
                if wiringConfigEndpoint = wiringConfigAdmin
                then importWiringEndpoint (wtm_admin env wa) d w
                else Inr (CELIX_BUNDLE_EXCEPTION, w)
            | _ \<Rightarrow> Inr (CELIX_BUNDLE_EXCEPTION, w)))"

text \<open>
  The loop over the local admins; \<open>was\<close> is the admin list of the endpoint that the loop
  extends. The status it ends with is the one of the last admin.
\<close>

fun import_loop ::
    "'x wtm_env \<Rightarrow> wed_ptr \<Rightarrow> wiring_admin_ptr list \<Rightarrow>
     celix_status \<times> wiring_admin_ptr list \<times> 'x world \<Rightarrow>
     (celix_status \<times> wiring_admin_ptr list \<times> 'x world) result" where
  "import_loop env d [] s = Inr s"
| "import_loop env d (wa # localWAs) (status, wiringAdminList, w) =
     (if arrayList_contains wiringAdminList wa
      then import_loop env d localWAs (CELIX_SUCCESS, wiringAdminList, w)
      else rbind (wiringTopologyManager_checkWiringAdminForImportWiringEndpoint env wa d w)
        (\<lambda>(status, w).
           import_loop env d localWAs
             (status, if status = CELIX_SUCCESS then wiringAdminList @ [wa] else wiringAdminList, w)))"

definition wiringTopologyManager_checkWiringEndpointForImportService ::
    "'x wtm_env \<Rightarrow> wed_ptr \<Rightarrow> properties \<Rightarrow> wtm \<Rightarrow> 'x world \<Rightarrow>
     (celix_status \<times> wtm \<times> 'x world) result" where
  "wiringTopologyManager_checkWiringEndpointForImportService env d requiredProperties m w =
     rbind (wed_deref d w) (\<lambda>p.
       if properties_match (wtm_cx env) requiredProperties p
       then (let same = wed_same (wtm_cx env) w;
                 localWAs = wiringTopologyManager_getWAs m
             in case hashMap_get same (importedWiringEndpoints m) d of
                  None \<Rightarrow> if localWAs = [] then Inr (CELIX_BUNDLE_EXCEPTION, m, w) else Inl NullPointer
                | Some wiringAdminList \<Rightarrow>
                    rbind (import_loop env d localWAs (CELIX_BUNDLE_EXCEPTION, wiringAdminList, w))
                      (\<lambda>(status, was, w).
                         Inr (status, m\<lparr>importedWiringEndpoints :=
                                hashMap_replace same d was (importedWiringEndpoints m)\<rparr>, w)))
       else Inr (CELIX_BUNDLE_EXCEPTION, m, w))"

text \<open>
  One endpoint in the inner loop of \<^verbatim>\<open>checkWaitingForImportServices\<close>: on success the element
  at index \<open>i\<close> of the waiting list is removed and the listeners are told.
\<close>

definition check_waiting_endpoint ::
    "'x wtm_env \<Rightarrow> nat \<Rightarrow> properties \<Rightarrow> wed_ptr \<Rightarrow> wtm \<times> 'x world \<Rightarrow> (wtm \<times> 'x world) result" where
  "check_waiting_endpoint env i reqProperties d s =
     (case s of (m, w) \<Rightarrow>
       rbind (wiringTopologyManager_checkWiringEndpointForImportService env d reqProperties m w)
         (\<lambda>(status, m, w).
            if status = CELIX_SUCCESS
            then (let m = m\<lparr>waitingForImport := snd (arrayList_remove (waitingForImport m) i)\<rparr>;
                      requestedService = properties_get (wtm_cx env) reqProperties ''requested.service''
                  in rbind (wed_set (wtm_cx env) d ''requested.service'' requestedService w) (\<lambda>w.
                     rbind (wiringTopologyManager_notifyListenersWiringEndpointAdded env m d w)
                       (\<lambda>(st, w). Inr (m, w))))
            else Inr (m, w)))"

fun check_waiting_loop :: "'x wtm_env \<Rightarrow> nat \<Rightarrow> wtm \<times> 'x world \<Rightarrow> (wtm \<times> 'x world) result" where
  "check_waiting_loop env 0 s = Inr s"
| "check_waiting_loop env (Suc i) s =
     (case arrayList_get (waitingForImport (fst s)) i of
        None \<Rightarrow> Inl NullPointer
      | Some reqProperties \<Rightarrow>
          rbind (rfold (check_waiting_endpoint env i reqProperties)
                   (map fst (importedWiringEndpoints (fst s))) s)
            (check_waiting_loop env i))"

definition wiringTopologyManager_checkWaitingForImportServices ::
    "'x wtm_env \<Rightarrow> wtm \<Rightarrow> 'x world \<Rightarrow> (celix_status \<times> wtm \<times> 'x world) result" where
  "wiringTopologyManager_checkWaitingForImportServices env m w =
     rbind (check_waiting_loop env (length (waitingForImport m)) (m, w))
       (\<lambda>(m, w). Inr (CELIX_SUCCESS, m, w))"

definition wiringTopologyManager_WiringEndpointAdded ::
    "'x wtm_env \<Rightarrow> wed_ptr \<Rightarrow> wtm \<Rightarrow> 'x world \<Rightarrow> (celix_status \<times> wtm \<times> 'x world) result" where
  "wiringTopologyManager_WiringEndpointAdded env d m w =
     (let cx = wtm_cx env;
          m = (if hashMap_get (wed_same cx w) (importedWiringEndpoints m) d = None
               then m\<lparr>importedWiringEndpoints :=
                      hashMap_put cx (wiringEndpointDescription_hash cx w) (wed_same cx w) d []
                        (importedWiringEndpoints m)\<rparr>
               else m)
      in rbind (wiringTopologyManager_checkWaitingForImportServices env m w)
           (\<lambda>(st, m, w). Inr (CELIX_SUCCESS, m, w)))"

definition remove_imported_from ::
    "'x wtm_env \<Rightarrow> wed_ptr \<Rightarrow> wiring_admin_ptr \<Rightarrow> 'x world \<Rightarrow> 'x world result" where
  "remove_imported_from env d wa w =
     rbind (removeImportedWiringEndpoint (wtm_admin env wa) d w) (\<lambda>(st, w). Inr w)"

definition wiringTopologyManager_WiringEndpointRemoved ::
    "'x wtm_env \<Rightarrow> wed_ptr \<Rightarrow> wtm \<Rightarrow> 'x world \<Rightarrow> (celix_status \<times> wtm \<times> 'x world) result" where
  "wiringTopologyManager_WiringEndpointRemoved env d m w =
     (let same = wed_same (wtm_cx env) w;
          m' = m\<lparr>importedWiringEndpoints := hashMap_remove same d (importedWiringEndpoints m)\<rparr>
      in rbind (case hashMap_get same (importedWiringEndpoints m) d of
                  None \<Rightarrow> Inr w
                | Some wiringAdminList \<Rightarrow> rfold (remove_imported_from env d) wiringAdminList w) (\<lambda>w.
         rbind (wiringTopologyManager_notifyListenersWiringEndpointRemoved env m' d w)
           (\<lambda>(st, w). Inr (CELIX_SUCCESS, m', w))))"

text \<open>The loop over the imported endpoints; the flag is \<open>endpointAvailable\<close>.\<close>

definition import_endpoint_step ::
    "'x wtm_env \<Rightarrow> properties \<Rightarrow> wed_ptr \<Rightarrow> bool \<times> celix_status \<times> wtm \<times> 'x world \<Rightarrow>
     (bool \<times> celix_status \<times> wtm \<times> 'x world) result" where
  "import_endpoint_step env rsaProperties d s =
     (case s of (avail, status, m, w) \<Rightarrow>
       rbind (wiringTopologyManager_checkWiringEndpointForImportService env d rsaProperties m w)
         (\<lambda>(st, m, w).
            if st = CELIX_SUCCESS
            then (case properties_get (wtm_cx env) rsaProperties ''requested.service'' of
                    None \<Rightarrow> Inr (True, status, m, w)
                  | Some requestedService \<Rightarrow>
                      rbind (wed_set (wtm_cx env) d ''requested.service'' (Some requestedService) w) (\<lambda>w.
                      rbind (wiringTopologyManager_notifyListenersWiringEndpointAdded env m d w)
                        (\<lambda>(status, w). Inr (True, status, m, w))))
            else Inr (avail, status, m, w)))"

definition wiringTopologyManager_importWiringEndpoint ::
    "'x wtm_env \<Rightarrow> properties \<Rightarrow> wtm \<Rightarrow> 'x world \<Rightarrow> (celix_status \<times> wtm \<times> 'x world) result" where
  "wiringTopologyManager_importWiringEndpoint env rsaProperties m w =
     rbind (rfold (import_endpoint_step env rsaProperties) (map fst (importedWiringEndpoints m))
              (False, CELIX_SUCCESS, m, w))
       (\<lambda>(endpointAvailable, status, m, w).
          Inr (status,
               if \<not> endpointAvailable then m\<lparr>waitingForImport := waitingForImport m @ [rsaProperties]\<rparr>
               else m, w))"

text \<open>
  The removal loop counts up to the size the admin list had at the start while each round
  removes the element at the counter.
\<close>

fun remove_imported_loop ::
    "'x wtm_env \<Rightarrow> wed_ptr \<Rightarrow> nat list \<Rightarrow> celix_status \<times> wiring_admin_ptr list \<times> 'x world \<Rightarrow>
     (celix_status \<times> wiring_admin_ptr list \<times> 'x world) result" where
  "remove_imported_loop env d [] s = Inr s"
| "remove_imported_loop env d (listCnt # cnts) (status, wiringAdminList, w) =
     (case arrayList_remove wiringAdminList listCnt of
        (None, _) \<Rightarrow> Inl NullPointer
      | (Some wa, was) \<Rightarrow>
          rbind (removeImportedWiringEndpoint (wtm_admin env wa) d w) (\<lambda>(st, w).
            remove_imported_loop env d cnts
              (if st \<noteq> CELIX_SUCCESS then CELIX_BUNDLE_EXCEPTION else status, was, w)))"

definition remove_imported_entry ::
    "'x wtm_env \<Rightarrow> properties \<Rightarrow> wed_ptr \<times> wiring_admin_ptr list \<Rightarrow> celix_status \<times> 'x world \<Rightarrow>
     ((wed_ptr \<times> wiring_admin_ptr list) \<times> celix_status \<times> 'x world) result" where
  "remove_imported_entry env props e s =
     (case (e, s) of ((d, wiringAdminList), (status, w)) \<Rightarrow>
       rbind (wed_deref d w) (\<lambda>p.
         if properties_match (wtm_cx env) props p
         then rbind (remove_imported_loop env d [0 ..< length wiringAdminList] (status, wiringAdminList, w))
                (\<lambda>(status, was, w). Inr ((d, was), status, w))
         else Inr ((d, wiringAdminList), status, w)))"

definition wiringTopologyManager_removeImportedWiringEndpoint ::
    "'x wtm_env \<Rightarrow> properties \<Rightarrow> wtm \<Rightarrow> 'x world \<Rightarrow> (celix_status \<times> wtm \<times> 'x world) result" where
  "wiringTopologyManager_removeImportedWiringEndpoint env props m w =
     rbind (rmapfold (remove_imported_entry env props) (importedWiringEndpoints m) (CELIX_SUCCESS, w))
       (\<lambda>(es, status, w). Inr (status, m\<lparr>importedWiringEndpoints := es\<rparr>, w))"

section \<open>Wiring admins coming and going\<close>

definition waAdded_exported ::
    "'x wtm_env \<Rightarrow> wtm \<Rightarrow> wiring_admin_ptr \<Rightarrow> properties \<times> (wiring_admin_ptr \<times> wed_ptr) list \<Rightarrow>
     celix_status \<times> 'x world \<Rightarrow>
     ((properties \<times> (wiring_admin_ptr \<times> wed_ptr) list) \<times> celix_status \<times> 'x world) result" where
  "waAdded_exported env m wa e s =
     (case (e, s) of ((exportedWireProperties, wiringAdminList), (st, w)) \<Rightarrow>
       rbind (wiringTopologyManager_WiringAdminServiceExportWiringEndpoint env m wa exportedWireProperties w)
         (\<lambda>(status, wEndpoint, w).
            Inr ((exportedWireProperties,
                  (case (if status = CELIX_SUCCESS then wEndpoint else None) of
                     Some d \<Rightarrow>
                       hashMap_put (wtm_cx env) (ptr_hash (wtm_cx env)) (ptr_same (wtm_cx env)) wa d wiringAdminList
                   | None \<Rightarrow> wiringAdminList)), status, w)))"

text \<open>
  The loop over the waiting exports: \<open>tried\<close> are the elements the iterator has passed, \<open>todo\<close>
  those it has not. After a removal the code starts over with a new iterator.
\<close>

function waAdded_waiting ::
    "'x wtm_env \<Rightarrow> wtm \<Rightarrow> wiring_admin_ptr \<Rightarrow> properties list \<Rightarrow> properties list \<Rightarrow>
     (properties \<times> (wiring_admin_ptr \<times> wed_ptr) list) list \<Rightarrow> celix_status \<Rightarrow> 'x world \<Rightarrow>
     (properties list \<times> (properties \<times> (wiring_admin_ptr \<times> wed_ptr) list) list \<times> celix_status \<times> 'x world) result"
  where
  "waAdded_waiting env m wa tried [] exported status w = Inr (tried, exported, status, w)"
| "waAdded_waiting env m wa tried (srvcProperties # todo) exported status w =
     rbind (wiringTopologyManager_WiringAdminServiceExportWiringEndpoint env m wa srvcProperties w)
       (\<lambda>(status, wEndpoint, w).
          case (if status = CELIX_SUCCESS then wEndpoint else None) of
            Some d \<Rightarrow>
              waAdded_waiting env m wa [] (tried @ todo)
                (hashMap_put (wtm_cx env) (srvc_hash (wtm_cx env)) (srvc_same (wtm_cx env)) srvcProperties
                   (hashMap_put (wtm_cx env) (ptr_hash (wtm_cx env)) (ptr_same (wtm_cx env)) wa d [])
                   exported) status w
          | None \<Rightarrow> waAdded_waiting env m wa (tried @ [srvcProperties]) todo exported status w)"
  by pat_completeness auto
termination
  by (relation "measures [\<lambda>(env, m, wa, tried, todo, exported, status, w). length tried + length todo,
       \<lambda>(env, m, wa, tried, todo, exported, status, w). length todo]") auto

definition waAdded_imported ::
    "'x wtm_env \<Rightarrow> wiring_admin_ptr \<Rightarrow> wed_ptr \<times> wiring_admin_ptr list \<Rightarrow> celix_status \<times> 'x world \<Rightarrow>
     ((wed_ptr \<times> wiring_admin_ptr list) \<times> celix_status \<times> 'x world) result" where
  "waAdded_imported env wa e s =
     (case (e, s) of ((d, wiringAdminList), (st, w)) \<Rightarrow>
       rbind (wiringTopologyManager_checkWiringAdminForImportWiringEndpoint env wa d w)
         (\<lambda>(status, w).
            Inr ((d, if status = CELIX_SUCCESS then wiringAdminList @ [wa] else wiringAdminList), status, w)))"

definition wiringTopologyManager_waAdded ::
    "'x wtm_env \<Rightarrow> wiring_admin_ptr \<Rightarrow> wtm \<Rightarrow> 'x world \<Rightarrow> (celix_status \<times> wtm \<times> 'x world) result" where
  "wiringTopologyManager_waAdded env wa m w =
     (let m = m\<lparr>waList := waList m @ [wa]\<rparr>
      in rbind (rmapfold (waAdded_exported env m wa) (exportedWiringEndpoints m) (CELIX_SUCCESS, w))
           (\<lambda>(exported, status, w).
         rbind (waAdded_waiting env m wa [] (waitingForExport m) exported status w)
           (\<lambda>(waiting, exported, status, w).
         rbind (rmapfold (waAdded_imported env wa) (importedWiringEndpoints m) (status, w))
           (\<lambda>(imported, status, w).
         rbind (wiringTopologyManager_checkWaitingForImportServices env
                  (m\<lparr>exportedWiringEndpoints := exported, waitingForExport := waiting,
                     importedWiringEndpoints := imported\<rparr>) w)
           (\<lambda>(st, m, w). Inr (status, m, w))))))"

definition waRemoved_exported ::
    "'x wtm_env \<Rightarrow> wtm \<Rightarrow> wiring_admin_ptr \<Rightarrow> properties \<times> (wiring_admin_ptr \<times> wed_ptr) list \<Rightarrow>
     celix_status \<times> 'x world \<Rightarrow>
     ((properties \<times> (wiring_admin_ptr \<times> wed_ptr) list) \<times> celix_status \<times> 'x world) result" where
  "waRemoved_exported env m wa e s =
     (case (e, s) of ((p, wiringAdminMap), (status, w)) \<Rightarrow>
       (case hashMap_get (ptr_same (wtm_cx env)) wiringAdminMap wa of
          None \<Rightarrow> Inr ((p, wiringAdminMap), status, w)
        | Some d \<Rightarrow>
            rbind (wiringTopologyManager_notifyListenersWiringEndpointRemoved env m d w) (\<lambda>(status, w).
            rbind (if status = CELIX_SUCCESS then removeExportedWiringEndpoint (wtm_admin env wa) d w
                   else Inr (status, w)) (\<lambda>(status, w).
              Inr ((p, hashMap_remove (ptr_same (wtm_cx env)) wa wiringAdminMap), status, w)))))"

definition waRemoved_imported ::
    "'x wtm_env \<Rightarrow> wiring_admin_ptr \<Rightarrow> wed_ptr \<times> wiring_admin_ptr list \<Rightarrow> celix_status \<times> 'x world \<Rightarrow>
     ((wed_ptr \<times> wiring_admin_ptr list) \<times> celix_status \<times> 'x world) result" where
  "waRemoved_imported env wa e s =
     (case (e, s) of ((d, wiringAdminList), (status, w)) \<Rightarrow>
       rbind (if arrayList_contains wiringAdminList wa
              then rbind (removeImportedWiringEndpoint (wtm_admin env wa) d w)
                     (\<lambda>(status, w). Inr (arrayList_removeElement wa wiringAdminList, status, w))
              else Inr (wiringAdminList, status, w))
         (\<lambda>(wiringAdminList, status, w).
            Inr ((d, if status = CELIX_SUCCESS then wiringAdminList @ [wa] else wiringAdminList), status, w)))"

definition wiringTopologyManager_waRemoved ::
    "'x wtm_env \<Rightarrow> wiring_admin_ptr \<Rightarrow> wtm \<Rightarrow> 'x world \<Rightarrow> (celix_status \<times> wtm \<times> 'x world) result" where
  "wiringTopologyManager_waRemoved env wa m w =
     rbind (rmapfold (waRemoved_exported env m wa) (exportedWiringEndpoints m) (CELIX_SUCCESS, w))
       (\<lambda>(exported, status, w).
     rbind (rmapfold (waRemoved_imported env wa) (importedWiringEndpoints m) (status, w))
       (\<lambda>(imported, status, w).
     Inr (status, m\<lparr>exportedWiringEndpoints := exported, importedWiringEndpoints := imported,
                    waList := arrayList_removeElement wa (waList m)\<rparr>, w)))"

section \<open>Listeners coming and going\<close>

definition listenerAdded_endpoint ::
    "'x wtm_env \<Rightarrow> 'x wiring_endpoint_listener \<Rightarrow> string option \<Rightarrow> wed_ptr \<Rightarrow> celix_status \<times> 'x world \<Rightarrow>
     (celix_status \<times> 'x world) result" where
  "listenerAdded_endpoint env listener scope d s =
     (case s of (status, w) \<Rightarrow>
       rbind (wed_deref d w) (\<lambda>p.
         if filter_match (wtm_cx env) scope p then wiringEndpointAdded listener d scope w
         else Inr (status, w)))"

definition wiringTopologyManager_wiringEndpointListenerAdded ::
    "'x wtm_env \<Rightarrow> service_reference \<Rightarrow> 'x wiring_endpoint_listener \<Rightarrow> wtm \<Rightarrow> 'x world \<Rightarrow>
     (celix_status \<times> wtm \<times> 'x world) result" where
  "wiringTopologyManager_wiringEndpointListenerAdded env reference listener m w =
     (let cx = wtm_cx env;
          scope = serviceReference_getProperty cx reference INAETICS_WIRING_ENDPOINT_LISTENER_SCOPE;
          own = serviceReference_getProperty cx reference ''WTM''
      in if own = Some ''true'' then Inr (CELIX_SUCCESS, m, w)
         else (let m = (if celixThreadMutex_lock cx ''listenerListLock'' = CELIX_SUCCESS
                        then m\<lparr>listenerList :=
                               hashMap_put cx (ptr_hash cx) (ptr_same cx) reference () (listenerList m)\<rparr>
                        else m);
                   status = celixThreadMutex_lock cx ''exportedWiringEndpointsLock''
               in if status = CELIX_SUCCESS
                  then rbind (rfold (listenerAdded_endpoint env listener scope)
                                (concat (map (map snd \<circ> snd) (exportedWiringEndpoints m))) (status, w))
                         (\<lambda>(status, w). Inr (status, m, w))
                  else Inr (status, m, w)))"

definition wiringTopologyManager_wiringEndpointListenerRemoved ::
    "'x wtm_env \<Rightarrow> service_reference \<Rightarrow> wtm \<Rightarrow> celix_status \<times> wtm" where
  "wiringTopologyManager_wiringEndpointListenerRemoved env reference m =
     (let status = celixThreadMutex_lock (wtm_cx env) ''listenerListLock''
      in if status = CELIX_SUCCESS
         then (celixThreadMutex_unlock (wtm_cx env) ''listenerListLock'',
               m\<lparr>listenerList := hashMap_remove (ptr_same (wtm_cx env)) reference (listenerList m)\<rparr>)
         else (status, m))"

definition wiringTopologyManager_wiringEndpointListenerModified ::
    "'x wtm_env \<Rightarrow> service_reference \<Rightarrow> 'x wiring_endpoint_listener \<Rightarrow> wtm \<Rightarrow> 'x world \<Rightarrow>
     (celix_status \<times> wtm \<times> 'x world) result" where
  "wiringTopologyManager_wiringEndpointListenerModified env reference listener m w =
     (let (status, m) = wiringTopologyManager_wiringEndpointListenerRemoved env reference m
      in if status = CELIX_SUCCESS
         then wiringTopologyManager_wiringEndpointListenerAdded env reference listener m w
         else Inr (status, m, w))"

end
