(* ===== verification/Topology_Correct.thy ===== *)
theory Topology_Correct
  imports Topology_Manager "HOL-Library.Multiset" "HOL-Library.Sublist"
begin

text \<open>
  Correctness of the topology manager: what its property matching decides, how exports and
  imports are carried out and retried, an invariant of every run, and the places where
  removal goes wrong.
\<close>

section \<open>Property matching\<close>

definition match_relevant :: "celix \<Rightarrow> string \<Rightarrow> bool" where
  "match_relevant cx k \<longleftrightarrow> \<not> srvc_ignored cx k \<and> k \<noteq> ''requested.service'' \<and> k \<noteq> ''type''"

lemma properties_match_set:
  "properties_match cx p r \<longleftrightarrow> (\<forall>(k, v)\<in>set p. match_relevant cx k \<longrightarrow> map_of r k = Some v)"
  by (induction cx p r rule: properties_match.induct)
    (auto simp: match_relevant_def srvc_ignored_def smap.get_map_of split: option.splits)

lemma srvcProperties_equals_set:
  "wiringTopologyManager_srvcProperties_equals cx p r \<longleftrightarrow>
     (\<forall>(k, v)\<in>set p. \<not> srvc_ignored cx k \<longrightarrow> map_of r k = Some v)"
  by (induction cx p r rule: wiringTopologyManager_srvcProperties_equals.induct)
    (auto simp: smap.get_map_of split: option.splits)

text \<open>
  A service (or an import request) matches a reference exactly when its relevant
  properties are a sub-map of the reference.
\<close>

theorem properties_match_submap:
  assumes "distinct (map fst p)"
  shows "properties_match cx p r \<longleftrightarrow> (map_of p |` {k. match_relevant cx k}) \<subseteq>\<^sub>m map_of r"
proof
  assume pm: "properties_match cx p r"
  have "map_of r k = Some v" if "(map_of p |` {k. match_relevant cx k}) k = Some v" for k v
    using that pm by (auto simp: properties_match_set restrict_map_def dest!: map_of_SomeD split: if_splits)
  then show "(map_of p |` {k. match_relevant cx k}) \<subseteq>\<^sub>m map_of r"
    by (metis domD map_le_def)
next
  assume sub: "(map_of p |` {k. match_relevant cx k}) \<subseteq>\<^sub>m map_of r"
  have "map_of r k = Some v" if "(k, v) \<in> set p" "match_relevant cx k" for k v
  proof -
    have "(map_of p |` {k. match_relevant cx k}) k = Some v"
      using that assms by simp
    with sub show ?thesis by (metis map_le_def domI)
  qed
  then show "properties_match cx p r" by (auto simp: properties_match_set)
qed

theorem properties_match_submap_witness:
  "properties_match celix0 [(''a'', ''1''), (''service.id'', ''7'')] [(''b'', ''2''), (''a'', ''1'')] \<longleftrightarrow>
   (map_of [(''a'', ''1''), (''service.id'', ''7'')] |` {k. match_relevant celix0 k})
     \<subseteq>\<^sub>m map_of [(''b'', ''2''), (''a'', ''1'')]"
  by (rule properties_match_submap) simp

definition srvc_mix :: "celix \<Rightarrow> string \<times> string \<Rightarrow> 32 word \<Rightarrow> 32 word" where
  "srvc_mix cx e h = xor (xor h (utils_stringHash cx (fst e))) (utils_stringHash cx (snd e))"

lemma srvcProperties_hash_fold:
  "wiringTopologyManager_srvcProperties_hash cx p h =
     fold (srvc_mix cx) (filter (\<lambda>e. \<not> srvc_ignored cx (fst e)) p) h"
  by (induction cx p h rule: wiringTopologyManager_srvcProperties_hash.induct)
    (simp_all add: srvc_mix_def)

lemma srvc_mix_commute: "srvc_mix cx e \<circ> srvc_mix cx e' = srvc_mix cx e' \<circ> srvc_mix cx e"
  by (simp add: srvc_mix_def fun_eq_iff ac_simps)

lemma srvc_hash_cong:
  assumes "distinct (map fst p)" "distinct (map fst q)"
    and "wiringTopologyManager_srvcProperties_equals cx p q"
    and "wiringTopologyManager_srvcProperties_equals cx q p"
  shows "srvc_hash cx p = srvc_hash cx q"
proof -
  let ?f = "filter (\<lambda>e. \<not> srvc_ignored cx (fst e))"
  have "set (?f p) = set (?f q)"
    using assms by (fastforce simp: srvcProperties_equals_set)
  moreover have "distinct (?f p)" "distinct (?f q)"
    using assms by (auto simp: distinct_map)
  ultimately have "mset (?f p) = mset (?f q)"
    using set_eq_iff_mset_eq_distinct [of "?f p" "?f q"] by blast
  then have "fold (srvc_mix cx) (?f p) = fold (srvc_mix cx) (?f q)"
    by (intro fold_multiset_equiv) (simp_all add: srvc_mix_commute)
  then show ?thesis by (simp add: srvc_hash_def srvcProperties_hash_fold)
qed

text \<open>
  The hash of service properties agrees with their comparison: two property sets that
  contain each other's relevant entries, in whatever iteration order and whatever their
  service ids, are the same key of the map of exported wires.
\<close>

theorem srvc_same_if_mutual:
  assumes "distinct (map fst p)" "distinct (map fst q)"
    and "wiringTopologyManager_srvcProperties_equals cx p q"
    and "wiringTopologyManager_srvcProperties_equals cx q p"
  shows "srvc_same cx p q \<and> srvc_same cx q p"
  using assms srvc_hash_cong [OF assms] by (simp add: srvc_same_def same_key_def)

theorem srvc_same_if_mutual_witness:
  "srvc_same celix0 [(''a'', ''1''), (''service.id'', ''7'')] [(''service.id'', ''8''), (''a'', ''1'')] \<and>
   srvc_same celix0 [(''service.id'', ''8''), (''a'', ''1'')] [(''a'', ''1''), (''service.id'', ''7'')]"
  by (rule srvc_same_if_mutual) (simp_all add: srvc_ignored_def celix0_def smap.get_map_of)

section \<open>Exporting\<close>

definition locks_ok :: "'x wtm_env \<Rightarrow> bool" where
  "locks_ok env \<longleftrightarrow> (\<forall>l. celixThreadMutex_lock (wtm_cx env) l = CELIX_SUCCESS \<and>
     celixThreadMutex_unlock (wtm_cx env) l = CELIX_SUCCESS)"

text \<open>Every notification round that ends normally answers the status of the unlock.\<close>

lemma notifyListeners_status:
  "locks_ok env \<Longrightarrow> notifyListeners env op m d w = Inr (st, w') \<Longrightarrow> st = CELIX_SUCCESS"
  by (auto simp: notifyListeners_def locks_ok_def Let_def rbind_eq_Inr)

definition announce ::
    "'x wtm_env \<Rightarrow> wtm \<Rightarrow> properties \<Rightarrow> wed_ptr \<Rightarrow> 'x world \<Rightarrow> (celix_status \<times> 'x world) result" where
  "announce env m srvcProperties d w =
     rbind (wed_set (wtm_cx env) d ''requested.service.id''
              (properties_get (wtm_cx env) srvcProperties ''service.id'') w)
       (wiringTopologyManager_notifyListenersWiringEndpointAdded env m d)"

lemma admin_export_unmatched:
  assumes "getWiringAdminProperties (wtm_admin env wa) w = Some ap"
    and "\<not> properties_match (wtm_cx env) p ap"
  shows "wiringTopologyManager_WiringAdminServiceExportWiringEndpoint env m wa p w =
    Inr (CELIX_BUNDLE_EXCEPTION, None, w)"
  using assms by (simp add: wiringTopologyManager_WiringAdminServiceExportWiringEndpoint_def)

lemma admin_export_matched:
  assumes "getWiringAdminProperties (wtm_admin env wa) w = Some ap"
    and "properties_match (wtm_cx env) p ap"
    and "exportWiringEndpoint (wtm_admin env wa) w = Inr (CELIX_SUCCESS, Some d, w1)"
    and "announce env m p d w1 = Inr (st, w2)"
  shows "wiringTopologyManager_WiringAdminServiceExportWiringEndpoint env m wa p w = Inr (st, Some d, w2)"
  using assms
  by (auto simp: wiringTopologyManager_WiringAdminServiceExportWiringEndpoint_def announce_def
      rbind_eq_Inr)

lemma export_loop_done:
  "wEndpoint \<noteq> None \<Longrightarrow> export_loop env m p was (st, wEndpoint, l, w) = Inr (st, wEndpoint, l, w)"
  by (cases was) simp_all

lemma export_loop_skip:
  assumes "\<forall>wa\<in>set pre. \<exists>ap. getWiringAdminProperties (wtm_admin env wa) w = Some ap \<and>
      \<not> properties_match (wtm_cx env) p ap"
  shows "export_loop env m p (pre @ was) (CELIX_BUNDLE_EXCEPTION, None, l, w) =
    export_loop env m p was (CELIX_BUNDLE_EXCEPTION, None, l, w)"
  using assms
proof (induction pre)
  case (Cons wa pre)
  then have "wiringTopologyManager_WiringAdminServiceExportWiringEndpoint env m wa p w =
      Inr (CELIX_BUNDLE_EXCEPTION, None, w)"
    by (auto intro: admin_export_unmatched)
  with Cons show ?case by simp
qed simp

lemma export_first_capable:
  assumes "hashMap_get (srvc_same (wtm_cx env)) (exportedWiringEndpoints m) p = None"
    and "waList m = pre @ wa # post"
    and "\<forall>wa'\<in>set pre. \<exists>ap. getWiringAdminProperties (wtm_admin env wa') w = Some ap \<and>
      \<not> properties_match (wtm_cx env) p ap"
    and "getWiringAdminProperties (wtm_admin env wa) w = Some ap" "properties_match (wtm_cx env) p ap"
    and "exportWiringEndpoint (wtm_admin env wa) w = Inr (CELIX_SUCCESS, Some d, wE)"
    and "announce env m p d wE = Inr (CELIX_SUCCESS, wN)"
  shows "wiringTopologyManager_exportWiringEndpoint env (Some p) m w =
    Inr (CELIX_SUCCESS, m\<lparr>exportedWiringEndpoints :=
      hashMap_put (wtm_cx env) (srvc_hash (wtm_cx env)) (srvc_same (wtm_cx env)) p [(wa, d)]
        (exportedWiringEndpoints m)\<rparr>, wN)"
proof -
  have "wiringTopologyManager_WiringAdminServiceExportWiringEndpoint env m wa p w =
      Inr (CELIX_SUCCESS, Some d, wN)"
    using assms(4-7) by (rule admin_export_matched)
  then have "export_loop env m p (waList m) (CELIX_BUNDLE_EXCEPTION, None, [], w) =
      Inr (CELIX_SUCCESS, Some d, [(wa, d)], wN)"
    using export_loop_skip [OF assms(3), of m "wa # post" "[]"]
    by (simp add: assms(2) export_loop_done hashMap_put_def hashMap_containsKey_def insert_at_def)
  then show ?thesis
    using assms(1,2)
    by (simp add: wiringTopologyManager_exportWiringEndpoint_def wiringTopologyManager_getWAs_def)
qed

text \<open>
  C21. Exporting a service that has no wire yet: the first admin of the list whose properties
  match makes the wire, the service id is written into the new description before the
  listeners are told, and the wire is recorded under the service's properties with that
  admin as its only admin.
\<close>

theorem export_first_capable_admin:
  assumes "hashMap_get (srvc_same (wtm_cx env)) (exportedWiringEndpoints m) p = None"
    and "waList m = pre @ wa # post"
    and "\<forall>wa'\<in>set pre. \<exists>ap. getWiringAdminProperties (wtm_admin env wa') w = Some ap \<and>
      \<not> properties_match (wtm_cx env) p ap"
    and "getWiringAdminProperties (wtm_admin env wa) w = Some ap" "properties_match (wtm_cx env) p ap"
    and "exportWiringEndpoint (wtm_admin env wa) w = Inr (CELIX_SUCCESS, Some d, wE)"
    and "announce env m p d wE = Inr (CELIX_SUCCESS, wN)"
  shows "wiringTopologyManager_exportWiringEndpoint env (Some p) m w =
    Inr (CELIX_SUCCESS, m\<lparr>exportedWiringEndpoints :=
      hashMap_put (wtm_cx env) (srvc_hash (wtm_cx env)) (srvc_same (wtm_cx env)) p [(wa, d)]
        (exportedWiringEndpoints m)\<rparr>, wN)"
  by (rule export_first_capable [OF assms])

text \<open>
  Two small admins for the witnesses: one whose only property says which configuration it
  speaks and that hands out the description 1, and one that answers with an error.
\<close>

definition demo_admin :: "nat wiring_admin_service" where
  "demo_admin = \<lparr>exportWiringEndpoint = (\<lambda>w. Inr (CELIX_SUCCESS, Some 1, w\<lparr>weds := (weds w)(1 \<mapsto> [(WIRE_ID_KEY, ''w1'')])\<rparr>)),
     removeExportedWiringEndpoint = (\<lambda>d w. Inr (CELIX_SUCCESS, w\<lparr>weds := (weds w)(d := None)\<rparr>)),
     getWiringAdminProperties = (\<lambda>w. Some [(''inaetics.wiring.config'', ''https'')]),
     importWiringEndpoint = (\<lambda>d w. Inr (CELIX_SUCCESS, w\<lparr>rest := rest w + 1\<rparr>)),
     removeImportedWiringEndpoint = (\<lambda>d w. Inr (CELIX_SUCCESS, w\<lparr>rest := rest w - 1\<rparr>))\<rparr>"

definition mute_admin :: "nat wiring_admin_service" where
  "mute_admin = demo_admin\<lparr>getWiringAdminProperties := (\<lambda>w. Some [])\<rparr>"

definition demo_env :: "nat wtm_env" where
  "demo_env = \<lparr>wtm_cx = celix0, wtm_admin = (\<lambda>wa. if wa = 5 then demo_admin else mute_admin),
     wtm_getService = (\<lambda>r. (CELIX_ILLEGAL_STATE,
        \<lparr>wiringEndpointAdded = (\<lambda>d s w. Inr (CELIX_SUCCESS, w)),
         wiringEndpointRemoved = (\<lambda>d s w. Inr (CELIX_SUCCESS, w))\<rparr>))\<rparr>"

definition demo_world :: "nat world" where
  "demo_world = \<lparr>weds = Map.empty, rest = 0\<rparr>"

definition demo_srvc :: properties where
  "demo_srvc = [(''service.id'', ''7''), (''inaetics.wiring.config'', ''https'')]"

definition demo_wtm :: wtm where
  "demo_wtm = \<lparr>waList = [4, 5], listenerList = [], exportedWiringEndpoints = [],
     waitingForExport = [[(''a'', ''1'')], demo_srvc], waitingForImport = [], importedWiringEndpoints = []\<rparr>"

lemmas demo_defs = demo_admin_def mute_admin_def demo_env_def demo_wtm_def demo_world_def demo_srvc_def
  celix0_def

theorem export_first_capable_admin_witness:
  "wiringTopologyManager_exportWiringEndpoint demo_env (Some demo_srvc) demo_wtm demo_world =
    Inr (CELIX_SUCCESS, demo_wtm\<lparr>exportedWiringEndpoints :=
      hashMap_put (wtm_cx demo_env) (srvc_hash (wtm_cx demo_env)) (srvc_same (wtm_cx demo_env)) demo_srvc [(5, 1)]
        (exportedWiringEndpoints demo_wtm)\<rparr>,
      \<lparr>weds = [1 \<mapsto> [(WIRE_ID_KEY, ''w1''), (''requested.service.id'', ''7'')]], rest = 0\<rparr>)"
  by (rule export_first_capable_admin [where wE = "\<lparr>weds = [1 \<mapsto> [(WIRE_ID_KEY, ''w1'')]], rest = 0\<rparr>" and pre = "[4]" and post = "[]" and
        ap = "[(''inaetics.wiring.config'', ''https'')]"])
    (simp_all add: demo_defs announce_def wed_set_def wed_deref_def properties_set_def properties_get_def
      wiringTopologyManager_notifyListenersWiringEndpointAdded_def notifyListeners_def hashMap_get_def
      hashMap_put_def hashMap_containsKey_def string_same_def same_key_def insert_at_def WIRE_ID_KEY_def
      properties_match_set match_relevant_def srvc_ignored_def)

section \<open>Admins of exported wires\<close>

text \<open>
  Every admin that holds an exported wire is a known admin and holds at most one wire per
  service; no admin is listed twice, no listener is registered twice.
\<close>

definition admins_known :: "wiring_admin_ptr set \<Rightarrow> (wiring_admin_ptr \<times> wed_ptr) list \<Rightarrow> bool" where
  "admins_known A l \<longleftrightarrow> distinct (map fst l) \<and> fst ` set l \<subseteq> A"

definition exported_known ::
    "wiring_admin_ptr set \<Rightarrow> (properties \<times> (wiring_admin_ptr \<times> wed_ptr) list) list \<Rightarrow> bool" where
  "exported_known A ex \<longleftrightarrow> (\<forall>(p, l)\<in>set ex. admins_known A l)"

definition wtm_inv :: "wtm \<Rightarrow> bool" where
  "wtm_inv m \<longleftrightarrow> distinct (waList m) \<and> distinct (map fst (listenerList m)) \<and>
     exported_known (set (waList m)) (exportedWiringEndpoints m)"

lemma admins_known_Nil [simp]: "admins_known A []"
  by (simp add: admins_known_def)

lemma admins_known_put:
  "admins_known A l \<Longrightarrow> wa \<in> A \<Longrightarrow> admins_known A (hashMap_put cx (ptr_hash cx) (ptr_same cx) wa d l)"
  by (simp add: admins_known_def pmap.put_distinct pmap.keys_put)

lemma admins_known_mono: "admins_known A l \<Longrightarrow> A \<subseteq> B \<Longrightarrow> admins_known B l"
  by (auto simp: admins_known_def)

lemma admins_known_remove:
  "admins_known A l \<Longrightarrow> admins_known (A - {wa}) (hashMap_remove (ptr_same cx) wa l)"
  by (auto simp: admins_known_def pmap.remove_distinct pmap.keys_remove)

lemma admins_known_absent:
  "admins_known A l \<Longrightarrow> hashMap_get (ptr_same cx) l wa = None \<Longrightarrow> admins_known (A - {wa}) l"
  by (auto simp: admins_known_def pmap.get_map_of map_of_eq_None_iff)

lemma exported_known_put:
  assumes "exported_known A ex" "admins_known A l"
  shows "exported_known A (hashMap_put cx h same p l ex)"
proof -
  have "exported_known A (hashMap_replace same p l ex)"
    using assms by (induction ex) (auto simp: exported_known_def)
  with assms show ?thesis by (auto simp: hashMap_put_def exported_known_def)
qed

lemma exported_known_get: "exported_known A ex \<Longrightarrow> (p, l) \<in> set ex \<Longrightarrow> admins_known A l"
  by (auto simp: exported_known_def)

lemma exported_known_subset: "exported_known A ex \<Longrightarrow> set ex' \<subseteq> set ex \<Longrightarrow> exported_known A ex'"
  by (auto simp: exported_known_def)

lemma export_loop_admins:
  assumes "export_loop env m p was s = Inr s'" "admins_known A (fst (snd (snd s)))" "set was \<subseteq> A"
  shows "admins_known A (fst (snd (snd s')))"
  using assms
  by (induction env m p was s arbitrary: s' rule: export_loop.induct)
    (fastforce simp: rbind_eq_Inr admins_known_put split: if_splits celix_status.splits option.splits
      prod.splits)+

lemma waAdded_waiting_admins:
  assumes "waAdded_waiting env m wa tried todo exported st w = Inr (waiting, exported', st', w')"
    and "exported_known A exported" "wa \<in> A"
  shows "exported_known A exported'"
  using assms
proof (induction env m wa tried todo exported st w
    arbitrary: waiting exported' st' w' rule: waAdded_waiting.induct)
  case (2 env m wa tried p todo exported status w)
  then obtain st1 e1 w1 where call:
    "wiringTopologyManager_WiringAdminServiceExportWiringEndpoint env m wa p w = Inr (st1, e1, w1)"
    by (auto simp: rbind_eq_Inr)
  show ?case
  proof (cases "if st1 = CELIX_SUCCESS then e1 else None")
    case None
    show ?thesis
      by (rule "2.IH"(1) [OF call refl refl None, of waiting exported' st' w'])
        (use "2.prems" call None in auto)
  next
    case (Some d)
    have "admins_known A (hashMap_put (wtm_cx env) (ptr_hash (wtm_cx env)) (ptr_same (wtm_cx env)) wa d [])"
      using "2.prems"(3) by (intro admins_known_put) simp_all
    note put = exported_known_put [OF "2.prems"(2) this]
    show ?thesis
      by (rule "2.IH"(2) [OF call refl refl Some _ put "2.prems"(3)]) (use "2.prems" call Some in auto)
  qed
qed simp

text \<open>What the import side of the manager leaves alone.\<close>

definition wtm_core :: "wtm \<Rightarrow> wiring_admin_ptr list \<times> (service_reference \<times> unit) list \<times>
    (properties \<times> (wiring_admin_ptr \<times> wed_ptr) list) list \<times> properties list" where
  "wtm_core m = (waList m, listenerList m, exportedWiringEndpoints m, waitingForExport m)"

lemma wtm_inv_core: "wtm_core m' = wtm_core m \<Longrightarrow> wtm_inv m \<Longrightarrow> wtm_inv m'"
  by (simp add: wtm_core_def wtm_inv_def)

lemma checkForImportService_core [frame_simps]:
  "wiringTopologyManager_checkWiringEndpointForImportService env d p m w = Inr (st, m', w') \<Longrightarrow>
    wtm_core m' = wtm_core m"
  by (auto simp: wiringTopologyManager_checkWiringEndpointForImportService_def wtm_core_def rbind_eq_Inr
      Let_def split: if_splits option.splits)

lemma check_waiting_endpoint_core:
  "check_waiting_endpoint env i p d s = Inr s' \<Longrightarrow> wtm_core (fst s') = wtm_core (fst s)"
  by (auto simp: check_waiting_endpoint_def rbind_eq_Inr Let_def wtm_core_def
      dest!: checkForImportService_core split: prod.splits if_splits)

lemma check_waiting_loop_core:
  "check_waiting_loop env n s = Inr s' \<Longrightarrow> wtm_core (fst s') = wtm_core (fst s)"
proof (induction n arbitrary: s)
  case (Suc n)
  then obtain p t where p: "arrayList_get (waitingForImport (fst s)) n = Some p"
    and t: "rfold (check_waiting_endpoint env n p) (map fst (importedWiringEndpoints (fst s))) s = Inr t"
    and rest: "check_waiting_loop env n t = Inr s'"
    by (auto simp: rbind_eq_Inr split: option.splits)
  have "wtm_core (fst t) = wtm_core (fst s)"
    by (rule rfold_invariant [OF t, where P = "\<lambda>u. wtm_core (fst u) = wtm_core (fst s)"])
      (auto dest: check_waiting_endpoint_core)
  with Suc.IH [OF rest] show ?case by simp
qed simp

lemma checkWaiting_core:
  "wiringTopologyManager_checkWaitingForImportServices env m w = Inr (st, m', w') \<Longrightarrow>
    wtm_core m' = wtm_core m"
  by (auto simp: wiringTopologyManager_checkWaitingForImportServices_def rbind_eq_Inr
      dest!: check_waiting_loop_core)

lemma endpointAdded_core:
  "wiringTopologyManager_WiringEndpointAdded env d m w = Inr (st, m', w') \<Longrightarrow> wtm_core m' = wtm_core m"
  by (auto simp: wiringTopologyManager_WiringEndpointAdded_def rbind_eq_Inr Let_def wtm_core_def
      dest!: checkWaiting_core split: if_splits)

lemma endpointRemoved_core:
  "wiringTopologyManager_WiringEndpointRemoved env d m w = Inr (st, m', w') \<Longrightarrow> wtm_core m' = wtm_core m"
  by (auto simp: wiringTopologyManager_WiringEndpointRemoved_def rbind_eq_Inr Let_def wtm_core_def)

lemma import_endpoint_step_core:
  "import_endpoint_step env p d s = Inr s' \<Longrightarrow>
    wtm_core (fst (snd (snd s'))) = wtm_core (fst (snd (snd s)))"
  by (auto simp: import_endpoint_step_def rbind_eq_Inr dest!: checkForImportService_core
      split: prod.splits if_splits option.splits)

lemma import_core:
  assumes "wiringTopologyManager_importWiringEndpoint env p m w = Inr (st, m', w')"
  shows "wtm_core m' = wtm_core m"
proof -
  obtain b st1 m1 w1 where
    loop: "rfold (import_endpoint_step env p) (map fst (importedWiringEndpoints m)) (False, CELIX_SUCCESS, m, w) =
        Inr (b, st1, m1, w1)"
    and m': "m' = (if \<not> b then m1\<lparr>waitingForImport := waitingForImport m1 @ [p]\<rparr> else m1)"
    using assms by (auto simp: wiringTopologyManager_importWiringEndpoint_def rbind_eq_Inr)
  have "wtm_core (fst (snd (snd (b, st1, m1, w1)))) = wtm_core m"
    by (rule rfold_invariant [OF loop, where P = "\<lambda>u. wtm_core (fst (snd (snd u))) = wtm_core m"])
      (auto dest: import_endpoint_step_core)
  then show ?thesis by (simp add: m' wtm_core_def)
qed

lemma removeImported_core:
  "wiringTopologyManager_removeImportedWiringEndpoint env p m w = Inr (st, m', w') \<Longrightarrow>
    wtm_core m' = wtm_core m"
  by (auto simp: wiringTopologyManager_removeImportedWiringEndpoint_def rbind_eq_Inr wtm_core_def)

lemmas import_side_core = endpointAdded_core endpointRemoved_core import_core removeImported_core

lemma export_inv:
  assumes "wiringTopologyManager_exportWiringEndpoint env srvc m w = Inr (st, m', w')" "wtm_inv m"
  shows "wtm_inv m'"
proof (cases "\<exists>p. srvc = Some p \<and> hashMap_get (srvc_same (wtm_cx env)) (exportedWiringEndpoints m) p = None \<and>
    waList m \<noteq> []")
  case True
  then obtain p st1 e1 l w1 where
    loop: "export_loop env m p (waList m) (CELIX_BUNDLE_EXCEPTION, None, [], w) = Inr (st1, e1, l, w1)"
    and m': "m' = m\<lparr>exportedWiringEndpoints := hashMap_put (wtm_cx env) (srvc_hash (wtm_cx env))
        (srvc_same (wtm_cx env)) p l (exportedWiringEndpoints m)\<rparr>"
    using assms(1)
    by (auto simp: wiringTopologyManager_exportWiringEndpoint_def wiringTopologyManager_getWAs_def rbind_eq_Inr)
  have "admins_known (set (waList m)) l"
    using export_loop_admins [OF loop, of "set (waList m)"] by simp
  then show ?thesis
    using assms(2) by (simp add: m' wtm_inv_def exported_known_put)
next
  case False
  then show ?thesis
    using assms
    by (auto simp: wiringTopologyManager_exportWiringEndpoint_def wiringTopologyManager_getWAs_def
        rbind_eq_Inr wtm_inv_def split: option.splits if_splits)
qed

lemma removeExported_inv:
  assumes "wiringTopologyManager_removeExportedWiringEndpoint env p m w = Inr (st, m', w')" "wtm_inv m"
  shows "wtm_inv m'"
  using assms
  by (auto simp: wiringTopologyManager_removeExportedWiringEndpoint_def wtm_inv_def rbind_eq_Inr Let_def
      exported_known_subset [OF _ set_hashMap_remove] split: option.splits)

lemma rmapfold_exported_known:
  assumes "rmapfold f ex s = Inr (ex', t)"
    and "\<And>p l s p' l' s'. (p, l) \<in> set ex \<Longrightarrow> f (p, l) s = Inr ((p', l'), s') \<Longrightarrow> admins_known A l'"
  shows "exported_known A ex'"
proof -
  have "list_all2 (\<lambda>x y. admins_known A (snd y)) ex ex'"
    by (rule rmapfold_list_all2 [OF assms(1)]) (use assms(2) in force)
  then show ?thesis
    by (auto simp: exported_known_def list_all2_conv_all_nth in_set_conv_nth) (metis snd_conv)
qed

lemma waAdded_exported_admins:
  assumes "waAdded_exported env m wa (p, l) s = Inr ((p', l'), s')" "admins_known A l" "wa \<in> A"
  shows "admins_known A l'"
  using assms
  by (auto simp: waAdded_exported_def rbind_eq_Inr intro: admins_known_put split: option.splits prod.splits)

lemma waRemoved_exported_admins:
  assumes "waRemoved_exported env m wa (p, l) s = Inr ((p', l'), s')" "admins_known A l"
  shows "admins_known (A - {wa}) l'"
  using assms admins_known_remove [OF assms(2), of wa "wtm_cx env"] admins_known_absent [OF assms(2), of "wtm_cx env" wa]
  by (auto simp: waRemoved_exported_def rbind_eq_Inr split: option.splits prod.splits)

lemma waAdded_inv:
  assumes "wiringTopologyManager_waAdded env wa m w = Inr (st, m', w')" "wtm_inv m" "wa \<notin> set (waList m)"
  shows "wtm_inv m'"
proof -
  let ?m = "m\<lparr>waList := waList m @ [wa]\<rparr>" and ?A = "insert wa (set (waList m))"
  obtain ex st1 w1 wt ex' st2 w2 im st3 w3 st4 where
    e1: "rmapfold (waAdded_exported env ?m wa) (exportedWiringEndpoints m) (CELIX_SUCCESS, w) = Inr (ex, st1, w1)"
    and e2: "waAdded_waiting env ?m wa [] (waitingForExport m) ex st1 w1 = Inr (wt, ex', st2, w2)"
    and e3: "wiringTopologyManager_checkWaitingForImportServices env
        (?m\<lparr>exportedWiringEndpoints := ex', waitingForExport := wt, importedWiringEndpoints := im\<rparr>) w3 = Inr (st4, m', w')"
    using assms(1) by (auto simp: wiringTopologyManager_waAdded_def rbind_eq_Inr Let_def)
  have old: "admins_known ?A l" if "(p, l) \<in> set (exportedWiringEndpoints m)" for p l
    using that assms(2) by (auto simp: wtm_inv_def intro: admins_known_mono exported_known_get)
  have "exported_known ?A ex"
    by (rule rmapfold_exported_known [OF e1]) (blast intro: waAdded_exported_admins old)
  then have "exported_known ?A ex'"
    by (rule waAdded_waiting_admins [OF e2]) simp
  then show ?thesis
    using assms(2,3) by (intro wtm_inv_core [OF checkWaiting_core [OF e3]]) (simp add: wtm_inv_def)
qed

lemma waRemoved_inv:
  assumes "wiringTopologyManager_waRemoved env wa m w = Inr (st, m', w')" "wtm_inv m"
  shows "wtm_inv m'"
proof -
  obtain ex st1 w1 im where
    e1: "rmapfold (waRemoved_exported env m wa) (exportedWiringEndpoints m) (CELIX_SUCCESS, w) = Inr (ex, st1, w1)"
    and m': "m' = m\<lparr>exportedWiringEndpoints := ex, importedWiringEndpoints := im,
                    waList := arrayList_removeElement wa (waList m)\<rparr>"
    using assms(1) by (auto simp: wiringTopologyManager_waRemoved_def rbind_eq_Inr)
  have "exported_known (set (waList m) - {wa}) ex"
    by (rule rmapfold_exported_known [OF e1])
      (use assms(2) in \<open>blast intro: waRemoved_exported_admins exported_known_get dest: wtm_inv_def [THEN iffD1]\<close>)
  then show ?thesis
    using assms(2) by (simp add: m' wtm_inv_def arrayList_removeElement_def)
qed

lemma listenerAdded_inv:
  assumes "wiringTopologyManager_wiringEndpointListenerAdded env r l m w = Inr (st, m', w')" "wtm_inv m"
  shows "wtm_inv m'"
  using assms
  by (auto simp: wiringTopologyManager_wiringEndpointListenerAdded_def wtm_inv_def Let_def rbind_eq_Inr
      pmap.put_distinct split: if_splits)

lemma listenerRemoved_inv:
  assumes "wiringTopologyManager_wiringEndpointListenerRemoved env r m = (st, m')" "wtm_inv m"
  shows "wtm_inv m'"
  using assms
  by (auto simp: wiringTopologyManager_wiringEndpointListenerRemoved_def wtm_inv_def Let_def
      pmap.remove_distinct split: if_splits)

lemma listenerModified_inv:
  assumes "wiringTopologyManager_wiringEndpointListenerModified env r l m w = Inr (st, m', w')" "wtm_inv m"
  shows "wtm_inv m'"
  using assms
  by (auto simp: wiringTopologyManager_wiringEndpointListenerModified_def split: prod.splits if_splits
      dest: listenerRemoved_inv listenerAdded_inv)

section \<open>Runs of the manager\<close>

text \<open>
  The calls the framework and the other bundles make, in any order. The service tracker
  reports an admin that is not known yet; everything else is unrestricted.
\<close>

inductive wtm_step :: "'x wtm_env \<Rightarrow> wtm \<times> 'x world \<Rightarrow> wtm \<times> 'x world \<Rightarrow> bool" for env where
  waAdded: "wa \<notin> set (waList m) \<Longrightarrow> wiringTopologyManager_waAdded env wa m w = Inr (st, m', w') \<Longrightarrow>
    wtm_step env (m, w) (m', w')"
| waRemoved: "wiringTopologyManager_waRemoved env wa m w = Inr (st, m', w') \<Longrightarrow> wtm_step env (m, w) (m', w')"
| endpointAdded: "wiringTopologyManager_WiringEndpointAdded env d m w = Inr (st, m', w') \<Longrightarrow>
    wtm_step env (m, w) (m', w')"
| endpointRemoved: "wiringTopologyManager_WiringEndpointRemoved env d m w = Inr (st, m', w') \<Longrightarrow>
    wtm_step env (m, w) (m', w')"
| export: "wiringTopologyManager_exportWiringEndpoint env srvc m w = Inr (st, m', w') \<Longrightarrow>
    wtm_step env (m, w) (m', w')"
| removeExported: "wiringTopologyManager_removeExportedWiringEndpoint env srvc m w = Inr (st, m', w') \<Longrightarrow>
    wtm_step env (m, w) (m', w')"
| "import": "wiringTopologyManager_importWiringEndpoint env p m w = Inr (st, m', w') \<Longrightarrow>
    wtm_step env (m, w) (m', w')"
| removeImported: "wiringTopologyManager_removeImportedWiringEndpoint env p m w = Inr (st, m', w') \<Longrightarrow>
    wtm_step env (m, w) (m', w')"
| listenerAdded: "wiringTopologyManager_wiringEndpointListenerAdded env r l m w = Inr (st, m', w') \<Longrightarrow>
    wtm_step env (m, w) (m', w')"
| listenerRemoved: "wiringTopologyManager_wiringEndpointListenerRemoved env r m = (st, m') \<Longrightarrow>
    wtm_step env (m, w) (m', w)"
| listenerModified: "wiringTopologyManager_wiringEndpointListenerModified env r l m w = Inr (st, m', w') \<Longrightarrow>
    wtm_step env (m, w) (m', w')"

inductive wtm_reachable :: "'x wtm_env \<Rightarrow> wtm \<times> 'x world \<Rightarrow> bool" for env where
  created: "wiringTopologyManager_create True = (st, Some m) \<Longrightarrow> wtm_reachable env (m, w)"
| step: "wtm_reachable env s \<Longrightarrow> wtm_step env s s' \<Longrightarrow> wtm_reachable env s'"

lemma wtm_step_inv: "wtm_step env s s' \<Longrightarrow> wtm_inv (fst s) \<Longrightarrow> wtm_inv (fst s')"
  by (induction rule: wtm_step.induct)
    (auto intro: waAdded_inv waRemoved_inv export_inv removeExported_inv listenerAdded_inv
      listenerRemoved_inv listenerModified_inv wtm_inv_core import_side_core)



section \<open>Waiting exports\<close>

lemma fst_set_put: "fst ` set m \<subseteq> fst ` set (hashMap_put cx h same k v m)"
proof -
  have "fst ` set (hashMap_replace same k v m) = fst ` set m"
    by (induction m) auto
  then show ?thesis by (auto simp: hashMap_put_def)
qed

lemma containsKey_put_mono:
  "hashMap_containsKey same m k \<Longrightarrow> hashMap_containsKey same (hashMap_put cx h same k' v m) k"
  unfolding hashMap_containsKey_def getEntry_None_iff
  using fst_set_put [of m cx h same k' v] by (auto simp: subset_iff image_iff) (metis fst_conv)

lemma containsKey_put: 
  assumes "\<And>k. same k k"
  shows "hashMap_containsKey same (hashMap_put cx h same k v m) k"
proof (cases "hashMap_containsKey same m k")
  case False
  then have "(k, v) \<in> set (hashMap_put cx h same k v m)" by (simp add: hashMap_put_def)
  then show ?thesis using assms by (force simp: hashMap_containsKey_def getEntry_None_iff)
qed (rule containsKey_put_mono)

lemma srvc_same_refl: "srvc_same cx k k"
  by (simp add: srvc_same_def same_key_def)

text \<open>An admin that always answers the same properties and whose exports and announcements succeed.\<close>

definition reliable_admin :: "'x wtm_env \<Rightarrow> wtm \<Rightarrow> wiring_admin_ptr \<Rightarrow> properties \<Rightarrow> bool" where
  "reliable_admin env m wa ap \<longleftrightarrow>
     (\<forall>w. getWiringAdminProperties (wtm_admin env wa) w = Some ap) \<and>
     (\<forall>w. \<exists>d wE. exportWiringEndpoint (wtm_admin env wa) w = Inr (CELIX_SUCCESS, Some d, wE) \<and>
        (\<forall>p. \<exists>wN. announce env m p d wE = Inr (CELIX_SUCCESS, wN)))"

lemma reliable_admin_export:
  assumes "reliable_admin env m wa ap"
  shows "\<exists>d w'. wiringTopologyManager_WiringAdminServiceExportWiringEndpoint env m wa p w =
    (if properties_match (wtm_cx env) p ap then Inr (CELIX_SUCCESS, Some d, w')
     else Inr (CELIX_BUNDLE_EXCEPTION, None, w))"
proof (cases "properties_match (wtm_cx env) p ap")
  case True
  obtain d wE wN where "getWiringAdminProperties (wtm_admin env wa) w = Some ap"
    "exportWiringEndpoint (wtm_admin env wa) w = Inr (CELIX_SUCCESS, Some d, wE)"
    "announce env m p d wE = Inr (CELIX_SUCCESS, wN)"
    using assms unfolding reliable_admin_def by metis
  with True show ?thesis using admin_export_matched by fastforce
next
  case False
  with assms show ?thesis by (auto simp: reliable_admin_def admin_export_unmatched)
qed

text \<open>
  Asking the admin for a wire returns, whatever it answers. A refusal is an answer that is no
  success or carries no wire.
\<close>

definition export_returns :: "'x wtm_env \<Rightarrow> wtm \<Rightarrow> wiring_admin_ptr \<Rightarrow> bool" where
  "export_returns env m wa \<longleftrightarrow>
     (\<forall>p w. \<exists>r. wiringTopologyManager_WiringAdminServiceExportWiringEndpoint env m wa p w = Inr r)"

definition refused :: "'x wtm_env \<Rightarrow> wtm \<Rightarrow> wiring_admin_ptr \<Rightarrow> properties \<Rightarrow> bool" where
  "refused env m wa p \<longleftrightarrow> (\<exists>w st e w'. wiringTopologyManager_WiringAdminServiceExportWiringEndpoint env m wa p w = Inr (st, e, w') \<and>
     (st \<noteq> CELIX_SUCCESS \<or> e = None))"

lemma reliable_returns: "reliable_admin env m wa ap \<Longrightarrow> export_returns env m wa"
  unfolding export_returns_def by (metis reliable_admin_export)

lemma reliable_refused: "reliable_admin env m wa ap \<Longrightarrow> refused env m wa p \<Longrightarrow> \<not> properties_match (wtm_cx env) p ap"
  unfolding refused_def using reliable_admin_export [of env m wa ap p] by (metis Inr_inject Pair_inject option.distinct(1))

lemma waAdded_waiting_retry:
  assumes "export_returns env m wa" "\<forall>p \<in> set tried. refused env m wa p"
  shows "\<exists>left ex' st' w'. waAdded_waiting env m wa tried todo ex st w = Inr (left, ex', st', w') \<and>
    subseq left (tried @ todo) \<and> (\<forall>p \<in> set left. refused env m wa p) \<and>
    (\<forall>p. (p \<in> set (tried @ todo) \<and> p \<notin> set left \<or> hashMap_containsKey (srvc_same (wtm_cx env)) ex p) \<longrightarrow>
       hashMap_containsKey (srvc_same (wtm_cx env)) ex' p) \<and>
    (\<forall>ap. reliable_admin env m wa ap \<longrightarrow> left = filter (\<lambda>p. \<not> properties_match (wtm_cx env) p ap) (tried @ todo))"
  using assms
proof (induction env m wa tried todo ex st w rule: waAdded_waiting.induct)
  case (1 env m wa tried exported status w)
  have "filter (\<lambda>p. \<not> properties_match (wtm_cx env) p ap) tried = tried" if "reliable_admin env m wa ap" for ap
    using reliable_refused [OF that] 1(2) by (simp add: filter_id_conv)
  then show ?case using 1(2) by auto
next
  case (2 env m wa tried p todo exported status w)
  obtain st e w1 where call: "wiringTopologyManager_WiringAdminServiceExportWiringEndpoint env m wa p w = Inr (st, e, w1)"
    using "2.prems"(1) unfolding export_returns_def by (metis prod_cases3)
  show ?case
  proof (cases "if st = CELIX_SUCCESS then e else None")
    case (Some d)
    let ?ex = "hashMap_put (wtm_cx env) (srvc_hash (wtm_cx env)) (srvc_same (wtm_cx env)) p
        (hashMap_put (wtm_cx env) (ptr_hash (wtm_cx env)) (ptr_same (wtm_cx env)) wa d []) exported"
    obtain left ex' st' w' where run: "waAdded_waiting env m wa [] (tried @ todo) ?ex st w1 = Inr (left, ex', st', w')"
        "subseq left (tried @ todo)" "\<forall>p \<in> set left. refused env m wa p"
        "\<forall>q. (q \<in> set (tried @ todo) \<and> q \<notin> set left \<or> hashMap_containsKey (srvc_same (wtm_cx env)) ?ex q) \<longrightarrow>
           hashMap_containsKey (srvc_same (wtm_cx env)) ex' q"
        "\<forall>ap. reliable_admin env m wa ap \<longrightarrow> left = filter (\<lambda>p. \<not> properties_match (wtm_cx env) p ap) (tried @ todo)"
      using "2.IH"(2) [OF call refl refl Some] "2.prems"(1) by auto
    have "subseq (tried @ todo) (tried @ p # todo)" by (simp add: subseq_append_iff) (metis list_emb_append_mono subseq_Cons' subseq_order.refl)
    then have "subseq left (tried @ p # todo)" using run(2) by (rule subseq_order.trans [rotated])
    moreover have "hashMap_containsKey (srvc_same (wtm_cx env)) ex' p" using run(4) by (simp add: containsKey_put srvc_same_refl)
    moreover have "hashMap_containsKey (srvc_same (wtm_cx env)) exported q \<Longrightarrow> hashMap_containsKey (srvc_same (wtm_cx env)) ex' q" for q
      using run(4) containsKey_put_mono by fast
    moreover have "properties_match (wtm_cx env) p ap" if "reliable_admin env m wa ap" for ap
      using reliable_admin_export [OF that, of p w] call Some by (auto split: if_split_asm)
    moreover have "waAdded_waiting env m wa tried (p # todo) exported status w = Inr (left, ex', st', w')"
      using call Some run(1) by simp
    ultimately show ?thesis using run(3-5) by auto
  next
    case None
    then have ref: "refused env m wa p" using call by (auto simp: refused_def split: if_split_asm)
    from "2.IH"(1) [OF call refl refl None "2.prems"(1)] "2.prems"(2) ref obtain left ex' st' w' where
        "waAdded_waiting env m wa (tried @ [p]) todo exported st w1 = Inr (left, ex', st', w')"
        "subseq left ((tried @ [p]) @ todo)" "\<forall>p \<in> set left. refused env m wa p"
        "\<forall>q. (q \<in> set ((tried @ [p]) @ todo) \<and> q \<notin> set left \<or> hashMap_containsKey (srvc_same (wtm_cx env)) exported q) \<longrightarrow>
           hashMap_containsKey (srvc_same (wtm_cx env)) ex' q"
        "\<forall>ap. reliable_admin env m wa ap \<longrightarrow> left = filter (\<lambda>p. \<not> properties_match (wtm_cx env) p ap) ((tried @ [p]) @ todo)"
      by auto
    then show ?thesis using call None by (intro exI [of _ left] exI [of _ ex'] exI [of _ st'] exI [of _ w']) simp
  qed
qed


text \<open>A service that leaves the queue of a reliable admin and one that stays.\<close>

definition demo_queue :: wtm where
  "demo_queue = demo_wtm\<lparr>waitingForExport := [[(''inaetics.wiring.config'', ''http'')], [(''inaetics.wiring.config'', ''https'')]]\<rparr>"

lemma demo_queue_reliable: "reliable_admin demo_env demo_queue 5 [(''inaetics.wiring.config'', ''https'')]"
  by (simp add: reliable_admin_def demo_queue_def demo_defs announce_def wed_set_def wed_deref_def
      wiringTopologyManager_notifyListenersWiringEndpointAdded_def notifyListeners_def)


section \<open>Importing and giving up imports\<close>

lemma import_loop_status:
  assumes "import_loop env d (was @ [wa]) (st, l, w) = Inr (st', l', w')"
  shows "st' = CELIX_SUCCESS \<longleftrightarrow> wa \<in> set l'"
  using assms
  by (induction was arbitrary: st l w)
    (auto simp: rbind_eq_Inr arrayList_contains_def split: if_splits)

text \<open>
  The status of offering an endpoint to the admins is that of the last admin alone: the
  call succeeds exactly when the last admin of the list holds the endpoint afterwards,
  whatever the admins before it did.
\<close>

theorem import_status_is_last_admin:
  assumes "wiringTopologyManager_checkWiringEndpointForImportService env d p m w = Inr (st, m', w')"
    and "weds w d = Some q" "properties_match (wtm_cx env) p q"
    and "waList m = was @ [wa]" "importedWiringEndpoints m = [(d, l)]"
  shows "\<exists>l'. importedWiringEndpoints m' = [(d, l')] \<and> (st = CELIX_SUCCESS \<longleftrightarrow> wa \<in> set l')"
  using assms
  by (auto simp: wiringTopologyManager_checkWiringEndpointForImportService_def wed_deref_def Let_def
      wiringTopologyManager_getWAs_def hashMap_get_def rbind_eq_Inr dest!: import_loop_status)

text \<open>An endpoint of the demo configuration, and the manager that knows it.\<close>

definition demo_remote :: "nat world" where
  "demo_remote = \<lparr>weds = [1 \<mapsto> [(WIRE_ID_KEY, ''w1''), (''inaetics.wiring.config'', ''https'')]], rest = 0\<rparr>"

definition demo_importer :: wtm where
  "demo_importer = demo_wtm\<lparr>waList := [5, 4], importedWiringEndpoints := [(1, [])]\<rparr>"

lemmas check_import_defs = wiringTopologyManager_checkWiringEndpointForImportService_def
  wiringTopologyManager_checkWiringAdminForImportWiringEndpoint_def wiringTopologyManager_getWAs_def
  wed_deref_def hashMap_get_def properties_get_map_of properties_match_set match_relevant_def srvc_ignored_def
  WIRING_ADMIN_PROPERTIES_CONFIG_KEY_def WIRE_ID_KEY_def arrayList_contains_def

theorem import_status_is_last_admin_witness:
  "\<exists>l'. importedWiringEndpoints (demo_importer\<lparr>importedWiringEndpoints := [(1, [5])]\<rparr>) = [(1, l')] \<and>
     (CELIX_BUNDLE_EXCEPTION = CELIX_SUCCESS \<longleftrightarrow> 4 \<in> set l')"
  by (rule import_status_is_last_admin [of demo_env 1 "[(''inaetics.wiring.config'', ''https'')]" demo_importer
        demo_remote CELIX_BUNDLE_EXCEPTION _ "demo_remote\<lparr>rest := 1\<rparr>"
        "[(WIRE_ID_KEY, ''w1''), (''inaetics.wiring.config'', ''https'')]" "[5]" 4 "[]"])
    (simp_all add: demo_importer_def demo_remote_def demo_defs check_import_defs)

lemma waRemoved_imported_last:
  assumes "rmapfold (waRemoved_imported env wa) ims s = Inr (ims', CELIX_SUCCESS, w')" "ims \<noteq> []"
  shows "wa \<in> set (snd (last ims'))"
  using assms
proof (induction ims arbitrary: s ims')
  case (Cons e ims)
  then obtain y s1 ys where y: "waRemoved_imported env wa e s = Inr (y, s1)"
    "rmapfold (waRemoved_imported env wa) ims s1 = Inr (ys, CELIX_SUCCESS, w')" "ims' = y # ys"
    by (auto simp: rbind_eq_Inr)
  show ?case
  proof (cases "ims = []")
    case True
    with y have "s1 = (CELIX_SUCCESS, w')" "ys = []" by auto
    with y show ?thesis
      by (auto simp: waRemoved_imported_def rbind_eq_Inr split: prod.splits if_splits)
  next
    case False
    with y rmapfold_length [OF y(2)] Cons.IH [OF y(2)] show ?thesis by auto
  qed
qed simp

text \<open>
  Removing an admin leaves it behind: when the removal succeeds and an imported
  endpoint is known, the admin is in the admin list of the last imported endpoint although
  it is gone from the list of admins.
\<close>

theorem waRemoved_leaves_admin:
  assumes "wiringTopologyManager_waRemoved env wa m w = Inr (CELIX_SUCCESS, m', w')"
    and "importedWiringEndpoints m \<noteq> []" "wtm_inv m"
  shows "wa \<in> set (snd (last (importedWiringEndpoints m'))) \<and> wa \<notin> set (waList m')"
  using assms
  by (auto simp: wiringTopologyManager_waRemoved_def rbind_eq_Inr wtm_inv_def arrayList_removeElement_def
      dest: waRemoved_imported_last)

theorem waRemoved_leaves_admin_witness:
  "5 \<in> set (snd (last (importedWiringEndpoints (demo_importer\<lparr>importedWiringEndpoints := [(1, [5])], waList := [4]\<rparr>)))) \<and>
   5 \<notin> set (waList (demo_importer\<lparr>importedWiringEndpoints := [(1, [5])], waList := [4]\<rparr>))"
  by (rule waRemoved_leaves_admin [of demo_env 5 demo_importer demo_remote _ demo_remote])
    (simp_all add: demo_importer_def demo_remote_def demo_defs wiringTopologyManager_waRemoved_def
      waRemoved_imported_def arrayList_contains_def arrayList_removeElement_def wtm_inv_def exported_known_def)

lemma remove_imported_loop_fault:
  assumes "k < n" "2 \<le> n" "length l + k = n"
  shows "\<exists>e. remove_imported_loop env d [k ..< n] (st, l, w) = Inl e"
  using assms
proof (induction "n - k" arbitrary: k l st w)
  case (Suc j)
  show ?case
  proof (cases "k < length l")
    case True
    then have next_k: "Suc k < n" using Suc.prems by linarith
    have "length (remove_at k l) + Suc k = n" using True Suc.prems by (simp add: length_remove_at)
    with next_k have "\<exists>e. remove_imported_loop env d [Suc k ..< n] (st1, remove_at k l, w1) = Inl e" for st1 w1
      using Suc.hyps(2) Suc.prems(2) by (intro Suc.hyps(1)) auto
    then show ?thesis
      using True Suc.prems(1)
      by (cases "removeImportedWiringEndpoint (wtm_admin env (l ! k)) d w")
        (auto simp: upt_conv_Cons arrayList_remove_def split: prod.splits)
  qed (use Suc.prems in \<open>simp add: upt_conv_Cons arrayList_remove_def\<close>)
qed simp

text \<open>
  Giving up an import that two or more admins hold never ends normally: the loop counts
  up while each round shortens the list, so it runs past the end and calls through the NULL
  the list answers there.
\<close>

theorem removeImported_faults:
  assumes "importedWiringEndpoints m = (d, l) # es" "2 \<le> length l"
    and "weds w d = Some q" "properties_match (wtm_cx env) p q"
  shows "\<exists>e. wiringTopologyManager_removeImportedWiringEndpoint env p m w = Inl e"
proof -
  obtain e where "remove_imported_loop env d [0 ..< length l] (CELIX_SUCCESS, l, w) = Inl e"
    using remove_imported_loop_fault [of 0 "length l" l env d CELIX_SUCCESS w] assms(2) by (cases l) auto
  then show ?thesis
    using assms
    by (simp add: wiringTopologyManager_removeImportedWiringEndpoint_def remove_imported_entry_def wed_deref_def)
qed

theorem removeImported_faults_witness:
  "\<exists>e. wiringTopologyManager_removeImportedWiringEndpoint demo_env [(''inaetics.wiring.config'', ''https'')]
     (demo_importer\<lparr>importedWiringEndpoints := [(1, [5, 4])]\<rparr>) demo_remote = Inl e"
  by (rule removeImported_faults [where d = 1 and l = "[5, 4]" and es = "[]" and
        q = "[(WIRE_ID_KEY, ''w1''), (''inaetics.wiring.config'', ''https'')]"])
    (simp_all add: demo_importer_def demo_remote_def demo_defs check_import_defs)

section \<open>Waiting imports\<close>

text \<open>Two property sets that differ at most in the service a request asked for.\<close>

definition same_offer :: "properties \<Rightarrow> properties \<Rightarrow> bool" where
  "same_offer q q0 \<longleftrightarrow> (\<forall>k. k \<noteq> ''requested.service'' \<longrightarrow> map_of q k = map_of q0 k)"

lemma match_same_offer: "same_offer q q0 \<Longrightarrow> properties_match cx r q = properties_match cx r q0"
  by (auto simp: properties_match_set same_offer_def match_relevant_def)

lemma same_offer_set:
  "same_offer q q0 \<Longrightarrow> same_offer (properties_set cx q ''requested.service'' (Some v)) q0"
  by (simp add: same_offer_def properties_set_map_of)

definition offers :: "wed_ptr \<Rightarrow> properties \<Rightarrow> 'x world \<Rightarrow> bool" where
  "offers d q0 w \<longleftrightarrow> (\<exists>q. weds w d = Some q \<and> same_offer q q0)"

text \<open>
  The only admin imports the endpoint: as long as the world is as \<open>R\<close> says, it speaks the
  configuration of the endpoint and its import succeeds, after which \<open>I\<close> holds; neither the
  import nor the listeners change the endpoint, and noting a requested service in it keeps both.
\<close>

definition sole_importer ::
    "'x wtm_env \<Rightarrow> wtm \<Rightarrow> wiring_admin_ptr \<Rightarrow> wed_ptr \<Rightarrow> properties \<Rightarrow> ('x world \<Rightarrow> bool) \<Rightarrow> ('x world \<Rightarrow> bool) \<Rightarrow> bool" where
  "sole_importer env m wa d q0 R I \<longleftrightarrow>
     waList m = [wa] \<and>
     (\<exists>c. map_of q0 WIRING_ADMIN_PROPERTIES_CONFIG_KEY = Some c \<and>
       (\<forall>w. R w \<longrightarrow> (\<exists>ap. getWiringAdminProperties (wtm_admin env wa) w = Some ap \<and>
          map_of ap WIRING_ADMIN_PROPERTIES_CONFIG_KEY = Some c))) \<and>
     (\<forall>w. R w \<and> weds w d \<noteq> None \<longrightarrow>
       (\<exists>w'. importWiringEndpoint (wtm_admin env wa) d w = Inr (CELIX_SUCCESS, w') \<and> weds w' d = weds w d \<and> R w' \<and> I w')) \<and>
     (\<forall>w. R w \<and> weds w d \<noteq> None \<longrightarrow>
       (\<exists>st w'. notifyListeners env wiringEndpointAdded m d w = Inr (st, w') \<and> weds w' d = weds w d \<and> R w' \<and> (I w \<longrightarrow> I w'))) \<and>
     (\<forall>w q v. R w \<and> weds w d = Some q \<longrightarrow>
       (let w' = w\<lparr>weds := (weds w)(d \<mapsto> properties_set (wtm_cx env) q ''requested.service'' (Some v))\<rparr> in R w' \<and> (I w \<longrightarrow> I w')))"

lemma notifyListeners_cong:
  "listenerList m = listenerList m' \<Longrightarrow> notifyListeners env op m d w = notifyListeners env op m' d w"
  by (simp add: notifyListeners_def Let_def)

lemma sole_importer_cong:
  assumes "waList m' = waList m" "listenerList m' = listenerList m" "sole_importer env m wa d q0 R I"
  shows "sole_importer env m' wa d q0 R I"
proof -
  have "notifyListeners env op m' d w = notifyListeners env op m d w" for op and w :: "'a world"
    using assms(2) by (intro notifyListeners_cong) simp
  then show ?thesis using assms(1,3) by (simp add: sole_importer_def)
qed

lemma sole_importer_told:
  "sole_importer env m wa d q0 R I \<Longrightarrow> R w \<Longrightarrow> weds w d \<noteq> None \<Longrightarrow>
    \<exists>st w'. notifyListeners env wiringEndpointAdded m d w = Inr (st, w') \<and> weds w' d = weds w d \<and> R w' \<and> (I w \<longrightarrow> I w')"
  by (simp add: sole_importer_def)

lemma check_import_sole:
  assumes "sole_importer env m wa d q0 R I" "offers d q0 w" "importedWiringEndpoints m = [(d, l)]" "l = [] \<or> l = [wa]"
    and "properties_match (wtm_cx env) r q0" "R w" "l = [wa] \<longrightarrow> I w"
  shows "\<exists>w'. wiringTopologyManager_checkWiringEndpointForImportService env d r m w =
    Inr (CELIX_SUCCESS, m\<lparr>importedWiringEndpoints := [(d, [wa])]\<rparr>, w') \<and> offers d q0 w' \<and> R w' \<and> I w'"
proof -
  obtain q where q: "weds w d = Some q" "same_offer q q0" using assms(2) by (auto simp: offers_def)
  obtain c ap w' where adm: "map_of q0 WIRING_ADMIN_PROPERTIES_CONFIG_KEY = Some c"
    "getWiringAdminProperties (wtm_admin env wa) w = Some ap"
    "map_of ap WIRING_ADMIN_PROPERTIES_CONFIG_KEY = Some c"
    "importWiringEndpoint (wtm_admin env wa) d w = Inr (CELIX_SUCCESS, w')" "weds w' d = weds w d" "R w'" "I w'"
    "waList m = [wa]"
    using assms(1,6) q(1) unfolding sole_importer_def by (metis option.distinct(1))
  have "map_of q WIRING_ADMIN_PROPERTIES_CONFIG_KEY = Some c"
    using q(2) adm(1) by (simp add: same_offer_def WIRING_ADMIN_PROPERTIES_CONFIG_KEY_def)
  with q adm assms(3-7) show ?thesis
    by (auto simp: wiringTopologyManager_checkWiringEndpointForImportService_def wed_deref_def Let_def
        match_same_offer wiringTopologyManager_getWAs_def hashMap_get_def arrayList_contains_def
        wiringTopologyManager_checkWiringAdminForImportWiringEndpoint_def properties_get_map_of offers_def)
qed

lemma check_import_unmatched:
  assumes "offers d q0 w" "\<not> properties_match (wtm_cx env) r q0"
  shows "wiringTopologyManager_checkWiringEndpointForImportService env d r m w = Inr (CELIX_BUNDLE_EXCEPTION, m, w)"
  using assms
  by (auto simp: wiringTopologyManager_checkWiringEndpointForImportService_def wed_deref_def offers_def
      match_same_offer)

lemma check_waiting_endpoint_sole:
  assumes "sole_importer env m wa d q0 R I" "offers d q0 w" "importedWiringEndpoints m = [(d, l)]" "l = [] \<or> l = [wa]"
    and "map_of r ''requested.service'' \<noteq> None" "R w" "l = [wa] \<longrightarrow> I w"
  shows "\<exists>w'. check_waiting_endpoint env i r d (m, w) =
     Inr (if properties_match (wtm_cx env) r q0
          then m\<lparr>importedWiringEndpoints := [(d, [wa])],
                 waitingForImport := snd (arrayList_remove (waitingForImport m) i)\<rparr> else m, w') \<and> offers d q0 w' \<and> R w' \<and>
     (properties_match (wtm_cx env) r q0 \<or> l = [wa] \<longrightarrow> I w')"
proof (cases "properties_match (wtm_cx env) r q0")
  case True
  let ?m1 = "m\<lparr>importedWiringEndpoints := [(d, [wa])]\<rparr>"
  let ?m2 = "?m1\<lparr>waitingForImport := snd (arrayList_remove (waitingForImport m) i)\<rparr>"
  obtain w1 where chk: "wiringTopologyManager_checkWiringEndpointForImportService env d r m w =
      Inr (CELIX_SUCCESS, ?m1, w1)" and o1: "offers d q0 w1" "R w1" "I w1"
    using check_import_sole [OF assms(1-4) True assms(6,7)] by auto
  obtain v q where v: "map_of r ''requested.service'' = Some v" and q: "weds w1 d = Some q" "same_offer q q0"
    using assms(5) o1(1) by (auto simp: offers_def)
  let ?w2 = "w1\<lparr>weds := (weds w1)(d \<mapsto> properties_set (wtm_cx env) q ''requested.service'' (Some v))\<rparr>"
  have sole: "sole_importer env ?m2 wa d q0 R I" by (rule sole_importer_cong [OF _ _ assms(1)]) simp_all
  then have w2: "R ?w2" "I ?w2" using o1(2,3) q(1) by (simp_all add: sole_importer_def Let_def)
  obtain st w3 where "notifyListeners env wiringEndpointAdded ?m2 d ?w2 = Inr (st, w3)" "weds w3 d = weds ?w2 d" "R w3" "I w3"
    using sole_importer_told [OF sole w2(1)] w2(2) by auto
  with chk v q True show ?thesis
    by (auto simp: check_waiting_endpoint_def wed_set_def wed_deref_def properties_get_map_of offers_def
        wiringTopologyManager_notifyListenersWiringEndpointAdded_def same_offer_set Let_def)
next
  case False
  with check_import_unmatched [OF assms(2) False] assms(2,6,7) show ?thesis
    by (auto simp: check_waiting_endpoint_def)
qed

lemma check_waiting_loop_sole:
  assumes "sole_importer env m wa d q0 R I" "offers d q0 w" "importedWiringEndpoints m = [(d, l)]" "l = [] \<or> l = [wa]"
    and "\<forall>r\<in>set rs. map_of r ''requested.service'' \<noteq> None" "waitingForImport m = rs @ rs'" "R w" "l = [wa] \<longrightarrow> I w"
  shows "\<exists>w'. check_waiting_loop env (length rs) (m, w) =
     Inr (m\<lparr>importedWiringEndpoints := [(d, if \<exists>r\<in>set rs. properties_match (wtm_cx env) r q0 then [wa] else l)],
            waitingForImport := filter (\<lambda>r. \<not> properties_match (wtm_cx env) r q0) rs @ rs'\<rparr>, w') \<and> offers d q0 w' \<and> R w' \<and>
     ((\<exists>r\<in>set rs. properties_match (wtm_cx env) r q0) \<or> l = [wa] \<longrightarrow> I w')"
  using assms
proof (induction rs arbitrary: m w l rs' rule: rev_induct)
  case Nil
  then show ?case by simp
next
  case (snoc r rs)
  have get: "arrayList_get (waitingForImport m) (length rs) = Some r"
    and rem: "snd (arrayList_remove (waitingForImport m) (length rs)) = rs @ rs'"
    using snoc.prems(6) by (simp_all add: arrayList_get_def arrayList_remove_def remove_at_def)
  have req: "map_of r ''requested.service'' \<noteq> None" using snoc.prems(5) by simp
  let ?hit = "properties_match (wtm_cx env) r q0"
  let ?m = "if ?hit then m\<lparr>importedWiringEndpoints := [(d, [wa])], waitingForImport := rs @ rs'\<rparr> else m"
  obtain w1 where step: "check_waiting_endpoint env (length rs) r d (m, w) = Inr (?m, w1)" and o1: "offers d q0 w1" "R w1"
      "?hit \<or> l = [wa] \<longrightarrow> I w1"
    using check_waiting_endpoint_sole [OF snoc.prems(1-4) req snoc.prems(7,8), of "length rs"] by (auto simp: rem)
  let ?l = "if ?hit then [wa] else l" and ?rs' = "if ?hit then rs' else r # rs'"
  have sole: "sole_importer env ?m wa d q0 R I" by (rule sole_importer_cong [OF _ _ snoc.prems(1)]) simp_all
  have im: "importedWiringEndpoints ?m = [(d, ?l)]" and wt: "waitingForImport ?m = rs @ ?rs'"
    by (simp_all add: snoc.prems(3,6))
  have l: "?l = [] \<or> ?l = [wa]" using snoc.prems(4) by simp
  have held: "?l = [wa] \<longrightarrow> I w1" using o1(3) by (simp split: if_split_asm)
  have "\<forall>r\<in>set rs. map_of r ''requested.service'' \<noteq> None" using snoc.prems(5) by simp
  from snoc.IH [OF sole o1(1) im l this wt o1(2) held] obtain w2 where w2: "check_waiting_loop env (length rs) (?m, w1) =
     Inr (?m\<lparr>importedWiringEndpoints := [(d, if \<exists>r\<in>set rs. properties_match (wtm_cx env) r q0 then [wa] else ?l)],
            waitingForImport := filter (\<lambda>r. \<not> properties_match (wtm_cx env) r q0) rs @ ?rs'\<rparr>, w2)"
      "offers d q0 w2" "R w2" "(\<exists>r\<in>set rs. properties_match (wtm_cx env) r q0) \<or> ?l = [wa] \<longrightarrow> I w2"
    by blast
  have held: "(\<exists>r\<in>set (rs @ [r]). properties_match (wtm_cx env) r q0) \<or> l = [wa] \<longrightarrow> I w2" using w2(4) by auto
  show ?case using step get snoc.prems(3) w2(1-3) held by (intro exI [of _ w2]) (cases m, auto)
qed

lemma endpointAdded_sole:
  assumes "sole_importer env m wa d q R I" "weds w d = Some q" "importedWiringEndpoints m = []"
    and "\<forall>r\<in>set (waitingForImport m). map_of r ''requested.service'' \<noteq> None" "R w"
  shows "\<exists>w'. wiringTopologyManager_WiringEndpointAdded env d m w = Inr (CELIX_SUCCESS,
    m\<lparr>importedWiringEndpoints :=
        [(d, if \<exists>r\<in>set (waitingForImport m). properties_match (wtm_cx env) r q then [wa] else [])],
      waitingForImport := filter (\<lambda>r. \<not> properties_match (wtm_cx env) r q) (waitingForImport m)\<rparr>, w') \<and> R w' \<and>
    ((\<exists>r\<in>set (waitingForImport m). properties_match (wtm_cx env) r q) \<longrightarrow> I w')"
proof -
  let ?m = "m\<lparr>importedWiringEndpoints := [(d, [])]\<rparr>"
  have "offers d q w" using assms(2) by (auto simp: offers_def same_offer_def)
  moreover have "sole_importer env ?m wa d q R I" by (rule sole_importer_cong [OF _ _ assms(1)]) simp_all
  ultimately obtain w' where "check_waiting_loop env (length (waitingForImport m)) (?m, w) =
     Inr (?m\<lparr>importedWiringEndpoints :=
               [(d, if \<exists>r\<in>set (waitingForImport m). properties_match (wtm_cx env) r q then [wa] else [])],
             waitingForImport := filter (\<lambda>r. \<not> properties_match (wtm_cx env) r q) (waitingForImport m)\<rparr>, w')"
      "R w'" "(\<exists>r\<in>set (waitingForImport m). properties_match (wtm_cx env) r q) \<longrightarrow> I w'"
    using check_waiting_loop_sole [of env ?m wa d q R I w "[]" "waitingForImport m" "[]"] assms(4,5) by auto
  then show ?thesis
    using assms(3)
    by (simp add: wiringTopologyManager_WiringEndpointAdded_def hashMap_get_def hashMap_put_def
        hashMap_containsKey_def insert_at_def wiringTopologyManager_checkWaitingForImportServices_def)
qed


definition demo_waiting :: wtm where
  "demo_waiting = demo_wtm\<lparr>waList := [5], waitingForImport :=
     [[(''requested.service'', ''calc''), (''inaetics.wiring.config'', ''https'')],
      [(''requested.service'', ''calc''), (''inaetics.wiring.config'', ''http'')]]\<rparr>"

lemma demo_sole: "sole_importer demo_env demo_waiting 5 1
    [(WIRE_ID_KEY, ''w1''), (''inaetics.wiring.config'', ''https'')] (\<lambda>w. 0 \<le> rest w) (\<lambda>w. 0 < rest w)"
  by (simp add: sole_importer_def demo_waiting_def demo_defs notifyListeners_def
      WIRING_ADMIN_PROPERTIES_CONFIG_KEY_def WIRE_ID_KEY_def)


text \<open>
  What happens without the hypothesis that no endpoint was imported before: when two endpoints
  satisfy the same request the loop removes its index twice, and the second removal takes the
  request behind it, which neither endpoint satisfies.
\<close>

definition demo_two_waiting :: wtm where
  "demo_two_waiting = demo_waiting\<lparr>importedWiringEndpoints := [(2, [5])]\<rparr>"

definition demo_two_remote :: "nat world" where
  "demo_two_remote = \<lparr>weds = [1 \<mapsto> [(WIRE_ID_KEY, ''w1''), (''inaetics.wiring.config'', ''https'')],
     2 \<mapsto> [(WIRE_ID_KEY, ''w10''), (''inaetics.wiring.config'', ''https'')]], rest = 0\<rparr>"

lemma double_match_drops_request:
  "waitingForImport demo_two_waiting =
     [[(''requested.service'', ''calc''), (''inaetics.wiring.config'', ''https'')],
      [(''requested.service'', ''calc''), (''inaetics.wiring.config'', ''http'')]]"
  "d \<in> {1, 2} \<Longrightarrow> \<not> properties_match (wtm_cx demo_env) [(''requested.service'', ''calc''), (''inaetics.wiring.config'', ''http'')]
     (the (weds demo_two_remote d))"
  "(case wiringTopologyManager_WiringEndpointAdded demo_env 1 demo_two_waiting demo_two_remote of
      Inl f \<Rightarrow> None | Inr (st, m, w) \<Rightarrow> Some (st, waitingForImport m)) = Some (CELIX_SUCCESS, [])"
proof -
  show "waitingForImport demo_two_waiting =
     [[(''requested.service'', ''calc''), (''inaetics.wiring.config'', ''https'')],
      [(''requested.service'', ''calc''), (''inaetics.wiring.config'', ''http'')]]"
    by (simp add: demo_two_waiting_def demo_waiting_def)
  show "\<not> properties_match (wtm_cx demo_env) [(''requested.service'', ''calc''), (''inaetics.wiring.config'', ''http'')]
     (the (weds demo_two_remote d))" if "d \<in> {1, 2}"
    using that by (auto simp: demo_two_remote_def demo_env_def celix0_def properties_match_set match_relevant_def srvc_ignored_def
        WIRE_ID_KEY_def)
  show "(case wiringTopologyManager_WiringEndpointAdded demo_env 1 demo_two_waiting demo_two_remote of
      Inl f \<Rightarrow> None | Inr (st, m, w) \<Rightarrow> Some (st, waitingForImport m)) = Some (CELIX_SUCCESS, [])"
    by code_simp
qed

end
