(* ===== verification/Wiring_Admin.thy ===== *)
theory Wiring_Admin
  imports Wiring_Endpoint
begin

text \<open>
  \<^verbatim>\<open>wiring_admin_secure\<close>: \<^verbatim>\<open>wiring_admin_impl.c\<close> and \<^verbatim>\<open>wiring_admin_activator.c\<close>. The admin
  exports wires (an HTTPS endpoint served by the embedded web server, and a tracker of the
  services that receive on the wire) and imports wires of other nodes (a registered send
  service). Its state is the \<open>rest\<close> of the world, its endpoint descriptions are in \<open>weds\<close>.

  The web server, the service registry and trackers, the allocator, curl and the trust
  manager's answers are fields of \<open>wa_env\<close>.
\<close>

section \<open>State and environment\<close>

type_synonym receive_service = nat

record wiring_send_service =
  ss_endpoint :: wed_ptr
  ss_errorCount :: "32 word"

record wiring_admin =
  adminProperties :: properties
  wiringSendServices :: "(wed_ptr \<times> wiring_send_service) list"
  wiringSendRegistrations :: "(wed_ptr \<times> registration) list"
  wiringReceiveServices :: "(string \<times> receive_service list) list"
  wiringReceiveTracker :: "(wed_ptr \<times> tracker) list"
  wa_url :: string
  wa_ctx :: "nat option"
  exportedLock :: bool

text \<open>
  The paths the trust manager wrote into the caller's buffers; \<open>None\<close> for a buffer that was
  left alone.
\<close>

record trust_paths =
  tp_cert :: "string option"
  tp_full_cert :: "string option"
  tp_ca_cert :: "string option"
  tp_private_key :: "string option"

text \<open>
  \<open>wa_calloc\<close> proposes the address of a new description; an address in use is no answer an
  allocator gives, and counts as a refusal. Opening and closing a tracker answer a status and
  the receive services that the framework reports to the callbacks meanwhile.
\<close>

record wa_env =
  wa_cx :: celix
  wa_calloc :: "wiring_admin world \<Rightarrow> wed_ptr option"
  wa_uuid :: "wiring_admin world \<Rightarrow> string"
  wa_getifaddrs :: "ifaddr list option"
  wa_trust :: "trust_paths option"
  wa_access :: "string \<Rightarrow> bool"
  mg_start :: "nat \<Rightarrow> (string \<times> string) list \<Rightarrow> nat option"
  serviceTrackerCustomizer_create :: celix_status
  serviceTracker_createWithFilter :: "string \<Rightarrow> celix_status \<times> tracker"
  serviceTracker_open :: "tracker \<Rightarrow> celix_status \<times> receive_service list"
  serviceTracker_close :: "tracker \<Rightarrow> celix_status \<times> receive_service list"
  rs_wireId :: "receive_service \<Rightarrow> string"
  rs_receive :: "receive_service \<Rightarrow> string \<Rightarrow> celix_status \<times> string option"
  wa_calloc_send :: bool
  wa_registerService :: "properties \<Rightarrow> celix_status \<times> registration"
  wa_unregister :: "registration option \<Rightarrow> celix_status"

definition WIRING_ADMIN_PROPERTIES_CONFIG_VALUE :: string where
  "WIRING_ADMIN_PROPERTIES_CONFIG_VALUE = ''inaetics.wiring.https''"

definition WIRING_ADMIN_PROPERTIES_SECURE_VALUE :: string where
  "WIRING_ADMIN_PROPERTIES_SECURE_VALUE = ''yes''"

definition DEFAULT_WA_PORT :: string where
  "DEFAULT_WA_PORT = ''6789''"

definition DEFAULT_WA_ADDRESS :: string where
  "DEFAULT_WA_ADDRESS = ''127.0.0.1''"

definition MAX_NUMBER_OF_RESTARTS :: nat where
  "MAX_NUMBER_OF_RESTARTS = 5"

definition MAX_URL_LENGTH :: nat where
  "MAX_URL_LENGTH = 128"

definition lockE :: "wiring_admin \<Rightarrow> wiring_admin" where
  "lockE a = a\<lparr>exportedLock := True\<rparr>"

definition unlockE :: "wiring_admin \<Rightarrow> wiring_admin result" where
  "unlockE a = (if exportedLock a then Inr (a\<lparr>exportedLock := False\<rparr>) else Inl UnlockNotHeld)"

definition heap_calloc :: "wa_env \<Rightarrow> wiring_admin world \<Rightarrow> wed_ptr option" where
  "heap_calloc env w =
     (case wa_calloc env w of None \<Rightarrow> None
      | Some d \<Rightarrow> if weds w d = None then Some d else None)"

definition wiringAdmin_create :: "celix \<Rightarrow> bool \<Rightarrow> celix_status \<times> wiring_admin option" where
  "wiringAdmin_create cx calloc_ok =
     (if \<not> calloc_ok then (CELIX_ENOMEM, None)
      else (CELIX_SUCCESS, Some \<lparr>
        adminProperties =
          properties_set cx
            (properties_set cx [] WIRING_ADMIN_PROPERTIES_SECURE_KEY (Some WIRING_ADMIN_PROPERTIES_SECURE_VALUE))
            WIRING_ADMIN_PROPERTIES_CONFIG_KEY (Some WIRING_ADMIN_PROPERTIES_CONFIG_VALUE),
        wiringSendServices = [], wiringSendRegistrations = [], wiringReceiveServices = [],
        wiringReceiveTracker = [], wa_url = [], wa_ctx = None, exportedLock = False\<rparr>))"

definition wiringAdmin_getWiringAdminProperties :: "wiring_admin \<Rightarrow> celix_status \<times> properties" where
  "wiringAdmin_getWiringAdminProperties a = (CELIX_SUCCESS, adminProperties a)"

section \<open>The web server\<close>

text \<open>
  The address that is announced: the configured one, otherwise a detected one. The lookup by
  interface is followed by the lookup without interface, whose answer replaces it.
\<close>

definition webserver_ip :: "wa_env \<Rightarrow> string option" where
  "webserver_ip env =
     (case snd (bundleContext_getProperty (wa_cx env) ''NODE_DISCOVERY_NODE_WA_ADDRESS'') of
        Some ip \<Rightarrow> Some ip
      | None \<Rightarrow>
          (let detectedIp =
             (case snd (bundleContext_getProperty (wa_cx env) ''NODE_DISCOVERY_NODE_WA_ITF'') of
                None \<Rightarrow> None
              | Some interface \<Rightarrow> snd (wiring_getIpAddress (wa_getifaddrs env) (Some interface)))
           in case snd (wiring_getIpAddress (wa_getifaddrs env) None) of
                Some ip \<Rightarrow> Some ip
              | None \<Rightarrow> detectedIp))"

definition securePort :: "string \<Rightarrow> string" where
  "securePort port = snprintf 6 (port @ ''s'')"

text \<open>
  The port of the next attempt. \<open>errno\<close> is cleared after the conversion, so only trailing
  characters select the default; the sum wraps as a 32-bit \<open>int\<close>.
\<close>

definition nextPort :: "string \<Rightarrow> string" where
  "nextPort port =
     (case strtol10 port of (n, endptr, erange) \<Rightarrow>
       let currentPort = (if endptr \<noteq> [] then 6789 else int_of_long n)
       in snprintf 6 (dec_int (int_of_long (currentPort + 1))))"

definition webserver_options :: "string \<Rightarrow> string \<Rightarrow> string \<Rightarrow> (string \<times> string) list" where
  "webserver_options port full_cert ca_cert =
     [(''listening_ports'', securePort port), (''ssl_certificate'', full_cert),
      (''ssl_verify_peer'', ''yes''), (''ssl_ca_file'', ca_cert), (''ssl_short_trust'', ''yes'')]"

text \<open>
  The attempts: \<open>n\<close> more restarts are allowed. The result is the context and the port text
  after the loop, which is that of the attempt that would come next when all failed.
\<close>

fun webserver_loop ::
    "wa_env \<Rightarrow> string \<Rightarrow> string \<Rightarrow> nat \<Rightarrow> nat \<Rightarrow> string \<Rightarrow> (nat option \<times> string) result" where
  "webserver_loop env full_cert ca_cert port_counter 0 port = Inr (None, port)"
| "webserver_loop env full_cert ca_cert port_counter (Suc n) port =
     (if \<not> wa_access env full_cert then Inl ProcessExit
      else if \<not> wa_access env ca_cert then Inl ProcessExit
      else case mg_start env port_counter (webserver_options port full_cert ca_cert) of
        Some ctx \<Rightarrow> Inr (Some ctx, port)
      | None \<Rightarrow> webserver_loop env full_cert ca_cert (Suc port_counter) n (nextPort port))"

definition wiringAdmin_startWebserver :: "wa_env \<Rightarrow> wiring_admin \<Rightarrow> (celix_status \<times> wiring_admin) result" where
  "wiringAdmin_startWebserver env a =
     (let port = (case snd (bundleContext_getProperty (wa_cx env) ''NODE_DISCOVERY_NODE_WA_PORT'') of
                    None \<Rightarrow> DEFAULT_WA_PORT | Some port \<Rightarrow> port);
          ip = webserver_ip env
      in case wa_trust env of
           None \<Rightarrow> Inl Uninitialised
         | Some tp \<Rightarrow>
             (case (tp_full_cert tp, tp_ca_cert tp) of
                (Some full_cert, Some ca_cert) \<Rightarrow>
                  rbind (webserver_loop env full_cert ca_cert 0 MAX_NUMBER_OF_RESTARTS port) (\<lambda>(ctx, port).
                    Inr (CELIX_SUCCESS, a\<lparr>wa_ctx := ctx, wa_url := snprintf MAX_URL_LENGTH
                      (''https://'' @ (case ip of Some i \<Rightarrow> i | None \<Rightarrow> DEFAULT_WA_ADDRESS) @ '':'' @ port)\<rparr>))
              | _ \<Rightarrow> Inl Uninitialised))"

definition wiringAdmin_stopWebserver :: "wiring_admin \<Rightarrow> celix_status \<times> wiring_admin" where
  "wiringAdmin_stopWebserver a = (CELIX_SUCCESS, if wa_ctx a \<noteq> None then a\<lparr>wa_ctx := None\<rparr> else a)"

section \<open>Receivers\<close>

definition wiringAdmin_wiringReceiveAdded :: "wa_env \<Rightarrow> receive_service \<Rightarrow> wiring_admin \<Rightarrow> wiring_admin" where
  "wiringAdmin_wiringReceiveAdded env s a =
     (let cx = wa_cx env; same = string_same cx; wireId = rs_wireId env s;
          services = (if hashMap_get same (wiringReceiveServices a) wireId = None
                      then hashMap_put cx (utils_stringHash cx) same wireId [] (wiringReceiveServices a)
                      else wiringReceiveServices a)
      in case hashMap_get same services wireId of
           None \<Rightarrow> a
         | Some l \<Rightarrow> a\<lparr>wiringReceiveServices := hashMap_replace same wireId (l @ [s]) services\<rparr>)"

definition wiringAdmin_wiringReceiveRemoved :: "wa_env \<Rightarrow> receive_service \<Rightarrow> wiring_admin \<Rightarrow> wiring_admin" where
  "wiringAdmin_wiringReceiveRemoved env s a =
     (let same = string_same (wa_cx env); wireId = rs_wireId env s
      in case hashMap_get same (wiringReceiveServices a) wireId of
           None \<Rightarrow> a
         | Some l \<Rightarrow>
             (let l = arrayList_removeElement s l
              in a\<lparr>wiringReceiveServices :=
                     (if l = [] then hashMap_remove same wireId (wiringReceiveServices a)
                      else hashMap_replace same wireId l (wiringReceiveServices a))\<rparr>))"

definition wiringAdmin_createWiringReceiveTracker ::
    "wa_env \<Rightarrow> string \<Rightarrow> celix_status \<times> tracker option" where
  "wiringAdmin_createWiringReceiveTracker env wireId =
     (if serviceTrackerCustomizer_create env \<noteq> CELIX_SUCCESS
      then (serviceTrackerCustomizer_create env, None)
      else case serviceTracker_createWithFilter env
             (snprintf 512 (''(&('' @ OSGI_FRAMEWORK_OBJECTCLASS (wa_cx env) @ ''=wiring_receive)(wire.id='' @ wireId @ ''))''))
           of (status, tracker) \<Rightarrow> (status, Some tracker))"

text \<open>Closing a tracker: the services it tracked are reported as removed.\<close>

definition close_tracker :: "wa_env \<Rightarrow> tracker \<Rightarrow> wiring_admin \<Rightarrow> wiring_admin" where
  "close_tracker env t a = fold (wiringAdmin_wiringReceiveRemoved env) (snd (serviceTracker_close env t)) a"

section \<open>Exported wires\<close>

definition exported_properties :: "wa_env \<Rightarrow> wiring_admin \<Rightarrow> string option \<Rightarrow> properties \<Rightarrow> properties" where
  "exported_properties env a fwuuid p =
     (let set = properties_set (wa_cx env)
      in set (set (set (set p WIRING_ADMIN_PROPERTIES_CONFIG_KEY (Some WIRING_ADMIN_PROPERTIES_CONFIG_VALUE))
                 WIRING_ADMIN_PROPERTIES_SECURE_KEY (Some WIRING_ADMIN_PROPERTIES_SECURE_VALUE))
              HTTP_URL_KEY (Some (wa_url a)))
           (OSGI_RSA_ENDPOINT_FRAMEWORK_UUID (wa_cx env)) fwuuid)"

text \<open>Tracking the receivers of a new description; the admin holds its lock.\<close>

definition track_receivers ::
    "wa_env \<Rightarrow> wed_ptr \<Rightarrow> string option \<Rightarrow> wiring_admin world \<Rightarrow> (celix_status \<times> wiring_admin world) result" where
  "track_receivers env d wireId w =
     (case wireId of
        None \<Rightarrow> Inl NullPointer
      | Some wid \<Rightarrow>
          (case wiringAdmin_createWiringReceiveTracker env wid of
             (CELIX_SUCCESS, Some tracker) \<Rightarrow>
               (case serviceTracker_open env tracker of (status, tracked) \<Rightarrow>
                  let a = fold (wiringAdmin_wiringReceiveAdded env) tracked (rest w)
                  in Inr (status, w\<lparr>rest :=
                       (if status = CELIX_SUCCESS
                        then a\<lparr>wiringReceiveTracker :=
                               hashMap_put (wa_cx env) (wiringEndpointDescription_hash (wa_cx env) w)
                                 (wed_same (wa_cx env) w) d tracker (wiringReceiveTracker a)\<rparr>
                        else a)\<rparr>))
           | (status, _) \<Rightarrow> Inr (status, w)))"

text \<open>Making the description of a new wire and tracking its receivers.\<close>

definition export_described ::
    "wa_env \<Rightarrow> string option \<Rightarrow> wiring_admin world \<Rightarrow> (celix_status \<times> wed_ptr option \<times> wiring_admin world) result" where
  "export_described env fwuuid w =
     (case heap_calloc env w of
        None \<Rightarrow> Inr (CELIX_ENOMEM, None, w)
      | Some d \<Rightarrow>
          rbind (wiringEndpointDescription_create (wa_cx env) True (wa_uuid env w) None (Some []))
            (\<lambda>(status, p).
               let p = exported_properties env (rest w) fwuuid (case p of Some q \<Rightarrow> q | None \<Rightarrow> []);
                   w = w\<lparr>weds := (weds w)(d \<mapsto> p)\<rparr>
               in rbind (track_receivers env d (properties_get (wa_cx env) p WIRE_ID_KEY) w)
                    (\<lambda>(status, w). Inr (status, Some d, w))))"

text \<open>
  The second component is what the call left in \<^verbatim>\<open>*wEndpointDescription\<close>: a description that
  was made stays there even when the tracker could not be opened.
\<close>

definition export_locked ::
    "wa_env \<Rightarrow> wiring_admin world \<Rightarrow> (celix_status \<times> wed_ptr option \<times> wiring_admin world) result" where
  "export_locked env w =
     rbind (if wiringReceiveTracker (rest w) = [] then wiringAdmin_startWebserver env (rest w)
            else Inr (CELIX_SUCCESS, rest w)) (\<lambda>(status, a).
       let w = w\<lparr>rest := a\<rparr> in
       if status \<noteq> CELIX_SUCCESS then Inr (status, None, w)
       else case bundleContext_getProperty (wa_cx env) (OSGI_FRAMEWORK_FRAMEWORK_UUID (wa_cx env)) of
         (status, fwuuid) \<Rightarrow>
           if status \<noteq> CELIX_SUCCESS then Inr (status, None, w)
           else export_described env fwuuid w)"

definition wiringAdmin_exportWiringEndpoint ::
    "wa_env \<Rightarrow> wiring_admin world \<Rightarrow> (celix_status \<times> wed_ptr option \<times> wiring_admin world) result" where
  "wiringAdmin_exportWiringEndpoint env w =
     rbind (export_locked env (w\<lparr>rest := lockE (rest w)\<rparr>)) (\<lambda>(status, e, w).
     rbind (unlockE (rest w)) (\<lambda>a. Inr (status, e, w\<lparr>rest := a\<rparr>)))"

definition wiringAdmin_removeExportedWiringEndpoint ::
    "wa_env \<Rightarrow> wed_ptr option \<Rightarrow> wiring_admin world \<Rightarrow> (celix_status \<times> wiring_admin world) result" where
  "wiringAdmin_removeExportedWiringEndpoint env wEndpointDescription w =
     (case wEndpointDescription of
        None \<Rightarrow> Inr (CELIX_ILLEGAL_ARGUMENT, w)
      | Some d \<Rightarrow>
          (let a = lockE (rest w);
               same = wed_same (wa_cx env) w;
               a' = a\<lparr>wiringReceiveTracker := hashMap_remove same d (wiringReceiveTracker a)\<rparr>;
               a'' = (case hashMap_get same (wiringReceiveTracker a) d of
                        None \<Rightarrow> a'
                      | Some tracker \<Rightarrow>
                          (let a1 = close_tracker env tracker a'
                           in if wiringReceiveTracker a1 = [] then snd (wiringAdmin_stopWebserver a1) else a1))
           in rbind (wiringEndpointDescription_destroy d w) (\<lambda>(st, w).
              rbind (unlockE a'') (\<lambda>a. Inr (CELIX_SUCCESS, w\<lparr>rest := a\<rparr>)))))"

definition wiringAdmin_stop :: "wa_env \<Rightarrow> wiring_admin \<Rightarrow> (celix_status \<times> wiring_admin) result" where
  "wiringAdmin_stop env a =
     (let a = lockE a;
          a = fold (\<lambda>(d, t). close_tracker env t) (wiringReceiveTracker a) a;
          a = snd (wiringAdmin_stopWebserver (a\<lparr>wiringReceiveTracker := []\<rparr>));
          a = a\<lparr>wiringReceiveServices := []\<rparr>
      in rbind (unlockE a) (\<lambda>a. Inr (CELIX_SUCCESS, a)))"

text \<open>Destroying the admin frees it; what remains of it is nothing.\<close>

definition wiringAdmin_destroy :: "wiring_admin \<Rightarrow> celix_status \<times> wiring_admin option" where
  "wiringAdmin_destroy a =
     (case wiringAdmin_stopWebserver a of
        (status, a) \<Rightarrow> if status = CELIX_SUCCESS then (status, None) else (status, Some a))"

section \<open>Requests\<close>

text \<open>
  A request as civetweb hands it over: \<open>content_length\<close> is -1 when the client gave none;
  \<open>mg_read\<close> is what could be read of the body, \<open>fresh\<close> what the allocated memory held before.
\<close>

record http_request =
  req_uri :: "string option"
  req_method :: string
  content_length :: int
  mg_read :: string
  fresh :: string

definition data_response_headers :: string where
  "data_response_headers = ''HTTP/1.1 200 OK'' @ [CHR 0x0D, CHR 0x0A] @ ''Cache: no-cache'' @ [CHR 0x0D, CHR 0x0A] @
     ''Content-Type: application/json'' @ [CHR 0x0D, CHR 0x0A, CHR 0x0D, CHR 0x0A]"

definition no_content_response_headers :: string where
  "no_content_response_headers = ''HTTP/1.1 204 OK'' @ [CHR 0x0D, CHR 0x0A]"

text \<open>
  The body as the receiver sees it. The length is converted to \<open>uint64_t\<close> and one is added
  for the terminator, so that a missing length asks for a buffer of zero bytes.
\<close>

definition request_data :: "http_request \<Rightarrow> string result" where
  "request_data r =
     (let datalength = (word_of_int (content_length r) :: 64 word);
          size = datalength + 1
      in if unat size \<le> unat datalength then Inl BufferOverflow
         else Inr (takeWhile (\<lambda>c. c \<noteq> CHR 0x00)
                (take (unat datalength) (take (unat datalength) (mg_read r) @ drop (length (mg_read r)) (fresh r)))))"

fun first_receiver :: "(string \<times> receive_service list) list \<Rightarrow> receive_service option" where
  "first_receiver [] = None"
| "first_receiver ((wireId, l) # m) = (case l of s # ss \<Rightarrow> Some s | [] \<Rightarrow> first_receiver m)"

text \<open>The result is the value returned to civetweb and what was written to the connection.\<close>

definition wiringAdmin_callback :: "wa_env \<Rightarrow> http_request \<Rightarrow> wiring_admin \<Rightarrow> (int \<times> string \<times> wiring_admin) result" where
  "wiringAdmin_callback env r a =
     (case req_uri r of
        None \<Rightarrow> Inr (0, [], a)
      | Some uri \<Rightarrow>
          rbind (if req_method r = ''POST''
                 then (let a = lockE a
                       in rbind (request_data r) (\<lambda>data.
                          let response =
                            (case first_receiver (wiringReceiveServices a) of
                               None \<Rightarrow> None
                             | Some s \<Rightarrow> (case rs_receive env s data of (status, response) \<Rightarrow>
                                 if status \<noteq> CELIX_SUCCESS then None else response))
                          in Inr (1, case response of
                                       Some t \<Rightarrow> data_response_headers @ t
                                     | None \<Rightarrow> no_content_response_headers, a)))
                 else Inr (0, [], a))
            (\<lambda>(result, out, a). rbind (unlockE a) (\<lambda>a. Inr (result, out, a))))"

section \<open>Imported wires\<close>

definition wiringAdmin_importWiringEndpoint ::
    "wa_env \<Rightarrow> wed_ptr \<Rightarrow> wiring_admin world \<Rightarrow> (celix_status \<times> wiring_admin world) result" where
  "wiringAdmin_importWiringEndpoint env d w =
     (if \<not> wa_calloc_send env then Inr (CELIX_ENOMEM, w)
      else rbind (wed_deref d w) (\<lambda>p.
        let cx = wa_cx env;
            props = properties_set cx [] ''wire.id'' (properties_get cx p WIRE_ID_KEY)
        in case wa_registerService env props of (status, reg) \<Rightarrow>
             if status = CELIX_SUCCESS
             then (let a = rest w; h = wiringEndpointDescription_hash cx w; same = wed_same cx w
                   in Inr (status, w\<lparr>rest := a\<lparr>
                        wiringSendServices := hashMap_put cx h same d
                          \<lparr>ss_endpoint = d, ss_errorCount = 0\<rparr> (wiringSendServices a),
                        wiringSendRegistrations := hashMap_put cx h same d reg (wiringSendRegistrations a)\<rparr>\<rparr>))
             else Inr (status, w)))"

definition wiringAdmin_removeImportedWiringEndpoint ::
    "wa_env \<Rightarrow> wed_ptr \<Rightarrow> wiring_admin world \<Rightarrow> (celix_status \<times> wiring_admin world) result" where
  "wiringAdmin_removeImportedWiringEndpoint env d w =
     rbind (wed_deref d w) (\<lambda>p.
       let a = rest w; same = wed_same (wa_cx env) w
       in Inr (wa_unregister env (hashMap_get same (wiringSendRegistrations a) d),
               w\<lparr>rest := a\<lparr>
                 wiringSendServices := hashMap_remove same d (wiringSendServices a),
                 wiringSendRegistrations := hashMap_remove same d (wiringSendRegistrations a)\<rparr>\<rparr>))"

section \<open>Sending\<close>

record post =
  readptr :: string
  post_size :: int

text \<open>\<open>writeptr\<close> is \<open>None\<close> as long as the one byte that was allocated first is all there is.\<close>

record get_buffer =
  writeptr :: "string option"
  get_size :: int

definition wiringAdmin_HTTPReqReadCallback :: "post \<Rightarrow> (char option \<times> post) result" where
  "wiringAdmin_HTTPReqReadCallback p =
     (if post_size p \<noteq> 0
      then (case readptr p of
              c # cs \<Rightarrow> Inr (Some c, p\<lparr>readptr := cs, post_size := post_size p - 1\<rparr>)
            | [] \<Rightarrow> Inl BufferOverflow)
      else Inr (None, p))"

text \<open>
  One block of the answer. The running size is an \<open>int\<close>: it is converted from the
  \<open>size_t\<close> sum, and a negative one indexes before the buffer.
\<close>

definition wiringAdmin_HTTPReqWrite :: "bool \<Rightarrow> string \<Rightarrow> get_buffer \<Rightarrow> get_buffer result" where
  "wiringAdmin_HTTPReqWrite realloc_ok contents mem =
     (if \<not> realloc_ok then Inl ProcessExit
      else if get_size mem < 0 then Inl BufferOverflow
      else (let size = int_of_long (get_size mem + int (length contents))
            in if size < 0 then Inl BufferOverflow
               else Inr (mem\<lparr>writeptr := Some ((case writeptr mem of None \<Rightarrow> [] | Some b \<Rightarrow> take (nat (get_size mem)) b)
                                                @ contents),
                              get_size := size\<rparr>)))"

record curl_options =
  CURLOPT_URL :: "string option"
  CURLOPT_SSLCERT :: string
  CURLOPT_SSLKEY :: string
  CURLOPT_CAINFO :: string
  CURLOPT_POSTFIELDSIZE :: int

text \<open>
  A transfer: curl reads the body through the read callback, hands over the answer in
  blocks and ends with its own code and the HTTP status.
\<close>

record curl_transfer =
  ct_blocks :: "string list"
  ct_res :: int
  ct_http_code :: int

definition CURLE_ABORTED_BY_CALLBACK :: int where
  "CURLE_ABORTED_BY_CALLBACK = 42"

text \<open>
  \<open>perform\<close> is \<^verbatim>\<open>curl_easy_perform\<close> with the options and the body; \<open>None\<close> when
  \<^verbatim>\<open>curl_easy_init\<close> fails. The reply is what \<^verbatim>\<open>*reply\<close> points to, with \<open>Some None\<close> for memory
  that was never written; \<open>*reply\<close> and \<open>*replyStatus\<close> may be left alone.
\<close>

definition wiringAdmin_send ::
    "wa_env \<Rightarrow> (curl_options \<Rightarrow> post \<Rightarrow> curl_transfer) option \<Rightarrow> bool \<Rightarrow> wiring_send_service \<Rightarrow> string \<Rightarrow>
     'x world \<Rightarrow> (celix_status \<times> string option option \<times> int option) result" where
  "wiringAdmin_send env perform realloc_ok sendService request w =
     rbind (wed_deref (ss_endpoint sendService) w) (\<lambda>p.
       let post = \<lparr>readptr = request, post_size = int_of_long (int (length request))\<rparr>;
           url = properties_get (wa_cx env) p HTTP_URL_KEY
       in case perform of
            None \<Rightarrow> Inr (CELIX_ILLEGAL_STATE, None, None)
          | Some curl \<Rightarrow>
              (case wa_trust env of
                 None \<Rightarrow> Inl Uninitialised
               | Some tp \<Rightarrow>
                   (case (tp_cert tp, tp_private_key tp, tp_ca_cert tp) of
                      (Some cert, Some key, Some ca_cert) \<Rightarrow>
                        (let t = curl \<lparr>CURLOPT_URL = url, CURLOPT_SSLCERT = cert, CURLOPT_SSLKEY = key,
                                       CURLOPT_CAINFO = ca_cert, CURLOPT_POSTFIELDSIZE = post_size post\<rparr> post
                         in rbind (rfold (wiringAdmin_HTTPReqWrite realloc_ok) (ct_blocks t)
                                     \<lparr>writeptr = None, get_size = 0\<rparr>)
                              (\<lambda>get. if ct_http_code t = 200 \<and> ct_res t \<noteq> CURLE_ABORTED_BY_CALLBACK
                                     then Inr (CELIX_SUCCESS, Some (writeptr get), Some (ct_res t))
                                     else Inr (CELIX_SUCCESS, None, Some (ct_http_code t))))
                    | _ \<Rightarrow> Inl Uninitialised)))"

section \<open>The service and the bundle activator\<close>

text \<open>The struct the activator fills with the functions of this admin.\<close>

definition wa_service :: "wa_env \<Rightarrow> wiring_admin wiring_admin_service" where
  "wa_service env = \<lparr>
     exportWiringEndpoint = wiringAdmin_exportWiringEndpoint env,
     removeExportedWiringEndpoint = (\<lambda>d. wiringAdmin_removeExportedWiringEndpoint env (Some d)),
     getWiringAdminProperties = (\<lambda>w. Some (snd (wiringAdmin_getWiringAdminProperties (rest w)))),
     importWiringEndpoint = wiringAdmin_importWiringEndpoint env,
     removeImportedWiringEndpoint = wiringAdmin_removeImportedWiringEndpoint env\<rparr>"

record wa_activator =
  act_admin :: "wiring_admin option"
  act_service :: bool
  act_registration :: "registration option"

definition wa_bundleActivator_create :: "bool \<Rightarrow> celix_status \<times> wa_activator option" where
  "wa_bundleActivator_create calloc_ok =
     (if \<not> calloc_ok then (CELIX_ENOMEM, None)
      else (CELIX_SUCCESS, Some \<lparr>act_admin = None, act_service = False, act_registration = None\<rparr>))"

definition admin_scope :: "celix \<Rightarrow> string \<Rightarrow> string" where
  "admin_scope cx uuid =
     snprintf (14 + length (OSGI_FRAMEWORK_OBJECTCLASS cx) + length (OSGI_RSA_ENDPOINT_FRAMEWORK_UUID cx) + length uuid)
       (''('' @ OSGI_RSA_ENDPOINT_FRAMEWORK_UUID cx @ ''='' @ uuid @ '')'')"

text \<open>
  The start first asks the trust manager, when there is one, for the path of the private key
  and prints the buffer; \<open>calloc_admin\<close> and \<open>calloc_service\<close> are the two allocations.
\<close>

definition wa_bundleActivator_start ::
    "wa_env \<Rightarrow> bool \<Rightarrow> bool \<Rightarrow> wa_activator \<Rightarrow> (celix_status \<times> wa_activator) result" where
  "wa_bundleActivator_start env calloc_admin calloc_service act =
     (if (case wa_trust env of Some tp \<Rightarrow> tp_private_key tp = None | None \<Rightarrow> False) then Inl Uninitialised
      else case wiringAdmin_create (wa_cx env) calloc_admin of
        (status, admin) \<Rightarrow>
          let act = act\<lparr>act_admin := admin\<rparr> in
          if status \<noteq> CELIX_SUCCESS then Inr (status, act)
          else if \<not> calloc_service then Inr (CELIX_ENOMEM, act\<lparr>act_service := False\<rparr>)
          else (let act = act\<lparr>act_service := True\<rparr> in
                case bundleContext_getProperty (wa_cx env) (OSGI_FRAMEWORK_FRAMEWORK_UUID (wa_cx env)) of
                  (status, uuid) \<Rightarrow>
                    if status \<noteq> CELIX_SUCCESS then Inr (status, act)
                    else case uuid of
                      None \<Rightarrow> Inl NullPointer
                    | Some u \<Rightarrow>
                        (case wa_registerService env
                                (properties_set (wa_cx env) [] ''wiring.admin.scope'' (Some (admin_scope (wa_cx env) u)))
                         of (status, reg) \<Rightarrow>
                           Inr (status, act\<lparr>act_registration :=
                             (if status = CELIX_SUCCESS then Some reg else act_registration act)\<rparr>))))"

definition wa_bundleActivator_stop :: "wa_env \<Rightarrow> wa_activator \<Rightarrow> (celix_status \<times> wa_activator) result" where
  "wa_bundleActivator_stop env act =
     (case act_admin act of
        None \<Rightarrow> Inl NullPointer
      | Some a \<Rightarrow>
          rbind (wiringAdmin_stop env a) (\<lambda>(status, a).
            if status \<noteq> CELIX_SUCCESS then Inr (status, act\<lparr>act_admin := Some a\<rparr>)
            else if act_registration act = None then Inl NullPointer
            else Inr (status, \<lparr>act_admin = Some a, act_service = False, act_registration = None\<rparr>)))"

definition wa_bundleActivator_destroy :: "wa_activator \<Rightarrow> (celix_status \<times> wa_activator option) result" where
  "wa_bundleActivator_destroy act =
     (case act_admin act of
        None \<Rightarrow> Inl NullPointer
      | Some a \<Rightarrow>
          (case wiringAdmin_destroy a of (status, admin) \<Rightarrow>
             Inr (status, if status = CELIX_SUCCESS then None else Some (act\<lparr>act_admin := admin\<rparr>))))"

section \<open>Frame lemmas\<close>

lemma receiveAdded_frame [simp, frame_simps]:
  "wiringReceiveTracker (wiringAdmin_wiringReceiveAdded env s a) = wiringReceiveTracker a"
  "wa_ctx (wiringAdmin_wiringReceiveAdded env s a) = wa_ctx a"
  "wa_url (wiringAdmin_wiringReceiveAdded env s a) = wa_url a"
  "exportedLock (wiringAdmin_wiringReceiveAdded env s a) = exportedLock a"
  "wiringSendServices (wiringAdmin_wiringReceiveAdded env s a) = wiringSendServices a"
  "wiringSendRegistrations (wiringAdmin_wiringReceiveAdded env s a) = wiringSendRegistrations a"
  "adminProperties (wiringAdmin_wiringReceiveAdded env s a) = adminProperties a"
  by (simp_all add: wiringAdmin_wiringReceiveAdded_def Let_def split: option.splits)

lemma receiveRemoved_frame [simp, frame_simps]:
  "wiringReceiveTracker (wiringAdmin_wiringReceiveRemoved env s a) = wiringReceiveTracker a"
  "wa_ctx (wiringAdmin_wiringReceiveRemoved env s a) = wa_ctx a"
  "wa_url (wiringAdmin_wiringReceiveRemoved env s a) = wa_url a"
  "exportedLock (wiringAdmin_wiringReceiveRemoved env s a) = exportedLock a"
  "wiringSendServices (wiringAdmin_wiringReceiveRemoved env s a) = wiringSendServices a"
  "wiringSendRegistrations (wiringAdmin_wiringReceiveRemoved env s a) = wiringSendRegistrations a"
  "adminProperties (wiringAdmin_wiringReceiveRemoved env s a) = adminProperties a"
  by (simp_all add: wiringAdmin_wiringReceiveRemoved_def Let_def split: option.splits)

lemma fold_frame: "(\<And>s a. f (g s a) = f a) \<Longrightarrow> f (fold g ss a) = f a"
  by (induction ss arbitrary: a) simp_all

lemma fold_receiveAdded_frame [simp, frame_simps]:
  "wiringReceiveTracker (fold (wiringAdmin_wiringReceiveAdded env) ss a) = wiringReceiveTracker a"
  "wa_ctx (fold (wiringAdmin_wiringReceiveAdded env) ss a) = wa_ctx a"
  "wa_url (fold (wiringAdmin_wiringReceiveAdded env) ss a) = wa_url a"
  "exportedLock (fold (wiringAdmin_wiringReceiveAdded env) ss a) = exportedLock a"
  "wiringSendServices (fold (wiringAdmin_wiringReceiveAdded env) ss a) = wiringSendServices a"
  "wiringSendRegistrations (fold (wiringAdmin_wiringReceiveAdded env) ss a) = wiringSendRegistrations a"
  "adminProperties (fold (wiringAdmin_wiringReceiveAdded env) ss a) = adminProperties a"
  by (rule fold_frame, simp)+

lemma close_tracker_frame [simp, frame_simps]:
  "wiringReceiveTracker (close_tracker env t a) = wiringReceiveTracker a"
  "wa_ctx (close_tracker env t a) = wa_ctx a"
  "wa_url (close_tracker env t a) = wa_url a"
  "exportedLock (close_tracker env t a) = exportedLock a"
  "wiringSendServices (close_tracker env t a) = wiringSendServices a"
  "wiringSendRegistrations (close_tracker env t a) = wiringSendRegistrations a"
  "adminProperties (close_tracker env t a) = adminProperties a"
  unfolding close_tracker_def by (rule fold_frame, simp)+

section \<open>The contract of a wiring admin\<close>

lemma track_receivers_weds: "track_receivers env d i w = Inr (st, w') \<Longrightarrow> weds w' = weds w"
  by (auto simp: track_receivers_def Let_def split: option.splits prod.splits celix_status.splits)

lemma track_receivers_wireId: "track_receivers env d i w = Inr r \<Longrightarrow> i \<noteq> None"
  by (cases i) (auto simp: track_receivers_def)

lemma export_described_success:
  assumes "export_described env f w = Inr (CELIX_SUCCESS, e, w')"
  shows "\<exists>d p. e = Some d \<and> weds w d = None \<and> weds w' = (weds w)(d \<mapsto> p) \<and> map_of p WIRE_ID_KEY \<noteq> None"
proof -
  obtain d where d: "heap_calloc env w = Some d" "weds w d = None"
    using assms by (auto simp: export_described_def heap_calloc_def split: option.splits if_splits)
  then obtain p where t: "track_receivers env d (properties_get (wa_cx env) p WIRE_ID_KEY)
      (w\<lparr>weds := (weds w)(d \<mapsto> p)\<rparr>) = Inr (CELIX_SUCCESS, w')" and "e = Some d"
    using assms by (auto simp: export_described_def rbind_eq_Inr Let_def)
  with d(2) track_receivers_weds [OF t] track_receivers_wireId [OF t] show ?thesis
    by (auto simp: properties_get_map_of)
qed

lemma export_locked_success:
  assumes "export_locked env w = Inr (CELIX_SUCCESS, e, w')"
  shows "\<exists>f w1. weds w1 = weds w \<and> export_described env f w1 = Inr (CELIX_SUCCESS, e, w')"
proof -
  obtain st f where u: "bundleContext_getProperty (wa_cx env) (OSGI_FRAMEWORK_FRAMEWORK_UUID (wa_cx env)) = (st, f)"
    by fastforce
  then obtain a where "export_described env f (w\<lparr>rest := a\<rparr>) = Inr (CELIX_SUCCESS, e, w')"
  proof (cases "wiringReceiveTracker (rest w) = []")
    case False
    with assms u that [of "rest w"] show ?thesis by (auto simp: export_locked_def split: if_splits)
  qed (use assms in \<open>auto simp: export_locked_def rbind_eq_Inr Let_def split: if_splits\<close>)
  then show ?thesis by (intro exI [of _ f] exI [of _ "w\<lparr>rest := a\<rparr>"]) simp
qed

lemma wa_export_fresh:
  assumes "wiringAdmin_exportWiringEndpoint env w = Inr (CELIX_SUCCESS, e, w')"
  shows "\<exists>d p. e = Some d \<and> weds w d = None \<and> weds w' = (weds w)(d \<mapsto> p) \<and> map_of p WIRE_ID_KEY \<noteq> None"
proof -
  obtain w1 where loc: "export_locked env (w\<lparr>rest := lockE (rest w)\<rparr>) = Inr (CELIX_SUCCESS, e, w1)"
    and "weds w' = weds w1"
    using assms by (auto simp: wiringAdmin_exportWiringEndpoint_def rbind_eq_Inr)
  moreover obtain f w2 where "weds w2 = weds w" "export_described env f w2 = Inr (CELIX_SUCCESS, e, w1)"
    using export_locked_success [OF loc] by auto
  ultimately show ?thesis using export_described_success [of env f w2 e w1] by auto
qed

lemma wa_import_weds:
  "wiringAdmin_importWiringEndpoint env d w = Inr (st, w') \<Longrightarrow> weds w' = weds w"
  by (auto simp: wiringAdmin_importWiringEndpoint_def rbind_eq_Inr Let_def case_prod_beta split: if_splits)

lemma wa_removeImported_weds:
  "wiringAdmin_removeImportedWiringEndpoint env d w = Inr (st, w') \<Longrightarrow> weds w' = weds w"
  by (auto simp: wiringAdmin_removeImportedWiringEndpoint_def rbind_eq_Inr Let_def)

lemma wa_removeExported_weds:
  "wiringAdmin_removeExportedWiringEndpoint env (Some d) w = Inr (st, w') \<Longrightarrow> weds w' = (weds w)(d := None)"
  by (auto simp: wiringAdmin_removeExportedWiringEndpoint_def wiringEndpointDescription_destroy_def rbind_eq_Inr
      Let_def split: option.splits if_splits)

interpretation wa: wiring_admin_contract "wa_service env" for env
proof unfold_locales
  fix w w' :: "wiring_admin world" and e
  assume "exportWiringEndpoint (wa_service env) w = Inr (CELIX_SUCCESS, e, w')"
  then have "wiringAdmin_exportWiringEndpoint env w = Inr (CELIX_SUCCESS, e, w')" by (simp add: wa_service_def)
  then show "\<exists>d p. e = Some d \<and> weds w d = None \<and> weds w' = (weds w)(d \<mapsto> p) \<and> map_of p WIRE_ID_KEY \<noteq> None"
    by (rule wa_export_fresh)
qed (simp_all add: wa_service_def wa_import_weds wa_removeImported_weds wa_removeExported_weds)

end
