(* ===== verification/Wiring_Admin_Correct.thy ===== *)
theory Wiring_Admin_Correct
  imports Wiring_Admin
begin

text \<open>
  Correctness of the wiring admin: how the web server is started and which port it listens
  on, what an exported wire announces, how requests reach a receiver, and how a request is
  sent over an imported wire.
\<close>

section \<open>Starting the web server\<close>

lemma webserver_loop_attempts:
  assumes "wa_access env full" "wa_access env ca"
  shows "webserver_loop env full ca c n port =
    (case find (\<lambda>k. mg_start env (c + k) (webserver_options ((nextPort ^^ k) port) full ca) \<noteq> None) [0 ..< n] of
       Some k \<Rightarrow> Inr (mg_start env (c + k) (webserver_options ((nextPort ^^ k) port) full ca), (nextPort ^^ k) port)
     | None \<Rightarrow> Inr (None, (nextPort ^^ n) port))"
  using assms
proof (induction n arbitrary: c port)
  case (Suc n)
  have shift: "find P [0 ..< Suc n] = (if P 0 then Some 0 else map_option Suc (find (P \<circ> Suc) [0 ..< n]))" for P
  proof -
    have "find P (map Suc xs) = map_option Suc (find (P \<circ> Suc) xs)" for xs
      by (induction xs) auto
    moreover have "[0 ..< Suc n] = 0 # map Suc [0 ..< n]" by (simp add: map_Suc_upt upt_conv_Cons)
    ultimately show ?thesis by simp
  qed
  show ?case
    using Suc.prems Suc.IH [of "Suc c" "nextPort port"]
    by (auto simp: shift comp_def funpow_swap1 simp del: upt_Suc split: option.splits)
qed simp

text \<open>
  Starting the web server makes at most five attempts, on the configured port and the
  ports that follow it. It ends with success in every case: with the context and the URL of
  the first attempt that worked, or without a web server when all five failed, and then the
  URL still names a port.
\<close>

theorem startWebserver_attempts:
  assumes "wa_trust env = Some tp" "tp_full_cert tp = Some full" "tp_ca_cert tp = Some ca"
    and "wa_access env full" "wa_access env ca"
    and "snd (bundleContext_getProperty (wa_cx env) ''NODE_DISCOVERY_NODE_WA_PORT'') = Some port"
    and "webserver_ip env = Some ip" "length ip \<le> 100" "length port \<le> 5"
  shows "wiringAdmin_startWebserver env a = Inr (CELIX_SUCCESS,
    (case find (\<lambda>k. mg_start env k (webserver_options ((nextPort ^^ k) port) full ca) \<noteq> None) [0 ..< 5] of
       Some k \<Rightarrow> a\<lparr>wa_ctx := mg_start env k (webserver_options ((nextPort ^^ k) port) full ca),
                  wa_url := ''https://'' @ ip @ '':'' @ (nextPort ^^ k) port\<rparr>
     | None \<Rightarrow> a\<lparr>wa_ctx := None, wa_url := ''https://'' @ ip @ '':'' @ (nextPort ^^ 5) port\<rparr>))"
proof -
  have len: "length ((nextPort ^^ k) port) \<le> 5" for k
    using assms(9) by (cases k) (simp_all add: nextPort_def snprintf_def Let_def case_prod_beta)
  have url: "snprintf MAX_URL_LENGTH (''https://'' @ ip @ '':'' @ (nextPort ^^ k) port) =
      ''https://'' @ ip @ '':'' @ (nextPort ^^ k) port" for k
    using assms(8) len [of k] by (intro snprintf_id) (simp add: MAX_URL_LENGTH_def)
  show ?thesis
    using assms(1-7) webserver_loop_attempts [OF assms(4,5), of 0 5 port]
    by (simp add: wiringAdmin_startWebserver_def MAX_NUMBER_OF_RESTARTS_def url [simplified]
        split: option.splits)
qed

text \<open>A small environment for the witnesses: the first port is taken, the next one is free.\<close>

definition demo_trust :: trust_paths where
  "demo_trust = \<lparr>tp_cert = Some ''/k/client.pem'', tp_full_cert = Some ''/k/full.pem'',
     tp_ca_cert = Some ''/k/ca.pem'', tp_private_key = Some ''/k/client.key''\<rparr>"

definition demo_cx :: celix where
  "demo_cx = celix0\<lparr>bundleContext_getProperty := (\<lambda>k. (CELIX_SUCCESS,
     if k = ''NODE_DISCOVERY_NODE_WA_PORT'' then Some ''8080''
     else if k = ''NODE_DISCOVERY_NODE_WA_ADDRESS'' then Some ''10.0.0.1'' else Some ''fw-1''))\<rparr>"

definition demo_wa_env :: wa_env where
  "demo_wa_env = \<lparr>wa_cx = demo_cx, wa_calloc = (\<lambda>w. Some 1), wa_uuid = (\<lambda>w. ''uuid-1''), wa_getifaddrs = None,
     wa_trust = Some demo_trust, wa_access = (\<lambda>p. True),
     mg_start = (\<lambda>k os. if k = 0 then None else Some 9),
     serviceTrackerCustomizer_create = CELIX_SUCCESS,
     serviceTracker_createWithFilter = (\<lambda>f. (CELIX_SUCCESS, 3)),
     serviceTracker_open = (\<lambda>t. (CELIX_SUCCESS, [])), serviceTracker_close = (\<lambda>t. (CELIX_SUCCESS, [])),
     rs_wireId = (\<lambda>s. ''uuid-1''), rs_receive = (\<lambda>s d. (CELIX_SUCCESS, Some (''re:'' @ d))),
     wa_calloc_send = True, wa_registerService = (\<lambda>p. (CELIX_SUCCESS, 7)),
     wa_unregister = (\<lambda>r. CELIX_SUCCESS)\<rparr>"

definition demo_wa :: wiring_admin where
  "demo_wa = \<lparr>adminProperties = [], wiringSendServices = [], wiringSendRegistrations = [],
     wiringReceiveServices = [], wiringReceiveTracker = [], wa_url = [], wa_ctx = None, exportedLock = False\<rparr>"

lemmas demo_wa_defs = demo_trust_def demo_cx_def demo_wa_env_def demo_wa_def celix0_def

theorem startWebserver_attempts_witness:
  "wiringAdmin_startWebserver demo_wa_env demo_wa = Inr (CELIX_SUCCESS,
    (case find (\<lambda>k. mg_start demo_wa_env k (webserver_options ((nextPort ^^ k) ''8080'') ''/k/full.pem'' ''/k/ca.pem'') \<noteq> None)
            [0 ..< 5] of
       Some k \<Rightarrow> demo_wa\<lparr>wa_ctx := mg_start demo_wa_env k
                    (webserver_options ((nextPort ^^ k) ''8080'') ''/k/full.pem'' ''/k/ca.pem''),
                  wa_url := ''https://'' @ ''10.0.0.1'' @ '':'' @ (nextPort ^^ k) ''8080''\<rparr>
     | None \<Rightarrow> demo_wa\<lparr>wa_ctx := None, wa_url := ''https://'' @ ''10.0.0.1'' @ '':'' @ (nextPort ^^ 5) ''8080''\<rparr>))"
  by (rule startWebserver_attempts [where tp = demo_trust])
    (simp_all add: demo_wa_defs webserver_ip_def)

lemma nextPort_dec:
  assumes "n < 99999"
  shows "nextPort (dec n) = dec (Suc n)"
proof -
  have "length (dec (Suc n)) \<le> 5" using assms by (intro length_dec_le) simp_all
  then show ?thesis
    using assms
    by (simp add: nextPort_def strtol10_dec int_of_long_id dec_int_def snprintf_def nat_add_distrib)
qed

lemma length_dec_ge: "10 ^ k \<le> n \<Longrightarrow> k < length (dec n)"
proof (induction n arbitrary: k rule: dec.induct)
  case (1 n)
  show ?case
  proof (cases k)
    case (Suc j)
    then have "\<not> n < 10" using "1.prems" by (auto simp: not_less intro: order_trans [rotated])
    moreover have "10 ^ j \<le> n div 10" using "1.prems" Suc by (simp add: less_eq_div_iff_mult_less_eq mult.commute)
    ultimately show ?thesis using "1.IH" [of j] Suc by (subst dec.simps) simp
  qed simp
qed

text \<open>
  The web server is asked for a TLS port (the number followed by the letter s) for port numbers
  of at most four digits only: for a longer one the six characters have no room for that letter,
  and the port the server is asked for is a plain one.
\<close>

theorem securePort_plain_from_10000:
  assumes "n < 65536"
  shows "securePort (dec n) = (if n < 10000 then dec n @ ''s'' else dec n)"
proof -
  have upper: "length (dec n) \<le> 5" using assms by (intro length_dec_le) simp_all
  have five: "length (dec n) = 5" if "10000 \<le> n" using length_dec_ge [of 4 n] that upper by simp
  have four: "length (dec n) \<le> 4" if "n < 10000" using that by (intro length_dec_le) simp_all
  show ?thesis
    using four five by (cases "n < 10000") (simp_all add: securePort_def snprintf_def Suc_diff_le)
qed

theorem securePort_plain_from_10000_witness:
  "securePort (dec 50000) = (if (50000::nat) < 10000 then dec 50000 @ ''s'' else dec 50000)"
  by (rule securePort_plain_from_10000) simp

section \<open>Exporting a wire\<close>

lemma exported_properties_map:
  assumes "OSGI_RSA_ENDPOINT_FRAMEWORK_UUID (wa_cx env) \<notin>
      {WIRE_ID_KEY, HTTP_URL_KEY, WIRING_ADMIN_PROPERTIES_CONFIG_KEY, WIRING_ADMIN_PROPERTIES_SECURE_KEY}"
  shows "map_of (exported_properties env a (Some u) p) =
    (map_of p)(WIRING_ADMIN_PROPERTIES_CONFIG_KEY \<mapsto> WIRING_ADMIN_PROPERTIES_CONFIG_VALUE,
      WIRING_ADMIN_PROPERTIES_SECURE_KEY \<mapsto> WIRING_ADMIN_PROPERTIES_SECURE_VALUE,
      HTTP_URL_KEY \<mapsto> wa_url a, OSGI_RSA_ENDPOINT_FRAMEWORK_UUID (wa_cx env) \<mapsto> u)"
  using assms by (simp add: exported_properties_def Let_def properties_set_map_of)

text \<open>What the framework has to answer for an export to go through once the server runs.\<close>

definition framework_ok :: "wa_env \<Rightarrow> string \<Rightarrow> bool" where
  "framework_ok env fwuuid \<longleftrightarrow>
     bundleContext_getProperty (wa_cx env) (OSGI_FRAMEWORK_FRAMEWORK_UUID (wa_cx env)) = (CELIX_SUCCESS, Some fwuuid) \<and>
     OSGI_RSA_ENDPOINT_FRAMEWORK_UUID (wa_cx env) \<notin>
       {WIRE_ID_KEY, HTTP_URL_KEY, WIRING_ADMIN_PROPERTIES_CONFIG_KEY, WIRING_ADMIN_PROPERTIES_SECURE_KEY} \<and>
     serviceTrackerCustomizer_create env = CELIX_SUCCESS \<and>
     (\<forall>f. fst (serviceTracker_createWithFilter env f) = CELIX_SUCCESS) \<and>
     (\<forall>t. fst (serviceTracker_open env t) = CELIX_SUCCESS)"

lemma track_receivers_ok:
  assumes "framework_ok env u"
  shows "\<exists>t tracked. track_receivers env d (Some wid) w = Inr (CELIX_SUCCESS, w\<lparr>rest :=
    (let a = fold (wiringAdmin_wiringReceiveAdded env) tracked (rest w)
     in a\<lparr>wiringReceiveTracker := hashMap_put (wa_cx env) (wiringEndpointDescription_hash (wa_cx env) w)
            (wed_same (wa_cx env) w) d t (wiringReceiveTracker a)\<rparr>)\<rparr>)"
proof -
  obtain t where t: "wiringAdmin_createWiringReceiveTracker env wid = (CELIX_SUCCESS, Some t)"
    using assms by (auto simp: wiringAdmin_createWiringReceiveTracker_def framework_ok_def case_prod_beta)
  obtain tracked where "serviceTracker_open env t = (CELIX_SUCCESS, tracked)"
    using assms unfolding framework_ok_def by (metis prod.collapse)
  with t show ?thesis
    by (intro exI [of _ t] exI [of _ tracked]) (simp add: track_receivers_def Let_def)
qed

lemma put_key_present: "hashMap_put cx h same k v m \<noteq> []"
proof -
  have "hashMap_replace same k v m \<noteq> []" if "m \<noteq> []" using that by (cases m) auto
  then show ?thesis
    by (cases m) (auto simp: hashMap_put_def hashMap_containsKey_def)
qed

definition wire_properties :: "wa_env \<Rightarrow> wiring_admin \<Rightarrow> string \<Rightarrow> string \<Rightarrow> properties" where
  "wire_properties env a u uuid =
     exported_properties env a (Some u) (properties_set (wa_cx env) [] WIRE_ID_KEY (Some uuid))"

lemma export_described_ok:
  assumes "framework_ok env u" "heap_calloc env w = Some d"
  shows "\<exists>w'. export_described env (Some u) w = Inr (CELIX_SUCCESS, Some d, w') \<and>
    (\<exists>p. weds w' = (weds w)(d \<mapsto> p) \<and> p = wire_properties env (rest w) u (wa_uuid env w) \<and>
       map_of p WIRE_ID_KEY = Some (wa_uuid env w) \<and> map_of p HTTP_URL_KEY = Some (wa_url (rest w)) \<and>
       map_of p WIRING_ADMIN_PROPERTIES_CONFIG_KEY = Some WIRING_ADMIN_PROPERTIES_CONFIG_VALUE \<and>
       map_of p WIRING_ADMIN_PROPERTIES_SECURE_KEY = Some WIRING_ADMIN_PROPERTIES_SECURE_VALUE \<and>
       map_of p (OSGI_RSA_ENDPOINT_FRAMEWORK_UUID (wa_cx env)) = Some u) \<and>
    wiringReceiveTracker (rest w') \<noteq> [] \<and> wa_ctx (rest w') = wa_ctx (rest w) \<and>
    exportedLock (rest w') = exportedLock (rest w)"
proof -
  let ?p = "exported_properties env (rest w) (Some u) (properties_set (wa_cx env) [] WIRE_ID_KEY (Some (wa_uuid env w)))"
  let ?w = "w\<lparr>weds := (weds w)(d \<mapsto> ?p)\<rparr>"
  have keys: "WIRE_ID_KEY \<noteq> HTTP_URL_KEY" "WIRE_ID_KEY \<noteq> WIRING_ADMIN_PROPERTIES_CONFIG_KEY"
    "WIRE_ID_KEY \<noteq> WIRING_ADMIN_PROPERTIES_SECURE_KEY" "HTTP_URL_KEY \<noteq> WIRING_ADMIN_PROPERTIES_CONFIG_KEY"
    "HTTP_URL_KEY \<noteq> WIRING_ADMIN_PROPERTIES_SECURE_KEY"
    "WIRING_ADMIN_PROPERTIES_CONFIG_KEY \<noteq> WIRING_ADMIN_PROPERTIES_SECURE_KEY"
    by (simp_all add: WIRE_ID_KEY_def HTTP_URL_KEY_def WIRING_ADMIN_PROPERTIES_CONFIG_KEY_def
        WIRING_ADMIN_PROPERTIES_SECURE_KEY_def)
  have p: "map_of ?p = [WIRE_ID_KEY \<mapsto> wa_uuid env w, WIRING_ADMIN_PROPERTIES_CONFIG_KEY \<mapsto> WIRING_ADMIN_PROPERTIES_CONFIG_VALUE,
      WIRING_ADMIN_PROPERTIES_SECURE_KEY \<mapsto> WIRING_ADMIN_PROPERTIES_SECURE_VALUE,
      HTTP_URL_KEY \<mapsto> wa_url (rest w), OSGI_RSA_ENDPOINT_FRAMEWORK_UUID (wa_cx env) \<mapsto> u]"
    using assms(1) by (simp add: exported_properties_map framework_ok_def properties_set_map_of)
  have rsa: "OSGI_RSA_ENDPOINT_FRAMEWORK_UUID (wa_cx env) \<notin>
       {WIRE_ID_KEY, HTTP_URL_KEY, WIRING_ADMIN_PROPERTIES_CONFIG_KEY, WIRING_ADMIN_PROPERTIES_SECURE_KEY}"
    using assms(1) unfolding framework_ok_def by blast
  have wid: "properties_get (wa_cx env) ?p WIRE_ID_KEY = Some (wa_uuid env w)"
    using keys rsa by (auto simp: properties_get_map_of p)
  obtain t tracked where "track_receivers env d (Some (wa_uuid env w)) ?w = Inr (CELIX_SUCCESS, ?w\<lparr>rest :=
    (let a = fold (wiringAdmin_wiringReceiveAdded env) tracked (rest ?w)
     in a\<lparr>wiringReceiveTracker := hashMap_put (wa_cx env) (wiringEndpointDescription_hash (wa_cx env) ?w)
            (wed_same (wa_cx env) ?w) d t (wiringReceiveTracker a)\<rparr>)\<rparr>)"
    using track_receivers_ok [OF assms(1), of d "wa_uuid env w" ?w] by blast
  then show ?thesis
    using assms(2) keys rsa
    by (auto simp: export_described_def wiringEndpointDescription_create_def wid Let_def p put_key_present
        wire_properties_def)
qed

lemma export_describes_wire:
  assumes "framework_ok env u" "wiringReceiveTracker (rest w) \<noteq> []"
    and "heap_calloc env (w\<lparr>rest := lockE (rest w)\<rparr>) = Some d"
  shows "\<exists>w' p. wiringAdmin_exportWiringEndpoint env w = Inr (CELIX_SUCCESS, Some d, w') \<and>
    weds w d = None \<and> weds w' = (weds w)(d \<mapsto> p) \<and>
    p = wire_properties env (rest w) u (wa_uuid env (w\<lparr>rest := lockE (rest w)\<rparr>)) \<and>
    map_of p WIRE_ID_KEY = Some (wa_uuid env (w\<lparr>rest := lockE (rest w)\<rparr>)) \<and>
    map_of p HTTP_URL_KEY = Some (wa_url (rest w)) \<and>
    map_of p WIRING_ADMIN_PROPERTIES_CONFIG_KEY = Some WIRING_ADMIN_PROPERTIES_CONFIG_VALUE \<and>
    map_of p WIRING_ADMIN_PROPERTIES_SECURE_KEY = Some WIRING_ADMIN_PROPERTIES_SECURE_VALUE \<and>
    map_of p (OSGI_RSA_ENDPOINT_FRAMEWORK_UUID (wa_cx env)) = Some u \<and>
    wiringReceiveTracker (rest w') \<noteq> [] \<and> wa_ctx (rest w') = wa_ctx (rest w) \<and> \<not> exportedLock (rest w')"
proof -
  let ?w = "w\<lparr>rest := lockE (rest w)\<rparr>"
  have uuid: "bundleContext_getProperty (wa_cx env) (OSGI_FRAMEWORK_FRAMEWORK_UUID (wa_cx env)) = (CELIX_SUCCESS, Some u)"
    using assms(1) by (simp add: framework_ok_def)
  have "export_locked env ?w = export_described env (Some u) ?w"
    using assms(2) uuid by (simp add: export_locked_def lockE_def)
  moreover have "weds w d = None"
    using assms(3) by (auto simp: heap_calloc_def split: option.splits if_splits)
  moreover have "wire_properties env (lockE (rest w)) u uuid = wire_properties env (rest w) u uuid" for uuid
    by (simp add: wire_properties_def exported_properties_def lockE_def)
  ultimately show ?thesis
    using export_described_ok [OF assms(1,3)] unfolding lockE_def
    by (auto simp: wiringAdmin_exportWiringEndpoint_def lockE_def unlockE_def)
qed

text \<open>
  Exporting a wire while the framework answers as it should: the call succeeds, makes
  one new description and changes no other, and the description carries a new wire id, the
  URL of this admin, its configuration type, the mark of a secure wire and the identity of
  the framework; the wire is tracked afterwards, the lock is free, and the web server is the
  one that ran before when there was an exported wire.
\<close>

theorem export_announces_wire:
  assumes "framework_ok env u" "wiringReceiveTracker (rest w) \<noteq> []"
    and "heap_calloc env (w\<lparr>rest := lockE (rest w)\<rparr>) = Some d"
  shows "\<exists>w' p. wiringAdmin_exportWiringEndpoint env w = Inr (CELIX_SUCCESS, Some d, w') \<and>
    weds w d = None \<and> weds w' = (weds w)(d \<mapsto> p) \<and>
    map_of p WIRE_ID_KEY = Some (wa_uuid env (w\<lparr>rest := lockE (rest w)\<rparr>)) \<and>
    map_of p HTTP_URL_KEY = Some (wa_url (rest w)) \<and>
    map_of p WIRING_ADMIN_PROPERTIES_CONFIG_KEY = Some WIRING_ADMIN_PROPERTIES_CONFIG_VALUE \<and>
    map_of p WIRING_ADMIN_PROPERTIES_SECURE_KEY = Some WIRING_ADMIN_PROPERTIES_SECURE_VALUE \<and>
    map_of p (OSGI_RSA_ENDPOINT_FRAMEWORK_UUID (wa_cx env)) = Some u \<and>
    wiringReceiveTracker (rest w') \<noteq> [] \<and> wa_ctx (rest w') = wa_ctx (rest w) \<and> \<not> exportedLock (rest w')"
  using export_describes_wire [OF assms] by blast

definition demo_wa_world :: "wiring_admin world" where
  "demo_wa_world = \<lparr>weds = Map.empty, rest = demo_wa\<lparr>wiringReceiveTracker := [(2, 4)], wa_url := ''https://h:1''\<rparr>\<rparr>"

lemma demo_framework_ok: "framework_ok demo_wa_env ''fw-1''"
  by (simp add: framework_ok_def demo_wa_defs WIRE_ID_KEY_def HTTP_URL_KEY_def
      WIRING_ADMIN_PROPERTIES_CONFIG_KEY_def WIRING_ADMIN_PROPERTIES_SECURE_KEY_def)

theorem export_announces_wire_witness:
  "\<exists>w' p. wiringAdmin_exportWiringEndpoint demo_wa_env demo_wa_world = Inr (CELIX_SUCCESS, Some 1, w') \<and>
    weds w' = [1 \<mapsto> p] \<and> map_of p WIRE_ID_KEY = Some ''uuid-1'' \<and> map_of p HTTP_URL_KEY = Some ''https://h:1''"
  using export_announces_wire [OF demo_framework_ok, of demo_wa_world 1]
  by (auto simp: heap_calloc_def demo_wa_world_def demo_wa_defs)

section \<open>Receivers and requests\<close>

text \<open>
  The specification of the receivers: for every wire id the services that receive on it, in
  the order they came.
\<close>

definition receivers :: "wiring_admin \<Rightarrow> string \<Rightarrow> receive_service list" where
  "receivers a wid = (case map_of (wiringReceiveServices a) wid of None \<Rightarrow> [] | Some l \<Rightarrow> l)"

definition receivers_inv :: "wiring_admin \<Rightarrow> bool" where
  "receivers_inv a \<longleftrightarrow> distinct (map fst (wiringReceiveServices a)) \<and> (\<forall>wid. map_of (wiringReceiveServices a) wid \<noteq> Some [])"

lemma receiveAdded_map:
  "map_of (wiringReceiveServices (wiringAdmin_wiringReceiveAdded env s a)) =
     (map_of (wiringReceiveServices a))(rs_wireId env s \<mapsto> receivers a (rs_wireId env s) @ [s])"
proof (cases "map_of (wiringReceiveServices a) (rs_wireId env s)")
  case None
  then show ?thesis
    by (simp add: wiringAdmin_wiringReceiveAdded_def Let_def smap.get_map_of smap.put_map_of smap.replace_map_of
        smap.keys_put receivers_def)
next
  case (Some l)
  then have "rs_wireId env s \<in> fst ` set (wiringReceiveServices a)" by (force dest: map_of_SomeD)
  with Some show ?thesis
    by (simp add: wiringAdmin_wiringReceiveAdded_def Let_def smap.get_map_of smap.replace_map_of receivers_def)
qed

lemma receiveRemoved_map:
  assumes "distinct (map fst (wiringReceiveServices a))"
  shows "map_of (wiringReceiveServices (wiringAdmin_wiringReceiveRemoved env s a)) =
     (map_of (wiringReceiveServices a))(rs_wireId env s :=
        (let l = remove1 s (receivers a (rs_wireId env s)) in if l = [] then None else Some l))"
proof (cases "map_of (wiringReceiveServices a) (rs_wireId env s)")
  case None
  then show ?thesis
    by (simp add: wiringAdmin_wiringReceiveRemoved_def Let_def smap.get_map_of receivers_def fun_upd_idem)
next
  case (Some l)
  then have "rs_wireId env s \<in> fst ` set (wiringReceiveServices a)" by (force dest: map_of_SomeD)
  with Some assms show ?thesis
    by (simp add: wiringAdmin_wiringReceiveRemoved_def Let_def smap.get_map_of smap.replace_map_of receivers_def
        smap.remove_map_of arrayList_removeElement_def)
qed

lemma receiveAdded_distinct:
  "distinct (map fst (wiringReceiveServices a)) \<Longrightarrow>
    distinct (map fst (wiringReceiveServices (wiringAdmin_wiringReceiveAdded env s a)))"
  by (auto simp: wiringAdmin_wiringReceiveAdded_def Let_def smap.keys_replace smap.put_distinct split: option.splits)

lemma receiveRemoved_distinct:
  "distinct (map fst (wiringReceiveServices a)) \<Longrightarrow>
    distinct (map fst (wiringReceiveServices (wiringAdmin_wiringReceiveRemoved env s a)))"
  by (auto simp: wiringAdmin_wiringReceiveRemoved_def Let_def smap.keys_replace smap.remove_distinct split: option.splits)

text \<open>
  C23. The receiver callbacks implement the specification: a service that appears is appended
  to the receivers of its wire and to no other, one that goes is removed from them, and the
  map never holds an entry without receivers.
\<close>

theorem receivers_refinement:
  assumes "receivers_inv a"
  shows "receivers (wiringAdmin_wiringReceiveAdded env s a) =
           (receivers a)(rs_wireId env s := receivers a (rs_wireId env s) @ [s]) \<and>
         receivers (wiringAdmin_wiringReceiveRemoved env s a) =
           (receivers a)(rs_wireId env s := remove1 s (receivers a (rs_wireId env s))) \<and>
         receivers_inv (wiringAdmin_wiringReceiveAdded env s a) \<and>
         receivers_inv (wiringAdmin_wiringReceiveRemoved env s a)"
proof -
  have d: "distinct (map fst (wiringReceiveServices a))" using assms by (simp add: receivers_inv_def)
  have "receivers (wiringAdmin_wiringReceiveAdded env s a) =
      (receivers a)(rs_wireId env s := receivers a (rs_wireId env s) @ [s])"
    by (rule ext) (simp add: receivers_def [of "wiringAdmin_wiringReceiveAdded env s a"] receiveAdded_map receivers_def)
  moreover have "receivers (wiringAdmin_wiringReceiveRemoved env s a) =
      (receivers a)(rs_wireId env s := remove1 s (receivers a (rs_wireId env s)))"
    by (rule ext) (simp add: receivers_def [of "wiringAdmin_wiringReceiveRemoved env s a"] receiveRemoved_map [OF d]
        receivers_def Let_def)
  moreover have "receivers_inv (wiringAdmin_wiringReceiveAdded env s a)"
    using assms receiveAdded_distinct [OF d]
    by (auto simp: receivers_inv_def receiveAdded_map)
  moreover have "receivers_inv (wiringAdmin_wiringReceiveRemoved env s a)"
    using assms receiveRemoved_distinct [OF d]
    by (auto simp: receivers_inv_def receiveRemoved_map [OF d] Let_def)
  ultimately show ?thesis by blast
qed

theorem receivers_refinement_witness:
  "receivers (wiringAdmin_wiringReceiveAdded demo_wa_env 8 demo_wa) = (\<lambda>w. [])(''uuid-1'' := [8])"
  using receivers_refinement [of demo_wa demo_wa_env 8]
  by (auto simp: receivers_inv_def receivers_def demo_wa_defs fun_eq_iff)

lemma first_receiver_hd:
  assumes "m \<noteq> []" "\<forall>(wid, l)\<in>set m. l \<noteq> []"
  shows "first_receiver m = Some (hd (snd (hd m)))"
  using assms by (cases m) (auto split: list.splits)

lemma receivers_inv_entries: "receivers_inv a \<Longrightarrow> \<forall>(wid, l)\<in>set (wiringReceiveServices a). l \<noteq> []"
  by (auto simp: receivers_inv_def)

lemma unat_word64: "n < 2 ^ 64 \<Longrightarrow> unat (of_nat n :: 64 word) = n"
  by (simp add: unat_of_nat take_bit_nat_eq_self)

lemma unat_word64_Suc: "Suc n < 2 ^ 64 \<Longrightarrow> unat ((of_nat n :: 64 word) + 1) = Suc n"
  using unat_word64 [of "Suc n"] by (simp add: add.commute)

lemma request_data_complete:
  assumes "content_length r = int (length (mg_read r))" "length (mg_read r) < 2 ^ 63"
    and "CHR 0x00 \<notin> set (mg_read r)"
  shows "request_data r = Inr (mg_read r)"
proof -
  have "unat (of_nat (length (mg_read r)) :: 64 word) = length (mg_read r)"
    using assms(2) by (intro unat_word64) simp
  moreover have "unat ((of_nat (length (mg_read r)) :: 64 word) + 1) = Suc (length (mg_read r))"
    using assms(2) by (intro unat_word64_Suc) simp
  moreover have "takeWhile (\<lambda>c. c \<noteq> CHR 0x00) (mg_read r) = mg_read r"
    using assms(3) by (subst takeWhile_eq_all_conv) blast
  moreover have "word_of_int (int (length (mg_read r))) = (of_nat (length (mg_read r)) :: 64 word)"
    by simp
  ultimately show ?thesis
    unfolding request_data_def Let_def assms(1) by (simp only:) simp
qed

lemma callback_answers:
  assumes "req_uri r = Some uri" "req_method r = ''POST''" "receivers_inv a" "\<not> exportedLock a"
    and "content_length r = int (length (mg_read r))" "length (mg_read r) < 2 ^ 63"
    and "CHR 0x00 \<notin> set (mg_read r)"
  shows "wiringAdmin_callback env r a =
    Inr (1, (case wiringReceiveServices a of
               [] \<Rightarrow> no_content_response_headers
             | (wid, l) # m \<Rightarrow>
                 (case rs_receive env (hd l) (mg_read r) of (status, response) \<Rightarrow>
                    (case response of
                       Some t \<Rightarrow> if status = CELIX_SUCCESS then data_response_headers @ t else no_content_response_headers
                     | None \<Rightarrow> no_content_response_headers))), a)"
proof -
  note data = request_data_complete [OF assms(5-7)]
  have unlock: "unlockE (lockE a) = Inr a" using assms(4) by (cases a) (simp add: lockE_def unlockE_def)
  have same: "wiringReceiveServices (lockE a) = wiringReceiveServices a" by (simp add: lockE_def)
  have receiver: "first_receiver (wiringReceiveServices a) =
      (case wiringReceiveServices a of [] \<Rightarrow> None | e # m \<Rightarrow> Some (hd (snd e)))"
    using receivers_inv_entries [OF assms(3)] by (cases "wiringReceiveServices a") (simp_all add: first_receiver_hd)
  show ?thesis
    unfolding wiringAdmin_callback_def assms(1,2) option.case data same receiver Let_def
    by (cases "wiringReceiveServices a")
      (simp_all add: unlock case_prod_beta split: option.split)
qed

text \<open>
  A complete POST request whose length the client announced is handed to the first
  receiver of the first wire in the map, whatever wire it was meant for; the answer of the
  receiver follows the headers, without one (or without a receiver) the answer is empty, and
  the lock is released.
\<close>

theorem callback_post:
  assumes "req_uri r = Some uri" "req_method r = ''POST''" "receivers_inv a" "\<not> exportedLock a"
    and "content_length r = int (length (mg_read r))" "length (mg_read r) < 2 ^ 63"
    and "CHR 0x00 \<notin> set (mg_read r)"
  shows "wiringAdmin_callback env r a =
    Inr (1, (case wiringReceiveServices a of
               [] \<Rightarrow> no_content_response_headers
             | (wid, l) # m \<Rightarrow>
                 (case rs_receive env (hd l) (mg_read r) of (status, response) \<Rightarrow>
                    (case response of
                       Some t \<Rightarrow> if status = CELIX_SUCCESS then data_response_headers @ t else no_content_response_headers
                     | None \<Rightarrow> no_content_response_headers))), a)"
  using assms by (rule callback_answers)

theorem callback_post_witness:
  "wiringAdmin_callback demo_wa_env
     \<lparr>req_uri = Some ''/'', req_method = ''POST'', content_length = 2, mg_read = ''hi'', fresh = ''zzz''\<rparr>
     (demo_wa\<lparr>wiringReceiveServices := [(''uuid-1'', [8])]\<rparr>) =
   Inr (1, data_response_headers @ ''re:hi'', demo_wa\<lparr>wiringReceiveServices := [(''uuid-1'', [8])]\<rparr>)"
  by (subst callback_post [where uri = "''/''"])
    (simp_all add: demo_wa_defs receivers_inv_def)

text \<open>
  Two requests a client can make at will end outside the defined behaviour: a POST
  without a content length overruns the buffer it allocates, and any other method releases a
  lock the handler does not hold.
\<close>

theorem callback_faults:
  assumes "req_uri r = Some uri" "\<not> exportedLock a"
  shows "(req_method r = ''POST'' \<and> content_length r = -1 \<longrightarrow> wiringAdmin_callback env r a = Inl BufferOverflow) \<and>
         (req_method r \<noteq> ''POST'' \<longrightarrow> wiringAdmin_callback env r a = Inl UnlockNotHeld)"
  using assms by (simp add: wiringAdmin_callback_def request_data_def unlockE_def)

theorem callback_faults_witness:
  "wiringAdmin_callback demo_wa_env
     \<lparr>req_uri = Some ''/'', req_method = ''GET'', content_length = -1, mg_read = [], fresh = []\<rparr> demo_wa =
   Inl UnlockNotHeld"
  using callback_faults [of "\<lparr>req_uri = Some ''/'', req_method = ''GET'', content_length = -1, mg_read = [], fresh = []\<rparr>"
      "''/''" demo_wa demo_wa_env]
  by (simp add: demo_wa_def)

section \<open>Sending\<close>

text \<open>Reading the request through the callback until it answers 0.\<close>

fun drain :: "nat \<Rightarrow> post \<Rightarrow> string result" where
  "drain 0 p = Inr []"
| "drain (Suc n) p =
     rbind (wiringAdmin_HTTPReqReadCallback p) (\<lambda>(c, p).
       case c of None \<Rightarrow> Inr [] | Some c \<Rightarrow> rbind (drain n p) (\<lambda>cs. Inr (c # cs)))"

lemma drain_request:
  "length request < n \<Longrightarrow> drain n \<lparr>readptr = request, post_size = int (length request)\<rparr> = Inr request"
proof (induction request arbitrary: n)
  case Nil
  then show ?case by (cases n) (auto simp: wiringAdmin_HTTPReqReadCallback_def)
next
  case (Cons c request)
  then obtain k where "n = Suc k" "length request < k" by (cases n) auto
  with Cons.IH [of k] show ?case by (simp add: wiringAdmin_HTTPReqReadCallback_def)
qed

lemma HTTPReqWrite_append:
  assumes "length b + length c < 2 ^ 31"
  shows "wiringAdmin_HTTPReqWrite True c \<lparr>writeptr = Some b, get_size = int (length b)\<rparr> =
    Inr \<lparr>writeptr = Some (b @ c), get_size = int (length (b @ c))\<rparr>"
  using assms by (simp add: wiringAdmin_HTTPReqWrite_def int_of_long_id Let_def)

lemma HTTPReqWrite_blocks:
  assumes "length b + length (concat cs) < 2 ^ 31"
  shows "rfold (wiringAdmin_HTTPReqWrite True) cs \<lparr>writeptr = Some b, get_size = int (length b)\<rparr> =
    Inr \<lparr>writeptr = Some (b @ concat cs), get_size = int (length (b @ concat cs))\<rparr>"
  using assms
proof (induction cs arbitrary: b)
  case (Cons c cs)
  have "wiringAdmin_HTTPReqWrite True c \<lparr>writeptr = Some b, get_size = int (length b)\<rparr> =
      Inr \<lparr>writeptr = Some (b @ c), get_size = int (length (b @ c))\<rparr>"
    using Cons.prems by (intro HTTPReqWrite_append) simp
  then show ?case using Cons.IH [of "b @ c"] Cons.prems by (simp add: add.assoc)
qed simp

lemma HTTPReqWrite_all:
  assumes "length (concat cs) < 2 ^ 31" "cs \<noteq> []"
  shows "rfold (wiringAdmin_HTTPReqWrite True) cs \<lparr>writeptr = None, get_size = 0\<rparr> =
    Inr \<lparr>writeptr = Some (concat cs), get_size = int (length (concat cs))\<rparr>"
proof -
  obtain c cs' where cs: "cs = c # cs'" using assms(2) by (cases cs) auto
  have "wiringAdmin_HTTPReqWrite True c \<lparr>writeptr = None, get_size = 0\<rparr> =
      Inr \<lparr>writeptr = Some c, get_size = int (length c)\<rparr>"
    using assms(1) cs by (simp add: wiringAdmin_HTTPReqWrite_def int_of_long_id Let_def)
  then show ?thesis using HTTPReqWrite_blocks [of c cs'] assms(1) cs by simp
qed

lemma send_answers:
  assumes "weds w (ss_endpoint s) = Some p" "map_of p HTTP_URL_KEY = Some url"
    and "wa_trust env = Some tp" "tp_cert tp = Some cert" "tp_private_key tp = Some key" "tp_ca_cert tp = Some ca"
    and "length request < 2 ^ 31"
    and "t = curl \<lparr>CURLOPT_URL = Some url, CURLOPT_SSLCERT = cert, CURLOPT_SSLKEY = key, CURLOPT_CAINFO = ca,
                  CURLOPT_POSTFIELDSIZE = int (length request)\<rparr>
                 \<lparr>readptr = request, post_size = int (length request)\<rparr>"
    and "ct_http_code t = 200" "ct_res t = 0" "ct_blocks t \<noteq> []" "length (concat (ct_blocks t)) < 2 ^ 31"
  shows "wiringAdmin_send env (Some curl) True s request w =
      Inr (CELIX_SUCCESS, Some (Some (concat (ct_blocks t))), Some 0) \<and>
    drain (Suc (length request)) \<lparr>readptr = request, post_size = int (length request)\<rparr> = Inr request"
proof -
  have "int_of_long (int (length request)) = int (length request)"
    using assms(7) by (intro int_of_long_id) simp_all
  then show ?thesis
    using assms(1-6,8-10) HTTPReqWrite_all [OF assms(12,11)]
    by (simp add: wiringAdmin_send_def wed_deref_def properties_get_map_of Let_def drain_request
        CURLE_ABORTED_BY_CALLBACK_def del: drain.simps)
qed

text \<open>
  C35. Sending over a wire posts the whole request to the URL of the wire's description with
  the client certificate, key and CA of the trust manager; on status 200 the reply is the
  answer put together from its blocks, however curl cut it.
\<close>

theorem send_posts_request:
  assumes "weds w (ss_endpoint s) = Some p" "map_of p HTTP_URL_KEY = Some url"
    and "wa_trust env = Some tp" "tp_cert tp = Some cert" "tp_private_key tp = Some key" "tp_ca_cert tp = Some ca"
    and "length request < 2 ^ 31"
    and "t = curl \<lparr>CURLOPT_URL = Some url, CURLOPT_SSLCERT = cert, CURLOPT_SSLKEY = key, CURLOPT_CAINFO = ca,
                  CURLOPT_POSTFIELDSIZE = int (length request)\<rparr>
                 \<lparr>readptr = request, post_size = int (length request)\<rparr>"
    and "ct_http_code t = 200" "ct_res t = 0" "ct_blocks t \<noteq> []" "length (concat (ct_blocks t)) < 2 ^ 31"
  shows "wiringAdmin_send env (Some curl) True s request w =
      Inr (CELIX_SUCCESS, Some (Some (concat (ct_blocks t))), Some 0) \<and>
    drain (Suc (length request)) \<lparr>readptr = request, post_size = int (length request)\<rparr> = Inr request"
  using assms by (rule send_answers)

definition demo_curl :: "curl_options \<Rightarrow> post \<Rightarrow> curl_transfer" where
  "demo_curl opts post = \<lparr>ct_blocks = [''ok '', readptr post], ct_res = 0, ct_http_code = 200\<rparr>"

theorem send_posts_request_witness:
  "wiringAdmin_send demo_wa_env (Some demo_curl) True \<lparr>ss_endpoint = 1, ss_errorCount = 0\<rparr> ''ping''
     \<lparr>weds = [1 \<mapsto> [(HTTP_URL_KEY, ''https://h:1'')]], rest = ()\<rparr> =
   Inr (CELIX_SUCCESS, Some (Some ''ok ping''), Some 0)"
  using send_posts_request [of "\<lparr>weds = [1 \<mapsto> [(HTTP_URL_KEY, ''https://h:1'')]], rest = ()\<rparr>"
      "\<lparr>ss_endpoint = 1, ss_errorCount = 0\<rparr>" "[(HTTP_URL_KEY, ''https://h:1'')]" "''https://h:1''" demo_wa_env
      demo_trust _ _ _ "''ping''" _ demo_curl, OF _ _ _ _ _ _ _ refl]
  by (simp add: demo_wa_defs demo_curl_def)

section \<open>Removing exported wires\<close>

text \<open>
  Removing an exported wire that is tracked frees its description and no other, drops
  its tracker, releases the lock and stops the web server exactly when it was the last one.
\<close>

theorem removeExported_stops_server:
  assumes "weds w d = Some p" "hashMap_get (wed_same (wa_cx env) w) (wiringReceiveTracker (rest w)) d = Some t"
  shows "\<exists>w'. wiringAdmin_removeExportedWiringEndpoint env (Some d) w = Inr (CELIX_SUCCESS, w') \<and>
    weds w' = (weds w)(d := None) \<and>
    wiringReceiveTracker (rest w') = hashMap_remove (wed_same (wa_cx env) w) d (wiringReceiveTracker (rest w)) \<and>
    wa_ctx (rest w') = (if wiringReceiveTracker (rest w') = [] then None else wa_ctx (rest w)) \<and>
    \<not> exportedLock (rest w')"
  using assms
  by (auto simp: wiringAdmin_removeExportedWiringEndpoint_def wiringEndpointDescription_destroy_def Let_def
      lockE_def unlockE_def wiringAdmin_stopWebserver_def)

theorem removeExported_stops_server_witness:
  "\<exists>w'. wiringAdmin_removeExportedWiringEndpoint demo_wa_env (Some 1)
      \<lparr>weds = [1 \<mapsto> []], rest = demo_wa\<lparr>wiringReceiveTracker := [(1, 3)], wa_ctx := Some 9\<rparr>\<rparr> = Inr (CELIX_SUCCESS, w') \<and>
    wa_ctx (rest w') = None"
  using removeExported_stops_server [of "\<lparr>weds = [1 \<mapsto> []], rest = demo_wa\<lparr>wiringReceiveTracker := [(1, 3)], wa_ctx := Some 9\<rparr>\<rparr>"
      1 "[]" demo_wa_env 3]
  by (auto simp: hashMap_get_def)

text \<open>
  An export that fails after the web server was started leaves the server running
  although no wire is exported, and hands out the description it made; the next export
  starts another server over it.
\<close>

theorem failed_export_leaves_server:
  assumes "wiringReceiveTracker (rest w) = []"
    and "wiringAdmin_startWebserver env (lockE (rest w)) = Inr (CELIX_SUCCESS, a)" "wa_ctx a = Some c"
    and "wiringReceiveTracker a = []" "exportedLock a"
    and "bundleContext_getProperty (wa_cx env) (OSGI_FRAMEWORK_FRAMEWORK_UUID (wa_cx env)) = (CELIX_SUCCESS, Some u)"
    and "OSGI_RSA_ENDPOINT_FRAMEWORK_UUID (wa_cx env) \<notin>
      {WIRE_ID_KEY, HTTP_URL_KEY, WIRING_ADMIN_PROPERTIES_CONFIG_KEY, WIRING_ADMIN_PROPERTIES_SECURE_KEY}"
    and "heap_calloc env (w\<lparr>rest := a\<rparr>) = Some d"
    and "serviceTrackerCustomizer_create env = st" "st \<noteq> CELIX_SUCCESS"
  shows "\<exists>w'. wiringAdmin_exportWiringEndpoint env w = Inr (st, Some d, w') \<and>
    wiringReceiveTracker (rest w') = [] \<and> wa_ctx (rest w') = Some c"
proof -
  let ?w = "w\<lparr>rest := a\<rparr>"
  let ?p = "exported_properties env a (Some u) (properties_set (wa_cx env) [] WIRE_ID_KEY (Some (wa_uuid env ?w)))"
  have keys: "WIRE_ID_KEY \<noteq> HTTP_URL_KEY" "WIRE_ID_KEY \<noteq> WIRING_ADMIN_PROPERTIES_CONFIG_KEY"
    "WIRE_ID_KEY \<noteq> WIRING_ADMIN_PROPERTIES_SECURE_KEY"
    by (simp_all add: WIRE_ID_KEY_def HTTP_URL_KEY_def WIRING_ADMIN_PROPERTIES_CONFIG_KEY_def
        WIRING_ADMIN_PROPERTIES_SECURE_KEY_def)
  have wid: "properties_get (wa_cx env) ?p WIRE_ID_KEY = Some (wa_uuid env ?w)"
    using keys assms(7)
    by (auto simp: properties_get_map_of exported_properties_map properties_set_map_of)
  have "wiringAdmin_createWiringReceiveTracker env i = (st, None)" for i
    using assms(9,10) by (simp add: wiringAdmin_createWiringReceiveTracker_def)
  then have track: "track_receivers env d (Some i) x = Inr (st, x)" for i x
    using assms(10) by (cases st) (simp_all add: track_receivers_def)
  have "export_described env (Some u) ?w = Inr (st, Some d, ?w\<lparr>weds := (weds w)(d \<mapsto> ?p)\<rparr>)"
    using assms(8) wid
    by (simp add: export_described_def wiringEndpointDescription_create_def Let_def track)
  then show ?thesis
    using assms(1-6)
    by (simp add: wiringAdmin_exportWiringEndpoint_def export_locked_def unlockE_def lockE_def)
qed

definition failing_env :: wa_env where
  "failing_env = demo_wa_env\<lparr>mg_start := (\<lambda>k os. Some 9), serviceTrackerCustomizer_create := CELIX_ENOMEM\<rparr>"

theorem failed_export_leaves_server_witness:
  "\<exists>w'. wiringAdmin_exportWiringEndpoint failing_env \<lparr>weds = Map.empty, rest = demo_wa\<rparr> = Inr (CELIX_ENOMEM, Some 1, w') \<and>
    wiringReceiveTracker (rest w') = [] \<and> wa_ctx (rest w') = Some 9"
  by (rule failed_export_leaves_server [where u = "''fw-1''" and
        a = "demo_wa\<lparr>wa_ctx := Some 9, wa_url := ''https://10.0.0.1:8080'', exportedLock := True\<rparr>"])
    (simp_all add: failing_env_def demo_wa_defs wiringAdmin_startWebserver_def MAX_NUMBER_OF_RESTARTS_def
      numeral_eq_Suc webserver_ip_def snprintf_def MAX_URL_LENGTH_def lockE_def heap_calloc_def WIRE_ID_KEY_def
      HTTP_URL_KEY_def WIRING_ADMIN_PROPERTIES_CONFIG_KEY_def WIRING_ADMIN_PROPERTIES_SECURE_KEY_def)

text \<open>
  Without a configured address the interface the configuration names has no say: as
  soon as any interface has an address, the first of them is announced.
\<close>

theorem webserver_ip_ignores_interface:
  assumes "snd (bundleContext_getProperty (wa_cx env) ''NODE_DISCOVERY_NODE_WA_ADDRESS'') = None"
    and "wa_getifaddrs env = Some ifs" "find (ifa_usable None) ifs = Some i"
  shows "webserver_ip env = ifa_host i"
  using assms getIpAddress_loop_find [of None ifs] find_Some_iff [of "ifa_usable None" ifs i]
  by (auto simp: webserver_ip_def wiring_getIpAddress_def ifa_usable_def)

theorem webserver_ip_ignores_interface_witness:
  "webserver_ip (demo_wa_env\<lparr>wa_cx := demo_cx\<lparr>bundleContext_getProperty :=
       (\<lambda>k. (CELIX_SUCCESS, if k = ''NODE_DISCOVERY_NODE_WA_ITF'' then Some ''eth1'' else None))\<rparr>,
     wa_getifaddrs := Some [\<lparr>ifa_name = ''lo'', ifa_addr = True, ifa_host = Some ''127.0.0.1''\<rparr>,
       \<lparr>ifa_name = ''eth1'', ifa_addr = True, ifa_host = Some ''10.0.0.7''\<rparr>]\<rparr>) = Some ''127.0.0.1''"
  by (subst webserver_ip_ignores_interface [where
      ifs = "[\<lparr>ifa_name = ''lo'', ifa_addr = True, ifa_host = Some ''127.0.0.1''\<rparr>,
       \<lparr>ifa_name = ''eth1'', ifa_addr = True, ifa_host = Some ''10.0.0.7''\<rparr>]" and
      i = "\<lparr>ifa_name = ''lo'', ifa_addr = True, ifa_host = Some ''127.0.0.1''\<rparr>"])
    (simp_all add: demo_cx_def ifa_usable_def)

section \<open>Imported wires\<close>

text \<open>
  Giving up an imported endpoint undoes its import: the admin and all descriptions are
  as they were, and what is unregistered is the registration the import made.
\<close>

theorem import_removeImported_roundtrip:
  assumes "wiringAdmin_importWiringEndpoint env d w = Inr (CELIX_SUCCESS, wI)"
    and "hashMap_get (wed_same (wa_cx env) w) (wiringSendServices (rest w)) d = None"
    and "hashMap_get (wed_same (wa_cx env) w) (wiringSendRegistrations (rest w)) d = None"
  shows "\<exists>reg. hashMap_get (wed_same (wa_cx env) w) (wiringSendRegistrations (rest wI)) d = Some reg \<and>
    wiringAdmin_removeImportedWiringEndpoint env d wI = Inr (wa_unregister env (Some reg), w)"
proof -
  let ?h = "wiringEndpointDescription_hash (wa_cx env) w" and ?same = "wed_same (wa_cx env) w"
  obtain p where p: "weds w d = Some p" and alloc: "wa_calloc_send env"
    using assms(1) by (auto simp: wiringAdmin_importWiringEndpoint_def wed_deref_def split: option.splits if_splits)
  obtain st reg where r: "wa_registerService env (properties_set (wa_cx env) [] ''wire.id''
      (properties_get (wa_cx env) p WIRE_ID_KEY)) = (st, reg)" by fastforce
  have st: "st = CELIX_SUCCESS"
    using assms(1) p alloc r
    by (simp add: wiringAdmin_importWiringEndpoint_def wed_deref_def Let_def split: if_splits)
  have wI: "wI = w\<lparr>rest := (rest w)\<lparr>
       wiringSendServices := hashMap_put (wa_cx env) ?h ?same d \<lparr>ss_endpoint = d, ss_errorCount = 0\<rparr> (wiringSendServices (rest w)),
       wiringSendRegistrations := hashMap_put (wa_cx env) ?h ?same d reg (wiringSendRegistrations (rest w))\<rparr>\<rparr>"
    using assms(1) p alloc r st
    by (simp add: wiringAdmin_importWiringEndpoint_def wed_deref_def Let_def)
  have same: "wed_same (wa_cx env) wI = ?same"
    by (rule wed_same_cong) (simp add: wI)
  have get: "hashMap_get ?same (hashMap_put (wa_cx env) ?h ?same d reg (wiringSendRegistrations (rest w))) d = Some reg"
    by (rule hashMap_get_put_same) simp
  have fields: "weds wI = weds w"
    "wiringSendServices (rest wI) = hashMap_put (wa_cx env) ?h ?same d \<lparr>ss_endpoint = d, ss_errorCount = 0\<rparr> (wiringSendServices (rest w))"
    "wiringSendRegistrations (rest wI) = hashMap_put (wa_cx env) ?h ?same d reg (wiringSendRegistrations (rest w))"
    and restored: "wI\<lparr>rest := (rest wI)\<lparr>wiringSendServices := wiringSendServices (rest w),
        wiringSendRegistrations := wiringSendRegistrations (rest w)\<rparr>\<rparr> = w"
    by (simp_all add: wI)
  show ?thesis
    using p get
    by (simp add: wiringAdmin_removeImportedWiringEndpoint_def wed_deref_def Let_def same fields restored
        remove_put_new [OF assms(2)] remove_put_new [OF assms(3)])
qed

theorem import_removeImported_roundtrip_witness:
  "\<exists>wI reg. wiringAdmin_importWiringEndpoint demo_wa_env 1 \<lparr>weds = [1 \<mapsto> [(WIRE_ID_KEY, ''w'')]], rest = demo_wa\<rparr> =
      Inr (CELIX_SUCCESS, wI) \<and>
    wiringAdmin_removeImportedWiringEndpoint demo_wa_env 1 wI =
      Inr (wa_unregister demo_wa_env (Some reg), \<lparr>weds = [1 \<mapsto> [(WIRE_ID_KEY, ''w'')]], rest = demo_wa\<rparr>)"
proof -
  let ?w = "\<lparr>weds = [1 \<mapsto> [(WIRE_ID_KEY, ''w'')]], rest = demo_wa\<rparr>"
  obtain wI where wI: "wiringAdmin_importWiringEndpoint demo_wa_env 1 ?w = Inr (CELIX_SUCCESS, wI)"
    by (simp add: wiringAdmin_importWiringEndpoint_def demo_wa_defs wed_deref_def Let_def)
  show ?thesis
    using import_removeImported_roundtrip [OF wI] wI by (auto simp: demo_wa_def hashMap_get_def)
qed

end
