(* ===== verification/Trust_Storage.thy ===== *)
theory Trust_Storage
  imports Prelude "HOL-Library.AList"
begin

text \<open>
  \<^verbatim>\<open>trust_manager/private/src/trust_manager_storage.c\<close>: where the trust manager keeps its
  keys and certificates. A file system is a partial map from the paths of folders to their
  entries, in the order in which \<open>readdir\<close> answers them, each with its contents; a folder
  is named by one path text. What the operating system may refuse is a parameter.
\<close>

section \<open>The file system\<close>

type_synonym folder = "(string \<times> string) list"
type_synonym filesys = "string \<rightharpoonup> folder"

record os_env =
  mkdir_ok :: "string \<Rightarrow> bool"
  open_read_ok :: "string \<Rightarrow> bool"
  open_write_ok :: "string \<Rightarrow> bool"
  fputs_ok :: "string \<Rightarrow> bool"
  rename_ok :: "string \<Rightarrow> string \<Rightarrow> bool"
  os_malloc :: "nat \<Rightarrow> bool"
    \<comment> \<open>whether a block of that size is granted\<close>
  fresh_memory :: string
    \<comment> \<open>the characters that a fresh block or array happens to hold, up to the first NUL\<close>

definition file_name :: "string \<Rightarrow> string" where
  "file_name p = rev (takeWhile (\<lambda>c. c \<noteq> CHR ''/'') (rev p))"

definition folder_of :: "string \<Rightarrow> string" where
  "folder_of p =
     (case dropWhile (\<lambda>c. c \<noteq> CHR ''/'') (rev p) of
        [] \<Rightarrow> ''.''
      | [c] \<Rightarrow> ''/''
      | c # d \<Rightarrow> rev d)"

definition file_at :: "filesys \<Rightarrow> string \<Rightarrow> string option" where
  "file_at fs p = (case fs (folder_of p) of None \<Rightarrow> None | Some es \<Rightarrow> map_of es (file_name p))"

definition set_file :: "string \<Rightarrow> string \<Rightarrow> filesys \<Rightarrow> filesys" where
  "set_file p t fs = (case fs (folder_of p) of
     None \<Rightarrow> fs
   | Some es \<Rightarrow> fs(folder_of p \<mapsto> AList.update (file_name p) t es))"

text \<open>\<open>remove\<close> and \<open>rename\<close>; the latter answers 0 or -1.\<close>

definition os_remove :: "string \<Rightarrow> filesys \<Rightarrow> filesys" where
  "os_remove p fs = (case fs (folder_of p) of
     None \<Rightarrow> fs
   | Some es \<Rightarrow> fs(folder_of p \<mapsto> AList.delete (file_name p) es))"

definition os_rename :: "os_env \<Rightarrow> string \<Rightarrow> string \<Rightarrow> filesys \<Rightarrow> int \<times> filesys" where
  "os_rename env src dst fs = (case file_at fs src of
     None \<Rightarrow> (-1, fs)
   | Some t \<Rightarrow>
       if fs (folder_of dst) = None \<or> \<not> rename_ok env src dst then (-1, fs)
       else if src = dst then (0, fs)
       else (0, set_file dst t (os_remove src fs)))"

section \<open>Regular expressions\<close>

text \<open>
  The basic regular expressions that the sources compile have one form: a literal name in a
  group that is repeated once, anchored at both ends, \<^verbatim>\<open>^\(name\)\{1\}$\<close> with the dots of
  the name escaped. \<open>regcomp\<close> is modelled on this form; an expression of another form
  counts as one that does not compile. Such an expression matches exactly the name.
\<close>

fun bre_group :: "string \<Rightarrow> string option" where
  "bre_group [] = None"
| "bre_group [c] = None"
| "bre_group (c # d # s) =
     (if c = CHR 0x5C then
        if d = CHR '')'' then
          if s = [CHR 0x5C] @ ''{1'' @ [CHR 0x5C] @ ''}$'' then Some [] else None
        else if d = CHR ''.'' then map_option (\<lambda>t. d # t) (bre_group s)
        else None
      else if c \<in> set ''.*[]^$'' then None
      else map_option (\<lambda>t. c # t) (bre_group (d # s)))"

definition regcomp :: "string \<Rightarrow> string option" where
  "regcomp re =
     (if take 3 re = ''^'' @ [CHR 0x5C] @ ''('' then bre_group (drop 3 re) else None)"

definition regexec :: "string \<Rightarrow> string \<Rightarrow> bool" where
  "regexec re name \<longleftrightarrow> name = re"

definition name_regex :: "string \<Rightarrow> string" where
  "name_regex name = ''^'' @ [CHR 0x5C] @ ''('' @
     concat (map (\<lambda>c. if c = CHR ''.'' then [CHR 0x5C, c] else [c]) name) @
     [CHR 0x5C] @ '')'' @ [CHR 0x5C] @ ''{1'' @ [CHR 0x5C] @ ''}$''"

definition CA_CERT_REGEX :: string where "CA_CERT_REGEX = name_regex ''ca.pem''"
definition PRIVATE_KEY_REGEX :: string where "PRIVATE_KEY_REGEX = name_regex ''client_priv.key''"
definition PUBLIC_KEY_REGEX :: string where "PUBLIC_KEY_REGEX = name_regex ''client_pub.key''"
definition CERTIFICATE_REGEX :: string where "CERTIFICATE_REGEX = name_regex ''client.pem''"
definition CERTIFICATE_FULL_REGEX :: string where "CERTIFICATE_FULL_REGEX = name_regex ''client_full.pem''"

section \<open>Operations\<close>

definition check_create_keyfolder :: "os_env \<Rightarrow> string \<Rightarrow> filesys \<Rightarrow> int \<times> filesys" where
  "check_create_keyfolder env storage_path fs =
     (if fs storage_path = None then
        if mkdir_ok env storage_path then (0, fs(storage_path \<mapsto> [])) else (-1, fs)
      else (0, fs))"

text \<open>
  \<open>sprintf\<close> and \<open>strcpy\<close> into a buffer of \<open>cap\<close> characters: a text that does not fit with
  its terminator is written behind the buffer.
\<close>

definition sprintf :: "nat \<Rightarrow> string \<Rightarrow> string result" where
  "sprintf cap s = (if length s < cap then Inr s else Inl BufferOverflow)"

definition get_next_certificate_file_path :: "nat \<Rightarrow> string \<Rightarrow> (int \<times> string) result" where
  "get_next_certificate_file_path cap storage_path =
     rbind (sprintf cap (storage_path @ ''/client.pem'')) (\<lambda>filepath. Inr (0, filepath))"

definition get_next_full_certificate_file_path :: "nat \<Rightarrow> string \<Rightarrow> (int \<times> string) result" where
  "get_next_full_certificate_file_path cap storage_path =
     rbind (sprintf cap (storage_path @ ''/client_full.pem'')) (\<lambda>filepath. Inr (0, filepath))"

definition get_next_ca_certificate_file_path :: "nat \<Rightarrow> string \<Rightarrow> (int \<times> string) result" where
  "get_next_ca_certificate_file_path cap storage_path =
     rbind (sprintf cap (storage_path @ ''/ca.pem'')) (\<lambda>filepath. Inr (0, filepath))"

definition get_next_private_key_file_path :: "nat \<Rightarrow> string \<Rightarrow> (int \<times> string) result" where
  "get_next_private_key_file_path cap storage_path =
     rbind (sprintf cap (storage_path @ ''/client_priv.key'')) (\<lambda>filepath. Inr (0, filepath))"

definition get_next_public_key_file_path :: "nat \<Rightarrow> string \<Rightarrow> (int \<times> string) result" where
  "get_next_public_key_file_path cap storage_path =
     rbind (sprintf cap (storage_path @ ''/client_pub.key'')) (\<lambda>filepath. Inr (0, filepath))"

text \<open>
  One turn of the loop over the entries: the first match goes to the caller's buffer of
  \<open>cap\<close> characters, the two after it are skipped, every further one is removed.
\<close>

record recent_scan =
  rs_filepath :: string
  rs_found :: bool
  rs_skip :: int
  rs_fs :: filesys

definition recent_entry :: "nat \<Rightarrow> string \<Rightarrow> (string \<Rightarrow> bool) \<Rightarrow> string \<Rightarrow> recent_scan \<Rightarrow> recent_scan result" where
  "recent_entry cap fldr matches d_name st =
     (if matches d_name then
        rbind (sprintf 1024 (fldr @ ''/'' @ d_name)) (\<lambda>buffer_priv.
          if \<not> rs_found st then
            rbind (sprintf cap buffer_priv) (\<lambda>filepath.
              Inr (st\<lparr>rs_filepath := filepath, rs_found := True\<rparr>))
          else if rs_skip st \<le> 0 then Inr (st\<lparr>rs_fs := os_remove buffer_priv (rs_fs st)\<rparr>)
          else Inr (st\<lparr>rs_skip := rs_skip st - 1\<rparr>))
      else Inr st)"

definition get_recent_file_by_regex ::
    "nat \<Rightarrow> string \<Rightarrow> string \<Rightarrow> string \<Rightarrow> filesys \<Rightarrow> (int \<times> string \<times> filesys) result" where
  "get_recent_file_by_regex cap filepath fldr reg_expression fs =
     (case fs fldr of
        None \<Rightarrow> Inr (2, filepath, fs)
      | Some es \<Rightarrow>
          (case regcomp reg_expression of
             None \<Rightarrow> Inr (3, filepath, fs)
           | Some re \<Rightarrow>
               rbind (rfold (recent_entry cap fldr (regexec re)) (map fst es)
                        \<lparr>rs_filepath = filepath, rs_found = False, rs_skip = 2, rs_fs = fs\<rparr>) (\<lambda>st.
                 Inr (if rs_found st then 0 else 1, rs_filepath st, rs_fs st))))"

definition get_recent_private_key where
  "get_recent_private_key cap filepath storage_path fs =
     get_recent_file_by_regex cap filepath storage_path PRIVATE_KEY_REGEX fs"

definition get_recent_public_key where
  "get_recent_public_key cap filepath storage_path fs =
     get_recent_file_by_regex cap filepath storage_path PUBLIC_KEY_REGEX fs"

definition get_recent_ca_certificate where
  "get_recent_ca_certificate cap filepath storage_path fs =
     get_recent_file_by_regex cap filepath storage_path CA_CERT_REGEX fs"

definition get_recent_certificate where
  "get_recent_certificate cap filepath storage_path fs =
     get_recent_file_by_regex cap filepath storage_path CERTIFICATE_REGEX fs"

definition get_recent_full_certificate where
  "get_recent_full_certificate cap filepath storage_path fs =
     get_recent_file_by_regex cap filepath storage_path CERTIFICATE_FULL_REGEX fs"

text \<open>
  A file that cannot be opened ends the process, and so does an empty one: \<open>fread\<close> of one
  item of size 0 answers 0. \<open>strcpy\<close> copies up to the first NUL.
\<close>

definition read_file_contents :: "os_env \<Rightarrow> nat \<Rightarrow> string \<Rightarrow> filesys \<Rightarrow> (int \<times> string) result" where
  "read_file_contents env cap filepath fs =
     (case (if open_read_ok env filepath then file_at fs filepath else None) of
        None \<Rightarrow> Inl ProcessExit
      | Some t \<Rightarrow>
          if t = [] then Inl ProcessExit
          else rbind (sprintf cap (takeWhile (\<lambda>c. c \<noteq> CHR 0x00) t)) (\<lambda>content. Inr (0, content)))"

text \<open>
  The contents of the current file of a kind: the path goes to a fresh block of 256
  characters, and what that block holds is opened whatever the search answered.
\<close>

definition get_recent_content where
  "get_recent_content get_recent env cap storage_path fs =
     rbind (get_recent (256::nat) (fresh_memory env) storage_path fs) (\<lambda>(ret :: int, filepath, fs).
     rbind (read_file_contents env cap filepath fs) (\<lambda>(ret, content). Inr (ret, content, fs)))"

definition get_recent_full_certificate_content where
  "get_recent_full_certificate_content = get_recent_content get_recent_full_certificate"

definition get_recent_certificate_content where
  "get_recent_certificate_content = get_recent_content get_recent_certificate"

definition get_recent_ca_certificate_content where
  "get_recent_ca_certificate_content = get_recent_content get_recent_ca_certificate"

definition get_recent_public_key_content where
  "get_recent_public_key_content = get_recent_content get_recent_public_key"

definition get_recent_private_key_content where
  "get_recent_private_key_content = get_recent_content get_recent_private_key"

section \<open>Laws of the file system\<close>

lemma takeWhile_noslash:
  assumes "CHR ''/'' \<notin> set n"
  shows "takeWhile (\<lambda>c. c \<noteq> CHR ''/'') (rev (d @ ''/'' @ n)) = rev n"
    and "dropWhile (\<lambda>c. c \<noteq> CHR ''/'') (rev (d @ ''/'' @ n)) = CHR ''/'' # rev d"
proof -
  have a: "\<And>x. x \<in> set (rev n) \<Longrightarrow> x \<noteq> CHR ''/''" using assms by auto
  show "takeWhile (\<lambda>c. c \<noteq> CHR ''/'') (rev (d @ ''/'' @ n)) = rev n"
    using takeWhile_append2 [of "rev n" "\<lambda>c. c \<noteq> CHR ''/''" "CHR ''/'' # rev d"] a by simp
  show "dropWhile (\<lambda>c. c \<noteq> CHR ''/'') (rev (d @ ''/'' @ n)) = CHR ''/'' # rev d"
    using dropWhile_append2 [of "rev n" "\<lambda>c. c \<noteq> CHR ''/''" "CHR ''/'' # rev d"] a by simp
qed

lemma file_name_path: "CHR ''/'' \<notin> set n \<Longrightarrow> file_name (d @ ''/'' @ n) = n"
  using takeWhile_noslash(1) [of n d] by (simp add: file_name_def)

lemma folder_of_path:
  assumes "CHR ''/'' \<notin> set n" "d \<noteq> []"
  shows "folder_of (d @ ''/'' @ n) = d"
proof -
  obtain c cs where "rev d = c # cs" using assms(2) by (cases "rev d") auto
  then show ?thesis using takeWhile_noslash(2) [OF assms(1), of d]
    by (simp add: folder_of_def flip: rev_swap)
qed

lemma path_inj:
  assumes "CHR ''/'' \<notin> set n" "CHR ''/'' \<notin> set m"
  shows "d @ ''/'' @ n = e @ ''/'' @ m \<longleftrightarrow> d = e \<and> n = m"
  using assms file_name_path [of n d] file_name_path [of m e] by auto

text \<open>Reading a path after a write, a removal, a rename.\<close>

lemma file_at_set_file:
  "file_at (set_file p t fs) q =
     (if folder_of q = folder_of p \<and> file_name q = file_name p \<and> fs (folder_of p) \<noteq> None then Some t
      else file_at fs q)"
  by (auto simp: file_at_def set_file_def update_conv split: option.splits)

lemma folder_set_file [simp]: "set_file p t fs d = None \<longleftrightarrow> fs d = None"
  by (auto simp: set_file_def split: option.splits)

lemma file_at_os_remove:
  "file_at (os_remove p fs) q =
     (if folder_of q = folder_of p \<and> file_name q = file_name p then None else file_at fs q)"
  by (auto simp: file_at_def os_remove_def delete_conv split: option.splits)

lemma folder_os_remove [simp]: "os_remove p fs d = None \<longleftrightarrow> fs d = None"
  by (auto simp: os_remove_def split: option.splits)

lemma file_at_folder: "file_at fs p = Some t \<Longrightarrow> fs (folder_of p) \<noteq> None"
  by (auto simp: file_at_def split: option.splits)

lemma takeWhile_no_nul: "CHR 0x00 \<notin> set t \<Longrightarrow> takeWhile (\<lambda>c. c \<noteq> CHR 0x00) t = t"
  by (auto simp: takeWhile_eq_all_conv)

section \<open>The search for the current file\<close>

definition plain_name :: "string \<Rightarrow> bool" where
  "plain_name n \<longleftrightarrow> (\<forall>c \<in> set n. c \<notin> set ''*[]^$/'' \<and> c \<noteq> CHR 0x5C)"

lemma bre_group_name:
  "plain_name n \<Longrightarrow>
   bre_group (concat (map (\<lambda>c. if c = CHR ''.'' then [CHR 0x5C, c] else [c]) n) @
     [CHR 0x5C] @ '')'' @ [CHR 0x5C] @ ''{1'' @ [CHR 0x5C] @ ''}$'') = Some n"
proof (induction n)
  case (Cons c n)
  let ?rest = "concat (map (\<lambda>c. if c = CHR ''.'' then [CHR 0x5C, c] else [c]) n) @
     [CHR 0x5C] @ '')'' @ [CHR 0x5C] @ ''{1'' @ [CHR 0x5C] @ ''}$''"
  have IH: "bre_group ?rest = Some n" using Cons by (simp add: plain_name_def)
  show ?case
  proof (cases "c = CHR ''.''")
    case True
    then show ?thesis using IH by simp
  next
    case False
    obtain d s where d: "?rest = d # s" by (cases ?rest) auto
    have "bre_group (c # d # s) = Some (c # n)"
      using IH False Cons.prems unfolding d by (simp add: plain_name_def)
    with d False show ?thesis by simp
  qed
qed simp

lemma regcomp_name: "plain_name n \<Longrightarrow> regcomp (name_regex n) = Some n"
  using bre_group_name [of n] by (simp add: regcomp_def name_regex_def eval_nat_numeral)

lemma recent_after_first:
  assumes "rs_found st" "rs_skip st = int k"
    and "\<forall>n \<in> set names. length (fldr @ ''/'' @ n) < 1024"
  shows "rfold (recent_entry cap fldr m) names st =
    Inr (st\<lparr>rs_skip := int (k - length (filter m names)),
            rs_fs := fold (\<lambda>n. os_remove (fldr @ ''/'' @ n)) (drop k (filter m names)) (rs_fs st)\<rparr>)"
  using assms
proof (induction names arbitrary: st k)
  case (Cons n names)
  show ?case
  proof (cases "m n")
    case False
    then show ?thesis using Cons.prems Cons.IH [of st k] by (simp add: recent_entry_def)
  next
    case True
    show ?thesis
    proof (cases k)
      case 0
      let ?st = "st\<lparr>rs_fs := os_remove (fldr @ ''/'' @ n) (rs_fs st)\<rparr>"
      from 0 True Cons.prems show ?thesis using Cons.IH [of ?st 0]
        by (simp add: recent_entry_def sprintf_def)
    next
      case (Suc j)
      let ?st = "st\<lparr>rs_skip := int j\<rparr>"
      from Suc True Cons.prems show ?thesis using Cons.IH [of ?st j]
        by (simp add: recent_entry_def sprintf_def)
    qed
  qed
qed simp

lemma recent_scan:
  assumes "\<not> rs_found st" "rs_skip st = 2"
    and "\<forall>n \<in> set names. length (fldr @ ''/'' @ n) < 1024 \<and> length (fldr @ ''/'' @ n) < cap"
  shows "rfold (recent_entry cap fldr m) names st =
    (case filter m names of [] \<Rightarrow> Inr st
     | n # ns \<Rightarrow> Inr (st\<lparr>rs_filepath := fldr @ ''/'' @ n, rs_found := True,
         rs_skip := int (2 - length ns),
         rs_fs := fold (\<lambda>n. os_remove (fldr @ ''/'' @ n)) (drop 2 ns) (rs_fs st)\<rparr>))"
  using assms
proof (induction names arbitrary: st)
  case (Cons n names)
  show ?case
  proof (cases "m n")
    case False
    then show ?thesis using Cons.prems Cons.IH [of st] by (simp add: recent_entry_def)
  next
    case True
    let ?st = "st\<lparr>rs_filepath := fldr @ ''/'' @ n, rs_found := True\<rparr>"
    have "rfold (recent_entry cap fldr m) names ?st =
      Inr (?st\<lparr>rs_skip := int (2 - length (filter m names)),
            rs_fs := fold (\<lambda>n. os_remove (fldr @ ''/'' @ n)) (drop 2 (filter m names)) (rs_fs ?st)\<rparr>)"
      by (rule recent_after_first) (use Cons.prems in auto)
    moreover have "recent_entry cap fldr m n st = Inr ?st"
      using True Cons.prems by (simp add: recent_entry_def sprintf_def)
    ultimately show ?thesis using True by simp
  qed
qed simp

text \<open>
  What the search for one name answers: the code, the caller's buffer and the file system,
  which it leaves as it is.
\<close>

definition current_file_spec ::
    "string \<Rightarrow> string \<Rightarrow> string \<Rightarrow> filesys \<Rightarrow> int \<times> string \<times> filesys" where
  "current_file_spec name filepath d fs =
     (case fs d of
        None \<Rightarrow> (2, filepath, fs)
      | Some es \<Rightarrow> if name \<in> set (map fst es) then (0, d @ ''/'' @ name, fs) else (1, filepath, fs))"

definition folder_ok :: "filesys \<Rightarrow> string \<Rightarrow> bool" where
  "folder_ok fs d \<longleftrightarrow> d \<noteq> [] \<and> (case fs d of None \<Rightarrow> True | Some es \<Rightarrow> distinct (map fst es))"

lemma filter_eq_distinct: "distinct xs \<Longrightarrow> filter (\<lambda>x. x = a) xs = (if a \<in> set xs then [a] else [])"
  by (induction xs) auto

lemma rfold_filter:
  "(\<And>x s. \<not> m x \<Longrightarrow> f x s = Inr s) \<Longrightarrow> rfold f xs s = rfold f (filter m xs) s"
proof (induction xs arbitrary: s)
  case (Cons x xs)
  show ?case
  proof (cases "m x")
    case True
    with Cons show ?thesis by (cases "f x s") simp_all
  next
    case False
    with Cons.prems have "f x s = Inr s" by blast
    with False Cons show ?thesis by simp
  qed
qed simp

lemma get_recent_by_name:
  assumes "plain_name name" "folder_ok fs d"
    and "length (d @ ''/'' @ name) < 1024" "length (d @ ''/'' @ name) < cap"
  shows "get_recent_file_by_regex cap filepath d (name_regex name) fs =
    Inr (current_file_spec name filepath d fs)"
proof (cases "fs d")
  case None
  then show ?thesis by (simp add: get_recent_file_by_regex_def current_file_spec_def)
next
  case (Some es)
  let ?m = "regexec name"
  let ?st = "\<lparr>rs_filepath = filepath, rs_found = False, rs_skip = 2, rs_fs = fs\<rparr>"
  have f: "filter ?m (map fst es) = (if name \<in> set (map fst es) then [name] else [])"
    using filter_eq_distinct [of "map fst es" name] assms(2) Some
    by (simp add: regexec_def [abs_def] folder_ok_def)
  have "rfold (recent_entry cap d ?m) (map fst es) ?st =
        rfold (recent_entry cap d ?m) (filter ?m (map fst es)) ?st"
    by (rule rfold_filter) (simp add: recent_entry_def)
  also have "\<dots> = Inr (if name \<in> set (map fst es)
      then ?st\<lparr>rs_filepath := d @ ''/'' @ name, rs_found := True\<rparr> else ?st)"
    unfolding f using assms(3,4) by (simp add: recent_entry_def regexec_def sprintf_def)
  finally show ?thesis
    using Some by (simp add: get_recent_file_by_regex_def current_file_spec_def
      regcomp_name [OF assms(1)])
qed

text \<open>
  The contract of the five searches, each for the name of one kind of file, and what the
  reading of the contents gets from it.
\<close>

locale current_file =
  fixes get_recent :: "nat \<Rightarrow> string \<Rightarrow> string \<Rightarrow> filesys \<Rightarrow> (int \<times> string \<times> filesys) result"
    and name :: string
  assumes search: "folder_ok fs d \<Longrightarrow> length (d @ ''/'' @ name) < 1024 \<Longrightarrow> length (d @ ''/'' @ name) < cap \<Longrightarrow>
      get_recent cap filepath d fs = Inr (current_file_spec name filepath d fs)"
    and name_plain: "plain_name name"
begin

lemma noslash: "CHR ''/'' \<notin> set name"
  using name_plain by (auto simp: plain_name_def)

lemma file_at_current:
  assumes "folder_ok fs d" "fs d = Some es"
  shows "file_at fs (d @ ''/'' @ name) = map_of es name"
proof -
  have "d \<noteq> []" using assms(1) by (simp add: folder_ok_def)
  then show ?thesis
    unfolding file_at_def file_name_path [OF noslash] folder_of_path [OF noslash \<open>d \<noteq> []\<close>]
    using assms(2) by simp
qed

lemma found_iff:
  assumes "folder_ok fs d" "length (d @ ''/'' @ name) < 1024" "length (d @ ''/'' @ name) < cap"
  shows "get_recent cap filepath d fs =
     Inr (if file_at fs (d @ ''/'' @ name) \<noteq> None then (0, d @ ''/'' @ name, fs)
          else (if fs d = None then 2 else 1, filepath, fs))"
proof (cases "fs d")
  case None
  then have "file_at fs (d @ ''/'' @ name) = None"
    using assms(1) unfolding file_at_def
    by (subst folder_of_path [OF noslash]) (auto simp: folder_ok_def)
  with None show ?thesis using search [OF assms] by (simp add: current_file_spec_def)
next
  case (Some es)
  have "(map_of es name \<noteq> None) = (name \<in> fst ` set es)"
    by (simp add: map_of_eq_None_iff)
  with Some show ?thesis
    using search [OF assms] file_at_current [OF assms(1) Some]
    by (auto simp: current_file_spec_def)
qed

lemma content_present:
  assumes "folder_ok fs d" "length (d @ ''/'' @ name) < 256"
    and "file_at fs (d @ ''/'' @ name) = Some t" "open_read_ok env (d @ ''/'' @ name)"
    and "t \<noteq> []" "CHR 0x00 \<notin> set t" "length t < cap"
  shows "get_recent_content get_recent env cap d fs = Inr (0, t, fs)"
proof -
  have "sprintf cap (takeWhile (\<lambda>c. c \<noteq> CHR 0x00) t) = Inr t"
    using assms(7) by (simp only: takeWhile_no_nul [OF assms(6)] sprintf_def if_True)
  then show ?thesis
    using found_iff [of fs d 256 "fresh_memory env"] assms(1-5)
    by (simp add: get_recent_content_def read_file_contents_def)
qed

lemma content_absent:
  assumes "folder_ok fs d" "length (d @ ''/'' @ name) < 256"
    and "file_at fs (d @ ''/'' @ name) = None" "file_at fs (fresh_memory env) = None"
  shows "get_recent_content get_recent env cap d fs = Inl ProcessExit"
  using found_iff [of fs d 256 "fresh_memory env"] assms
  by (simp add: get_recent_content_def read_file_contents_def)

end

lemmas regex_names = CA_CERT_REGEX_def PRIVATE_KEY_REGEX_def PUBLIC_KEY_REGEX_def
  CERTIFICATE_REGEX_def CERTIFICATE_FULL_REGEX_def

interpretation pubkey: current_file get_recent_public_key "''client_pub.key''"
  by unfold_locales (simp_all add: get_recent_public_key_def regex_names plain_name_def get_recent_by_name)

interpretation privkey: current_file get_recent_private_key "''client_priv.key''"
  by unfold_locales (simp_all add: get_recent_private_key_def regex_names plain_name_def get_recent_by_name)

interpretation cacert: current_file get_recent_ca_certificate "''ca.pem''"
  by unfold_locales (simp_all add: get_recent_ca_certificate_def regex_names plain_name_def get_recent_by_name)

interpretation clientcert: current_file get_recent_certificate "''client.pem''"
  by unfold_locales (simp_all add: get_recent_certificate_def regex_names plain_name_def get_recent_by_name)

interpretation fullcert: current_file get_recent_full_certificate "''client_full.pem''"
  by unfold_locales (simp_all add: get_recent_full_certificate_def regex_names plain_name_def get_recent_by_name)

end
