(* ===== verification/Json.thy ===== *)
theory Json
  imports Prelude
begin

text \<open>
  The JSON values that jansson makes of a text, with the accessors the sources call as its
  documentation has them (a NULL or a value of another kind answers NULL, 0 or false), and
  the character arrays that the sources copy such values into.
\<close>

section \<open>JSON values\<close>

datatype json =
    JObject "(string \<times> json) list"
  | JArray "json list"
  | JString string
  | JInteger int
  | JBool bool
  | JOther

definition json_object_get :: "json option \<Rightarrow> string \<Rightarrow> json option" where
  "json_object_get j k = (case j of Some (JObject m) \<Rightarrow> map_of m k | _ \<Rightarrow> None)"

definition json_string_value :: "json option \<Rightarrow> string option" where
  "json_string_value j = (case j of Some (JString s) \<Rightarrow> Some s | _ \<Rightarrow> None)"

definition json_is_string :: "json option \<Rightarrow> bool" where
  "json_is_string j \<longleftrightarrow> json_string_value j \<noteq> None"

definition json_integer_value :: "json option \<Rightarrow> int" where
  "json_integer_value j = (case j of Some (JInteger i) \<Rightarrow> i | _ \<Rightarrow> 0)"

definition json_is_integer :: "json option \<Rightarrow> bool" where
  "json_is_integer j \<longleftrightarrow> (case j of Some (JInteger i) \<Rightarrow> True | _ \<Rightarrow> False)"

definition json_is_object :: "json \<Rightarrow> bool" where
  "json_is_object j \<longleftrightarrow> (case j of JObject m \<Rightarrow> True | _ \<Rightarrow> False)"

definition json_boolean_value :: "json option \<Rightarrow> bool" where
  "json_boolean_value j \<longleftrightarrow> (case j of Some (JBool b) \<Rightarrow> b | _ \<Rightarrow> False)"

text \<open>The elements of an array; what is not an array has none that the code looks at.\<close>

definition json_elements :: "json option \<Rightarrow> json list" where
  "json_elements j = (case j of Some (JArray l) \<Rightarrow> l | _ \<Rightarrow> [])"

section \<open>Buffers\<close>

text \<open>
  What a caller's character array holds: nothing yet, a terminated string, or a text that
  fills the array so that no terminator was stored. Reading the last one as a string runs
  behind the array.
\<close>

datatype cbuf = Unset | CStr string | Unterminated string

definition strncpy :: "string option \<Rightarrow> nat \<Rightarrow> cbuf result" where
  "strncpy s n = (case s of
     None \<Rightarrow> Inl NullPointer
   | Some t \<Rightarrow> Inr (if length t < n then CStr t else Unterminated (take n t)))"

definition read_buf :: "cbuf \<Rightarrow> string result" where
  "read_buf b = (case b of CStr s \<Rightarrow> Inr s | Unset \<Rightarrow> Inl Uninitialised | Unterminated s \<Rightarrow> Inl BufferOverflow)"

lemma strncpy_fits: "length t < n \<Longrightarrow> strncpy (Some t) n = Inr (CStr t)"
  by (simp add: strncpy_def)

end
