(* ===== verification/Trust_Keys.thy ===== *)
theory Trust_Keys
  imports Trust_Storage Json "HOL-Library.Sublist"
begin

text \<open>
  \<^verbatim>\<open>trust_manager/private/src/trust_manager_keygen.c\<close>: key pairs, their PEM texts, the
  certificate request in the form that the cfssl server takes, and the writing of PEM
  files. mbedtls is not part of the repository: key generation, the PEM writers and the
  request writer are parameters. The random generator and the rest of the outside are one
  state \<open>'x\<close>.

  One statement leaves the defined behaviour of C in a way that only the memory layout
  decides, and has a parameter that says what the layout tolerates:
  \<open>sn_room\<close> is the number of characters that may be stored at the address of the pointer
  variable \<open>sn\<close> before something else is overwritten (8, the size of the pointer, is all the
  language grants).
\<close>

section \<open>What the code calls\<close>

record ('k, 'x) key_lib =
  rsa_gen_key :: "'x \<Rightarrow> int \<times> 'k \<times> 'x"
  rsa_check_pub_priv :: "'k \<Rightarrow> int"
  pk_no_rsa :: 'k
    \<comment> \<open>the key context after mbedtls_pk_setup alone\<close>
  pk_write_pubkey_pem :: "'k \<Rightarrow> int \<times> string"
  pk_write_key_pem :: "'k \<Rightarrow> int \<times> string"
  x509write_csr_pem :: "'k \<Rightarrow> string \<Rightarrow> 'x \<Rightarrow> (int \<times> string) \<times> 'x"
    \<comment> \<open>for the key and the subject name: the code and the text in the buffer\<close>
  popen_route :: "'x \<Rightarrow> string option"
    \<comment> \<open>the output of the ip route command, None when popen fails\<close>
  sn_room :: nat

section \<open>Key pairs\<close>

definition generate_keypair :: "('k, 'x, 'm) key_lib_scheme \<Rightarrow> 'x \<Rightarrow> int \<times> 'k \<times> 'x" where
  "generate_keypair lib x =
     (case rsa_gen_key lib x of (ret, rsa, x) \<Rightarrow>
       if ret \<noteq> 0 then (ret, pk_no_rsa lib, x)
       else let t1 = rsa_check_pub_priv lib rsa in
         if t1 \<noteq> 0 then (t1, pk_no_rsa lib, x)
         else (ret, rsa, x))"

text \<open>
  A block of \<open>n\<close> characters copied as a whole: a text with its terminator inside, or a full
  block without one.
\<close>

definition memcpy_text :: "nat \<Rightarrow> string \<Rightarrow> cbuf" where
  "memcpy_text n s = (if length s < n then CStr s else Unterminated (take n s))"

definition get_public_key :: "('k, 'x, 'm) key_lib_scheme \<Rightarrow> 'k \<Rightarrow> cbuf \<Rightarrow> int \<times> cbuf" where
  "get_public_key lib key key_pair =
     (case pk_write_pubkey_pem lib key of (ret, buffer_priv) \<Rightarrow>
       if ret \<noteq> 0 then (ret, key_pair) else (ret, memcpy_text 4096 buffer_priv))"

definition get_private_key :: "('k, 'x, 'm) key_lib_scheme \<Rightarrow> 'k \<Rightarrow> cbuf \<Rightarrow> int \<times> cbuf" where
  "get_private_key lib key private_key =
     (case pk_write_key_pem lib key of (ret, buffer_priv) \<Rightarrow>
       if ret \<noteq> 0 then (ret, private_key) else (ret, memcpy_text 4096 buffer_priv))"

section \<open>Texts\<close>

text \<open>
  The loop of \<open>removeChar\<close> on the array of characters up to and with the terminator:
  \<open>src\<close> and \<open>dst\<close> are indices, and the array is updated in place.
\<close>

function removeChar_loop :: "char list \<Rightarrow> char \<Rightarrow> nat \<Rightarrow> nat \<Rightarrow> char list" where
  "removeChar_loop a garbage src dst =
     (if src < length a \<and> a ! src \<noteq> CHR 0x00 then
        let a = a[dst := a ! src] in
        removeChar_loop a garbage (Suc src) (if a ! dst \<noteq> garbage then Suc dst else dst)
      else a[dst := CHR 0x00])"
  by pat_completeness auto

termination
  by (relation "measure (\<lambda>(a, g, src, dst). length a - src)") (auto simp: Let_def)

declare removeChar_loop.simps [simp del]

definition removeChar :: "string \<Rightarrow> char \<Rightarrow> string" where
  "removeChar str garbage =
     takeWhile (\<lambda>c. c \<noteq> CHR 0x00) (removeChar_loop (str @ [CHR 0x00]) garbage 0 0)"

text \<open>\<open>fgets\<close> with room for \<open>n\<close> characters and the terminator, until the end of the output.\<close>

function fgets_lines :: "nat \<Rightarrow> string \<Rightarrow> string list" where
  "fgets_lines n s =
     (if s = [] \<or> n = 0 then []
      else let line = takeWhile (\<lambda>c. c \<noteq> CHR 0x0A) s;
               chunk = take n (take (Suc (length line)) s)
           in chunk # fgets_lines n (drop (length chunk) s))"
  by pat_completeness auto

termination
  by (relation "measure (\<lambda>(n, s). length s)") (auto simp: Let_def min_def)

declare fgets_lines.simps [simp del]

text \<open>
  The buffer of 256 characters holds \<open>fresh\<close> before the first line; \<open>sizeof(ip_buf)-1\<close> lets
  \<open>fgets\<close> read 254 characters.
\<close>

definition get_primary_public_up :: "('k, 'x, 'm) key_lib_scheme \<Rightarrow> string \<Rightarrow> 'x \<Rightarrow> (int \<times> string) result" where
  "get_primary_public_up lib ip x =
     (case popen_route lib x of
        None \<Rightarrow> Inl ProcessExit
      | Some out \<Rightarrow>
          Inr (0, foldl (\<lambda>ip ip_buf. removeChar ip_buf (CHR 0x0A)) ip (fgets_lines 254 out)))"

definition write_pem_to_file :: "os_env \<Rightarrow> cbuf \<Rightarrow> string \<Rightarrow> bool \<Rightarrow> filesys \<Rightarrow> (int \<times> filesys) result" where
  "write_pem_to_file env pem filename apnd fs =
     (if fs (folder_of filename) = None \<or> \<not> open_write_ok env filename then Inl NullPointer
      else let old = (if apnd then (case file_at fs filename of None \<Rightarrow> [] | Some t \<Rightarrow> t) else []);
               fs = set_file filename old fs
           in rbind (read_buf pem) (\<lambda>pem.
                if \<not> fputs_ok env filename then Inr (1, fs)
                else Inr (0, set_file filename (old @ pem) fs)))"

definition rename_pem :: "os_env \<Rightarrow> string \<Rightarrow> string \<Rightarrow> filesys \<Rightarrow> int \<times> filesys" where
  "rename_pem env old new fs = os_rename env old new fs"

text \<open>The index of the first occurrence of a text.\<close>

fun strstr :: "string \<Rightarrow> string \<Rightarrow> nat option" where
  "strstr s p = (if prefix p s then Some 0
     else case s of [] \<Rightarrow> None | c # cs \<Rightarrow> map_option Suc (strstr cs p))"

declare strstr.simps [simp del]

text \<open>
  The two loops of \<open>replace\<close>. An empty pattern is found at the same place for ever; then
  they have no result.
\<close>

partial_function (option) count_loop :: "string \<Rightarrow> string \<Rightarrow> nat \<Rightarrow> nat option" where
  "count_loop pattern oriptr patcnt =
     (case strstr oriptr pattern of
        None \<Rightarrow> Some patcnt
      | Some skplen \<Rightarrow> count_loop pattern (drop (skplen + length pattern) oriptr) (Suc patcnt))"

partial_function (option) copy_loop :: "string \<Rightarrow> string \<Rightarrow> string \<Rightarrow> string \<Rightarrow> string option" where
  "copy_loop pattern replacement oriptr returned =
     (case strstr oriptr pattern of
        None \<Rightarrow> Some (returned @ oriptr)
      | Some skplen \<Rightarrow>
          copy_loop pattern replacement (drop (skplen + length pattern) oriptr)
            (returned @ take skplen oriptr @ replacement))"

text \<open>
  The size of the new string is computed in \<open>size_t\<close>: the difference of the lengths wraps
  when the pattern is the longer one, and so may the size with the terminator. The answer is
  the block, its size and the text in it, or NULL when the block is refused. A text longer than
  the block is a write behind it.
\<close>

definition replace_retlen :: "nat \<Rightarrow> nat \<Rightarrow> nat \<Rightarrow> nat \<Rightarrow> 64 word" where
  "replace_retlen orilen patcnt replen patlen =
     of_nat orilen + of_nat patcnt * (of_nat replen - of_nat patlen)"

definition replace :: "(nat \<Rightarrow> bool) \<Rightarrow> string \<Rightarrow> string \<Rightarrow> string \<Rightarrow> (nat \<times> string) option result" where
  "replace malloc original pattern replacement =
     (case count_loop pattern original 0 of
        None \<Rightarrow> Inl NoReturn
      | Some patcnt \<Rightarrow>
          let retlen = replace_retlen (length original) patcnt (length replacement) (length pattern);
              room = unat (retlen + 1)
          in if \<not> malloc room then Inr None
             else (case copy_loop pattern replacement original [] of
                     None \<Rightarrow> Inl NoReturn
                   | Some returned \<Rightarrow> rbind (sprintf room returned) (\<lambda>t. Inr (Some (room, t)))))"

text \<open>\<open>strcpy\<close> of such a block into an array of \<open>n\<close> characters.\<close>

definition strcpy_block :: "nat \<Rightarrow> (nat \<times> string) option \<Rightarrow> string result" where
  "strcpy_block n b = (case b of None \<Rightarrow> Inl NullPointer | Some (room, t) \<Rightarrow> sprintf n t)"

section \<open>The certificate request\<close>

definition CSR_START_DEFAULT :: string where
  "CSR_START_DEFAULT = ''-----BEGIN CERTIFICATE REQUEST-----''"
definition CSR_START_CFSSL :: string where
  "CSR_START_CFSSL = ''-----BEGIN CERTIFICATE REQUEST-----'' @ [CHR 0x5C] @ ''n''"
definition CSR_STOP_DEFAULT :: string where
  "CSR_STOP_DEFAULT = ''-----END CERTIFICATE REQUEST-----''"
definition CSR_STOP_CFSSL :: string where
  "CSR_STOP_CFSSL = [CHR 0x5C] @ ''n-----END CERTIFICATE REQUEST-----''"

definition csr_cfssl_json :: "string \<Rightarrow> string" where
  "csr_cfssl_json t = ''{'' @ [CHR 0x22] @ ''certificate_request'' @ [CHR 0x22] @ '':'' @ [CHR 0x22] @ t @
     [CHR 0x22] @ ''}''"

definition csr_cert_subject_name :: "string \<Rightarrow> string" where
  "csr_cert_subject_name ip = ''CN='' @ ip @ '',O=INAETICS,C=NL''"

text \<open>
  The results of \<open>replace\<close> are copied into \<open>temp_csr\<close>, an array of 4096 pointers, so of
  32768 characters, without a check that there is a result; the caller's buffer has \<open>cap\<close> characters.
\<close>

definition csr_text :: "(nat \<Rightarrow> bool) \<Rightarrow> nat \<Rightarrow> string \<Rightarrow> string result" where
  "csr_text malloc cap temp_csr =
     rbind (replace malloc (removeChar temp_csr (CHR 0x0A)) CSR_START_DEFAULT CSR_START_CFSSL) (\<lambda>r.
     rbind (strcpy_block 32768 r) (\<lambda>temp_csr.
     rbind (replace malloc temp_csr CSR_STOP_DEFAULT CSR_STOP_CFSSL) (\<lambda>r.
     rbind (strcpy_block 32768 r) (\<lambda>temp_csr.
     sprintf cap (csr_cfssl_json temp_csr)))))"

text \<open>
  The subject is written at the address of the variable \<open>sn\<close>; the PEM text is read whether
  or not the request writer succeeded.
\<close>

definition generate_csr ::
    "('k, 'x, 'm) key_lib_scheme \<Rightarrow> os_env \<Rightarrow> nat \<Rightarrow> 'k \<Rightarrow> 'x \<Rightarrow> (int \<times> string \<times> 'x) result" where
  "generate_csr lib env cap key x =
     rbind (get_primary_public_up lib (fresh_memory env) x) (\<lambda>(r, ip).
     rbind (sprintf (sn_room lib) (csr_cert_subject_name ip)) (\<lambda>sn.
       case x509write_csr_pem lib key sn x of ((res, buffer_csr), x) \<Rightarrow>
         if length buffer_csr \<ge> 4096 then Inl Uninitialised
         else rbind (csr_text (os_malloc env) cap buffer_csr) (\<lambda>csr. Inr (res, csr, x))))"

end
