(* ===== verification/Trust_Certs.thy ===== *)
theory Trust_Certs
  imports Trust_Keys
begin

text \<open>
  \<^verbatim>\<open>trust_manager/private/src/trust_manager_caresponse.c\<close> and
  \<^verbatim>\<open>trust_manager_certhandler.c\<close>: the answers of the certificate server, the requests for
  certificates over HTTP, and the loading and verification of certificates. curl, jansson
  and mbedtls are parameters: a transfer is a function of the outside that answers curl's
  code and the blocks of the reply, parsing and verification are functions of the file's
  text and of the two certificates.

  \<open>stale_decref_ok\<close> says whether the allocator tolerates the two references that
  \<open>parse_cert_from_json\<close> gives back although it only borrowed them: the first call frees the
  node and its certificate string, the second one then works on freed memory.
\<close>

section \<open>What the code calls\<close>

record x509_time =
  t_year :: int
  t_mon :: int
  t_day :: int
  t_hour :: int
  t_min :: int
  t_sec :: int

record ('k, 'x, 'c) cert_lib = "('k, 'x) key_lib" +
  ca_json_loads :: "string \<Rightarrow> json option"
  ca_http :: "string \<Rightarrow> string \<Rightarrow> 'x \<Rightarrow> (int \<times> string list) \<times> 'x"
    \<comment> \<open>url and posted text\<close>
  curl_handle :: bool
  ca_alloc_ok :: "nat \<Rightarrow> bool"
  stale_decref_ok :: bool
  crt_parse :: "string \<Rightarrow> int \<times> 'c"
  crt_verify :: "'c \<Rightarrow> 'c \<Rightarrow> 'x \<Rightarrow> int"
  valid_to :: "'c \<Rightarrow> x509_time"
  now_time :: "'x \<Rightarrow> int"
    \<comment> \<open>seconds since the epoch\<close>
  zone_isdst :: "int \<Rightarrow> bool"
  zone_gmtoff :: "int \<Rightarrow> int"
    \<comment> \<open>what the rules of the local zone say of a second since the epoch: summer time, and the
       offset to UTC\<close>
  zone_mkoff :: "int \<Rightarrow> bool \<Rightarrow> int"
    \<comment> \<open>the offset by which \<^verbatim>\<open>mktime\<close> takes a local time, given in seconds, to be ahead of UTC when the
       caller says whether it is summer time\<close>

section \<open>Answers of the certificate server\<close>

definition parse_json :: "('k, 'x, 'c) cert_lib \<Rightarrow> string \<Rightarrow> json option" where
  "parse_json lib s = ca_json_loads lib s"

definition verify_response :: "json \<Rightarrow> bool" where
  "verify_response json =
     (if \<not> json_is_object json then False
      else json_boolean_value (json_object_get (Some json) ''success''))"

text \<open>\<open>certificate\<close> is an array of 4096 pointers, which has room for 32768 characters.\<close>

definition parse_cert_from_json :: "('k, 'x, 'c) cert_lib \<Rightarrow> json \<Rightarrow> string option result" where
  "parse_cert_from_json lib json =
     (case json_object_get (Some json) ''result'' of
        None \<Rightarrow> Inr None
      | Some data \<Rightarrow>
          (case json_string_value (json_object_get (Some data) ''certificate'') of
             None \<Rightarrow> Inl NullPointer
           | Some cert_string \<Rightarrow>
               rbind (sprintf 32768 cert_string) (\<lambda>certificate.
                 if stale_decref_ok lib then Inr (Some certificate) else Inl InvalidFree)))"

definition parse_certificate_response :: "('k, 'x, 'c) cert_lib \<Rightarrow> string \<Rightarrow> string option result" where
  "parse_certificate_response lib body =
     (case parse_json lib body of
        None \<Rightarrow> Inr None
      | Some response \<Rightarrow>
          if \<not> verify_response response then Inr None
          else parse_cert_from_json lib response)"

section \<open>Requests\<close>

record string_buf =
  ptr :: string
  len :: nat

definition init_string :: "('k, 'x, 'c) cert_lib \<Rightarrow> string_buf result" where
  "init_string lib = (if ca_alloc_ok lib 1 then Inr \<lparr>ptr = [], len = 0\<rparr> else Inl ProcessExit)"

definition writefunc :: "('k, 'x, 'c) cert_lib \<Rightarrow> string \<Rightarrow> string_buf \<Rightarrow> string_buf result" where
  "writefunc lib block s =
     (let new_len = len s + length block in
      if ca_alloc_ok lib (new_len + 1) then Inr \<lparr>ptr = take (len s) (ptr s) @ block, len = new_len\<rparr>
      else Inl ProcessExit)"

text \<open>
  The answer is curl's code, the caller's buffer of 4096 characters and the outside. The
  reply is read as a C string. Without a curl handle the code that is returned was never
  assigned.
\<close>

definition cfssl_ca_certget_wrapper ::
    "('k, 'x, 'c) cert_lib \<Rightarrow> cbuf \<Rightarrow> string \<Rightarrow> string \<Rightarrow> 'x \<Rightarrow> (int \<times> cbuf \<times> 'x) result" where
  "cfssl_ca_certget_wrapper lib certificate body url x =
     (if \<not> curl_handle lib then Inl Uninitialised
      else rbind (init_string lib) (\<lambda>s.
        case ca_http lib url body x of ((res, blocks), x) \<Rightarrow>
          rbind (rfold (writefunc lib) blocks s) (\<lambda>s.
            if res \<noteq> 0 then Inr (res, certificate, x)
            else rbind (parse_certificate_response lib (takeWhile (\<lambda>c. c \<noteq> CHR 0x00) (ptr s))) (\<lambda>cert.
              case cert of
                None \<Rightarrow> Inl NullPointer
              | Some c \<Rightarrow> Inr (res, memcpy_text 4096 c, x)))))"

definition request_ca_certificate ::
    "('k, 'x, 'c) cert_lib \<Rightarrow> cbuf \<Rightarrow> string \<Rightarrow> int \<Rightarrow> 'x \<Rightarrow> (int \<times> cbuf \<times> 'x) result" where
  "request_ca_certificate lib ca_certificate ca_host ca_port x =
     rbind (sprintf 512 (''http://'' @ ca_host @ '':'' @ dec_int ca_port @ ''/api/v1/cfssl/info'')) (\<lambda>url.
       cfssl_ca_certget_wrapper lib ca_certificate ''{}'' url x)"

definition csr_get_certificate ::
    "('k, 'x, 'c) cert_lib \<Rightarrow> os_env \<Rightarrow> 'k \<Rightarrow> cbuf \<Rightarrow> string \<Rightarrow> int \<Rightarrow> 'x \<Rightarrow> (int \<times> cbuf \<times> 'x) result" where
  "csr_get_certificate lib env key certificate ca_host ca_port x =
     rbind (generate_csr lib env 1024 key x) (\<lambda>(res, csr, x).
     rbind (sprintf 512 (''http://'' @ ca_host @ '':'' @ dec_int ca_port @ ''/api/v1/cfssl/sign'')) (\<lambda>url.
       cfssl_ca_certget_wrapper lib certificate csr url x))"

section \<open>Verification\<close>

text \<open>
  \<open>mktime\<close>: the seconds since the epoch of a broken-down local time, months counted from 0
  and years from 1900, any number of seconds. The rules of the zone, which are data of the node
  the program runs on, say what the offset to UTC is or was at that local time, so it may differ
  from the offset of today. Times that \<open>time_t\<close> cannot represent do not occur: the years of a
  certificate have four digits.
\<close>

definition days_from_civil :: "int \<Rightarrow> int \<Rightarrow> int \<Rightarrow> int" where
  "days_from_civil y m d =
     (let y' = (if m \<le> 2 then y - 1 else y);
          era = y' div 400;
          yoe = y' mod 400;
          doy = (153 * (if m > 2 then m - 3 else m + 9) + 2) div 5 + d - 1;
          doe = yoe * 365 + yoe div 4 - yoe div 100 + doy
      in era * 146097 + doe - 719468)"

definition utc_seconds :: "x509_time \<Rightarrow> int" where
  "utc_seconds t =
     ((days_from_civil (t_year t) (t_mon t) (t_day t) * 24 + t_hour t) * 60 + t_min t) * 60 + t_sec t"

definition mktime :: "(int \<Rightarrow> bool \<Rightarrow> int) \<Rightarrow> int \<Rightarrow> int \<Rightarrow> int \<Rightarrow> int \<Rightarrow> int \<Rightarrow> int \<Rightarrow> bool \<Rightarrow> int" where
  "mktime mkoff tm_year tm_mon tm_mday tm_hour tm_min tm_sec tm_isdst =
     (let local = ((days_from_civil (tm_year + 1900 + tm_mon div 12) (tm_mon mod 12 + 1) 1 + tm_mday - 1) * 24 + tm_hour) * 3600
            + tm_min * 60 + tm_sec
      in local - mkoff local tm_isdst)"

definition REFRESH_EARLY_THRESHOLD_SECONDS :: int where
  "REFRESH_EARLY_THRESHOLD_SECONDS = 30"

text \<open>The C function answers 0 for a certificate that is still valid.\<close>

definition cert_date_still_valid :: "('k, 'x, 'c) cert_lib \<Rightarrow> 'c \<Rightarrow> int \<Rightarrow> 'x \<Rightarrow> int" where
  "cert_date_still_valid lib certificate refresh_early_threshold x =
     (let now = now_time lib x;
          v = valid_to lib certificate;
          sec_diff = now -
            mktime (zone_mkoff lib) (t_year v - 1900) (t_mon v - 1) (t_day v) (t_hour v) (t_min v)
              (t_sec v + zone_gmtoff lib now) (zone_isdst lib now)
      in if sec_diff \<le> refresh_early_threshold * -1 then 0 else 1)"

definition verify_certificate :: "('k, 'x, 'c) cert_lib \<Rightarrow> 'c \<Rightarrow> 'c \<Rightarrow> int \<Rightarrow> 'x \<Rightarrow> int" where
  "verify_certificate lib certificate ca_cert backdate_threshold x =
     crt_verify lib certificate ca_cert x +
     cert_date_still_valid lib certificate REFRESH_EARLY_THRESHOLD_SECONDS x"

text \<open>
  A file that cannot be read is mbedtls' \<^verbatim>\<open>MBEDTLS_ERR_X509_FILE_IO_ERROR\<close>; the caller's
  certificate is only replaced when the file was parsed.
\<close>

definition MBEDTLS_ERR_FILE_IO_ERROR :: int where
  "MBEDTLS_ERR_FILE_IO_ERROR = -0x2900"

definition load_certificate ::
    "('k, 'x, 'c) cert_lib \<Rightarrow> os_env \<Rightarrow> 'c option \<Rightarrow> string \<Rightarrow> filesys \<Rightarrow> int \<times> 'c option" where
  "load_certificate lib env certificate certfile fs =
     (case (if open_read_ok env certfile then file_at fs certfile else None) of
        None \<Rightarrow> (MBEDTLS_ERR_FILE_IO_ERROR, certificate)
      | Some t \<Rightarrow> (case crt_parse lib t of (ret, tmpCert) \<Rightarrow>
          if ret \<noteq> 0 then (ret, certificate) else (ret, Some tmpCert)))"

end
