(* ===== verification/Trust_Worker.thy ===== *)
theory Trust_Worker
  imports Trust_Certs Celix
begin

text \<open>
  \<^verbatim>\<open>trust_manager/private/src/trust_manager_worker.c\<close>, \<^verbatim>\<open>trust_manager_impl.c\<close> and
  \<^verbatim>\<open>activator.c\<close>: the thread that keeps the certificates of the node fresh, the service
  that answers where they are, and the bundle that sets both up.

  The worker's state is the file system and the outside. A round of the worker runs with
  its lock held; the rounds are the elements of a schedule that says what the lock and the
  flag \<open>running\<close> answered at the head of the loop. Its third part, \<open>slot_is_null\<close>, says whether
  the stack slot of \<open>cert_filename\<close> happens to hold NULL in that round when the code frees it
  before it was assigned; a round that assigned it may leave its freed pointer there for a
  later one.
\<close>

section \<open>State\<close>

record trust_manager =
  tm_name :: string
  tm_key_storage :: string
  tm_ca_host :: string
  tm_ca_port :: int
  tm_refresh_interval :: int

record trust_worker =
  running :: bool
  key_storage :: string
  ca_host :: string
  ca_port :: int
  refresh_interval :: int

record ('k, 'x, 'c) worker_env =
  tw_lib :: "('k, 'x, 'c) cert_lib"
  tw_os :: os_env
  sizeof_crt :: nat
  sleep :: "int \<Rightarrow> 'x \<Rightarrow> 'x"

record 'x trust_state =
  ts_fs :: filesys
  ts_out :: 'x

definition FULL_NEXT :: string where
  "FULL_NEXT = ''/tmp/inaeticstrustmanager/client_full.pem.next''"

section \<open>New keys\<close>

text \<open>
  The writes of one PEM text: into its own file and into the file that collects the full
  certificate. The answers of \<open>write_pem_to_file\<close> are not looked at.
\<close>

definition rekey_write :: "os_env \<Rightarrow> cbuf \<Rightarrow> string \<Rightarrow> bool \<Rightarrow> filesys \<Rightarrow> filesys result" where
  "rekey_write os pem path apnd fs =
     rbind (write_pem_to_file os pem path False fs) (\<lambda>(r, fs).
     rbind (write_pem_to_file os pem FULL_NEXT apnd fs) (\<lambda>(r, fs). Inr fs))"

definition trustWorker_rekey ::
    "('k, 'x, 'c) worker_env \<Rightarrow> trust_worker \<Rightarrow> 'x trust_state \<Rightarrow> (int \<times> 'x trust_state) result" where
  "trustWorker_rekey env w st =
     (case generate_keypair (tw_lib env) (ts_out st) of (r, key, x) \<Rightarrow>
       let fs = ts_fs st; st = st\<lparr>ts_out := x\<rparr> in
       rbind (get_next_public_key_file_path 1024 (key_storage w)) (\<lambda>(r, pubkey_path).
       rbind (get_next_full_certificate_file_path 1024 (key_storage w)) (\<lambda>(r, cert_path_full).
       case get_public_key (tw_lib env) key Unset of (res, pubkey) \<Rightarrow>
       if res \<noteq> 0 then Inr (res, st)
       else rbind (rekey_write (tw_os env) pubkey pubkey_path False fs) (\<lambda>fs.
       rbind (get_next_private_key_file_path 1024 (key_storage w)) (\<lambda>(r, privkey_path).
       case get_private_key (tw_lib env) key Unset of (res, privkey) \<Rightarrow>
       if res \<noteq> 0 then Inr (res, st\<lparr>ts_fs := fs\<rparr>)
       else rbind (rekey_write (tw_os env) privkey privkey_path True fs) (\<lambda>fs.
       rbind (get_next_certificate_file_path 1024 (key_storage w)) (\<lambda>(r, cert_path).
       rbind (csr_get_certificate (tw_lib env) (tw_os env) key Unset (ca_host w) (ca_port w) x) (\<lambda>(res, cert, x).
       let st = st\<lparr>ts_fs := fs, ts_out := x\<rparr> in
       if res \<noteq> 0 then Inr (res, st)
       else rbind (rekey_write (tw_os env) cert cert_path True fs) (\<lambda>fs.
       case os_rename (tw_os env) FULL_NEXT cert_path_full fs of (res, fs) \<Rightarrow>
         Inr (res, st\<lparr>ts_fs := fs\<rparr>))))))))))"

section \<open>Trust in the certificate server\<close>

text \<open>
  One attempt: the code of the search added to the code of the parser, and on a failure a
  new CA certificate is requested and stored.
\<close>

definition load_ca ::
    "('k, 'x, 'c) worker_env \<Rightarrow> trust_worker \<Rightarrow> 'c option \<Rightarrow> 'x trust_state \<Rightarrow> (int \<times> 'c option) result" where
  "load_ca env w ca_cert st =
     rbind (get_recent_ca_certificate 1024 (fresh_memory (tw_os env)) (key_storage w) (ts_fs st))
       (\<lambda>(ret, ca_cert_filename, fs).
         case load_certificate (tw_lib env) (tw_os env) ca_cert ca_cert_filename fs of (ret', ca_cert) \<Rightarrow>
           Inr (ret + ret', ca_cert))"

definition fetch_ca ::
    "('k, 'x, 'c) worker_env \<Rightarrow> trust_worker \<Rightarrow> 'x trust_state \<Rightarrow> 'x trust_state result" where
  "fetch_ca env w st =
     rbind (get_next_ca_certificate_file_path 1024 (key_storage w)) (\<lambda>(r, ca_cert_path).
     rbind (request_ca_certificate (tw_lib env) Unset (ca_host w) (ca_port w) (ts_out st)) (\<lambda>(res, ca_cert_buf, x).
       let st = st\<lparr>ts_out := x\<rparr> in
       if res \<noteq> 0 then Inr st
       else rbind (write_pem_to_file (tw_os env) ca_cert_buf ca_cert_path False (ts_fs st)) (\<lambda>(r, fs).
         Inr (st\<lparr>ts_fs := fs\<rparr>))))"

text \<open>The recursion; \<open>r\<close> counts down and the attempt with \<open>r = -1\<close> is the last one.\<close>

function refresh_ca_trust_r ::
    "('k, 'x, 'c) worker_env \<Rightarrow> trust_worker \<Rightarrow> 'c option \<Rightarrow> int \<Rightarrow> 'x trust_state \<Rightarrow>
     (int \<times> 'c option \<times> 'x trust_state) result" where
  "refresh_ca_trust_r env w ca_cert r st =
     rbind (load_ca env w ca_cert st) (\<lambda>(ret, ca_cert).
       if ret \<noteq> 0 then
         rbind (fetch_ca env w st) (\<lambda>st.
           if r \<ge> 0 then
             rbind (refresh_ca_trust_r env w ca_cert (r - 1) st) (\<lambda>(ret', ca_cert, st).
               Inr (ret, ca_cert, st))
           else Inr (ret, ca_cert, st))
       else Inr (ret, ca_cert, st))"
  by pat_completeness auto

termination
  by (relation "measure (\<lambda>(env, w, c, r, st). nat (r + 1))") auto

declare refresh_ca_trust_r.simps [simp del]

definition refresh_ca_trust where
  "refresh_ca_trust env w ca_cert st = refresh_ca_trust_r env w ca_cert 2 st"

section \<open>The thread\<close>

text \<open>The searches at the end of a round write the paths over the certificate structure.\<close>

definition clean_old_keys ::
    "('k, 'x, 'c) worker_env \<Rightarrow> trust_worker \<Rightarrow> 'x trust_state \<Rightarrow> 'x trust_state result" where
  "clean_old_keys env w st =
     rbind (get_recent_public_key (sizeof_crt env) [] (key_storage w) (ts_fs st)) (\<lambda>(r, p, fs).
     rbind (get_recent_private_key (sizeof_crt env) p (key_storage w) fs) (\<lambda>(r, p, fs).
     rbind (get_recent_full_certificate (sizeof_crt env) p (key_storage w) fs) (\<lambda>(r, p, fs).
       Inr (st\<lparr>ts_fs := fs\<rparr>))))"

definition trustWorker_round ::
    "('k, 'x, 'c) worker_env \<Rightarrow> trust_worker \<Rightarrow> bool \<Rightarrow> 'x trust_state \<Rightarrow> 'x trust_state result" where
  "trustWorker_round env w slot_is_null st =
     (case check_create_keyfolder (tw_os env) (key_storage w) (ts_fs st) of (r, fs) \<Rightarrow>
       if r \<noteq> 0 then Inl ProcessExit
       else rbind (refresh_ca_trust env w None (st\<lparr>ts_fs := fs\<rparr>)) (\<lambda>(ret, ca_cert, st).
         if ret \<noteq> 0 then (if slot_is_null then Inr st else Inl InvalidFree)
         else rbind (get_recent_certificate 1024 (fresh_memory (tw_os env)) (key_storage w) (ts_fs st))
           (\<lambda>(ret, cert_filename, fs).
             let st = st\<lparr>ts_fs := fs\<rparr> in
             case load_certificate (tw_lib env) (tw_os env) None cert_filename fs of (ret', cert) \<Rightarrow>
             if ret + ret' = 0 then
               (case (cert, ca_cert) of
                  (Some c, Some ca) \<Rightarrow>
                    if verify_certificate (tw_lib env) c ca 0 (ts_out st) \<noteq> 0
                    then rbind (trustWorker_rekey env w st) (\<lambda>(r, st). clean_old_keys env w st)
                    else Inr st
                | _ \<Rightarrow> Inl Uninitialised)
             else rbind (trustWorker_rekey env w st) (\<lambda>(r, st). clean_old_keys env w st))))"

text \<open>
  The loop: each element of the schedule is what \<open>celixThreadMutex_lock\<close> answered, the
  flag \<open>running\<close> read under it and what the slot held. A thread whose schedule is used up is still running.
\<close>

fun trustWorker_run ::
    "('k, 'x, 'c) worker_env \<Rightarrow> trust_worker \<Rightarrow> (bool \<times> bool \<times> bool) list \<Rightarrow> 'x trust_state \<Rightarrow> (bool \<times> 'x trust_state) result" where
  "trustWorker_run env w [] st = Inr (True, st)"
| "trustWorker_run env w ((lock_ok, still_running, slot_is_null) # sched) st =
     (if lock_ok \<and> still_running then
        rbind (trustWorker_round env w slot_is_null st) (\<lambda>st.
          trustWorker_run env w sched (st\<lparr>ts_out := sleep env (refresh_interval w) (ts_out st)\<rparr>))
      else Inr (False, st))"

text \<open>
  \<open>trustWorker_create\<close> with the answers of the mutex and thread calls in the order of the
  code: the status, the worker, and whether the thread was started and the lock is held.
\<close>

record create_result =
  cr_status :: celix_status
  cr_worker :: trust_worker
  cr_thread :: bool
  cr_locked :: bool

definition trustWorker_create ::
    "celix_status \<Rightarrow> celix_status \<Rightarrow> celix_status \<Rightarrow> celix_status \<Rightarrow> bool \<Rightarrow> trust_manager \<Rightarrow> create_result result" where
  "trustWorker_create mutex_create mutex_lock thread_create mutex_unlock alloc_ok tm =
     (if \<not> alloc_ok then Inl NullPointer
      else let w = \<lparr>running = False, key_storage = tm_key_storage tm, ca_host = tm_ca_host tm,
                    ca_port = tm_ca_port tm, refresh_interval = tm_refresh_interval tm\<rparr>
      in Inr (
        if mutex_create \<noteq> CELIX_SUCCESS then \<lparr>cr_status = mutex_create, cr_worker = w, cr_thread = False, cr_locked = False\<rparr>
        else if mutex_lock \<noteq> CELIX_SUCCESS then \<lparr>cr_status = mutex_lock, cr_worker = w, cr_thread = False, cr_locked = False\<rparr>
        else if thread_create \<noteq> CELIX_SUCCESS then \<lparr>cr_status = thread_create, cr_worker = w, cr_thread = False, cr_locked = True\<rparr>
        else \<lparr>cr_status = mutex_unlock, cr_worker = w\<lparr>running := True\<rparr>, cr_thread = True,
              cr_locked = (mutex_unlock \<noteq> CELIX_SUCCESS)\<rparr>))"

definition trustWorker_destroy :: "trust_worker \<Rightarrow> celix_status \<times> trust_worker" where
  "trustWorker_destroy w = (CELIX_SUCCESS, w\<lparr>running := False\<rparr>)"

text \<open>The worker's own reading of the interval, which nothing calls.\<close>

definition trustWorker_getProperty where
  "trustWorker_getProperty cx propertyName defaultValue = config_int (snd (bundleContext_getProperty cx propertyName)) defaultValue"

definition trustWorker_getRefreshInterval where
  "trustWorker_getRefreshInterval cx = trustWorker_getProperty cx ''trust.manager.refresh.interval'' 1"

section \<open>The service\<close>

definition trust_manager_getCurrentCertificate where
  "trust_manager_getCurrentCertificate inst cap certificate_filepath fs =
     get_recent_certificate cap certificate_filepath (tm_key_storage inst) fs"

definition trust_manager_getCurrentFullCertificate where
  "trust_manager_getCurrentFullCertificate inst cap certificate_filepath fs =
     get_recent_full_certificate cap certificate_filepath (tm_key_storage inst) fs"

definition trust_manager_getCurrentCaCertificate where
  "trust_manager_getCurrentCaCertificate inst cap ca_cert_filepath fs =
     get_recent_ca_certificate cap ca_cert_filepath (tm_key_storage inst) fs"

definition trust_manager_getCurrentPrivateKey where
  "trust_manager_getCurrentPrivateKey inst cap key_filepath fs =
     get_recent_private_key cap key_filepath (tm_key_storage inst) fs"

definition trust_manager_getCurrentPublicKey where
  "trust_manager_getCurrentPublicKey inst cap key_filepath fs =
     get_recent_public_key cap key_filepath (tm_key_storage inst) fs"

definition trust_manager_getCurrentPublicKeyContent where
  "trust_manager_getCurrentPublicKeyContent inst env cap fs =
     get_recent_public_key_content env cap (tm_key_storage inst) fs"

definition trust_manager_getCurrentPrivateKeyContent where
  "trust_manager_getCurrentPrivateKeyContent inst env cap fs =
     get_recent_private_key_content env cap (tm_key_storage inst) fs"

definition trust_manager_getCurrentCaCertificateContent where
  "trust_manager_getCurrentCaCertificateContent inst env cap fs =
     get_recent_ca_certificate_content env cap (tm_key_storage inst) fs"

definition trust_manager_getCurrentFullCertificateContent where
  "trust_manager_getCurrentFullCertificateContent inst env cap fs =
     get_recent_full_certificate_content env cap (tm_key_storage inst) fs"

definition trust_manager_getCurrentCertificateContent where
  "trust_manager_getCurrentCertificateContent inst env cap fs =
     get_recent_certificate_content env cap (tm_key_storage inst) fs"

section \<open>The bundle\<close>

definition tm_bundleActivator_getPropertyInt where
  "tm_bundleActivator_getPropertyInt cx propertyName defaultValue = config_int (snd (bundleContext_getProperty cx propertyName)) defaultValue"

definition tm_bundleActivator_getProperty where
  "tm_bundleActivator_getProperty cx propertyName defaultValue =
     (case snd (bundleContext_getProperty cx propertyName) of Some v \<Rightarrow> v | None \<Rightarrow> defaultValue)"

definition tm_bundleActivator_getCaHost where
  "tm_bundleActivator_getCaHost cx = tm_bundleActivator_getProperty cx ''trust.manager.ca.host'' ''localhost''"

definition tm_bundleActivator_getCaPort where
  "tm_bundleActivator_getCaPort cx = tm_bundleActivator_getPropertyInt cx ''trust.manager.ca.port'' 8888"

definition tm_bundleActivator_getKeyStorage where
  "tm_bundleActivator_getKeyStorage cx =
     tm_bundleActivator_getProperty cx ''trust.manager.key.storage'' ''/tmp/inaeticstrustmanager''"

definition tm_bundleActivator_getRefreshInterval where
  "tm_bundleActivator_getRefreshInterval cx =
     tm_bundleActivator_getPropertyInt cx ''trust.manager.refresh.interval'' 5"

record tm_activator =
  act_worker :: "trust_worker option"
  act_reg :: bool
  act_service :: "trust_manager option"

definition tm_bundleActivator_create :: "bool \<Rightarrow> celix_status \<times> tm_activator option" where
  "tm_bundleActivator_create calloc_ok =
     (if calloc_ok then (CELIX_SUCCESS, Some \<lparr>act_worker = None, act_reg = False, act_service = None\<rparr>)
      else (CELIX_ENOMEM, None))"

text \<open>
  The answer of \<open>trustWorker_create\<close> is not looked at: the service is registered whether or
  not the worker runs. The worker is the one that was made, with the flag as it was left.
\<close>

definition tm_bundleActivator_start ::
    "celix \<Rightarrow> bool \<Rightarrow> bool \<Rightarrow> (trust_manager \<Rightarrow> create_result result) \<Rightarrow> celix_status \<Rightarrow> tm_activator \<Rightarrow>
     (celix_status \<times> tm_activator) result" where
  "tm_bundleActivator_start cx calloc_service calloc_instance create_worker register_status act =
     (if \<not> calloc_service \<or> \<not> calloc_instance then Inr (CELIX_ENOMEM, act)
      else let inst = \<lparr>tm_name = ''trust_manager'', tm_key_storage = tm_bundleActivator_getKeyStorage cx,
                tm_ca_host = tm_bundleActivator_getCaHost cx, tm_ca_port = tm_bundleActivator_getCaPort cx,
                tm_refresh_interval = tm_bundleActivator_getRefreshInterval cx\<rparr>
      in rbind (create_worker inst) (\<lambda>cr.
           Inr (register_status, act\<lparr>act_worker := Some (cr_worker cr),
             act_reg := (register_status = CELIX_SUCCESS), act_service := Some inst\<rparr>)))"

definition tm_bundleActivator_stop :: "tm_activator \<Rightarrow> (celix_status \<times> tm_activator) result" where
  "tm_bundleActivator_stop act =
     (case (act_worker act, act_service act) of
        (Some w, Some s) \<Rightarrow>
          Inr (CELIX_SUCCESS, act\<lparr>act_worker := Some (snd (trustWorker_destroy w)), act_reg := False\<rparr>)
      | _ \<Rightarrow> Inl NullPointer)"

definition tm_bundleActivator_destroy :: "tm_activator \<Rightarrow> celix_status" where
  "tm_bundleActivator_destroy act = CELIX_SUCCESS"

end
