(* ===== verification/Trust_Keys_Correct.thy ===== *)
theory Trust_Keys_Correct
  imports Trust_Keys
begin

text \<open>
  The text routines of the key component: removal of a character is a filter, \<open>replace\<close> is
  the left-to-right replacement of every occurrence in a block of the right size, and a PEM
  request becomes the one-line form with escaped line breaks that the certificate server
  reads.
\<close>

section \<open>Removal of a character\<close>

lemma removeChar_loop_filter:
  assumes "CHR 0x00 \<notin> set (out @ rest)"
  shows "takeWhile (\<lambda>c. c \<noteq> CHR 0x00)
      (removeChar_loop (out @ mid @ rest @ [CHR 0x00]) g (length out + length mid) (length out))
    = out @ filter (\<lambda>c. c \<noteq> g) rest"
  using assms
proof (induction rest arbitrary: out mid)
  case Nil
  then have nz: "\<And>x. x \<in> set out \<Longrightarrow> x \<noteq> CHR 0x00" by auto
  have "(out @ mid @ [CHR 0x00])[length out := CHR 0x00] = out @ CHR 0x00 # tl (mid @ [CHR 0x00])"
    by (cases mid) simp_all
  then show ?case
    by (subst removeChar_loop.simps)
       (simp add: nth_append takeWhile_append2 [OF nz])
next
  case (Cons c rest)
  let ?a = "out @ mid @ (c # rest) @ [CHR 0x00]"
  let ?src = "length out + length mid"
  have "c \<noteq> CHR 0x00" using Cons.prems by auto
  have c: "?a ! ?src = c" "?src < length ?a" by (simp_all add: nth_append)
  obtain m mid' where upd: "?a[length out := c] = out @ c # mid' @ rest @ [CHR 0x00]"
      and len: "length mid' = length mid"
    by (cases mid) (auto simp: list_update_append)
  have nth: "?a[length out := c] ! length out = c" by (simp add: upd)
  have step: "removeChar_loop ?a g ?src (length out) =
      removeChar_loop (?a[length out := c]) g (Suc ?src) (if c \<noteq> g then Suc (length out) else length out)"
    using c \<open>c \<noteq> CHR 0x00\<close> by (subst removeChar_loop.simps) (simp add: Let_def upd)
  show ?case
  proof (cases "c = g")
    case True
    have "removeChar_loop ?a g ?src (length out) =
      removeChar_loop (out @ (c # mid') @ rest @ [CHR 0x00]) g (length out + length (c # mid')) (length out)"
      unfolding step upd using True len by simp
    then show ?thesis using Cons.IH [of out "c # mid'"] Cons.prems True by simp
  next
    case False
    have "removeChar_loop ?a g ?src (length out) =
      removeChar_loop ((out @ [c]) @ mid' @ rest @ [CHR 0x00]) g (length (out @ [c]) + length mid') (length (out @ [c]))"
      unfolding step upd using False len by simp
    then show ?thesis using Cons.IH [of "out @ [c]" mid'] Cons.prems False by simp
  qed
qed

lemma removeChar_filter: "CHR 0x00 \<notin> set s \<Longrightarrow> removeChar s g = filter (\<lambda>c. c \<noteq> g) s"
  using removeChar_loop_filter [of "[]" s "[]" g] by (simp add: removeChar_def)

section \<open>Replacement\<close>

text \<open>The reference: from left to right, an occurrence is replaced and skipped as a whole.\<close>

function replace_all :: "string \<Rightarrow> string \<Rightarrow> string \<Rightarrow> string" where
  "replace_all p r s =
     (if p = [] \<or> s = [] then s
      else if prefix p s then r @ replace_all p r (drop (length p) s)
      else hd s # replace_all p r (tl s))"
  by pat_completeness auto

termination
  by (relation "measure (\<lambda>(p, r, s). length s)") auto

declare replace_all.simps [simp del]

lemma strstr_None: "p \<noteq> [] \<Longrightarrow> strstr s p = None \<Longrightarrow> replace_all p r s = s"
proof (induction s)
  case Nil
  then show ?case by (simp add: replace_all.simps)
next
  case (Cons c s)
  then show ?case
    by (subst replace_all.simps) (auto simp: strstr.simps [of "c # s"] split: if_splits)
qed

lemma strstr_Some:
  "p \<noteq> [] \<Longrightarrow> strstr s p = Some i \<Longrightarrow>
   i + length p \<le> length s \<and> replace_all p r s = take i s @ r @ replace_all p r (drop (i + length p) s)"
proof (induction s arbitrary: i)
  case Nil
  then show ?case by (simp add: strstr.simps)
next
  case (Cons c s)
  show ?case
  proof (cases "prefix p (c # s)")
    case True
    then have "i = 0" using Cons.prems by (simp add: strstr.simps [of "c # s"])
    then show ?thesis using True Cons.prems prefix_length_le [OF True]
      by (subst replace_all.simps) simp
  next
    case False
    then obtain j where j: "i = Suc j" "strstr s p = Some j"
      using Cons.prems by (auto simp: strstr.simps [of "c # s"])
    then show ?thesis using False Cons.prems(1) Cons.IH [of j]
      by (subst replace_all.simps) simp
  qed
qed

lemma replace_loops:
  assumes "p \<noteq> []"
  shows "\<exists>n. count_loop p s k = Some (k + n) \<and>
    copy_loop p r s out = Some (out @ replace_all p r s) \<and>
    length (replace_all p r s) + n * length p = length s + n * length r"
proof (induction "length s" arbitrary: s k out rule: less_induct)
  case less
  show ?case
  proof (cases "strstr s p")
    case None
    then show ?thesis using strstr_None [OF assms None]
      by (intro exI [of _ 0]) (simp add: count_loop.simps copy_loop.simps)
  next
    case (Some i)
    let ?s = "drop (i + length p) s"
    note found = strstr_Some [OF assms Some, of r]
    then have "length ?s < length s" using assms by (cases p) auto
    from less [OF this, of "Suc k" "out @ take i s @ r"] obtain n where n:
      "count_loop p ?s (Suc k) = Some (Suc k + n)"
      "copy_loop p r ?s (out @ take i s @ r) = Some (out @ take i s @ r @ replace_all p r ?s)"
      "length (replace_all p r ?s) + n * length p = length ?s + n * length r" by auto
    have sizes: "length s = i + length p + length ?s"
      "length (replace_all p r s) = i + length r + length (replace_all p r ?s)"
      using found by (simp_all add: min_absorb2)
    have "length (replace_all p r s) + Suc n * length p = length s + Suc n * length r"
      using n(3) sizes unfolding mult_Suc by linarith
    then show ?thesis using Some found n(1,2)
      by (intro exI [of _ "Suc n"]) (simp add: count_loop.simps [of _ s] copy_loop.simps [of _ _ s])
  qed
qed

lemma replace_retlen_exact:
  assumes "m + n * lp = lo + n * lr"
  shows "replace_retlen lo n lr lp = of_nat m"
proof -
  have "(of_nat m :: 64 word) + of_nat n * of_nat lp = of_nat lo + of_nat n * of_nat lr"
    using arg_cong [OF assms, of "of_nat :: nat \<Rightarrow> 64 word"] by simp
  then have "of_nat lo + of_nat n * (of_nat lr - of_nat lp) = (of_nat m :: 64 word)"
    by (simp add: algebra_simps)
  then show ?thesis by (simp add: replace_retlen_def)
qed

text \<open>What the code promises: a block that has exactly the room for the text and its end.\<close>

definition exact_block :: "(nat \<Rightarrow> bool) \<Rightarrow> string \<Rightarrow> (nat \<times> string) option" where
  "exact_block malloc t = (if malloc (length t + 1) then Some (length t + 1, t) else None)"

lemma replace_eq:
  assumes "p \<noteq> []" "length (replace_all p r s) + 1 < 2 ^ 64"
  shows "replace malloc s p r = Inr (exact_block malloc (replace_all p r s))"
proof -
  obtain n where n: "count_loop p s 0 = Some n" "copy_loop p r s [] = Some (replace_all p r s)"
    "length (replace_all p r s) + n * length p = length s + n * length r"
    using replace_loops [OF assms(1), of s 0 r "[]"] by auto
  have "(of_nat (length (replace_all p r s)) + 1 :: 64 word) = of_nat (length (replace_all p r s) + 1)" by simp
  then have size: "unat (of_nat (length (replace_all p r s)) + 1 :: 64 word) = length (replace_all p r s) + 1"
    using assms(2) by (simp only: unat_of_nat) simp
  show ?thesis
    unfolding replace_def n(1,2) by (simp add: replace_retlen_exact [OF n(3)] size sprintf_def exact_block_def Let_def)
qed

text \<open>Where the pattern begins with a character that a text does not have, nothing is replaced there.\<close>

lemma replace_all_skip:
  assumes "c \<notin> set t"
  shows "replace_all (c # p) r (t @ s) = t @ replace_all (c # p) r s"
  using assms
proof (induction t)
  case (Cons d t)
  then show ?case by (subst replace_all.simps) simp
qed simp

lemma replace_all_hit: "p \<noteq> [] \<Longrightarrow> replace_all p r (p @ s) = r @ replace_all p r s"
  by (subst replace_all.simps) (cases p, auto)

lemma replace_all_Nil [simp]: "replace_all p r [] = []"
  by (simp add: replace_all.simps)

lemma replace_all_step: "\<not> prefix p (c # s) \<Longrightarrow> replace_all p r (c # s) = c # replace_all p r s"
proof (cases "p = []")
  case False
  assume "\<not> prefix p (c # s)"
  with False show ?thesis by (subst replace_all.simps) simp
qed simp

section \<open>The request for the certificate server\<close>

lemma csr_first_marker:
  assumes "CHR ''-'' \<notin> set b"
  shows "replace_all CSR_START_DEFAULT CSR_START_CFSSL (CSR_START_DEFAULT @ b @ CSR_STOP_DEFAULT)
    = CSR_START_CFSSL @ b @ CSR_STOP_DEFAULT"
proof -
  have ne: "CSR_START_DEFAULT \<noteq> []" by (simp add: CSR_START_DEFAULT_def)
  have "replace_all CSR_START_DEFAULT CSR_START_CFSSL (b @ CSR_STOP_DEFAULT)
      = b @ replace_all CSR_START_DEFAULT CSR_START_CFSSL CSR_STOP_DEFAULT"
    unfolding CSR_START_DEFAULT_def by (rule replace_all_skip [OF assms])
  moreover have "replace_all CSR_START_DEFAULT CSR_START_CFSSL CSR_STOP_DEFAULT = CSR_STOP_DEFAULT"
    by (simp add: CSR_START_DEFAULT_def CSR_STOP_DEFAULT_def replace_all_step)
  ultimately show ?thesis by (simp add: replace_all_hit [OF ne])
qed

lemma csr_second_marker:
  assumes "CHR ''-'' \<notin> set b"
  shows "replace_all CSR_STOP_DEFAULT CSR_STOP_CFSSL (CSR_START_CFSSL @ b @ CSR_STOP_DEFAULT)
    = CSR_START_CFSSL @ b @ CSR_STOP_CFSSL"
proof -
  have ne: "CSR_STOP_DEFAULT \<noteq> []" by (simp add: CSR_STOP_DEFAULT_def)
  have "replace_all CSR_STOP_DEFAULT CSR_STOP_CFSSL (b @ CSR_STOP_DEFAULT)
      = b @ replace_all CSR_STOP_DEFAULT CSR_STOP_CFSSL CSR_STOP_DEFAULT"
    unfolding CSR_STOP_DEFAULT_def by (rule replace_all_skip [OF assms])
  moreover have "replace_all CSR_STOP_DEFAULT CSR_STOP_CFSSL CSR_STOP_DEFAULT = CSR_STOP_CFSSL"
    using replace_all_hit [OF ne, of CSR_STOP_CFSSL "[]"] by simp
  moreover have "replace_all CSR_STOP_DEFAULT r (CSR_START_CFSSL @ t)
      = CSR_START_CFSSL @ replace_all CSR_STOP_DEFAULT r t" for r t
    by (simp add: CSR_STOP_DEFAULT_def CSR_START_CFSSL_def replace_all_step)
  ultimately show ?thesis by simp
qed

text \<open>The PEM form that the request writer produces: the lines of \<open>body\<close> between the markers.\<close>

definition csr_pem :: "string \<Rightarrow> string" where
  "csr_pem body = CSR_START_DEFAULT @ [CHR 0x0A] @ body @ CSR_STOP_DEFAULT @ [CHR 0x0A]"

lemma removeChar_csr_pem:
  assumes "CHR 0x00 \<notin> set body"
  shows "removeChar (csr_pem body) (CHR 0x0A) =
    CSR_START_DEFAULT @ filter (\<lambda>c. c \<noteq> CHR 0x0A) body @ CSR_STOP_DEFAULT"
proof -
  have "CHR 0x00 \<notin> set (csr_pem body)"
    using assms by (auto simp: csr_pem_def CSR_START_DEFAULT_def CSR_STOP_DEFAULT_def)
  then show ?thesis
    by (simp add: removeChar_filter csr_pem_def CSR_START_DEFAULT_def CSR_STOP_DEFAULT_def)
qed

lemma csr_text_pem:
  assumes "CHR 0x00 \<notin> set body" "CHR ''-'' \<notin> set body" "length (csr_pem body) < 4096" "\<forall>n. malloc n"
  shows "csr_text malloc cap (csr_pem body) =
    sprintf cap (csr_cfssl_json (CSR_START_CFSSL @ filter (\<lambda>c. c \<noteq> CHR 0x0A) body @ CSR_STOP_CFSSL))"
proof -
  let ?b = "filter (\<lambda>c. c \<noteq> CHR 0x0A) body"
  have dash: "CHR ''-'' \<notin> set ?b" using assms(2) by simp
  have "length body < 4026"
    using assms(3) by (simp add: csr_pem_def CSR_START_DEFAULT_def CSR_STOP_DEFAULT_def)
  with length_filter_le [of _ body] have "length ?b < 4026" by (rule le_less_trans)
  then have len: "length (CSR_START_CFSSL @ ?b @ CSR_STOP_DEFAULT) < 32768"
      "length (CSR_START_CFSSL @ ?b @ CSR_STOP_CFSSL) < 32768"
    by (simp_all add: CSR_START_CFSSL_def CSR_STOP_CFSSL_def CSR_STOP_DEFAULT_def)
  have "CSR_START_DEFAULT \<noteq> []" "CSR_STOP_DEFAULT \<noteq> []" by (simp_all add: CSR_START_DEFAULT_def CSR_STOP_DEFAULT_def)
  note ne = this
  have granted: "exact_block malloc t = Some (length t + 1, t)" for t using assms(4) by (simp add: exact_block_def)
  have "replace malloc (CSR_START_DEFAULT @ ?b @ CSR_STOP_DEFAULT) CSR_START_DEFAULT CSR_START_CFSSL
      = Inr (exact_block malloc (CSR_START_CFSSL @ ?b @ CSR_STOP_DEFAULT))"
    using replace_eq [OF ne(1), of CSR_START_CFSSL "CSR_START_DEFAULT @ ?b @ CSR_STOP_DEFAULT"] len(1)
    unfolding csr_first_marker [OF dash] by simp
  moreover have "replace malloc (CSR_START_CFSSL @ ?b @ CSR_STOP_DEFAULT) CSR_STOP_DEFAULT CSR_STOP_CFSSL
      = Inr (exact_block malloc (CSR_START_CFSSL @ ?b @ CSR_STOP_CFSSL))"
    using replace_eq [OF ne(2), of CSR_STOP_CFSSL "CSR_START_CFSSL @ ?b @ CSR_STOP_DEFAULT"] len(2)
    unfolding csr_second_marker [OF dash] by simp
  ultimately show ?thesis
    using len by (simp only: csr_text_def removeChar_csr_pem [OF assms(1)] rbind_simps
      granted strcpy_block_def option.case prod.case sprintf_def [of 32768] if_True)
qed

section \<open>Properties\<close>

text \<open>
  C32. The hand-written \<open>replace\<close> is the replacement of every occurrence of a non-empty
  pattern from left to right. Both loops end. The block it asks for, whose size is computed in
  size_t from a difference that wraps when the pattern is the longer text, has exactly the room
  for the result and its terminator, so nothing is written behind it; when the block is refused
  the answer is NULL.
\<close>

theorem replace_correct:
  assumes "pattern \<noteq> []" "length (replace_all pattern replacement original) + 1 < 2 ^ 64"
  shows "replace malloc original pattern replacement =
    (let t = replace_all pattern replacement original in
     Inr (if malloc (length t + 1) then Some (length t + 1, t) else None))"
  using replace_eq [OF assms] by (simp add: exact_block_def Let_def)

theorem replace_correct_witness:
  "replace (\<lambda>n. n \<le> 4) ''abcabcx'' ''abc'' ''d'' = Inr (Some (4, ''ddx'')) \<and>
   replace (\<lambda>n. n \<le> 3) ''abcabcx'' ''abc'' ''d'' = Inr None"
proof -
  have "replace_all ''abc'' ''d'' ''abcabcx'' = ''ddx''"
    by (simp add: replace_all.simps)
  then show ?thesis using replace_correct [of "''abc''" "''d''" "''abcabcx''"] by simp
qed

text \<open>The copy of a refused block into the request is a copy from NULL.\<close>

lemma csr_text_refused:
  assumes "length (replace_all CSR_START_DEFAULT CSR_START_CFSSL (removeChar t (CHR 0x0A))) + 1 < 2 ^ 64" "\<forall>n. \<not> malloc n"
  shows "csr_text malloc cap t = Inl NullPointer"
proof -
  have "CSR_START_DEFAULT \<noteq> []" by (simp add: CSR_START_DEFAULT_def)
  from replace_eq [OF this assms(1), of malloc] show ?thesis
    using assms(2) by (simp add: csr_text_def exact_block_def strcpy_block_def)
qed

text \<open>
  A certificate request in PEM form reaches the server as one JSON string: the line
  breaks of the body are gone, an escaped line break stands behind the first and before
  the last marker, and the text is cut nowhere. It is a write behind the caller's buffer
  exactly when the JSON text does not fit.
\<close>

theorem csr_text_form:
  assumes "CHR 0x00 \<notin> set body" "CHR ''-'' \<notin> set body" "length (csr_pem body) < 4096" "\<forall>n. malloc n"
  shows "csr_text malloc cap (csr_pem body) =
    (let t = csr_cfssl_json (CSR_START_CFSSL @ filter (\<lambda>c. c \<noteq> CHR 0x0A) body @ CSR_STOP_CFSSL) in
     if length t < cap then Inr t else Inl BufferOverflow)"
  by (simp add: csr_text_pem [OF assms] sprintf_def Let_def)

theorem csr_text_form_witness:
  "\<exists>t. csr_text (\<lambda>n. True) 1024 (csr_pem (''MIIC'' @ [CHR 0x0A] @ ''Zw=='' @ [CHR 0x0A])) = Inr (csr_cfssl_json t) \<and>
     t = CSR_START_CFSSL @ ''MIICZw=='' @ CSR_STOP_CFSSL"
  using csr_text_form [of "''MIIC'' @ [CHR 0x0A] @ ''Zw=='' @ [CHR 0x0A]" "\<lambda>n. True" 1024]
  by (simp add: csr_pem_def csr_cfssl_json_def CSR_START_CFSSL_def CSR_STOP_CFSSL_def
    CSR_START_DEFAULT_def CSR_STOP_DEFAULT_def Let_def)

text \<open>
  The subject name is written at the address of the pointer variable instead of into
  the block it points to: with no more room there than the pointer has, no request is ever
  generated without a write behind the variable.
\<close>

theorem generate_csr_overflows:
  assumes "sn_room lib \<le> 8" "popen_route lib x = Some out"
  shows "generate_csr lib env cap key x = Inl BufferOverflow"
  using assms by (simp add: generate_csr_def get_primary_public_up_def csr_cert_subject_name_def sprintf_def)

theorem generate_csr_overflows_witness:
  "generate_csr \<lparr>rsa_gen_key = \<lambda>x. (0, (), x), rsa_check_pub_priv = \<lambda>k. 0, pk_no_rsa = (),
      pk_write_pubkey_pem = \<lambda>k. (0, ''pub''), pk_write_key_pem = \<lambda>k. (0, ''priv''),
      x509write_csr_pem = \<lambda>k sn x. ((0, ''csr''), x), popen_route = \<lambda>x. Some ''10.0.0.1'', sn_room = 8\<rparr>
    \<lparr>mkdir_ok = \<lambda>p. True, open_read_ok = \<lambda>p. True, open_write_ok = \<lambda>p. True, fputs_ok = \<lambda>p. True,
      rename_ok = \<lambda>p q. True, os_malloc = \<lambda>n. True, fresh_memory = []\<rparr> 1024 () () = Inl BufferOverflow"
  by (rule generate_csr_overflows [of _ _ "''10.0.0.1''"]) simp_all

end
