(* ===== verification/Trust_Correct.thy ===== *)
theory Trust_Correct
  imports Trust_Worker Trust_Keys_Correct
begin

text \<open>
  What the trust manager guarantees: the search for the current files, the verification of
  a certificate, the effect of the worker on the file system. The file system is seen
  through \<open>view\<close>, the map from folder and name to contents: the operations of the storage
  are updates of this map.
\<close>

section \<open>The file system as a map\<close>

definition view :: "filesys \<Rightarrow> (string \<times> string) \<rightharpoonup> string" where
  "view fs k = (case fs (fst k) of None \<Rightarrow> None | Some es \<Rightarrow> map_of es (snd k))"

definition key :: "string \<Rightarrow> string \<times> string" where
  "key p = (folder_of p, file_name p)"

definition keeps_folders :: "filesys \<Rightarrow> filesys \<Rightarrow> bool" where
  "keeps_folders fs fs' \<longleftrightarrow> (\<forall>d. (fs' d = None) = (fs d = None) \<and> (folder_ok fs d \<longrightarrow> folder_ok fs' d))"

lemma file_at_view: "file_at fs p = view fs (key p)"
  by (simp add: file_at_def view_def key_def split: option.split)

lemma key_path [simp]:
  "plain_name n \<Longrightarrow> d \<noteq> [] \<Longrightarrow> key (d @ CHR ''/'' # n) = (d, n)"
  using file_name_path [of n d] folder_of_path [of n d] by (auto simp: key_def plain_name_def)

lemma view_set_file: "fs (folder_of p) \<noteq> None \<Longrightarrow> view (set_file p t fs) = (view fs)(key p \<mapsto> t)"
  by (auto simp: fun_eq_iff view_def set_file_def key_def update_conv split: option.splits)

lemma view_os_remove: "view (os_remove p fs) = (view fs)(key p := None)"
  by (auto simp: fun_eq_iff view_def os_remove_def key_def delete_conv split: option.splits)

lemma folder_ok_set_file: "folder_ok fs d \<Longrightarrow> folder_ok (set_file p t fs) d"
  by (auto simp: folder_ok_def set_file_def distinct_update split: option.splits)

lemma folder_ok_os_remove: "folder_ok fs d \<Longrightarrow> folder_ok (os_remove p fs) d"
  by (auto simp: folder_ok_def os_remove_def distinct_delete split: option.splits)

lemma keeps_folders_refl [simp]: "keeps_folders fs fs"
  by (simp add: keeps_folders_def)

lemma keeps_folders_trans [trans]: "keeps_folders f g \<Longrightarrow> keeps_folders g h \<Longrightarrow> keeps_folders f h"
  by (auto simp: keeps_folders_def)

lemma keeps_folders_set_file [simp]: "keeps_folders fs (set_file p t fs)"
  by (simp add: keeps_folders_def folder_ok_set_file)

lemma keeps_folders_os_remove [simp]: "keeps_folders fs (os_remove p fs)"
  by (simp add: keeps_folders_def folder_ok_os_remove)

lemma keeps_foldersD:
  "keeps_folders fs fs' \<Longrightarrow> fs d \<noteq> None \<Longrightarrow> fs' d \<noteq> None"
  "keeps_folders fs fs' \<Longrightarrow> folder_ok fs d \<Longrightarrow> folder_ok fs' d"
  by (auto simp: keeps_folders_def)

definition os_allows_writes :: "os_env \<Rightarrow> bool" where
  "os_allows_writes os \<longleftrightarrow> (\<forall>p. open_write_ok os p \<and> fputs_ok os p)"

definition old_text :: "bool \<Rightarrow> string option \<Rightarrow> string" where
  "old_text apnd t = (if apnd then (case t of None \<Rightarrow> [] | Some s \<Rightarrow> s) else [])"

lemma write_pem_view:
  assumes "fs (folder_of p) \<noteq> None" "os_allows_writes os"
  shows "\<exists>fs'. write_pem_to_file os (CStr t) p apnd fs = Inr (0, fs') \<and>
    view fs' = (view fs)(key p \<mapsto> old_text apnd (view fs (key p)) @ t) \<and> keeps_folders fs fs'"
proof -
  let ?old = "old_text apnd (view fs (key p))"
  let ?fs = "set_file p ?old fs"
  have "write_pem_to_file os (CStr t) p apnd fs = Inr (0, set_file p (?old @ t) ?fs)"
    using assms by (simp add: write_pem_to_file_def os_allows_writes_def old_text_def read_buf_def
      file_at_view Let_def)
  moreover have "view (set_file p (?old @ t) ?fs) = (view fs)(key p \<mapsto> ?old @ t)"
    using assms(1) by (simp add: view_set_file)
  moreover have "keeps_folders fs (set_file p (?old @ t) ?fs)"
    by (rule keeps_folders_trans [OF keeps_folders_set_file keeps_folders_set_file])
  ultimately show ?thesis by blast
qed

lemma os_rename_view:
  assumes "view fs (key src) = Some t" "fs (folder_of dst) \<noteq> None" "rename_ok os src dst" "key src \<noteq> key dst"
  shows "\<exists>fs'. os_rename os src dst fs = (0, fs') \<and>
    view fs' = (view fs)(key src := None, key dst \<mapsto> t) \<and> keeps_folders fs fs'"
proof -
  let ?fs = "set_file dst t (os_remove src fs)"
  have "os_rename os src dst fs = (0, ?fs)"
    using assms by (auto simp: os_rename_def file_at_view)
  moreover have "view ?fs = (view fs)(key src := None, key dst \<mapsto> t)"
    using assms(2) by (simp add: view_set_file view_os_remove)
  moreover have "keeps_folders fs ?fs"
    by (rule keeps_folders_trans [OF keeps_folders_os_remove keeps_folders_set_file])
  ultimately show ?thesis by blast
qed

section \<open>New keys\<close>

definition HARD_CODED :: string where "HARD_CODED = ''/tmp/inaeticstrustmanager''"

lemma FULL_NEXT_path: "FULL_NEXT = HARD_CODED @ CHR ''/'' # ''client_full.pem.next''"
  by (simp add: FULL_NEXT_def HARD_CODED_def)

lemma plain_names [simp]:
  "plain_name ''client_full.pem.next''" "plain_name ''client_full.pem''" "plain_name ''client.pem''"
  "plain_name ''client_pub.key''" "plain_name ''client_priv.key''" "plain_name ''ca.pem''"
  by (simp_all add: plain_name_def)

lemma HARD_CODED_neq [simp]: "HARD_CODED \<noteq> []"
  by (simp add: HARD_CODED_def)

lemma key_FULL_NEXT [simp]: "key FULL_NEXT = (HARD_CODED, ''client_full.pem.next'')"
  unfolding FULL_NEXT_path by (rule key_path) simp_all

lemma folder_of_key: "key p = (d, n) \<Longrightarrow> folder_of p = d"
  by (simp add: key_def)

lemma rekey_write_view:
  assumes "os_allows_writes os" "key p = (d, n)" "n \<noteq> ''client_full.pem.next''"
    and "fs d \<noteq> None" "fs HARD_CODED \<noteq> None"
  shows "\<exists>fs'. rekey_write os (CStr t) p apnd fs = Inr fs' \<and>
    view fs' = (view fs)((d, n) \<mapsto> t,
      (HARD_CODED, ''client_full.pem.next'') \<mapsto>
        old_text apnd (view fs (HARD_CODED, ''client_full.pem.next'')) @ t) \<and>
    keeps_folders fs fs'"
proof -
  obtain fs1 where w1: "write_pem_to_file os (CStr t) p False fs = Inr (0, fs1)"
      "view fs1 = (view fs)((d, n) \<mapsto> t)" "keeps_folders fs fs1"
    using write_pem_view [of fs p os t False] assms folder_of_key [OF assms(2)]
    by (auto simp: old_text_def)
  have "fs1 (folder_of FULL_NEXT) \<noteq> None"
    using keeps_foldersD(1) [OF w1(3) assms(5)] folder_of_key [OF key_FULL_NEXT] by simp
  then obtain fs2 where w2: "write_pem_to_file os (CStr t) FULL_NEXT apnd fs1 = Inr (0, fs2)"
      "view fs2 = (view fs1)((HARD_CODED, ''client_full.pem.next'') \<mapsto>
         old_text apnd (view fs1 (HARD_CODED, ''client_full.pem.next'')) @ t)" "keeps_folders fs1 fs2"
    using write_pem_view [of fs1 FULL_NEXT os t apnd] assms(1) by auto
  have "keeps_folders fs fs2" using w1(3) w2(3) by (rule keeps_folders_trans)
  moreover have "view fs1 (HARD_CODED, ''client_full.pem.next'') = view fs (HARD_CODED, ''client_full.pem.next'')"
    using w1(2) assms(3) by simp
  ultimately show ?thesis using w1 w2 by (auto simp: rekey_write_def)
qed

text \<open>What a rekey starts from: the folders, the permissions, the paths, the new key pair.\<close>

definition rekey_ready ::
    "('k, 'x, 'c) worker_env \<Rightarrow> trust_worker \<Rightarrow> 'x trust_state \<Rightarrow> 'k \<Rightarrow> 'x \<Rightarrow> string \<Rightarrow> string \<Rightarrow> bool" where
  "rekey_ready env w st k x pub priv \<longleftrightarrow>
     key_storage w \<noteq> [] \<and> length (key_storage w) < 1000 \<and>
     ts_fs st (key_storage w) \<noteq> None \<and> ts_fs st HARD_CODED \<noteq> None \<and>
     os_allows_writes (tw_os env) \<and>
     generate_keypair (tw_lib env) (ts_out st) = (0, k, x) \<and>
     pk_write_pubkey_pem (tw_lib env) k = (0, pub) \<and> length pub < 4096 \<and>
     pk_write_key_pem (tw_lib env) k = (0, priv) \<and> length priv < 4096"

lemma next_paths:
  assumes "length d < 1000"
  shows "get_next_public_key_file_path 1024 d = Inr (0, d @ ''/client_pub.key'')"
    "get_next_private_key_file_path 1024 d = Inr (0, d @ ''/client_priv.key'')"
    "get_next_certificate_file_path 1024 d = Inr (0, d @ ''/client.pem'')"
    "get_next_full_certificate_file_path 1024 d = Inr (0, d @ ''/client_full.pem'')"
    "get_next_ca_certificate_file_path 1024 d = Inr (0, d @ ''/ca.pem'')"
  using assms by (simp_all add: get_next_public_key_file_path_def get_next_private_key_file_path_def
    get_next_certificate_file_path_def get_next_full_certificate_file_path_def
    get_next_ca_certificate_file_path_def sprintf_def)

text \<open>The file system after the two keys were written.\<close>

definition keys_view :: "string \<Rightarrow> string \<Rightarrow> string \<Rightarrow> filesys \<Rightarrow> (string \<times> string) \<rightharpoonup> string" where
  "keys_view d pub priv fs =
     (view fs)((d, ''client_pub.key'') \<mapsto> pub, (d, ''client_priv.key'') \<mapsto> priv,
               (HARD_CODED, ''client_full.pem.next'') \<mapsto> pub @ priv)"

text \<open>Up to the request for the certificate a rekey writes the two keys.\<close>

lemma rekey_keys_written:
  assumes "rekey_ready env w st k x pub priv"
  shows "\<exists>fs. view fs = keys_view (key_storage w) pub priv (ts_fs st) \<and> keeps_folders (ts_fs st) fs \<and>
    trustWorker_rekey env w st =
      rbind (csr_get_certificate (tw_lib env) (tw_os env) k Unset (ca_host w) (ca_port w) x) (\<lambda>(res, cert, x).
       let st = st\<lparr>ts_fs := fs, ts_out := x\<rparr> in
       if res \<noteq> 0 then Inr (res, st)
       else rbind (rekey_write (tw_os env) cert (key_storage w @ ''/client.pem'') True fs) (\<lambda>fs.
       case os_rename (tw_os env) FULL_NEXT (key_storage w @ ''/client_full.pem'') fs of (res, fs) \<Rightarrow>
         Inr (res, st\<lparr>ts_fs := fs\<rparr>)))"
proof -
  note r = assms [unfolded rekey_ready_def]
  let ?d = "key_storage w"
  obtain fs1 where 1: "rekey_write (tw_os env) (CStr pub) (?d @ ''/client_pub.key'') False (ts_fs st) = Inr fs1"
      "view fs1 = (view (ts_fs st))((?d, ''client_pub.key'') \<mapsto> pub, (HARD_CODED, ''client_full.pem.next'') \<mapsto> pub)"
      "keeps_folders (ts_fs st) fs1"
    using rekey_write_view [of "tw_os env" "?d @ ''/client_pub.key''" ?d "''client_pub.key''" "ts_fs st" pub False] r
    by (auto simp: old_text_def)
  have f1: "fs1 ?d \<noteq> None" "fs1 HARD_CODED \<noteq> None"
    using r keeps_foldersD(1) [OF 1(3)] by blast+
  obtain fs2 where 2: "rekey_write (tw_os env) (CStr priv) (?d @ ''/client_priv.key'') True fs1 = Inr fs2"
      "view fs2 = (view fs1)((?d, ''client_priv.key'') \<mapsto> priv, (HARD_CODED, ''client_full.pem.next'') \<mapsto> pub @ priv)"
      "keeps_folders fs1 fs2"
    using rekey_write_view [of "tw_os env" "?d @ ''/client_priv.key''" ?d "''client_priv.key''" fs1 priv True] r f1
    by (auto simp: old_text_def 1(2))
  have "view fs2 = keys_view ?d pub priv (ts_fs st)"
    unfolding 2(2) 1(2) keys_view_def by (auto simp: fun_eq_iff)
  moreover have "keeps_folders (ts_fs st) fs2" using 1(3) 2(3) by (rule keeps_folders_trans)
  moreover have "get_public_key (tw_lib env) k Unset = (0, CStr pub)"
      "get_private_key (tw_lib env) k Unset = (0, CStr priv)"
    using r by (simp_all add: get_public_key_def get_private_key_def memcpy_text_def)
  ultimately show ?thesis using r 1(1) 2(1)
    by (intro exI [of _ fs2]) (simp add: trustWorker_rekey_def next_paths Let_def)
qed

lemma rekey_done:
  assumes ready: "rekey_ready env w st k x pub priv"
    and csr: "csr_get_certificate (tw_lib env) (tw_os env) k Unset (ca_host w) (ca_port w) x = Inr (0, CStr cert, x')"
    and ren: "rename_ok (tw_os env) FULL_NEXT (key_storage w @ ''/client_full.pem'')"
  shows "\<exists>fs. trustWorker_rekey env w st = Inr (0, st\<lparr>ts_out := x', ts_fs := fs\<rparr>) \<and>
    view fs = (view (ts_fs st))(
      (key_storage w, ''client_pub.key'') \<mapsto> pub, (key_storage w, ''client_priv.key'') \<mapsto> priv,
      (key_storage w, ''client.pem'') \<mapsto> cert, (HARD_CODED, ''client_full.pem.next'') := None,
      (key_storage w, ''client_full.pem'') \<mapsto> pub @ priv @ cert) \<and>
    keeps_folders (ts_fs st) fs"
proof -
  let ?d = "key_storage w"
  note r = ready [unfolded rekey_ready_def]
  from rekey_keys_written [OF ready] csr obtain fs2 where
    v2: "view fs2 = keys_view ?d pub priv (ts_fs st)" and k2: "keeps_folders (ts_fs st) fs2"
    and run: "trustWorker_rekey env w st =
       rbind (rekey_write (tw_os env) (CStr cert) (?d @ ''/client.pem'') True fs2) (\<lambda>fs.
       case os_rename (tw_os env) FULL_NEXT (?d @ ''/client_full.pem'') fs of (res, fs) \<Rightarrow>
         Inr (res, st\<lparr>ts_out := x', ts_fs := fs\<rparr>))" by (auto simp: Let_def)
  have f2: "fs2 ?d \<noteq> None" "fs2 HARD_CODED \<noteq> None"
    using r keeps_foldersD(1) [OF k2] by blast+
  obtain fs3 where 3: "rekey_write (tw_os env) (CStr cert) (?d @ ''/client.pem'') True fs2 = Inr fs3"
      "view fs3 = (view fs2)((?d, ''client.pem'') \<mapsto> cert, (HARD_CODED, ''client_full.pem.next'') \<mapsto> pub @ priv @ cert)"
      "keeps_folders fs2 fs3"
    using rekey_write_view [of "tw_os env" "?d @ ''/client.pem''" ?d "''client.pem''" fs2 cert True] r f2
    by (auto simp: old_text_def v2 keys_view_def)
  have full: "key (?d @ ''/client_full.pem'') = (?d, ''client_full.pem'')" using r by simp
  then have "fs3 (folder_of (?d @ ''/client_full.pem'')) \<noteq> None"
    using folder_of_key [OF full] keeps_foldersD(1) [OF 3(3) f2(1)] by simp
  then obtain fs4 where 4: "os_rename (tw_os env) FULL_NEXT (?d @ ''/client_full.pem'') fs3 = (0, fs4)"
      "view fs4 = (view fs3)((HARD_CODED, ''client_full.pem.next'') := None, (?d, ''client_full.pem'') \<mapsto> pub @ priv @ cert)"
      "keeps_folders fs3 fs4"
    using os_rename_view [of fs3 FULL_NEXT "pub @ priv @ cert" "?d @ ''/client_full.pem''" "tw_os env"] ren full
    by (auto simp: 3(2))
  have "keeps_folders (ts_fs st) fs4"
    using k2 3(3) 4(3) by (blast intro: keeps_folders_trans)
  moreover have "view fs4 = (view (ts_fs st))(
      (?d, ''client_pub.key'') \<mapsto> pub, (?d, ''client_priv.key'') \<mapsto> priv,
      (?d, ''client.pem'') \<mapsto> cert, (HARD_CODED, ''client_full.pem.next'') := None,
      (?d, ''client_full.pem'') \<mapsto> pub @ priv @ cert)"
    unfolding 4(2) 3(2) v2 keys_view_def by (auto simp: fun_eq_iff)
  ultimately show ?thesis using run 3(1) 4(1) by (intro exI [of _ fs4]) simp
qed

section \<open>Requests to the certificate server\<close>

lemma writefunc_blocks:
  assumes "\<forall>n. ca_alloc_ok lib n"
  shows "rfold (writefunc lib) blocks \<lparr>ptr = p, len = length p\<rparr> =
    Inr \<lparr>ptr = p @ concat blocks, len = length (p @ concat blocks)\<rparr>"
proof (induction blocks arbitrary: p)
  case (Cons b bs)
  show ?case using assms Cons.IH [of "p @ b"] by (simp add: writefunc_def Let_def)
qed simp

text \<open>The certificate that a reply carries: an object with success and a result with the text.\<close>

definition reply_certificate :: "json option \<Rightarrow> string option" where
  "reply_certificate j =
     (if json_boolean_value (json_object_get j ''success'')
      then json_string_value (json_object_get (json_object_get j ''result'') ''certificate'') else None)"

definition curl_works :: "('k, 'x, 'c) cert_lib \<Rightarrow> bool" where
  "curl_works lib \<longleftrightarrow> curl_handle lib \<and> (\<forall>n. ca_alloc_ok lib n)"

lemma wrapper_unfold:
  assumes "curl_works lib" "ca_http lib url body x = ((res, blocks), x')"
  shows "cfssl_ca_certget_wrapper lib buf body url x =
    (if res \<noteq> 0 then Inr (res, buf, x')
     else rbind (parse_certificate_response lib (takeWhile (\<lambda>c. c \<noteq> CHR 0x00) (concat blocks)))
       (case_option (Inl NullPointer) (\<lambda>c. Inr (res, memcpy_text 4096 c, x'))))"
  using assms writefunc_blocks [of lib blocks "[]"]
  by (simp add: cfssl_ca_certget_wrapper_def curl_works_def init_string_def)

lemma parse_response_good:
  assumes "stale_decref_ok lib" "reply_certificate (ca_json_loads lib t) = Some cert" "length cert < 32768"
  shows "parse_certificate_response lib t = Inr (Some cert)"
proof -
  obtain j where j: "ca_json_loads lib t = Some j" "json_is_object j"
    using assms(2) by (auto simp: reply_certificate_def json_object_get_def json_boolean_value_def
      json_is_object_def split: option.splits json.splits if_splits)
  then have ok: "json_boolean_value (json_object_get (Some j) ''success'')"
      "json_string_value (json_object_get (json_object_get (Some j) ''result'') ''certificate'') = Some cert"
    using assms(2) by (auto simp: reply_certificate_def split: if_splits)
  then obtain data where "json_object_get (Some j) ''result'' = Some data"
    by (auto simp: json_object_get_def json_string_value_def split: option.splits json.splits)
  then show ?thesis using assms j ok
    by (simp add: parse_certificate_response_def parse_json_def verify_response_def
      parse_cert_from_json_def sprintf_def)
qed

lemma parse_response_bad:
  assumes "reply_certificate (ca_json_loads lib t) = None"
  shows "rbind (parse_certificate_response lib t) (case_option (Inl NullPointer) f) = Inl NullPointer"
  using assms by (auto simp: parse_certificate_response_def parse_json_def verify_response_def
      parse_cert_from_json_def reply_certificate_def json_object_get_def json_boolean_value_def
      json_is_object_def json_string_value_def
      split: option.splits json.splits if_splits)

lemma request_ca_fails:
  assumes "curl_works lib" "length host < 450" "length (dec_int port) < 12"
    and "ca_http lib (''http://'' @ host @ '':'' @ dec_int port @ ''/api/v1/cfssl/info'') ''{}'' x = ((res, blocks), x')"
    and "res \<noteq> 0"
  shows "request_ca_certificate lib buf host port x = Inr (res, buf, x')"
  using assms by (simp add: request_ca_certificate_def sprintf_def wrapper_unfold)

section \<open>Dates\<close>

lemma days_from_civil_day: "days_from_civil y m 1 + d - 1 = days_from_civil y m d"
  by (simp add: days_from_civil_def Let_def)

lemma mktime_utc:
  assumes "1 \<le> t_mon t" "t_mon t \<le> 12"
  shows "mktime mkoff (t_year t - 1900) (t_mon t - 1) (t_day t) (t_hour t) (t_min t) (t_sec t + off) dst =
    utc_seconds t + off - mkoff (utc_seconds t + off) dst"
proof -
  have "(t_mon t - 1) div 12 = 0" "(t_mon t - 1) mod 12 = t_mon t - 1" using assms by auto
  then show ?thesis
    using days_from_civil_day [of "t_year t" "t_mon t" "t_day t"]
    by (simp add: mktime_def utc_seconds_def Let_def algebra_simps)
qed

section \<open>Rounds of the worker\<close>

lemma load_ca_absent:
  assumes "folder_ok (ts_fs st) (key_storage w)" "length (key_storage w) < 1000"
    and "ts_fs st (key_storage w) \<noteq> None" "view (ts_fs st) (key_storage w, ''ca.pem'') = None"
    and "file_at (ts_fs st) (fresh_memory (tw_os env)) = None"
  shows "load_ca env w c st = Inr (1 + MBEDTLS_ERR_FILE_IO_ERROR, c)"
proof -
  have ne: "key_storage w \<noteq> []" using assms(1) by (simp add: folder_ok_def)
  have "get_recent_ca_certificate 1024 (fresh_memory (tw_os env)) (key_storage w) (ts_fs st) =
      Inr (1, fresh_memory (tw_os env), ts_fs st)"
    using cacert.found_iff [OF assms(1), of 1024] assms(2-4) ne by (simp add: file_at_view)
  then show ?thesis using assms(5) by (simp add: load_ca_def load_certificate_def)
qed

lemma load_ca_present:
  assumes "folder_ok (ts_fs st) (key_storage w)" "length (key_storage w) < 1000"
    and "view (ts_fs st) (key_storage w, ''ca.pem'') = Some t" "\<forall>p. open_read_ok (tw_os env) p"
    and "crt_parse (tw_lib env) t = (0, ca)"
  shows "load_ca env w c st = Inr (0, Some ca)"
proof -
  have ne: "key_storage w \<noteq> []" using assms(1) by (simp add: folder_ok_def)
  have "get_recent_ca_certificate 1024 (fresh_memory (tw_os env)) (key_storage w) (ts_fs st) =
      Inr (0, key_storage w @ ''/ca.pem'', ts_fs st)"
    using cacert.found_iff [OF assms(1), of 1024] assms(2,3) ne by (simp add: file_at_view)
  then show ?thesis using assms(3-5) ne by (simp add: load_ca_def load_certificate_def file_at_view)
qed

lemma refresh_present:
  "load_ca env w c st = Inr (0, Some ca) \<Longrightarrow> refresh_ca_trust_r env w c r st = Inr (0, Some ca, st)"
  by (subst refresh_ca_trust_r.simps) simp

text \<open>A failed load, a stored answer, a load that then succeeds: the first code is returned.\<close>

lemma refresh_second_attempt:
  assumes "load_ca env w c st = Inr (ret, c)" "ret \<noteq> 0" "fetch_ca env w st = Inr st'"
    and "load_ca env w c st' = Inr (0, Some ca)" "0 \<le> r"
  shows "refresh_ca_trust_r env w c r st = Inr (ret, Some ca, st')"
  using assms by (subst refresh_ca_trust_r.simps) (simp add: refresh_present)

text \<open>While every load and every request fails, the requests go on until the count is used up.\<close>

lemma refresh_unreachable:
  assumes "\<And>x. load_ca env w c (st\<lparr>ts_out := x\<rparr>) = Inr (ret, c)" "ret \<noteq> 0"
    and "\<And>x. fetch_ca env w (st\<lparr>ts_out := x\<rparr>) = Inr (st\<lparr>ts_out := f x\<rparr>)"
  shows "refresh_ca_trust_r env w c (int n - 1) (st\<lparr>ts_out := x\<rparr>) =
    Inr (ret, c, st\<lparr>ts_out := (f ^^ Suc n) x\<rparr>)"
proof (induction n arbitrary: x)
  case 0
  show ?case using assms by (subst refresh_ca_trust_r.simps) simp
next
  case (Suc n)
  show ?case
    using assms Suc [of "f x"]
    by (subst refresh_ca_trust_r.simps) (simp add: funpow_swap1)
qed

lemma fetch_ca_stores:
  assumes "request_ca_certificate (tw_lib env) Unset (ca_host w) (ca_port w) (ts_out st) = Inr (0, CStr ca, x')"
    and "os_allows_writes (tw_os env)" "length (key_storage w) < 1000" "key_storage w \<noteq> []"
    and "ts_fs st (key_storage w) \<noteq> None"
  shows "\<exists>fs. fetch_ca env w st = Inr (st\<lparr>ts_out := x', ts_fs := fs\<rparr>) \<and>
    view fs = (view (ts_fs st))((key_storage w, ''ca.pem'') \<mapsto> ca) \<and> keeps_folders (ts_fs st) fs"
proof -
  let ?p = "key_storage w @ ''/ca.pem''"
  have k: "key ?p = (key_storage w, ''ca.pem'')" using assms(4) by simp
  then obtain fs where "write_pem_to_file (tw_os env) (CStr ca) ?p False (ts_fs st) = Inr (0, fs)"
    "view fs = (view (ts_fs st))((key_storage w, ''ca.pem'') \<mapsto> ca)" "keeps_folders (ts_fs st) fs"
    using write_pem_view [of "ts_fs st" ?p "tw_os env" ca False] assms(2,5) folder_of_key [OF k]
    by (auto simp: old_text_def)
  then show ?thesis using assms(1,3) by (intro exI [of _ fs]) (simp add: fetch_ca_def next_paths Let_def)
qed

lemma clean_old_keys_id:
  assumes "folder_ok (ts_fs st) (key_storage w)" "length (key_storage w) < 1000"
    and "length (key_storage w) + 17 < sizeof_crt env"
  shows "clean_old_keys env w st = Inr st"
proof -
  let ?d = "key_storage w"
  have ex: "\<exists>r p. get_recent_public_key (sizeof_crt env) q ?d (ts_fs st) = Inr (r, p, ts_fs st)"
    "\<exists>r p. get_recent_private_key (sizeof_crt env) q ?d (ts_fs st) = Inr (r, p, ts_fs st)"
    "\<exists>r p. get_recent_full_certificate (sizeof_crt env) q ?d (ts_fs st) = Inr (r, p, ts_fs st)" for q
    using pubkey.found_iff [OF assms(1)] privkey.found_iff [OF assms(1)] fullcert.found_iff [OF assms(1)] assms(2,3)
    by simp_all
  obtain r p where 1: "get_recent_public_key (sizeof_crt env) [] ?d (ts_fs st) = Inr (r, p, ts_fs st)"
    using ex(1) by blast
  obtain r p' where 2: "get_recent_private_key (sizeof_crt env) p ?d (ts_fs st) = Inr (r, p', ts_fs st)"
    using ex(2) by blast
  obtain r p'' where "get_recent_full_certificate (sizeof_crt env) p' ?d (ts_fs st) = Inr (r, p'', ts_fs st)"
    using ex(3) by blast
  with 1 2 show ?thesis by (simp add: clean_old_keys_def)
qed

lemma keyfolder_exists:
  "fs d \<noteq> None \<Longrightarrow> check_create_keyfolder os d fs = (0, fs)"
  by (auto simp: check_create_keyfolder_def)

lemma view_folder: "view fs (d, n) = Some t \<Longrightarrow> fs d \<noteq> None"
  by (auto simp: view_def split: option.splits)

text \<open>A round that finds the certificates: the client certificate is loaded and judged.\<close>

lemma load_client_present:
  assumes "folder_ok (ts_fs st) (key_storage w)" "length (key_storage w) < 1000"
    and "view (ts_fs st) (key_storage w, ''client.pem'') = Some t" "\<forall>p. open_read_ok (tw_os env) p"
    and "crt_parse (tw_lib env) t = (0, c)"
  shows "get_recent_certificate 1024 (fresh_memory (tw_os env)) (key_storage w) (ts_fs st) =
      Inr (0, key_storage w @ ''/client.pem'', ts_fs st)"
    and "load_certificate (tw_lib env) (tw_os env) None (key_storage w @ ''/client.pem'') (ts_fs st) = (0, Some c)"
proof -
  have ne: "key_storage w \<noteq> []" using assms(1) by (simp add: folder_ok_def)
  show "get_recent_certificate 1024 (fresh_memory (tw_os env)) (key_storage w) (ts_fs st) =
      Inr (0, key_storage w @ ''/client.pem'', ts_fs st)"
    using clientcert.found_iff [OF assms(1), of 1024] assms(2,3) ne by (simp add: file_at_view)
  show "load_certificate (tw_lib env) (tw_os env) None (key_storage w @ ''/client.pem'') (ts_fs st) = (0, Some c)"
    using assms(3-5) ne by (simp add: load_certificate_def file_at_view)
qed

lemma load_client_absent:
  assumes "folder_ok (ts_fs st) (key_storage w)" "length (key_storage w) < 1000"
    and "ts_fs st (key_storage w) \<noteq> None" "view (ts_fs st) (key_storage w, ''client.pem'') = None"
    and "file_at (ts_fs st) (fresh_memory (tw_os env)) = None"
  shows "get_recent_certificate 1024 (fresh_memory (tw_os env)) (key_storage w) (ts_fs st) =
      Inr (1, fresh_memory (tw_os env), ts_fs st)"
    and "load_certificate (tw_lib env) (tw_os env) None (fresh_memory (tw_os env)) (ts_fs st) =
      (MBEDTLS_ERR_FILE_IO_ERROR, None)"
proof -
  have ne: "key_storage w \<noteq> []" using assms(1) by (simp add: folder_ok_def)
  show "get_recent_certificate 1024 (fresh_memory (tw_os env)) (key_storage w) (ts_fs st) =
      Inr (1, fresh_memory (tw_os env), ts_fs st)"
    using clientcert.found_iff [OF assms(1), of 1024] assms(2-4) ne by (simp add: file_at_view)
  show "load_certificate (tw_lib env) (tw_os env) None (fresh_memory (tw_os env)) (ts_fs st) =
      (MBEDTLS_ERR_FILE_IO_ERROR, None)"
    using assms(5) by (simp add: load_certificate_def)
qed

lemma round_valid:
  assumes fs: "folder_ok (ts_fs st) (key_storage w)" "length (key_storage w) < 1000"
    and ca: "view (ts_fs st) (key_storage w, ''ca.pem'') = Some ca_text" "crt_parse (tw_lib env) ca_text = (0, ca)"
    and cert: "view (ts_fs st) (key_storage w, ''client.pem'') = Some t" "crt_parse (tw_lib env) t = (0, c)"
    and readable: "\<forall>p. open_read_ok (tw_os env) p"
  shows "trustWorker_round env w slot st =
    (if verify_certificate (tw_lib env) c ca 0 (ts_out st) = 0 then Inr st
     else rbind (trustWorker_rekey env w st) (\<lambda>(r, st). clean_old_keys env w st))"
proof -
  have "ts_fs st (key_storage w) \<noteq> None" using ca(1) by (rule view_folder)
  moreover have "refresh_ca_trust env w None st = Inr (0, Some ca, st)"
    unfolding refresh_ca_trust_def by (rule refresh_present [OF load_ca_present [OF fs ca(1) readable ca(2)]])
  moreover have "st\<lparr>ts_fs := ts_fs st\<rparr> = st" by simp
  ultimately show ?thesis
    using load_client_present [OF fs cert(1) readable cert(2)]
    by (simp add: trustWorker_round_def keyfolder_exists)
qed

lemma round_first:
  assumes fs: "folder_ok (ts_fs st) (key_storage w)" "length (key_storage w) < 1000"
    and empty: "ts_fs st (key_storage w) \<noteq> None" "view (ts_fs st) (key_storage w, ''ca.pem'') = None"
      "file_at (ts_fs st) (fresh_memory (tw_os env)) = None"
    and os: "os_allows_writes (tw_os env)" "\<forall>p. open_read_ok (tw_os env) p"
    and req: "request_ca_certificate (tw_lib env) Unset (ca_host w) (ca_port w) (ts_out st) = Inr (0, CStr ca_text, x')"
      "crt_parse (tw_lib env) ca_text = (0, ca)"
  shows "\<exists>fs'. view fs' = (view (ts_fs st))((key_storage w, ''ca.pem'') \<mapsto> ca_text) \<and>
    keeps_folders (ts_fs st) fs' \<and>
    trustWorker_round env w slot st =
      (if slot then Inr (st\<lparr>ts_out := x', ts_fs := fs'\<rparr>) else Inl InvalidFree)"
proof -
  let ?d = "key_storage w"
  have ne: "?d \<noteq> []" using fs(1) by (simp add: folder_ok_def)
  obtain fs' where f: "fetch_ca env w st = Inr (st\<lparr>ts_out := x', ts_fs := fs'\<rparr>)"
      "view fs' = (view (ts_fs st))((?d, ''ca.pem'') \<mapsto> ca_text)" "keeps_folders (ts_fs st) fs'"
    using fetch_ca_stores [OF req(1) os(1) fs(2) ne empty(1)] by blast
  let ?st = "st\<lparr>ts_out := x', ts_fs := fs'\<rparr>"
  have "load_ca env w None ?st = Inr (0, Some ca)"
    by (rule load_ca_present) (use fs keeps_foldersD(2) [OF f(3)] f(2) os(2) req(2) in auto)
  then have "refresh_ca_trust env w None st = Inr (1 + MBEDTLS_ERR_FILE_IO_ERROR, Some ca, ?st)"
    unfolding refresh_ca_trust_def
    by (intro refresh_second_attempt load_ca_absent f(1))
       (use fs empty in \<open>auto simp: MBEDTLS_ERR_FILE_IO_ERROR_def\<close>)
  moreover have "st\<lparr>ts_fs := ts_fs st\<rparr> = st" by simp
  ultimately show ?thesis using f empty(1)
    by (intro exI [of _ fs']) (simp add: trustWorker_round_def keyfolder_exists MBEDTLS_ERR_FILE_IO_ERROR_def)
qed

lemma round_second:
  assumes fs: "folder_ok (ts_fs st) (key_storage w)" "length (key_storage w) < 1000"
    and ca: "view (ts_fs st) (key_storage w, ''ca.pem'') = Some ca_text" "crt_parse (tw_lib env) ca_text = (0, ca)"
    and none: "view (ts_fs st) (key_storage w, ''client.pem'') = None"
      "file_at (ts_fs st) (fresh_memory (tw_os env)) = None"
    and readable: "\<forall>p. open_read_ok (tw_os env) p"
  shows "trustWorker_round env w slot st = rbind (trustWorker_rekey env w st) (\<lambda>(r, st). clean_old_keys env w st)"
proof -
  have d: "ts_fs st (key_storage w) \<noteq> None" using ca(1) by (rule view_folder)
  moreover have "refresh_ca_trust env w None st = Inr (0, Some ca, st)"
    unfolding refresh_ca_trust_def by (rule refresh_present [OF load_ca_present [OF fs ca(1) readable ca(2)]])
  moreover have "st\<lparr>ts_fs := ts_fs st\<rparr> = st" by simp
  ultimately show ?thesis
    using load_client_absent [OF fs d none]
    by (simp add: trustWorker_round_def keyfolder_exists MBEDTLS_ERR_FILE_IO_ERROR_def)
qed

section \<open>An example environment\<close>

definition demo_os :: os_env where
  "demo_os = \<lparr>mkdir_ok = \<lambda>p. True, open_read_ok = \<lambda>p. True, open_write_ok = \<lambda>p. True, fputs_ok = \<lambda>p. True,
     rename_ok = \<lambda>p q. True, os_malloc = \<lambda>n. True, fresh_memory = ''?''\<rparr>"

text \<open>The outside counts the requests; the server answers every one with the same certificate.\<close>

definition demo_lib :: "(unit, nat, string) cert_lib" where
  "demo_lib = \<lparr>rsa_gen_key = \<lambda>x. (0, (), x), rsa_check_pub_priv = \<lambda>k. 0, pk_no_rsa = (),
     pk_write_pubkey_pem = \<lambda>k. (0, ''PUB''), pk_write_key_pem = \<lambda>k. (0, ''PRIV''),
     x509write_csr_pem = \<lambda>k sn x. ((0, ''csr''), x), popen_route = \<lambda>x. Some ''10.0.0.1'', sn_room = 64,
     ca_json_loads = \<lambda>t. if t = ''ok'' then Some (JObject [(''success'', JBool True),
       (''result'', JObject [(''certificate'', JString ''CERT'')])]) else None,
     ca_http = \<lambda>url body x. ((0, [''o'', ''k'']), Suc x), curl_handle = True, ca_alloc_ok = \<lambda>n. True,
     stale_decref_ok = True, crt_parse = \<lambda>t. (0, t), crt_verify = \<lambda>c ca x. 0,
     valid_to = \<lambda>c. \<lparr>t_year = 1970, t_mon = 1, t_day = 2, t_hour = 0, t_min = 0, t_sec = 0\<rparr>,
     now_time = \<lambda>x. 86400 - 30, zone_isdst = \<lambda>n. n \<ge> 0,
     zone_gmtoff = \<lambda>n. if n \<ge> 0 then 7200 else 3600, zone_mkoff = \<lambda>l d. if d then 7200 else 3600\<rparr>"

definition demo_env :: "(unit, nat, string) worker_env" where
  "demo_env = \<lparr>tw_lib = demo_lib, tw_os = demo_os, sizeof_crt = 548, sleep = \<lambda>n x. x\<rparr>"

definition demo_worker :: trust_worker where
  "demo_worker = \<lparr>running = True, key_storage = HARD_CODED, ca_host = ''localhost'', ca_port = 8888, refresh_interval = 5\<rparr>"

definition demo_state :: "nat trust_state" where
  "demo_state = \<lparr>ts_fs = [HARD_CODED \<mapsto> []], ts_out = 0\<rparr>"

lemmas demo_defs = demo_os_def demo_lib_def demo_env_def demo_worker_def demo_state_def

lemma demo_csr_text: "csr_text (\<lambda>n. True) 1024 ''csr'' = Inr (csr_cfssl_json ''csr'')"
proof -
  have "removeChar ''csr'' (CHR 0x0A) = ''csr''" by (simp add: removeChar_filter)
  moreover have "replace (\<lambda>n. True) ''csr'' CSR_START_DEFAULT CSR_START_CFSSL = Inr (Some (4, ''csr''))"
    using replace_eq [of CSR_START_DEFAULT CSR_START_CFSSL "''csr''" "\<lambda>n. True"]
    by (simp add: CSR_START_DEFAULT_def replace_all_step exact_block_def)
  moreover have "replace (\<lambda>n. True) ''csr'' CSR_STOP_DEFAULT CSR_STOP_CFSSL = Inr (Some (4, ''csr''))"
    using replace_eq [of CSR_STOP_DEFAULT CSR_STOP_CFSSL "''csr''" "\<lambda>n. True"]
    by (simp add: CSR_STOP_DEFAULT_def replace_all_step exact_block_def)
  ultimately show ?thesis by (simp add: csr_text_def strcpy_block_def sprintf_def csr_cfssl_json_def)
qed

lemma dec_8888: "dec_int 8888 = ''8888''"
  by (simp add: dec_int_def dec.simps digit_def char_of_def bit_iff_odd)

lemma demo_works: "curl_works demo_lib"
  by (simp add: curl_works_def demo_lib_def)

lemma demo_reply: "cfssl_ca_certget_wrapper demo_lib buf body url x = Inr (0, CStr ''CERT'', Suc x)"
proof -
  have "parse_certificate_response demo_lib ''ok'' = Inr (Some ''CERT'')"
    by (rule parse_response_good) (simp_all add: demo_lib_def reply_certificate_def json_object_get_def
      json_boolean_value_def json_string_value_def)
  then show ?thesis
    using wrapper_unfold [OF demo_works, of url body x 0 "[''o'', ''k'']" "Suc x" buf]
    by (simp add: demo_lib_def memcpy_text_def)
qed

lemma demo_route: "get_primary_public_up demo_lib ip x = Inr (0, ''10.0.0.1'')"
proof -
  have "fgets_lines 254 ''10.0.0.1'' = [''10.0.0.1'']"
    by (simp add: fgets_lines.simps [of 254 "''10.0.0.1''"] fgets_lines.simps [of 254 "[]"])
  then show ?thesis by (simp add: get_primary_public_up_def demo_lib_def removeChar_filter)
qed

lemma demo_csr: "csr_get_certificate demo_lib demo_os k buf ''localhost'' 8888 x = Inr (0, CStr ''CERT'', Suc x)"
proof -
  have "generate_csr demo_lib demo_os 1024 k x = Inr (0, csr_cfssl_json ''csr'', x)"
    unfolding generate_csr_def demo_route
    by (simp add: csr_cert_subject_name_def sprintf_def demo_lib_def demo_os_def demo_csr_text)
  then show ?thesis by (simp add: csr_get_certificate_def sprintf_def dec_8888 demo_reply)
qed

lemma demo_ready: "rekey_ready demo_env demo_worker (demo_state\<lparr>ts_out := x, ts_fs := fs\<rparr>) () x ''PUB'' ''PRIV'' \<longleftrightarrow>
    fs HARD_CODED \<noteq> None"
  by (simp add: rekey_ready_def demo_defs os_allows_writes_def generate_keypair_def) (simp add: HARD_CODED_def)

end
