(* ===== verification/Trust_Properties.thy ===== *)
theory Trust_Properties
  imports Trust_Correct
begin

text \<open>
  The properties of the trust manager: the service, the verification of certificates, the
  answers of the certificate server, and what the worker does to the key storage.
\<close>

section \<open>The service\<close>

lemma path_lengths:
  assumes "length d < 1000" "length d + 17 < (cap :: nat)"
  shows "length (d @ ''/'' @ ''client.pem'') < 1024" "length (d @ ''/'' @ ''client.pem'') < cap"
    "length (d @ ''/'' @ ''client_full.pem'') < 1024" "length (d @ ''/'' @ ''client_full.pem'') < cap"
    "length (d @ ''/'' @ ''ca.pem'') < 1024" "length (d @ ''/'' @ ''ca.pem'') < cap"
    "length (d @ ''/'' @ ''client_priv.key'') < 1024" "length (d @ ''/'' @ ''client_priv.key'') < cap"
    "length (d @ ''/'' @ ''client_pub.key'') < 1024" "length (d @ ''/'' @ ''client_pub.key'') < cap"
  using assms by simp_all

text \<open>
  The five path queries of the trust manager service: each answers 0 and the path in
  the key storage when the file of its kind is there, 1 when it is not, 2 when the storage
  folder is missing, and none of them changes the key storage (the code that removes older
  matches is never reached, since each expression matches one name).
\<close>

theorem current_files_found:
  assumes "folder_ok fs d" "tm_key_storage inst = d" "length d < 1000" "length d + 17 < cap"
  shows "trust_manager_getCurrentCertificate inst cap fp fs = Inr (current_file_spec ''client.pem'' fp d fs) \<and>
    trust_manager_getCurrentFullCertificate inst cap fp fs = Inr (current_file_spec ''client_full.pem'' fp d fs) \<and>
    trust_manager_getCurrentCaCertificate inst cap fp fs = Inr (current_file_spec ''ca.pem'' fp d fs) \<and>
    trust_manager_getCurrentPrivateKey inst cap fp fs = Inr (current_file_spec ''client_priv.key'' fp d fs) \<and>
    trust_manager_getCurrentPublicKey inst cap fp fs = Inr (current_file_spec ''client_pub.key'' fp d fs)"
  unfolding trust_manager_getCurrentCertificate_def trust_manager_getCurrentFullCertificate_def
    trust_manager_getCurrentCaCertificate_def trust_manager_getCurrentPrivateKey_def
    trust_manager_getCurrentPublicKey_def assms(2)
  by (intro conjI clientcert.search fullcert.search cacert.search privkey.search pubkey.search
    assms(1) path_lengths [OF assms(3,4)])

definition demo_tm :: trust_manager where
  "demo_tm = \<lparr>tm_name = ''trust_manager'', tm_key_storage = ''/k'', tm_ca_host = ''localhost'', tm_ca_port = 8888,
     tm_refresh_interval = 5\<rparr>"

definition demo_store :: filesys where
  "demo_store = [''/k'' \<mapsto> [(''ca.pem'', ''CA''), (''client.pem.old'', ''X''), (''client.pem'', ''CERT'')]]"

theorem current_files_found_witness:
  "trust_manager_getCurrentCertificate demo_tm 256 [] demo_store = Inr (0, ''/k/client.pem'', demo_store) \<and>
   trust_manager_getCurrentPublicKey demo_tm 256 [] demo_store = Inr (1, [], demo_store)"
  using current_files_found [of demo_store "''/k''" demo_tm 256 "[]"]
  by (simp add: demo_tm_def demo_store_def folder_ok_def current_file_spec_def)

text \<open>
  The search itself, for any set of matching names: the first match in the order of the
  folder is the answer, the next two stay, all further ones are removed, and nothing else
  in the file system changes.
\<close>

theorem search_keeps_three:
  assumes "\<not> rs_found st" "rs_skip st = 2"
    and "\<forall>n \<in> set names. length (d @ ''/'' @ n) < 1024 \<and> length (d @ ''/'' @ n) < cap"
    and "filter m names = n # ns"
  shows "\<exists>st'. rfold (recent_entry cap d m) names st = Inr st' \<and>
    rs_found st' \<and> rs_filepath st' = d @ ''/'' @ n \<and>
    rs_fs st' = fold (\<lambda>n. os_remove (d @ ''/'' @ n)) (drop 2 ns) (rs_fs st)"
  using recent_scan [OF assms(1-3), of m] assms(4) by simp

theorem search_keeps_three_witness:
  "\<exists>st'. rfold (recent_entry 256 ''/k'' (\<lambda>n. n \<noteq> ''x'')) [''x'', ''a'', ''b'', ''c'', ''d'']
      \<lparr>rs_filepath = [], rs_found = False, rs_skip = 2, rs_fs = Map.empty\<rparr> = Inr st' \<and>
    rs_found st' \<and> rs_filepath st' = ''/k'' @ ''/'' @ ''a'' \<and>
    rs_fs st' = fold (\<lambda>n. os_remove (''/k'' @ ''/'' @ n)) (drop 2 [''b'', ''c'', ''d'']) Map.empty"
  using search_keeps_three [of "\<lparr>rs_filepath = [], rs_found = False, rs_skip = 2, rs_fs = Map.empty\<rparr>"
      "[''x'', ''a'', ''b'', ''c'', ''d'']" "''/k''" 256 "\<lambda>n. n \<noteq> ''x''" "''a''" "[''b'', ''c'', ''d'']"]
  by simp

definition content_spec :: "string \<Rightarrow> string \<Rightarrow> filesys \<Rightarrow> (int \<times> string \<times> filesys) result" where
  "content_spec name d fs =
     (case file_at fs (d @ ''/'' @ name) of None \<Rightarrow> Inl ProcessExit | Some t \<Rightarrow> Inr (0, t, fs))"

context current_file
begin

lemma content_is_spec:
  assumes "folder_ok fs d" "length (d @ ''/'' @ name) < 256" "\<forall>p. open_read_ok os p"
    and "file_at fs (fresh_memory os) = None"
    and "\<forall>n t. file_at fs (d @ ''/'' @ n) = Some t \<longrightarrow> t \<noteq> [] \<and> CHR 0x00 \<notin> set t \<and> length t < cap"
  shows "get_recent_content get_recent os cap d fs = content_spec name d fs"
proof (cases "file_at fs (d @ ''/'' @ name)")
  case None
  then show ?thesis using content_absent [OF assms(1,2) None assms(4)] by (simp add: content_spec_def)
next
  case (Some t)
  with assms(3,5) have "get_recent_content get_recent os cap d fs = Inr (0, t, fs)"
    by (intro content_present [OF assms(1,2) Some]) blast+
  with Some show ?thesis by (simp add: content_spec_def)
qed

end

text \<open>
  The five contents queries return a file of the key storage whole; when the file is
  missing the process ends instead of an error code being returned.
\<close>

theorem current_contents:
  assumes "folder_ok fs d" "tm_key_storage inst = d" "length d < 239" "\<forall>p. open_read_ok os p"
    and "file_at fs (fresh_memory os) = None"
    and "\<forall>n t. file_at fs (d @ ''/'' @ n) = Some t \<longrightarrow> t \<noteq> [] \<and> CHR 0x00 \<notin> set t \<and> length t < cap"
  shows "trust_manager_getCurrentCertificateContent inst os cap fs = content_spec ''client.pem'' d fs \<and>
    trust_manager_getCurrentFullCertificateContent inst os cap fs = content_spec ''client_full.pem'' d fs \<and>
    trust_manager_getCurrentCaCertificateContent inst os cap fs = content_spec ''ca.pem'' d fs \<and>
    trust_manager_getCurrentPrivateKeyContent inst os cap fs = content_spec ''client_priv.key'' d fs \<and>
    trust_manager_getCurrentPublicKeyContent inst os cap fs = content_spec ''client_pub.key'' d fs"
proof -
  have "length d < 1000" "length d + 17 < 256" using assms(3) by simp_all
  note len = path_lengths [OF this]
  show ?thesis
    unfolding trust_manager_getCurrentCertificateContent_def trust_manager_getCurrentFullCertificateContent_def
      trust_manager_getCurrentCaCertificateContent_def trust_manager_getCurrentPrivateKeyContent_def
      trust_manager_getCurrentPublicKeyContent_def get_recent_certificate_content_def
      get_recent_full_certificate_content_def get_recent_ca_certificate_content_def
      get_recent_private_key_content_def get_recent_public_key_content_def assms(2)
    by (intro conjI clientcert.content_is_spec fullcert.content_is_spec cacert.content_is_spec
      privkey.content_is_spec pubkey.content_is_spec len(2,4,6,8,10) assms(1,4-6))
qed

lemma demo_store_texts: "file_at demo_store p = Some t \<Longrightarrow> t \<in> {''CA'', ''X'', ''CERT''}"
  by (auto simp: file_at_def demo_store_def split: option.splits if_splits)

lemma demo_store_fresh: "file_at demo_store ''?'' = None"
  by (simp add: file_at_def demo_store_def folder_of_def)

theorem current_contents_witness:
  "trust_manager_getCurrentCertificateContent demo_tm demo_os 100 demo_store = content_spec ''client.pem'' ''/k'' demo_store"
proof -
  have "\<forall>n t. file_at demo_store (''/k'' @ ''/'' @ n) = Some t \<longrightarrow> t \<noteq> [] \<and> CHR 0x00 \<notin> set t \<and> length t < 100"
    using demo_store_texts by fastforce
  then show ?thesis
    using current_contents [of demo_store "''/k''" demo_tm demo_os 100] demo_store_fresh
    by (simp add: demo_tm_def demo_os_def folder_ok_def) (simp add: demo_store_def)
qed

section \<open>Verification of certificates\<close>

text \<open>
  C37. A certificate is accepted exactly when its chain is accepted and 30 seconds of its
  validity are left, where the end of validity is taken to be as much later than it is as the
  offset of the node's zone now exceeds the one that \<open>mktime\<close> finds for that date: the code
  moves the UTC date by the offset of now, and \<open>mktime\<close> moves it back by the rules of its own
  date. In a zone that has one fixed offset for each value of the summer time flag the two cancel,
  and the comparison is with the end of validity in UTC. The threshold argument plays no role.
\<close>

definition fixed_zone :: "('k, 'x, 'c) cert_lib \<Rightarrow> bool" where
  "fixed_zone lib \<longleftrightarrow> (\<forall>l n. zone_mkoff lib l (zone_isdst lib n) = zone_gmtoff lib n)"

text \<open>How far the end of validity is moved.\<close>

definition zone_shift :: "('k, 'x, 'c) cert_lib \<Rightarrow> 'c \<Rightarrow> 'x \<Rightarrow> int" where
  "zone_shift lib c x =
     (let now = now_time lib x; off = zone_gmtoff lib now
      in off - zone_mkoff lib (utc_seconds (valid_to lib c) + off) (zone_isdst lib now))"

theorem verify_certificate_iff:
  assumes "1 \<le> t_mon (valid_to lib c)" "t_mon (valid_to lib c) \<le> 12"
    and "crt_verify lib c ca x \<noteq> -1"
  shows "(verify_certificate lib c ca threshold x = 0 \<longleftrightarrow>
      crt_verify lib c ca x = 0 \<and> utc_seconds (valid_to lib c) + zone_shift lib c x - now_time lib x \<ge> 30) \<and>
    (fixed_zone lib \<longrightarrow> zone_shift lib c x = 0)"
proof -
  have "fixed_zone lib \<longrightarrow> zone_shift lib c x = 0" by (simp add: fixed_zone_def zone_shift_def Let_def)
  moreover have "verify_certificate lib c ca threshold x = 0 \<longleftrightarrow>
      crt_verify lib c ca x = 0 \<and> utc_seconds (valid_to lib c) + zone_shift lib c x - now_time lib x \<ge> 30"
    using mktime_utc [OF assms(1,2)] assms(3)
    by (auto simp: verify_certificate_def cert_date_still_valid_def zone_shift_def Let_def REFRESH_EARLY_THRESHOLD_SECONDS_def)
  ultimately show ?thesis by blast
qed

theorem verify_certificate_iff_witness:
  "verify_certificate demo_lib ''C'' ''CA'' 7 0 = 0 \<and> zone_shift demo_lib ''C'' 0 = 0"
  using verify_certificate_iff [of demo_lib "''C''" "''CA''" 0 7]
  by (simp add: demo_lib_def utc_seconds_def days_from_civil_def fixed_zone_def zone_shift_def Let_def)

text \<open>
  A zone that was an hour behind UTC until a day in the past and is at UTC since: a certificate
  that ended before that day is accepted although it expired half an hour ago.
\<close>

definition moved_zone_lib :: "(unit, nat, string) cert_lib" where
  "moved_zone_lib = demo_lib\<lparr>now_time := \<lambda>x. 86400 + 1800, zone_isdst := \<lambda>n. False,
     zone_gmtoff := \<lambda>n. if n < 86400 + 900 then - 3600 else 0,
     zone_mkoff := \<lambda>l d. if l < 86400 + 900 then - 3600 else 0\<rparr>"

lemma expired_certificate_accepted:
  "verify_certificate moved_zone_lib ''C'' ''CA'' 0 0 = 0 \<and>
   now_time moved_zone_lib 0 - utc_seconds (valid_to moved_zone_lib ''C'') = 1800"
  by (simp add: moved_zone_lib_def demo_lib_def verify_certificate_def cert_date_still_valid_def mktime_def
      days_from_civil_def utc_seconds_def REFRESH_EARLY_THRESHOLD_SECONDS_def Let_def)

section \<open>Answers of the certificate server\<close>

text \<open>
  A transfer that curl completes delivers the certificate of the reply, blocks put
  together, when the reply is an object with a true success and a result that carries a
  certificate text.
\<close>

theorem certificate_reply_accepted:
  assumes "curl_works lib" "stale_decref_ok lib"
    and "ca_http lib url body x = ((0, blocks), x')" "CHR 0x00 \<notin> set (concat blocks)"
    and "reply_certificate (ca_json_loads lib (concat blocks)) = Some cert" "length cert < 4096"
  shows "cfssl_ca_certget_wrapper lib buf body url x = Inr (0, CStr cert, x')"
  using parse_response_good [OF assms(2,5)] assms(6)
  unfolding wrapper_unfold [OF assms(1,3)] takeWhile_no_nul [OF assms(4)]
  by (simp add: memcpy_text_def)

theorem certificate_reply_accepted_witness:
  "cfssl_ca_certget_wrapper demo_lib Unset ''{}'' ''u'' 0 = Inr (0, CStr ''CERT'', 1)"
  by (rule certificate_reply_accepted [OF demo_works, of _ _ _ "[''o'', ''k'']"])
     (simp_all add: demo_lib_def reply_certificate_def json_object_get_def json_boolean_value_def json_string_value_def)

text \<open>
  Any other completed reply (no JSON, an error answer of the server, a result without
  a certificate) makes the client dereference NULL instead of returning an error.
\<close>

theorem certificate_reply_rejected_faults:
  assumes "curl_works lib" "ca_http lib url body x = ((0, blocks), x')"
    and "reply_certificate (ca_json_loads lib (takeWhile (\<lambda>c. c \<noteq> CHR 0x00) (concat blocks))) = None"
  shows "cfssl_ca_certget_wrapper lib buf body url x = Inl NullPointer"
  using parse_response_bad [OF assms(3)] by (simp add: wrapper_unfold [OF assms(1,2)])

theorem certificate_reply_rejected_faults_witness:
  "cfssl_ca_certget_wrapper (demo_lib\<lparr>ca_http := \<lambda>url body x. ((0, [''oops'']), x)\<rparr>) Unset ''{}'' ''u'' 0 = Inl NullPointer"
  by (rule certificate_reply_rejected_faults [of _ _ _ _ "[''oops'']" 0])
     (simp_all add: curl_works_def demo_lib_def reply_certificate_def json_object_get_def json_boolean_value_def)

section \<open>The worker\<close>

lemma no_slash_file: "CHR ''/'' \<notin> set p \<Longrightarrow> fs ''.'' = None \<Longrightarrow> file_at fs p = None"
proof -
  assume a: "CHR ''/'' \<notin> set p" "fs ''.'' = None"
  then have "dropWhile (\<lambda>c. c \<noteq> CHR ''/'') (rev p) = []" by (auto simp: dropWhile_eq_Nil_conv)
  then have "folder_of p = ''.''" by (simp only: folder_of_def list.case)
  with a show ?thesis by (simp add: file_at_def)
qed

lemma trust_state_update_swap: "st\<lparr>ts_fs := a, ts_out := b\<rparr> = st\<lparr>ts_out := b, ts_fs := a\<rparr>"
  by simp

text \<open>
  C31. A rekey that the certificate server answers writes the new public key, private key
  and certificate into their files, puts the three in this order into the full certificate
  by a rename, removes the intermediate file and touches nothing else.
\<close>

theorem rekey_replaces_all:
  assumes "rekey_ready env w st k x pub priv"
    and "csr_get_certificate (tw_lib env) (tw_os env) k Unset (ca_host w) (ca_port w) x = Inr (0, CStr cert, x')"
    and "rename_ok (tw_os env) FULL_NEXT (key_storage w @ ''/client_full.pem'')"
  shows "\<exists>fs. trustWorker_rekey env w st = Inr (0, st\<lparr>ts_out := x', ts_fs := fs\<rparr>) \<and>
    view fs = (view (ts_fs st))(
      (key_storage w, ''client_pub.key'') \<mapsto> pub, (key_storage w, ''client_priv.key'') \<mapsto> priv,
      (key_storage w, ''client.pem'') \<mapsto> cert, (HARD_CODED, ''client_full.pem.next'') := None,
      (key_storage w, ''client_full.pem'') \<mapsto> pub @ priv @ cert)"
  using rekey_done [OF assms] by blast

theorem rekey_replaces_all_witness:
  "\<exists>fs. trustWorker_rekey demo_env demo_worker demo_state = Inr (0, demo_state\<lparr>ts_out := 1, ts_fs := fs\<rparr>) \<and>
     view fs (HARD_CODED, ''client_full.pem'') = Some ''PUBPRIVCERT''"
proof -
  have "rekey_ready demo_env demo_worker demo_state () 0 ''PUB'' ''PRIV''"
    using demo_ready [where x = 0 and fs = "[HARD_CODED \<mapsto> []]"] by (simp add: demo_state_def)
  moreover have "csr_get_certificate (tw_lib demo_env) (tw_os demo_env) () Unset (ca_host demo_worker) (ca_port demo_worker) 0
      = Inr (0, CStr ''CERT'', 1)" using demo_csr [of "()" Unset 0] by (simp add: demo_env_def demo_worker_def)
  moreover have "rename_ok (tw_os demo_env) FULL_NEXT (key_storage demo_worker @ ''/client_full.pem'')"
    by (simp add: demo_env_def demo_os_def)
  ultimately have "\<exists>fs. trustWorker_rekey demo_env demo_worker demo_state = Inr (0, demo_state\<lparr>ts_out := 1, ts_fs := fs\<rparr>) \<and>
    view fs = (view (ts_fs demo_state))(
      (key_storage demo_worker, ''client_pub.key'') \<mapsto> ''PUB'', (key_storage demo_worker, ''client_priv.key'') \<mapsto> ''PRIV'',
      (key_storage demo_worker, ''client.pem'') \<mapsto> ''CERT'', (HARD_CODED, ''client_full.pem.next'') := None,
      (key_storage demo_worker, ''client_full.pem'') \<mapsto> ''PUB'' @ ''PRIV'' @ ''CERT'')"
    by (rule rekey_replaces_all)
  then show ?thesis by (auto simp: demo_worker_def)
qed

text \<open>
  When the certificate server cannot be reached, a rekey has already replaced the two
  key files while the client certificate and the full certificate are the old ones: the
  certificate in use no longer belongs to the private key beside it.
\<close>

theorem rekey_failure_splits_keys:
  assumes "rekey_ready env w st k x pub priv"
    and "csr_get_certificate (tw_lib env) (tw_os env) k Unset (ca_host w) (ca_port w) x = Inr (res, buf, x')"
    and "res \<noteq> 0"
  shows "\<exists>fs. trustWorker_rekey env w st = Inr (res, st\<lparr>ts_fs := fs, ts_out := x'\<rparr>) \<and>
    view fs (key_storage w, ''client_priv.key'') = Some priv \<and>
    view fs (key_storage w, ''client_pub.key'') = Some pub \<and>
    view fs (key_storage w, ''client.pem'') = view (ts_fs st) (key_storage w, ''client.pem'') \<and>
    view fs (key_storage w, ''client_full.pem'') = view (ts_fs st) (key_storage w, ''client_full.pem'')"
proof -
  obtain fs where fs: "view fs = keys_view (key_storage w) pub priv (ts_fs st)"
      "trustWorker_rekey env w st = Inr (res, st\<lparr>ts_fs := fs, ts_out := x'\<rparr>)"
    using rekey_keys_written [OF assms(1)] assms(2,3) by (auto simp: Let_def)
  then show ?thesis by (intro exI [of _ fs]) (simp add: keys_view_def)
qed

definition offline_env :: "(unit, nat, string) worker_env" where
  "offline_env = demo_env\<lparr>tw_lib := demo_lib\<lparr>ca_http := \<lambda>url body x. ((7, []), Suc x)\<rparr>\<rparr>"

lemma offline_works: "curl_works (tw_lib offline_env)"
  by (simp add: curl_works_def offline_env_def demo_lib_def)

lemma offline_csr:
  "csr_get_certificate (tw_lib offline_env) (tw_os offline_env) () Unset (ca_host demo_worker) (ca_port demo_worker) 0
    = Inr (7, Unset, 1)"
proof -
  have "generate_csr (tw_lib offline_env) demo_os 1024 () 0 = generate_csr demo_lib demo_os 1024 () 0"
    by (simp add: generate_csr_def get_primary_public_up_def offline_env_def)
  also have "\<dots> = Inr (0, csr_cfssl_json ''csr'', 0)"
    unfolding generate_csr_def demo_route
    by (simp add: csr_cert_subject_name_def sprintf_def demo_lib_def demo_os_def demo_csr_text)
  finally show ?thesis
    using wrapper_unfold [OF offline_works, of _ _ 0 7 "[]" 1 Unset]
    by (simp add: csr_get_certificate_def sprintf_def dec_8888 demo_worker_def offline_env_def demo_env_def)
qed

theorem rekey_failure_splits_keys_witness:
  "\<exists>fs. trustWorker_rekey offline_env demo_worker demo_state = Inr (7, demo_state\<lparr>ts_fs := fs, ts_out := 1\<rparr>) \<and>
    view fs (HARD_CODED, ''client_priv.key'') = Some ''PRIV'' \<and> view fs (HARD_CODED, ''client.pem'') = None"
proof -
  have "rekey_ready offline_env demo_worker demo_state () 0 ''PUB'' ''PRIV''"
    by (simp add: rekey_ready_def offline_env_def demo_defs os_allows_writes_def generate_keypair_def)
       (simp add: HARD_CODED_def)
  from rekey_failure_splits_keys [OF this offline_csr] show ?thesis
    by (auto simp: demo_worker_def) (auto simp: demo_state_def view_def)
qed

text \<open>
  The full certificate is always assembled in one fixed folder. With another key
  storage configured, on a node where that folder does not exist, the first write of a
  rekey is made through a NULL file.
\<close>

theorem rekey_needs_fixed_folder:
  assumes "key_storage w \<noteq> []" "length (key_storage w) < 1000" "ts_fs st HARD_CODED = None"
    and "get_public_key (tw_lib env) (fst (snd (generate_keypair (tw_lib env) (ts_out st)))) Unset = (0, CStr pub)"
    and "ts_fs st (key_storage w) \<noteq> None" "os_allows_writes (tw_os env)"
  shows "trustWorker_rekey env w st = Inl NullPointer"
proof -
  let ?p = "key_storage w @ ''/client_pub.key''"
  obtain r k x where g: "generate_keypair (tw_lib env) (ts_out st) = (r, k, x)"
    by (cases "generate_keypair (tw_lib env) (ts_out st)")
  have kp: "key ?p = (key_storage w, ''client_pub.key'')" using assms(1) by simp
  then obtain fs where fs: "write_pem_to_file (tw_os env) (CStr pub) ?p False (ts_fs st) = Inr (0, fs)"
      "keeps_folders (ts_fs st) fs"
    using write_pem_view [of "ts_fs st" ?p "tw_os env" pub False] assms(5,6) folder_of_key [OF kp] by auto
  then have "fs HARD_CODED = None" using assms(3) by (simp add: keeps_folders_def)
  then have "write_pem_to_file (tw_os env) (CStr pub) FULL_NEXT False fs = Inl NullPointer"
    using folder_of_key [OF key_FULL_NEXT] by (simp add: write_pem_to_file_def)
  with fs(1) have "rekey_write (tw_os env) (CStr pub) ?p False (ts_fs st) = Inl NullPointer"
    by (simp add: rekey_write_def)
  then show ?thesis using g assms(2,4) by (simp add: trustWorker_rekey_def next_paths Let_def)
qed

theorem rekey_needs_fixed_folder_witness:
  "trustWorker_rekey demo_env (demo_worker\<lparr>key_storage := ''/etc/keys''\<rparr>)
     (demo_state\<lparr>ts_fs := [''/etc/keys'' \<mapsto> []]\<rparr>) = Inl NullPointer"
  by (rule rekey_needs_fixed_folder [of _ _ _ "''PUB''"])
     (simp_all add: demo_defs HARD_CODED_def get_public_key_def memcpy_text_def os_allows_writes_def)

text \<open>
  With no CA certificate stored and no server that answers, the refresh of the trust
  ends after exactly four requests, leaves the key storage alone and reports the failure.
\<close>

theorem refresh_gives_up:
  assumes "folder_ok (ts_fs st) (key_storage w)" "length (key_storage w) < 1000"
    and "ts_fs st (key_storage w) \<noteq> None" "view (ts_fs st) (key_storage w, ''ca.pem'') = None"
    and "file_at (ts_fs st) (fresh_memory (tw_os env)) = None"
    and "curl_works (tw_lib env)" "length (ca_host w) < 450" "length (dec_int (ca_port w)) < 12"
    and "\<forall>url body x. ca_http (tw_lib env) url body x = ((res, blocks), f x)" "res \<noteq> 0"
  shows "refresh_ca_trust env w None st =
    Inr (1 + MBEDTLS_ERR_FILE_IO_ERROR, None, st\<lparr>ts_out := (f ^^ 4) (ts_out st)\<rparr>)"
proof -
  have load: "load_ca env w None (st\<lparr>ts_out := x\<rparr>) = Inr (1 + MBEDTLS_ERR_FILE_IO_ERROR, None)" for x
    by (rule load_ca_absent) (use assms in simp_all)
  have fetch: "fetch_ca env w (st\<lparr>ts_out := x\<rparr>) = Inr (st\<lparr>ts_out := f x\<rparr>)" for x
    using request_ca_fails [OF assms(6-8) _ assms(10), of x blocks "f x" Unset] assms(9,10)
    by (simp add: fetch_ca_def next_paths [OF assms(2)])
  have "(1 + MBEDTLS_ERR_FILE_IO_ERROR :: int) \<noteq> 0" by (simp add: MBEDTLS_ERR_FILE_IO_ERROR_def)
  from refresh_unreachable [OF load this fetch, of 3 "ts_out st"] show ?thesis
    by (simp add: refresh_ca_trust_def eval_nat_numeral)
qed

theorem refresh_gives_up_witness:
  "refresh_ca_trust offline_env demo_worker None demo_state =
    Inr (1 + MBEDTLS_ERR_FILE_IO_ERROR, None, demo_state\<lparr>ts_out := 4\<rparr>)"
proof -
  have "refresh_ca_trust offline_env demo_worker None demo_state =
    Inr (1 + MBEDTLS_ERR_FILE_IO_ERROR, None, demo_state\<lparr>ts_out := (Suc ^^ 4) (ts_out demo_state)\<rparr>)"
    by (rule refresh_gives_up [of _ _ _ 7 "[]"], simp_all add: offline_works)
       (simp_all add: folder_ok_def demo_defs offline_env_def view_def file_at_def folder_of_def dec_8888 HARD_CODED_def)
  then show ?thesis by (simp add: demo_state_def)
qed

text \<open>
  A round of the worker over a storage whose CA certificate and client certificate
  load and verify changes nothing; when the client certificate does not verify, the round
  is a rekey.
\<close>

theorem round_keeps_valid_certificate:
  assumes "folder_ok (ts_fs st) (key_storage w)" "length (key_storage w) < 1000"
    and "view (ts_fs st) (key_storage w, ''ca.pem'') = Some ca_text" "crt_parse (tw_lib env) ca_text = (0, ca)"
    and "view (ts_fs st) (key_storage w, ''client.pem'') = Some t" "crt_parse (tw_lib env) t = (0, c)"
    and "\<forall>p. open_read_ok (tw_os env) p"
  shows "trustWorker_round env w slot st =
    (if verify_certificate (tw_lib env) c ca 0 (ts_out st) = 0 then Inr st
     else rbind (trustWorker_rekey env w st) (\<lambda>(r, st). clean_old_keys env w st))"
  by (rule round_valid [OF assms])

theorem round_keeps_valid_certificate_witness:
  "trustWorker_round demo_env demo_worker False \<lparr>ts_fs = [HARD_CODED \<mapsto> [(''ca.pem'', ''CA''), (''client.pem'', ''C'')]], ts_out = 0\<rparr>
   = Inr \<lparr>ts_fs = [HARD_CODED \<mapsto> [(''ca.pem'', ''CA''), (''client.pem'', ''C'')]], ts_out = 0\<rparr>"
proof -
  have "verify_certificate demo_lib ''C'' ''CA'' 0 0 = 0"
    by (simp add: verify_certificate_def cert_date_still_valid_def demo_lib_def mktime_def days_from_civil_def
      REFRESH_EARLY_THRESHOLD_SECONDS_def Let_def)
  then show ?thesis
    using round_keeps_valid_certificate [of "\<lparr>ts_fs = [HARD_CODED \<mapsto> [(''ca.pem'', ''CA''), (''client.pem'', ''C'')]], ts_out = 0\<rparr>"
        demo_worker "''CA''" demo_env "''CA''" "''C''" "''C''" False]
    by (simp add: folder_ok_def demo_defs view_def) (simp add: HARD_CODED_def)
qed

text \<open>
  C13. Bootstrap: from an empty key storage, with a certificate server that answers both
  requests, two rounds of the worker end with the CA certificate, the public and the private key,
  the client certificate and the full certificate (keys and certificate one after the other) in
  place. The first round only fetches the CA certificate, and it survives the release of a pointer
  that was never assigned only if that slot happens to be NULL.
\<close>

theorem bootstrap_in_two_rounds:
  assumes fs: "folder_ok (ts_fs st) (key_storage w)" "length (key_storage w) < 1000"
      "length (key_storage w) + 17 < sizeof_crt env"
    and empty: "ts_fs st (key_storage w) \<noteq> None" "view (ts_fs st) (key_storage w, ''ca.pem'') = None"
      "view (ts_fs st) (key_storage w, ''client.pem'') = None" "CHR ''/'' \<notin> set (fresh_memory (tw_os env))"
      "ts_fs st ''.'' = None" "ts_fs st HARD_CODED \<noteq> None"
    and os: "os_allows_writes (tw_os env)" "\<forall>p. open_read_ok (tw_os env) p" "\<forall>p q. rename_ok (tw_os env) p q"
    and ca: "request_ca_certificate (tw_lib env) Unset (ca_host w) (ca_port w) (ts_out st) = Inr (0, CStr ca_text, x1)"
      "crt_parse (tw_lib env) ca_text = (0, ca)"
    and keys: "generate_keypair (tw_lib env) (sleep env (refresh_interval w) x1) = (0, k, x)"
      "pk_write_pubkey_pem (tw_lib env) k = (0, pub)" "length pub < 4096"
      "pk_write_key_pem (tw_lib env) k = (0, priv)" "length priv < 4096"
    and csr: "csr_get_certificate (tw_lib env) (tw_os env) k Unset (ca_host w) (ca_port w) x = Inr (0, CStr cert, x')"
  shows "\<exists>fs'. view fs' (key_storage w, ''ca.pem'') = Some ca_text \<and>
      view fs' (key_storage w, ''client_pub.key'') = Some pub \<and>
      view fs' (key_storage w, ''client_priv.key'') = Some priv \<and>
      view fs' (key_storage w, ''client.pem'') = Some cert \<and>
      view fs' (key_storage w, ''client_full.pem'') = Some (pub @ priv @ cert) \<and>
      trustWorker_run env w [(True, True, slot1), (True, True, slot2)] st =
        (if slot1
         then Inr (True, st\<lparr>ts_out := sleep env (refresh_interval w) x', ts_fs := fs'\<rparr>) else Inl InvalidFree)"
proof -
  let ?d = "key_storage w"
  have ne: "?d \<noteq> []" using fs(1) by (simp add: folder_ok_def)
  have "file_at (ts_fs st) (fresh_memory (tw_os env)) = None"
    using no_slash_file [of _ "ts_fs st"] empty(4,5) by blast
  then obtain fs1 where r1: "view fs1 = (view (ts_fs st))((?d, ''ca.pem'') \<mapsto> ca_text)" "keeps_folders (ts_fs st) fs1"
    "trustWorker_round env w slot1 st = (if slot1 then Inr (st\<lparr>ts_out := x1, ts_fs := fs1\<rparr>) else Inl InvalidFree)"
    using round_first [OF fs(1,2) empty(1,2) _ os(1,2) ca] by blast
  let ?st1 = "st\<lparr>ts_out := sleep env (refresh_interval w) x1, ts_fs := fs1\<rparr>"
  have f1: "folder_ok fs1 ?d" "fs1 ?d \<noteq> None" "fs1 HARD_CODED \<noteq> None" "fs1 ''.'' = None"
    using r1(2) fs(1) empty by (auto simp: keeps_folders_def)
  have ready: "rekey_ready env w ?st1 k x pub priv"
    using ne fs(2) f1 os(1) keys by (simp add: rekey_ready_def)
  obtain fs2 where r2: "trustWorker_rekey env w ?st1 = Inr (0, ?st1\<lparr>ts_out := x', ts_fs := fs2\<rparr>)"
    "view fs2 = (view fs1)(
      (?d, ''client_pub.key'') \<mapsto> pub, (?d, ''client_priv.key'') \<mapsto> priv,
      (?d, ''client.pem'') \<mapsto> cert, (HARD_CODED, ''client_full.pem.next'') := None,
      (?d, ''client_full.pem'') \<mapsto> pub @ priv @ cert)" "keeps_folders fs1 fs2"
    using rekey_done [OF ready csr] os(3) by auto
  have "trustWorker_round env w slot2 ?st1 = rbind (trustWorker_rekey env w ?st1) (\<lambda>(r, st). clean_old_keys env w st)"
    by (rule round_second [OF _ fs(2) _ ca(2)])
       (use f1 r1(1) empty(3) os(2) no_slash_file [of _ fs1] empty(4) f1(4) in simp_all)
  moreover have "clean_old_keys env w (?st1\<lparr>ts_out := x', ts_fs := fs2\<rparr>) = Inr (?st1\<lparr>ts_out := x', ts_fs := fs2\<rparr>)"
    by (rule clean_old_keys_id) (use keeps_foldersD(2) [OF r2(3) f1(1)] fs(2,3) in simp_all)
  ultimately have "trustWorker_round env w slot2 ?st1 = Inr (st\<lparr>ts_out := x', ts_fs := fs2\<rparr>)"
    using r2(1) by simp
  then show ?thesis using r1(1,3) r2(2)
    by (intro exI [of _ fs2]) (simp add: trust_state_update_swap)
qed

lemma demo_request_ca:
  "request_ca_certificate demo_lib Unset ''localhost'' 8888 x = Inr (0, CStr ''CERT'', Suc x)"
  by (simp add: request_ca_certificate_def sprintf_def dec_8888 demo_reply)

theorem bootstrap_in_two_rounds_witness:
  "\<exists>fs'. view fs' (HARD_CODED, ''client_pub.key'') = Some ''PUB'' \<and>
     view fs' (HARD_CODED, ''client_full.pem'') = Some ''PUBPRIVCERT'' \<and>
     trustWorker_run demo_env demo_worker [(True, True, True), (True, True, False)] demo_state =
       Inr (True, demo_state\<lparr>ts_out := 2, ts_fs := fs'\<rparr>)"
proof -
  have "\<exists>fs'. view fs' (key_storage demo_worker, ''ca.pem'') = Some ''CERT'' \<and>
      view fs' (key_storage demo_worker, ''client_pub.key'') = Some ''PUB'' \<and>
      view fs' (key_storage demo_worker, ''client_priv.key'') = Some ''PRIV'' \<and>
      view fs' (key_storage demo_worker, ''client.pem'') = Some ''CERT'' \<and>
      view fs' (key_storage demo_worker, ''client_full.pem'') = Some (''PUB'' @ ''PRIV'' @ ''CERT'') \<and>
      trustWorker_run demo_env demo_worker [(True, True, True), (True, True, False)] demo_state =
        (if True
         then Inr (True, demo_state\<lparr>ts_out := sleep demo_env (refresh_interval demo_worker) 2, ts_fs := fs'\<rparr>)
         else Inl InvalidFree)"
  proof (rule bootstrap_in_two_rounds)
    show "request_ca_certificate (tw_lib demo_env) Unset (ca_host demo_worker) (ca_port demo_worker) (ts_out demo_state)
        = Inr (0, CStr ''CERT'', 1)"
      using demo_request_ca [of 0] by (simp add: demo_env_def demo_worker_def demo_state_def)
    show "csr_get_certificate (tw_lib demo_env) (tw_os demo_env) () Unset (ca_host demo_worker) (ca_port demo_worker) 1
        = Inr (0, CStr ''CERT'', 2)"
      using demo_csr [of "()" Unset 1] by (simp add: demo_env_def demo_worker_def)
  qed (simp_all add: demo_defs folder_ok_def view_def os_allows_writes_def generate_keypair_def HARD_CODED_def)
  then show ?thesis by (auto simp: demo_env_def demo_worker_def)
qed

end
