(* ===== verification/Rsa_Registrations.thy ===== *)
theory Rsa_Registrations
  imports Wiring_Admin Json
begin

text \<open>
  The objects of the remote service admin: endpoint descriptions
  (\<^verbatim>\<open>endpoint_description.c\<close>), export registrations
  (\<^verbatim>\<open>export_registration_dfi.c\<close>), which call a local service for a remote client, and
  import registrations (\<^verbatim>\<open>import_registration_dfi.c\<close>), which hand out proxies of a remote
  service, one per bundle and counted.

  They are heap objects that several tables share by pointer. The state \<open>rsa_state\<close> has one
  heap per kind of object, beside the tables of the remote service admin itself
  (\<^verbatim>\<open>struct remote_service_admin\<close>) and the outside world, which framework calls, called
  services and listeners may change. The mutexes inside a registration only order other
  threads and are left out; the five locks of the admin are kept, because its calls are
  re-entered while they are held.
\<close>

section \<open>Objects\<close>

type_synonym ep_ptr = nat
type_synonym exp_ptr = nat
type_synonym imp_ptr = nat
type_synonym proxy_ptr = nat
type_synonym send_ptr = nat
type_synonym bundle_pt = nat

record endpoint_description =
  frameworkUUID :: "string option"
  ep_id :: "string option"
  ep_service :: "string option"
  ep_properties :: properties
  ep_serviceId :: "64 word"

text \<open>\<^verbatim>\<open>servId\<close> and \<^verbatim>\<open>closed\<close> of the struct are never read and are left out.\<close>

record export_registration =
  er_endpoint :: "ep_ptr option"
  er_reference :: service_reference
  er_intf :: "nat option"
  er_tracker :: tracker
  er_service :: "nat option"

text \<open>The table of a proxy starts with the registration, the closures of the methods follow.\<close>

record service_proxy =
  sp_intf :: nat
  sp_service :: nat
  sp_table :: "imp_ptr \<times> nat list"
  sp_count :: "64 word"

text \<open>The send function is stored with its handle; the factory is there as long as the registration is.\<close>

record import_registration =
  ir_endpoint :: ep_ptr
  ir_classObject :: string
  ir_send :: "(nat \<times> nat) option"
  ir_factoryReg :: "registration option"
  ir_proxies :: "(bundle_pt \<times> proxy_ptr) list"

record 'x rsa_state =
  eps :: "ep_ptr \<Rightarrow> endpoint_description option"
  exps :: "exp_ptr \<Rightarrow> export_registration option"
  imps :: "imp_ptr \<Rightarrow> import_registration option"
  proxs :: "proxy_ptr \<Rightarrow> service_proxy option"
  sends :: "send_ptr \<Rightarrow> wiring_send_service option"
  rcvs :: "nat \<Rightarrow> string option option"
  exportedServices :: "(service_reference \<times> exp_ptr list) list"
  importedServices :: "(ep_ptr \<times> imp_ptr option) list"
  rsa_receiveServices :: "(string \<times> nat) list"
  rsa_receiveRegistrations :: "(string \<times> registration) list"
  exportedWires :: "(wed_ptr \<times> string option) list"
  sendServices :: "(string \<times> send_ptr) list"
  rsa_listenerList :: "(service_reference \<times> unit) list"
  wtmList :: "nat list"
  rsa_registration :: "registration option"
  held :: "string list"
  outside :: 'x

section \<open>The framework and the libraries\<close>

datatype kind = EndpointKind | ExportKind | ReferenceKind | ImportKind | ProxyKind | TableKind | ReceiverKind

text \<open>
  What Celix, libdfi, jansson, the C library and the services of other bundles answer.
  Opening a tracker and unregistering a service answer the callbacks the framework makes
  meanwhile. \<open>unlock_free_ok\<close> is whether the platform tolerates the unlocking of a mutex that
  nobody holds.
\<close>

record 'x rsa_env =
  rsa_cx :: celix
  rsa_calloc :: "kind \<Rightarrow> 'x rsa_state \<Rightarrow> nat option"
  rsa_uuid :: "'x rsa_state \<Rightarrow> string"
  sr_status :: "service_reference \<Rightarrow> string \<Rightarrow> celix_status"
  sr_keys :: "service_reference \<Rightarrow> string list"
  sr_bundle :: "service_reference \<Rightarrow> celix_status \<times> bundle_pt"
  getServiceReferences :: "string \<Rightarrow> 'x \<Rightarrow> service_reference list"
  ungetServiceReference :: "service_reference \<Rightarrow> celix_status"
  bundle_getEntry :: "bundle_pt \<Rightarrow> string \<Rightarrow> celix_status \<times> string option"
  rsa_fopen :: "string \<Rightarrow> bool"
  dynInterface_parse :: "string \<Rightarrow> int \<times> nat option"
  dynInterface_methods :: "nat \<Rightarrow> nat list"
  dynFunction_createClosure :: "nat \<Rightarrow> int \<times> nat"
  jsonRpc_call :: "nat option \<Rightarrow> nat option \<Rightarrow> string option \<Rightarrow> 'x \<Rightarrow> celix_status \<times> string option \<times> 'x"
  rsa_customizer :: celix_status
  rsa_createTracker :: "string \<Rightarrow> celix_status \<times> tracker"
  er_open :: "tracker \<Rightarrow> nat list"
  er_close :: "tracker \<Rightarrow> nat list"
  registerServiceFactory :: "string \<Rightarrow> imp_ptr \<Rightarrow> celix_status \<times> registration"
  ir_unregister :: "registration \<Rightarrow> (bundle_pt \<times> nat) list"
  rsa_json_loads :: "string \<Rightarrow> json option"
  rsa_json_dumps :: "json \<Rightarrow> string option"
  registerReceive :: "nat \<Rightarrow> properties \<Rightarrow> 'x \<Rightarrow> celix_status \<times> registration \<times> 'x"
  unregisterReceive :: "registration \<Rightarrow> 'x \<Rightarrow> celix_status \<times> 'x"
  send_service :: "send_ptr \<Rightarrow> string option \<Rightarrow> string option \<times> int \<Rightarrow> 'x \<Rightarrow> celix_status \<times> (string option \<times> int) \<times> 'x"
  rsa_sleep :: "'x \<Rightarrow> 'x"
  send_open :: "celix_status \<times> (service_reference \<times> send_ptr) list"
  send_close :: "celix_status \<times> send_ptr list"
  send_destroy :: celix_status
  rsa_getService :: "service_reference \<Rightarrow> celix_status"
  endpointAdded :: "service_reference \<Rightarrow> endpoint_description \<Rightarrow> string option \<Rightarrow> 'x \<Rightarrow> celix_status \<times> 'x"
  wtm_export :: "nat \<Rightarrow> properties \<Rightarrow> 'x rsa_state world \<Rightarrow> (celix_status \<times> 'x rsa_state world) result"
  wtm_import :: "nat \<Rightarrow> properties \<Rightarrow> 'x rsa_state world \<Rightarrow> (celix_status \<times> 'x rsa_state world) result"
  registerAdmin :: "celix_status \<times> registration"
  unlock_free_ok :: bool
  OSGI_RSA_ENDPOINT_SERVICE_ID :: string
  OSGI_RSA_ENDPOINT_ID :: string
  OSGI_RSA_SERVICE_EXPORTED_INTERFACES :: string
  OSGI_RSA_SERVICE_IMPORTED :: string
  OSGI_RSA_SERVICE_IMPORTED_CONFIGS :: string
  OSGI_ENDPOINT_LISTENER_SCOPE :: string

text \<open>An address in use is no answer of an allocator and counts as a refusal.\<close>

definition new_object :: "'x rsa_env \<Rightarrow> kind \<Rightarrow> (nat \<Rightarrow> bool) \<Rightarrow> 'x rsa_state \<Rightarrow> nat option" where
  "new_object env k used s =
     (case rsa_calloc env k s of None \<Rightarrow> None | Some a \<Rightarrow> if used a then None else Some a)"

text \<open>Access through a pointer.\<close>

definition deref :: "('p \<Rightarrow> 'o option) \<Rightarrow> 'p \<Rightarrow> 'o result" where
  "deref h p = (case h p of None \<Rightarrow> Inl UseAfterFree | Some v \<Rightarrow> Inr v)"

lemma deref_eq_Inr [simp]: "deref h p = Inr v \<longleftrightarrow> h p = Some v"
  by (simp add: deref_def split: option.split)

lemma new_object_Some: "new_object env k used s = Some a \<Longrightarrow> \<not> used a"
  by (simp add: new_object_def split: option.splits if_splits)

section \<open>Endpoint descriptions\<close>

definition endpointDescription_verifyLongProperty :: "celix \<Rightarrow> properties \<Rightarrow> string \<Rightarrow> celix_status \<times> int" where
  "endpointDescription_verifyLongProperty cx p name =
     (CELIX_SUCCESS, case properties_get cx p name of None \<Rightarrow> 0 | Some value \<Rightarrow> fst (strtol10 value))"

definition endpointDescription_create ::
    "'x rsa_env \<Rightarrow> properties \<Rightarrow> 'x rsa_state \<Rightarrow> (celix_status \<times> ep_ptr \<times> 'x rsa_state) result" where
  "endpointDescription_create env p s =
     (let cx = rsa_cx env;
          serviceId = snd (endpointDescription_verifyLongProperty cx p (OSGI_RSA_ENDPOINT_SERVICE_ID env));
          ep = \<lparr>frameworkUUID = properties_get cx p (OSGI_RSA_ENDPOINT_FRAMEWORK_UUID cx),
                ep_id = properties_get cx p (OSGI_RSA_ENDPOINT_ID env),
                ep_service = properties_get cx p (OSGI_FRAMEWORK_OBJECTCLASS cx),
                ep_properties = p, ep_serviceId = word_of_int serviceId\<rparr>
      in case new_object env EndpointKind (\<lambda>a. eps s a \<noteq> None) s of
           None \<Rightarrow> Inl NullPointer
         | Some a \<Rightarrow>
             Inr (if frameworkUUID ep = None \<or> ep_id ep = None \<or> ep_service ep = None
                  then CELIX_BUNDLE_EXCEPTION else CELIX_SUCCESS,
                  a, s\<lparr>eps := (eps s)(a \<mapsto> ep)\<rparr>))"

definition endpointDescription_destroy :: "ep_ptr \<Rightarrow> 'x rsa_state \<Rightarrow> (celix_status \<times> 'x rsa_state) result" where
  "endpointDescription_destroy a s =
     rbind (deref (eps s) a) (\<lambda>ep. Inr (CELIX_SUCCESS, s\<lparr>eps := (eps s)(a := None)\<rparr>))"

section \<open>Export registrations\<close>

definition exportRegistration_destroy :: "exp_ptr \<Rightarrow> 'x rsa_state \<Rightarrow> 'x rsa_state result" where
  "exportRegistration_destroy a s =
     rbind (deref (exps s) a) (\<lambda>reg.
     rbind (case er_endpoint reg of
              None \<Rightarrow> Inr s
            | Some ep \<Rightarrow> rbind (endpointDescription_destroy ep s) (\<lambda>(st, s). Inr s)) (\<lambda>s.
       Inr (s\<lparr>exps := (exps s)(a := None)\<rparr>)))"

text \<open>The macro \<^verbatim>\<open>CELIX_DO_IF\<close>, for a call that also answers a value.\<close>

definition do_if :: "celix_status \<Rightarrow> 'a \<Rightarrow> celix_status \<times> 'a \<Rightarrow> celix_status \<times> 'a" where
  "do_if status none call = (if status = CELIX_SUCCESS then call else (status, none))"

text \<open>The interface of a service is parsed from the file that its bundle has for the name.\<close>

definition parse_descriptor :: "'x rsa_env \<Rightarrow> string \<Rightarrow> celix_status \<times> nat option" where
  "parse_descriptor env file =
     (if rsa_fopen env file
      then (case dynInterface_parse env file of (rc, intf) \<Rightarrow>
              (if rc \<noteq> 0 then CELIX_BUNDLE_EXCEPTION else CELIX_SUCCESS, intf))
      else (CELIX_BUNDLE_EXCEPTION, None))"

definition export_tracker :: "'x rsa_env \<Rightarrow> string option \<Rightarrow> (celix_status \<times> tracker) result" where
  "export_tracker env servId =
     (if rsa_customizer env \<noteq> CELIX_SUCCESS then Inr (rsa_customizer env, 0)
      else case servId of
        None \<Rightarrow> Inl NullPointer
      | Some i \<Rightarrow> Inr (rsa_createTracker env (snprintf 32 (''(service.id='' @ i @ '')''))))"

definition exportRegistration_create ::
    "'x rsa_env \<Rightarrow> service_reference \<Rightarrow> ep_ptr option \<Rightarrow> 'x rsa_state \<Rightarrow>
     (celix_status \<times> exp_ptr option \<times> 'x rsa_state) result" where
  "exportRegistration_create env reference endpoint s =
     (let cx = rsa_cx env;
          servId = serviceReference_getProperty cx reference ''service.id'';
          status = sr_status env reference ''service.id'';
          reg = (if status = CELIX_SUCCESS then new_object env ExportKind (\<lambda>a. exps s a \<noteq> None) s else None);
          status = (if status = CELIX_SUCCESS \<and> reg = None then CELIX_ENOMEM else status);
          (status, exports) = do_if status None
             (sr_status env reference (OSGI_RSA_SERVICE_EXPORTED_INTERFACES env),
              serviceReference_getProperty cx reference (OSGI_RSA_SERVICE_EXPORTED_INTERFACES env));
          (status, bundle) = do_if status 0 (sr_bundle env reference)
      in rbind (if status = CELIX_SUCCESS
                then (case exports of
                        None \<Rightarrow> Inl NullPointer
                      | Some e \<Rightarrow> Inr (bundle_getEntry env bundle (snprintf 128 (e @ ''.descriptor''))))
                else Inr (status, None)) (\<lambda>(status, descriptorFile).
         let status = (if descriptorFile = None then CELIX_ILLEGAL_ARGUMENT else status);
             (status, intf) = do_if status None (parse_descriptor env (the descriptorFile))
         in rbind (if status = CELIX_SUCCESS then export_tracker env servId else Inr (status, 0)) (\<lambda>(status, tracker).
              case reg of
                None \<Rightarrow> Inr (status, None, s)
              | Some a \<Rightarrow>
                  let s = s\<lparr>exps := (exps s)(a \<mapsto> \<lparr>er_endpoint = endpoint, er_reference = reference,
                             er_intf = intf, er_tracker = tracker, er_service = None\<rparr>)\<rparr>
                  in if status = CELIX_SUCCESS then Inr (status, Some a, s)
                     else rbind (exportRegistration_destroy a s) (\<lambda>s. Inr (status, None, s)))))"

text \<open>A remote call: the request is handed to the tracked service through its interface.\<close>

definition exportRegistration_call ::
    "'x rsa_env \<Rightarrow> exp_ptr \<Rightarrow> string option \<Rightarrow> 'x rsa_state \<Rightarrow> (celix_status \<times> string option \<times> 'x rsa_state) result" where
  "exportRegistration_call env a data s =
     rbind (deref (exps s) a) (\<lambda>reg.
       case jsonRpc_call env (er_intf reg) (er_service reg) data (outside s) of (status, response, x) \<Rightarrow>
         Inr (status, response, s\<lparr>outside := x\<rparr>))"

definition exportRegistration_addServ :: "exp_ptr \<Rightarrow> nat \<Rightarrow> 'x rsa_state \<Rightarrow> 'x rsa_state result" where
  "exportRegistration_addServ a service s =
     rbind (deref (exps s) a) (\<lambda>reg. Inr (s\<lparr>exps := (exps s)(a \<mapsto> reg\<lparr>er_service := Some service\<rparr>)\<rparr>))"

definition exportRegistration_removeServ :: "exp_ptr \<Rightarrow> nat \<Rightarrow> 'x rsa_state \<Rightarrow> 'x rsa_state result" where
  "exportRegistration_removeServ a service s =
     rbind (deref (exps s) a) (\<lambda>reg.
       Inr (if er_service reg = Some service then s\<lparr>exps := (exps s)(a \<mapsto> reg\<lparr>er_service := None\<rparr>)\<rparr> else s))"

definition exportRegistration_start :: "'x rsa_env \<Rightarrow> exp_ptr \<Rightarrow> 'x rsa_state \<Rightarrow> (celix_status \<times> 'x rsa_state) result" where
  "exportRegistration_start env a s =
     rbind (deref (exps s) a) (\<lambda>reg.
     rbind (rfold (exportRegistration_addServ a) (er_open env (er_tracker reg)) s) (\<lambda>s.
       Inr (CELIX_SUCCESS, s)))"

definition exportRegistration_stop :: "'x rsa_env \<Rightarrow> exp_ptr \<Rightarrow> 'x rsa_state \<Rightarrow> (celix_status \<times> 'x rsa_state) result" where
  "exportRegistration_stop env a s =
     rbind (deref (exps s) a) (\<lambda>reg.
       let status = ungetServiceReference env (er_reference reg)
       in rbind (rfold (exportRegistration_removeServ a) (er_close env (er_tracker reg)) s) (\<lambda>s.
            Inr (status, s)))"

definition exportRegistration_close :: "'x rsa_env \<Rightarrow> exp_ptr \<Rightarrow> 'x rsa_state \<Rightarrow> (celix_status \<times> 'x rsa_state) result" where
  "exportRegistration_close env a s =
     rbind (exportRegistration_stop env a s) (\<lambda>(st, s). Inr (CELIX_SUCCESS, s))"

text \<open>
  An export reference is a fresh copy of the pair in the registration, at an address of its
  own: no service reference of the table has it.
\<close>

record export_reference =
  xr_address :: nat
  xr_endpoint :: "ep_ptr option"
  xr_reference :: service_reference

definition exportRegistration_getExportReference ::
    "'x rsa_env \<Rightarrow> exp_ptr \<Rightarrow> 'x rsa_state \<Rightarrow> (celix_status \<times> export_reference option) result" where
  "exportRegistration_getExportReference env a s =
     rbind (deref (exps s) a) (\<lambda>reg.
       Inr (case new_object env ReferenceKind (\<lambda>r. r \<in> fst ` set (exportedServices s)) s of
              None \<Rightarrow> (CELIX_ENOMEM, None)
            | Some r \<Rightarrow> (CELIX_SUCCESS, Some \<lparr>xr_address = r, xr_endpoint = er_endpoint reg, xr_reference = er_reference reg\<rparr>)))"

definition exportReference_getExportedEndpoint :: "export_reference option \<Rightarrow> (celix_status \<times> ep_ptr option) result" where
  "exportReference_getExportedEndpoint r =
     (case r of None \<Rightarrow> Inl NullPointer | Some r \<Rightarrow> Inr (CELIX_SUCCESS, xr_endpoint r))"

definition exportReference_getExportedService :: "export_reference option \<Rightarrow> (celix_status \<times> service_reference) result" where
  "exportReference_getExportedService r =
     (case r of None \<Rightarrow> Inl NullPointer | Some r \<Rightarrow> Inr (CELIX_SUCCESS, xr_reference r))"

definition exportRegistration_getException :: "exp_ptr \<Rightarrow> celix_status" where
  "exportRegistration_getException a = CELIX_SUCCESS"

section \<open>Import registrations\<close>

definition importRegistration_create ::
    "'x rsa_env \<Rightarrow> ep_ptr \<Rightarrow> string \<Rightarrow> 'x rsa_state \<Rightarrow> celix_status \<times> imp_ptr option \<times> 'x rsa_state" where
  "importRegistration_create env endpoint classObject s =
     (case new_object env ImportKind (\<lambda>a. imps s a \<noteq> None) s of
        None \<Rightarrow> (CELIX_ENOMEM, None, s)
      | Some a \<Rightarrow> (CELIX_SUCCESS, Some a, s\<lparr>imps := (imps s)(a \<mapsto>
          \<lparr>ir_endpoint = endpoint, ir_classObject = classObject, ir_send = None, ir_factoryReg = None,
           ir_proxies = []\<rparr>)\<rparr>))"

definition importRegistration_setSendFn ::
    "imp_ptr \<Rightarrow> nat \<Rightarrow> nat \<Rightarrow> 'x rsa_state \<Rightarrow> (celix_status \<times> 'x rsa_state) result" where
  "importRegistration_setSendFn a send handle s =
     rbind (deref (imps s) a) (\<lambda>reg.
       Inr (CELIX_SUCCESS, s\<lparr>imps := (imps s)(a \<mapsto> reg\<lparr>ir_send := Some (send, handle)\<rparr>)\<rparr>))"

definition importRegistration_destroyProxy :: "proxy_ptr \<Rightarrow> 'x rsa_state \<Rightarrow> 'x rsa_state result" where
  "importRegistration_destroyProxy p s =
     rbind (deref (proxs s) p) (\<lambda>proxy. Inr (s\<lparr>proxs := (proxs s)(p := None)\<rparr>))"

text \<open>The proxies are destroyed, the entries of the table stay.\<close>

definition importRegistration_clearProxies :: "imp_ptr \<Rightarrow> 'x rsa_state \<Rightarrow> 'x rsa_state result" where
  "importRegistration_clearProxies a s =
     rbind (deref (imps s) a) (\<lambda>reg. rfold importRegistration_destroyProxy (map snd (ir_proxies reg)) s)"

definition importRegistration_destroy :: "imp_ptr \<Rightarrow> 'x rsa_state \<Rightarrow> 'x rsa_state result" where
  "importRegistration_destroy a s =
     rbind (importRegistration_clearProxies a s) (\<lambda>s. Inr (s\<lparr>imps := (imps s)(a := None)\<rparr>))"

definition importRegistration_start :: "'x rsa_env \<Rightarrow> imp_ptr \<Rightarrow> 'x rsa_state \<Rightarrow> (celix_status \<times> 'x rsa_state) result" where
  "importRegistration_start env a s =
     rbind (deref (imps s) a) (\<lambda>reg.
       if ir_factoryReg reg = None
       then (case registerServiceFactory env (ir_classObject reg) a of (status, r) \<Rightarrow>
               Inr (status, if status = CELIX_SUCCESS
                            then s\<lparr>imps := (imps s)(a \<mapsto> reg\<lparr>ir_factoryReg := Some r\<rparr>)\<rparr> else s))
       else Inr (CELIX_ILLEGAL_STATE, s))"

fun make_closures :: "(nat \<Rightarrow> int \<times> nat) \<Rightarrow> nat list \<Rightarrow> celix_status \<times> nat list" where
  "make_closures create [] = (CELIX_SUCCESS, [])"
| "make_closures create (m # ms) =
     (case create m of (rc, fn) \<Rightarrow>
        if rc \<noteq> 0 then (CELIX_BUNDLE_EXCEPTION, [fn])
        else (case make_closures create ms of (status, fns) \<Rightarrow> (status, fn # fns)))"

text \<open>
  A descriptor that cannot be opened leaves the interface NULL and the status alone, and the
  methods of the NULL interface are counted next. A proxy that could not be completed is
  freed again.
\<close>

definition proxy_interface :: "'x rsa_env \<Rightarrow> string \<Rightarrow> (celix_status \<times> nat option)" where
  "proxy_interface env file =
     (if rsa_fopen env file
      then (case dynInterface_parse env file of (rc, intf) \<Rightarrow>
              (if rc \<noteq> 0 then CELIX_BUNDLE_EXCEPTION else CELIX_SUCCESS, intf))
      else (CELIX_SUCCESS, None))"

definition importRegistration_createProxy ::
    "'x rsa_env \<Rightarrow> imp_ptr \<Rightarrow> bundle_pt \<Rightarrow> 'x rsa_state \<Rightarrow> (celix_status \<times> proxy_ptr option \<times> 'x rsa_state) result" where
  "importRegistration_createProxy env a bundle s =
     rbind (deref (imps s) a) (\<lambda>reg.
       let (status, descriptorFile) = bundle_getEntry env bundle (snprintf 128 (ir_classObject reg @ ''.descriptor''));
           status = (if descriptorFile = None then CELIX_ILLEGAL_ARGUMENT else status);
           proxy = (if status = CELIX_SUCCESS then new_object env ProxyKind (\<lambda>p. proxs s p \<noteq> None) s else None);
           status = (if status = CELIX_SUCCESS \<and> proxy = None then CELIX_ENOMEM else status);
           (status, intf) = do_if status None (proxy_interface env (the descriptorFile))
       in if status \<noteq> CELIX_SUCCESS then Inr (status, None, s)
          else case intf of
            None \<Rightarrow> Inl NullPointer
          | Some i \<Rightarrow>
              (case rsa_calloc env TableKind s of
                 None \<Rightarrow> Inr (CELIX_ENOMEM, None, s)
               | Some table \<Rightarrow>
                   (case make_closures (dynFunction_createClosure env) (dynInterface_methods env i) of (status, fns) \<Rightarrow>
                      if status \<noteq> CELIX_SUCCESS then Inr (status, None, s)
                      else Inr (status, proxy, s\<lparr>proxs := (proxs s)(the proxy \<mapsto>
                        \<lparr>sp_intf = i, sp_service = table, sp_table = (a, fns), sp_count = 0\<rparr>)\<rparr>))))"

definition importRegistration_getService ::
    "'x rsa_env \<Rightarrow> imp_ptr \<Rightarrow> bundle_pt \<Rightarrow> 'x rsa_state \<Rightarrow> (celix_status \<times> nat option \<times> 'x rsa_state) result" where
  "importRegistration_getService env a bundle s =
     rbind (deref (imps s) a) (\<lambda>reg.
     rbind (case hashMap_get (ptr_same (rsa_cx env)) (ir_proxies reg) bundle of
              Some p \<Rightarrow> Inr (CELIX_SUCCESS, Some p, s)
            | None \<Rightarrow>
                rbind (importRegistration_createProxy env a bundle s) (\<lambda>(status, proxy, s).
                  case proxy of
                    None \<Rightarrow> Inr (status, None, s)
                  | Some p \<Rightarrow> Inr (status, Some p, s\<lparr>imps := (imps s)(a \<mapsto> reg\<lparr>ir_proxies :=
                      hashMap_put (rsa_cx env) (ptr_hash (rsa_cx env)) (ptr_same (rsa_cx env)) bundle p (ir_proxies reg)\<rparr>)\<rparr>)))
       (\<lambda>(status, proxy, s).
          case proxy of
            None \<Rightarrow> Inr (status, None, s)
          | Some p \<Rightarrow>
              rbind (deref (proxs s) p) (\<lambda>sp.
                Inr (status, Some (sp_service sp), s\<lparr>proxs := (proxs s)(p \<mapsto> sp\<lparr>sp_count := sp_count sp + 1\<rparr>)\<rparr>))))"

definition importRegistration_ungetService ::
    "'x rsa_env \<Rightarrow> imp_ptr \<Rightarrow> bundle_pt \<Rightarrow> nat \<Rightarrow> 'x rsa_state \<Rightarrow> (celix_status \<times> 'x rsa_state) result" where
  "importRegistration_ungetService env a bundle out s =
     rbind (deref (imps s) a) (\<lambda>reg.
       case hashMap_get (ptr_same (rsa_cx env)) (ir_proxies reg) bundle of
         None \<Rightarrow> Inr (CELIX_SUCCESS, s)
       | Some p \<Rightarrow>
           rbind (deref (proxs s) p) (\<lambda>sp.
             let (status, sp) = (if out = sp_service sp then (CELIX_SUCCESS, sp\<lparr>sp_count := sp_count sp - 1\<rparr>)
                                 else (CELIX_ILLEGAL_ARGUMENT, sp));
                 s = s\<lparr>proxs := (proxs s)(p \<mapsto> sp)\<rparr>
             in if sp_count sp = 0
                then rbind (importRegistration_destroyProxy p (s\<lparr>imps := (imps s)(a \<mapsto> reg\<lparr>ir_proxies :=
                       hashMap_remove (ptr_same (rsa_cx env)) bundle (ir_proxies reg)\<rparr>)\<rparr>)) (\<lambda>s. Inr (status, s))
                else Inr (status, s)))"

text \<open>Stopping: the framework gives back the services in use while the factory is unregistered.\<close>

definition importRegistration_stop :: "'x rsa_env \<Rightarrow> imp_ptr \<Rightarrow> 'x rsa_state \<Rightarrow> (celix_status \<times> 'x rsa_state) result" where
  "importRegistration_stop env a s =
     rbind (deref (imps s) a) (\<lambda>reg.
     rbind (case ir_factoryReg reg of
              None \<Rightarrow> Inr s
            | Some r \<Rightarrow>
                rbind (rfold (\<lambda>(bundle, out) s. rbind (importRegistration_ungetService env a bundle out s) (\<lambda>(st, s). Inr s))
                         (ir_unregister env r) s) (\<lambda>s.
                rbind (deref (imps s) a) (\<lambda>reg.
                  Inr (s\<lparr>imps := (imps s)(a \<mapsto> reg\<lparr>ir_factoryReg := None\<rparr>)\<rparr>)))) (\<lambda>s.
     rbind (importRegistration_clearProxies a s) (\<lambda>s.
       Inr (CELIX_SUCCESS, s))))"

definition importRegistration_close :: "'x rsa_env \<Rightarrow> imp_ptr \<Rightarrow> 'x rsa_state \<Rightarrow> (celix_status \<times> 'x rsa_state) result" where
  "importRegistration_close env a s =
     rbind (importRegistration_stop env a s) (\<lambda>(st, s). Inr (CELIX_SUCCESS, s))"

definition importRegistration_getEndpointDescription :: "imp_ptr \<Rightarrow> 'x rsa_state \<Rightarrow> (celix_status \<times> ep_ptr) result" where
  "importRegistration_getEndpointDescription a s =
     rbind (deref (imps s) a) (\<lambda>reg. Inr (CELIX_SUCCESS, ir_endpoint reg))"

text \<open>The queries for exceptions and import references are not implemented: they only succeed.\<close>

definition importRegistration_getException :: "imp_ptr \<Rightarrow> celix_status" where
  "importRegistration_getException a = CELIX_SUCCESS"

definition importRegistration_getImportReference :: "imp_ptr \<Rightarrow> celix_status" where
  "importRegistration_getImportReference a = CELIX_SUCCESS"

definition importReference_getImportedEndpoint :: "nat \<Rightarrow> celix_status" where
  "importReference_getImportedEndpoint r = CELIX_SUCCESS"

definition importReference_getImportedService :: "nat \<Rightarrow> celix_status" where
  "importReference_getImportedService r = CELIX_SUCCESS"

section \<open>Calls through a proxy\<close>

text \<open>
  What the closure of a method does. The arguments are of any type; \<open>prepare\<close> and \<open>handle\<close> are
  \<^verbatim>\<open>jsonRpc_prepareInvokeRequest\<close> and \<^verbatim>\<open>jsonRpc_handleReply\<close> for the method, \<open>send\<close> calls a send
  function. The answer is what was stored at \<^verbatim>\<open>returnVal\<close>, if anything was. The status of the
  send function is not looked at, its out parameters are.
\<close>

definition importRegistration_proxyFunc ::
    "('a \<Rightarrow> celix_status \<times> string) \<Rightarrow> (string option \<Rightarrow> 'a \<Rightarrow> celix_status \<times> 'a) \<Rightarrow>
     (nat \<times> nat \<Rightarrow> ep_ptr \<Rightarrow> string \<Rightarrow> string option \<times> int \<Rightarrow> 'x rsa_state \<Rightarrow>
        (celix_status \<times> (string option \<times> int) \<times> 'x rsa_state) result) \<Rightarrow>
     imp_ptr option \<Rightarrow> 'a \<Rightarrow> 'x rsa_state \<Rightarrow> (int option \<times> 'a \<times> 'x rsa_state) result" where
  "importRegistration_proxyFunc prepare handle send import args s =
     (case import of
        None \<Rightarrow> Inr (None, args, s)
      | Some a \<Rightarrow>
          rbind (deref (imps s) a) (\<lambda>reg.
            case ir_send reg of
              None \<Rightarrow> Inr (None, args, s)
            | Some f \<Rightarrow>
                (case prepare args of (status, invokeRequest) \<Rightarrow>
                   if status \<noteq> CELIX_SUCCESS then Inr (None, args, s)
                   else rbind (send f (ir_endpoint reg) invokeRequest (None, 0) s) (\<lambda>(st, (reply, rc), s).
                          Inr (Some rc, if rc = 0 then snd (handle reply args) else args, s)))))"

end
