(* ===== verification/Rsa.thy ===== *)
theory Rsa
  imports Rsa_Registrations
begin

text \<open>
  The remote service admin (\<^verbatim>\<open>remote_service_admin_impl.c\<close>) and its bundle activator. It
  exports local services and imports remote ones: it asks the wiring topology managers for
  wires and, told as their listener of a wire that is there, registers a receiver on an
  exported wire or starts the proxy factory of an import. Requests travel as JSON texts that
  name the service.

  An operation works on the state of the remote service admin; those that read wiring
  endpoint descriptions or call a topology manager work on a \<open>world\<close> that has this state as
  its rest, because a topology manager calls back into the admin.
\<close>

section \<open>Locks\<close>

text \<open>
  The mutexes are not recursive: a lock that is already held never returns, since nobody
  else runs who could release it. Unlocking a mutex that nobody holds is undefined.
\<close>

definition rsa_lock :: "'x rsa_env \<Rightarrow> string \<Rightarrow> 'x rsa_state \<Rightarrow> (celix_status \<times> 'x rsa_state) result" where
  "rsa_lock env l s =
     (if l \<in> set (held s) then Inl NoReturn
      else let status = celixThreadMutex_lock (rsa_cx env) l
           in Inr (status, if status = CELIX_SUCCESS then s\<lparr>held := l # held s\<rparr> else s))"

definition rsa_unlock :: "'x rsa_env \<Rightarrow> string \<Rightarrow> 'x rsa_state \<Rightarrow> (celix_status \<times> 'x rsa_state) result" where
  "rsa_unlock env l s =
     (if l \<in> set (held s) \<or> unlock_free_ok env
      then Inr (celixThreadMutex_unlock (rsa_cx env) l, s\<lparr>held := removeAll l (held s)\<rparr>)
      else Inl UnlockNotHeld)"

definition exportedServicesLock :: string where "exportedServicesLock = ''exportedServicesLock''"
definition importedServicesLock :: string where "importedServicesLock = ''importedServicesLock''"
definition sendServicesLock :: string where "sendServicesLock = ''sendServicesLock''"
definition listenerListLock :: string where "listenerListLock = ''listenerListLock''"
definition wtmListLock :: string where "wtmListLock = ''wtmListLock''"

text \<open>A step on the state of the admin, in the world.\<close>

definition in_world :: "('x rsa_state \<Rightarrow> ('a \<times> 'x rsa_state) result) \<Rightarrow> 'x rsa_state world \<Rightarrow> ('a \<times> 'x rsa_state world) result" where
  "in_world f W = rbind (f (rest W)) (\<lambda>(r, s). Inr (r, W\<lparr>rest := s\<rparr>))"

section \<open>Keys of the imported services\<close>

definition remoteServiceAdmin_endpointDescription_hash :: "celix \<Rightarrow> 'x rsa_state \<Rightarrow> ep_ptr \<Rightarrow> 32 word" where
  "remoteServiceAdmin_endpointDescription_hash cx s a =
     (case eps s a of
        None \<Rightarrow> 0
      | Some ep \<Rightarrow>
          (case (ep_service ep, ep_id ep) of
             (Some service, Some i) \<Rightarrow> utils_stringHash cx (snprintf 512 (service @ i))
           | _ \<Rightarrow> 0))"

definition remoteServiceAdmin_endpointDescription_equals :: "'x rsa_state \<Rightarrow> ep_ptr \<Rightarrow> ep_ptr \<Rightarrow> bool" where
  "remoteServiceAdmin_endpointDescription_equals s a b =
     (case (eps s a, eps s b) of
        (Some e, Some f) \<Rightarrow> ep_serviceId e = ep_serviceId f \<and> ep_service e = ep_service f
      | _ \<Rightarrow> False)"

text \<open>
  Every description that is put into the table has a service and an id, since the hash of
  any other one formats a NULL text.
\<close>

definition ep_same :: "celix \<Rightarrow> 'x rsa_state \<Rightarrow> ep_ptr \<Rightarrow> ep_ptr \<Rightarrow> bool" where
  "ep_same cx s = same_key (remoteServiceAdmin_endpointDescription_hash cx s) (remoteServiceAdmin_endpointDescription_equals s)"

definition remoteServiceAdmin_wireIdEquals :: "string \<Rightarrow> string \<Rightarrow> bool" where
  "remoteServiceAdmin_wireIdEquals a b \<longleftrightarrow> a = b"

section \<open>Requests from the wire\<close>

text \<open>
  The endpoint of an export, as the code gets it: by way of an export reference whose
  allocation is not checked.
\<close>

definition exported_endpoint :: "'x rsa_env \<Rightarrow> 'x rsa_state \<Rightarrow> exp_ptr \<Rightarrow> (ep_ptr \<times> endpoint_description) result" where
  "exported_endpoint env s a =
     rbind (exportRegistration_getExportReference env a s) (\<lambda>(st, ref).
     rbind (exportReference_getExportedEndpoint ref) (\<lambda>(st, endpoint).
       case endpoint of
         None \<Rightarrow> Inl NullPointer
       | Some p \<Rightarrow> rbind (deref (eps s) p) (\<lambda>ep. Inr (p, ep))))"

text \<open>
  \<^verbatim>\<open>json_unpack(root, "{s:i, s:o}", ...)\<close> stores the service id before it looks for the
  request, and stores nothing more after the first key that is missing or of another kind.
\<close>

definition unpack_request :: "json \<Rightarrow> 32 word \<times> json option" where
  "unpack_request root =
     (case json_object_get (Some root) ''service.id'' of
        Some (JInteger i) \<Rightarrow> (word_of_int i, json_object_get (Some root) ''request'')
      | _ \<Rightarrow> (- 1, None))"

definition dumps :: "'x rsa_env \<Rightarrow> json option \<Rightarrow> string option" where
  "dumps env j = (case j of None \<Rightarrow> None | Some v \<Rightarrow> rsa_json_dumps env v)"

primrec match_export :: "'x rsa_env \<Rightarrow> 'x rsa_state \<Rightarrow> 32 word \<Rightarrow> exp_ptr list \<Rightarrow> exp_ptr option result" where
  "match_export env s serviceId [] = Inr None"
| "match_export env s serviceId (e # es) =
     rbind (exported_endpoint env s e) (\<lambda>(p, ep).
       if scast serviceId = ep_serviceId ep then Inr (Some e) else match_export env s serviceId es)"

text \<open>The search goes on behind an entry with a match; the last such entry counts.\<close>

fun find_export ::
    "'x rsa_env \<Rightarrow> 'x rsa_state \<Rightarrow> 32 word \<Rightarrow> (service_reference \<times> exp_ptr list) list \<Rightarrow> exp_ptr option \<Rightarrow>
     exp_ptr option result" where
  "find_export env s serviceId [] export = Inr export"
| "find_export env s serviceId ((ref, exports) # m) export =
     rbind (match_export env s serviceId exports) (\<lambda>found.
       find_export env s serviceId m (case found of None \<Rightarrow> export | Some e \<Rightarrow> Some e))"

definition remoteServiceAdmin_receive ::
    "'x rsa_env \<Rightarrow> string \<Rightarrow> 'x rsa_state \<Rightarrow> (celix_status \<times> string option \<times> 'x rsa_state) result" where
  "remoteServiceAdmin_receive env data s =
     (case rsa_json_loads env data of
        None \<Rightarrow> Inr (CELIX_ILLEGAL_ARGUMENT, None, s)
      | Some root \<Rightarrow>
          (case unpack_request root of (serviceId, json_request) \<Rightarrow>
             rbind (find_export env s serviceId (exportedServices s) None) (\<lambda>export.
               case export of
                 None \<Rightarrow> Inr (CELIX_ILLEGAL_ARGUMENT, None, s)
               | Some e \<Rightarrow> exportRegistration_call env e (dumps env json_request) s)))"

section \<open>Receivers and listeners\<close>

text \<open>A receiver for a known wire is allocated and neither used nor freed.\<close>

definition remoteServiceAdmin_registerReceive ::
    "'x rsa_env \<Rightarrow> string option \<Rightarrow> 'x rsa_state \<Rightarrow> (celix_status \<times> 'x rsa_state) result" where
  "remoteServiceAdmin_registerReceive env wireId s =
     (case new_object env ReceiverKind (\<lambda>r. rcvs s r \<noteq> None) s of
        None \<Rightarrow> Inr (CELIX_ENOMEM, s)
      | Some r \<Rightarrow>
          (case wireId of
             None \<Rightarrow> Inl NullPointer
           | Some w \<Rightarrow>
               (let cx = rsa_cx env in
                if hashMap_containsKey (string_same cx) (rsa_receiveServices s) w
                then Inr (CELIX_SUCCESS, s\<lparr>rcvs := (rcvs s)(r \<mapsto> None)\<rparr>)
                else (case registerReceive env r (properties_set cx [] ''wire.id'' (Some w)) (outside s) of
                        (status, reg, x) \<Rightarrow>
                  if status = CELIX_SUCCESS
                  then Inr (status, s\<lparr>outside := x, rcvs := (rcvs s)(r \<mapsto> Some w),
                         rsa_receiveServices := hashMap_put cx (utils_stringHash cx) (string_same cx) w r (rsa_receiveServices s),
                         rsa_receiveRegistrations :=
                           hashMap_put cx (utils_stringHash cx) (string_same cx) w reg (rsa_receiveRegistrations s)\<rparr>)
                  else Inr (status, s\<lparr>outside := x\<rparr>)))))"

definition remoteServiceAdmin_unregisterReceive ::
    "'x rsa_env \<Rightarrow> string option \<Rightarrow> 'x rsa_state \<Rightarrow> (celix_status \<times> 'x rsa_state) result" where
  "remoteServiceAdmin_unregisterReceive env wireId s =
     (case wireId of
        None \<Rightarrow> Inl NullPointer
      | Some w \<Rightarrow>
          (let same = string_same (rsa_cx env);
               registration = hashMap_get same (rsa_receiveRegistrations s) w;
               service = hashMap_get same (rsa_receiveServices s) w;
               s = s\<lparr>rsa_receiveServices := hashMap_remove same w (rsa_receiveServices s),
                     rsa_receiveRegistrations := hashMap_remove same w (rsa_receiveRegistrations s)\<rparr>;
               (status, x) = (case registration of None \<Rightarrow> (CELIX_SUCCESS, outside s) | Some r \<Rightarrow> unregisterReceive env r (outside s));
               s = s\<lparr>outside := x\<rparr>
           in case service of
                None \<Rightarrow> Inr (status, s)
              | Some r \<Rightarrow> (if rcvs s r = None then Inl InvalidFree else Inr (status, s\<lparr>rcvs := (rcvs s)(r := None)\<rparr>))))"

text \<open>One endpoint and one listener: the listener is told when its scope matches.\<close>

definition offer_endpoint ::
    "'x rsa_env \<Rightarrow> service_reference \<Rightarrow> exp_ptr \<Rightarrow> celix_status \<times> 'x rsa_state \<Rightarrow> (celix_status \<times> 'x rsa_state) result" where
  "offer_endpoint env ref e r =
     (case r of (status, s) \<Rightarrow>
        rbind (exportRegistration_getExportReference env e s) (\<lambda>(status, xref).
          if status \<noteq> CELIX_SUCCESS then Inr (status, s)
          else rbind (exportReference_getExportedEndpoint xref) (\<lambda>(status, endpoint).
            case endpoint of
              None \<Rightarrow> Inl NullPointer
            | Some p \<Rightarrow> rbind (deref (eps s) p) (\<lambda>ep.
                let scope = serviceReference_getProperty (rsa_cx env) ref (OSGI_ENDPOINT_LISTENER_SCOPE env)
                in if filter_match (rsa_cx env) scope (ep_properties ep)
                   then (case endpointAdded env ref ep scope (outside s) of (status, x) \<Rightarrow> Inr (status, s\<lparr>outside := x\<rparr>))
                   else Inr (status, s)))))"

definition rsa_notify_listener ::
    "'x rsa_env \<Rightarrow> exp_ptr list \<Rightarrow> service_reference \<Rightarrow> 'x rsa_state \<Rightarrow> 'x rsa_state result" where
  "rsa_notify_listener env registrations ref s =
     (if rsa_getService env ref = CELIX_SUCCESS
      then rbind (rfold (offer_endpoint env ref) registrations (CELIX_SUCCESS, s)) (\<lambda>(status, s). Inr s)
      else Inr s)"

text \<open>The listeners are told without their lock, which is released all the same.\<close>

definition remoteServiceAdmin_notifyListenersEndpointAdded ::
    "'x rsa_env \<Rightarrow> exp_ptr list \<Rightarrow> 'x rsa_state \<Rightarrow> (celix_status \<times> 'x rsa_state) result" where
  "remoteServiceAdmin_notifyListenersEndpointAdded env registrations s =
     rbind (rfold (rsa_notify_listener env registrations) (map fst (rsa_listenerList s)) s)
       (rsa_unlock env listenerListLock)"

definition remoteServiceAdmin_endpointListenerAdding :: "'x rsa_env \<Rightarrow> service_reference \<Rightarrow> celix_status" where
  "remoteServiceAdmin_endpointListenerAdding env ref = CELIX_SUCCESS"

definition remoteServiceAdmin_endpointListenerAdded ::
    "'x rsa_env \<Rightarrow> service_reference \<Rightarrow> 'x rsa_state \<Rightarrow> (celix_status \<times> 'x rsa_state) result" where
  "remoteServiceAdmin_endpointListenerAdded env ref s =
     (let cx = rsa_cx env in
      rbind (rsa_lock env listenerListLock s) (\<lambda>(st, s).
      rbind (rsa_unlock env listenerListLock
               (s\<lparr>rsa_listenerList := hashMap_put cx (ptr_hash cx) (ptr_same cx) ref () (rsa_listenerList s)\<rparr>)) (\<lambda>(st, s).
        rfold (offer_endpoint env ref) (concat (map snd (exportedServices s))) (CELIX_SUCCESS, s))))"

definition remoteServiceAdmin_endpointListenerRemoved ::
    "'x rsa_env \<Rightarrow> service_reference \<Rightarrow> 'x rsa_state \<Rightarrow> (celix_status \<times> 'x rsa_state) result" where
  "remoteServiceAdmin_endpointListenerRemoved env ref s =
     rbind (rsa_lock env listenerListLock s) (\<lambda>(status, s).
       if status = CELIX_SUCCESS
       then rsa_unlock env listenerListLock (s\<lparr>rsa_listenerList := hashMap_remove (ptr_same (rsa_cx env)) ref (rsa_listenerList s)\<rparr>)
       else Inr (status, s))"

definition remoteServiceAdmin_endpointListenerModified ::
    "'x rsa_env \<Rightarrow> service_reference \<Rightarrow> 'x rsa_state \<Rightarrow> (celix_status \<times> 'x rsa_state) result" where
  "remoteServiceAdmin_endpointListenerModified env ref s =
     rbind (remoteServiceAdmin_endpointListenerRemoved env ref s) (\<lambda>(status, s).
       if status = CELIX_SUCCESS then remoteServiceAdmin_endpointListenerAdded env ref s else Inr (status, s))"

section \<open>Told of wires\<close>

text \<open>
  The table of exported wires holds pointers to the wire ids inside the descriptions. A NULL
  is looked for by address; a text is compared with each entry in turn, which reads the
  description of the entry.
\<close>

fun wires_contain :: "'r world \<Rightarrow> string option \<Rightarrow> (wed_ptr \<times> string option) list \<Rightarrow> bool result" where
  "wires_contain W wireId [] = Inr False"
| "wires_contain W None ((d, t) # es) = (if t = None then Inr True else wires_contain W None es)"
| "wires_contain W (Some w) ((d, t) # es) =
     (case t of
        None \<Rightarrow> Inl NullPointer
      | Some v \<Rightarrow>
          if weds W d = None then Inl UseAfterFree
          else if remoteServiceAdmin_wireIdEquals v w then Inr True else wires_contain W (Some w) es)"

definition set_wire_id :: "'x rsa_env \<Rightarrow> string option \<Rightarrow> exp_ptr \<Rightarrow> 'x rsa_state \<Rightarrow> 'x rsa_state result" where
  "set_wire_id env wireId e s =
     rbind (exported_endpoint env s e) (\<lambda>(p, ep).
       Inr (s\<lparr>eps := (eps s)(p \<mapsto> ep\<lparr>ep_properties := properties_set (rsa_cx env) (ep_properties ep) WIRE_ID_KEY wireId\<rparr>)\<rparr>))"

definition wire_exported ::
    "'x rsa_env \<Rightarrow> string option \<Rightarrow> string option \<Rightarrow> service_reference \<times> exp_ptr list \<Rightarrow> 'x rsa_state \<Rightarrow> 'x rsa_state result" where
  "wire_exported env exportServiceId wireId entry s =
     (case entry of (reference, registrations) \<Rightarrow>
        (case serviceReference_getProperty (rsa_cx env) reference (OSGI_FRAMEWORK_SERVICE_ID (rsa_cx env)) of
           None \<Rightarrow> Inr s
         | Some id_str \<Rightarrow>
             (case exportServiceId of
                None \<Rightarrow> Inl NullPointer
              | Some i \<Rightarrow>
                  if id_str \<noteq> i then Inr s
                  else rbind (rfold (set_wire_id env wireId) registrations s) (\<lambda>s.
                       rbind (remoteServiceAdmin_registerReceive env wireId s) (\<lambda>(status, s).
                         if status = CELIX_SUCCESS
                         then rbind (remoteServiceAdmin_notifyListenersEndpointAdded env registrations s) (\<lambda>(st, s). Inr s)
                         else Inr s)))))"

text \<open>The address of \<^verbatim>\<open>remoteServiceAdmin_send\<close> and of the admin, as a registration stores them.\<close>

definition RSA_SEND :: "nat \<times> nat" where "RSA_SEND = (1, 1)"

text \<open>
  An endpoint of another framework: the imports of the service it was requested for are
  started. The status of one import decides whether the next is started.
\<close>

definition wire_imported ::
    "'x rsa_env \<Rightarrow> string option \<Rightarrow> ep_ptr \<times> imp_ptr option \<Rightarrow> celix_status \<times> 'x rsa_state \<Rightarrow> (celix_status \<times> 'x rsa_state) result" where
  "wire_imported env requested entry r =
     (case (entry, r) of ((p, import), (status, s)) \<Rightarrow>
        rbind (deref (eps s) p) (\<lambda>ep.
          case (requested, ep_id ep) of
            (Some i, Some j) \<Rightarrow>
              if i \<noteq> j then Inr (status, s)
              else (case import of
                      None \<Rightarrow> Inr (CELIX_BUNDLE_EXCEPTION, s)
                    | Some a \<Rightarrow>
                        if status \<noteq> CELIX_SUCCESS then Inr (status, s)
                        else rbind (importRegistration_setSendFn a (fst RSA_SEND) (snd RSA_SEND) s) (\<lambda>(st, s).
                               importRegistration_start env a s))
          | _ \<Rightarrow> Inl NullPointer))"

definition add_exported_wire ::
    "'x rsa_env \<Rightarrow> wed_ptr \<Rightarrow> properties \<Rightarrow> 'x rsa_state world \<Rightarrow> (celix_status \<times> 'x rsa_state world) result" where
  "add_exported_wire env d p W =
     (let cx = rsa_cx env; wireId = properties_get cx p WIRE_ID_KEY;
          exportServiceId = properties_get cx p ''requested.service.id'' in
      rbind (wires_contain W wireId (exportedWires (rest W))) (\<lambda>known.
        in_world (\<lambda>s.
          let s = (if known then s else s\<lparr>exportedWires := exportedWires s @ [(d, wireId)]\<rparr>) in
          rbind (rsa_lock env exportedServicesLock s) (\<lambda>(st, s).
          rbind (rfold (wire_exported env exportServiceId wireId) (exportedServices s) s)
            (rsa_unlock env exportedServicesLock))) W))"

definition add_imported_wire ::
    "'x rsa_env \<Rightarrow> properties \<Rightarrow> 'x rsa_state \<Rightarrow> (celix_status \<times> 'x rsa_state) result" where
  "add_imported_wire env p s =
     rbind (rsa_lock env importedServicesLock s) (\<lambda>(st, s).
     rbind (rfold (wire_imported env (properties_get (rsa_cx env) p ''requested.service'')) (importedServices s) (CELIX_SUCCESS, s))
       (\<lambda>(status, s).
     rbind (rsa_unlock env importedServicesLock s) (\<lambda>(st, s). Inr (status, s))))"

definition remoteServiceAdmin_addWiringEndpoint ::
    "'x rsa_env \<Rightarrow> wed_ptr \<Rightarrow> string option \<Rightarrow> 'x rsa_state world \<Rightarrow> (celix_status \<times> 'x rsa_state world) result" where
  "remoteServiceAdmin_addWiringEndpoint env d matchedFilter W =
     (let cx = rsa_cx env in
      case bundleContext_getProperty cx (OSGI_FRAMEWORK_FRAMEWORK_UUID cx) of (status, ownUuid) \<Rightarrow>
        if status \<noteq> CELIX_SUCCESS then Inr (status, W)
        else rbind (wed_deref d W) (\<lambda>p.
          case properties_get cx p (OSGI_RSA_ENDPOINT_FRAMEWORK_UUID cx) of
            None \<Rightarrow> in_world (add_imported_wire env p) W
          | Some wireUuid \<Rightarrow>
              (case ownUuid of
                 None \<Rightarrow> Inl NullPointer
               | Some own \<Rightarrow>
                   if own = wireUuid then add_exported_wire env d p W
                   else in_world (add_imported_wire env p) W)))"

primrec exports_on_wire :: "'x rsa_env \<Rightarrow> string option \<Rightarrow> 'x rsa_state \<Rightarrow> exp_ptr list \<Rightarrow> exp_ptr list result" where
  "exports_on_wire env wireId s [] = Inr []"
| "exports_on_wire env wireId s (e # es) =
     rbind (exported_endpoint env s e) (\<lambda>(p, ep).
       case (wireId, properties_get (rsa_cx env) (ep_properties ep) WIRE_ID_KEY) of
         (Some w, Some regWireId) \<Rightarrow>
           rbind (exports_on_wire env wireId s es) (\<lambda>l. Inr (if w = regWireId then e # l else l))
       | _ \<Rightarrow> Inl NullPointer)"

text \<open>An import on the wire is closed and its entry removed; the registration is not freed.\<close>

definition drop_import ::
    "'x rsa_env \<Rightarrow> string option \<Rightarrow> ep_ptr \<times> imp_ptr option \<Rightarrow> 'x rsa_state \<Rightarrow> 'x rsa_state result" where
  "drop_import env wireId entry s =
     (let cx = rsa_cx env; p = fst entry in
      rbind (deref (eps s) p) (\<lambda>ep.
        case properties_get cx (ep_properties ep) WIRE_ID_KEY of
          None \<Rightarrow> Inr s
        | Some regWireId \<Rightarrow>
            (case wireId of
               None \<Rightarrow> Inl NullPointer
             | Some w \<Rightarrow>
                 if w \<noteq> regWireId then Inr s
                 else rbind (case hashMap_get (ep_same cx s) (importedServices s) p of
                               Some (Some a) \<Rightarrow> rbind (importRegistration_close env a s) (\<lambda>(st, s). Inr s)
                             | _ \<Rightarrow> Inr s) (\<lambda>s.
                        Inr (s\<lparr>importedServices := hashMap_remove (ep_same cx s) p (importedServices s)\<rparr>)))))"

definition remoteServiceAdmin_removeWiringEndpoint ::
    "'x rsa_env \<Rightarrow> wed_ptr \<Rightarrow> string option \<Rightarrow> 'x rsa_state world \<Rightarrow> (celix_status \<times> 'x rsa_state world) result" where
  "remoteServiceAdmin_removeWiringEndpoint env d matchedFilter W =
     rbind (wed_deref d W) (\<lambda>p.
       let wireId = properties_get (rsa_cx env) p WIRE_ID_KEY in
       in_world (\<lambda>s.
         rbind (rsa_lock env exportedServicesLock s) (\<lambda>(st, s).
         rbind (exports_on_wire env wireId s (concat (map snd (exportedServices s)))) (\<lambda>l.
         rbind (rsa_unlock env exportedServicesLock s) (\<lambda>(st, s).
         rbind (rfold (\<lambda>e s. rbind (exportRegistration_close env e s) (\<lambda>(st, s). Inr s)) l s) (\<lambda>s.
         rbind (remoteServiceAdmin_unregisterReceive env wireId s) (\<lambda>(status, s).
         rbind (rsa_lock env importedServicesLock s) (\<lambda>(st, s).
         rbind (rfold (drop_import env wireId) (importedServices s) s) (\<lambda>s.
         rbind (rsa_unlock env importedServicesLock s) (\<lambda>(st, s).
           Inr (status, s)))))))))) W)"

section \<open>Topology managers\<close>

definition remoteServiceAdmin_getWTMs :: "'x rsa_env \<Rightarrow> 'x rsa_state \<Rightarrow> (nat list \<times> 'x rsa_state) result" where
  "remoteServiceAdmin_getWTMs env s =
     rbind (rsa_lock env wtmListLock s) (\<lambda>(status, s).
       if status = CELIX_SUCCESS
       then rbind (rsa_unlock env wtmListLock s) (\<lambda>(st, s). Inr (wtmList s, s))
       else Inr ([], s))"

text \<open>The properties of a service reference, copied key by key.\<close>

definition reference_properties :: "'x rsa_env \<Rightarrow> service_reference \<Rightarrow> properties" where
  "reference_properties env ref =
     fold (\<lambda>k p. properties_set (rsa_cx env) p k (serviceReference_getProperty (rsa_cx env) ref k)) (sr_keys env ref) []"

definition import_request :: "'x rsa_env \<Rightarrow> string \<Rightarrow> endpoint_description \<Rightarrow> properties" where
  "import_request env wireId ep =
     properties_set (rsa_cx env) (properties_set (rsa_cx env) [] WIRE_ID_KEY (Some wireId)) ''requested.service'' (ep_id ep)"

definition replay_import ::
    "'x rsa_env \<Rightarrow> nat \<Rightarrow> ep_ptr \<Rightarrow> 'x rsa_state world \<Rightarrow> 'x rsa_state world result" where
  "replay_import env wtm p W =
     rbind (deref (eps (rest W)) p) (\<lambda>ep.
       case properties_get (rsa_cx env) (ep_properties ep) WIRE_ID_KEY of
         None \<Rightarrow> Inr W
       | Some w \<Rightarrow> rbind (wtm_import env wtm (import_request env w ep) W) (\<lambda>(st, W). Inr W))"

definition replay_export ::
    "'x rsa_env \<Rightarrow> nat \<Rightarrow> service_reference \<Rightarrow> 'x rsa_state world \<Rightarrow> 'x rsa_state world result" where
  "replay_export env wtm ref W =
     rbind (wtm_export env wtm (reference_properties env ref) W) (\<lambda>(st, W). Inr W)"

definition wtm_listed :: "'x rsa_env \<Rightarrow> nat \<Rightarrow> 'x rsa_state \<Rightarrow> (celix_status \<times> 'x rsa_state) result" where
  "wtm_listed env wtm s =
     rbind (rsa_lock env wtmListLock s) (\<lambda>(status, s).
       if status = CELIX_SUCCESS then rsa_unlock env wtmListLock (s\<lparr>wtmList := wtmList s @ [wtm]\<rparr>)
       else Inr (status, s))"

definition wtm_imports :: "'x rsa_env \<Rightarrow> nat \<Rightarrow> 'x rsa_state world \<Rightarrow> (celix_status \<times> 'x rsa_state world) result" where
  "wtm_imports env wtm W =
     rbind (in_world (rsa_lock env importedServicesLock) W) (\<lambda>(st, W).
     rbind (rfold (replay_import env wtm) (map fst (importedServices (rest W))) W) (\<lambda>W.
       in_world (rsa_unlock env importedServicesLock) W))"

definition wtm_exports :: "'x rsa_env \<Rightarrow> nat \<Rightarrow> 'x rsa_state world \<Rightarrow> (celix_status \<times> 'x rsa_state world) result" where
  "wtm_exports env wtm W =
     rbind (in_world (rsa_lock env exportedServicesLock) W) (\<lambda>(status, W).
       if status = CELIX_SUCCESS
       then rbind (rfold (replay_export env wtm) (map fst (exportedServices (rest W))) W)
              (in_world (rsa_unlock env exportedServicesLock))
       else Inr (status, W))"

definition register_admin :: "'x rsa_env \<Rightarrow> 'x rsa_state \<Rightarrow> (celix_status \<times> 'x rsa_state) result" where
  "register_admin env s =
     (if rsa_registration s \<noteq> None then Inr (CELIX_SUCCESS, s)
      else case registerAdmin env of (status, r) \<Rightarrow>
        Inr (status, if status = CELIX_SUCCESS then s\<lparr>rsa_registration := Some r\<rparr> else s))"

text \<open>
  A new topology manager is told of all imports and all exports, each with the lock of its
  table held.
\<close>

definition remoteServiceAdmin_wtmAdded ::
    "'x rsa_env \<Rightarrow> nat \<Rightarrow> 'x rsa_state world \<Rightarrow> (celix_status \<times> 'x rsa_state world) result" where
  "remoteServiceAdmin_wtmAdded env wtm W =
     rbind (in_world (wtm_listed env wtm) W) (\<lambda>(status, W).
     rbind (if status = CELIX_SUCCESS then wtm_imports env wtm W else Inr (status, W)) (\<lambda>(status, W).
     rbind (if status = CELIX_SUCCESS then wtm_exports env wtm W else Inr (status, W)) (\<lambda>(status, W).
       if status = CELIX_SUCCESS then in_world (register_admin env) W else Inr (status, W))))"

definition remoteServiceAdmin_wtmModified :: "'x rsa_state world \<Rightarrow> celix_status \<times> 'x rsa_state world" where
  "remoteServiceAdmin_wtmModified W = (CELIX_SUCCESS, W)"

definition remoteServiceAdmin_wtmRemoved :: "nat \<Rightarrow> 'x rsa_state world \<Rightarrow> celix_status \<times> 'x rsa_state world" where
  "remoteServiceAdmin_wtmRemoved wtm W = (CELIX_SUCCESS, W)"

section \<open>Exporting\<close>

text \<open>
  \<^verbatim>\<open>strtoull(s, NULL, 0)\<close>: blanks, a sign, a prefix that selects base 16 or 8, digits. Out of
  range the answer is the greatest value; a minus sign negates modulo two to the 64.
\<close>

definition digit_in :: "nat \<Rightarrow> char \<Rightarrow> nat option" where
  "digit_in base c =
     (let n = of_char c :: nat;
          v = (if 48 \<le> n \<and> n \<le> 57 then Some (n - 48)
               else if 97 \<le> n \<and> n \<le> 102 then Some (n - 87)
               else if 65 \<le> n \<and> n \<le> 70 then Some (n - 55) else None)
      in case v of None \<Rightarrow> None | Some d \<Rightarrow> if d < base then Some d else None)"

definition number_in :: "nat \<Rightarrow> string \<Rightarrow> nat" where
  "number_in base s =
     foldl (\<lambda>n c. n * base + the (digit_in base c)) 0 (takeWhile (\<lambda>c. digit_in base c \<noteq> None) s)"

definition strtoull0 :: "string \<Rightarrow> 64 word" where
  "strtoull0 s =
     (let s1 = dropWhile is_cspace s;
          neg = (s1 \<noteq> [] \<and> hd s1 = CHR ''-'');
          s2 = (if s1 \<noteq> [] \<and> (hd s1 = CHR ''-'' \<or> hd s1 = CHR ''+'') then tl s1 else s1);
          v = (if 2 < length s2 \<and> s2 ! 0 = CHR ''0'' \<and> (s2 ! 1 = CHR ''x'' \<or> s2 ! 1 = CHR ''X'') \<and> digit_in 16 (s2 ! 2) \<noteq> None
               then number_in 16 (drop 2 s2)
               else if s2 \<noteq> [] \<and> hd s2 = CHR ''0'' then number_in 8 s2
               else number_in 10 s2)
      in if 2 ^ 64 \<le> v then - 1 else if neg then - of_nat v else of_nat v)"

definition CONFIGURATION_TYPE :: string where
  "CONFIGURATION_TYPE = ''org.inaetics.remote.admin.wiring''"

definition endpoint_keys :: "'x rsa_env \<Rightarrow> service_reference \<Rightarrow> properties" where
  "endpoint_keys env ref =
     (let cx = rsa_cx env in
      fold (\<lambda>k p. if sr_status env ref k = CELIX_SUCCESS \<and> k \<noteq> OSGI_RSA_SERVICE_EXPORTED_INTERFACES env \<and> k \<noteq> OSGI_FRAMEWORK_OBJECTCLASS cx
                  then properties_set cx p k (serviceReference_getProperty cx ref k) else p) (sr_keys env ref) [])"

definition endpoint_properties :: "'x rsa_env \<Rightarrow> string option \<Rightarrow> string \<Rightarrow> string \<Rightarrow> string \<Rightarrow> properties \<Rightarrow> properties" where
  "endpoint_properties env uuid interface serviceId endpoint_uuid p =
     (let cx = rsa_cx env;
          p = properties_set cx p (OSGI_RSA_ENDPOINT_FRAMEWORK_UUID cx) uuid;
          p = properties_set cx p (OSGI_FRAMEWORK_OBJECTCLASS cx) (Some interface);
          p = properties_set cx p (OSGI_RSA_ENDPOINT_SERVICE_ID env) (Some serviceId);
          p = properties_set cx p (OSGI_RSA_ENDPOINT_ID env) (Some endpoint_uuid);
          p = properties_set cx p (OSGI_RSA_SERVICE_IMPORTED env) (Some ''true'')
      in properties_set cx p (OSGI_RSA_SERVICE_IMPORTED_CONFIGS env) (Some CONFIGURATION_TYPE))"

definition remoteServiceAdmin_createEndpointDescription ::
    "'x rsa_env \<Rightarrow> service_reference \<Rightarrow> string \<Rightarrow> 'x rsa_state \<Rightarrow> (celix_status \<times> ep_ptr option \<times> 'x rsa_state) result" where
  "remoteServiceAdmin_createEndpointDescription env ref interface s =
     (let cx = rsa_cx env; p = endpoint_keys env ref; key = OSGI_FRAMEWORK_SERVICE_ID cx in
      case hashMap_getEntry (string_same cx) p key of
        None \<Rightarrow> Inl NullPointer
      | Some (k, serviceId) \<Rightarrow>
          (let uuid = snd (bundleContext_getProperty cx (OSGI_FRAMEWORK_FRAMEWORK_UUID cx));
               q = endpoint_properties env uuid interface serviceId (rsa_uuid env s) (hashMap_remove (string_same cx) key p)
           in case new_object env EndpointKind (\<lambda>a. eps s a \<noteq> None) s of
                None \<Rightarrow> Inr (CELIX_ENOMEM, None, s)
              | Some a \<Rightarrow>
                  (case serviceReference_getProperty cx ref key of
                     None \<Rightarrow> Inl NullPointer
                   | Some i \<Rightarrow> Inr (CELIX_SUCCESS, Some a, s\<lparr>eps := (eps s)(a \<mapsto>
                       \<lparr>frameworkUUID = properties_get cx q (OSGI_RSA_ENDPOINT_FRAMEWORK_UUID cx),
                        ep_id = properties_get cx q (OSGI_RSA_ENDPOINT_ID env), ep_service = Some interface,
                        ep_properties = q, ep_serviceId = strtoull0 i\<rparr>)\<rparr>))))"

definition remoteServiceAdmin_destroyEndpointDescription :: "ep_ptr \<Rightarrow> 'x rsa_state \<Rightarrow> (celix_status \<times> 'x rsa_state) result" where
  "remoteServiceAdmin_destroyEndpointDescription a s =
     rbind (deref (eps s) a) (\<lambda>ep. Inr (CELIX_SUCCESS, s\<lparr>eps := (eps s)(a := None)\<rparr>))"

text \<open>A registration for the service, created and started; the registrations of the export.\<close>

definition export_registrations ::
    "'x rsa_env \<Rightarrow> service_reference \<Rightarrow> string \<Rightarrow> 'x rsa_state \<Rightarrow> (celix_status \<times> exp_ptr list \<times> 'x rsa_state) result" where
  "export_registrations env ref interface s =
     rbind (remoteServiceAdmin_createEndpointDescription env ref interface s) (\<lambda>(st, endpoint, s).
     rbind (exportRegistration_create env ref endpoint s) (\<lambda>(status, registration, s).
       case registration of
         None \<Rightarrow> Inr (status, [], s)
       | Some e \<Rightarrow>
           rbind (exportRegistration_start env e s) (\<lambda>(status, s).
             Inr (status, if status = CELIX_SUCCESS then [e] else [], s))))"

definition offer_export ::
    "'x rsa_env \<Rightarrow> properties \<Rightarrow> nat \<Rightarrow> 'x rsa_state world \<Rightarrow> 'x rsa_state world result" where
  "offer_export env p wtm W = rbind (wtm_export env wtm p W) (\<lambda>(st, W). Inr W)"

definition export_recorded ::
    "'x rsa_env \<Rightarrow> service_reference \<Rightarrow> exp_ptr list \<Rightarrow> properties option \<Rightarrow> 'x rsa_state world \<Rightarrow> 'x rsa_state world result" where
  "export_recorded env ref registrations p W =
     (let cx = rsa_cx env in
      rbind (in_world (rsa_lock env exportedServicesLock) W) (\<lambda>(st, W).
      rbind (in_world (\<lambda>s. rsa_unlock env exportedServicesLock (s\<lparr>exportedServices :=
               hashMap_put cx (ptr_hash cx) (ptr_same cx) ref registrations (exportedServices s)\<rparr>)) W) (\<lambda>(st, W).
      rbind (in_world (remoteServiceAdmin_getWTMs env) W) (\<lambda>(localWTMs, W).
        rfold (offer_export env (case p of None \<Rightarrow> reference_properties env ref | Some q \<Rightarrow> q)) localWTMs W))))"

text \<open>
  The status is \<^verbatim>\<open>CELIX_SERVICE_EXCEPTION\<close> also for a service that was exported: the wire, and
  with it the endpoint, is announced later. The second component is the caller's list of
  registrations, \<open>None\<close> when it was not made.
\<close>

definition remoteServiceAdmin_exportService ::
    "'x rsa_env \<Rightarrow> string \<Rightarrow> properties option \<Rightarrow> 'x rsa_state world \<Rightarrow>
     (celix_status \<times> exp_ptr list option \<times> 'x rsa_state world) result" where
  "remoteServiceAdmin_exportService env serviceId p W =
     (let cx = rsa_cx env;
          filter = snprintf 256 (''('' @ OSGI_FRAMEWORK_SERVICE_ID cx @ ''='' @ serviceId @ '')'')
      in case getServiceReferences env filter (outside (rest W)) of
           [] \<Rightarrow> Inr (CELIX_ILLEGAL_STATE, None, W)
         | reference # _ \<Rightarrow>
             (case (serviceReference_getProperty cx reference (OSGI_RSA_SERVICE_EXPORTED_INTERFACES env),
                    serviceReference_getProperty cx reference (OSGI_FRAMEWORK_OBJECTCLASS cx)) of
                (Some exports, Some provided) \<Rightarrow>
                  if exports \<noteq> provided then Inr (CELIX_SERVICE_EXCEPTION, None, W)
                  else rbind (in_world (\<lambda>s. rbind (export_registrations env reference provided s) (\<lambda>(st, l, s). Inr ((st, l), s))) W)
                    (\<lambda>((status, registrations), W).
                      if status = CELIX_SUCCESS
                      then rbind (export_recorded env reference registrations p W) (\<lambda>W.
                             Inr (CELIX_SERVICE_EXCEPTION, Some registrations, W))
                      else Inr (CELIX_SERVICE_EXCEPTION, Some registrations, W))
              | _ \<Rightarrow> Inr (CELIX_SERVICE_EXCEPTION, None, W)))"

text \<open>The entry is looked up by the address of the new export reference.\<close>

definition remoteServiceAdmin_removeExportedService ::
    "'x rsa_env \<Rightarrow> exp_ptr \<Rightarrow> 'x rsa_state \<Rightarrow> (celix_status \<times> 'x rsa_state) result" where
  "remoteServiceAdmin_removeExportedService env e s =
     rbind (exportRegistration_getExportReference env e s) (\<lambda>(status, ref).
       case ref of
         None \<Rightarrow> Inr (status, s)
       | Some r \<Rightarrow>
           rbind (rsa_lock env exportedServicesLock s) (\<lambda>(st, s).
           rbind (exportRegistration_close env e s) (\<lambda>(st, s).
           rbind (rsa_unlock env exportedServicesLock
                    (s\<lparr>exportedServices := hashMap_remove (ptr_same (rsa_cx env)) (xr_address r) (exportedServices s)\<rparr>)) (\<lambda>(st, s).
             Inr (status, s)))))"

definition remoteServiceAdmin_getExportedServices :: "'x rsa_state \<Rightarrow> celix_status" where
  "remoteServiceAdmin_getExportedServices s = CELIX_SUCCESS"

definition remoteServiceAdmin_getImportedEndpoints :: "'x rsa_state \<Rightarrow> celix_status" where
  "remoteServiceAdmin_getImportedEndpoints s = CELIX_SUCCESS"

section \<open>Importing\<close>

text \<open>The lock is given up while a topology manager is asked.\<close>

definition offer_import ::
    "'x rsa_env \<Rightarrow> properties \<Rightarrow> nat \<Rightarrow> 'x rsa_state world \<Rightarrow> 'x rsa_state world result" where
  "offer_import env p wtm W =
     rbind (in_world (rsa_unlock env importedServicesLock) W) (\<lambda>(st, W).
     rbind (wtm_import env wtm p W) (\<lambda>(st, W).
     rbind (in_world (rsa_lock env importedServicesLock) W) (\<lambda>(st, W).
       Inr W)))"

text \<open>
  An endpoint without an object class gets the registration that the caller's variable
  happens to hold.
\<close>

definition import_recorded ::
    "'x rsa_env \<Rightarrow> ep_ptr \<Rightarrow> endpoint_description \<Rightarrow> imp_ptr option \<Rightarrow> 'x rsa_state \<Rightarrow>
     ((celix_status \<times> imp_ptr option) \<times> 'x rsa_state) result" where
  "import_recorded env p ep registration s =
     (let cx = rsa_cx env in
      if ep_service ep = None \<or> ep_id ep = None then Inl NullPointer
      else
        let (status, registration, s) =
              (if hashMap_containsKey (ep_same cx s) (importedServices s) p then (CELIX_BUNDLE_EXCEPTION, registration, s)
               else case properties_get cx (ep_properties ep) ''objectClass'' of
                      None \<Rightarrow> (CELIX_SUCCESS, registration, s)
                    | Some objectClass \<Rightarrow>
                        (case importRegistration_create env p objectClass s of (status, out, s) \<Rightarrow>
                           (status, if status = CELIX_SUCCESS then out else registration, s)))
        in Inr ((status, registration),
             if status = CELIX_SUCCESS
             then s\<lparr>importedServices := hashMap_put cx (remoteServiceAdmin_endpointDescription_hash cx s) (ep_same cx s) p registration
                      (importedServices s)\<rparr>
             else s))"

definition remoteServiceAdmin_importService ::
    "'x rsa_env \<Rightarrow> ep_ptr \<Rightarrow> imp_ptr option \<Rightarrow> 'x rsa_state world \<Rightarrow> (celix_status \<times> imp_ptr option \<times> 'x rsa_state world) result" where
  "remoteServiceAdmin_importService env p registration W =
     (let cx = rsa_cx env in
      rbind (deref (eps (rest W)) p) (\<lambda>ep.
      rbind (in_world (rsa_lock env importedServicesLock) W) (\<lambda>(st, W).
      rbind (case properties_get cx (ep_properties ep) WIRE_ID_KEY of
               None \<Rightarrow> Inr ((CELIX_SERVICE_EXCEPTION, registration), W)
             | Some wireId \<Rightarrow>
                 rbind (in_world (import_recorded env p ep registration) W) (\<lambda>(r, W).
                 rbind (in_world (remoteServiceAdmin_getWTMs env) W) (\<lambda>(localWTMs, W).
                 rbind (rfold (offer_import env (import_request env wireId ep)) localWTMs W) (\<lambda>W.
                   Inr (r, W))))) (\<lambda>((status, registration), W).
      rbind (in_world (rsa_unlock env importedServicesLock) W) (\<lambda>(st, W).
        Inr (status, registration, W))))))"

definition remoteServiceAdmin_removeImportedService ::
    "'x rsa_env \<Rightarrow> imp_ptr option \<Rightarrow> 'x rsa_state \<Rightarrow> (celix_status \<times> 'x rsa_state) result" where
  "remoteServiceAdmin_removeImportedService env registration s =
     (case registration of
        None \<Rightarrow> Inr (CELIX_ILLEGAL_ARGUMENT, s)
      | Some a \<Rightarrow>
          rbind (importRegistration_getEndpointDescription a s) (\<lambda>(status, p).
          rbind (rsa_lock env importedServicesLock s) (\<lambda>(st, s).
            let same = ep_same (rsa_cx env) s; import = hashMap_get same (importedServices s) p;
                s = s\<lparr>importedServices := hashMap_remove same p (importedServices s)\<rparr>
            in rbind (case import of
                        Some (Some i) \<Rightarrow>
                          rbind (importRegistration_close env i s) (\<lambda>(st, s). importRegistration_destroy i s)
                      | _ \<Rightarrow> Inr s) (\<lambda>s.
               rbind (rsa_unlock env importedServicesLock s) (\<lambda>(st, s). Inr (status, s))))))"

section \<open>Requests to the wire\<close>

text \<open>
  \<^verbatim>\<open>json_pack("{s:i, s:o}", ...)\<close> takes the service id as an \<^verbatim>\<open>int\<close> and answers NULL for a NULL
  request.
\<close>

definition pack_request :: "64 word \<Rightarrow> json option \<Rightarrow> json option" where
  "pack_request serviceId request =
     (case request of
        None \<Rightarrow> None
      | Some r \<Rightarrow> Some (JObject [(''service.id'', JInteger (sint (ucast serviceId :: 32 word))), (''request'', r)]))"

text \<open>The third argument is what the caller's reply and status variables hold.\<close>

definition remoteServiceAdmin_send ::
    "'x rsa_env \<Rightarrow> ep_ptr \<Rightarrow> string \<Rightarrow> string option \<times> int \<Rightarrow> 'x rsa_state \<Rightarrow>
     (celix_status \<times> (string option \<times> int) \<times> 'x rsa_state) result" where
  "remoteServiceAdmin_send env p request out s =
     rbind (deref (eps s) p) (\<lambda>ep.
       case properties_get (rsa_cx env) (ep_properties ep) WIRE_ID_KEY of
         None \<Rightarrow> Inr (CELIX_ILLEGAL_ARGUMENT, out, s)
       | Some wireId \<Rightarrow>
           rbind (rsa_lock env sendServicesLock s) (\<lambda>(status, s).
             if status \<noteq> CELIX_SUCCESS then Inr (status, out, s)
             else
               rbind (case hashMap_get (string_same (rsa_cx env)) (sendServices s) wireId of
                        None \<Rightarrow> Inr (CELIX_ILLEGAL_ARGUMENT, out, s)
                      | Some q \<Rightarrow>
                          rbind (deref (sends s) q) (\<lambda>ss.
                            let json_data = dumps env (pack_request (ep_serviceId ep) (rsa_json_loads env request)) in
                            case send_service env q json_data out (outside s) of (status, (reply, replyStatus), x) \<Rightarrow>
                              let errorCount = (if status \<noteq> CELIX_SUCCESS \<or> reply = None then ss_errorCount ss + 1 else ss_errorCount ss);
                                  (errorCount, x) = (if 5 \<le> errorCount then (0, rsa_sleep env x) else (errorCount, x))
                              in Inr (status, (reply, replyStatus),
                                   s\<lparr>sends := (sends s)(q \<mapsto> ss\<lparr>ss_errorCount := errorCount\<rparr>), outside := x\<rparr>)))
                 (\<lambda>(status, out, s).
               rbind (rsa_unlock env sendServicesLock s) (\<lambda>(st, s). Inr (status, out, s)))))"

definition remoteServiceAdmin_sendServiceAdded ::
    "'x rsa_env \<Rightarrow> send_ptr \<Rightarrow> 'x rsa_state world \<Rightarrow> (celix_status \<times> 'x rsa_state world) result" where
  "remoteServiceAdmin_sendServiceAdded env q W =
     rbind (deref (sends (rest W)) q) (\<lambda>ss.
     rbind (wed_deref (ss_endpoint ss) W) (\<lambda>p.
     rbind (in_world (rsa_lock env sendServicesLock) W) (\<lambda>(status, W).
       if status \<noteq> CELIX_SUCCESS then Inr (status, W)
       else case properties_get (rsa_cx env) p WIRE_ID_KEY of
         None \<Rightarrow> Inl NullPointer
       | Some wireId \<Rightarrow>
           in_world (\<lambda>s. rsa_unlock env sendServicesLock (s\<lparr>sendServices :=
             hashMap_put (rsa_cx env) (utils_stringHash (rsa_cx env)) (string_same (rsa_cx env)) wireId q (sendServices s)\<rparr>)) W)))"

definition remoteServiceAdmin_sendServiceModified :: "'x rsa_state world \<Rightarrow> celix_status \<times> 'x rsa_state world" where
  "remoteServiceAdmin_sendServiceModified W = (CELIX_SUCCESS, W)"

definition remoteServiceAdmin_sendServiceRemoved ::
    "'x rsa_env \<Rightarrow> send_ptr \<Rightarrow> 'x rsa_state world \<Rightarrow> (celix_status \<times> 'x rsa_state world) result" where
  "remoteServiceAdmin_sendServiceRemoved env q W =
     rbind (deref (sends (rest W)) q) (\<lambda>ss.
     rbind (wed_deref (ss_endpoint ss) W) (\<lambda>p.
     rbind (in_world (rsa_lock env sendServicesLock) W) (\<lambda>(status, W).
       if status \<noteq> CELIX_SUCCESS then Inr (status, W)
       else case properties_get (rsa_cx env) p WIRE_ID_KEY of
         None \<Rightarrow> Inl NullPointer
       | Some wireId \<Rightarrow>
           in_world (\<lambda>s. rsa_unlock env sendServicesLock (s\<lparr>sendServices :=
             hashMap_remove (string_same (rsa_cx env)) wireId (sendServices s)\<rparr>)) W)))"

section \<open>Creation and end\<close>

definition remoteServiceAdmin_sendServiceAdding :: "'x rsa_env \<Rightarrow> service_reference \<Rightarrow> celix_status" where
  "remoteServiceAdmin_sendServiceAdding env ref = rsa_getService env ref"

definition track_send_service ::
    "'x rsa_env \<Rightarrow> service_reference \<times> send_ptr \<Rightarrow> 'x rsa_state world \<Rightarrow> 'x rsa_state world result" where
  "track_send_service env r W =
     (if remoteServiceAdmin_sendServiceAdding env (fst r) = CELIX_SUCCESS
      then rbind (remoteServiceAdmin_sendServiceAdded env (snd r) W) (\<lambda>(st, W). Inr W) else Inr W)"

definition remoteServiceAdmin_createSendServiceTracker ::
    "'x rsa_env \<Rightarrow> 'x rsa_state world \<Rightarrow> (celix_status \<times> 'x rsa_state world) result" where
  "remoteServiceAdmin_createSendServiceTracker env W =
     (if rsa_customizer env \<noteq> CELIX_SUCCESS then Inr (rsa_customizer env, W)
      else case rsa_createTracker env (snprintf 512 (''('' @ OSGI_FRAMEWORK_OBJECTCLASS (rsa_cx env) @ ''=wiring_send)'')) of (status, t) \<Rightarrow>
        if status = CELIX_SUCCESS \<and> fst (send_open env) = CELIX_SUCCESS
        then rbind (rfold (track_send_service env) (snd (send_open env)) W) (\<lambda>W. Inr (status, W))
        else Inr (status, W))"

definition remoteServiceAdmin_destroySendServiceTracker ::
    "'x rsa_env \<Rightarrow> 'x rsa_state world \<Rightarrow> (celix_status \<times> 'x rsa_state world) result" where
  "remoteServiceAdmin_destroySendServiceTracker env W =
     (case send_close env of (status, services) \<Rightarrow>
        rbind (rfold (\<lambda>q W. rbind (remoteServiceAdmin_sendServiceRemoved env q W) (\<lambda>(st, W). Inr W)) services W) (\<lambda>W.
          Inr (if status = CELIX_SUCCESS then send_destroy env else status, W)))"

definition no_tables :: "'x rsa_state \<Rightarrow> 'x rsa_state" where
  "no_tables s = s\<lparr>exportedServices := [], importedServices := [], rsa_receiveServices := [], rsa_receiveRegistrations := [],
     exportedWires := [], sendServices := [], rsa_listenerList := [], wtmList := [], held := []\<rparr>"

text \<open>The answers of the mutex calls are overwritten by that of the tracker.\<close>

definition remoteServiceAdmin_create ::
    "'x rsa_env \<Rightarrow> bool \<Rightarrow> 'x rsa_state world \<Rightarrow> (celix_status \<times> 'x rsa_state world) result" where
  "remoteServiceAdmin_create env calloc_ok W =
     (if \<not> calloc_ok then Inr (CELIX_ENOMEM, W)
      else remoteServiceAdmin_createSendServiceTracker env (W\<lparr>rest := no_tables (rest W)\<rparr>))"

text \<open>Stopping leaves the receivers registered; the tables of exports and imports are destroyed.\<close>

definition remoteServiceAdmin_stop :: "'x rsa_env \<Rightarrow> 'x rsa_state world \<Rightarrow> (celix_status \<times> 'x rsa_state world) result" where
  "remoteServiceAdmin_stop env W =
     rbind (in_world (\<lambda>s.
       rbind (rsa_lock env exportedServicesLock s) (\<lambda>(st, s).
       rbind (rfold (\<lambda>e s. rbind (exportRegistration_stop env e s) (\<lambda>(st, s). Inr s)) (concat (map snd (exportedServices s))) s) (\<lambda>s.
       rbind (rsa_unlock env exportedServicesLock s) (\<lambda>(st, s).
       rbind (rsa_lock env importedServicesLock s) (\<lambda>(st, s).
       rbind (rfold (\<lambda>i s. case i of None \<Rightarrow> Inr s
                       | Some a \<Rightarrow> rbind (importRegistration_stop env a s) (\<lambda>(st, s). Inr s)) (map snd (importedServices s)) s) (\<lambda>s.
       rbind (rsa_unlock env importedServicesLock s) (\<lambda>(st, s).
         Inr ((), s\<lparr>exportedServices := [], importedServices := []\<rparr>)))))))) W) (\<lambda>(u, W).
     remoteServiceAdmin_destroySendServiceTracker env W)"

definition remoteServiceAdmin_destroy :: "'x rsa_state world \<Rightarrow> celix_status \<times> 'x rsa_state world" where
  "remoteServiceAdmin_destroy W = (CELIX_SUCCESS, W\<lparr>rest := no_tables (rest W)\<rparr>)"

section \<open>The bundle activator\<close>

text \<open>
  The registration of the admin service, which \<open>remoteServiceAdmin_wtmAdded\<close> makes, is a field of
  the state; the other fields of \<^verbatim>\<open>struct activator\<close> are here.
\<close>

record rsa_activator =
  act_admin :: bool
  act_adminService :: bool
  act_listenerRegistration :: "registration option"
  act_eplTracker :: "tracker option"
  act_wtmTracker :: "tracker option"

record rsa_start =
  admin_calloc :: bool
  service_calloc :: bool
  listener_calloc :: bool
  epl_customizer :: celix_status
  epl_create :: "celix_status \<times> tracker"
  epl_open :: "service_reference list"
  epl_close :: "service_reference list"
  wtm_customizer :: celix_status
  wtm_create :: "celix_status \<times> tracker"
  wtm_open :: "(service_reference \<times> nat) list"
  register_listener :: "properties \<Rightarrow> celix_status \<times> registration"

definition rsa_bundleActivator_create :: "bool \<Rightarrow> celix_status \<times> rsa_activator option" where
  "rsa_bundleActivator_create calloc_ok =
     (if calloc_ok
      then (CELIX_SUCCESS, Some \<lparr>act_admin = False, act_adminService = False, act_listenerRegistration = None,
              act_eplTracker = None, act_wtmTracker = None\<rparr>)
      else (CELIX_ENOMEM, None))"

definition rsa_bundleActivator_createEPLTracker :: "rsa_start \<Rightarrow> celix_status \<times> tracker option" where
  "rsa_bundleActivator_createEPLTracker b =
     (if epl_customizer b = CELIX_SUCCESS then (case epl_create b of (st, t) \<Rightarrow> (st, if st = CELIX_SUCCESS then Some t else None))
      else (epl_customizer b, None))"

definition rsa_bundleActivator_createWTMTracker :: "rsa_start \<Rightarrow> celix_status \<times> tracker option" where
  "rsa_bundleActivator_createWTMTracker b =
     (if wtm_customizer b = CELIX_SUCCESS then (case wtm_create b of (st, t) \<Rightarrow> (st, if st = CELIX_SUCCESS then Some t else None))
      else (wtm_customizer b, None))"

definition remoteServiceAdmin_wtmAdding :: "'x rsa_env \<Rightarrow> service_reference \<Rightarrow> celix_status" where
  "remoteServiceAdmin_wtmAdding env ref = rsa_getService env ref"

definition track_wtm :: "'x rsa_env \<Rightarrow> service_reference \<times> nat \<Rightarrow> 'x rsa_state world \<Rightarrow> 'x rsa_state world result" where
  "track_wtm env r W =
     (if remoteServiceAdmin_wtmAdding env (fst r) = CELIX_SUCCESS
      then rbind (remoteServiceAdmin_wtmAdded env (snd r) W) (\<lambda>(st, W). Inr W) else Inr W)"

text \<open>
  The scope of the wiring endpoint listener is written into an array of as many characters as
  the names and the identifier have, and twelve more.
\<close>

definition listener_scope :: "celix \<Rightarrow> string option \<Rightarrow> string result" where
  "listener_scope cx uuid =
     (case uuid of
        None \<Rightarrow> Inl NullPointer
      | Some u \<Rightarrow>
          (let len = 11 + length (OSGI_FRAMEWORK_OBJECTCLASS cx) + length (OSGI_RSA_ENDPOINT_FRAMEWORK_UUID cx) + length u;
               scope = ''('' @ OSGI_RSA_ENDPOINT_FRAMEWORK_UUID cx @ ''='' @ u @ '')''
           in if length scope < len + 1 then Inr scope else Inl BufferOverflow))"

definition open_trackers ::
    "'x rsa_env \<Rightarrow> rsa_start \<Rightarrow> rsa_activator \<Rightarrow> 'x rsa_state world \<Rightarrow> (celix_status \<times> rsa_activator \<times> 'x rsa_state world) result" where
  "open_trackers env b act W =
     (let cx = rsa_cx env in
      rbind (listener_scope cx (snd (bundleContext_getProperty cx (OSGI_FRAMEWORK_FRAMEWORK_UUID cx)))) (\<lambda>scope.
        let props = properties_set cx (properties_set cx [] ''wiring.endpoint.listener.scope'' (Some scope)) ''RSA'' (Some ''true'') in
        rbind (in_world (\<lambda>s. rbind (rfold (\<lambda>ref s. rbind (remoteServiceAdmin_endpointListenerAdded env ref s) (\<lambda>(st, s). Inr s))
                                      (epl_open b) s) (\<lambda>s. Inr ((), s))) W) (\<lambda>(u, W).
        case register_listener b props of (status, r) \<Rightarrow>
          rbind (rfold (track_wtm env) (wtm_open b) W) (\<lambda>W.
            Inr (status, act\<lparr>act_adminService := True,
                   act_listenerRegistration := (if status = CELIX_SUCCESS then Some r else None)\<rparr>, W)))))"

definition rsa_bundleActivator_start ::
    "'x rsa_env \<Rightarrow> rsa_start \<Rightarrow> rsa_activator \<Rightarrow> 'x rsa_state world \<Rightarrow> (celix_status \<times> rsa_activator \<times> 'x rsa_state world) result" where
  "rsa_bundleActivator_start env b act W =
     rbind (remoteServiceAdmin_create env (admin_calloc b) W) (\<lambda>(status, W).
       let act = act\<lparr>act_admin := admin_calloc b\<rparr> in
       if status \<noteq> CELIX_SUCCESS then Inr (status, act, W)
       else if \<not> service_calloc b \<or> \<not> listener_calloc b then Inr (CELIX_ENOMEM, act, W)
       else case rsa_bundleActivator_createEPLTracker b of (status, epl) \<Rightarrow>
         (let act = act\<lparr>act_eplTracker := epl\<rparr> in
          if status \<noteq> CELIX_SUCCESS then Inr (status, act, W)
          else case rsa_bundleActivator_createWTMTracker b of (status, wtm) \<Rightarrow>
            (let act = act\<lparr>act_wtmTracker := wtm\<rparr> in
             if status \<noteq> CELIX_SUCCESS then Inr (status, act, W)
             else open_trackers env b act W)))"

text \<open>
  Stopping goes through the admin also when it was never created, and unregisters the wiring
  endpoint listener last, after the admin it works for is gone.
\<close>

definition rsa_bundleActivator_stop ::
    "'x rsa_env \<Rightarrow> rsa_start \<Rightarrow> rsa_activator \<Rightarrow> 'x rsa_state world \<Rightarrow> (celix_status \<times> rsa_activator \<times> 'x rsa_state world) result" where
  "rsa_bundleActivator_stop env b act W =
     rbind (if act_eplTracker act = None then Inr W
            else rbind (in_world (\<lambda>s. rbind (rfold (\<lambda>ref s. rbind (remoteServiceAdmin_endpointListenerRemoved env ref s) (\<lambda>(st, s). Inr s))
                                               (epl_close b) s) (\<lambda>s. Inr ((), s))) W) (\<lambda>(u, W). Inr W)) (\<lambda>W.
       if \<not> act_admin act then Inl NullPointer
       else rbind (remoteServiceAdmin_stop env (W\<lparr>rest := (rest W)\<lparr>rsa_registration := None\<rparr>\<rparr>)) (\<lambda>(st, W).
         case (remoteServiceAdmin_destroy W, act_listenerRegistration act) of ((st, W), r) \<Rightarrow>
           if r = None then Inl NullPointer
           else Inr (CELIX_SUCCESS, act\<lparr>act_admin := False\<rparr>, W)))"

end
