(* ===== verification/Rsa_Proxies.thy ===== *)
theory Rsa_Proxies
  imports Rsa
begin

text \<open>
  The proxies of an import registration: they count their users exactly, a proxy lives as
  long as it is used, and giving up an import that is still used destroys its proxies twice.
\<close>

section \<open>The state of the proxies\<close>

text \<open>What an import promises its clients: for every bundle the number of services it holds.\<close>

definition use_count :: "'x rsa_state \<Rightarrow> imp_ptr \<Rightarrow> bundle_pt \<Rightarrow> nat" where
  "use_count s a b =
     (case imps s a of None \<Rightarrow> 0
      | Some reg \<Rightarrow> (case map_of (ir_proxies reg) b of None \<Rightarrow> 0
          | Some p \<Rightarrow> (case proxs s p of None \<Rightarrow> 0 | Some sp \<Rightarrow> unat (sp_count sp))))"

definition proxies_inv :: "'x rsa_state \<Rightarrow> imp_ptr \<Rightarrow> bool" where
  "proxies_inv s a \<longleftrightarrow> (\<exists>reg. imps s a = Some reg \<and> distinct (map fst (ir_proxies reg)) \<and>
     inj_on (map_of (ir_proxies reg)) (dom (map_of (ir_proxies reg))) \<and>
     (\<forall>b p. map_of (ir_proxies reg) b = Some p \<longrightarrow> (\<exists>sp. proxs s p = Some sp \<and> sp_count sp \<noteq> 0)))"

lemma proxies_invE:
  assumes "proxies_inv s a"
  obtains reg where "imps s a = Some reg" "distinct (map fst (ir_proxies reg))"
    "\<And>b p. map_of (ir_proxies reg) b = Some p \<Longrightarrow> \<exists>sp. proxs s p = Some sp \<and> sp_count sp \<noteq> 0"
    "\<And>b b' p. map_of (ir_proxies reg) b = Some p \<Longrightarrow> map_of (ir_proxies reg) b' = Some p \<Longrightarrow> b = b'"
  using assms unfolding proxies_inv_def by (fastforce simp: inj_on_def dom_def)

lemma proxies_invI:
  assumes "imps s a = Some reg" "distinct (map fst (ir_proxies reg))"
    and "\<And>b p. map_of (ir_proxies reg) b = Some p \<Longrightarrow> \<exists>sp. proxs s p = Some sp \<and> sp_count sp \<noteq> 0"
    and "\<And>b b' p. map_of (ir_proxies reg) b = Some p \<Longrightarrow> map_of (ir_proxies reg) b' = Some p \<Longrightarrow> b = b'"
  shows "proxies_inv s a"
  unfolding proxies_inv_def
  by (intro exI [of _ reg] conjI assms(1,2)) (auto simp: inj_on_def dom_def dest: assms(3,4))

lemma proxy_live:
  assumes "proxies_inv s a" "imps s a = Some reg" "map_of (ir_proxies reg) b = Some p"
  obtains sp where "proxs s p = Some sp" "sp_count sp \<noteq> 0"
  using assms by (elim proxies_invE) (metis option.inject)

lemma unat_count_Suc: "unat (c :: 64 word) + 1 < 2 ^ 64 \<Longrightarrow> unat (c + 1) = unat c + 1 \<and> c + 1 \<noteq> 0"
  by (simp add: unat_word_ariths unat_eq_0 [symmetric])

lemma unat_count_pred: "(c :: 64 word) \<noteq> 0 \<Longrightarrow> unat (c - 1) = unat c - 1"
  by (simp add: unat_minus_one)

text \<open>A proxy that is made: a fresh object that is not counted yet.\<close>

lemma createProxy_SomeE:
  assumes "importRegistration_createProxy env a b s = Inr (st, Some p, s')"
  obtains sp where "s' = s\<lparr>proxs := (proxs s)(p \<mapsto> sp)\<rparr>" "proxs s p = None" "sp_count sp = 0" "st = CELIX_SUCCESS"
proof -
  obtain reg where reg: "imps s a = Some reg"
    using assms by (auto simp: importRegistration_createProxy_def rbind_eq_Inr)
  obtain st0 df where "bundle_getEntry env b (snprintf 128 (ir_classObject reg @ ''.descriptor'')) = (st0, df)"
    by fastforce
  then show ?thesis
    using assms that reg new_object_Some [of env ProxyKind "\<lambda>p. proxs s p \<noteq> None" s]
    by (simp add: importRegistration_createProxy_def deref_def Let_def do_if_def
        split: prod.split_asm option.split_asm if_split_asm) force
qed

section \<open>One step\<close>

text \<open>The heap and the table after a new user of a proxy that is there, and of a new proxy.\<close>

lemma getService_known:
  assumes "imps s a = Some reg" "map_of (ir_proxies reg) b = Some p" "proxs s p = Some sp"
  shows "importRegistration_getService env a b s =
    Inr (CELIX_SUCCESS, Some (sp_service sp), s\<lparr>proxs := (proxs s)(p \<mapsto> sp\<lparr>sp_count := sp_count sp + 1\<rparr>)\<rparr>)"
  using assms by (simp add: importRegistration_getService_def deref_def pmap.get_map_of)

lemma getService_new:
  assumes "imps s a = Some reg" "map_of (ir_proxies reg) b = None"
    and "importRegistration_getService env a b s = Inr (CELIX_SUCCESS, Some out, s')"
  obtains p sp q where "proxs s p = None" "sp_count sp = 1"
    "s' = s\<lparr>proxs := (proxs s)(p \<mapsto> sp), imps := (imps s)(a \<mapsto> reg\<lparr>ir_proxies := q\<rparr>)\<rparr>"
    "q = hashMap_put (rsa_cx env) (ptr_hash (rsa_cx env)) (ptr_same (rsa_cx env)) b p (ir_proxies reg)"
proof -
  have get: "rbind (rbind (importRegistration_createProxy env a b s) (\<lambda>(st, proxy, s1).
        case proxy of None \<Rightarrow> Inr (st, None, s1)
        | Some p \<Rightarrow> Inr (st, Some p, s1\<lparr>imps := (imps s1)(a \<mapsto> reg\<lparr>ir_proxies :=
            hashMap_put (rsa_cx env) (ptr_hash (rsa_cx env)) (ptr_same (rsa_cx env)) b p (ir_proxies reg)\<rparr>)\<rparr>)))
      (\<lambda>(st, proxy, s1). case proxy of None \<Rightarrow> Inr (st, None, s1)
        | Some p \<Rightarrow> rbind (deref (proxs s1) p) (\<lambda>sp.
            Inr (st, Some (sp_service sp), s1\<lparr>proxs := (proxs s1)(p \<mapsto> sp\<lparr>sp_count := sp_count sp + 1\<rparr>)\<rparr>))) =
      Inr (CELIX_SUCCESS, Some out, s')"
    using assms by (simp add: importRegistration_getService_def deref_def pmap.get_map_of)
  obtain st p s1 where made: "importRegistration_createProxy env a b s = Inr (st, Some p, s1)"
    and rest: "rbind (deref (proxs s1) p) (\<lambda>sp. Inr (st, Some (sp_service sp),
        s1\<lparr>imps := (imps s1)(a \<mapsto> reg\<lparr>ir_proxies :=
              hashMap_put (rsa_cx env) (ptr_hash (rsa_cx env)) (ptr_same (rsa_cx env)) b p (ir_proxies reg)\<rparr>),
           proxs := (proxs s1)(p \<mapsto> sp\<lparr>sp_count := sp_count sp + 1\<rparr>)\<rparr>)) = Inr (CELIX_SUCCESS, Some out, s')"
    using get by (cases "importRegistration_createProxy env a b s") (auto split: option.split_asm)
  obtain sp where "s1 = s\<lparr>proxs := (proxs s)(p \<mapsto> sp)\<rparr>" "proxs s p = None" "sp_count sp = 0"
    using made by (rule createProxy_SomeE)
  with rest show ?thesis
    by (intro that [of p "sp\<lparr>sp_count := 1\<rparr>"]) (auto simp: deref_def)
qed

lemma getService_step:
  assumes "proxies_inv s a" "use_count s a b + 1 < 2 ^ 64"
    and "importRegistration_getService env a b s = Inr (CELIX_SUCCESS, Some out, s')"
  shows "proxies_inv s' a \<and> use_count s' a = (use_count s a)(b := use_count s a b + 1)"
  using assms(1)
proof (rule proxies_invE)
  fix reg
  assume reg: "imps s a = Some reg" "distinct (map fst (ir_proxies reg))"
    "\<And>b p. map_of (ir_proxies reg) b = Some p \<Longrightarrow> \<exists>sp. proxs s p = Some sp \<and> sp_count sp \<noteq> 0"
    "\<And>b b' p. map_of (ir_proxies reg) b = Some p \<Longrightarrow> map_of (ir_proxies reg) b' = Some p \<Longrightarrow> b = b'"
  show ?thesis
  proof (cases "map_of (ir_proxies reg) b")
    case (Some p)
    then obtain sp where sp: "proxs s p = Some sp" using reg(3) by blast
    have s': "s' = s\<lparr>proxs := (proxs s)(p \<mapsto> sp\<lparr>sp_count := sp_count sp + 1\<rparr>)\<rparr>"
      using getService_known [OF reg(1) Some sp] assms(3) by simp
    have bound: "unat (sp_count sp) + 1 < 2 ^ 64" using assms(2) Some sp reg(1) by (simp add: use_count_def)
    have "map_of (ir_proxies reg) c \<noteq> Some p" if "c \<noteq> b" for c using that reg(4) [OF Some, of c] by blast
    then have "use_count s' a c = ((use_count s a)(b := use_count s a b + 1)) c" for c
      using s' Some sp reg(1) unat_count_Suc [OF bound]
      by (cases "c = b") (simp_all add: use_count_def split: option.split)
    moreover have "proxies_inv s' a"
      by (rule proxies_invI [of s' a reg]) (use s' reg unat_count_Suc [OF bound] in auto)
    ultimately show ?thesis by blast
  next
    case None
    then obtain p sp q where n: "proxs s p = None" "sp_count sp = 1"
      "s' = s\<lparr>proxs := (proxs s)(p \<mapsto> sp), imps := (imps s)(a \<mapsto> reg\<lparr>ir_proxies := q\<rparr>)\<rparr>"
      "q = hashMap_put (rsa_cx env) (ptr_hash (rsa_cx env)) (ptr_same (rsa_cx env)) b p (ir_proxies reg)"
      using getService_new [OF reg(1) None assms(3)] by blast
    have q: "map_of q = (map_of (ir_proxies reg))(b \<mapsto> p)" "distinct (map fst q)"
      using n(4) reg(2) by (simp_all add: pmap.put_map_of pmap.put_distinct)
    have old: "map_of (ir_proxies reg) c \<noteq> Some p" for c using reg(3) [of c p] n(1) by auto
    have "use_count s' a c = ((use_count s a)(b := use_count s a b + 1)) c" for c
      using n q None reg(1) old [of c] by (auto simp: use_count_def split: option.split)
    moreover have "proxies_inv s' a"
    proof (rule proxies_invI [of s' a "reg\<lparr>ir_proxies := q\<rparr>"])
      fix c r assume "map_of (ir_proxies (reg\<lparr>ir_proxies := q\<rparr>)) c = Some r"
      then show "\<exists>sp. proxs s' r = Some sp \<and> sp_count sp \<noteq> 0"
        using q n reg(3) [of c r] by (auto split: if_split_asm)
    next
      fix c c' r
      assume "map_of (ir_proxies (reg\<lparr>ir_proxies := q\<rparr>)) c = Some r" "map_of (ir_proxies (reg\<lparr>ir_proxies := q\<rparr>)) c' = Some r"
      then show "c = c'"
        using q old [of c] old [of c'] reg(4) [of c r c'] by (auto split: if_split_asm)
    qed (use n q in auto)
    ultimately show ?thesis by blast
  qed
qed

text \<open>Giving a service back with the table that was handed out.\<close>

lemma ungetService_eq:
  assumes "imps s a = Some reg" "map_of (ir_proxies reg) b = Some p" "proxs s p = Some sp"
  shows "importRegistration_ungetService env a b (sp_service sp) s =
    Inr (CELIX_SUCCESS,
      if sp_count sp = 1
      then s\<lparr>proxs := (proxs s)(p := None),
             imps := (imps s)(a \<mapsto> reg\<lparr>ir_proxies := hashMap_remove (ptr_same (rsa_cx env)) b (ir_proxies reg)\<rparr>)\<rparr>
      else s\<lparr>proxs := (proxs s)(p \<mapsto> sp\<lparr>sp_count := sp_count sp - 1\<rparr>)\<rparr>)"
  using assms
  by (simp add: importRegistration_ungetService_def importRegistration_destroyProxy_def deref_def pmap.get_map_of Let_def)

lemma ungetService_step:
  assumes "proxies_inv s a" "imps s a = Some reg" "map_of (ir_proxies reg) b = Some p" "proxs s p = Some sp"
    and "importRegistration_ungetService env a b (sp_service sp) s = Inr (st, s')"
  shows "st = CELIX_SUCCESS \<and> proxies_inv s' a \<and> use_count s' a = (use_count s a)(b := use_count s a b - 1) \<and> 0 < use_count s a b"
  using assms(1)
proof (rule proxies_invE)
  fix reg'
  assume "imps s a = Some reg'" and d: "distinct (map fst (ir_proxies reg'))"
    and l: "\<And>b p. map_of (ir_proxies reg') b = Some p \<Longrightarrow> \<exists>sp. proxs s p = Some sp \<and> sp_count sp \<noteq> 0"
    and i: "\<And>b b' p. map_of (ir_proxies reg') b = Some p \<Longrightarrow> map_of (ir_proxies reg') b' = Some p \<Longrightarrow> b = b'"
  then have reg: "reg' = reg" using assms(2) by simp
  note d = d [unfolded reg] and l = l [unfolded reg] and i = i [unfolded reg]
  have count: "sp_count sp \<noteq> 0" using l [OF assms(3)] assms(4) by auto
  then have pos: "0 < use_count s a b" using assms(2-4) by (simp add: use_count_def unat_gt_0)
  have other: "map_of (ir_proxies reg) c \<noteq> Some p" if "c \<noteq> b" for c using that i [OF assms(3), of c] by blast
  note eq = ungetService_eq [OF assms(2-4), of env, unfolded assms(5)]
  show ?thesis
  proof (cases "sp_count sp = 1")
    case True
    have m: "map_of (hashMap_remove (ptr_same (rsa_cx env)) b (ir_proxies reg)) = (map_of (ir_proxies reg))(b := None)"
        "distinct (map fst (hashMap_remove (ptr_same (rsa_cx env)) b (ir_proxies reg)))"
      using d by (simp_all add: pmap.remove_map_of pmap.remove_distinct)
    have "use_count s' a c = ((use_count s a)(b := use_count s a b - 1)) c" for c
      using eq True m(1) assms(2-4) other [of c]
      by (cases "c = b") (simp_all add: use_count_def split: option.split)
    moreover have "proxies_inv s' a"
    proof (rule proxies_invI [of s' a "reg\<lparr>ir_proxies := hashMap_remove (ptr_same (rsa_cx env)) b (ir_proxies reg)\<rparr>"])
      fix c r
      assume "map_of (ir_proxies (reg\<lparr>ir_proxies := hashMap_remove (ptr_same (rsa_cx env)) b (ir_proxies reg)\<rparr>)) c = Some r"
      then have c: "c \<noteq> b" "map_of (ir_proxies reg) c = Some r" using m(1) by (simp_all split: if_split_asm)
      then have "r \<noteq> p" using i [OF assms(3), of c] by auto
      then show "\<exists>sp. proxs s' r = Some sp \<and> sp_count sp \<noteq> 0" using eq True l [OF c(2)] by simp
    next
      fix c c' r
      assume "map_of (ir_proxies (reg\<lparr>ir_proxies := hashMap_remove (ptr_same (rsa_cx env)) b (ir_proxies reg)\<rparr>)) c = Some r"
        "map_of (ir_proxies (reg\<lparr>ir_proxies := hashMap_remove (ptr_same (rsa_cx env)) b (ir_proxies reg)\<rparr>)) c' = Some r"
      then show "c = c'" using m(1) i [of c r c'] by (simp split: if_split_asm)
    qed (use eq True m in auto)
    ultimately show ?thesis using eq pos by blast
  next
    case False
    then have "sp_count sp - 1 \<noteq> 0" by simp
    then have "proxies_inv s' a"
      by (intro proxies_invI [of s' a reg]) (use eq False d l i assms(2) in auto)
    moreover have "use_count s' a c = ((use_count s a)(b := use_count s a b - 1)) c" for c
      using eq False assms(2-4) other [of c] unat_count_pred [OF count]
      by (cases "c = b") (simp_all add: use_count_def split: option.split)
    ultimately show ?thesis using eq pos by blast
  qed
qed

section \<open>Runs\<close>

text \<open>
  What a framework may do with a service factory: get services and give them back, for any
  bundles in any order.
\<close>

datatype 'b use = Get 'b | Unget 'b

inductive uses_run :: "('b \<Rightarrow> 's \<Rightarrow> 's \<Rightarrow> bool) \<Rightarrow> ('b \<Rightarrow> 's \<Rightarrow> 's \<Rightarrow> bool) \<Rightarrow> 's \<Rightarrow> 'b use list \<Rightarrow> 's \<Rightarrow> bool"
  for get unget s where
  none: "uses_run get unget s [] s"
| got: "uses_run get unget s es s1 \<Longrightarrow> get b s1 s2 \<Longrightarrow> uses_run get unget s (es @ [Get b]) s2"
| given_back: "uses_run get unget s es s1 \<Longrightarrow> unget b s1 s2 \<Longrightarrow> uses_run get unget s (es @ [Unget b]) s2"

text \<open>The contract of a factory that counts: at most \<open>most\<close> uses per bundle, and none is given back twice.\<close>

locale counted_service =
  fixes good :: "'s \<Rightarrow> bool"
    and uses :: "'s \<Rightarrow> 'b \<Rightarrow> nat"
    and get unget :: "'b \<Rightarrow> 's \<Rightarrow> 's \<Rightarrow> bool"
    and most :: nat
  assumes get_step: "good s \<Longrightarrow> uses s b < most \<Longrightarrow> get b s s' \<Longrightarrow> good s' \<and> uses s' = (uses s)(b := uses s b + 1)"
    and unget_step: "good s \<Longrightarrow> unget b s s' \<Longrightarrow> good s' \<and> 0 < uses s b \<and> uses s' = (uses s)(b := uses s b - 1)"
begin

lemma run_counts:
  assumes "uses_run get unget s es s'" "good s" "\<And>b. uses s b = 0" "length es \<le> most"
  shows "good s' \<and> (\<forall>b. uses s' b + count_list es (Unget b) = count_list es (Get b))"
  using assms(1,4)
proof (induction rule: uses_run.induct)
  case none
  then show ?case using assms(2,3) by simp
next
  case (got es s1 b s2)
  then have IH: "good s1" "\<And>c. uses s1 c + count_list es (Unget c) = count_list es (Get c)" by simp_all
  have "uses s1 b < most" using IH(2) [of b] got.prems count_le_length [of es "Get b"] by simp
  then have "good s2" "uses s2 = (uses s1)(b := uses s1 b + 1)" using get_step [OF IH(1) _ got.hyps(2)] by simp_all
  then show ?case using IH(2) [of b] IH(2) by auto
next
  case (given_back es s1 b s2)
  then have IH: "good s1" "\<And>c. uses s1 c + count_list es (Unget c) = count_list es (Get c)" by simp_all
  have "good s2" "0 < uses s1 b" "uses s2 = (uses s1)(b := uses s1 b - 1)" using unget_step [OF IH(1) given_back.hyps(2)] by simp_all
  moreover from this have "uses s2 c + count_list (es @ [Unget b]) (Unget c) = count_list (es @ [Unget b]) (Get c)" for c
    using IH(2) [of c] by (cases "c = b") auto
  ultimately show ?case by blast
qed

end

definition proxy_get :: "'x rsa_env \<Rightarrow> imp_ptr \<Rightarrow> bundle_pt \<Rightarrow> 'x rsa_state \<Rightarrow> 'x rsa_state \<Rightarrow> bool" where
  "proxy_get env a b s s' \<longleftrightarrow> (\<exists>out. importRegistration_getService env a b s = Inr (CELIX_SUCCESS, Some out, s'))"

text \<open>A bundle gives back the table it was handed.\<close>

definition proxy_unget :: "'x rsa_env \<Rightarrow> imp_ptr \<Rightarrow> bundle_pt \<Rightarrow> 'x rsa_state \<Rightarrow> 'x rsa_state \<Rightarrow> bool" where
  "proxy_unget env a b s s' \<longleftrightarrow> (\<exists>reg p sp st. imps s a = Some reg \<and> map_of (ir_proxies reg) b = Some p \<and> proxs s p = Some sp \<and>
     importRegistration_ungetService env a b (sp_service sp) s = Inr (st, s'))"

interpretation proxies: counted_service "\<lambda>s. proxies_inv s a" "\<lambda>s. use_count s a" "proxy_get env a" "proxy_unget env a" "2 ^ 64 - 1"
  for env a
proof unfold_locales
  fix s s' :: "'a rsa_state" and b
  assume "proxies_inv s a" "use_count s a b < 2 ^ 64 - 1" "proxy_get env a b s s'"
  then show "proxies_inv s' a \<and> use_count s' a = (use_count s a)(b := use_count s a b + 1)"
    using getService_step [of s a b env] by (auto simp: proxy_get_def)
next
  fix s s' :: "'a rsa_state" and b
  assume "proxies_inv s a" "proxy_unget env a b s s'"
  then show "proxies_inv s' a \<and> 0 < use_count s a b \<and> use_count s' a = (use_count s a)(b := use_count s a b - 1)"
    using ungetService_step [of s a] unfolding proxy_unget_def by blast
qed

lemma import_created:
  assumes "importRegistration_create env ep c s0 = (st, Some a, s)"
  shows "proxies_inv s a" "use_count s a b = 0"
  using assms
  by (auto simp: importRegistration_create_def proxies_inv_def use_count_def split: option.splits)

lemma in_table_iff_used:
  assumes "proxies_inv s a" "imps s a = Some reg"
  shows "b \<in> fst ` set (ir_proxies reg) \<longleftrightarrow> 0 < use_count s a b"
proof -
  have "b \<in> fst ` set (ir_proxies reg) \<longleftrightarrow> (\<exists>p. map_of (ir_proxies reg) b = Some p)"
    by (metis map_of_eq_None_iff not_Some_eq)
  moreover have "0 < use_count s a b" if "map_of (ir_proxies reg) b = Some p" for p
    by (rule proxy_live [OF assms that]) (use assms(2) that in \<open>simp add: use_count_def unat_gt_0\<close>)
  ultimately show ?thesis using assms(2) by (auto simp: use_count_def split: option.splits)
qed

text \<open>
  C20. The proxy factory of an import counts its users: after any sequence of services got and
  given back, in which nothing failed, the count of every bundle is the number of services it
  got less the number it gave back, and the factory keeps a proxy exactly for the bundles
  that still hold one, alive and with that count.
\<close>

theorem proxy_uses_counted:
  assumes "importRegistration_create env ep c s0 = (st, Some a, s)"
    and "uses_run (proxy_get env a) (proxy_unget env a) s es s'" "length es < 2 ^ 64"
  shows "\<exists>reg. imps s' a = Some reg \<and>
    (\<forall>b. use_count s' a b + count_list es (Unget b) = count_list es (Get b)) \<and>
    (\<forall>b. b \<in> fst ` set (ir_proxies reg) \<longleftrightarrow> count_list es (Unget b) < count_list es (Get b)) \<and>
    (\<forall>b p. map_of (ir_proxies reg) b = Some p \<longrightarrow>
       (\<exists>sp. proxs s' p = Some sp \<and> unat (sp_count sp) = count_list es (Get b) - count_list es (Unget b)))"
proof -
  have run: "proxies_inv s' a" "\<And>b. use_count s' a b + count_list es (Unget b) = count_list es (Get b)"
    using proxies.run_counts [OF assms(2) import_created [OF assms(1)]] assms(3) by simp_all
  obtain reg where reg: "imps s' a = Some reg" using run(1) by (auto simp: proxies_inv_def)
  have table: "b \<in> fst ` set (ir_proxies reg) \<longleftrightarrow> count_list es (Unget b) < count_list es (Get b)" for b
    using in_table_iff_used [OF run(1) reg, of b] run(2) [of b] by linarith
  have "\<exists>sp. proxs s' p = Some sp \<and> unat (sp_count sp) = count_list es (Get b) - count_list es (Unget b)"
    if p: "map_of (ir_proxies reg) b = Some p" for b p
  proof -
    obtain sp where "proxs s' p = Some sp" using proxy_live [OF run(1) reg p] by blast
    then show ?thesis using p reg run(2) [of b] by (auto simp: use_count_def)
  qed
  with reg run(2) table show ?thesis by blast
qed

text \<open>
  An environment for the witnesses: every bundle has a descriptor, an interface has two
  methods, objects get the next free addresses, every framework call succeeds, the services
  answer a request with its own text, and a topology manager accepts everything.
\<close>

definition demo_env_on :: "('x \<Rightarrow> 'x) \<Rightarrow> 'x rsa_env" where
  "demo_env_on bump = \<lparr>rsa_cx = celix0,
     rsa_calloc = (\<lambda>k s. case k of
        EndpointKind \<Rightarrow> Some (if eps s 1 = None then 1 else 2) | ExportKind \<Rightarrow> Some (if exps s 1 = None then 1 else 2)
      | ReferenceKind \<Rightarrow> Some (Suc (fold max (map fst (exportedServices s)) 0)) | ImportKind \<Rightarrow> Some (if imps s 1 = None then 1 else 2)
      | ProxyKind \<Rightarrow> Some (if proxs s 1 = None then 1 else 2) | TableKind \<Rightarrow> Some 50 | ReceiverKind \<Rightarrow> Some 30),
     rsa_uuid = (\<lambda>s. ''ep-1''), sr_status = (\<lambda>r k. CELIX_SUCCESS), sr_keys = (\<lambda>r. [''service.id'', ''objectClass'']),
     sr_bundle = (\<lambda>r. (CELIX_SUCCESS, 3)), getServiceReferences = (\<lambda>f x. [7]), ungetServiceReference = (\<lambda>r. CELIX_SUCCESS),
     bundle_getEntry = (\<lambda>b n. (CELIX_SUCCESS, Some n)), rsa_fopen = (\<lambda>f. True), dynInterface_parse = (\<lambda>f. (0, Some 4)),
     dynInterface_methods = (\<lambda>i. [0, 1]), dynFunction_createClosure = (\<lambda>m. (0, m + 60)),
     jsonRpc_call = (\<lambda>i sv d x. (CELIX_SUCCESS, d, bump x)),
     rsa_customizer = CELIX_SUCCESS, rsa_createTracker = (\<lambda>f. (CELIX_SUCCESS, 5)), er_open = (\<lambda>t. [70]), er_close = (\<lambda>t. [70]),
     registerServiceFactory = (\<lambda>c a. (CELIX_SUCCESS, 8)), ir_unregister = (\<lambda>r. []),
     rsa_json_loads = (\<lambda>t. if t = ''{q}'' then Some (JObject [(''m'', JString ''inc'')])
        else if t = ''{3 {q}}'' then Some (JObject [(''service.id'', JInteger 3), (''request'', JObject [(''m'', JString ''inc'')])]) else None),
     rsa_json_dumps = (\<lambda>j. if j = JObject [(''m'', JString ''inc'')] then Some ''{q}''
        else if j = JObject [(''service.id'', JInteger 3), (''request'', JObject [(''m'', JString ''inc'')])] then Some ''{3 {q}}'' else None),
     registerReceive = (\<lambda>r p x. (CELIX_SUCCESS, 9, x)), unregisterReceive = (\<lambda>r x. (CELIX_SUCCESS, x)),
     send_service = (\<lambda>q d out x. (CELIX_SUCCESS, (d, 0), x)), rsa_sleep = (\<lambda>x. x), send_open = (CELIX_SUCCESS, []),
     send_close = (CELIX_SUCCESS, []), send_destroy = CELIX_SUCCESS, rsa_getService = (\<lambda>r. CELIX_SUCCESS),
     endpointAdded = (\<lambda>r ep sc x. (CELIX_SUCCESS, bump x)),
     wtm_export = (\<lambda>m p W. Inr (CELIX_SUCCESS, W)), wtm_import = (\<lambda>m p W. Inr (CELIX_SUCCESS, W)),
     registerAdmin = (CELIX_SUCCESS, 6), unlock_free_ok = True,
     OSGI_RSA_ENDPOINT_SERVICE_ID = ''endpoint.service.id'', OSGI_RSA_ENDPOINT_ID = ''endpoint.id'',
     OSGI_RSA_SERVICE_EXPORTED_INTERFACES = ''service.exported.interfaces'', OSGI_RSA_SERVICE_IMPORTED = ''service.imported'',
     OSGI_RSA_SERVICE_IMPORTED_CONFIGS = ''service.imported.configs'', OSGI_ENDPOINT_LISTENER_SCOPE = ''endpoint.listener.scope''\<rparr>"

definition demo_rsa_env :: "nat rsa_env" where
  "demo_rsa_env = demo_env_on Suc"

definition demo_ep :: endpoint_description where
  "demo_ep = \<lparr>frameworkUUID = Some ''fw-2'', ep_id = Some ''ep-9'', ep_service = Some ''calc'',
     ep_properties = [(WIRE_ID_KEY, ''w1''), (''objectClass'', ''calc'')], ep_serviceId = 3\<rparr>"

definition demo_rsa :: "nat rsa_state" where
  "demo_rsa = \<lparr>eps = [1 \<mapsto> demo_ep], exps = Map.empty, imps = Map.empty, proxs = Map.empty, sends = Map.empty, rcvs = Map.empty,
     exportedServices = [], importedServices = [], rsa_receiveServices = [], rsa_receiveRegistrations = [], exportedWires = [],
     sendServices = [], rsa_listenerList = [], wtmList = [], rsa_registration = None, held = [], outside = 0\<rparr>"

lemmas demo_rsa_defs = demo_rsa_env_def demo_env_on_def demo_ep_def demo_rsa_def celix0_def new_object_def

definition demo_imported :: "nat rsa_state" where
  "demo_imported = demo_rsa\<lparr>imps := [1 \<mapsto> \<lparr>ir_endpoint = 1, ir_classObject = ''calc'', ir_send = None, ir_factoryReg = None,
     ir_proxies = []\<rparr>]\<rparr>"

definition demo_used :: "nat \<Rightarrow> nat rsa_state" where
  "demo_used n = demo_rsa\<lparr>imps := [1 \<mapsto> \<lparr>ir_endpoint = 1, ir_classObject = ''calc'', ir_send = None, ir_factoryReg = None,
       ir_proxies = [(3, 1)]\<rparr>],
     proxs := [1 \<mapsto> \<lparr>sp_intf = 4, sp_service = 50, sp_table = (1, [60, 61]), sp_count = of_nat n\<rparr>]\<rparr>"

lemma demo_get: "proxy_get demo_rsa_env 1 3 demo_imported (demo_used 1)" "proxy_get demo_rsa_env 1 3 (demo_used 1) (demo_used 2)"
  by (simp_all add: proxy_get_def importRegistration_getService_def importRegistration_createProxy_def demo_imported_def demo_used_def
    demo_rsa_defs deref_def hashMap_get_def hashMap_put_empty do_if_def proxy_interface_def ptr_same_def same_key_def fun_eq_iff)

lemma demo_unget: "proxy_unget demo_rsa_env 1 3 (demo_used 2) (demo_used 1)"
  by (simp add: proxy_unget_def importRegistration_ungetService_def demo_used_def
    demo_rsa_defs deref_def hashMap_get_def ptr_same_def same_key_def fun_eq_iff)

theorem proxy_uses_counted_witness:
  "use_count (demo_used 1) 1 3 = 1"
proof -
  have created: "importRegistration_create demo_rsa_env 1 ''calc'' demo_rsa = (CELIX_SUCCESS, Some 1, demo_imported)"
    by (simp add: importRegistration_create_def demo_imported_def demo_rsa_defs)
  let ?run = "uses_run (proxy_get demo_rsa_env 1) (proxy_unget demo_rsa_env 1) demo_imported"
  have "?run [] demo_imported" by (rule uses_run.none)
  then have "?run ([] @ [Get 3]) (demo_used 1)" by (rule uses_run.got) (rule demo_get(1))
  then have "?run (([] @ [Get 3]) @ [Get 3]) (demo_used 2)" by (rule uses_run.got) (rule demo_get(2))
  then have run: "?run ((([] @ [Get 3]) @ [Get 3]) @ [Unget 3]) (demo_used 1)" by (rule uses_run.given_back) (rule demo_unget)
  let ?es = "(([] @ [Get 3]) @ [Get 3]) @ [Unget 3]"
  obtain "\<forall>b. use_count (demo_used 1) 1 b + count_list ?es (Unget b) = count_list ?es (Get b)"
    using proxy_uses_counted [OF created run] by auto
  from spec [OF this, of 3] show ?thesis by simp
qed

section \<open>Giving up an import\<close>

lemma restrict_map_UNIV [simp]: "m |` UNIV = m"
  by (simp add: restrict_map_def)

lemma destroyProxies:
  assumes "distinct ps"
  shows "rfold importRegistration_destroyProxy ps s =
    (if \<forall>p \<in> set ps. proxs s p \<noteq> None then Inr (s\<lparr>proxs := proxs s |` (- set ps)\<rparr>) else Inl UseAfterFree)"
  using assms
proof (induction ps arbitrary: s)
  case (Cons p ps)
  show ?case
  proof (cases "proxs s p")
    case (Some sp)
    let ?s = "s\<lparr>proxs := (proxs s)(p := None)\<rparr>"
    have first: "importRegistration_destroyProxy p s = Inr ?s"
      using Some by (simp add: importRegistration_destroyProxy_def deref_def)
    have live: "(\<forall>q \<in> set ps. proxs ?s q \<noteq> None) \<longleftrightarrow> (\<forall>q \<in> set (p # ps). proxs s q \<noteq> None)"
      using Cons.prems Some by auto
    have gone: "?s\<lparr>proxs := proxs ?s |` (- set ps)\<rparr> = s\<lparr>proxs := proxs s |` (- set (p # ps))\<rparr>"
      by (auto simp: restrict_map_def fun_eq_iff)
    show ?thesis
      using Cons.IH [of ?s, unfolded live gone] Cons.prems by (simp only: rfold.simps first rbind_simps distinct.simps)
  qed (simp add: importRegistration_destroyProxy_def deref_def)
qed simp

lemma proxies_distinct:
  assumes "proxies_inv s a" "imps s a = Some reg"
  shows "distinct (map snd (ir_proxies reg))" "\<forall>p \<in> set (map snd (ir_proxies reg)). proxs s p \<noteq> None"
proof -
  obtain d: "distinct (map fst (ir_proxies reg))"
    and i: "\<And>b b' p. map_of (ir_proxies reg) b = Some p \<Longrightarrow> map_of (ir_proxies reg) b' = Some p \<Longrightarrow> b = b'"
    using assms(2) by (rule_tac proxies_invE [OF assms(1)]) simp
  have "inj_on snd (set (ir_proxies reg))"
  proof (rule inj_onI)
    fix x y assume e: "x \<in> set (ir_proxies reg)" "y \<in> set (ir_proxies reg)" "snd x = snd y"
    have "map_of (ir_proxies reg) (fst x) = Some (snd x)" "map_of (ir_proxies reg) (fst y) = Some (snd y)"
      using e(1,2) d by simp_all
    then have "fst x = fst y" unfolding e(3) by (rule i)
    then show "x = y" using e(3) by (simp add: prod_eq_iff)
  qed
  then show "distinct (map snd (ir_proxies reg))" using d by (simp add: distinct_map)
  show "\<forall>p \<in> set (map snd (ir_proxies reg)). proxs s p \<noteq> None"
  proof
    fix p assume "p \<in> set (map snd (ir_proxies reg))"
    then obtain b where "map_of (ir_proxies reg) b = Some p" using d by auto
    then show "proxs s p \<noteq> None" by (rule proxy_live [OF assms]) simp
  qed
qed

definition rsa_locks_ok :: "'x rsa_env \<Rightarrow> bool" where
  "rsa_locks_ok env \<longleftrightarrow> (\<forall>l. celixThreadMutex_lock (rsa_cx env) l = CELIX_SUCCESS \<and> celixThreadMutex_unlock (rsa_cx env) l = CELIX_SUCCESS)"

lemma rsa_lock_ok: "rsa_locks_ok env \<Longrightarrow> l \<notin> set (held s) \<Longrightarrow> rsa_lock env l s = Inr (CELIX_SUCCESS, s\<lparr>held := l # held s\<rparr>)"
  by (simp add: rsa_lock_def rsa_locks_ok_def)

lemma rsa_unlock_ok: "rsa_locks_ok env \<Longrightarrow> l \<in> set (held s) \<Longrightarrow> rsa_unlock env l s = Inr (CELIX_SUCCESS, s\<lparr>held := removeAll l (held s)\<rparr>)"
  by (simp add: rsa_unlock_def rsa_locks_ok_def)

lemma rsa_held_again: "l \<in> set (held s) \<Longrightarrow> rsa_lock env l s = Inl NoReturn"
  by (simp add: rsa_lock_def)

lemmas rsa_lock_simps = rsa_lock_ok rsa_unlock_ok

lemma ep_same_eps: "eps s = eps s' \<Longrightarrow> ep_same cx s = ep_same cx s'"
  unfolding ep_same_def remoteServiceAdmin_endpointDescription_hash_def [abs_def] remoteServiceAdmin_endpointDescription_equals_def [abs_def]
  by simp

text \<open>Stopping an import whose users keep their services: the proxies go, their entries stay.\<close>

definition users_keep :: "'x rsa_env \<Rightarrow> bool" where
  "users_keep env \<longleftrightarrow> (\<forall>r. ir_unregister env r = [])"

lemma import_close_eq:
  assumes "proxies_inv s a" "imps s a = Some reg" "users_keep env"
  shows "importRegistration_close env a s = Inr (CELIX_SUCCESS,
    s\<lparr>imps := (imps s)(a \<mapsto> reg\<lparr>ir_factoryReg := None\<rparr>),
      proxs := proxs s |` (- set (map snd (ir_proxies reg)))\<rparr>)"
proof -
  have same: "s\<lparr>imps := (imps s)(a \<mapsto> reg\<lparr>ir_factoryReg := None\<rparr>)\<rparr> = s" if "ir_factoryReg reg = None"
    using assms(2) that by (cases reg; cases s) (auto simp: fun_eq_iff)
  show ?thesis
    using assms(2,3) proxies_distinct(2) [OF assms(1,2)] same
    by (cases "ir_factoryReg reg")
      (simp_all add: importRegistration_close_def importRegistration_stop_def importRegistration_clearProxies_def deref_def users_keep_def
        destroyProxies [OF proxies_distinct(1) [OF assms(1,2)]])
qed

text \<open>
  Giving up an import by its registration works only for a registration without users: it
  leaves the table, its factory is unregistered and it is freed. When a bundle still holds its
  proxy, the proxy is destroyed when the registration is closed and once more when the
  registration is destroyed.
\<close>

theorem removeImported_in_use:
  assumes "rsa_locks_ok env" "importedServicesLock \<notin> set (held s)" "users_keep env"
    and "proxies_inv s a" "imps s a = Some reg"
    and "hashMap_get (ep_same (rsa_cx env) s) (importedServices s) (ir_endpoint reg) = Some (Some a)"
  shows "remoteServiceAdmin_removeImportedService env (Some a) s =
    (if ir_proxies reg = []
     then Inr (CELIX_SUCCESS, s\<lparr>importedServices := hashMap_remove (ep_same (rsa_cx env) s) (ir_endpoint reg) (importedServices s),
            imps := (imps s)(a := None)\<rparr>)
     else Inl UseAfterFree)"
proof -
  let ?l = "s\<lparr>held := importedServicesLock # held s\<rparr>"
  have same: "ep_same cx ?l = ep_same cx s" for cx
    by (rule ep_same_eps) simp
  let ?s = "?l\<lparr>importedServices := hashMap_remove (ep_same (rsa_cx env) s) (ir_endpoint reg) (importedServices s)\<rparr>"
  have "proxies_inv ?s a" using assms(4) by (simp add: proxies_inv_def)
  note close = import_close_eq [OF this, of reg env] and dist = proxies_distinct [OF assms(4,5)]
  let ?c = "?s\<lparr>imps := (imps s)(a \<mapsto> reg\<lparr>ir_factoryReg := None\<rparr>),
      proxs := proxs s |` (- set (map snd (ir_proxies reg)))\<rparr>"
  have destroy: "importRegistration_destroy a ?c =
      (if ir_proxies reg = [] then Inr (?c\<lparr>imps := (imps s)(a := None)\<rparr>) else Inl UseAfterFree)"
    using destroyProxies [OF dist(1), of ?c]
    by (cases "ir_proxies reg") (auto simp: importRegistration_destroy_def importRegistration_clearProxies_def deref_def)
  have "remoteServiceAdmin_removeImportedService env (Some a) s =
      rbind (importRegistration_destroy a ?c) (\<lambda>s. rbind (rsa_unlock env importedServicesLock s) (\<lambda>(st, s). Inr (CELIX_SUCCESS, s)))"
    using assms(1-3,5,6) close
    by (simp add: remoteServiceAdmin_removeImportedService_def importRegistration_getEndpointDescription_def deref_def
        rsa_lock_ok same Let_def)
  then show ?thesis
    unfolding destroy using assms(1,2) by (simp add: rsa_unlock_ok)
qed

theorem removeImported_in_use_witness:
  "remoteServiceAdmin_removeImportedService demo_rsa_env (Some 1) ((demo_used 1)\<lparr>importedServices := [(1, Some 1)]\<rparr>) = Inl UseAfterFree"
  by (subst removeImported_in_use [where reg = "\<lparr>ir_endpoint = 1, ir_classObject = ''calc'', ir_send = None, ir_factoryReg = None,
        ir_proxies = [(3, 1)]\<rparr>"])
    (auto simp: demo_used_def demo_rsa_defs rsa_locks_ok_def users_keep_def proxies_inv_def hashMap_get_def ep_same_def same_key_def)

end
