(* ===== verification/Rsa_Calls.thy ===== *)
theory Rsa_Calls
  imports Rsa_Proxies
begin

text \<open>
  Remote calls: which export a request reaches, how long a failing wire is tried, and that a
  call through a proxy on one node is a call of the exported service on the other.
\<close>

section \<open>Dispatching a request\<close>

text \<open>The endpoint of an export, and the condition under which the code gets at it.\<close>

definition export_ep :: "'x rsa_state \<Rightarrow> exp_ptr \<Rightarrow> (ep_ptr \<times> endpoint_description) option" where
  "export_ep s e = Option.bind (exps s e) (\<lambda>reg. Option.bind (er_endpoint reg) (\<lambda>p. map_option (Pair p) (eps s p)))"

definition refs_ok :: "'x rsa_env \<Rightarrow> 'x rsa_state \<Rightarrow> bool" where
  "refs_ok env s \<longleftrightarrow> new_object env ReferenceKind (\<lambda>r. r \<in> fst ` set (exportedServices s)) s \<noteq> None"

definition all_exports :: "'x rsa_state \<Rightarrow> exp_ptr list" where
  "all_exports s = concat (map snd (exportedServices s))"

definition exports_ok :: "'x rsa_env \<Rightarrow> 'x rsa_state \<Rightarrow> bool" where
  "exports_ok env s \<longleftrightarrow> refs_ok env s \<and> (\<forall>e \<in> set (all_exports s). export_ep s e \<noteq> None)"

definition has_serviceId :: "'x rsa_state \<Rightarrow> 64 word \<Rightarrow> exp_ptr \<Rightarrow> bool" where
  "has_serviceId s i e \<longleftrightarrow> (case export_ep s e of None \<Rightarrow> False | Some (p, ep) \<Rightarrow> ep_serviceId ep = i)"

lemma export_ep_Some:
  "export_ep s e = Some (p, ep) \<longleftrightarrow> (\<exists>reg. exps s e = Some reg \<and> er_endpoint reg = Some p \<and> eps s p = Some ep)"
  by (auto simp: export_ep_def bind_eq_Some_conv)

lemma exported_endpoint_eq:
  assumes "refs_ok env s" "export_ep s e = Some (p, ep)"
  shows "exported_endpoint env s e = Inr (p, ep)"
  using assms
  by (auto simp: export_ep_Some refs_ok_def exported_endpoint_def exportRegistration_getExportReference_def deref_def
      exportReference_getExportedEndpoint_def)

lemma match_export_eq:
  assumes "refs_ok env s" "\<forall>e \<in> set es. export_ep s e \<noteq> None"
  shows "match_export env s i es = Inr (find (has_serviceId s (scast i)) es)"
  using assms(2)
proof (induction es)
  case (Cons e es)
  then obtain p ep where "export_ep s e = Some (p, ep)" by auto
  with Cons show ?case
    by (auto simp: exported_endpoint_eq [OF assms(1)] has_serviceId_def)
qed simp

text \<open>The specification: the first match of the last entry that has one.\<close>

definition dispatch :: "'x rsa_state \<Rightarrow> 64 word \<Rightarrow> exp_ptr option" where
  "dispatch s i =
     (case filter (\<lambda>(r, es). \<exists>e \<in> set es. has_serviceId s i e) (exportedServices s) of
        [] \<Rightarrow> None | m \<Rightarrow> find (has_serviceId s i) (snd (last m)))"

lemma find_export_eq:
  assumes "refs_ok env s" "\<forall>(r, es) \<in> set m. \<forall>e \<in> set es. export_ep s e \<noteq> None"
  shows "find_export env s i m acc = Inr
    (case filter (\<lambda>(r, es). \<exists>e \<in> set es. has_serviceId s (scast i) e) m of
       [] \<Rightarrow> acc | m \<Rightarrow> find (has_serviceId s (scast i)) (snd (last m)))"
  using assms(2)
proof (induction m arbitrary: acc)
  case (Cons x m)
  obtain r es where x: "x = (r, es)" by (cases x)
  have m: "match_export env s i es = Inr (find (has_serviceId s (scast i)) es)"
    using match_export_eq [OF assms(1)] Cons.prems x by auto
  show ?case
  proof (cases "find (has_serviceId s (scast i)) es")
    case None
    then have "\<not> (\<exists>e \<in> set es. has_serviceId s (scast i) e)" by (simp add: find_None_iff)
    with None show ?thesis using Cons x m by (simp split: list.split)
  next
    case (Some e)
    then have "\<exists>e \<in> set es. has_serviceId s (scast i) e" by (metis find_Some_iff nth_mem)
    with Some show ?thesis using Cons x m by (simp split: list.split)
  qed
qed simp

lemma dispatch_find:
  assumes "exports_ok env s"
  shows "find_export env s i (exportedServices s) None = Inr (dispatch s (scast i))"
  unfolding dispatch_def by (rule find_export_eq) (use assms in \<open>auto simp: exports_ok_def all_exports_def\<close>)

lemma dispatch_unique:
  assumes "e \<in> set (all_exports s)" "has_serviceId s i e" "\<forall>f \<in> set (all_exports s). has_serviceId s i f \<longrightarrow> f = e"
  shows "dispatch s i = Some e"
proof -
  let ?m = "filter (\<lambda>(r, es). \<exists>e \<in> set es. has_serviceId s i e) (exportedServices s)"
  obtain r es where r: "(r, es) \<in> set (exportedServices s)" "e \<in> set es" using assms(1) by (auto simp: all_exports_def)
  then have ne: "?m \<noteq> []" using assms(2) by (auto simp: filter_empty_conv)
  then have "last ?m \<in> set ?m" by (rule last_in_set)
  then obtain r' es' f where l: "last ?m = (r', es')" "(r', es') \<in> set (exportedServices s)" "f \<in> set es'" "has_serviceId s i f"
    by auto
  have "find (has_serviceId s i) es' = Some e"
  proof (cases "find (has_serviceId s i) es'")
    case None
    then show ?thesis using l(3,4) by (simp add: find_None_iff)
  next
    case (Some g)
    then have "g \<in> set es'" "has_serviceId s i g" by (metis find_Some_iff nth_mem)+
    moreover have "g \<in> set (all_exports s)" using calculation(1) l(2) by (force simp: all_exports_def)
    ultimately show ?thesis using assms(3) Some by simp
  qed
  then show ?thesis using ne l(1) by (cases ?m) (simp_all add: dispatch_def)
qed

text \<open>An id that an \<^verbatim>\<open>int\<close> can hold survives the way through one.\<close>

lemma small_sint: "sint (i :: 64 word) \<in> {- (2 ^ 31) ..< 2 ^ 31} \<Longrightarrow> sint (scast i :: 32 word) = sint i"
  unfolding scast_eq sint_sbintrunc' by (rule signed_take_bit_int_eq_self) simp_all

lemma small_scast: "sint (i :: 64 word) \<in> {- (2 ^ 31) ..< 2 ^ 31} \<Longrightarrow> scast (scast i :: 32 word) = i"
  by (simp only: scast_eq [of "scast i"] small_sint) simp

lemma ucast_scast: "(ucast (i :: 64 word) :: 32 word) = scast i"
  by (rule bit_word_eqI) (simp add: bit_ucast_iff bit_signed_iff)

text \<open>The receiver looks up the service id, also after its way through an \<^verbatim>\<open>int\<close>.\<close>

lemma receive_eq:
  assumes "exports_ok env s" "sint i \<in> {- (2 ^ 31) ..< 2 ^ 31}"
    and "rsa_json_loads env data = Some (JObject [(''service.id'', JInteger (sint i)), (''request'', r)])"
  shows "remoteServiceAdmin_receive env data s =
    (case dispatch s i of
       None \<Rightarrow> Inr (CELIX_ILLEGAL_ARGUMENT, None, s)
     | Some e \<Rightarrow> exportRegistration_call env e (rsa_json_dumps env r) s)"
proof -
  have "unpack_request (JObject [(''service.id'', JInteger (sint i)), (''request'', r)]) = (word_of_int (sint i), Some r)"
    by (simp add: unpack_request_def json_object_get_def)
  then show ?thesis
    using assms(3) dispatch_find [OF assms(1), of "word_of_int (sint i)"] small_scast [OF assms(2)]
    by (simp add: remoteServiceAdmin_receive_def dumps_def split: option.split)
qed

text \<open>
  C28. A request from the wire is handed to the export that the text names: when the service id
  fits an \<^verbatim>\<open>int\<close>, the answer of the receiver is that of the first export with this id in the last
  entry of the table that has one, called with the text of the inner request; a text that is
  no JSON, or names no export, is refused and nothing is called.
\<close>

theorem receive_dispatches:
  assumes "exports_ok env s" "sint i \<in> {- (2 ^ 31) ..< 2 ^ 31}"
    and "rsa_json_loads env data = Some (JObject [(''service.id'', JInteger (sint i)), (''request'', r)])"
  shows "remoteServiceAdmin_receive env data s =
    (case dispatch s i of
       None \<Rightarrow> Inr (CELIX_ILLEGAL_ARGUMENT, None, s)
     | Some e \<Rightarrow> exportRegistration_call env e (rsa_json_dumps env r) s)"
  by (rule receive_eq [OF assms])

text \<open>A server for the witnesses: service 7 is exported with the id 3.\<close>

definition demo_server :: "nat rsa_state" where
  "demo_server = demo_rsa\<lparr>exportedServices := [(7, [1])], exps := [1 \<mapsto> \<lparr>er_endpoint = Some 1, er_reference = 7, er_intf = Some 4,
     er_tracker = 5, er_service = Some 70\<rparr>]\<rparr>"

lemma demo_exports_ok: "exports_ok demo_rsa_env demo_server"
  by (simp add: exports_ok_def refs_ok_def all_exports_def export_ep_def demo_server_def demo_rsa_defs)

theorem receive_dispatches_witness:
  "remoteServiceAdmin_receive demo_rsa_env ''{3 {q}}'' demo_server = Inr (CELIX_SUCCESS, Some ''{q}'', demo_server\<lparr>outside := 1\<rparr>)"
  by (subst receive_dispatches [OF demo_exports_ok, of 3 _ "JObject [(''m'', JString ''inc'')]"])
    (simp_all add: demo_server_def demo_rsa_defs dispatch_def has_serviceId_def export_ep_def exportRegistration_call_def deref_def)

section \<open>Failing wires\<close>

definition sends_ok :: "'x rsa_state \<Rightarrow> bool" where
  "sends_ok s \<longleftrightarrow> (\<forall>q ss. sends s q = Some ss \<longrightarrow> ss_errorCount ss < 5)"

lemma count_step:
  fixes c :: "32 word"
  assumes "c < 5" "c \<noteq> 4"
  shows "c + 1 < 5"
proof -
  have "unat c \<noteq> 4" using assms(2) by (simp add: word_unat_eq_iff)
  then have "unat c + 1 < 5" using assms(1) by (simp add: word_less_nat_alt)
  moreover from this have "unat (c + 1) = unat c + 1" by (simp add: unat_word_ariths)
  ultimately show ?thesis by (simp add: word_less_nat_alt)
qed

text \<open>What a send does to the count of the wire, and when it pauses.\<close>

lemma send_eq:
  assumes "rsa_locks_ok env" "sendServicesLock \<notin> set (held s)" "eps s p = Some ep" "map_of (ep_properties ep) WIRE_ID_KEY = Some w"
    and "map_of (sendServices s) w = Some q" "sends s q = Some ss" "ss_errorCount ss < 5"
    and "send_service env q (dumps env (pack_request (ep_serviceId ep) (rsa_json_loads env request))) out (outside s) = (st, (reply, rc), x)"
  shows "remoteServiceAdmin_send env p request out s = Inr (st, (reply, rc),
    (let failed = (st \<noteq> CELIX_SUCCESS \<or> reply = None)
     in s\<lparr>sends := (sends s)(q \<mapsto> ss\<lparr>ss_errorCount :=
             (if failed \<and> ss_errorCount ss = 4 then 0 else if failed then ss_errorCount ss + 1 else ss_errorCount ss)\<rparr>),
          outside := (if failed \<and> ss_errorCount ss = 4 then rsa_sleep env x else x)\<rparr>))"
proof -
  let ?c = "ss_errorCount ss"
  have five: "5 \<le> ?c + 1 \<longleftrightarrow> ?c = 4"
  proof (cases "?c = 4")
    case False
    then show ?thesis using count_step [OF assms(7)] by simp
  qed simp
  have now: "\<not> 5 \<le> ?c" using assms(7) by simp
  let ?failed = "st \<noteq> CELIX_SUCCESS \<or> reply = None" and ?l = "s\<lparr>held := sendServicesLock # held s\<rparr>"
  let ?n = "if ?failed then ?c + 1 else ?c"
  have "remoteServiceAdmin_send env p request out s =
      rbind (rsa_unlock env sendServicesLock
        (?l\<lparr>sends := (sends s)(q \<mapsto> ss\<lparr>ss_errorCount := (if 5 \<le> ?n then 0 else ?n)\<rparr>),
            outside := (if 5 \<le> ?n then rsa_sleep env x else x)\<rparr>)) (\<lambda>(st', s). Inr (st, (reply, rc), s))"
    unfolding remoteServiceAdmin_send_def using assms(1-6,8)
    by (simp add: deref_def properties_get_map_of smap.get_map_of rsa_lock_ok Let_def if_distrib [of "\<lambda>(a, b). _ a b"] case_prod_beta)
  moreover have "5 \<le> ?n \<longleftrightarrow> ?failed \<and> ?c = 4" using five now by simp
  ultimately show ?thesis
    using assms(1,2) by (simp add: rsa_unlock_ok Let_def)
qed

text \<open>
  C33. A wire that fails is tried at most five times in a row before the caller pauses: from
  counts below five every send leaves the count of each wire below five. The send service of the
  wire is called once with the packed request and its answer is handed on. A send that fails or
  brings no reply counts one; the fifth one sleeps (the outside afterwards is the one that the
  service left with the sleep after it) and starts again at zero; a send that brings a reply
  changes no count and never sleeps. The lock is released.
\<close>

theorem send_error_count:
  assumes "rsa_locks_ok env" "sendServicesLock \<notin> set (held s)" "sends_ok s" "eps s p = Some ep"
    and "map_of (ep_properties ep) WIRE_ID_KEY = Some w" "map_of (sendServices s) w = Some q" "sends s q = Some ss"
    and "send_service env q (dumps env (pack_request (ep_serviceId ep) (rsa_json_loads env request))) out (outside s) = (st, (reply, rc), x)"
  shows "\<exists>s'. remoteServiceAdmin_send env p request out s = Inr (st, (reply, rc), s') \<and> sends_ok s' \<and> held s' = held s \<and>
    (let failed = (st \<noteq> CELIX_SUCCESS \<or> reply = None); pause = (failed \<and> ss_errorCount ss = 4)
     in s' = s\<lparr>sends := (sends s)(q \<mapsto> ss\<lparr>ss_errorCount :=
               (if pause then 0 else if failed then ss_errorCount ss + 1 else ss_errorCount ss)\<rparr>),
             outside := (if pause then rsa_sleep env x else x)\<rparr>)"
proof -
  have c: "ss_errorCount ss < 5" using assms(3,7) by (simp add: sends_ok_def)
  have "ss_errorCount ss \<noteq> 4 \<Longrightarrow> ss_errorCount ss + 1 < 5" using count_step [OF c] by auto
  then show ?thesis
    using send_eq [OF assms(1,2,4-7) c assms(8)] c assms(3) by (auto simp: Let_def sends_ok_def)
qed

definition demo_caller :: "nat rsa_state" where
  "demo_caller = demo_rsa\<lparr>sendServices := [(''w1'', 20)], sends := [20 \<mapsto> \<lparr>ss_endpoint = 5, ss_errorCount = 4\<rparr>]\<rparr>"

text \<open>The fifth failure in a row: the outside counts the pauses.\<close>

theorem send_error_count_witness:
  "remoteServiceAdmin_send (demo_rsa_env\<lparr>send_service := (\<lambda>q d out x. (CELIX_SUCCESS, (None, 0), x)), rsa_sleep := Suc\<rparr>) 1 ''{q}''
      (None, 0) demo_caller =
    Inr (CELIX_SUCCESS, (None, 0), demo_caller\<lparr>sends := [20 \<mapsto> \<lparr>ss_endpoint = 5, ss_errorCount = 0\<rparr>], outside := Suc (outside demo_caller)\<rparr>)"
proof -
  let ?env = "demo_rsa_env\<lparr>send_service := (\<lambda>q d out x. (CELIX_SUCCESS, (None, 0), x)), rsa_sleep := Suc\<rparr>"
  have "rsa_locks_ok ?env" "sends_ok demo_caller" "eps demo_caller 1 = Some demo_ep" "map_of (ep_properties demo_ep) WIRE_ID_KEY = Some ''w1''"
      "map_of (sendServices demo_caller) ''w1'' = Some 20" "sends demo_caller 20 = Some \<lparr>ss_endpoint = 5, ss_errorCount = 4\<rparr>"
      "sendServicesLock \<notin> set (held demo_caller)"
    by (simp_all add: rsa_locks_ok_def sends_ok_def demo_caller_def demo_rsa_defs)
  moreover have "send_service ?env q d out x = (CELIX_SUCCESS, (None, 0), x)" for q d out x by simp
  ultimately have "\<exists>s'. remoteServiceAdmin_send ?env 1 ''{q}'' (None, 0) demo_caller = Inr (CELIX_SUCCESS, (None, 0), s') \<and>
      s' = demo_caller\<lparr>sends := (sends demo_caller)(20 \<mapsto> \<lparr>ss_endpoint = 5, ss_errorCount = 0\<rparr>), outside := Suc (outside demo_caller)\<rparr>"
    using send_error_count [of ?env demo_caller 1 demo_ep "''w1''" 20 "\<lparr>ss_endpoint = 5, ss_errorCount = 4\<rparr>" "''{q}''" "(None, 0)"]
    by (auto simp: Let_def)
  then show ?thesis by (simp add: demo_caller_def)
qed

section \<open>A remote call\<close>

text \<open>
  A wire between two nodes: what the sender of the client's node is given is received by the
  admin of the server's node, whose state is the outside of the client, and the answer comes
  back.
\<close>

definition delivers :: "'y rsa_env \<Rightarrow> 'y rsa_state rsa_env \<Rightarrow> send_ptr \<Rightarrow> bool" where
  "delivers srv cli q \<longleftrightarrow> (\<forall>t out x st r x'. remoteServiceAdmin_receive srv t x = Inr (st, r, x') \<longrightarrow>
     send_service cli q (Some t) out x = (st, (r, 0), x'))"

text \<open>An import that is bound to a wire and a sender for it.\<close>

definition wired_import :: "'x rsa_state \<Rightarrow> imp_ptr \<Rightarrow> endpoint_description \<Rightarrow> send_ptr \<Rightarrow> bool" where
  "wired_import s a ep q \<longleftrightarrow> (\<exists>reg w ss. imps s a = Some reg \<and> ir_send reg = Some RSA_SEND \<and> eps s (ir_endpoint reg) = Some ep \<and>
     map_of (ep_properties ep) WIRE_ID_KEY = Some w \<and> map_of (sendServices s) w = Some q \<and> sends s q = Some ss)"

text \<open>The same for one request: what counts is the answer of the sender to it.\<close>

definition answers_call :: "'y rsa_env \<Rightarrow> 'y rsa_state rsa_env \<Rightarrow> send_ptr \<Rightarrow> string \<Rightarrow> string \<Rightarrow> 'y rsa_state \<Rightarrow> bool" where
  "answers_call srv cli q t response x \<longleftrightarrow> (\<forall>x'. remoteServiceAdmin_receive srv t x = Inr (CELIX_SUCCESS, Some response, x') \<longrightarrow>
     send_service cli q (Some t) (None, 0) x = (CELIX_SUCCESS, (Some response, 0), x'))"

lemma proxy_call:
  assumes "rsa_locks_ok cli" "sendServicesLock \<notin> set (held s)" "sends_ok s" "wired_import s a ep q"
    and "prepare args = (CELIX_SUCCESS, request)" "rsa_json_loads cli request = Some r"
    and "msg = JObject [(''service.id'', JInteger (sint (ep_serviceId ep))), (''request'', r)]"
    and "rsa_json_dumps cli msg = Some t" "rsa_json_loads srv t = Some msg" "answers_call srv cli q t response (outside s)"
    and "sint (ep_serviceId ep) \<in> {- (2 ^ 31) ..< 2 ^ 31}" "exports_ok srv (outside s)"
    and "e \<in> set (all_exports (outside s))" "has_serviceId (outside s) (ep_serviceId ep) e"
    and "\<forall>f \<in> set (all_exports (outside s)). has_serviceId (outside s) (ep_serviceId ep) f \<longrightarrow> f = e"
    and "exps (outside s) e = Some reg"
    and "jsonRpc_call srv (er_intf reg) (er_service reg) (rsa_json_dumps srv r) (outside (outside s)) = (CELIX_SUCCESS, Some response, y)"
  shows "importRegistration_proxyFunc prepare handle (\<lambda>f. remoteServiceAdmin_send cli) (Some a) args s =
    Inr (Some 0, snd (handle (Some response) args), s\<lparr>outside := (outside s)\<lparr>outside := y\<rparr>\<rparr>)"
proof -
  obtain ireg w ss where i: "imps s a = Some ireg" "ir_send ireg = Some RSA_SEND" "eps s (ir_endpoint ireg) = Some ep"
      "map_of (ep_properties ep) WIRE_ID_KEY = Some w" "map_of (sendServices s) w = Some q" "sends s q = Some ss"
    using assms(4) by (auto simp: wired_import_def)
  have "remoteServiceAdmin_receive srv t (outside s) = exportRegistration_call srv e (rsa_json_dumps srv r) (outside s)"
    using receive_eq [OF assms(12,11) assms(9) [unfolded assms(7)]] dispatch_unique [OF assms(13-15)] by simp
  also have "\<dots> = Inr (CELIX_SUCCESS, Some response, (outside s)\<lparr>outside := y\<rparr>)"
    using assms(16,17) by (simp add: exportRegistration_call_def deref_def)
  finally have wire: "send_service cli q (Some t) (None, 0) (outside s) = (CELIX_SUCCESS, (Some response, 0), (outside s)\<lparr>outside := y\<rparr>)"
    using assms(10) unfolding answers_call_def by blast
  have packed: "dumps cli (pack_request (ep_serviceId ep) (rsa_json_loads cli request)) = Some t"
    using assms(6-8,11) by (simp add: dumps_def pack_request_def ucast_scast small_sint)
  have "ss_errorCount ss < 5" using assms(3) i(6) by (simp add: sends_ok_def)
  from send_eq [OF assms(1,2) i(3-6) this, of request "(None, 0)", unfolded packed, OF wire]
  have sent: "remoteServiceAdmin_send cli (ir_endpoint ireg) request (None, 0) s =
      Inr (CELIX_SUCCESS, (Some response, 0), s\<lparr>sends := (sends s)(q \<mapsto> ss), outside := (outside s)\<lparr>outside := y\<rparr>\<rparr>)"
    by simp
  have same: "s\<lparr>sends := (sends s)(q \<mapsto> ss)\<rparr> = s" using i(6) by (cases s) (simp add: fun_upd_idem)
  show ?thesis
    using i(1,2) assms(5) sent same by (simp add: importRegistration_proxyFunc_def deref_def)
qed

text \<open>
  A call through a proxy is a call of the remote service: the proxy packs the request with
  the id of the service, the wire delivers it, the other node finds the export with that id
  and calls its service with the request; the reply is handed to the caller's method, the
  return value is 0, and on the calling node nothing else has changed.
\<close>

theorem remote_call_reaches_service:
  assumes "rsa_locks_ok cli" "sendServicesLock \<notin> set (held s)" "sends_ok s" "wired_import s a ep q"
    and "prepare args = (CELIX_SUCCESS, request)" "rsa_json_loads cli request = Some r"
    and "msg = JObject [(''service.id'', JInteger (sint (ep_serviceId ep))), (''request'', r)]"
    and "rsa_json_dumps cli msg = Some t" "rsa_json_loads srv t = Some msg" "delivers srv cli q"
    and "sint (ep_serviceId ep) \<in> {- (2 ^ 31) ..< 2 ^ 31}" "exports_ok srv (outside s)"
    and "e \<in> set (all_exports (outside s))" "has_serviceId (outside s) (ep_serviceId ep) e"
    and "\<forall>f \<in> set (all_exports (outside s)). has_serviceId (outside s) (ep_serviceId ep) f \<longrightarrow> f = e"
    and "exps (outside s) e = Some reg"
    and "jsonRpc_call srv (er_intf reg) (er_service reg) (rsa_json_dumps srv r) (outside (outside s)) = (CELIX_SUCCESS, Some response, y)"
  shows "importRegistration_proxyFunc prepare handle (\<lambda>f. remoteServiceAdmin_send cli) (Some a) args s =
    Inr (Some 0, snd (handle (Some response) args), s\<lparr>outside := (outside s)\<lparr>outside := y\<rparr>\<rparr>)"
proof -
  have "answers_call srv cli q t response (outside s)" using assms(10) by (simp add: delivers_def answers_call_def)
  from assms(1-9) this assms(11-17) show ?thesis by (rule proxy_call)
qed

definition demo_client_env :: "nat rsa_state rsa_env" where
  "demo_client_env = (demo_env_on id)\<lparr>send_service := (\<lambda>q d out x.
     case d of None \<Rightarrow> (CELIX_ILLEGAL_ARGUMENT, out, x)
     | Some t \<Rightarrow> (case remoteServiceAdmin_receive demo_rsa_env t x of
         Inr (st, r, x') \<Rightarrow> (st, (r, 0), x') | Inl f \<Rightarrow> (CELIX_ILLEGAL_STATE, out, x)))\<rparr>"

definition demo_client :: "nat rsa_state rsa_state" where
  "demo_client = \<lparr>eps = [1 \<mapsto> demo_ep], exps = Map.empty,
     imps = [1 \<mapsto> \<lparr>ir_endpoint = 1, ir_classObject = ''calc'', ir_send = Some RSA_SEND, ir_factoryReg = Some 8, ir_proxies = []\<rparr>],
     proxs = Map.empty, sends = [20 \<mapsto> \<lparr>ss_endpoint = 5, ss_errorCount = 0\<rparr>], rcvs = Map.empty,
     exportedServices = [], importedServices = [(1, Some 1)], rsa_receiveServices = [], rsa_receiveRegistrations = [], exportedWires = [],
     sendServices = [(''w1'', 20)], rsa_listenerList = [], wtmList = [], rsa_registration = None, held = [], outside = demo_server\<rparr>"

lemma demo_client_wired: "wired_import demo_client 1 demo_ep 20"
  by (simp add: wired_import_def demo_client_def demo_ep_def)

lemma demo_delivers: "delivers demo_rsa_env demo_client_env 20"
  by (simp add: delivers_def demo_client_env_def)

theorem remote_call_reaches_service_witness:
  "importRegistration_proxyFunc (\<lambda>args. (CELIX_SUCCESS, ''{q}'')) (\<lambda>reply args. (CELIX_SUCCESS, reply))
      (\<lambda>f. remoteServiceAdmin_send demo_client_env) (Some 1) None demo_client =
    Inr (Some 0, snd (CELIX_SUCCESS, Some ''{q}''), demo_client\<lparr>outside := (outside demo_client)\<lparr>outside := 1\<rparr>\<rparr>)"
proof (rule remote_call_reaches_service [OF _ _ _ demo_client_wired, where e = 1 and srv = demo_rsa_env and t = "''{3 {q}}''" and
      reg = "\<lparr>er_endpoint = Some 1, er_reference = 7, er_intf = Some 4, er_tracker = 5, er_service = Some 70\<rparr>"])
  show "delivers demo_rsa_env demo_client_env 20" by (rule demo_delivers)
  show "exports_ok demo_rsa_env (outside demo_client)" using demo_exports_ok by (simp add: demo_client_def)
qed (simp_all add: demo_client_def demo_client_env_def demo_env_on_def demo_server_def demo_rsa_defs rsa_locks_ok_def sends_ok_def all_exports_def
    has_serviceId_def export_ep_def)

end
