(* ===== verification/Rsa_Correct.thy ===== *)
theory Rsa_Correct
  imports Rsa_Calls
begin

text \<open>
  The remote service admin at work: what it makes of a service to export, what it does when
  it is told of a wire, what a new topology manager hears, and where it fails.
\<close>

section \<open>Announcing an endpoint\<close>

definition refs_always :: "'x rsa_env \<Rightarrow> bool" where
  "refs_always env \<longleftrightarrow> (\<forall>s. refs_ok env s)"

text \<open>The listeners that are told of an endpoint, and what they do to the outside, in order.\<close>

definition listener_hears :: "'x rsa_env \<Rightarrow> endpoint_description \<Rightarrow> service_reference \<Rightarrow> bool" where
  "listener_hears env ep ref \<longleftrightarrow> rsa_getService env ref = CELIX_SUCCESS \<and>
     filter_match (rsa_cx env) (serviceReference_getProperty (rsa_cx env) ref (OSGI_ENDPOINT_LISTENER_SCOPE env)) (ep_properties ep)"

definition tell :: "'x rsa_env \<Rightarrow> endpoint_description \<Rightarrow> service_reference \<Rightarrow> 'x \<Rightarrow> 'x" where
  "tell env ep ref x =
     snd (endpointAdded env ref ep (serviceReference_getProperty (rsa_cx env) ref (OSGI_ENDPOINT_LISTENER_SCOPE env)) x)"

definition told :: "'x rsa_env \<Rightarrow> endpoint_description \<Rightarrow> service_reference list \<Rightarrow> 'x \<Rightarrow> 'x" where
  "told env ep refs x = fold (tell env ep) (filter (listener_hears env ep) refs) x"

lemma export_ep_outside [simp]: "export_ep (s\<lparr>outside := x\<rparr>) e = export_ep s e"
  by (simp add: export_ep_def)

lemma offer_endpoint_eq:
  assumes "refs_always env" "export_ep s e = Some (p, ep)" "rsa_getService env ref = CELIX_SUCCESS"
  shows "\<exists>st'. offer_endpoint env ref e (st, s) =
    Inr (st', s\<lparr>outside := (if listener_hears env ep ref then tell env ep ref (outside s) else outside s)\<rparr>)"
proof -
  obtain reg where reg: "exps s e = Some reg" "er_endpoint reg = Some p" "eps s p = Some ep"
    using assms(2) by (auto simp: export_ep_Some)
  have "refs_ok env s" using assms(1) by (simp add: refs_always_def)
  then show ?thesis
    using reg assms(3)
    by (auto simp: offer_endpoint_def exportRegistration_getExportReference_def refs_ok_def deref_def
        exportReference_getExportedEndpoint_def listener_hears_def tell_def case_prod_beta Let_def)
qed

lemma notify_listeners_eq:
  assumes "refs_always env" "export_ep s e = Some (p, ep)"
  shows "rfold (rsa_notify_listener env [e]) refs s = Inr (s\<lparr>outside := told env ep refs (outside s)\<rparr>)"
  using assms(2)
proof (induction refs arbitrary: s)
  case Nil
  then show ?case by (simp add: told_def)
next
  case (Cons ref refs)
  have "rsa_notify_listener env [e] ref s =
      Inr (s\<lparr>outside := (if listener_hears env ep ref then tell env ep ref (outside s) else outside s)\<rparr>)"
    using offer_endpoint_eq [OF assms(1) Cons.prems, of ref CELIX_SUCCESS]
    by (auto simp: rsa_notify_listener_def listener_hears_def)
  with Cons show ?case by (simp add: told_def)
qed

section \<open>A wire for an exported service\<close>

lemma registerReceive_new:
  assumes "new_object env ReceiverKind (\<lambda>r. rcvs s r \<noteq> None) s = Some r" "w \<notin> fst ` set (rsa_receiveServices s)"
    and "registerReceive env r [(''wire.id'', w)] (outside s) = (CELIX_SUCCESS, reg, x)"
  shows "remoteServiceAdmin_registerReceive env (Some w) s = Inr (CELIX_SUCCESS,
    s\<lparr>outside := x, rcvs := (rcvs s)(r \<mapsto> Some w),
      rsa_receiveServices := hashMap_put (rsa_cx env) (utils_stringHash (rsa_cx env)) (string_same (rsa_cx env)) w r (rsa_receiveServices s),
      rsa_receiveRegistrations :=
        hashMap_put (rsa_cx env) (utils_stringHash (rsa_cx env)) (string_same (rsa_cx env)) w reg (rsa_receiveRegistrations s)\<rparr>)"
proof -
  have "properties_set (rsa_cx env) [] ''wire.id'' (Some w) = [(''wire.id'', w)]"
    by (simp add: properties_set_def hashMap_put_empty)
  then show ?thesis using assms
    by (simp add: remoteServiceAdmin_registerReceive_def smap.containsKey_iff Let_def)
qed

text \<open>The endpoint of an export once its wire is known.\<close>

definition wired_ep :: "'x rsa_env \<Rightarrow> string \<Rightarrow> endpoint_description \<Rightarrow> endpoint_description" where
  "wired_ep env w ep = ep\<lparr>ep_properties := properties_set (rsa_cx env) (ep_properties ep) WIRE_ID_KEY (Some w)\<rparr>"

lemma wire_exported_own:
  assumes "refs_always env" "unlock_free_ok env" "rsa_locks_ok env" "export_ep s e = Some (p, ep)"
    and "serviceReference_getProperty (rsa_cx env) ref (OSGI_FRAMEWORK_SERVICE_ID (rsa_cx env)) = Some i"
    and "s1 = s\<lparr>eps := (eps s)(p \<mapsto> wired_ep env w ep)\<rparr>"
    and "new_object env ReceiverKind (\<lambda>r. rcvs s r \<noteq> None) s1 = Some r" "w \<notin> fst ` set (rsa_receiveServices s)"
    and "registerReceive env r [(''wire.id'', w)] (outside s) = (CELIX_SUCCESS, reg, x)"
  shows "\<exists>s'. wire_exported env (Some i) (Some w) (ref, [e]) s = Inr s' \<and> eps s' = (eps s)(p \<mapsto> wired_ep env w ep) \<and>
    map_of (rsa_receiveServices s') = (map_of (rsa_receiveServices s))(w \<mapsto> r) \<and> rcvs s' = (rcvs s)(r \<mapsto> Some w) \<and>
    map_of (rsa_receiveRegistrations s') = (map_of (rsa_receiveRegistrations s))(w \<mapsto> reg) \<and>
    outside s' = told env (wired_ep env w ep) (map fst (rsa_listenerList s)) x \<and>
    exps s' = exps s \<and> imps s' = imps s \<and> exportedServices s' = exportedServices s \<and> exportedWires s' = exportedWires s \<and>
    importedServices s' = importedServices s \<and>
    held s' = removeAll listenerListLock (held s)"
proof -
  have set: "set_wire_id env (Some w) e s = Inr s1"
    using assms(1,4,6) by (simp add: set_wire_id_def exported_endpoint_eq refs_always_def wired_ep_def)
  have ep1: "export_ep s1 e = Some (p, wired_ep env w ep)"
    using assms(4,6) by (auto simp: export_ep_Some)
  have reg: "remoteServiceAdmin_registerReceive env (Some w) s1 = Inr (CELIX_SUCCESS,
    s1\<lparr>outside := x, rcvs := (rcvs s)(r \<mapsto> Some w),
      rsa_receiveServices := hashMap_put (rsa_cx env) (utils_stringHash (rsa_cx env)) (string_same (rsa_cx env)) w r (rsa_receiveServices s),
      rsa_receiveRegistrations :=
        hashMap_put (rsa_cx env) (utils_stringHash (rsa_cx env)) (string_same (rsa_cx env)) w reg (rsa_receiveRegistrations s)\<rparr>)"
    (is "_ = Inr (_, ?s2)")
    using registerReceive_new [of env s1 r w reg x] assms(6-9) by simp
  have ep2: "export_ep ?s2 e = Some (p, wired_ep env w ep)" using ep1 by (simp add: export_ep_def)
  show ?thesis
    using set reg notify_listeners_eq [OF assms(1) ep2, of "map fst (rsa_listenerList s)"] assms(2,3,5,6)
    by (simp add: wire_exported_def remoteServiceAdmin_notifyListenersEndpointAdded_def rsa_unlock_def rsa_locks_ok_def
        smap.put_map_of)
qed

lemma wire_exported_others:
  assumes "\<forall>(ref, l) \<in> set m. serviceReference_getProperty (rsa_cx env) ref (OSGI_FRAMEWORK_SERVICE_ID (rsa_cx env)) \<noteq> Some i"
  shows "rfold (wire_exported env (Some i) wireId) m s = Inr s"
  using assms
proof (induction m)
  case (Cons x m)
  then have "wire_exported env (Some i) wireId x s = Inr s"
    by (auto simp: wire_exported_def split: option.split)
  with Cons show ?case by simp
qed simp

text \<open>The wires that are compared with a new one are alive and have ids.\<close>

definition wires_alive :: "'r world \<Rightarrow> (wed_ptr \<times> string option) list \<Rightarrow> bool" where
  "wires_alive W l \<longleftrightarrow> (\<forall>(d, t) \<in> set l. t \<noteq> None \<and> weds W d \<noteq> None)"

lemma wires_contain_alive:
  "wires_alive W l \<Longrightarrow> wires_contain W (Some w) l = Inr (Some w \<in> snd ` set l)"
proof (induction l)
  case (Cons x l)
  then show ?case by (cases x) (auto simp: wires_alive_def remoteServiceAdmin_wireIdEquals_def)
qed simp

text \<open>A wire of the own framework, made for the service with the given id.\<close>

definition own_wire :: "'x rsa_env \<Rightarrow> 'x rsa_state world \<Rightarrow> wed_ptr \<Rightarrow> string \<Rightarrow> string \<Rightarrow> bool" where
  "own_wire env W d w i \<longleftrightarrow> (\<exists>q u. weds W d = Some q \<and> map_of q WIRE_ID_KEY = Some w \<and> map_of q ''requested.service.id'' = Some i \<and>
     bundleContext_getProperty (rsa_cx env) (OSGI_FRAMEWORK_FRAMEWORK_UUID (rsa_cx env)) = (CELIX_SUCCESS, Some u) \<and>
     map_of q (OSGI_RSA_ENDPOINT_FRAMEWORK_UUID (rsa_cx env)) = Some u)"

lemma own_wire_added:
  assumes "own_wire env W d w i" "wires_alive W (exportedWires (rest W))"
  shows "remoteServiceAdmin_addWiringEndpoint env d f W =
    (let s = rest W; s = (if Some w \<in> snd ` set (exportedWires s) then s else s\<lparr>exportedWires := exportedWires s @ [(d, Some w)]\<rparr>) in
     rbind (rsa_lock env exportedServicesLock s) (\<lambda>(st, s).
     rbind (rfold (wire_exported env (Some i) (Some w)) (exportedServices s) s) (\<lambda>s.
     rbind (rsa_unlock env exportedServicesLock s) (\<lambda>(st, s). Inr (st, W\<lparr>rest := s\<rparr>)))))"
proof -
  obtain q u where q: "weds W d = Some q" "map_of q WIRE_ID_KEY = Some w" "map_of q ''requested.service.id'' = Some i"
     "bundleContext_getProperty (rsa_cx env) (OSGI_FRAMEWORK_FRAMEWORK_UUID (rsa_cx env)) = (CELIX_SUCCESS, Some u)"
     "map_of q (OSGI_RSA_ENDPOINT_FRAMEWORK_UUID (rsa_cx env)) = Some u"
    using assms(1) by (auto simp: own_wire_def)
  show ?thesis
    using q wires_contain_alive [OF assms(2), of w]
    by (simp add: remoteServiceAdmin_addWiringEndpoint_def wed_deref_def properties_get_map_of add_exported_wire_def in_world_def Let_def
        rbind_assoc case_prod_beta')
qed

lemma own_wire_served:
  assumes "refs_always env" "unlock_free_ok env" "rsa_locks_ok env" "exportedServicesLock \<notin> set (held s)" "rest W = s"
    and "own_wire env W d w i" "wires_alive W (exportedWires s)" "Some w \<notin> snd ` set (exportedWires s)"
    and "exportedServices s = pre @ (ref, [e]) # post"
    and "serviceReference_getProperty (rsa_cx env) ref (OSGI_FRAMEWORK_SERVICE_ID (rsa_cx env)) = Some i"
    and "\<forall>(r, l) \<in> set (pre @ post). serviceReference_getProperty (rsa_cx env) r (OSGI_FRAMEWORK_SERVICE_ID (rsa_cx env)) \<noteq> Some i"
    and "export_ep s e = Some (p, ep)" "w \<notin> fst ` set (rsa_receiveServices s)"
    and "new_object env ReceiverKind (\<lambda>r. rcvs s r \<noteq> None) (s\<lparr>exportedWires := exportedWires s @ [(d, Some w)],
        held := exportedServicesLock # held s, eps := (eps s)(p \<mapsto> wired_ep env w ep)\<rparr>) = Some r"
    and "registerReceive env r [(''wire.id'', w)] (outside s) = (CELIX_SUCCESS, reg, x)"
  shows "\<exists>s'. remoteServiceAdmin_addWiringEndpoint env d f W = Inr (CELIX_SUCCESS, W\<lparr>rest := s'\<rparr>) \<and>
    eps s' = (eps s)(p \<mapsto> wired_ep env w ep) \<and> exportedWires s' = exportedWires s @ [(d, Some w)] \<and>
    map_of (rsa_receiveServices s') = (map_of (rsa_receiveServices s))(w \<mapsto> r) \<and> rcvs s' = (rcvs s)(r \<mapsto> Some w) \<and>
    outside s' = told env (wired_ep env w ep) (map fst (rsa_listenerList s)) x \<and>
    exportedServices s' = exportedServices s \<and> exps s' = exps s \<and>
    held s' = removeAll listenerListLock (held s)"
proof -
  let ?s = "s\<lparr>exportedWires := exportedWires s @ [(d, Some w)], held := exportedServicesLock # held s\<rparr>"
  have "export_ep ?s e = Some (p, ep)" using assms(12) by (simp add: export_ep_def)
  then obtain s' where s': "wire_exported env (Some i) (Some w) (ref, [e]) ?s = Inr s'" "eps s' = (eps s)(p \<mapsto> wired_ep env w ep)"
      "map_of (rsa_receiveServices s') = (map_of (rsa_receiveServices s))(w \<mapsto> r)" "rcvs s' = (rcvs s)(r \<mapsto> Some w)"
      "outside s' = told env (wired_ep env w ep) (map fst (rsa_listenerList s)) x" "exps s' = exps s"
      "exportedServices s' = exportedServices s" "exportedWires s' = exportedWires s @ [(d, Some w)]"
      "held s' = removeAll listenerListLock (exportedServicesLock # held s)"
    using wire_exported_own [OF assms(1-3) _ assms(10), of ?s e p ep "?s\<lparr>eps := (eps s)(p \<mapsto> wired_ep env w ep)\<rparr>" w r reg x]
      assms(13-15) by auto
  have "rfold (wire_exported env (Some i) (Some w)) (exportedServices s) ?s = Inr s'"
    using s'(1) assms(9,11) wire_exported_others [of pre env i "Some w" ?s] wire_exported_others [of post env i "Some w" s']
    by (simp add: rfold_append)
  moreover have "exportedServicesLock \<noteq> listenerListLock" by (simp add: exportedServicesLock_def listenerListLock_def)
  ultimately show ?thesis
    using own_wire_added [OF assms(6), of f] assms(3-5,7,8) s'(2-9)
    by (intro exI [of _ "s'\<lparr>held := removeAll listenerListLock (held s)\<rparr>"]) (simp add: rsa_lock_simps Let_def)
qed

text \<open>
  C27. Told of a wire of its own framework that was made for an exported service, the admin
  writes the wire id into the endpoint of that service and into no other, registers a receiver
  for the wire, remembers the wire, and announces the endpoint, wire id included, to exactly
  the endpoint listeners whose scope it matches, in order; the locks are released.
\<close>

theorem own_wire_announced:
  assumes "refs_always env" "unlock_free_ok env" "rsa_locks_ok env" "exportedServicesLock \<notin> set (held s)" "rest W = s"
    and "own_wire env W d w i" "wires_alive W (exportedWires s)" "Some w \<notin> snd ` set (exportedWires s)"
    and "exportedServices s = pre @ (ref, [e]) # post"
    and "serviceReference_getProperty (rsa_cx env) ref (OSGI_FRAMEWORK_SERVICE_ID (rsa_cx env)) = Some i"
    and "\<forall>(r, l) \<in> set (pre @ post). serviceReference_getProperty (rsa_cx env) r (OSGI_FRAMEWORK_SERVICE_ID (rsa_cx env)) \<noteq> Some i"
    and "export_ep s e = Some (p, ep)" "w \<notin> fst ` set (rsa_receiveServices s)"
    and "new_object env ReceiverKind (\<lambda>r. rcvs s r \<noteq> None) (s\<lparr>exportedWires := exportedWires s @ [(d, Some w)],
        held := exportedServicesLock # held s, eps := (eps s)(p \<mapsto> wired_ep env w ep)\<rparr>) = Some r"
    and "registerReceive env r [(''wire.id'', w)] (outside s) = (CELIX_SUCCESS, reg, x)"
  shows "\<exists>s'. remoteServiceAdmin_addWiringEndpoint env d f W = Inr (CELIX_SUCCESS, W\<lparr>rest := s'\<rparr>) \<and>
    eps s' = (eps s)(p \<mapsto> wired_ep env w ep) \<and> exportedWires s' = exportedWires s @ [(d, Some w)] \<and>
    map_of (rsa_receiveServices s') = (map_of (rsa_receiveServices s))(w \<mapsto> r) \<and> rcvs s' = (rcvs s)(r \<mapsto> Some w) \<and>
    outside s' = told env (wired_ep env w ep) (map fst (rsa_listenerList s)) x \<and>
    exportedServices s' = exportedServices s \<and> exps s' = exps s \<and>
    held s' = removeAll listenerListLock (held s)"
  by (rule own_wire_served [OF assms])

definition demo_admin_env :: "nat rsa_env" where
  "demo_admin_env = demo_rsa_env\<lparr>rsa_cx := celix0\<lparr>serviceReference_getProperty := (\<lambda>r k.
     if k = ''service.id'' then Some (dec r) else if k = ''endpoint.listener.scope'' then None else Some ''calc'')\<rparr>\<rparr>"

definition demo_exporting :: "nat rsa_state" where
  "demo_exporting = demo_server\<lparr>rsa_listenerList := [(11, ())]\<rparr>"

definition demo_wired :: "nat rsa_state world" where
  "demo_wired = \<lparr>weds = [40 \<mapsto> [(WIRE_ID_KEY, ''w2''), (''requested.service.id'', ''7''), (''endpoint.framework.uuid'', ''fw-1'')]],
     rest = demo_exporting\<rparr>"

lemma fold_max_bound: "\<forall>x \<in> insert b (set l). x \<le> fold max l (b :: nat)"
proof (induction l arbitrary: b)
  case (Cons y l)
  then show ?case by (simp add: max_def) (meson order_trans nat_le_linear)
qed simp

lemma fresh_reference: "Suc (fold max (map fst m) 0) \<notin> fst ` set m"
  using fold_max_bound [of 0 "map fst m"] by fastforce

lemma demo_refs: "refs_always demo_admin_env"
  by (simp add: refs_always_def refs_ok_def new_object_def demo_admin_env_def demo_rsa_env_def demo_env_on_def fresh_reference)

lemmas demo_admin_defs = demo_admin_env_def demo_exporting_def demo_wired_def demo_server_def demo_rsa_defs

theorem own_wire_announced_witness:
  "\<exists>s'. remoteServiceAdmin_addWiringEndpoint demo_admin_env 40 None demo_wired = Inr (CELIX_SUCCESS, demo_wired\<lparr>rest := s'\<rparr>) \<and>
    exportedWires s' = [(40, Some ''w2'')] \<and> map_of (rsa_receiveServices s') ''w2'' = Some 30"
proof -
  have seven: "dec 7 = ''7''" by code_simp
  have own: "own_wire demo_admin_env demo_wired 40 ''w2'' ''7''"
    by (simp add: own_wire_def demo_admin_defs WIRE_ID_KEY_def)
  have env: "unlock_free_ok demo_admin_env" "rsa_locks_ok demo_admin_env" "exportedServicesLock \<notin> set (held demo_exporting)"
      "rest demo_wired = demo_exporting"
    by (simp_all add: rsa_locks_ok_def demo_admin_defs)
  have st: "wires_alive demo_wired (exportedWires demo_exporting)" "Some ''w2'' \<notin> snd ` set (exportedWires demo_exporting)"
      "exportedServices demo_exporting = [] @ (7, [1]) # []"
      "serviceReference_getProperty (rsa_cx demo_admin_env) 7 (OSGI_FRAMEWORK_SERVICE_ID (rsa_cx demo_admin_env)) = Some ''7''"
    by (simp_all add: demo_admin_defs wires_alive_def seven)
  have others: "\<forall>(r, l) \<in> set ([] @ []). serviceReference_getProperty (rsa_cx demo_admin_env) r
      (OSGI_FRAMEWORK_SERVICE_ID (rsa_cx demo_admin_env)) \<noteq> Some ''7''" by simp
  have new: "export_ep demo_exporting 1 = Some (1, demo_ep)" "''w2'' \<notin> fst ` set (rsa_receiveServices demo_exporting)"
      "new_object demo_admin_env ReceiverKind (\<lambda>r. rcvs demo_exporting r \<noteq> None) s = Some 30"
      "registerReceive demo_admin_env 30 [(''wire.id'', ''w2'')] (outside demo_exporting) = (CELIX_SUCCESS, 9, 0)" for s
    by (simp_all add: demo_admin_defs export_ep_def)
  show ?thesis
    using own_wire_announced [OF demo_refs env own st others new, of None] by (auto simp: demo_admin_defs)
qed

end
