(* ===== verification/Rsa_Export.thy ===== *)
theory Rsa_Export
  imports Rsa_Correct
begin

text \<open>
  Exporting a service: the endpoint description that is made of its reference, the
  registration, the record and the requests to the topology managers.
\<close>

section \<open>Service ids\<close>

lemma digit_in_digit: "is_digit c \<Longrightarrow> digit_in 10 c = Some (digit_val c)"
  by (auto simp: is_digit_def digit_in_def digit_val_def Let_def)

lemma foldl_digits:
  "\<forall>c \<in> set s. is_digit c \<Longrightarrow> foldl (\<lambda>n c. n * 10 + the (digit_in 10 c)) n s = foldl (\<lambda>n c. n * 10 + digit_val c) n s"
  by (induction s arbitrary: n) (simp_all add: digit_in_digit)

lemma number_in_dec: "number_in 10 (dec n) = n"
proof -
  have "takeWhile (\<lambda>c. digit_in 10 c \<noteq> None) (dec n) = dec n"
    using dec_all_digits [of n] by (simp add: takeWhile_eq_all_conv digit_in_digit)
  then show ?thesis
    using foldl_digits [OF dec_all_digits, of 0 n] digits_val_dec [of n] by (simp only: number_in_def digits_val_def)
qed

lemma hd_dec_zero: "hd (dec n) = CHR ''0'' \<Longrightarrow> n = 0"
proof (induction n rule: dec.induct)
  case (1 n)
  show ?case
  proof (cases "n < 10")
    case True
    then have "digit n = CHR ''0''" using "1.prems" by (subst (asm) dec.simps) simp
    then have "digit_val (digit n) = 0" by (simp add: digit_val_def)
    then show ?thesis using True by simp
  next
    case False
    then have "hd (dec (n div 10)) = CHR ''0''" using "1.prems" by (subst (asm) dec.simps) simp
    then show ?thesis using "1.IH" False by simp
  qed
qed

text \<open>A service id as the framework prints it is read back, although the base is left open.\<close>

lemma strtoull0_dec:
  assumes "n < 2 ^ 64"
  shows "strtoull0 (dec n) = of_nat n"
proof -
  have d: "is_digit (hd (dec n))" by (rule hd_dec_digit)
  have blank: "dropWhile is_cspace (dec n) = dec n"
    using digit_not_special(1) [OF d] by (cases "dec n") auto
  have plain: "hd (dec n) \<noteq> CHR ''-''" "hd (dec n) \<noteq> CHR ''+''" using digit_not_special(2,3) [OF d] by auto
  show ?thesis
  proof (cases "n = 0")
    case True
    have "dec 0 = ''0''" by code_simp
    moreover have "number_in 8 ''0'' = 0" by (simp add: number_in_def digit_in_def)
    ultimately show ?thesis using True by (simp add: strtoull0_def is_cspace_def)
  next
    case False
    then have "hd (dec n) \<noteq> CHR ''0''" using hd_dec_zero by blast
    moreover from this have "dec n ! 0 \<noteq> CHR ''0''" by (simp add: hd_conv_nth)
    ultimately show ?thesis using assms plain
      by (simp add: strtoull0_def blank number_in_dec Let_def)
  qed
qed

section \<open>The endpoint of a service\<close>

lemma endpoint_keys_map:
  assumes "\<forall>k \<in> set (sr_keys env ref). serviceReference_getProperty (rsa_cx env) ref k \<noteq> None"
  shows "map_of (endpoint_keys env ref) k =
    (if k \<in> set (sr_keys env ref) \<and> sr_status env ref k = CELIX_SUCCESS \<and> k \<noteq> OSGI_RSA_SERVICE_EXPORTED_INTERFACES env \<and>
        k \<noteq> OSGI_FRAMEWORK_OBJECTCLASS (rsa_cx env)
     then serviceReference_getProperty (rsa_cx env) ref k else None)"
proof -
  let ?cx = "rsa_cx env"
  let ?f = "\<lambda>k p. if sr_status env ref k = CELIX_SUCCESS \<and> k \<noteq> OSGI_RSA_SERVICE_EXPORTED_INTERFACES env \<and> k \<noteq> OSGI_FRAMEWORK_OBJECTCLASS ?cx
      then properties_set ?cx p k (serviceReference_getProperty ?cx ref k) else p"
  have "map_of (fold ?f l p) k =
      (if k \<in> set l \<and> sr_status env ref k = CELIX_SUCCESS \<and> k \<noteq> OSGI_RSA_SERVICE_EXPORTED_INTERFACES env \<and> k \<noteq> OSGI_FRAMEWORK_OBJECTCLASS ?cx
       then serviceReference_getProperty ?cx ref k else map_of p k)"
    if "\<forall>k \<in> set l. serviceReference_getProperty ?cx ref k \<noteq> None" for l p
    using that
  proof (induction l arbitrary: p)
    case (Cons j l)
    then obtain v where "serviceReference_getProperty ?cx ref j = Some v" by auto
    with Cons show ?case by (auto simp: properties_set_map_of)
  qed simp
  from this [OF assms, of "[]"] show ?thesis by (simp add: endpoint_keys_def Let_def)
qed

lemma endpoint_keys_distinct:
  assumes "\<forall>k \<in> set (sr_keys env ref). serviceReference_getProperty (rsa_cx env) ref k \<noteq> None"
  shows "distinct (map fst (endpoint_keys env ref))"
proof -
  let ?cx = "rsa_cx env"
  let ?f = "\<lambda>k p. if sr_status env ref k = CELIX_SUCCESS \<and> k \<noteq> OSGI_RSA_SERVICE_EXPORTED_INTERFACES env \<and> k \<noteq> OSGI_FRAMEWORK_OBJECTCLASS ?cx
      then properties_set ?cx p k (serviceReference_getProperty ?cx ref k) else p"
  have "distinct (map fst (fold ?f l p))"
    if "\<forall>k \<in> set l. serviceReference_getProperty ?cx ref k \<noteq> None" "distinct (map fst p)" for l p
    using that
  proof (induction l arbitrary: p)
    case (Cons j l)
    then obtain v where "serviceReference_getProperty ?cx ref j = Some v" by auto
    with Cons show ?case by (simp add: properties_set_distinct)
  qed simp
  from this [OF assms, of "[]"] show ?thesis by (simp add: endpoint_keys_def Let_def)
qed

text \<open>The names of the OSGi keys that the admin sets or drops are different names.\<close>

definition names_differ :: "'x rsa_env \<Rightarrow> bool" where
  "names_differ env \<longleftrightarrow> distinct [OSGI_RSA_ENDPOINT_FRAMEWORK_UUID (rsa_cx env), OSGI_FRAMEWORK_OBJECTCLASS (rsa_cx env),
     OSGI_RSA_ENDPOINT_SERVICE_ID env, OSGI_RSA_ENDPOINT_ID env, OSGI_RSA_SERVICE_IMPORTED env, OSGI_RSA_SERVICE_IMPORTED_CONFIGS env,
     OSGI_FRAMEWORK_SERVICE_ID (rsa_cx env), OSGI_RSA_SERVICE_EXPORTED_INTERFACES env]"

text \<open>The properties an endpoint of the service has to have.\<close>

definition described_as :: "'x rsa_env \<Rightarrow> service_reference \<Rightarrow> string \<Rightarrow> string \<Rightarrow> string \<Rightarrow> string \<Rightarrow> string \<Rightarrow> string option" where
  "described_as env ref u interface serviceId uuid =
     (\<lambda>k. if k \<in> set (sr_keys env ref) \<and> sr_status env ref k = CELIX_SUCCESS \<and> k \<noteq> OSGI_RSA_SERVICE_EXPORTED_INTERFACES env \<and>
            k \<noteq> OSGI_FRAMEWORK_SERVICE_ID (rsa_cx env)
         then serviceReference_getProperty (rsa_cx env) ref k else None)
     (OSGI_RSA_ENDPOINT_FRAMEWORK_UUID (rsa_cx env) \<mapsto> u, OSGI_FRAMEWORK_OBJECTCLASS (rsa_cx env) \<mapsto> interface,
      OSGI_RSA_ENDPOINT_SERVICE_ID env \<mapsto> serviceId, OSGI_RSA_ENDPOINT_ID env \<mapsto> uuid, OSGI_RSA_SERVICE_IMPORTED env \<mapsto> ''true'',
      OSGI_RSA_SERVICE_IMPORTED_CONFIGS env \<mapsto> CONFIGURATION_TYPE)"

lemma endpoint_properties_map:
  "map_of (endpoint_properties env (Some u) interface i uuid p) =
     (map_of p)(OSGI_RSA_ENDPOINT_FRAMEWORK_UUID (rsa_cx env) \<mapsto> u, OSGI_FRAMEWORK_OBJECTCLASS (rsa_cx env) \<mapsto> interface,
      OSGI_RSA_ENDPOINT_SERVICE_ID env \<mapsto> i, OSGI_RSA_ENDPOINT_ID env \<mapsto> uuid, OSGI_RSA_SERVICE_IMPORTED env \<mapsto> ''true'',
      OSGI_RSA_SERVICE_IMPORTED_CONFIGS env \<mapsto> CONFIGURATION_TYPE)"
  by (simp add: endpoint_properties_def Let_def properties_set_map_of)

definition reference_ok :: "'x rsa_env \<Rightarrow> service_reference \<Rightarrow> nat \<Rightarrow> string \<Rightarrow> bool" where
  "reference_ok env ref n u \<longleftrightarrow> names_differ env \<and> n < 2 ^ 64 \<and>
     (\<forall>k \<in> set (sr_keys env ref). serviceReference_getProperty (rsa_cx env) ref k \<noteq> None) \<and>
     OSGI_FRAMEWORK_SERVICE_ID (rsa_cx env) \<in> set (sr_keys env ref) \<and>
     sr_status env ref (OSGI_FRAMEWORK_SERVICE_ID (rsa_cx env)) = CELIX_SUCCESS \<and>
     serviceReference_getProperty (rsa_cx env) ref (OSGI_FRAMEWORK_SERVICE_ID (rsa_cx env)) = Some (dec n) \<and>
     snd (bundleContext_getProperty (rsa_cx env) (OSGI_FRAMEWORK_FRAMEWORK_UUID (rsa_cx env))) = Some u"

lemma endpoint_created:
  assumes "reference_ok env ref n u" "new_object env EndpointKind (\<lambda>a. eps s a \<noteq> None) s = Some a"
  shows "\<exists>q. remoteServiceAdmin_createEndpointDescription env ref interface s = Inr (CELIX_SUCCESS, Some a,
      s\<lparr>eps := (eps s)(a \<mapsto> \<lparr>frameworkUUID = Some u, ep_id = Some (rsa_uuid env s), ep_service = Some interface,
        ep_properties = q, ep_serviceId = of_nat n\<rparr>)\<rparr>) \<and>
    map_of q = described_as env ref u interface (dec n) (rsa_uuid env s)"
proof -
  let ?cx = "rsa_cx env" and ?id = "OSGI_FRAMEWORK_SERVICE_ID (rsa_cx env)"
  note ok = assms(1) [unfolded reference_ok_def]
  note keys = ok [THEN conjunct2, THEN conjunct2, THEN conjunct1]
  let ?p = "hashMap_remove (string_same ?cx) ?id (endpoint_keys env ref)"
  let ?q = "endpoint_properties env (Some u) interface (dec n) (rsa_uuid env s) ?p"
  have diff: "?id \<noteq> OSGI_RSA_SERVICE_EXPORTED_INTERFACES env" "?id \<noteq> OSGI_FRAMEWORK_OBJECTCLASS ?cx"
    using ok by (auto simp: names_differ_def)
  have entry: "hashMap_getEntry (string_same ?cx) (endpoint_keys env ref) ?id = Some (?id, dec n)"
    using ok diff by (simp add: smap.getEntry_map_of endpoint_keys_map [OF keys])
  have p: "map_of ?p = (map_of (endpoint_keys env ref))(?id := None)"
    using endpoint_keys_distinct [OF keys] by (rule smap.remove_map_of)
  have q: "map_of ?q = described_as env ref u interface (dec n) (rsa_uuid env s)"
    using diff unfolding endpoint_properties_map p described_as_def
    by (auto simp: fun_eq_iff endpoint_keys_map [OF keys])
  have "map_of ?q (OSGI_RSA_ENDPOINT_FRAMEWORK_UUID ?cx) = Some u" "map_of ?q (OSGI_RSA_ENDPOINT_ID env) = Some (rsa_uuid env s)"
    using ok by (simp_all add: endpoint_properties_map names_differ_def)
  then show ?thesis
    using entry ok assms(2) q
    by (intro exI [of _ ?q])
      (simp add: remoteServiceAdmin_createEndpointDescription_def Let_def properties_get_map_of strtoull0_dec)
qed

section \<open>The registration and the record\<close>

text \<open>What has to hold of the bundle of a service for its registration to be made.\<close>

definition exportable :: "'x rsa_env \<Rightarrow> service_reference \<Rightarrow> string \<Rightarrow> nat \<Rightarrow> tracker \<Rightarrow> bool" where
  "exportable env ref c i t \<longleftrightarrow>
     sr_status env ref ''service.id'' = CELIX_SUCCESS \<and> serviceReference_getProperty (rsa_cx env) ref ''service.id'' \<noteq> None \<and>
     sr_status env ref (OSGI_RSA_SERVICE_EXPORTED_INTERFACES env) = CELIX_SUCCESS \<and>
     serviceReference_getProperty (rsa_cx env) ref (OSGI_RSA_SERVICE_EXPORTED_INTERFACES env) = Some c \<and>
     serviceReference_getProperty (rsa_cx env) ref (OSGI_FRAMEWORK_OBJECTCLASS (rsa_cx env)) = Some c \<and>
     fst (sr_bundle env ref) = CELIX_SUCCESS \<and>
     (\<exists>f. bundle_getEntry env (snd (sr_bundle env ref)) (snprintf 128 (c @ ''.descriptor'')) = (CELIX_SUCCESS, Some f) \<and>
        rsa_fopen env f \<and> dynInterface_parse env f = (0, Some i)) \<and>
     rsa_customizer env = CELIX_SUCCESS \<and> (\<forall>f. rsa_createTracker env f = (CELIX_SUCCESS, t))"

lemma registration_created:
  assumes "exportable env ref c i t" "new_object env ExportKind (\<lambda>a. exps s a \<noteq> None) s = Some e"
  shows "exportRegistration_create env ref (Some p) s = Inr (CELIX_SUCCESS, Some e,
    s\<lparr>exps := (exps s)(e \<mapsto> \<lparr>er_endpoint = Some p, er_reference = ref, er_intf = Some i, er_tracker = t, er_service = None\<rparr>)\<rparr>)"
proof -
  obtain b where b: "sr_bundle env ref = (CELIX_SUCCESS, b)"
    using assms(1) by (cases "sr_bundle env ref") (simp add: exportable_def)
  obtain f where f: "bundle_getEntry env b (snprintf 128 (c @ ''.descriptor'')) = (CELIX_SUCCESS, Some f)"
      "rsa_fopen env f" "dynInterface_parse env f = (0, Some i)"
    using assms(1) b by (auto simp: exportable_def)
  show ?thesis
    using assms f b
    by (auto simp: exportRegistration_create_def exportable_def do_if_def Let_def parse_descriptor_def export_tracker_def)
qed

text \<open>Opening the tracker hands over the service; with several, the last one stays.\<close>

lemma addServ_all:
  assumes "exps s e = Some reg"
  shows "rfold (exportRegistration_addServ e) l s =
    Inr (s\<lparr>exps := (exps s)(e \<mapsto> reg\<lparr>er_service := (if l = [] then er_service reg else Some (last l))\<rparr>)\<rparr>)"
  using assms
proof (induction l arbitrary: s reg)
  case Nil
  then show ?case by (cases s) (simp add: fun_upd_idem)
next
  case (Cons x l)
  let ?s = "s\<lparr>exps := (exps s)(e \<mapsto> reg\<lparr>er_service := Some x\<rparr>)\<rparr>"
  have "exportRegistration_addServ e x s = Inr ?s" using Cons.prems by (simp add: exportRegistration_addServ_def deref_def)
  then show ?case using Cons.IH [of ?s "reg\<lparr>er_service := Some x\<rparr>"] by (simp cong: if_cong)
qed

definition started :: "'x rsa_env \<Rightarrow> service_reference \<Rightarrow> ep_ptr \<Rightarrow> nat \<Rightarrow> tracker \<Rightarrow> export_registration" where
  "started env ref p i t = \<lparr>er_endpoint = Some p, er_reference = ref, er_intf = Some i, er_tracker = t,
     er_service = (if er_open env t = [] then None else Some (last (er_open env t)))\<rparr>"

lemma registrations_made:
  assumes "reference_ok env ref n u" "exportable env ref c i t"
    and "new_object env EndpointKind (\<lambda>a. eps s a \<noteq> None) s = Some p"
    and "\<And>s'. exps s' = exps s \<Longrightarrow> new_object env ExportKind (\<lambda>a. exps s' a \<noteq> None) s' = Some e"
  shows "\<exists>q. export_registrations env ref c s = Inr (CELIX_SUCCESS, [e],
      s\<lparr>eps := (eps s)(p \<mapsto> \<lparr>frameworkUUID = Some u, ep_id = Some (rsa_uuid env s), ep_service = Some c, ep_properties = q,
          ep_serviceId = of_nat n\<rparr>),
        exps := (exps s)(e \<mapsto> started env ref p i t)\<rparr>) \<and>
    map_of q = described_as env ref u c (dec n) (rsa_uuid env s)"
proof -
  obtain q where q: "remoteServiceAdmin_createEndpointDescription env ref c s = Inr (CELIX_SUCCESS, Some p,
      s\<lparr>eps := (eps s)(p \<mapsto> \<lparr>frameworkUUID = Some u, ep_id = Some (rsa_uuid env s), ep_service = Some c, ep_properties = q,
        ep_serviceId = of_nat n\<rparr>)\<rparr>)" (is "_ = Inr (_, _, ?s)")
      "map_of q = described_as env ref u c (dec n) (rsa_uuid env s)"
    using endpoint_created [OF assms(1,3)] by blast
  have "exportRegistration_create env ref (Some p) ?s = Inr (CELIX_SUCCESS, Some e,
      ?s\<lparr>exps := (exps s)(e \<mapsto> \<lparr>er_endpoint = Some p, er_reference = ref, er_intf = Some i, er_tracker = t, er_service = None\<rparr>)\<rparr>)"
    using registration_created [OF assms(2), of ?s e] assms(4) [of ?s] by simp
  with q show ?thesis
    by (intro exI [of _ q])
      (simp add: export_registrations_def exportRegistration_start_def deref_def addServ_all started_def)
qed

lemma exportService_eq:
  assumes "rsa_locks_ok env" "exportedServicesLock \<notin> set (held s)" "wtmListLock \<notin> set (held s)" "rest W = s"
    and "getServiceReferences env (snprintf 256 (''('' @ OSGI_FRAMEWORK_SERVICE_ID (rsa_cx env) @ ''='' @ serviceId @ '')'')) (outside s) = ref # refs"
    and "exportable env ref c i t" "export_registrations env ref c s = Inr (CELIX_SUCCESS, l, s1)" "held s1 = held s"
    and "s2 = s1\<lparr>exportedServices := hashMap_put (rsa_cx env) (ptr_hash (rsa_cx env)) (ptr_same (rsa_cx env)) ref l (exportedServices s1)\<rparr>"
  shows "remoteServiceAdmin_exportService env serviceId p W =
    rbind (rfold (offer_export env (case p of None \<Rightarrow> reference_properties env ref | Some q \<Rightarrow> q)) (wtmList s1) (W\<lparr>rest := s2\<rparr>))
      (\<lambda>W. Inr (CELIX_SERVICE_EXCEPTION, Some l, W))"
proof -
  note locks = assms(1) assms(2,3) [folded assms(8)]
  have "remoteServiceAdmin_getWTMs env s2 = Inr (wtmList s1, s2)"
    using locks assms(9) by (simp add: remoteServiceAdmin_getWTMs_def rsa_lock_simps)
  then have "export_recorded env ref l p (W\<lparr>rest := s1\<rparr>) =
      rfold (offer_export env (case p of None \<Rightarrow> reference_properties env ref | Some q \<Rightarrow> q)) (wtmList s1) (W\<lparr>rest := s2\<rparr>)"
    using locks assms(9) by (simp add: export_recorded_def in_world_def rsa_lock_simps Let_def)
  then show ?thesis
    using assms(4-7) by (simp add: remoteServiceAdmin_exportService_def exportable_def in_world_def Let_def)
qed

text \<open>
  C26. Exporting a service: the admin makes a new endpoint description from the service
  reference (its properties except for the exported interfaces and the service id, and the
  framework id, interface, service id, a new endpoint id and the import marks), makes and
  starts a registration for it, records the registration under the reference, and asks every
  topology manager it knows, in order, to export a wire. The answer is
  \<^verbatim>\<open>CELIX_SERVICE_EXCEPTION\<close> whatever they say.
\<close>

theorem exported_service_recorded:
  assumes "rsa_locks_ok env" "exportedServicesLock \<notin> set (held s)" "wtmListLock \<notin> set (held s)" "rest W = s"
    and "getServiceReferences env (snprintf 256 (''('' @ OSGI_FRAMEWORK_SERVICE_ID (rsa_cx env) @ ''='' @ serviceId @ '')'')) (outside s) = ref # refs"
    and "reference_ok env ref n u" "exportable env ref c i t"
    and "new_object env EndpointKind (\<lambda>a. eps s a \<noteq> None) s = Some p"
    and "\<And>s'. exps s' = exps s \<Longrightarrow> new_object env ExportKind (\<lambda>a. exps s' a \<noteq> None) s' = Some e"
    and "\<And>m q W. \<exists>st W'. wtm_export env m q W = Inr (st, W')"
  shows "\<exists>q s2 W'. remoteServiceAdmin_exportService env serviceId None W = Inr (CELIX_SERVICE_EXCEPTION, Some [e], W') \<and>
    rfold (offer_export env (reference_properties env ref)) (wtmList s) (W\<lparr>rest := s2\<rparr>) = Inr W' \<and>
    map_of (exportedServices s2) = (map_of (exportedServices s))(ref \<mapsto> [e]) \<and>
    exps s2 = (exps s)(e \<mapsto> started env ref p i t) \<and>
    eps s2 = (eps s)(p \<mapsto> \<lparr>frameworkUUID = Some u, ep_id = Some (rsa_uuid env s), ep_service = Some c, ep_properties = q,
        ep_serviceId = of_nat n\<rparr>) \<and>
    map_of q = described_as env ref u c (dec n) (rsa_uuid env s) \<and> held s2 = held s \<and> outside s2 = outside s"
proof -
  obtain q where q: "export_registrations env ref c s = Inr (CELIX_SUCCESS, [e],
      s\<lparr>eps := (eps s)(p \<mapsto> \<lparr>frameworkUUID = Some u, ep_id = Some (rsa_uuid env s), ep_service = Some c, ep_properties = q,
          ep_serviceId = of_nat n\<rparr>),
        exps := (exps s)(e \<mapsto> started env ref p i t)\<rparr>)" (is "_ = Inr (_, _, ?s1)")
      "map_of q = described_as env ref u c (dec n) (rsa_uuid env s)"
    using registrations_made [OF assms(6,7,8,9)] by blast
  define s2 where "s2 = ?s1\<lparr>exportedServices := hashMap_put (rsa_cx env) (ptr_hash (rsa_cx env)) (ptr_same (rsa_cx env)) ref [e] (exportedServices s)\<rparr>"
  have "\<exists>W'. rfold (offer_export env r) l W = Inr W'" for r l and W :: "'a rsa_state world"
  proof (induction l arbitrary: W)
    case (Cons m l)
    obtain st W1 where "wtm_export env m r W = Inr (st, W1)" using assms(10) by blast
    with Cons show ?case by (simp add: offer_export_def)
  qed simp
  then obtain W' where W': "rfold (offer_export env (reference_properties env ref)) (wtmList s) (W\<lparr>rest := s2\<rparr>) = Inr W'" by blast
  have "remoteServiceAdmin_exportService env serviceId None W = Inr (CELIX_SERVICE_EXCEPTION, Some [e], W')"
    using exportService_eq [OF assms(1-5,7) q(1), of s2 None] W' by (simp add: s2_def)
  then show ?thesis
    using W' q(2) by (intro exI [of _ q] exI [of _ s2] exI [of _ W']) (simp add: s2_def pmap.put_map_of)
qed

lemma demo_reference_ok: "reference_ok demo_admin_env 7 7 ''fw-1''"
  by (simp add: reference_ok_def names_differ_def demo_admin_defs)

lemma demo_exportable: "exportable demo_admin_env 7 ''calc'' 4 5"
  by (simp add: exportable_def demo_admin_defs)

definition demo_idle :: "nat rsa_state world" where
  "demo_idle = \<lparr>weds = Map.empty, rest = demo_rsa\<rparr>"

theorem exported_service_recorded_witness:
  "\<exists>q s2 W'. remoteServiceAdmin_exportService demo_admin_env ''7'' None demo_idle = Inr (CELIX_SERVICE_EXCEPTION, Some [1], W') \<and>
    rfold (offer_export demo_admin_env (reference_properties demo_admin_env 7)) (wtmList demo_rsa) (demo_idle\<lparr>rest := s2\<rparr>) = Inr W' \<and>
    map_of (exportedServices s2) = [7 \<mapsto> [1]]"
proof -
  have env: "rsa_locks_ok demo_admin_env" "exportedServicesLock \<notin> set (held demo_rsa)" "wtmListLock \<notin> set (held demo_rsa)"
      "rest demo_idle = demo_rsa" "getServiceReferences demo_admin_env f (outside demo_rsa) = 7 # []" for f
    by (simp_all add: rsa_locks_ok_def demo_idle_def demo_admin_defs)
  have ep: "new_object demo_admin_env EndpointKind (\<lambda>a. eps demo_rsa a \<noteq> None) demo_rsa = Some 2"
    and ex: "exps s' = exps demo_rsa \<Longrightarrow> new_object demo_admin_env ExportKind (\<lambda>a. exps s' a \<noteq> None) s' = Some 1"
    and wtm: "\<exists>st W'. wtm_export demo_admin_env m q W = Inr (st, W')" for s' m q W
    by (simp_all add: demo_admin_defs)
  have none: "map_of (exportedServices demo_rsa) = Map.empty" by (simp add: demo_rsa_def)
  show ?thesis
    using exported_service_recorded [OF env demo_reference_ok demo_exportable ep ex wtm] unfolding none by blast
qed

end
