(* ===== verification/Rsa_Faults.thy ===== *)
theory Rsa_Faults
  imports Rsa_Export
begin

text \<open>
  Where the remote service admin fails: exports that cannot be taken back, wires that are
  read after they are gone, exports that have no wire yet, and descriptions that are equal
  but are different keys.
\<close>

section \<open>Taking back an export\<close>

lemma exportRegistration_close_frame:
  assumes "exportRegistration_close env e s = Inr (st, s')"
  shows "exportedServices s' = exportedServices s \<and> eps s' = eps s \<and> importedServices s' = importedServices s \<and> held s' = held s \<and> imps s' = imps s"
proof -
  obtain reg s1 where s1: "exps s e = Some reg" "rfold (exportRegistration_removeServ e) (er_close env (er_tracker reg)) s = Inr s1" "s' = s1"
    using assms by (auto simp: exportRegistration_close_def exportRegistration_stop_def rbind_eq_Inr Let_def)
  from s1(2) show ?thesis
    unfolding s1(3)
    by (rule rfold_invariant [where P = "\<lambda>t. exportedServices t = exportedServices s \<and> eps t = eps s \<and> importedServices t = importedServices s \<and>
        held t = held s \<and> imps t = imps s"])
      (auto simp: exportRegistration_removeServ_def rbind_eq_Inr)
qed

text \<open>
  An export cannot be taken back: giving up an exported service closes its registration,
  but the table of exported services stays as it was, since the entry is looked up by the
  address of a new export reference and not by the service reference. The closed export is
  still found by requests, announced to new listeners and offered to new topology managers.
\<close>

theorem removeExported_keeps_entry:
  assumes "remoteServiceAdmin_removeExportedService env e s = Inr (st, s')"
  shows "exportedServices s' = exportedServices s"
proof -
  have lock: "exportedServices t' = exportedServices t" if "rsa_lock env l t = Inr (st, t')" for l st t t'
    using that by (auto simp: rsa_lock_def Let_def split: if_splits)
  have unlock: "exportedServices t' = exportedServices t" if "rsa_unlock env l t = Inr (st, t')" for l st t t'
    using that by (auto simp: rsa_unlock_def split: if_splits)
  obtain status ref where ref: "exportRegistration_getExportReference env e s = Inr (status, ref)"
    using assms by (auto simp: remoteServiceAdmin_removeExportedService_def rbind_eq_Inr)
  show ?thesis
  proof (cases ref)
    case None
    then show ?thesis using assms ref by (simp add: remoteServiceAdmin_removeExportedService_def)
  next
    case (Some r)
    have fresh: "xr_address r \<notin> fst ` set (exportedServices s)"
      using ref Some new_object_Some [of env ReferenceKind "\<lambda>r. r \<in> fst ` set (exportedServices s)" s]
      by (auto simp: exportRegistration_getExportReference_def rbind_eq_Inr split: option.splits) (metis fst_conv image_eqI)
    obtain st1 s1 st2 s2 st3 s3 where steps: "rsa_lock env exportedServicesLock s = Inr (st1, s1)" "exportRegistration_close env e s1 = Inr (st2, s2)"
        "rsa_unlock env exportedServicesLock (s2\<lparr>exportedServices := hashMap_remove (ptr_same (rsa_cx env)) (xr_address r) (exportedServices s2)\<rparr>) = Inr (st3, s3)"
        "s' = s3"
      using assms ref Some by (auto simp: remoteServiceAdmin_removeExportedService_def rbind_eq_Inr)
    have "exportedServices s2 = exportedServices s" using lock [OF steps(1)] exportRegistration_close_frame [OF steps(2)] by simp
    then show ?thesis using unlock [OF steps(3)] fresh steps(4) by (simp add: pmap.remove_absent)
  qed
qed

theorem removeExported_keeps_entry_witness:
  "\<exists>st s'. remoteServiceAdmin_removeExportedService demo_admin_env 1 demo_server = Inr (st, s') \<and> exportedServices s' = [(7, [1])]"
proof -
  obtain st s' where run: "remoteServiceAdmin_removeExportedService demo_admin_env 1 demo_server = Inr (st, s')"
    by (simp add: remoteServiceAdmin_removeExportedService_def exportRegistration_getExportReference_def exportRegistration_close_def
      exportRegistration_stop_def exportRegistration_removeServ_def rsa_lock_def rsa_unlock_def deref_def demo_admin_defs)
  have "exportedServices demo_server = [(7, [1])]" by (simp add: demo_server_def)
  with removeExported_keeps_entry [OF run] run show ?thesis by auto
qed

section \<open>Wires that are gone\<close>

text \<open>
  The list of exported wires keeps pointers into descriptions and is never shortened: once
  the description of a listed wire is freed, the next wire of the own framework that the admin
  is told of reads freed memory.
\<close>

theorem stale_wire_read:
  assumes "own_wire env W d w i" "exportedWires (rest W) = (d', Some w') # l" "weds W d' = None"
  shows "remoteServiceAdmin_addWiringEndpoint env d f W = Inl UseAfterFree"
  using assms
  by (auto simp: own_wire_def remoteServiceAdmin_addWiringEndpoint_def wed_deref_def properties_get_map_of add_exported_wire_def Let_def)

theorem stale_wire_read_witness:
  "remoteServiceAdmin_addWiringEndpoint demo_admin_env 40 None
      (demo_wired\<lparr>rest := demo_exporting\<lparr>exportedWires := [(39, Some ''w0'')]\<rparr>\<rparr>) = Inl UseAfterFree"
proof (rule stale_wire_read [where d' = 39 and w' = "''w0''" and l = "[]"])
  show "own_wire demo_admin_env (demo_wired\<lparr>rest := demo_exporting\<lparr>exportedWires := [(39, Some ''w0'')]\<rparr>\<rparr>) 40 ''w2'' ''7''"
    by (simp add: own_wire_def demo_admin_defs WIRE_ID_KEY_def)
qed (simp_all add: demo_admin_defs)

section \<open>Exports without a wire\<close>

lemma unwired_scan:
  assumes "refs_ok env s" "\<forall>e \<in> set es. export_ep s e \<noteq> None"
    and "e \<in> set es" "export_ep s e = Some (p, ep)" "map_of (ep_properties ep) WIRE_ID_KEY = None"
  shows "exports_on_wire env wireId s es = Inl NullPointer"
  using assms(2,3)
proof (induction es)
  case (Cons a es)
  then obtain pa epa where a: "export_ep s a = Some (pa, epa)" by auto
  show ?case
  proof (cases "e \<in> set es")
    case True
    then show ?thesis using Cons a exported_endpoint_eq [OF assms(1) a] by (cases wireId) (simp_all split: option.split)
  next
    case False
    then have "a = e" using Cons.prems(2) by simp
    then show ?thesis using a assms(4,5) exported_endpoint_eq [OF assms(1) a]
      by (simp add: properties_get_map_of split: option.split)
  qed
qed simp

text \<open>
  As long as an exported service waits for its wire, no wire can be withdrawn: told of the
  end of any wire, the admin compares its id with that of every export and passes a NULL text
  for the one that has none.
\<close>

theorem unwired_export_blocks_removal:
  assumes "rsa_locks_ok env" "exportedServicesLock \<notin> set (held (rest W))" "refs_always env" "weds W d = Some q"
    and "\<forall>e \<in> set (all_exports (rest W)). export_ep (rest W) e \<noteq> None"
    and "e \<in> set (all_exports (rest W))" "export_ep (rest W) e = Some (p, ep)" "map_of (ep_properties ep) WIRE_ID_KEY = None"
  shows "remoteServiceAdmin_removeWiringEndpoint env d f W = Inl NullPointer"
proof -
  let ?s = "(rest W)\<lparr>held := exportedServicesLock # held (rest W)\<rparr>"
  have "export_ep ?s = export_ep (rest W)" by (simp add: export_ep_def fun_eq_iff)
  then have "exports_on_wire env wireId ?s (all_exports (rest W)) = Inl NullPointer" for wireId
    using unwired_scan [of env ?s "all_exports (rest W)" e p ep wireId] assms(3,5-8) by (simp add: refs_always_def)
  then show ?thesis
    using assms(1,2,4)
    by (simp add: remoteServiceAdmin_removeWiringEndpoint_def wed_deref_def in_world_def rsa_lock_ok all_exports_def)
qed

theorem unwired_export_blocks_removal_witness:
  "remoteServiceAdmin_removeWiringEndpoint demo_admin_env 40 None
      (demo_wired\<lparr>rest := demo_exporting\<lparr>eps := [1 \<mapsto> demo_ep\<lparr>ep_properties := []\<rparr>]\<rparr>\<rparr>) = Inl NullPointer"
  by (rule unwired_export_blocks_removal [OF _ _ demo_refs, where e = 1 and p = 1 and ep = "demo_ep\<lparr>ep_properties := []\<rparr>"])
    (simp_all add: rsa_locks_ok_def demo_admin_defs all_exports_def export_ep_def)

section \<open>Keys\<close>

text \<open>
  Two imported endpoint descriptions that the comparison of the table calls equal (same
  service, same service id) are nevertheless different keys when the hashes of service and
  endpoint id differ: the second one is imported beside the first. On a description of the
  same service, service id and endpoint id the table finds the first.
\<close>

theorem equal_endpoints_two_keys:
  assumes "a \<noteq> b" "eps s a = Some e" "eps s b = Some f" "ep_service e = Some c" "ep_service f = Some c" "ep_serviceId e = ep_serviceId f"
    and "ep_id e = Some i" "ep_id f = Some j"
  shows "remoteServiceAdmin_endpointDescription_equals s a b \<and>
    (ep_same cx s a b \<longleftrightarrow> utils_stringHash cx (snprintf 512 (c @ i)) = utils_stringHash cx (snprintf 512 (c @ j)))"
  using assms
  by (simp add: remoteServiceAdmin_endpointDescription_equals_def remoteServiceAdmin_endpointDescription_hash_def ep_same_def same_key_def)

theorem equal_endpoints_two_keys_witness:
  "remoteServiceAdmin_endpointDescription_equals (demo_rsa\<lparr>eps := [1 \<mapsto> demo_ep, 2 \<mapsto> demo_ep\<lparr>ep_id := Some ''ep-10''\<rparr>]\<rparr>) 1 2 \<and>
   \<not> ep_same celix0 (demo_rsa\<lparr>eps := [1 \<mapsto> demo_ep, 2 \<mapsto> demo_ep\<lparr>ep_id := Some ''ep-10''\<rparr>]\<rparr>) 1 2"
  using equal_endpoints_two_keys [of 1 2 "demo_rsa\<lparr>eps := [1 \<mapsto> demo_ep, 2 \<mapsto> demo_ep\<lparr>ep_id := Some ''ep-10''\<rparr>]\<rparr>" demo_ep
    "demo_ep\<lparr>ep_id := Some ''ep-10''\<rparr>" "''calc''" "''ep-9''" "''ep-10''" celix0]
  by (simp add: demo_ep_def celix0_def snprintf_def)

end
