(* ===== verification/Rsa_Node.thy ===== *)
theory Rsa_Node
  imports Rsa_Faults Topology_Correct
begin

text \<open>
  The remote service admin and the topology manager of one node. Each calls the other: the
  admin asks the manager for wires, and the manager tells the admin, its listener, of the
  wires that are there, while the first call has not returned. The state of the manager
  is part of the outside of the admin.
\<close>

section \<open>The admin as a listener\<close>

definition rsa_listener :: "'x rsa_env \<Rightarrow> 'x rsa_state wiring_endpoint_listener" where
  "rsa_listener env = \<lparr>wiringEndpointAdded = remoteServiceAdmin_addWiringEndpoint env,
     wiringEndpointRemoved = remoteServiceAdmin_removeWiringEndpoint env\<rparr>"

lemma in_world_weds: "in_world f W = Inr (r, W') \<Longrightarrow> weds W' = weds W"
  by (auto simp: in_world_def rbind_eq_Inr)

lemma add_wiring_weds: "remoteServiceAdmin_addWiringEndpoint env d f W = Inr (st, W') \<Longrightarrow> weds W' = weds W"
  by (auto simp: remoteServiceAdmin_addWiringEndpoint_def add_exported_wire_def Let_def rbind_eq_Inr
      dest: in_world_weds split: prod.split_asm option.split_asm if_split_asm)

lemma remove_wiring_weds: "remoteServiceAdmin_removeWiringEndpoint env d f W = Inr (st, W') \<Longrightarrow> weds W' = weds W"
  by (auto simp: remoteServiceAdmin_removeWiringEndpoint_def Let_def rbind_eq_Inr dest: in_world_weds)

text \<open>The admin keeps the contract that the topology manager expects of its listeners.\<close>

interpretation rsa: listener_contract cx "rsa_listener env" for cx env
  by unfold_locales (auto simp: rsa_listener_def intro: wires_kept_weds dest: add_wiring_weds remove_wiring_weds)

section \<open>The manager as a service\<close>

definition topology_export ::
    "(wtm \<times> 'y) rsa_state wtm_env \<Rightarrow> properties \<Rightarrow> (wtm \<times> 'y) rsa_state world \<Rightarrow>
     (celix_status \<times> (wtm \<times> 'y) rsa_state world) result" where
  "topology_export wenv p W =
     rbind (wiringTopologyManager_exportWiringEndpoint wenv (Some p) (fst (outside (rest W))) W) (\<lambda>(st, m, W).
       Inr (st, W\<lparr>rest := (rest W)\<lparr>outside := (m, snd (outside (rest W)))\<rparr>\<rparr>))"

text \<open>
  A node whose manager knows one admin that makes a wire for the service, with a description
  of the own framework, and one listener, the remote service admin.
\<close>

definition node_wire ::
    "'x rsa_env \<Rightarrow> 'x rsa_state wtm_env \<Rightarrow> wtm \<Rightarrow> properties \<Rightarrow> 'x rsa_state world \<Rightarrow> wiring_admin_ptr \<Rightarrow> wed_ptr \<Rightarrow> properties \<Rightarrow>
     string \<Rightarrow> string \<Rightarrow> bool" where
  "node_wire env wenv m p W wa d q w i \<longleftrightarrow>
     waList m = [wa] \<and> (\<exists>lref. listenerList m = [(lref, ())] \<and> wtm_getService wenv lref = (CELIX_SUCCESS, rsa_listener env) \<and>
       serviceReference_getProperty (wtm_cx wenv) lref ''RSA'' \<noteq> None) \<and>
     hashMap_get (srvc_same (wtm_cx wenv)) (exportedWiringEndpoints m) p = None \<and>
     (\<exists>ap. getWiringAdminProperties (wtm_admin wenv wa) W = Some ap \<and> properties_match (wtm_cx wenv) p ap) \<and>
     exportWiringEndpoint (wtm_admin wenv wa) W = Inr (CELIX_SUCCESS, Some d, W\<lparr>weds := (weds W)(d \<mapsto> q)\<rparr>) \<and>
     map_of p ''service.id'' = Some i \<and> map_of q WIRE_ID_KEY = Some w \<and>
     (\<exists>u. bundleContext_getProperty (rsa_cx env) (OSGI_FRAMEWORK_FRAMEWORK_UUID (rsa_cx env)) = (CELIX_SUCCESS, Some u) \<and>
        map_of q (OSGI_RSA_ENDPOINT_FRAMEWORK_UUID (rsa_cx env)) = Some u) \<and>
     OSGI_RSA_ENDPOINT_FRAMEWORK_UUID (rsa_cx env) \<noteq> ''requested.service.id'' \<and>
     celixThreadMutex_lock (wtm_cx wenv) ''listenerListLock'' = CELIX_SUCCESS \<and>
     celixThreadMutex_unlock (wtm_cx wenv) ''listenerListLock'' = CELIX_SUCCESS"

text \<open>The manager that has recorded the wire of the service.\<close>

definition wire_recorded :: "'x rsa_state wtm_env \<Rightarrow> wtm \<Rightarrow> properties \<Rightarrow> wiring_admin_ptr \<Rightarrow> wed_ptr \<Rightarrow> wtm" where
  "wire_recorded wenv m p wa d = m\<lparr>exportedWiringEndpoints :=
     hashMap_put (wtm_cx wenv) (srvc_hash (wtm_cx wenv)) (srvc_same (wtm_cx wenv)) p [(wa, d)] (exportedWiringEndpoints m)\<rparr>"

text \<open>The admin with this manager as its only one.\<close>

definition with_manager :: "(wtm \<times> 'y) rsa_env \<Rightarrow> (wtm \<times> 'y) rsa_state wtm_env \<Rightarrow> (wtm \<times> 'y) rsa_env" where
  "with_manager env wenv = env\<lparr>wtm_export := (\<lambda>m. topology_export wenv)\<rparr>"

lemma with_manager_simps [simp]:
  "rsa_locks_ok (with_manager env wenv) = rsa_locks_ok env"
  "reference_ok (with_manager env wenv) = reference_ok env"
  "exportable (with_manager env wenv) = exportable env"
  "new_object (with_manager env wenv) = new_object env"
  "described_as (with_manager env wenv) = described_as env"
  "started (with_manager env wenv) = started env"
  "reference_properties (with_manager env wenv) = reference_properties env"
  "rsa_cx (with_manager env wenv) = rsa_cx env"
  "rsa_uuid (with_manager env wenv) = rsa_uuid env"
  "getServiceReferences (with_manager env wenv) = getServiceReferences env"
  "wtm_export (with_manager env wenv) = (\<lambda>m. topology_export wenv)"
  by (simp_all add: with_manager_def rsa_locks_ok_def reference_ok_def names_differ_def exportable_def new_object_def described_as_def
    started_def reference_properties_def fun_eq_iff)

text \<open>The description as the listener sees it.\<close>

definition wire_for :: "'x rsa_state wtm_env \<Rightarrow> string \<Rightarrow> wed_ptr \<Rightarrow> properties \<Rightarrow> 'x rsa_state world \<Rightarrow> 'x rsa_state world" where
  "wire_for wenv i d q W = W\<lparr>weds := (weds W)(d \<mapsto> properties_set (wtm_cx wenv) q ''requested.service.id'' (Some i))\<rparr>"

lemma node_own_wire:
  assumes "node_wire env wenv m p W wa d q w i"
  shows "own_wire env (wire_for wenv i d q W) d w i"
  using assms by (auto simp: node_wire_def own_wire_def wire_for_def properties_set_map_of WIRE_ID_KEY_def)

lemma node_announce:
  assumes "node_wire env wenv m p W wa d q w i"
  obtains f where "announce wenv m p d (W\<lparr>weds := (weds W)(d \<mapsto> q)\<rparr>) =
    rbind (remoteServiceAdmin_addWiringEndpoint env d f (wire_for wenv i d q W)) (\<lambda>(st, W). Inr (CELIX_SUCCESS, W))"
proof -
  obtain lref where l: "listenerList m = [(lref, ())]" "wtm_getService wenv lref = (CELIX_SUCCESS, rsa_listener env)"
      "serviceReference_getProperty (wtm_cx wenv) lref ''RSA'' \<noteq> None"
    using assms by (auto simp: node_wire_def)
  have "announce wenv m p d (W\<lparr>weds := (weds W)(d \<mapsto> q)\<rparr>) =
      rbind (remoteServiceAdmin_addWiringEndpoint env d
        (serviceReference_getProperty (wtm_cx wenv) lref INAETICS_WIRING_ENDPOINT_LISTENER_SCOPE) (wire_for wenv i d q W)) (\<lambda>(st, W). Inr (CELIX_SUCCESS, W))"
    using assms l
    by (simp add: node_wire_def announce_def wed_set_def wed_deref_def wire_for_def properties_get_map_of rsa_listener_def
        wiringTopologyManager_notifyListenersWiringEndpointAdded_def notifyListeners_def notify_listener_def rbind_assoc case_prod_beta' Let_def)
  then show ?thesis by (rule that)
qed

lemma node_export:
  assumes "node_wire env wenv m p W wa d q w i" "fst (outside (rest W)) = m"
  obtains f where "topology_export wenv p W =
    rbind (remoteServiceAdmin_addWiringEndpoint env d f (wire_for wenv i d q W)) (\<lambda>(st, W).
      Inr (CELIX_SUCCESS, W\<lparr>rest := (rest W)\<lparr>outside := (wire_recorded wenv m p wa d, snd (outside (rest W)))\<rparr>\<rparr>))"
proof -
  obtain f where ann: "announce wenv m p d (W\<lparr>weds := (weds W)(d \<mapsto> q)\<rparr>) =
      rbind (remoteServiceAdmin_addWiringEndpoint env d f (wire_for wenv i d q W)) (\<lambda>(st, W). Inr (CELIX_SUCCESS, W))"
    using node_announce [OF assms(1)] .
  have admin: "wiringTopologyManager_WiringAdminServiceExportWiringEndpoint wenv m wa p W =
      rbind (announce wenv m p d (W\<lparr>weds := (weds W)(d \<mapsto> q)\<rparr>)) (\<lambda>(st, W). Inr (st, Some d, W))"
    using assms(1)
    by (auto simp: node_wire_def wiringTopologyManager_WiringAdminServiceExportWiringEndpoint_def announce_def rbind_assoc)
  have "wiringTopologyManager_exportWiringEndpoint wenv (Some p) m W =
      rbind (remoteServiceAdmin_addWiringEndpoint env d f (wire_for wenv i d q W)) (\<lambda>(st, W).
        Inr (CELIX_SUCCESS, wire_recorded wenv m p wa d, W))"
    using assms(1) admin
    by (simp add: wire_recorded_def node_wire_def wiringTopologyManager_exportWiringEndpoint_def wiringTopologyManager_getWAs_def ann rbind_assoc
        hashMap_put_empty case_prod_beta')
  then show ?thesis
    using assms(2) by (intro that [of f]) (simp add: topology_export_def rbind_assoc case_prod_beta')
qed

section \<open>A new manager on a node with exports\<close>

text \<open>
  C39. A topology manager that appears while services are exported stops the node: the admin
  offers it the exports with the table of exports locked; when the manager has a wiring admin
  for the first one and the remote service admin is its listener, it tells the admin of the
  new wire before it returns, and the admin waits for the lock that it holds itself.
\<close>

theorem new_manager_deadlocks:
  assumes "rsa_locks_ok env" "held (rest W) = []" "importedServices (rest W) = []" "exportedServices (rest W) = (ref, l) # others"
    and "fst (outside (rest W)) = m"
    and "\<And>V. weds V = weds W \<Longrightarrow> fst (outside (rest V)) = m \<Longrightarrow> node_wire env wenv m (reference_properties env ref) V wa d q w i"
    and "wires_alive W (exportedWires (rest W))"
  shows "remoteServiceAdmin_wtmAdded (with_manager env wenv) wtm W = Inl NoReturn"
proof -
  let ?env = "with_manager env wenv" and ?s = "(rest W)\<lparr>wtmList := wtmList (rest W) @ [wtm]\<rparr>"
  let ?V = "W\<lparr>rest := ?s\<lparr>held := [exportedServicesLock]\<rparr>\<rparr>"
  have listed: "in_world (wtm_listed ?env wtm) W = Inr (CELIX_SUCCESS, W\<lparr>rest := ?s\<rparr>)"
    using assms(1,2) by (simp add: in_world_def wtm_listed_def rsa_lock_simps)
  have replayed: "wtm_imports ?env wtm (W\<lparr>rest := ?s\<rparr>) = Inr (CELIX_SUCCESS, W\<lparr>rest := ?s\<rparr>)"
    using assms(1-3) by (simp add: wtm_imports_def in_world_def rsa_lock_simps)
  have nw: "node_wire env wenv m (reference_properties env ref) ?V wa d q w i" using assms(5,6) by simp
  have alive: "wires_alive (wire_for wenv i d q ?V) (exportedWires (rest (wire_for wenv i d q ?V)))"
    using assms(7) by (auto simp: wires_alive_def wire_for_def)
  have "remoteServiceAdmin_addWiringEndpoint env d f (wire_for wenv i d q ?V) = Inl NoReturn" for f
    using own_wire_added [OF node_own_wire [OF nw] alive] by (simp add: wire_for_def rsa_held_again Let_def)
  then have "topology_export wenv (reference_properties env ref) ?V = Inl NoReturn"
    using assms(5) by (rule_tac node_export [OF nw]) simp_all
  then have "replay_export ?env wtm ref ?V = Inl NoReturn"
    by (simp add: replay_export_def)
  then have "wtm_exports ?env wtm (W\<lparr>rest := ?s\<rparr>) = Inl NoReturn"
    using assms(1,2,4) by (simp add: wtm_exports_def in_world_def rsa_lock_simps)
  then show ?thesis
    by (simp add: remoteServiceAdmin_wtmAdded_def listed replayed)
qed

section \<open>Exporting a service on a node\<close>

text \<open>The record of a new export, as a list.\<close>

lemma export_entry:
  assumes "ref \<notin> fst ` set m"
  obtains pre post where "hashMap_put cx (ptr_hash cx) (ptr_same cx) ref l m = pre @ (ref, l) # post" "set (pre @ post) = set m"
proof -
  let ?k = "hm_slot cx (map (ptr_hash cx \<circ> fst) m) (ptr_hash cx ref)"
  have "hashMap_put cx (ptr_hash cx) (ptr_same cx) ref l m = take ?k m @ (ref, l) # drop ?k m"
    using assms by (simp add: hashMap_put_def pmap.containsKey_iff insert_at_def)
  moreover have "set (take ?k m @ drop ?k m) = set m" by (simp only: append_take_drop_id)
  ultimately show ?thesis by (rule that)
qed

lemma new_export_wired:
  assumes "rsa_locks_ok env" "unlock_free_ok env" "refs_always env" "held s = []" "rest V = s"
    and "own_wire env V d w i" "wires_alive V (exportedWires s)" "Some w \<notin> snd ` set (exportedWires s)" "w \<notin> fst ` set (rsa_receiveServices s)"
    and "exportedServices s = hashMap_put (rsa_cx env) (ptr_hash (rsa_cx env)) (ptr_same (rsa_cx env)) ref [e] m"
    and "serviceReference_getProperty (rsa_cx env) ref (OSGI_FRAMEWORK_SERVICE_ID (rsa_cx env)) = Some i"
    and "\<forall>(r, l) \<in> set m. serviceReference_getProperty (rsa_cx env) r (OSGI_FRAMEWORK_SERVICE_ID (rsa_cx env)) \<noteq> Some i"
    and "export_ep s e = Some (p, ep)"
    and "\<And>s'. rcvs s' = rcvs s \<Longrightarrow> new_object env ReceiverKind (\<lambda>r. rcvs s r \<noteq> None) s' = Some r"
    and "registerReceive env r [(''wire.id'', w)] (outside s) = (CELIX_SUCCESS, g, x)"
  obtains s' where "remoteServiceAdmin_addWiringEndpoint env d f V = Inr (CELIX_SUCCESS, V\<lparr>rest := s'\<rparr>)"
    "eps s' = (eps s)(p \<mapsto> wired_ep env w ep)" "exportedServices s' = exportedServices s" "exps s' = exps s"
    "map_of (rsa_receiveServices s') = (map_of (rsa_receiveServices s))(w \<mapsto> r)"
    "outside s' = told env (wired_ep env w ep) (map fst (rsa_listenerList s)) x" "held s' = []"
proof -
  have "ref \<notin> fst ` set m" using assms(11,12) by force
  then obtain pre post where l: "exportedServices s = pre @ (ref, [e]) # post" "set (pre @ post) = set m"
    using export_entry [of ref m "rsa_cx env" "[e]"] assms(10) by auto
  have others: "\<forall>(r, l) \<in> set (pre @ post). serviceReference_getProperty (rsa_cx env) r (OSGI_FRAMEWORK_SERVICE_ID (rsa_cx env)) \<noteq> Some i"
    unfolding l(2) by (rule assms(12))
  show ?thesis
    using own_wire_served [OF assms(3,2,1) _ assms(5-8) l(1) assms(11) others assms(13,9), of r g x f] that assms(4,14,15) by auto
qed

text \<open>
  C12. On a node with a topology manager and a wiring admin, exporting a service ends with a
  published endpoint although the call answers \<^verbatim>\<open>CELIX_SERVICE_EXCEPTION\<close>: the registration is
  recorded before the manager is asked, the manager has the admin make a wire, marks it with
  the service id, records it, and calls the remote service admin back, which writes the wire
  id into the new endpoint description, registers a receiver for the wire and announces the
  description, wire id included, to the endpoint listeners.
\<close>

theorem exported_service_gets_wire:
  assumes "rsa_locks_ok env" "unlock_free_ok env" "refs_always env" "held s = []" "rest W = s"
    and "getServiceReferences env (snprintf 256 (''('' @ OSGI_FRAMEWORK_SERVICE_ID (rsa_cx env) @ ''='' @ serviceId @ '')'')) (outside s) = ref # refs"
    and "reference_ok env ref n u" "exportable env ref c i t"
    and "new_object env EndpointKind (\<lambda>a. eps s a \<noteq> None) s = Some p"
    and "\<And>s'. exps s' = exps s \<Longrightarrow> new_object env ExportKind (\<lambda>a. exps s' a \<noteq> None) s' = Some e"
    and "wtmList s = [wtm]" "outside s = (m, y)"
    and "\<And>V. weds V = weds W \<Longrightarrow> fst (outside (rest V)) = m \<Longrightarrow>
      node_wire env wenv m (reference_properties env ref) V wa d q w (dec n)"
    and "\<forall>(r, l) \<in> set (exportedServices s).
      serviceReference_getProperty (rsa_cx env) r (OSGI_FRAMEWORK_SERVICE_ID (rsa_cx env)) \<noteq> Some (dec n)"
    and "wires_alive W (exportedWires s)" "Some w \<notin> snd ` set (exportedWires s)" "w \<notin> fst ` set (rsa_receiveServices s)"
    and "\<And>s'. rcvs s' = rcvs s \<Longrightarrow> new_object env ReceiverKind (\<lambda>r. rcvs s r \<noteq> None) s' = Some r"
    and "registerReceive env r [(''wire.id'', w)] (m, y) = (CELIX_SUCCESS, g, (m, y'))"
  shows "\<exists>W' s' ep. remoteServiceAdmin_exportService (with_manager env wenv) serviceId None W = Inr (CELIX_SERVICE_EXCEPTION, Some [e], W') \<and>
    rest W' = s' \<and> eps s' = (eps s)(p \<mapsto> ep) \<and>
    map_of (ep_properties ep) = (described_as env ref u c (dec n) (rsa_uuid env s))(WIRE_ID_KEY \<mapsto> w) \<and> ep_serviceId ep = of_nat n \<and>
    map_of (exportedServices s') = (map_of (exportedServices s))(ref \<mapsto> [e]) \<and> exps s' = (exps s)(e \<mapsto> started env ref p i t) \<and>
    map_of (rsa_receiveServices s') = (map_of (rsa_receiveServices s))(w \<mapsto> r) \<and>
    outside s' = (wire_recorded wenv m (reference_properties env ref) wa d, snd (told env ep (map fst (rsa_listenerList s)) (m, y'))) \<and>
    weds W' = (weds W)(d \<mapsto> properties_set (wtm_cx wenv) q ''requested.service.id'' (Some (dec n))) \<and> held s' = []"
proof -
  let ?env = "with_manager env wenv" and ?cx = "rsa_cx env" and ?ref = "reference_properties env ref"
  obtain props where made: "export_registrations ?env ref c s = Inr (CELIX_SUCCESS, [e],
      s\<lparr>eps := (eps s)(p \<mapsto> \<lparr>frameworkUUID = Some u, ep_id = Some (rsa_uuid env s), ep_service = Some c, ep_properties = props,
          ep_serviceId = of_nat n\<rparr>),
        exps := (exps s)(e \<mapsto> started env ref p i t)\<rparr>)" (is "_ = Inr (_, _, ?s1)")
      "map_of props = described_as env ref u c (dec n) (rsa_uuid env s)"
    using registrations_made [of ?env ref n u c i t s p e] assms(7-10) by auto
  define s2 where "s2 = ?s1\<lparr>exportedServices := hashMap_put ?cx (ptr_hash ?cx) (ptr_same ?cx) ref [e] (exportedServices s)\<rparr>"
  define V where "V = wire_for wenv (dec n) d q (W\<lparr>rest := s2\<rparr>)"
  define ep0 where "ep0 = \<lparr>frameworkUUID = Some u, ep_id = Some (rsa_uuid env s), ep_service = Some c, ep_properties = props,
      ep_serviceId = (of_nat n :: 64 word)\<rparr>"
  have call: "remoteServiceAdmin_exportService ?env serviceId None W =
      rbind (offer_export ?env ?ref wtm (W\<lparr>rest := s2\<rparr>)) (\<lambda>W. Inr (CELIX_SERVICE_EXCEPTION, Some [e], W))"
    using exportService_eq [of ?env s W serviceId ref refs c i t "[e]" ?s1 s2 None] made(1) assms(1,4-6,8,11) by (simp add: s2_def rbind_assoc)
  have nw: "node_wire env wenv m ?ref (W\<lparr>rest := s2\<rparr>) wa d q w (dec n)"
    using assms(12,13) by (simp add: s2_def)
  obtain f where ex: "topology_export wenv ?ref (W\<lparr>rest := s2\<rparr>) =
      rbind (remoteServiceAdmin_addWiringEndpoint env d f V) (\<lambda>(st, W).
        Inr (CELIX_SUCCESS, W\<lparr>rest := (rest W)\<lparr>outside := (wire_recorded wenv m ?ref wa d, snd (outside (rest W)))\<rparr>\<rparr>))"
    using node_export [OF nw] assms(12) by (auto simp: V_def s2_def)
  have V: "rest V = s2" "own_wire env V d w (dec n)" "wires_alive V (exportedWires s2)" "Some w \<notin> snd ` set (exportedWires s2)"
    using node_own_wire [OF nw] assms(15,16) by (auto simp: V_def wire_for_def s2_def wires_alive_def)
  obtain s' where s': "remoteServiceAdmin_addWiringEndpoint env d f V = Inr (CELIX_SUCCESS, V\<lparr>rest := s'\<rparr>)"
      "eps s' = (eps s2)(p \<mapsto> wired_ep env w ep0)" "exportedServices s' = exportedServices s2" "exps s' = exps s2"
      "map_of (rsa_receiveServices s') = (map_of (rsa_receiveServices s2))(w \<mapsto> r)"
      "outside s' = told env (wired_ep env w ep0) (map fst (rsa_listenerList s2)) (m, y')" "held s' = []"
    by (rule new_export_wired [OF assms(1-3) _ V, of ref e "exportedServices s" p ep0 r g "(m, y')" f])
      (use assms(4,7,12,14,17-19) in \<open>auto simp: s2_def ep0_def reference_ok_def export_ep_def started_def\<close>)
  show ?thesis
    using made(2) call ex s'
    by (intro exI [of _ "V\<lparr>rest := s'\<lparr>outside := (wire_recorded wenv m ?ref wa d, snd (outside s'))\<rparr>\<rparr>"]
        exI [of _ "s'\<lparr>outside := (wire_recorded wenv m ?ref wa d, snd (outside s'))\<rparr>"] exI [of _ "wired_ep env w ep0"])
      (simp add: offer_export_def s2_def V_def wire_for_def wired_ep_def ep0_def properties_set_map_of pmap.put_map_of)
qed

text \<open>
  A node for the witnesses: the admin 5 makes the wire 40 with the id w2, the reference 2 is
  the listener, and the manager is number 9.
\<close>

definition demo_node_env :: "(wtm \<times> nat) rsa_env" where
  "demo_node_env = (demo_env_on (\<lambda>(m, y). (m, Suc y)))\<lparr>rsa_cx := rsa_cx demo_admin_env\<rparr>"

definition demo_wire_props :: properties where
  "demo_wire_props = [(WIRE_ID_KEY, ''w2''), (''endpoint.framework.uuid'', ''fw-1'')]"

definition demo_manager_env :: "(wtm \<times> nat) rsa_state wtm_env" where
  "demo_manager_env = \<lparr>wtm_cx = rsa_cx demo_admin_env,
     wtm_admin = (\<lambda>wa. \<lparr>exportWiringEndpoint = (\<lambda>W. Inr (CELIX_SUCCESS, Some 40, W\<lparr>weds := (weds W)(40 \<mapsto> demo_wire_props)\<rparr>)),
       removeExportedWiringEndpoint = (\<lambda>d W. Inr (CELIX_SUCCESS, W)), getWiringAdminProperties = (\<lambda>W. Some []),
       importWiringEndpoint = (\<lambda>d W. Inr (CELIX_SUCCESS, W)), removeImportedWiringEndpoint = (\<lambda>d W. Inr (CELIX_SUCCESS, W))\<rparr>),
     wtm_getService = (\<lambda>r. (CELIX_SUCCESS, rsa_listener demo_node_env))\<rparr>"

definition demo_topology :: wtm where
  "demo_topology = \<lparr>waList = [5], listenerList = [(2, ())], exportedWiringEndpoints = [], waitingForExport = [], waitingForImport = [],
     importedWiringEndpoints = []\<rparr>"

definition demo_start :: "(wtm \<times> nat) rsa_state" where
  "demo_start = \<lparr>eps = Map.empty, exps = Map.empty, imps = Map.empty, proxs = Map.empty, sends = Map.empty, rcvs = Map.empty,
     exportedServices = [], importedServices = [], rsa_receiveServices = [], rsa_receiveRegistrations = [], exportedWires = [],
     sendServices = [], rsa_listenerList = [(11, ())], wtmList = [9], rsa_registration = None, held = [], outside = (demo_topology, 0)\<rparr>"

definition demo_start_world :: "(wtm \<times> nat) rsa_state world" where
  "demo_start_world = \<lparr>weds = Map.empty, rest = demo_start\<rparr>"

lemmas demo_node_defs = demo_node_env_def demo_manager_env_def demo_topology_def demo_start_def demo_start_world_def demo_wire_props_def

lemma demo_reference: "reference_properties demo_node_env 7 = [(''service.id'', dec 7), (''objectClass'', ''calc'')]"
  by (simp add: reference_properties_def demo_node_defs demo_admin_defs properties_set_def hashMap_put_def hashMap_containsKey_def
    string_same_def same_key_def insert_at_def)

lemma demo_node_wire:
  "node_wire demo_node_env demo_manager_env demo_topology (reference_properties demo_node_env 7) V 5 40 demo_wire_props ''w2'' (dec 7)"
  unfolding demo_reference
  by (simp add: node_wire_def demo_node_defs demo_admin_defs hashMap_get_def WIRE_ID_KEY_def)

lemma demo_node_refs: "refs_always demo_node_env"
  by (simp add: refs_always_def refs_ok_def new_object_def demo_node_env_def demo_env_on_def fresh_reference)

theorem new_manager_deadlocks_witness:
  "remoteServiceAdmin_wtmAdded (with_manager demo_node_env demo_manager_env) 9
      (demo_start_world\<lparr>rest := demo_start\<lparr>exportedServices := [(7, [1])]\<rparr>\<rparr>) = Inl NoReturn"
proof (rule new_manager_deadlocks)
  show "rsa_locks_ok demo_node_env" by (simp add: rsa_locks_ok_def demo_node_defs demo_admin_defs)
qed (simp_all add: demo_start_def wires_alive_def, rule demo_node_wire)

theorem exported_service_gets_wire_witness:
  "\<exists>W' s' ep. remoteServiceAdmin_exportService (with_manager demo_node_env demo_manager_env) ''7'' None demo_start_world =
      Inr (CELIX_SERVICE_EXCEPTION, Some [1], W') \<and> rest W' = s' \<and> eps s' = [1 \<mapsto> ep] \<and> map_of (ep_properties ep) WIRE_ID_KEY = Some ''w2'' \<and>
      map_of (rsa_receiveServices s') = [''w2'' \<mapsto> 30]"
proof -
  have env: "rsa_locks_ok demo_node_env" "unlock_free_ok demo_node_env" "held demo_start = []" "rest demo_start_world = demo_start"
      "getServiceReferences demo_node_env f (outside demo_start) = 7 # []" for f
    by (simp_all add: rsa_locks_ok_def demo_node_defs demo_admin_defs)
  have ref: "reference_ok demo_node_env 7 7 ''fw-1''" "exportable demo_node_env 7 ''calc'' 4 5"
    by (simp_all add: reference_ok_def names_differ_def exportable_def demo_node_defs demo_admin_defs)
  have ep: "new_object demo_node_env EndpointKind (\<lambda>a. eps demo_start a \<noteq> None) demo_start = Some 1"
    and ex: "exps s' = exps demo_start \<Longrightarrow> new_object demo_node_env ExportKind (\<lambda>a. exps s' a \<noteq> None) s' = Some 1"
    and rc: "rcvs s' = rcvs demo_start \<Longrightarrow> new_object demo_node_env ReceiverKind (\<lambda>r. rcvs demo_start r \<noteq> None) s' = Some 30" for s'
    by (simp_all add: demo_node_defs demo_admin_defs)
  have st: "wtmList demo_start = [9]" "outside demo_start = (demo_topology, 0)" "wires_alive demo_start_world (exportedWires demo_start)"
      "Some ''w2'' \<notin> snd ` set (exportedWires demo_start)" "''w2'' \<notin> fst ` set (rsa_receiveServices demo_start)"
      "registerReceive demo_node_env 30 [(''wire.id'', ''w2'')] (demo_topology, 0) = (CELIX_SUCCESS, 9, (demo_topology, 0))"
    by (simp_all add: demo_node_defs demo_env_on_def wires_alive_def)
  have none: "\<forall>(r, l) \<in> set (exportedServices demo_start). serviceReference_getProperty (rsa_cx demo_node_env) r
      (OSGI_FRAMEWORK_SERVICE_ID (rsa_cx demo_node_env)) \<noteq> Some (dec 7)" by (simp add: demo_start_def)
  have empty: "eps demo_start = Map.empty" "map_of (rsa_receiveServices demo_start) = Map.empty" by (simp_all add: demo_start_def)
  note run = exported_service_gets_wire [where serviceId = "''7''", OF env(1,2) demo_node_refs env(3,4,5) ref ep ex st(1,2) demo_node_wire none st(3,4,5) rc st(6), unfolded empty]
  show ?thesis
    by (rule exE [OF run], assumption, assumption, elim exE conjE, intro exI conjI) (assumption | simp)+
qed

end
