(* ===== verification/Topology_Frame.thy ===== *)
theory Topology_Frame
  imports Topology_Correct
begin

text \<open>
  What the topology manager does to the world of the other bundles: it notes the requested
  service in a description and calls admins and listeners, nothing else. So a property of the
  world that these keep is kept by what the manager does for exports, imports and endpoints.
\<close>

lemma wed_set_rest: "wed_set cx d k v w = Inr w' \<Longrightarrow> rest w' = rest w"
  by (auto simp: wed_set_def rbind_eq_Inr)

text \<open>Setting a property to NULL leaves the other properties alone.\<close>

definition null_value_ok :: "celix \<Rightarrow> bool" where
  "null_value_ok cx \<longleftrightarrow> (\<forall>p k j. j \<noteq> k \<longrightarrow> map_of (properties_set_null cx p k) j = map_of p j)"

lemma properties_set_other: "null_value_ok cx \<Longrightarrow> j \<noteq> k \<Longrightarrow> map_of (properties_set cx p k v) j = map_of p j"
  by (cases v) (simp_all add: properties_set_map_of, simp add: properties_set_def null_value_ok_def)

lemma wed_set_wires: "wed_set cx d k v w = Inr w' \<Longrightarrow> null_value_ok cx \<Longrightarrow> k \<noteq> WIRE_ID_KEY \<Longrightarrow> wires_kept cx w w'"
  by (auto simp: wed_set_def wed_deref_def rbind_eq_Inr wires_kept_def wireId_of_def properties_get_map_of properties_set_other
      split: option.split_asm if_split_asm)

locale imports_keep =
  fixes env :: "'x wtm_env" and P :: "'x world \<Rightarrow> bool"
  assumes admin_import: "P w \<Longrightarrow> importWiringEndpoint (wtm_admin env wa) d w = Inr (st, w') \<Longrightarrow> P w'"
    and admin_give_up: "P w \<Longrightarrow> removeImportedWiringEndpoint (wtm_admin env wa) d w = Inr (st, w') \<Longrightarrow> P w'"
    and listener_added: "P w \<Longrightarrow> wiringEndpointAdded (snd (wtm_getService env ref)) d s w = Inr (st, w') \<Longrightarrow> P w'"
    and listener_removed: "P w \<Longrightarrow> wiringEndpointRemoved (snd (wtm_getService env ref)) d s w = Inr (st, w') \<Longrightarrow> P w'"
    and noted: "P w \<Longrightarrow> wed_set (wtm_cx env) d k v w = Inr w' \<Longrightarrow> k \<noteq> WIRE_ID_KEY \<Longrightarrow> P w'"
begin

lemma notify_keeps:
  assumes "P w" "notifyListeners env op m d w = Inr (st, w')"
    and op: "\<And>ref d s v st v'. P v \<Longrightarrow> op (snd (wtm_getService env ref)) d s v = Inr (st, v') \<Longrightarrow> P v'"
  shows "P w'"
proof -
  have step: "P v'" if "P v" "notify_listener env op d ref v = Inr v'" for ref v v'
    using that op [OF that(1), of ref]
    by (cases "wtm_getService env ref") (auto simp: notify_listener_def Let_def rbind_eq_Inr split: if_split_asm)
  show ?thesis
    using assms(1,2) rfold_invariant [where P = P, OF _ assms(1) step]
    by (auto simp: notifyListeners_def Let_def rbind_eq_Inr split: if_split_asm)
qed

lemma notify_added:
  "P w \<Longrightarrow> wiringTopologyManager_notifyListenersWiringEndpointAdded env m d w = Inr (st, w') \<Longrightarrow> P w'"
  unfolding wiringTopologyManager_notifyListenersWiringEndpointAdded_def
  by (erule notify_keeps, assumption) (rule listener_added)

lemma notify_removed:
  "P w \<Longrightarrow> wiringTopologyManager_notifyListenersWiringEndpointRemoved env m d w = Inr (st, w') \<Longrightarrow> P w'"
  unfolding wiringTopologyManager_notifyListenersWiringEndpointRemoved_def
  by (erule notify_keeps, assumption) (rule listener_removed)

lemma tell_added:
  assumes "P w" "wed_set (wtm_cx env) d k v w = Inr u" "k \<noteq> WIRE_ID_KEY"
    and "wiringTopologyManager_notifyListenersWiringEndpointAdded env m d u = Inr (st, w')"
  shows "P w'"
  by (rule notify_added [OF noted [OF assms(1-3)] assms(4)])

lemma tell_imported:
  assumes "P w" "wed_set (wtm_cx env) d ''requested.service'' v w = Inr u"
    and "wiringTopologyManager_notifyListenersWiringEndpointAdded env m d u = Inr (st, w')"
  shows "P w'"
  by (rule tell_added [OF assms(1,2) _ assms(3)]) (simp add: WIRE_ID_KEY_def)

lemma admin_imports:
  assumes "P w" "wiringTopologyManager_checkWiringAdminForImportWiringEndpoint env wa d w = Inr (st, w')"
  shows "P w'"
  using assms
  by (auto simp: wiringTopologyManager_checkWiringAdminForImportWiringEndpoint_def rbind_eq_Inr
      split: option.split_asm if_split_asm dest: admin_import)

lemma import_loop_keeps: "import_loop env d was (st, l, w) = Inr (st', l', w') \<Longrightarrow> P w \<Longrightarrow> P w'"
proof (induction was arbitrary: st l w)
  case (Cons wa was)
  then show ?case by (fastforce simp: rbind_eq_Inr dest: admin_imports split: if_split_asm)
qed simp

lemma check_import:
  assumes "P w" "wiringTopologyManager_checkWiringEndpointForImportService env d p m w = Inr (st, m', w')"
  shows "P w'"
  using assms
  by (auto simp: wiringTopologyManager_checkWiringEndpointForImportService_def Let_def rbind_eq_Inr
      split: option.split_asm if_split_asm dest: import_loop_keeps)

lemma import_keeps:
  assumes "P w" "wiringTopologyManager_importWiringEndpoint env p m w = Inr (st, m', w')"
  shows "P w'"
proof -
  let ?P = "\<lambda>(a, st, m, w). P w"
  have step: "?P t'" if "?P t" "import_endpoint_step env p d t = Inr t'" for d t t'
    using that
    by (auto simp: import_endpoint_step_def rbind_eq_Inr split: option.split_asm if_split_asm prod.split_asm
        dest: check_import intro: tell_imported [OF check_import])
  obtain t where "rfold (import_endpoint_step env p) (map fst (importedWiringEndpoints m)) (False, CELIX_SUCCESS, m, w) = Inr t" "snd (snd (snd t)) = w'"
    using assms(2) by (auto simp: wiringTopologyManager_importWiringEndpoint_def rbind_eq_Inr)
  then show ?thesis
    using rfold_invariant [where P = ?P, OF _ _ step] assms(1) by (cases t) fastforce
qed

lemma waiting_endpoint_keeps:
  assumes "P w" "check_waiting_endpoint env i p d (m, w) = Inr (m', w')"
  shows "P w'"
  using assms
  by (auto simp: check_waiting_endpoint_def Let_def rbind_eq_Inr split: if_split_asm
      dest: check_import intro: tell_imported [OF check_import])

lemma waiting_loop_keeps: "check_waiting_loop env i (m, w) = Inr (m', w') \<Longrightarrow> P w \<Longrightarrow> P w'"
proof (induction i arbitrary: m w)
  case (Suc i)
  obtain p where p: "arrayList_get (waitingForImport m) i = Some p"
    using Suc.prems(1) by (cases "arrayList_get (waitingForImport m) i") simp_all
  then obtain m1 w1 where s: "rfold (check_waiting_endpoint env i p) (map fst (importedWiringEndpoints m)) (m, w) = Inr (m1, w1)"
      "check_waiting_loop env i (m1, w1) = Inr (m', w')"
    using Suc.prems(1) by (auto simp: rbind_eq_Inr)
  have "P (snd (m1, w1))"
  proof (rule rfold_invariant [where P = "\<lambda>s. P (snd s)", OF s(1)])
    fix d s s'
    assume "P (snd s)" "check_waiting_endpoint env i p d s = Inr s'"
    then show "P (snd s')" by (cases s, cases s') (auto intro: waiting_endpoint_keeps)
  qed (use Suc.prems(2) in simp)
  then show ?case using Suc.IH [OF s(2)] by simp
qed simp

lemma endpointAdded_keeps:
  assumes "P w" "wiringTopologyManager_WiringEndpointAdded env d m w = Inr (st, m', w')"
  shows "P w'"
  using assms
  by (auto simp: wiringTopologyManager_WiringEndpointAdded_def wiringTopologyManager_checkWaitingForImportServices_def
      Let_def rbind_eq_Inr split: if_split_asm dest: waiting_loop_keeps)

lemma endpointRemoved_keeps:
  assumes "P w" "wiringTopologyManager_WiringEndpointRemoved env d m w = Inr (st, m', w')"
  shows "P w'"
proof -
  have "P u" if "rfold (remove_imported_from env d) l w = Inr u" for l u
    by (rule rfold_invariant [where P = P, OF that assms(1)]) (auto simp: remove_imported_from_def rbind_eq_Inr dest: admin_give_up)
  then show ?thesis
    using assms
    by (auto simp: wiringTopologyManager_WiringEndpointRemoved_def Let_def rbind_eq_Inr split: option.split_asm
        dest: notify_removed)
qed

end

locale calls_keep = imports_keep env P for env :: "'x wtm_env" and P :: "'x world \<Rightarrow> bool" +
  assumes admin_export: "P w \<Longrightarrow> exportWiringEndpoint (wtm_admin env wa) w = Inr (st, e, w') \<Longrightarrow> P w'"
begin

lemma tell_exported:
  assumes "P w" "wed_set (wtm_cx env) d ''requested.service.id'' v w = Inr u"
    and "wiringTopologyManager_notifyListenersWiringEndpointAdded env m d u = Inr (st, w')"
  shows "P w'"
  by (rule tell_added [OF assms(1,2) _ assms(3)]) (simp add: WIRE_ID_KEY_def)

lemma admin_exports:
  assumes "P w" "wiringTopologyManager_WiringAdminServiceExportWiringEndpoint env m wa p w = Inr (st, e, w')"
  shows "P w'"
  using assms(2) admin_export [OF assms(1), of wa] assms(1)
  by (auto simp: wiringTopologyManager_WiringAdminServiceExportWiringEndpoint_def Let_def rbind_eq_Inr
      split: option.split_asm if_split_asm intro: tell_exported)

lemma export_loop_keeps: "export_loop env m p was (st, e, l, w) = Inr (st', e', l', w') \<Longrightarrow> P w \<Longrightarrow> P w'"
proof (induction was arbitrary: st e l w)
  case (Cons wa was)
  then show ?case by (fastforce simp: rbind_eq_Inr dest: admin_exports split: if_split_asm)
qed simp

lemma reuse_loop_keeps: "reuse_loop env m i es (st, w) = Inr (st', w') \<Longrightarrow> P w \<Longrightarrow> P w'"
proof (induction es arbitrary: st w)
  case (Cons x es)
  then show ?case by (cases x) (auto simp: rbind_eq_Inr dest: tell_exported split: if_split_asm)
qed simp

lemma export_keeps:
  assumes "P w" "wiringTopologyManager_exportWiringEndpoint env p m w = Inr (st, m', w')"
  shows "P w'"
  using assms
  by (auto simp: wiringTopologyManager_exportWiringEndpoint_def rbind_eq_Inr split: option.split_asm if_split_asm
      dest: export_loop_keeps reuse_loop_keeps)

end

end
