(* ===== verification/Rsa_Heap.thy ===== *)
theory Rsa_Heap
  imports Rsa_Node Topology_Frame Wiring_Admin_Correct
begin

text \<open>
  The pointers in the tables of the remote service admin. A state conforms when every export
  and import registration and every receiver in a table is allocated, with the endpoint
  descriptions they are for, and no export registration, import registration or receiver is
  listed twice, neither in one entry nor in two. Most
  operations only extend the heap: they free nothing and leave the tables alone.
\<close>

section \<open>Conformance\<close>

definition conforms :: "'x rsa_state \<Rightarrow> bool" where
  "conforms s \<longleftrightarrow>
     (\<forall>e \<in> set (all_exports s). \<exists>reg. exps s e = Some reg \<and> (\<forall>p. er_endpoint reg = Some p \<longrightarrow> eps s p \<noteq> None)) \<and>
     distinct (all_exports s) \<and>
     (\<forall>(p, i) \<in> set (importedServices s). eps s p \<noteq> None \<and> (\<forall>a. i = Some a \<longrightarrow> imps s a \<noteq> None)) \<and>
     distinct (List.map_filter snd (importedServices s)) \<and>
     (\<forall>(w, r) \<in> set (rsa_receiveServices s). rcvs s r \<noteq> None) \<and> distinct (map snd (rsa_receiveServices s))"

definition extends :: "'x rsa_state \<Rightarrow> 'x rsa_state \<Rightarrow> bool" where
  "extends s s' \<longleftrightarrow>
     (\<forall>p. eps s p \<noteq> None \<longrightarrow> eps s' p \<noteq> None) \<and> (\<forall>a. imps s a \<noteq> None \<longrightarrow> imps s' a \<noteq> None) \<and>
     (\<forall>r. rcvs s r \<noteq> None \<longrightarrow> rcvs s' r \<noteq> None) \<and>
     (\<forall>e reg. exps s e = Some reg \<longrightarrow> (\<exists>reg'. exps s' e = Some reg' \<and> er_endpoint reg' = er_endpoint reg)) \<and>
     exportedServices s' = exportedServices s \<and> importedServices s' = importedServices s \<and>
     rsa_receiveServices s' = rsa_receiveServices s"

lemma extends_refl [simp]: "extends s s"
  by (simp add: extends_def)

lemma extends_trans [trans]: "extends s t \<Longrightarrow> extends t u \<Longrightarrow> extends s u"
  unfolding extends_def by (metis (no_types, lifting))

lemma extends_conforms:
  assumes "extends s s'" "conforms s"
  shows "conforms s'"
proof -
  have "\<exists>reg. exps s' e = Some reg \<and> (\<forall>p. er_endpoint reg = Some p \<longrightarrow> eps s' p \<noteq> None)" if "e \<in> set (all_exports s)" for e
    using assms that unfolding conforms_def extends_def by metis
  moreover have "eps s' p \<noteq> None \<and> (\<forall>a. i = Some a \<longrightarrow> imps s' a \<noteq> None)" if "(p, i) \<in> set (importedServices s)" for p i
    using assms that unfolding conforms_def extends_def by fast
  moreover have "rcvs s' r \<noteq> None" if "(w, r) \<in> set (rsa_receiveServices s)" for w r
    using assms that unfolding conforms_def extends_def by fast
  ultimately show ?thesis using assms by (auto simp: conforms_def extends_def all_exports_def)
qed

lemma rfold_extends:
  assumes "rfold f xs s = Inr t" "\<And>x s s'. f x s = Inr s' \<Longrightarrow> extends s s'"
  shows "extends s t"
  using rfold_invariant [where P = "extends s", OF assms(1)] assms(2) extends_trans by (metis extends_refl)

lemma rfold_extends_snd:
  assumes "rfold f xs (st, s) = Inr (st', t)" "\<And>x st s st' s'. f x (st, s) = Inr (st', s') \<Longrightarrow> extends s s'"
  shows "extends s t"
  using rfold_invariant [where P = "\<lambda>r. extends s (snd r)", OF assms(1)] assms(2)
  by (metis extends_refl extends_trans prod.collapse snd_conv)

text \<open>Fields that the relation does not look at.\<close>

lemma extends_other [simp]:
  "extends s (s\<lparr>held := h\<rparr>)" "extends s (s\<lparr>outside := x\<rparr>)" "extends s (s\<lparr>sends := q\<rparr>)" "extends s (s\<lparr>proxs := p\<rparr>)"
  "extends s (s\<lparr>rsa_listenerList := l\<rparr>)" "extends s (s\<lparr>exportedWires := v\<rparr>)" "extends s (s\<lparr>wtmList := n\<rparr>)"
  "extends s (s\<lparr>sendServices := ss\<rparr>)" "extends s (s\<lparr>rsa_registration := r\<rparr>)"
  by (simp_all add: extends_def)

section \<open>Operations that only extend the heap\<close>

lemma lock_extends: "rsa_lock env l s = Inr (st, s') \<Longrightarrow> extends s s'"
  by (auto simp: rsa_lock_def Let_def split: if_split_asm)

lemma unlock_extends: "rsa_unlock env l s = Inr (st, s') \<Longrightarrow> extends s s'"
  by (auto simp: rsa_unlock_def split: if_split_asm)

lemma addServ_extends: "exportRegistration_addServ a v s = Inr s' \<Longrightarrow> extends s s'"
  by (auto simp: exportRegistration_addServ_def rbind_eq_Inr extends_def)

lemma removeServ_extends: "exportRegistration_removeServ a v s = Inr s' \<Longrightarrow> extends s s'"
  by (auto simp: exportRegistration_removeServ_def rbind_eq_Inr extends_def)

lemma start_extends: "exportRegistration_start env a s = Inr (st, s') \<Longrightarrow> extends s s'"
  by (auto simp: exportRegistration_start_def rbind_eq_Inr dest: rfold_extends addServ_extends)

lemma close_extends: "exportRegistration_close env a s = Inr (st, s') \<Longrightarrow> extends s s'"
  by (auto simp: exportRegistration_close_def exportRegistration_stop_def Let_def rbind_eq_Inr
      dest: rfold_extends removeServ_extends)

lemma stop_extends: "exportRegistration_stop env a s = Inr (st, s') \<Longrightarrow> extends s s'"
  by (auto simp: exportRegistration_stop_def Let_def rbind_eq_Inr dest: rfold_extends removeServ_extends)

lemma call_extends: "exportRegistration_call env a data s = Inr (st, r, s') \<Longrightarrow> extends s s'"
  by (auto simp: exportRegistration_call_def rbind_eq_Inr case_prod_beta)

lemma receive_extends: "remoteServiceAdmin_receive env data s = Inr (st, r, s') \<Longrightarrow> extends s s'"
  by (auto simp: remoteServiceAdmin_receive_def rbind_eq_Inr split: option.split_asm prod.split_asm dest: call_extends)

lemma setSendFn_extends: "importRegistration_setSendFn a f h s = Inr (st, s') \<Longrightarrow> extends s s'"
  by (auto simp: importRegistration_setSendFn_def rbind_eq_Inr extends_def)

lemma import_start_extends: "importRegistration_start env a s = Inr (st, s') \<Longrightarrow> extends s s'"
  by (auto simp: importRegistration_start_def rbind_eq_Inr extends_def split: if_split_asm prod.split_asm)

lemma createProxy_extends:
  assumes "importRegistration_createProxy env a b s = Inr (st, p, s')"
  shows "extends s s'"
proof -
  obtain reg where reg: "imps s a = Some reg"
    using assms by (auto simp: importRegistration_createProxy_def rbind_eq_Inr)
  obtain st0 df where "bundle_getEntry env b (snprintf 128 (ir_classObject reg @ ''.descriptor'')) = (st0, df)"
    by fastforce
  then show ?thesis
    using assms reg
    by (auto simp: importRegistration_createProxy_def deref_def Let_def do_if_def
        split: prod.split_asm option.split_asm if_split_asm)
qed

lemma destroyProxy_extends: "importRegistration_destroyProxy p s = Inr s' \<Longrightarrow> extends s s'"
  by (auto simp: importRegistration_destroyProxy_def rbind_eq_Inr)

lemma imps_extends: "imps s a \<noteq> None \<Longrightarrow> extends s (s\<lparr>imps := (imps s)(a \<mapsto> reg)\<rparr>)"
  by (simp add: extends_def)

lemma clearProxies_extends: "importRegistration_clearProxies a s = Inr s' \<Longrightarrow> extends s s'"
  by (auto simp: importRegistration_clearProxies_def rbind_eq_Inr dest: rfold_extends destroyProxy_extends)

lemma getService_extends:
  assumes "importRegistration_getService env a b s = Inr (st, v, s')"
  shows "extends s s'"
proof -
  obtain reg where reg: "imps s a = Some reg" using assms by (auto simp: importRegistration_getService_def rbind_eq_Inr)
  have "extends s (t\<lparr>imps := (imps t)(a \<mapsto> r)\<rparr>)" if "importRegistration_createProxy env a b s = Inr (st', p, t)" for st' p t r
    using createProxy_extends [OF that] reg by (auto simp: extends_def)
  then show ?thesis
    using assms reg createProxy_extends
    by (fastforce simp: importRegistration_getService_def rbind_eq_Inr extends_def split: option.split_asm)
qed

lemma ungetService_extends: "importRegistration_ungetService env a b v s = Inr (st, s') \<Longrightarrow> extends s s'"
  by (auto simp: importRegistration_ungetService_def importRegistration_destroyProxy_def rbind_eq_Inr Let_def extends_def
      split: option.split_asm if_split_asm prod.split_asm)

lemma import_stop_extends:
  assumes "importRegistration_stop env a s = Inr (st, s')"
  shows "extends s s'"
proof -
  let ?unget = "\<lambda>(b, out) s. rbind (importRegistration_ungetService env a b out s) (\<lambda>(st, s). Inr s)"
  have unget: "extends t t'" if "?unget u t = Inr t'" for u t t'
    using that by (auto simp: rbind_eq_Inr split: prod.split_asm dest: ungetService_extends)
  obtain reg where reg: "imps s a = Some reg" using assms by (auto simp: importRegistration_stop_def rbind_eq_Inr)
  show ?thesis
  proof (cases "ir_factoryReg reg")
    case None
    then show ?thesis using assms reg by (auto simp: importRegistration_stop_def rbind_eq_Inr dest: clearProxies_extends)
  next
    case (Some r)
    then obtain t reg' where t: "rfold ?unget (ir_unregister env r) s = Inr t" "imps t a = Some reg'"
        "importRegistration_clearProxies a (t\<lparr>imps := (imps t)(a \<mapsto> reg'\<lparr>ir_factoryReg := None\<rparr>)\<rparr>) = Inr s'"
      using assms reg by (auto simp: importRegistration_stop_def rbind_eq_Inr)
    have "extends s t" by (rule rfold_extends [OF t(1) unget])
    also have "extends t (t\<lparr>imps := (imps t)(a \<mapsto> reg'\<lparr>ir_factoryReg := None\<rparr>)\<rparr>)" by (rule imps_extends) (simp add: t(2))
    also note clearProxies_extends [OF t(3)]
    finally show ?thesis .
  qed
qed

lemma import_close_extends: "importRegistration_close env a s = Inr (st, s') \<Longrightarrow> extends s s'"
  by (auto simp: importRegistration_close_def rbind_eq_Inr dest: import_stop_extends)

lemma offer_extends:
  assumes "offer_endpoint env ref e (st, s) = Inr (st', s')"
  shows "extends s s'"
proof -
  obtain st1 xref where x: "exportRegistration_getExportReference env e s = Inr (st1, xref)"
    using assms by (auto simp: offer_endpoint_def rbind_eq_Inr)
  show ?thesis
  proof (cases "st1 = CELIX_SUCCESS")
    case True
    then obtain st2 p ep where p: "exportReference_getExportedEndpoint xref = Inr (st2, Some p)" "eps s p = Some ep"
      using assms x by (auto simp: offer_endpoint_def rbind_eq_Inr split: option.split_asm)
    then have "s' = s \<or> (\<exists>x. s' = s\<lparr>outside := x\<rparr>)"
      using assms True x
      by (simp add: offer_endpoint_def deref_def Let_def split: if_split_asm prod.split_asm) blast
    then show ?thesis by auto
  qed (use assms x in \<open>simp add: offer_endpoint_def\<close>)
qed

lemma notify_listener_extends:
  assumes "rsa_notify_listener env l ref s = Inr s'"
  shows "extends s s'"
proof (cases "rsa_getService env ref = CELIX_SUCCESS")
  case True
  then obtain st where st: "rfold (offer_endpoint env ref) l (CELIX_SUCCESS, s) = Inr (st, s')"
    using assms by (auto simp: rsa_notify_listener_def rbind_eq_Inr)
  show ?thesis by (rule rfold_extends_snd [OF st offer_extends])
qed (use assms in \<open>simp add: rsa_notify_listener_def\<close>)

lemma notify_extends:
  assumes "remoteServiceAdmin_notifyListenersEndpointAdded env l s = Inr (st, s')"
  shows "extends s s'"
proof -
  obtain t where t: "rfold (rsa_notify_listener env l) (map fst (rsa_listenerList s)) s = Inr t" "rsa_unlock env listenerListLock t = Inr (st, s')"
    using assms by (auto simp: remoteServiceAdmin_notifyListenersEndpointAdded_def rbind_eq_Inr)
  show ?thesis by (rule extends_trans [OF rfold_extends [OF t(1) notify_listener_extends] unlock_extends [OF t(2)]])
qed

lemma set_wire_id_extends: "set_wire_id env w e s = Inr s' \<Longrightarrow> extends s s'"
  by (auto simp: set_wire_id_def rbind_eq_Inr extends_def)

lemma listener_added_extends: "remoteServiceAdmin_endpointListenerAdded env ref s = Inr (st, s') \<Longrightarrow> extends s s'"
proof -
  assume "remoteServiceAdmin_endpointListenerAdded env ref s = Inr (st, s')"
  then obtain st1 s1 l st2 s2 where s: "rsa_lock env listenerListLock s = Inr (st1, s1)"
      "rsa_unlock env listenerListLock (s1\<lparr>rsa_listenerList := l\<rparr>) = Inr (st2, s2)"
      "rfold (offer_endpoint env ref) (concat (map snd (exportedServices s2))) (CELIX_SUCCESS, s2) = Inr (st, s')"
    by (auto simp: remoteServiceAdmin_endpointListenerAdded_def Let_def rbind_eq_Inr)
  have "extends s s1" by (rule lock_extends [OF s(1)])
  also have "extends s1 (s1\<lparr>rsa_listenerList := l\<rparr>)" by simp
  also note unlock_extends [OF s(2)]
  also note rfold_extends_snd [OF s(3) offer_extends]
  finally show ?thesis .
qed

lemma listener_removed_extends: "remoteServiceAdmin_endpointListenerRemoved env ref s = Inr (st, s') \<Longrightarrow> extends s s'"
  by (auto simp: remoteServiceAdmin_endpointListenerRemoved_def rbind_eq_Inr split: if_split_asm
      dest!: lock_extends unlock_extends intro: extends_trans extends_other(5) [THEN extends_trans])

lemma wire_imported_extends:
  assumes "wire_imported env i entry (st, s) = Inr (st', s')"
  shows "extends s s'"
proof -
  obtain p import ep where p: "entry = (p, import)" "eps s p = Some ep"
    using assms by (cases entry) (auto simp: wire_imported_def rbind_eq_Inr)
  obtain j k where j: "i = Some j" "ep_id ep = Some k"
    using assms p by (cases i; cases "ep_id ep") (auto simp: wire_imported_def deref_def)
  show ?thesis
    using assms p j setSendFn_extends import_start_extends extends_trans
    by (cases import) (fastforce simp: wire_imported_def deref_def rbind_eq_Inr split: if_split_asm)+
qed

lemma add_imported_extends:
  assumes "add_imported_wire env p s = Inr (st, s')"
  shows "extends s s'"
proof -
  obtain st1 s1 s2 st3 where s: "rsa_lock env importedServicesLock s = Inr (st1, s1)"
      "rfold (wire_imported env (properties_get (rsa_cx env) p ''requested.service'')) (importedServices s1) (CELIX_SUCCESS, s1) = Inr (st, s2)"
      "rsa_unlock env importedServicesLock s2 = Inr (st3, s')"
    using assms by (auto simp: add_imported_wire_def rbind_eq_Inr)
  show ?thesis
    by (rule extends_trans [OF lock_extends [OF s(1)] extends_trans [OF rfold_extends_snd [OF s(2) wire_imported_extends] unlock_extends [OF s(3)]]])
qed

lemma send_extends:
  assumes "remoteServiceAdmin_send env p r out s = Inr (st, out', s')"
  shows "extends s s'"
proof -
  obtain ep where ep: "eps s p = Some ep" using assms by (auto simp: remoteServiceAdmin_send_def rbind_eq_Inr)
  show ?thesis
  proof (cases "properties_get (rsa_cx env) (ep_properties ep) WIRE_ID_KEY")
    case None
    then show ?thesis using assms ep by (simp add: remoteServiceAdmin_send_def deref_def)
  next
    case (Some w)
    then obtain st1 s1 where s1: "rsa_lock env sendServicesLock s = Inr (st1, s1)"
      using assms ep by (auto simp: remoteServiceAdmin_send_def deref_def rbind_eq_Inr)
    have "s' = s1 \<or> (\<exists>st2 q x. rsa_unlock env sendServicesLock s1 = Inr (st2, s') \<or>
        rsa_unlock env sendServicesLock (s1\<lparr>sends := q, outside := x\<rparr>) = Inr (st2, s'))"
    proof (cases "hashMap_get (string_same (rsa_cx env)) (sendServices s1) w")
      case None
      then show ?thesis using assms ep Some s1
        by (auto simp: remoteServiceAdmin_send_def deref_def rbind_eq_Inr split: if_split_asm)
    next
      case (Some q)
      then show ?thesis using assms ep s1 \<open>properties_get (rsa_cx env) (ep_properties ep) WIRE_ID_KEY = Some w\<close>
        by (auto simp: remoteServiceAdmin_send_def deref_def rbind_eq_Inr Let_def case_prod_beta
            split: if_split_asm option.split_asm; blast)
    qed
    then have "extends s1 s'"
      by (auto dest!: unlock_extends intro: extends_trans [where t = "s1\<lparr>sends := q, outside := x\<rparr>" for q x] simp: extends_def)
    then show ?thesis using lock_extends [OF s1] extends_trans by blast
  qed
qed

section \<open>Operations that change a table\<close>

text \<open>Only the receivers change, only the imports change.\<close>

lemma conforms_receivers:
  assumes "conforms s" "eps s' = eps s" "exps s' = exps s" "imps s' = imps s"
    and "exportedServices s' = exportedServices s" "importedServices s' = importedServices s"
    and "\<forall>(w, r) \<in> set (rsa_receiveServices s'). rcvs s' r \<noteq> None" "distinct (map snd (rsa_receiveServices s'))"
  shows "conforms s'"
  using assms by (simp add: conforms_def all_exports_def)

lemma conforms_imports:
  assumes "conforms s" "eps s' = eps s" "exps s' = exps s" "rcvs s' = rcvs s"
    and "exportedServices s' = exportedServices s" "rsa_receiveServices s' = rsa_receiveServices s"
    and "\<And>p i. (p, i) \<in> set (importedServices s') \<Longrightarrow> eps s p \<noteq> None"
    and "\<And>p a. (p, Some a) \<in> set (importedServices s') \<Longrightarrow> imps s' a \<noteq> None"
    and "distinct (List.map_filter snd (importedServices s'))"
  shows "conforms s'"
proof -
  have "\<forall>(p, i) \<in> set (importedServices s'). eps s p \<noteq> None \<and> (\<forall>a. i = Some a \<longrightarrow> imps s' a \<noteq> None)"
    using assms(7,8) by blast
  then show ?thesis using assms(1-6,9) by (simp add: conforms_def all_exports_def)
qed

lemma conforms_import:
  assumes "conforms s" "(p, i) \<in> set (importedServices s)"
  shows "eps s p \<noteq> None" "i = Some a \<Longrightarrow> imps s a \<noteq> None"
  using assms unfolding conforms_def by blast+

lemma conforms_receiver:
  assumes "conforms s" "(w, r) \<in> set (rsa_receiveServices s)"
  shows "rcvs s r \<noteq> None"
  using assms unfolding conforms_def by blast

lemma registerReceive_cases:
  assumes "remoteServiceAdmin_registerReceive env wireId s = Inr (st, s')"
  obtains "s' = s"
  | r where "rcvs s r = None" "s' = s\<lparr>rcvs := (rcvs s)(r \<mapsto> None)\<rparr>"
  | x where "s' = s\<lparr>outside := x\<rparr>"
  | pre post w r x l where "rcvs s r = None" "rsa_receiveServices s = pre @ post"
      "s' = s\<lparr>outside := x, rcvs := (rcvs s)(r \<mapsto> Some w), rsa_receiveServices := pre @ (w, r) # post, rsa_receiveRegistrations := l\<rparr>"
proof (cases "new_object env ReceiverKind (\<lambda>r. rcvs s r \<noteq> None) s")
  case None
  then show thesis using assms that(1) by (simp add: remoteServiceAdmin_registerReceive_def)
next
  case (Some r)
  let ?m = "rsa_receiveServices s" and ?same = "string_same (rsa_cx env)"
  have fresh: "rcvs s r = None" using new_object_Some [OF Some] by simp
  obtain w where w: "wireId = Some w"
    using assms Some by (cases wireId) (simp_all add: remoteServiceAdmin_registerReceive_def)
  obtain st1 reg x where reg: "registerReceive env r (properties_set (rsa_cx env) [] ''wire.id'' (Some w)) (outside s) = (st1, reg, x)"
    by (cases "registerReceive env r (properties_set (rsa_cx env) [] ''wire.id'' (Some w)) (outside s)")
  show thesis
  proof (cases "hashMap_containsKey ?same ?m w")
    case True
    then show thesis using assms Some w that(2) [OF fresh] by (simp add: remoteServiceAdmin_registerReceive_def Let_def)
  next
    case False
    obtain pre post where m: "?m = pre @ post" "hashMap_put (rsa_cx env) (utils_stringHash (rsa_cx env)) ?same w r ?m = pre @ (w, r) # post"
      using hashMap_put_split [OF False] by blast
    show thesis
    proof (cases "st1 = CELIX_SUCCESS")
      case True
      then have "s' = s\<lparr>outside := x, rcvs := (rcvs s)(r \<mapsto> Some w), rsa_receiveServices := pre @ (w, r) # post,
          rsa_receiveRegistrations := hashMap_put (rsa_cx env) (utils_stringHash (rsa_cx env)) ?same w reg (rsa_receiveRegistrations s)\<rparr>"
        using assms Some w False reg m(2) by (auto simp: remoteServiceAdmin_registerReceive_def Let_def)
      then show thesis by (rule that(4) [OF fresh m(1)])
    next
      case False': False
      then have "s' = s\<lparr>outside := x\<rparr>" using assms Some w False reg by (auto simp: remoteServiceAdmin_registerReceive_def Let_def)
      then show thesis by (rule that(3))
    qed
  qed
qed

lemma registerReceive_conforms:
  assumes "conforms s" "remoteServiceAdmin_registerReceive env wireId s = Inr (st, s')"
  shows "conforms s'"
  using assms(2)
proof (cases rule: registerReceive_cases)
  case 1
  then show ?thesis using assms(1) by simp
next
  case 2
  then have "extends s s'" by (simp add: extends_def)
  then show ?thesis using assms(1) by (rule extends_conforms)
next
  case 3
  then have "extends s s'" by simp
  then show ?thesis using assms(1) by (rule extends_conforms)
next
  case (4 pre post w r x l)
  have old: "rcvs s q \<noteq> None" if "(v, q) \<in> set (pre @ post)" for v q
    using conforms_receiver [OF assms(1), of v q] that by (simp add: 4(2))
  then have "r \<notin> snd ` set (pre @ post)" using 4(1) by force
  moreover have "distinct (map snd (pre @ post))" using assms(1) unfolding 4(2) [symmetric] conforms_def by simp
  ultimately have "distinct (map snd (pre @ (w, r) # post))" by auto
  moreover have "((rcvs s)(r \<mapsto> Some w)) q \<noteq> None" if "(v, q) \<in> set (pre @ (w, r) # post)" for v q
    using old that by auto
  then have "\<forall>(v, q) \<in> set (pre @ (w, r) # post). ((rcvs s)(r \<mapsto> Some w)) q \<noteq> None" by blast
  ultimately show ?thesis by (intro conforms_receivers [OF assms(1)]) (simp_all add: 4(3))
qed

lemma unregisterReceive_conforms:
  assumes "conforms s" "remoteServiceAdmin_unregisterReceive env wireId s = Inr (st, s')"
  shows "conforms s'"
proof -
  obtain w where w: "wireId = Some w"
    using assms by (cases wireId) (simp_all add: remoteServiceAdmin_unregisterReceive_def)
  let ?m = "rsa_receiveServices s" and ?same = "string_same (rsa_cx env)"
  have ok: "\<forall>(w, r) \<in> set ?m. rcvs s r \<noteq> None" "distinct (map snd ?m)" using assms(1) by (simp_all add: conforms_def)
  obtain st1 x where x: "(case hashMap_get ?same (rsa_receiveRegistrations s) w of None \<Rightarrow> (CELIX_SUCCESS, outside s)
      | Some r \<Rightarrow> unregisterReceive env r (outside s)) = (st1, x)" by fastforce
  show ?thesis
  proof (cases "hashMap_get ?same ?m w")
    case None
    have s': "s' = s\<lparr>rsa_receiveServices := ?m, rsa_receiveRegistrations := hashMap_remove ?same w (rsa_receiveRegistrations s), outside := x\<rparr>"
      using assms(2) w None x hashMap_remove_absent [OF None] by (simp add: remoteServiceAdmin_unregisterReceive_def Let_def cong: option.case_cong)
    show ?thesis by (rule conforms_receivers [OF assms(1)]) (use ok in \<open>simp_all add: s'\<close>)
  next
    case (Some r)
    obtain pre k post where m: "?m = pre @ (k, r) # post" "hashMap_remove ?same w ?m = pre @ post"
      using hashMap_get_split [OF Some] by blast
    have d: "r \<notin> snd ` set (pre @ post)" "distinct (map snd (pre @ post))" using ok(2) by (auto simp: m(1))
    have others: "q \<noteq> r \<and> rcvs s q \<noteq> None" if "(v, q) \<in> set (pre @ post)" for v q
    proof
      show "q \<noteq> r" using d(1) that by (metis image_eqI snd_conv)
      show "rcvs s q \<noteq> None" by (rule conforms_receiver [OF assms(1), of v]) (use that in \<open>auto simp: m(1)\<close>)
    qed
    have s': "s' = s\<lparr>rsa_receiveServices := pre @ post, rsa_receiveRegistrations := hashMap_remove ?same w (rsa_receiveRegistrations s),
        outside := x, rcvs := (rcvs s)(r := None)\<rparr>"
      using assms(2) w Some x m(2)
      by (simp add: remoteServiceAdmin_unregisterReceive_def Let_def cong: option.case_cong split: if_split_asm)
    show ?thesis
    proof (rule conforms_receivers [OF assms(1)])
      have "rcvs s' q \<noteq> None" if "(v, q) \<in> set (rsa_receiveServices s')" for v q
        using others [of v q] that by (simp add: s')
      then show "\<forall>(v, q) \<in> set (rsa_receiveServices s'). rcvs s' q \<noteq> None" by blast
      show "distinct (map snd (rsa_receiveServices s'))" using d(2) by (simp add: s')
    qed (simp_all add: s')
  qed
qed

section \<open>Wires that come and go\<close>

lemma wire_exported_conforms:
  assumes "wire_exported env i w entry s = Inr s'" "conforms s"
  shows "conforms s'"
proof -
  obtain ref l where entry: "entry = (ref, l)" by (cases entry)
  show ?thesis
  proof (cases "serviceReference_getProperty (rsa_cx env) ref (OSGI_FRAMEWORK_SERVICE_ID (rsa_cx env)) = i \<and> i \<noteq> None")
    case True
    then obtain j where j: "i = Some j" "serviceReference_getProperty (rsa_cx env) ref (OSGI_FRAMEWORK_SERVICE_ID (rsa_cx env)) = Some j"
      by auto
    obtain t st u where t: "rfold (set_wire_id env w) l s = Inr t" "remoteServiceAdmin_registerReceive env w t = Inr (st, u)"
        "s' = u \<or> (\<exists>st. remoteServiceAdmin_notifyListenersEndpointAdded env l u = Inr (st, s'))"
      using assms(1) entry j by (auto simp: wire_exported_def rbind_eq_Inr split: if_split_asm)
    have "conforms t" by (rule extends_conforms [OF rfold_extends [OF t(1) set_wire_id_extends] assms(2)])
    then have u: "conforms u" using t(2) by (rule registerReceive_conforms)
    show ?thesis using t(3) u extends_conforms [OF notify_extends u] by auto
  next
    case False
    then show ?thesis using assms entry by (auto simp: wire_exported_def split: option.split_asm if_split_asm)
  qed
qed

lemma in_worldE:
  assumes "in_world f W = Inr (r, W')"
  obtains s where "f (rest W) = Inr (r, s)" "W' = W\<lparr>rest := s\<rparr>"
  using assms by (auto simp: in_world_def rbind_eq_Inr)

lemma lock_conforms: "rsa_lock env l s = Inr (st, s') \<Longrightarrow> conforms s \<Longrightarrow> conforms s'"
  by (rule extends_conforms [OF lock_extends])

lemma unlock_conforms: "rsa_unlock env l s = Inr (st, s') \<Longrightarrow> conforms s \<Longrightarrow> conforms s'"
  by (rule extends_conforms [OF unlock_extends])

lemma addWiringEndpoint_conforms:
  assumes "remoteServiceAdmin_addWiringEndpoint env d f W = Inr (st, W')" "conforms (rest W)"
  shows "conforms (rest W')"
proof -
  have exported: "conforms (rest V)" if added: "add_exported_wire env d p W = Inr (st', V)" for p st' V
  proof -
    obtain known i w where "in_world (\<lambda>s.
          let s = (if known then s else s\<lparr>exportedWires := exportedWires s @ [(d, w)]\<rparr>) in
          rbind (rsa_lock env exportedServicesLock s) (\<lambda>(st, s).
          rbind (rfold (wire_exported env i w) (exportedServices s) s) (rsa_unlock env exportedServicesLock))) W = Inr (st', V)"
      using added by (auto simp: add_exported_wire_def Let_def rbind_eq_Inr)
    moreover define s where "s = (if known then rest W else (rest W)\<lparr>exportedWires := exportedWires (rest W) @ [(d, w)]\<rparr>)"
    ultimately obtain st1 s1 s2 where s: "rsa_lock env exportedServicesLock s = Inr (st1, s1)" "rfold (wire_exported env i w) (exportedServices s1) s1 = Inr s2"
        "rsa_unlock env exportedServicesLock s2 = Inr (st', rest V)"
      by (elim in_worldE) (auto simp: rbind_eq_Inr Let_def)
    have "extends (rest W) s" by (simp add: s_def)
    then have "conforms s" using assms(2) by (rule extends_conforms)
    then have s1: "conforms s1" by (rule lock_conforms [OF s(1)])
    have "conforms s2" by (rule rfold_invariant [where P = conforms, OF s(2) s1]) (rule wire_exported_conforms)
    then show ?thesis by (rule unlock_conforms [OF s(3)])
  qed
  have imported: "conforms (rest V)" if "in_world (add_imported_wire env p) W = Inr (st', V)" for p st' V
    using that by (elim in_worldE) (simp add: extends_conforms [OF add_imported_extends assms(2)])
  obtain status own where "bundleContext_getProperty (rsa_cx env) (OSGI_FRAMEWORK_FRAMEWORK_UUID (rsa_cx env)) = (status, own)"
    by fastforce
  then show ?thesis
    using assms exported imported
    by (cases own) (auto simp: remoteServiceAdmin_addWiringEndpoint_def Let_def rbind_eq_Inr split: option.split_asm if_split_asm)
qed

lemma import_removed_conforms:
  assumes "conforms s"
  shows "conforms (s\<lparr>importedServices := hashMap_remove same p (importedServices s)\<rparr>)" (is "conforms ?s")
proof (rule conforms_imports [OF assms])
  have ok: "distinct (List.map_filter snd (importedServices s))" using assms by (simp add: conforms_def)
  have sub: "set (importedServices ?s) \<subseteq> set (importedServices s)" by (simp add: set_hashMap_remove)
  show "eps s q \<noteq> None" if "(q, i) \<in> set (importedServices ?s)" for q i
    by (rule conforms_import(1) [OF assms subsetD [OF sub that]])
  show "imps ?s a \<noteq> None" if "(q, Some a) \<in> set (importedServices ?s)" for q a
    using conforms_import(2) [OF assms subsetD [OF sub that] refl] by simp
  show "distinct (List.map_filter snd (importedServices ?s))"
  proof (cases "hashMap_get same (importedServices s) p")
    case (Some v)
    obtain pre k post where m: "importedServices s = pre @ (k, v) # post" "hashMap_remove same p (importedServices s) = pre @ post"
      using hashMap_get_split [OF Some] by blast
    show ?thesis using ok by (cases v) (simp_all add: m(2), auto simp: m(1) map_filter_append List.map_filter_simps)
  qed (use ok in \<open>simp add: hashMap_remove_absent\<close>)
qed simp_all

lemma drop_import_conforms:
  assumes "drop_import env w entry s = Inr s'" "conforms s"
  shows "conforms s'"
proof -
  obtain p i where entry: "entry = (p, i)" by (cases entry)
  have "s' = s \<or> (\<exists>t. extends s t \<and> s' = t\<lparr>importedServices := hashMap_remove (ep_same (rsa_cx env) t) p (importedServices t)\<rparr>)"
  proof -
    obtain ep where ep: "eps s p = Some ep" using assms(1) entry by (auto simp: drop_import_def rbind_eq_Inr Let_def)
    show ?thesis
    proof (cases "properties_get (rsa_cx env) (ep_properties ep) WIRE_ID_KEY = None \<or> properties_get (rsa_cx env) (ep_properties ep) WIRE_ID_KEY \<noteq> w")
      case True
      then show ?thesis using assms(1) entry ep
        by (auto simp: drop_import_def deref_def Let_def split: option.split_asm if_split_asm)
    next
      case False
      then obtain v where v: "w = Some v" "properties_get (rsa_cx env) (ep_properties ep) WIRE_ID_KEY = Some v" by auto
      have closed: "extends s t" if "(case hashMap_get (ep_same (rsa_cx env) s) (importedServices s) p of
            Some (Some a) \<Rightarrow> rbind (importRegistration_close env a s) (\<lambda>(st, s). Inr s) | _ \<Rightarrow> Inr s) = Inr t" for t
        using that by (auto simp: rbind_eq_Inr split: option.split_asm dest: import_close_extends)
      show ?thesis using assms(1) entry ep v closed by (auto simp: drop_import_def deref_def Let_def rbind_eq_Inr)
    qed
  qed
  then show ?thesis using assms(2) import_removed_conforms extends_conforms by blast
qed

lemma removeWiringEndpoint_conforms:
  assumes "remoteServiceAdmin_removeWiringEndpoint env d f W = Inr (st, W')" "conforms (rest W)"
  shows "conforms (rest W')"
proof -
  let ?close = "\<lambda>e s. rbind (exportRegistration_close env e s) (\<lambda>(st, s). Inr s)"
  obtain w st1 s1 l st2 s2 s3 s4 st5 s5 s6 st7 where
      s1: "rsa_lock env exportedServicesLock (rest W) = Inr (st1, s1)" and
      s2: "rsa_unlock env exportedServicesLock s1 = Inr (st2, s2)" and
      s3: "rfold ?close l s2 = Inr s3" and
      s4: "remoteServiceAdmin_unregisterReceive env w s3 = Inr (st, s4)" and
      s5: "rsa_lock env importedServicesLock s4 = Inr (st5, s5)" and
      s6: "rfold (drop_import env w) (importedServices s5) s5 = Inr s6" and
      s7: "rsa_unlock env importedServicesLock s6 = Inr (st7, rest W')"
    using assms(1)
    by (auto simp: remoteServiceAdmin_removeWiringEndpoint_def Let_def rbind_eq_Inr in_world_def)
  have close: "extends s s'" if "?close e s = Inr s'" for e s s'
    using that by (auto simp: rbind_eq_Inr dest: close_extends)
  note c1 = lock_conforms [OF s1 assms(2)]
  note c2 = unlock_conforms [OF s2 c1]
  have c3: "conforms s3" by (rule extends_conforms [OF rfold_extends [OF s3] c2]) (rule close)
  note c4 = unregisterReceive_conforms [OF c3 s4]
  note c5 = lock_conforms [OF s5 c4]
  have "conforms s6" by (rule rfold_invariant [where P = conforms, OF s6 c5]) (erule (1) drop_import_conforms [rotated])
  then show ?thesis by (rule unlock_conforms [OF s7])
qed

section \<open>Giving up exports and imports\<close>

definition live_export :: "'x rsa_state \<Rightarrow> exp_ptr \<Rightarrow> bool" where
  "live_export s e \<longleftrightarrow> (\<exists>reg. exps s e = Some reg \<and> (\<forall>p. er_endpoint reg = Some p \<longrightarrow> eps s p \<noteq> None))"

lemma live_extends: "extends s s' \<Longrightarrow> live_export s e \<Longrightarrow> live_export s' e"
  unfolding extends_def live_export_def by metis

lemma conforms_exports:
  assumes "conforms s" "\<forall>e \<in> set (concat (map snd m)). e \<in> set (all_exports s) \<or> live_export s e"
    and "distinct (concat (map snd m))"
  shows "conforms (s\<lparr>exportedServices := m\<rparr>)"
proof -
  have "live_export s e" if "e \<in> set (all_exports s)" for e
    using assms(1) that unfolding conforms_def live_export_def by blast
  then have "\<forall>e \<in> set (concat (map snd m)). live_export s e" using assms(2) by blast
  then show ?thesis using assms(1,3) by (simp add: conforms_def all_exports_def live_export_def)
qed

text \<open>The lists of an entry that goes, and of one that comes or is overwritten.\<close>

lemma remove_entry_distinct:
  assumes "distinct (concat (map snd m))"
  shows "distinct (concat (map snd (hashMap_remove same k m)))"
proof (cases "hashMap_get same m k")
  case (Some v)
  obtain pre k' post where m: "m = pre @ (k', v) # post" "hashMap_remove same k m = pre @ post"
    using hashMap_get_split [OF Some] by blast
  show ?thesis using assms unfolding m(2) by (auto simp: m(1))
qed (use assms in \<open>simp add: hashMap_remove_absent\<close>)

lemma put_entry_distinct:
  assumes "distinct (concat (map snd m))" "distinct l" "set l \<inter> set (concat (map snd m)) = {}"
  shows "distinct (concat (map snd (hashMap_put cx h same k l m)))"
proof (cases "hashMap_containsKey same m k")
  case False
  obtain pre post where m: "m = pre @ post" "hashMap_put cx h same k l m = pre @ (k, l) # post"
    using hashMap_put_split [OF False] by blast
  have "set l \<inter> set (concat (map snd pre)) = {}" "set l \<inter> set (concat (map snd post)) = {}"
    using assms(3) unfolding m(1) map_append concat_append set_append by blast+
  then show ?thesis using assms(1,2) unfolding m(2) unfolding m(1) 
    by (simp only: map_append list.map snd_conv concat_append concat.simps distinct_append set_append) blast
next
  case True
  then obtain v where "hashMap_get same m k = Some v"
    unfolding hashMap_containsKey_def hashMap_get_def by fastforce
  then obtain pre k' v where post: "\<exists>post. m = pre @ (k', v) # post \<and> (\<forall>v'. hashMap_replace same k v' m = pre @ (k', v') # post)"
    by (meson hashMap_replace_split)
  then obtain post where m: "m = pre @ (k', v) # post" "hashMap_replace same k l m = pre @ (k', l) # post"
    by blast
  have put: "hashMap_put cx h same k l m = pre @ (k', l) # post" using True m(2) by (simp add: hashMap_put_def)
  have "set l \<inter> set (concat (map snd pre)) = {}" "set l \<inter> set (concat (map snd post)) = {}"
    using assms(3) unfolding m(1) map_append concat_append set_append list.map concat.simps by blast+
  then show ?thesis using assms(1,2) unfolding put unfolding m(1)
    by (simp only: map_append list.map snd_conv concat_append concat.simps distinct_append set_append) blast
qed

lemma removeExported_conforms:
  assumes "remoteServiceAdmin_removeExportedService env e s = Inr (st, s')" "conforms s"
  shows "conforms s'"
proof -
  obtain st0 ref where ref: "exportRegistration_getExportReference env e s = Inr (st0, ref)"
    using assms(1) by (auto simp: remoteServiceAdmin_removeExportedService_def rbind_eq_Inr)
  show ?thesis
  proof (cases ref)
    case None
    then show ?thesis using assms ref by (simp add: remoteServiceAdmin_removeExportedService_def)
  next
    case (Some r)
    then obtain st1 s1 st2 s2 st3 where s: "rsa_lock env exportedServicesLock s = Inr (st1, s1)"
        "exportRegistration_close env e s1 = Inr (st2, s2)"
        "rsa_unlock env exportedServicesLock (s2\<lparr>exportedServices := hashMap_remove (ptr_same (rsa_cx env)) (xr_address r) (exportedServices s2)\<rparr>)
           = Inr (st3, s')"
      using assms(1) ref by (auto simp: remoteServiceAdmin_removeExportedService_def rbind_eq_Inr)
    have s2: "conforms s2" by (rule extends_conforms [OF close_extends [OF s(2)] lock_conforms [OF s(1) assms(2)]])
    have "conforms (s2\<lparr>exportedServices := hashMap_remove same k (exportedServices s2)\<rparr>)" for same k
    proof (rule conforms_exports [OF s2], rule ballI, rule disjI1)
      fix e
      assume "e \<in> set (concat (map snd (hashMap_remove same k (exportedServices s2))))"
      then show "e \<in> set (all_exports s2)" by (auto simp: all_exports_def dest: subsetD [OF set_hashMap_remove])
    qed (rule remove_entry_distinct, use s2 in \<open>simp add: conforms_def all_exports_def\<close>)
    then show ?thesis by (rule unlock_conforms [OF s(3)])
  qed
qed

lemma removeImported_conforms:
  assumes "remoteServiceAdmin_removeImportedService env r s = Inr (st, s')" "conforms s"
  shows "conforms s'"
proof (cases r)
  case None
  then show ?thesis using assms by (simp add: remoteServiceAdmin_removeImportedService_def)
next
  case (Some a)
  obtain p st1 s1 s2 st3 where s: "rsa_lock env importedServicesLock s = Inr (st1, s1)" "rsa_unlock env importedServicesLock s2 = Inr (st3, s')"
      "(case hashMap_get (ep_same (rsa_cx env) s1) (importedServices s1) p of
          Some (Some i) \<Rightarrow> rbind (importRegistration_close env i
              (s1\<lparr>importedServices := hashMap_remove (ep_same (rsa_cx env) s1) p (importedServices s1)\<rparr>))
            (\<lambda>(st, s). importRegistration_destroy i s)
        | _ \<Rightarrow> Inr (s1\<lparr>importedServices := hashMap_remove (ep_same (rsa_cx env) s1) p (importedServices s1)\<rparr>)) = Inr s2"
    using assms(1) Some by (auto simp: remoteServiceAdmin_removeImportedService_def Let_def rbind_eq_Inr)
  let ?m = "importedServices s1" and ?same = "ep_same (rsa_cx env) s1"
  let ?t = "s1\<lparr>importedServices := hashMap_remove ?same p ?m\<rparr>"
  have s1: "conforms s1" by (rule lock_conforms [OF s(1) assms(2)])
  have t: "conforms ?t" by (rule import_removed_conforms [OF s1])
  have "conforms s2"
  proof (cases "\<exists>i. hashMap_get ?same ?m p = Some (Some i)")
    case True
    then obtain i where i: "hashMap_get ?same ?m p = Some (Some i)" by blast
    obtain pre k post where m: "?m = pre @ (k, Some i) # post" "hashMap_remove ?same p ?m = pre @ post"
      using hashMap_get_split [OF i] by blast
    obtain st2 u v where u: "importRegistration_close env i ?t = Inr (st2, u)" "importRegistration_clearProxies i u = Inr v"
        "s2 = v\<lparr>imps := (imps v)(i := None)\<rparr>"
      using s(3) i by (auto simp: rbind_eq_Inr importRegistration_destroy_def)
    have ext: "extends ?t v" by (rule extends_trans [OF import_close_extends [OF u(1)] clearProxies_extends [OF u(2)]])
    then have v: "conforms v" "importedServices v = pre @ post" using extends_conforms [OF ext t] m(2) by (simp_all add: extends_def)
    have "i \<notin> set (List.map_filter snd (pre @ post))"
      using s1 by (simp add: conforms_def m(1) map_filter_append List.map_filter_simps)
    then have other: "(q, Some i) \<notin> set (pre @ post)" for q by (force simp: List.map_filter_def)
    show ?thesis
    proof (rule conforms_imports [OF v(1)])
      show "eps v q \<noteq> None" if "(q, j) \<in> set (importedServices s2)" for q j
        by (rule conforms_import(1) [OF v(1)]) (use that in \<open>simp add: u(3)\<close>)
      show "imps s2 a \<noteq> None" if "(q, Some a) \<in> set (importedServices s2)" for q a
      proof -
        have here: "(q, Some a) \<in> set (importedServices v)" using that by (simp add: u(3))
        then have "a \<noteq> i" using other [of q] v(2) by auto
        then show ?thesis using conforms_import(2) [OF v(1) here refl] by (simp add: u(3))
      qed
      show "distinct (List.map_filter snd (importedServices s2))" using v(1) by (simp add: conforms_def u(3))
    qed (simp_all add: u(3))
  next
    case False
    then have "s2 = ?t" using s(3) by (auto split: option.split_asm)
    then show ?thesis using t by simp
  qed
  then show ?thesis by (rule unlock_conforms [OF s(2)])
qed

end
