(* ===== verification/Node_Discovery.thy ===== *)
theory Node_Discovery
  imports Wiring_Endpoint
begin

text \<open>
  \<^verbatim>\<open>node_discovery\<close>: node descriptions (\<^verbatim>\<open>node_description.c\<close>) and the discovery itself
  (\<^verbatim>\<open>node_discovery.c\<close>). The discovery keeps the nodes it was told about with the endpoints
  they offer, the description of its own node, and the listeners it informs. The watcher
  that publishes the own node in etcd is reached through the field \<open>nd_addOwnNode\<close>.
\<close>

section \<open>Node descriptions\<close>

record node_description =
  nodeId :: "string option"
  zoneId :: "string option"
  node_properties :: properties
  wiring_ep_descriptions_list :: "wed_ptr list"

definition nodeDescription_create ::
    "string option \<Rightarrow> string option \<Rightarrow> properties option \<Rightarrow> celix_status \<times> node_description" where
  "nodeDescription_create node zone properties =
     (CELIX_SUCCESS, \<lparr>nodeId = node, zoneId = zone,
        node_properties = (case properties of Some p \<Rightarrow> p | None \<Rightarrow> []),
        wiring_ep_descriptions_list = []\<rparr>)"

definition destroy_wed :: "wed_ptr \<Rightarrow> 'x world \<Rightarrow> 'x world result" where
  "destroy_wed d w = rbind (wiringEndpointDescription_destroy d w) (\<lambda>(st, w). Inr w)"

definition nodeDescription_destroy ::
    "node_description \<Rightarrow> bool \<Rightarrow> 'x world \<Rightarrow> (celix_status \<times> 'x world) result" where
  "nodeDescription_destroy n destroyWEPDs w =
     rbind (if destroyWEPDs then rfold destroy_wed (wiring_ep_descriptions_list n) w else Inr w)
       (\<lambda>w. Inr (CELIX_SUCCESS, w))"

section \<open>State\<close>

record node_discovery =
  ownNode :: node_description
  discoveredNodes :: "(string \<times> node_description) list"
  listenerReferences :: "(service_reference \<times> unit) list"

record 'x nd_env =
  nd_cx :: celix
  nd_getService :: "service_reference \<Rightarrow> 'x wiring_endpoint_listener option"
  nd_addOwnNode :: "node_description \<Rightarrow> 'x world \<Rightarrow> 'x world result"

definition NODE_DISCOVERY_DEFAULT_ZONE_IDENTIFIER :: string where
  "NODE_DISCOVERY_DEFAULT_ZONE_IDENTIFIER = ''inaetics-testing''"

definition getProperty_ok :: "celix \<Rightarrow> string \<Rightarrow> string option" where
  "getProperty_ok cx k =
     (case bundleContext_getProperty cx k of (status, v) \<Rightarrow> if status = CELIX_SUCCESS then v else None)"

definition node_discovery_createOwnNodeDescription :: "celix \<Rightarrow> celix_status \<times> node_description option" where
  "node_discovery_createOwnNodeDescription cx =
     (let zone = (case getProperty_ok cx ''NODE_DISCOVERY_ZONE_IDENTIFIER'' of
                    None \<Rightarrow> NODE_DISCOVERY_DEFAULT_ZONE_IDENTIFIER | Some z \<Rightarrow> z);
          node = (case getProperty_ok cx ''NODE_DISCOVERY_NODE_IDENTIFIER'' of
                    None \<Rightarrow> getProperty_ok cx (OSGI_FRAMEWORK_FRAMEWORK_UUID cx) | Some n \<Rightarrow> Some n)
      in case node of
           None \<Rightarrow> (CELIX_ILLEGAL_STATE, None)
         | Some n \<Rightarrow> (CELIX_SUCCESS, Some (snd (nodeDescription_create (Some n) (Some zone) (Some [])))))"

text \<open>
  \<open>mutex_create\<close> answers the three calls of \<^verbatim>\<open>celixThreadMutex_create\<close>. On failure the state
  exists without own node.
\<close>

definition node_discovery_create ::
    "celix \<Rightarrow> bool \<Rightarrow> (string \<Rightarrow> celix_status) \<Rightarrow> celix_status \<times> node_discovery option" where
  "node_discovery_create cx calloc_ok mutex_create =
     (if \<not> calloc_ok then (CELIX_ENOMEM, None)
      else if mutex_create ''listenerReferencesMutex'' \<noteq> CELIX_SUCCESS \<or>
              mutex_create ''discoveredNodesMutex'' \<noteq> CELIX_SUCCESS \<or>
              mutex_create ''ownNodeMutex'' \<noteq> CELIX_SUCCESS
      then (CELIX_ILLEGAL_STATE, None)
      else case node_discovery_createOwnNodeDescription cx of
        (status, None) \<Rightarrow> (status, None)
      | (status, Some n) \<Rightarrow>
          (status, Some \<lparr>ownNode = n, discoveredNodes = [], listenerReferences = []\<rparr>))"

definition node_discovery_destroy :: "node_discovery \<Rightarrow> 'x world \<Rightarrow> (celix_status \<times> 'x world) result" where
  "node_discovery_destroy nd w =
     rbind (rfold (\<lambda>n w. rbind (nodeDescription_destroy n True w) (\<lambda>(st, w). Inr w)) (map snd (discoveredNodes nd)) w)
       (\<lambda>w. nodeDescription_destroy (ownNode nd) False w)"

section \<open>Informing listeners\<close>

definition inform_listener ::
    "'x nd_env \<Rightarrow> wed_ptr \<Rightarrow> bool \<Rightarrow> service_reference \<Rightarrow> 'x world \<Rightarrow> 'x world result" where
  "inform_listener env d added ref w =
     (let scope = serviceReference_getProperty (nd_cx env) ref ''wiring.endpoint.listener.scope''
      in rbind (wed_deref d w) (\<lambda>p.
         if filter_match (nd_cx env) scope p
         then (if added
               then (if serviceReference_getProperty (nd_cx env) ref ''RSA'' = None
                     then (case nd_getService env ref of
                             None \<Rightarrow> Inl NullPointer
                           | Some l \<Rightarrow> rbind (wiringEndpointAdded l d scope w) (\<lambda>(st, w). Inr w))
                     else Inr w)
               else (case nd_getService env ref of
                       None \<Rightarrow> Inl NullPointer
                     | Some l \<Rightarrow> rbind (wiringEndpointRemoved l d scope w) (\<lambda>(st, w). Inr w)))
         else Inr w))"

definition node_discovery_informWiringEndpointListeners ::
    "'x nd_env \<Rightarrow> node_discovery \<Rightarrow> wed_ptr \<Rightarrow> bool \<Rightarrow> 'x world \<Rightarrow> (celix_status \<times> 'x world) result" where
  "node_discovery_informWiringEndpointListeners env nd d added w =
     (let status = celixThreadMutex_lock (nd_cx env) ''listenerReferencesMutex''
      in if status = CELIX_SUCCESS
         then rbind (rfold (inform_listener env d added) (map fst (listenerReferences nd)) w)
                (\<lambda>w. Inr (celixThreadMutex_unlock (nd_cx env) ''listenerReferencesMutex'', w))
         else Inr (status, w))"

text \<open>The callers drop the status.\<close>

definition inform :: "'x nd_env \<Rightarrow> node_discovery \<Rightarrow> bool \<Rightarrow> wed_ptr \<Rightarrow> 'x world \<Rightarrow> 'x world result" where
  "inform env nd added d w =
     rbind (node_discovery_informWiringEndpointListeners env nd d added w) (\<lambda>(st, w). Inr w)"

section \<open>Nodes coming and going\<close>

definition wire_of :: "celix \<Rightarrow> wed_ptr \<Rightarrow> 'x world \<Rightarrow> string option result" where
  "wire_of cx d w = rbind (wed_deref d w) (\<lambda>p. Inr (properties_get cx p WIRE_ID_KEY))"

text \<open>\<^verbatim>\<open>strcmp(a, b) == 0\<close>\<close>

definition str_equal :: "string option \<Rightarrow> string option \<Rightarrow> bool result" where
  "str_equal a b = (case (a, b) of (Some x, Some y) \<Rightarrow> Inr (x = y) | _ \<Rightarrow> Inl NullPointer)"

fun find_wire :: "celix \<Rightarrow> string option \<Rightarrow> wed_ptr list \<Rightarrow> 'x world \<Rightarrow> bool result" where
  "find_wire cx wid [] w = Inr False"
| "find_wire cx wid (d # ds) w =
     rbind (wire_of cx d w) (\<lambda>availWireId.
     rbind (str_equal wid availWireId) (\<lambda>found. if found then Inr True else find_wire cx wid ds w))"

text \<open>One endpoint of a known node: added and announced, or destroyed as a duplicate.\<close>

definition add_wep ::
    "'x nd_env \<Rightarrow> node_discovery \<Rightarrow> wed_ptr \<Rightarrow> wed_ptr list \<times> 'x world \<Rightarrow> (wed_ptr list \<times> 'x world) result" where
  "add_wep env nd wep s =
     (case s of (avail, w) \<Rightarrow>
       rbind (wire_of (nd_cx env) wep w) (\<lambda>wid.
       rbind (find_wire (nd_cx env) wid avail w) (\<lambda>found.
         if \<not> found
         then rbind (inform env nd True wep w) (\<lambda>w. Inr (avail @ [wep], w))
         else rbind (destroy_wed wep w) (\<lambda>w. Inr (avail, w)))))"

definition node_discovery_addNode ::
    "'x nd_env \<Rightarrow> node_description \<Rightarrow> node_discovery \<Rightarrow> 'x world \<Rightarrow>
     (celix_status \<times> node_discovery \<times> 'x world) result" where
  "node_discovery_addNode env n nd w =
     (case nodeId n of
        None \<Rightarrow> Inl NullPointer
      | Some nid \<Rightarrow>
          (case hashMap_get (string_same (nd_cx env)) (discoveredNodes nd) nid of
             Some availableNodeDesc \<Rightarrow>
               rbind (rfold (add_wep env nd) (wiring_ep_descriptions_list n)
                        (wiring_ep_descriptions_list availableNodeDesc, w))
                 (\<lambda>(avail, w).
                    rbind (nodeDescription_destroy n False w) (\<lambda>(st, w).
                      Inr (CELIX_SUCCESS, nd\<lparr>discoveredNodes :=
                        hashMap_replace (string_same (nd_cx env)) nid
                          (availableNodeDesc\<lparr>wiring_ep_descriptions_list := avail\<rparr>) (discoveredNodes nd)\<rparr>, w)))
           | None \<Rightarrow>
               (let nd = nd\<lparr>discoveredNodes :=
                      hashMap_put (nd_cx env) (utils_stringHash (nd_cx env)) (string_same (nd_cx env)) nid n
                        (discoveredNodes nd)\<rparr>
                in rbind (rfold (inform env nd True) (wiring_ep_descriptions_list n) w)
                     (\<lambda>w. Inr (CELIX_SUCCESS, nd, w)))))"

text \<open>The endpoints of a node with one wire id: announced as removed and taken from the list.\<close>

fun remove_wire ::
    "'x nd_env \<Rightarrow> node_discovery \<Rightarrow> string option \<Rightarrow> wed_ptr list \<Rightarrow> 'x world \<Rightarrow> (wed_ptr list \<times> 'x world) result" where
  "remove_wire env nd rmWireId [] w = Inr ([], w)"
| "remove_wire env nd rmWireId (wep # weps) w =
     rbind (wire_of (nd_cx env) wep w) (\<lambda>wireId.
     rbind (str_equal wireId rmWireId) (\<lambda>eq.
       if eq then rbind (inform env nd False wep w) (remove_wire env nd rmWireId weps)
       else rbind (remove_wire env nd rmWireId weps w) (\<lambda>(l, w). Inr (wep # l, w))))"

definition remove_wep ::
    "'x nd_env \<Rightarrow> node_discovery \<Rightarrow> wed_ptr \<Rightarrow> wed_ptr list \<times> 'x world \<Rightarrow> (wed_ptr list \<times> 'x world) result" where
  "remove_wep env nd rm s =
     (case s of (l, w) \<Rightarrow> rbind (wire_of (nd_cx env) rm w) (\<lambda>rmWireId. remove_wire env nd rmWireId l w))"

definition node_discovery_removeNode ::
    "'x nd_env \<Rightarrow> node_description \<Rightarrow> node_discovery \<Rightarrow> 'x world \<Rightarrow>
     (celix_status \<times> node_discovery \<times> 'x world) result" where
  "node_discovery_removeNode env removeRequest nd w =
     (if celixThreadMutex_lock (nd_cx env) ''discoveredNodesMutex'' \<noteq> CELIX_SUCCESS then Inr (CELIX_SUCCESS, nd, w)
      else case nodeId removeRequest of
        None \<Rightarrow> Inl NullPointer
      | Some nid \<Rightarrow>
          (case hashMap_get (string_same (nd_cx env)) (discoveredNodes nd) nid of
             None \<Rightarrow> Inr (CELIX_SUCCESS, nd, w)
           | Some n \<Rightarrow>
               rbind (rfold (remove_wep env nd) (wiring_ep_descriptions_list removeRequest)
                        (wiring_ep_descriptions_list n, w))
                 (\<lambda>(l, w). Inr (CELIX_SUCCESS, nd\<lparr>discoveredNodes :=
                    hashMap_replace (string_same (nd_cx env)) nid (n\<lparr>wiring_ep_descriptions_list := l\<rparr>)
                      (discoveredNodes nd)\<rparr>, w))))"

text \<open>Stopping: every endpoint of every discovered node is announced as removed.\<close>

definition node_discovery_stop ::
    "'x nd_env \<Rightarrow> celix_status \<Rightarrow> node_discovery \<Rightarrow> 'x world \<Rightarrow> (celix_status \<times> 'x world) result" where
  "node_discovery_stop env watcher_destroyed nd w =
     (if watcher_destroyed \<noteq> CELIX_SUCCESS then Inr (CELIX_BUNDLE_EXCEPTION, w)
      else rbind (rfold (inform env nd False)
                    (concat (map (wiring_ep_descriptions_list \<circ> snd) (discoveredNodes nd))) w)
             (\<lambda>w. Inr (watcher_destroyed, w)))"

section \<open>Endpoints of the own node\<close>

text \<open>The search for the wire id: a hit leaves the loop with an illegal state.\<close>

definition node_discovery_wiringEndpointAdded ::
    "'x nd_env \<Rightarrow> wed_ptr \<Rightarrow> node_discovery \<Rightarrow> 'x world \<Rightarrow> (celix_status \<times> node_discovery \<times> 'x world) result" where
  "node_discovery_wiringEndpointAdded env wEndpoint nd w =
     rbind (wire_of (nd_cx env) wEndpoint w) (\<lambda>wEndpointWireId.
       let status = celixThreadMutex_lock (nd_cx env) ''ownNodeMutex''
       in if status \<noteq> CELIX_SUCCESS then Inr (status, nd, w)
          else rbind (if celixThreadMutex_lock (nd_cx env) ''wiring_ep_desc_list_lock'' = CELIX_SUCCESS
                      then rbind (find_wire (nd_cx env) wEndpointWireId
                                    (wiring_ep_descriptions_list (ownNode nd)) w) (\<lambda>found.
                             if \<not> found
                             then (let own = (ownNode nd)\<lparr>wiring_ep_descriptions_list :=
                                          wiring_ep_descriptions_list (ownNode nd) @ [wEndpoint]\<rparr>
                                   in rbind (nd_addOwnNode env own w) (\<lambda>w. Inr (nd\<lparr>ownNode := own\<rparr>, w)))
                             else Inr (nd, w))
                      else Inr (nd, w))
                 (\<lambda>(nd, w). Inr (celixThreadMutex_unlock (nd_cx env) ''ownNodeMutex'', nd, w)))"

fun remove_own_wire :: "celix \<Rightarrow> string option \<Rightarrow> wed_ptr list \<Rightarrow> 'x world \<Rightarrow> wed_ptr list result" where
  "remove_own_wire cx wid [] w = Inr []"
| "remove_own_wire cx wid (d # ds) w =
     rbind (wire_of cx d w) (\<lambda>wepWireId.
     rbind (str_equal wid wepWireId) (\<lambda>eq.
       if eq then Inr ds else rbind (remove_own_wire cx wid ds w) (\<lambda>l. Inr (d # l))))"

definition node_discovery_wiringEndpointRemoved ::
    "'x nd_env \<Rightarrow> wed_ptr \<Rightarrow> node_discovery \<Rightarrow> 'x world \<Rightarrow> (celix_status \<times> node_discovery \<times> 'x world) result" where
  "node_discovery_wiringEndpointRemoved env wEndpoint nd w =
     rbind (wire_of (nd_cx env) wEndpoint w) (\<lambda>wEndpointWireId.
     rbind (remove_own_wire (nd_cx env) wEndpointWireId (wiring_ep_descriptions_list (ownNode nd)) w) (\<lambda>l.
       Inr (CELIX_SUCCESS, nd\<lparr>ownNode := (ownNode nd)\<lparr>wiring_ep_descriptions_list := l\<rparr>\<rparr>, w)))"

section \<open>Listeners coming and going\<close>

definition listener_replay ::
    "'x nd_env \<Rightarrow> 'x wiring_endpoint_listener \<Rightarrow> string option \<Rightarrow> wed_ptr \<Rightarrow> 'x world \<Rightarrow> 'x world result" where
  "listener_replay env listener scope d w =
     rbind (wed_deref d w) (\<lambda>p.
       if filter_match (nd_cx env) scope p
       then rbind (wiringEndpointAdded listener d None w) (\<lambda>(st, w). Inr w) else Inr w)"

definition node_discovery_wiringEndpointListenerAdded ::
    "'x nd_env \<Rightarrow> service_reference \<Rightarrow> 'x wiring_endpoint_listener \<Rightarrow> node_discovery \<Rightarrow> 'x world \<Rightarrow>
     (celix_status \<times> node_discovery \<times> 'x world) result" where
  "node_discovery_wiringEndpointListenerAdded env reference service nd w =
     (let cx = nd_cx env;
          scope = serviceReference_getProperty cx reference ''wiring.endpoint.listener.scope''
      in if serviceReference_getProperty cx reference ''NODE_DISCOVERY'' = Some ''true''
         then Inr (CELIX_SUCCESS, nd, w)
         else rbind (rfold (listener_replay env service scope)
                       (concat (map (wiring_ep_descriptions_list \<circ> snd) (discoveredNodes nd))) w)
                (\<lambda>w. Inr (CELIX_SUCCESS, nd\<lparr>listenerReferences :=
                   hashMap_put cx (ptr_hash cx) (ptr_same cx) reference () (listenerReferences nd)\<rparr>, w)))"

definition node_discovery_wiringEndpointListenerRemoved ::
    "celix \<Rightarrow> service_reference \<Rightarrow> node_discovery \<Rightarrow> celix_status \<times> node_discovery" where
  "node_discovery_wiringEndpointListenerRemoved cx reference nd =
     (let status = celixThreadMutex_lock cx ''listenerReferencesMutex''
      in if status = CELIX_SUCCESS
         then (celixThreadMutex_unlock cx ''listenerReferencesMutex'',
               nd\<lparr>listenerReferences := hashMap_remove (ptr_same cx) reference (listenerReferences nd)\<rparr>)
         else (status, nd))"

definition node_discovery_wiringEndpointListenerModified ::
    "'x nd_env \<Rightarrow> service_reference \<Rightarrow> 'x wiring_endpoint_listener \<Rightarrow> node_discovery \<Rightarrow> 'x world \<Rightarrow>
     (celix_status \<times> node_discovery \<times> 'x world) result" where
  "node_discovery_wiringEndpointListenerModified env reference service nd w =
     (let (status, nd) = node_discovery_wiringEndpointListenerRemoved (nd_cx env) reference nd
      in if status = CELIX_SUCCESS
         then node_discovery_wiringEndpointListenerAdded env reference service nd w
         else Inr (status, nd, w))"

end
