(* ===== verification/Node_Discovery_Correct.thy ===== *)
theory Node_Discovery_Correct
  imports Node_Discovery
begin

text \<open>
  Correctness of the node discovery: which endpoints of a reported node are announced, freed
  or withdrawn, and how the own node grows and shrinks. The listeners are only known through
  their contract.
\<close>

section \<open>Basic facts\<close>

definition listeners_ok :: "'x nd_env \<Rightarrow> bool" where
  "listeners_ok env \<longleftrightarrow> (\<forall>ref l. nd_getService env ref = Some l \<longrightarrow> listener_contract (nd_cx env) l)"

lemma inform_listener_keeps:
  assumes "listeners_ok env" "inform_listener env d added ref w = Inr w'"
  shows "wires_kept (nd_cx env) w w'"
  using assms
  by (auto simp: inform_listener_def listeners_ok_def Let_def rbind_eq_Inr split: if_splits option.splits
      dest: listener_contract.added_keeps listener_contract.removed_keeps)

lemma inform_keeps:
  assumes "listeners_ok env" "inform env nd added d w = Inr w'"
  shows "wires_kept (nd_cx env) w w'"
proof -
  have loop: "wires_kept (nd_cx env) w u"
    if "rfold (inform_listener env d added) (map fst (listenerReferences nd)) w = Inr u" for u
    by (rule rfold_invariant [OF that])
      (auto intro: wires_kept_trans inform_listener_keeps [OF assms(1)])
  show ?thesis
    using assms(2)
    by (auto simp: inform_def node_discovery_informWiringEndpointListeners_def Let_def rbind_eq_Inr loop
        split: if_splits)
qed

lemma wire_of_eq: "wireId_of cx w d \<noteq> None \<Longrightarrow> wire_of cx d w = Inr (wireId_of cx w d)"
  by (cases "weds w d") (auto simp: wire_of_def wed_deref_def wireId_of_def)

lemma find_wire_eq:
  assumes "wid \<noteq> None" "\<forall>d\<in>set l. wireId_of cx w d \<noteq> None"
  shows "find_wire cx wid l w = Inr (wid \<in> wireId_of cx w ` set l)"
  using assms by (induction l) (auto simp: wire_of_eq str_equal_def)

lemma destroy_wed_other: "destroy_wed d w = Inr w' \<Longrightarrow> d' \<noteq> d \<Longrightarrow> wireId_of cx w' d' = wireId_of cx w d'"
  by (auto simp: destroy_wed_def wiringEndpointDescription_destroy_def rbind_eq_Inr wireId_of_def split: option.splits)

section \<open>A known node is reported again\<close>

text \<open>What is to be done with the endpoints of the report, decided from the wire ids alone.\<close>

datatype wep_action = Announce wed_ptr | Free wed_ptr

fun plan :: "(wed_ptr \<Rightarrow> string option) \<Rightarrow> wed_ptr list \<Rightarrow> wed_ptr list \<Rightarrow> wep_action list" where
  "plan f known [] = []"
| "plan f known (d # ds) =
     (if f d \<in> f ` set known then Free d # plan f known ds else Announce d # plan f (known @ [d]) ds)"

fun perform :: "'x nd_env \<Rightarrow> node_discovery \<Rightarrow> wep_action \<Rightarrow> 'x world \<Rightarrow> 'x world result" where
  "perform env nd (Announce d) w = inform env nd True d w"
| "perform env nd (Free d) w = destroy_wed d w"

fun announced :: "wep_action list \<Rightarrow> wed_ptr list" where
  "announced [] = []"
| "announced (Announce d # as) = d # announced as"
| "announced (Free d # as) = announced as"

lemma add_weps_plan:
  assumes "listeners_ok env" "distinct ws" "set ws \<inter> set known = {}"
    and "\<forall>d\<in>set ws \<union> set known. wireId_of (nd_cx env) w d = f d" "\<forall>d\<in>set ws \<union> set known. f d \<noteq> None"
  shows "rfold (add_wep env nd) ws (known, w) =
    rbind (rfold (perform env nd) (plan f known ws) w) (\<lambda>w'. Inr (known @ announced (plan f known ws), w'))"
  using assms(2-)
proof (induction ws arbitrary: known w)
  case (Cons d ds)
  let ?cx = "nd_cx env"
  have ids: "wire_of ?cx d w = Inr (f d)" "f d \<noteq> None"
    using Cons.prems(3,4) wire_of_eq [of ?cx w d] by auto
  have "\<forall>d\<in>set known. wireId_of ?cx w d \<noteq> None" using Cons.prems(3,4) by simp
  then have found: "find_wire ?cx (f d) known w = Inr (f d \<in> f ` set known)"
    using ids(2) Cons.prems(3) by (simp add: find_wire_eq)
  have step: "add_wep env nd d (known, w) =
      (if f d \<in> f ` set known then rbind (destroy_wed d w) (\<lambda>w. Inr (known, w))
       else rbind (inform env nd True d w) (\<lambda>w. Inr (known @ [d], w)))"
    using ids(1) found by (simp add: add_wep_def)
  show ?case
  proof (cases "f d \<in> f ` set known")
    case True
    have other: "wireId_of ?cx w1 d' = f d'" if "destroy_wed d w = Inr w1" "d' \<in> set ds \<union> set known" for w1 d'
    proof -
      have "d' \<noteq> d" using that(2) Cons.prems(1,2) by auto
      then show ?thesis using destroy_wed_other [OF that(1)] Cons.prems(3) that(2) by auto
    qed
    have rest: "rfold (add_wep env nd) ds (known, w1) =
        rbind (rfold (perform env nd) (plan f known ds) w1) (\<lambda>w'. Inr (known @ announced (plan f known ds), w'))"
      if "destroy_wed d w = Inr w1" for w1
      using Cons.prems other [OF that] by (intro Cons.IH) auto
    show ?thesis
      using True step by (cases "destroy_wed d w") (simp_all add: rest)
  next
    case False
    have rest: "rfold (add_wep env nd) ds (known @ [d], w1) =
        rbind (rfold (perform env nd) (plan f (known @ [d]) ds) w1)
          (\<lambda>w'. Inr ((known @ [d]) @ announced (plan f (known @ [d]) ds), w'))"
      if "inform env nd True d w = Inr w1" for w1
      using Cons.prems inform_keeps [OF assms(1) that] by (intro Cons.IH) (auto simp: wires_kept_def)
    show ?thesis
      using False step by (cases "inform env nd True d w") (simp_all add: rest)
  qed
qed simp

lemma plan_announced_wires: "f ` set (announced (plan f known ws)) = f ` set ws - f ` set known"
  by (induction f known ws rule: plan.induct) auto

lemma plan_announced_distinct:
  "distinct (map f (announced (plan f known ws))) \<and> set (announced (plan f known ws)) \<subseteq> set ws"
proof (induction f known ws rule: plan.induct)
  case (2 f known d ds)
  show ?case
  proof (cases "f d \<in> f ` set known")
    case False
    have "f d \<notin> f ` set (announced (plan f (known @ [d]) ds))"
      by (simp add: plan_announced_wires)
    with 2 False show ?thesis by auto
  qed (use 2 in auto)
qed simp

text \<open>
  C29. A report about a known node is carried out as planned from the wire ids: an endpoint
  whose wire id is new is announced to the listeners and appended to the node, one whose
  wire id is known is freed, in the order of the report, and nothing else happens to the
  node; a fault of a listener is a fault of the call.
\<close>

theorem addNode_known:
  assumes "listeners_ok env" "nodeId n = Some nid" "map_of (discoveredNodes nd) nid = Some old"
    and "distinct (wiring_ep_descriptions_list n)"
    and "set (wiring_ep_descriptions_list n) \<inter> set (wiring_ep_descriptions_list old) = {}"
    and "\<forall>d\<in>set (wiring_ep_descriptions_list n) \<union> set (wiring_ep_descriptions_list old).
      wireId_of (nd_cx env) w d \<noteq> None"
  shows "let todo = plan (wireId_of (nd_cx env) w) (wiring_ep_descriptions_list old) (wiring_ep_descriptions_list n)
    in node_discovery_addNode env n nd w =
      rbind (rfold (perform env nd) todo w) (\<lambda>w'. Inr (CELIX_SUCCESS,
        nd\<lparr>discoveredNodes := hashMap_replace (string_same (nd_cx env)) nid
             (old\<lparr>wiring_ep_descriptions_list := wiring_ep_descriptions_list old @ announced todo\<rparr>)
             (discoveredNodes nd)\<rparr>, w'))"
  using add_weps_plan [OF assms(1,4,5), of w "wireId_of (nd_cx env) w" nd] assms(2,3,6)
  by (cases "rfold (perform env nd) (plan (wireId_of (nd_cx env) w) (wiring_ep_descriptions_list old)
        (wiring_ep_descriptions_list n)) w")
    (simp_all add: node_discovery_addNode_def smap.get_map_of nodeDescription_destroy_def)

definition quiet_listener :: "nat wiring_endpoint_listener" where
  "quiet_listener = \<lparr>wiringEndpointAdded = (\<lambda>d s w. Inr (CELIX_SUCCESS, w\<lparr>rest := rest w + 1\<rparr>)),
     wiringEndpointRemoved = (\<lambda>d s w. Inr (CELIX_SUCCESS, w\<lparr>rest := rest w - 1\<rparr>))\<rparr>"

interpretation quiet: listener_contract cx quiet_listener for cx
  by unfold_locales (auto simp: quiet_listener_def intro: wires_kept_weds)

definition demo_nd_env :: "nat nd_env" where
  "demo_nd_env = \<lparr>nd_cx = celix0, nd_getService = (\<lambda>r. Some quiet_listener), nd_addOwnNode = (\<lambda>n w. Inr w)\<rparr>"

definition demo_node :: "wed_ptr list \<Rightarrow> node_description" where
  "demo_node l = \<lparr>nodeId = Some ''n1'', zoneId = Some ''z'', node_properties = [], wiring_ep_descriptions_list = l\<rparr>"

definition demo_nd :: node_discovery where
  "demo_nd = \<lparr>ownNode = demo_node [], discoveredNodes = [(''n1'', demo_node [1])], listenerReferences = [(7, ())]\<rparr>"

definition demo_nd_world :: "nat world" where
  "demo_nd_world = \<lparr>weds = [1 \<mapsto> [(WIRE_ID_KEY, ''a'')], 2 \<mapsto> [(WIRE_ID_KEY, ''b'')], 3 \<mapsto> [(WIRE_ID_KEY, ''a'')]], rest = 0\<rparr>"

lemma demo_listeners_ok: "listeners_ok demo_nd_env"
  using quiet.listener_contract_axioms by (auto simp: listeners_ok_def demo_nd_env_def)

lemmas demo_nd_defs = demo_nd_env_def demo_node_def demo_nd_def demo_nd_world_def celix0_def

theorem addNode_known_witness:
  "let todo = plan (wireId_of (nd_cx demo_nd_env) demo_nd_world) [1] [2, 3]
   in node_discovery_addNode demo_nd_env (demo_node [2, 3]) demo_nd demo_nd_world =
      rbind (rfold (perform demo_nd_env demo_nd) todo demo_nd_world) (\<lambda>w'. Inr (CELIX_SUCCESS,
        demo_nd\<lparr>discoveredNodes := hashMap_replace (string_same (nd_cx demo_nd_env)) ''n1''
             ((demo_node [1])\<lparr>wiring_ep_descriptions_list := [1] @ announced todo\<rparr>)
             (discoveredNodes demo_nd)\<rparr>, w'))"
  using addNode_known [OF demo_listeners_ok, of "demo_node [2, 3]" "''n1''" demo_nd "demo_node [1]" demo_nd_world]
  by (simp add: demo_nd_defs wireId_of_def properties_get_map_of)

text \<open>
  The plan adds exactly the wires the node did not have: every new wire id of the report
  is announced exactly once and no known one is; so afterwards the node offers its old wires
  and those of the report.
\<close>

theorem addNode_plan_exact:
  "f ` set (announced (plan f known ws)) = f ` set ws - f ` set known \<and>
   distinct (map f (announced (plan f known ws))) \<and>
   f ` set (known @ announced (plan f known ws)) = f ` set known \<union> f ` set ws"
  using plan_announced_wires [of f known ws] plan_announced_distinct [of f known ws] by auto

text \<open>
  A node that is not known yet is stored as reported and each of its endpoints is
  announced, in order.
\<close>

theorem addNode_new:
  assumes "nodeId n = Some nid" "map_of (discoveredNodes nd) nid = None"
  shows "node_discovery_addNode env n nd w =
    (let nd' = nd\<lparr>discoveredNodes := hashMap_put (nd_cx env) (utils_stringHash (nd_cx env))
                    (string_same (nd_cx env)) nid n (discoveredNodes nd)\<rparr>
     in rbind (rfold (inform env nd True) (wiring_ep_descriptions_list n) w) (\<lambda>w'. Inr (CELIX_SUCCESS, nd', w'))) \<and>
    map_of (hashMap_put (nd_cx env) (utils_stringHash (nd_cx env)) (string_same (nd_cx env)) nid n (discoveredNodes nd)) =
      (map_of (discoveredNodes nd))(nid \<mapsto> n)"
proof -
  have "inform env (nd\<lparr>discoveredNodes := x\<rparr>) True = inform env nd True" for x
    by (simp add: inform_def node_discovery_informWiringEndpointListeners_def fun_eq_iff Let_def)
  then show ?thesis
    using assms by (simp add: node_discovery_addNode_def smap.get_map_of smap.put_map_of Let_def)
qed

theorem addNode_new_witness:
  "node_discovery_addNode demo_nd_env ((demo_node [2])\<lparr>nodeId := Some ''n2''\<rparr>) demo_nd demo_nd_world =
    (let nd' = demo_nd\<lparr>discoveredNodes := hashMap_put (nd_cx demo_nd_env) (utils_stringHash (nd_cx demo_nd_env))
                    (string_same (nd_cx demo_nd_env)) ''n2'' ((demo_node [2])\<lparr>nodeId := Some ''n2''\<rparr>) (discoveredNodes demo_nd)\<rparr>
     in rbind (rfold (inform demo_nd_env demo_nd True) [2] demo_nd_world) (\<lambda>w'. Inr (CELIX_SUCCESS, nd', w')))"
  using addNode_new [of "(demo_node [2])\<lparr>nodeId := Some ''n2''\<rparr>" "''n2''" demo_nd demo_nd_env demo_nd_world]
  by (simp add: demo_node_def demo_nd_def)

section \<open>Endpoints are withdrawn\<close>

text \<open>The endpoints to withdraw, in the order in which the listeners hear of it.\<close>

fun withdrawn :: "(wed_ptr \<Rightarrow> string option) \<Rightarrow> wed_ptr list \<Rightarrow> wed_ptr list \<Rightarrow> wed_ptr list" where
  "withdrawn f l [] = []"
| "withdrawn f l (r # rs) = filter (\<lambda>d. f d = f r) l @ withdrawn f (filter (\<lambda>d. f d \<noteq> f r) l) rs"

lemma remove_wire_eq:
  assumes "listeners_ok env" "wid \<noteq> None"
    and "\<forall>d\<in>set l. wireId_of (nd_cx env) w d = f d" "\<forall>d\<in>set l. f d \<noteq> None"
  shows "remove_wire env nd wid l w =
    rbind (rfold (inform env nd False) (filter (\<lambda>d. f d = wid) l) w) (\<lambda>w'. Inr (filter (\<lambda>d. f d \<noteq> wid) l, w'))"
  using assms(3-)
proof (induction l arbitrary: w)
  case (Cons d l)
  have ids: "wire_of (nd_cx env) d w = Inr (f d)" "str_equal (f d) wid = Inr (f d = wid)"
    using Cons.prems assms(2) wire_of_eq [of "nd_cx env" w d] by (auto simp: str_equal_def)
  have rest: "remove_wire env nd wid l w1 =
      rbind (rfold (inform env nd False) (filter (\<lambda>d. f d = wid) l) w1) (\<lambda>w'. Inr (filter (\<lambda>d. f d \<noteq> wid) l, w'))"
    if "w1 = w \<or> inform env nd False d w = Inr w1" for w1
    using that Cons.prems by (intro Cons.IH) (auto simp: wires_kept_def dest: inform_keeps [OF assms(1)])
  show ?case
  proof (cases "f d = wid")
    case True
    then show ?thesis using ids rest by (cases "inform env nd False d w") simp_all
  next
    case False
    then show ?thesis
      using ids rest [of w] by (cases "rfold (inform env nd False) (filter (\<lambda>d. f d = wid) l) w") simp_all
  qed
qed simp

lemma rfold_inform_keeps:
  assumes "listeners_ok env" "rfold (inform env nd added) ds w = Inr w'"
  shows "wires_kept (nd_cx env) w w'"
  by (rule rfold_invariant [OF assms(2)]) (auto intro: wires_kept_trans inform_keeps [OF assms(1)])

lemma remove_weps_eq:
  assumes "listeners_ok env"
    and "\<forall>d\<in>set rms \<union> set l. wireId_of (nd_cx env) w d = f d" "\<forall>d\<in>set rms \<union> set l. f d \<noteq> None"
  shows "rfold (remove_wep env nd) rms (l, w) =
    rbind (rfold (inform env nd False) (withdrawn f l rms) w) (\<lambda>w'. Inr (filter (\<lambda>d. f d \<notin> f ` set rms) l, w'))"
  using assms(2-)
proof (induction rms arbitrary: l w)
  case (Cons r rms)
  let ?hit = "filter (\<lambda>d. f d = f r) l" and ?miss = "filter (\<lambda>d. f d \<noteq> f r) l"
  have "wire_of (nd_cx env) r w = Inr (f r)" "f r \<noteq> None"
    using Cons.prems wire_of_eq [of "nd_cx env" w r] by auto
  then have first: "remove_wep env nd r (l, w) =
      rbind (rfold (inform env nd False) ?hit w) (\<lambda>w'. Inr (?miss, w'))"
    using Cons.prems remove_wire_eq [OF assms(1), of "f r" l w f nd] by (simp add: remove_wep_def)
  have rest: "rfold (remove_wep env nd) rms (?miss, w1) =
      rbind (rfold (inform env nd False) (withdrawn f ?miss rms) w1)
        (\<lambda>w'. Inr (filter (\<lambda>d. f d \<notin> f ` set rms) ?miss, w'))"
    if "rfold (inform env nd False) ?hit w = Inr w1" for w1
    using Cons.prems rfold_inform_keeps [OF assms(1) that] by (intro Cons.IH) (auto simp: wires_kept_def)
  show ?case
    by (cases "rfold (inform env nd False) ?hit w")
      (simp_all add: first rest rfold_append conj_commute)
qed simp

lemma withdrawn_set: "set (withdrawn f l rs) = {d \<in> set l. f d \<in> f ` set rs}"
  by (induction f l rs rule: withdrawn.induct) auto

lemma removeNode_result:
  assumes "listeners_ok env" "celixThreadMutex_lock (nd_cx env) ''discoveredNodesMutex'' = CELIX_SUCCESS"
    and "nodeId req = Some nid" "map_of (discoveredNodes nd) nid = Some old"
    and "\<forall>d\<in>set (wiring_ep_descriptions_list req) \<union> set (wiring_ep_descriptions_list old).
      wireId_of (nd_cx env) w d \<noteq> None"
  shows "node_discovery_removeNode env req nd w =
    rbind (rfold (inform env nd False)
             (withdrawn (wireId_of (nd_cx env) w) (wiring_ep_descriptions_list old) (wiring_ep_descriptions_list req)) w)
      (\<lambda>w'. Inr (CELIX_SUCCESS, nd\<lparr>discoveredNodes := hashMap_replace (string_same (nd_cx env)) nid
         (old\<lparr>wiring_ep_descriptions_list :=
            filter (\<lambda>d. wireId_of (nd_cx env) w d \<notin> wireId_of (nd_cx env) w ` set (wiring_ep_descriptions_list req))
              (wiring_ep_descriptions_list old)\<rparr>) (discoveredNodes nd)\<rparr>, w'))"
  using remove_weps_eq [OF assms(1), of "wiring_ep_descriptions_list req" "wiring_ep_descriptions_list old" w
      "wireId_of (nd_cx env) w" nd] assms(2-)
  by (cases "rfold (inform env nd False) (withdrawn (wireId_of (nd_cx env) w) (wiring_ep_descriptions_list old)
        (wiring_ep_descriptions_list req)) w")
    (simp_all add: node_discovery_removeNode_def smap.get_map_of)

text \<open>
  C30. Removing endpoints of a known node withdraws from the listeners exactly the node's
  endpoints that carry one of the wire ids of the request, and leaves the others in their
  order; the node itself stays known, even when nothing is left of it.
\<close>

theorem removeNode_known:
  assumes "listeners_ok env" "celixThreadMutex_lock (nd_cx env) ''discoveredNodesMutex'' = CELIX_SUCCESS"
    and "nodeId req = Some nid" "map_of (discoveredNodes nd) nid = Some old"
    and "\<forall>d\<in>set (wiring_ep_descriptions_list req) \<union> set (wiring_ep_descriptions_list old).
      wireId_of (nd_cx env) w d \<noteq> None"
  shows "let f = wireId_of (nd_cx env) w; gone = withdrawn f (wiring_ep_descriptions_list old) (wiring_ep_descriptions_list req)
    in node_discovery_removeNode env req nd w =
        rbind (rfold (inform env nd False) gone w) (\<lambda>w'. Inr (CELIX_SUCCESS,
          nd\<lparr>discoveredNodes := hashMap_replace (string_same (nd_cx env)) nid
               (old\<lparr>wiring_ep_descriptions_list :=
                  filter (\<lambda>d. f d \<notin> f ` set (wiring_ep_descriptions_list req)) (wiring_ep_descriptions_list old)\<rparr>)
               (discoveredNodes nd)\<rparr>, w')) \<and>
      set gone = {d \<in> set (wiring_ep_descriptions_list old). f d \<in> f ` set (wiring_ep_descriptions_list req)}"
  using removeNode_result [OF assms] by (simp add: withdrawn_set Let_def)

theorem removeNode_known_witness:
  "\<exists>w'. node_discovery_removeNode demo_nd_env (demo_node [3]) demo_nd demo_nd_world =
    Inr (CELIX_SUCCESS, demo_nd\<lparr>discoveredNodes := [(''n1'', demo_node [])]\<rparr>, w')"
  using removeNode_known [OF demo_listeners_ok, of "demo_node [3]" "''n1''" demo_nd "demo_node [1]" demo_nd_world]
  by (simp add: demo_nd_defs wireId_of_def properties_get_map_of inform_def
      node_discovery_informWiringEndpointListeners_def inform_listener_def wed_deref_def quiet_listener_def
      string_same_def same_key_def)

section \<open>The own node\<close>

lemma own_added_eq:
  assumes "\<forall>l. celixThreadMutex_lock (nd_cx env) l = CELIX_SUCCESS"
    and "\<forall>d\<in>insert e (set (wiring_ep_descriptions_list (ownNode nd))). wireId_of (nd_cx env) w d \<noteq> None"
  shows "node_discovery_wiringEndpointAdded env e nd w =
    (let own = ownNode nd; l = wiring_ep_descriptions_list own;
         own' = own\<lparr>wiring_ep_descriptions_list := l @ [e]\<rparr>;
         st = celixThreadMutex_unlock (nd_cx env) ''ownNodeMutex''
     in if wireId_of (nd_cx env) w e \<in> wireId_of (nd_cx env) w ` set l then Inr (st, nd, w)
        else rbind (nd_addOwnNode env own' w) (\<lambda>w'. Inr (st, nd\<lparr>ownNode := own'\<rparr>, w')))"
  using assms
  by (cases "nd_addOwnNode env ((ownNode nd)\<lparr>wiring_ep_descriptions_list := wiring_ep_descriptions_list (ownNode nd) @ [e]\<rparr>) w")
    (simp_all add: node_discovery_wiringEndpointAdded_def wire_of_eq find_wire_eq Let_def)

text \<open>
  Adding an endpoint to the own node: a new wire id is appended and published, a known
  one changes nothing; both are answered with the status of the last unlock, so the caller
  cannot tell them apart.
\<close>

theorem own_endpoint_added:
  assumes "\<forall>l. celixThreadMutex_lock (nd_cx env) l = CELIX_SUCCESS"
    and "\<forall>d\<in>insert e (set (wiring_ep_descriptions_list (ownNode nd))). wireId_of (nd_cx env) w d \<noteq> None"
  shows "node_discovery_wiringEndpointAdded env e nd w =
    (let own = ownNode nd; l = wiring_ep_descriptions_list own;
         own' = own\<lparr>wiring_ep_descriptions_list := l @ [e]\<rparr>;
         st = celixThreadMutex_unlock (nd_cx env) ''ownNodeMutex''
     in if wireId_of (nd_cx env) w e \<in> wireId_of (nd_cx env) w ` set l then Inr (st, nd, w)
        else rbind (nd_addOwnNode env own' w) (\<lambda>w'. Inr (st, nd\<lparr>ownNode := own'\<rparr>, w')))"
  by (rule own_added_eq [OF assms])

theorem own_endpoint_added_witness:
  "node_discovery_wiringEndpointAdded demo_nd_env 3 (demo_nd\<lparr>ownNode := demo_node [1]\<rparr>) demo_nd_world =
   Inr (CELIX_SUCCESS, demo_nd\<lparr>ownNode := demo_node [1]\<rparr>, demo_nd_world)"
  by (subst own_endpoint_added) (simp_all add: demo_nd_defs wireId_of_def properties_get_map_of Let_def)

lemma remove_own_wire_eq:
  assumes "wid \<noteq> None" "\<forall>d\<in>set l. wireId_of cx w d \<noteq> None"
  shows "remove_own_wire cx wid l w =
    Inr (takeWhile (\<lambda>d. wireId_of cx w d \<noteq> wid) l @ tl (dropWhile (\<lambda>d. wireId_of cx w d \<noteq> wid) l))"
  using assms by (induction l) (auto simp: wire_of_eq str_equal_def)

text \<open>
  Removing an endpoint from the own node undoes adding it: the node's endpoints are what
  they were before.
\<close>

theorem own_endpoint_roundtrip:
  assumes "\<forall>l. celixThreadMutex_lock (nd_cx env) l = CELIX_SUCCESS"
    and "\<forall>d\<in>insert e (set (wiring_ep_descriptions_list (ownNode nd))). wireId_of (nd_cx env) w d \<noteq> None"
    and "wireId_of (nd_cx env) w e \<notin> wireId_of (nd_cx env) w ` set (wiring_ep_descriptions_list (ownNode nd))"
    and "node_discovery_wiringEndpointAdded env e nd w = Inr (st, nd', w')" "weds w' = weds w"
  shows "node_discovery_wiringEndpointRemoved env e nd' w' = Inr (CELIX_SUCCESS, nd, w')"
proof -
  let ?l = "wiring_ep_descriptions_list (ownNode nd)" and ?f = "wireId_of (nd_cx env) w"
  have nd': "nd' = nd\<lparr>ownNode := (ownNode nd)\<lparr>wiring_ep_descriptions_list := ?l @ [e]\<rparr>\<rparr>"
  proof -
    have "rbind (nd_addOwnNode env ((ownNode nd)\<lparr>wiring_ep_descriptions_list := ?l @ [e]\<rparr>) w)
        (\<lambda>w'. Inr (celixThreadMutex_unlock (nd_cx env) ''ownNodeMutex'',
          nd\<lparr>ownNode := (ownNode nd)\<lparr>wiring_ep_descriptions_list := ?l @ [e]\<rparr>\<rparr>, w')) = Inr (st, nd', w')"
      using own_endpoint_added [OF assms(1,2)] assms(3,4) by (simp add: Let_def)
    then show ?thesis by (auto simp: rbind_eq_Inr)
  qed
  have f: "wireId_of (nd_cx env) w' = ?f" using assms(5) by (simp add: wireId_of_def fun_eq_iff)
  have "\<forall>d\<in>set ?l. ?f d \<noteq> ?f e" using assms(3) by (metis imageI)
  then have drop: "dropWhile (\<lambda>d. ?f d \<noteq> ?f e) (?l @ [e]) = [e]" "takeWhile (\<lambda>d. ?f d \<noteq> ?f e) (?l @ [e]) = ?l"
    by (simp_all add: dropWhile_append2 takeWhile_append2)
  have "remove_own_wire (nd_cx env) (?f e) (?l @ [e]) w' = Inr ?l"
    using assms(2) drop by (subst remove_own_wire_eq) (auto simp: f)
  moreover have "wire_of (nd_cx env) e w' = Inr (?f e)" using assms(2) f by (simp add: wire_of_eq)
  ultimately show ?thesis by (simp add: node_discovery_wiringEndpointRemoved_def nd')
qed

theorem own_endpoint_roundtrip_witness:
  "node_discovery_wiringEndpointRemoved demo_nd_env 2
     (demo_nd\<lparr>ownNode := demo_node [1, 2]\<rparr>) demo_nd_world =
   Inr (CELIX_SUCCESS, demo_nd\<lparr>ownNode := demo_node [1]\<rparr>, demo_nd_world)"
  by (rule own_endpoint_roundtrip [where w = demo_nd_world and st = CELIX_SUCCESS])
    (simp_all add: demo_nd_defs node_discovery_wiringEndpointAdded_def wire_of_def wed_deref_def wireId_of_def
      properties_get_map_of str_equal_def)

end
