(* ===== verification/Etcd.thy ===== *)
theory Etcd
  imports Celix Json
begin

text \<open>
  \<^verbatim>\<open>node_discovery/private/src/etcd.c\<close>: the client of the etcd key-value store. curl and
  jansson are not part of the repository: an HTTP exchange is a function of the state of
  the outside that answers curl's code and the blocks of the reply, and \<open>json_loads\<close> makes a
  JSON value of a text (\<^verbatim>\<open>Json\<close>).
\<close>

section \<open>Requests\<close>

datatype request_t = GET | PUT | DELETE

record etcd_conn =
  etcd_server :: string
  etcd_port :: int

record 'x etcd_lib =
  json_loads :: "string \<Rightarrow> json option"
  http :: "request_t \<Rightarrow> string \<Rightarrow> string option \<Rightarrow> 'x \<Rightarrow> (int \<times> string list) \<times> 'x"
  realloc_ok :: "nat \<Rightarrow> bool"
  curl_global_init :: bool

definition MAX_URL_LENGTH :: nat where "MAX_URL_LENGTH = 256"
definition MAX_CONTENT_LENGTH :: nat where "MAX_CONTENT_LENGTH = 16384"
definition MAX_VALUE_LENGTH :: nat where "MAX_VALUE_LENGTH = 4096"
definition MAX_KEY_LENGTH :: nat where "MAX_KEY_LENGTH = 256"
definition MAX_ACTION_LENGTH :: nat where "MAX_ACTION_LENGTH = 64"
definition MAX_ZONES :: nat where "MAX_ZONES = 64"
definition MAX_NODES :: nat where "MAX_NODES = 256"
definition MAX_WIRES :: nat where "MAX_WIRES = 256"

text \<open>
  The reply while it is received: \<open>Some t\<close> once a block was stored; before, the single byte
  that was allocated holds nothing. A failed \<open>realloc\<close> makes the callback answer less than
  the size of the block, upon which curl gives up with \<^verbatim>\<open>CURLE_WRITE_ERROR\<close>.
\<close>

definition WriteMemoryCallback :: "bool \<Rightarrow> string \<Rightarrow> string option \<Rightarrow> string option option" where
  "WriteMemoryCallback ok contents memory =
     (if \<not> ok then None else Some (Some ((case memory of None \<Rightarrow> [] | Some t \<Rightarrow> t) @ contents)))"

definition CURLE_WRITE_ERROR :: int where "CURLE_WRITE_ERROR = 23"

fun receive_blocks :: "(nat \<Rightarrow> bool) \<Rightarrow> string list \<Rightarrow> string option \<Rightarrow> string option option" where
  "receive_blocks ok [] memory = Some memory"
| "receive_blocks ok (b # bs) memory =
     (case WriteMemoryCallback (ok (length (case memory of None \<Rightarrow> [] | Some t \<Rightarrow> t) + length b + 1)) b memory of
        None \<Rightarrow> None | Some m \<Rightarrow> receive_blocks ok bs m)"

text \<open>The code of the transfer, the reply and the outside afterwards.\<close>

definition performRequest ::
    "'x etcd_lib \<Rightarrow> string \<Rightarrow> request_t \<Rightarrow> string option \<Rightarrow> 'x \<Rightarrow> int \<times> string option \<times> 'x" where
  "performRequest lib url request reqData x =
     (case http lib request url reqData x of ((res, blocks), x') \<Rightarrow>
       (case receive_blocks (realloc_ok lib) blocks None of
          None \<Rightarrow> (CURLE_WRITE_ERROR, None, x')
        | Some memory \<Rightarrow> (res, memory, x')))"

definition etcd_init :: "'x etcd_lib \<Rightarrow> string \<Rightarrow> int \<Rightarrow> bool \<times> etcd_conn" where
  "etcd_init lib server port = (curl_global_init lib, \<lparr>etcd_server = server, etcd_port = port\<rparr>)"

definition etcd_url :: "etcd_conn \<Rightarrow> string \<Rightarrow> string" where
  "etcd_url c path =
     snprintf MAX_URL_LENGTH (''http://'' @ etcd_server c @ '':'' @ dec_int (etcd_port c) @ ''/v2/keys/'' @ path)"

text \<open>The reply as JSON; the parser reads the buffer whether or not anything was stored in it.\<close>

definition parse_reply :: "'x etcd_lib \<Rightarrow> string option \<Rightarrow> json option result" where
  "parse_reply lib memory = (case memory of None \<Rightarrow> Inl Uninitialised | Some t \<Rightarrow> Inr (json_loads lib t))"

section \<open>Operations\<close>

text \<open>\<open>Some (value, modifiedIndex)\<close> when the call answers true.\<close>

definition etcd_get ::
    "'x etcd_lib \<Rightarrow> etcd_conn \<Rightarrow> string \<Rightarrow> 'x \<Rightarrow> ((cbuf \<times> int) option \<times> 'x) result" where
  "etcd_get lib c key x =
     (case performRequest lib (etcd_url c key) GET None x of (res, memory, x) \<Rightarrow>
       if res \<noteq> 0 then Inr (None, x)
       else rbind (parse_reply lib memory) (\<lambda>js_root.
         let js_node = json_object_get js_root ''node'' in
         if js_node = None then Inr (None, x)
         else (let js_value = json_object_get js_node ''value'';
                   js_modifiedIndex = json_object_get js_node ''modifiedIndex''
               in if js_modifiedIndex \<noteq> None \<and> js_value \<noteq> None
                  then rbind (strncpy (json_string_value js_value) MAX_VALUE_LENGTH) (\<lambda>value.
                         Inr (Some (value, int_of_long (json_integer_value js_modifiedIndex)), x))
                  else Inr (None, x))))"

text \<open>The caller's array has room for \<open>MAX_NODES\<close> keys.\<close>

definition add_endpoint :: "json \<Rightarrow> cbuf list \<Rightarrow> cbuf list result" where
  "add_endpoint js_user endpoints =
     (if json_is_object js_user
      then (if MAX_NODES \<le> length endpoints then Inl BufferOverflow
            else rbind (strncpy (json_string_value (json_object_get (Some js_user) ''key'')) MAX_KEY_LENGTH)
                   (\<lambda>key. Inr (endpoints @ [key])))
      else Inr endpoints)"

definition wires_of_node :: "json \<Rightarrow> json list" where
  "wires_of_node js_node = take MAX_WIRES (json_elements (json_object_get (Some js_node) ''nodes''))"

definition nodes_of_zone :: "json \<Rightarrow> json list" where
  "nodes_of_zone js_zone = take MAX_NODES (json_elements (json_object_get (Some js_zone) ''nodes''))"

definition zones_of_root :: "json option \<Rightarrow> json list" where
  "zones_of_root js_root =
     take MAX_ZONES (json_elements (json_object_get (json_object_get js_root ''node'') ''nodes''))"

definition all_wires :: "json option \<Rightarrow> json list" where
  "all_wires js_root = concat (map wires_of_node (concat (map nodes_of_zone (zones_of_root js_root))))"

definition etcd_getEndpoints ::
    "'x etcd_lib \<Rightarrow> etcd_conn \<Rightarrow> string \<Rightarrow> 'x \<Rightarrow> ((bool \<times> cbuf list) \<times> 'x) result" where
  "etcd_getEndpoints lib c directory x =
     (case performRequest lib (etcd_url c (directory @ ''?recursive=true'')) GET None x of (res, memory, x) \<Rightarrow>
       if res \<noteq> 0 then Inr ((False, []), x)
       else rbind (parse_reply lib memory) (\<lambda>js_root.
            rbind (rfold add_endpoint (all_wires js_root) []) (\<lambda>endpoints.
              Inr ((endpoints \<noteq> [], endpoints), x))))"

text \<open>
  Building the form: each part is printed behind the one before with the size of the whole
  buffer as its bound. The state is the text so far and the position of the next part,
  which counts characters that did not fit.
\<close>

definition append_part :: "string \<Rightarrow> string \<times> nat \<Rightarrow> (string \<times> nat) result" where
  "append_part s r = (case r of (request, pos) \<Rightarrow>
     if MAX_CONTENT_LENGTH < pos + length (snprintf MAX_CONTENT_LENGTH s) + 1 then Inl BufferOverflow
     else Inr (take pos request @ snprintf MAX_CONTENT_LENGTH s, pos + length s))"

definition set_request :: "string \<Rightarrow> int \<Rightarrow> bool \<Rightarrow> string result" where
  "set_request value ttl prevExist =
     rbind (append_part (''value='' @ value) ([], 0)) (\<lambda>r.
     rbind (if ttl > 0 then append_part ('';ttl='' @ dec_int ttl) r else Inr r) (\<lambda>r.
     rbind (if prevExist then append_part '';prevExist=true'' r else Inr r) (\<lambda>r. Inr (fst r))))"

definition etcd_set ::
    "'x etcd_lib \<Rightarrow> etcd_conn \<Rightarrow> string \<Rightarrow> string \<Rightarrow> int \<Rightarrow> bool \<Rightarrow> 'x \<Rightarrow> (bool \<times> 'x) result" where
  "etcd_set lib c key value ttl prevExist x =
     rbind (set_request value ttl prevExist) (\<lambda>request.
       case performRequest lib (etcd_url c key) PUT (Some request) x of (res, memory, x) \<Rightarrow>
         if res \<noteq> 0 then Inr (False, x)
         else rbind (parse_reply lib memory) (\<lambda>js_root.
           let js_value = json_object_get (json_object_get js_root ''node'') ''value''
           in Inr (json_string_value js_value = Some value, x)))"

definition etcd_del :: "'x etcd_lib \<Rightarrow> etcd_conn \<Rightarrow> string \<Rightarrow> 'x \<Rightarrow> (bool \<times> 'x) result" where
  "etcd_del lib c key x =
     (case performRequest lib (etcd_url c (key @ ''?recursive=true'')) DELETE None x of (res, memory, x) \<Rightarrow>
       if res \<noteq> 0 then Inr (False, x)
       else rbind (parse_reply lib memory) (\<lambda>js_root. Inr (json_object_get js_root ''node'' \<noteq> None, x)))"

text \<open>What a watch left in the caller's variables.\<close>

record watch_result =
  w_action :: cbuf
  w_prevValue :: cbuf
  w_value :: cbuf
  w_rkey :: cbuf
  w_modifiedIndex :: "int option"

definition no_watch :: watch_result where
  "no_watch = \<lparr>w_action = Unset, w_prevValue = Unset, w_value = Unset, w_rkey = Unset, w_modifiedIndex = None\<rparr>"

definition copy_string :: "json option \<Rightarrow> nat \<Rightarrow> cbuf" where
  "copy_string j n = (case json_string_value j of
     None \<Rightarrow> Unset | Some t \<Rightarrow> if length t < n then CStr t else Unterminated (take n t))"

definition watch_path :: "string \<Rightarrow> int \<Rightarrow> string" where
  "watch_path key index =
     key @ ''?wait=true&recursive=true'' @ (if index \<noteq> 0 then ''&waitIndex='' @ dec_int index else [])"

definition etcd_watch ::
    "'x etcd_lib \<Rightarrow> etcd_conn \<Rightarrow> string \<Rightarrow> int \<Rightarrow> 'x \<Rightarrow> ((bool \<times> watch_result) \<times> 'x) result" where
  "etcd_watch lib c key index x =
     (case performRequest lib (etcd_url c (watch_path key index)) GET None x of (res, memory, x) \<Rightarrow>
       if res \<noteq> 0 then Inr ((False, no_watch), x)
       else rbind (parse_reply lib memory) (\<lambda>js_root.
         let js_action = json_object_get js_root ''action'';
             js_node = json_object_get js_root ''node'';
             js_prevValue = json_object_get (json_object_get js_root ''prevNode'') ''value'';
             js_rkey = json_object_get js_node ''key'';
             js_value = json_object_get js_node ''value'';
             js_modIndex = json_object_get js_node ''modifiedIndex'';
             r = \<lparr>w_action = Unset, w_prevValue = copy_string js_prevValue MAX_VALUE_LENGTH,
                  w_value = copy_string js_value MAX_VALUE_LENGTH, w_rkey = Unset,
                  w_modifiedIndex = Some (if json_is_integer js_modIndex
                                          then int_of_long (json_integer_value js_modIndex) else index)\<rparr>
         in if json_is_string js_rkey \<and> json_is_string js_action
            then Inr ((True, r\<lparr>w_rkey := copy_string js_rkey MAX_KEY_LENGTH,
                              w_action := copy_string js_action MAX_ACTION_LENGTH\<rparr>), x)
            else Inr ((False, r), x)))"

section \<open>Correctness\<close>

lemma receive_blocks_concat:
  "(\<And>n. ok n) \<Longrightarrow> receive_blocks ok bs m =
     Some (if bs = [] then m else Some ((case m of None \<Rightarrow> [] | Some t \<Rightarrow> t) @ concat bs))"
  by (induction bs arbitrary: m) (simp_all add: WriteMemoryCallback_def)

lemma performRequest_reply:
  assumes "\<And>n. realloc_ok lib n" "http lib r url d x = ((res, bs), x')"
  shows "performRequest lib url r d x = (res, if bs = [] then None else Some (concat bs), x')"
  using assms by (simp add: performRequest_def receive_blocks_concat)

lemma add_endpoints_spec:
  assumes "\<forall>u\<in>set us. \<exists>k. json_is_object u \<and> json_string_value (json_object_get (Some u) ''key'') = Some k \<and> length k < MAX_KEY_LENGTH"
  shows "rfold add_endpoint us acc =
    (if length us \<le> MAX_NODES - length acc
     then Inr (acc @ map (\<lambda>u. CStr (the (json_string_value (json_object_get (Some u) ''key'')))) us)
     else Inl BufferOverflow)"
  using assms
proof (induction us arbitrary: acc)
  case (Cons u us)
  then obtain k where k: "json_is_object u" "json_string_value (json_object_get (Some u) ''key'') = Some k"
    "length k < MAX_KEY_LENGTH" by auto
  have rest: "rfold add_endpoint us (acc @ [CStr k]) =
    (if length us \<le> MAX_NODES - length (acc @ [CStr k])
     then Inr ((acc @ [CStr k]) @ map (\<lambda>u. CStr (the (json_string_value (json_object_get (Some u) ''key'')))) us)
     else Inl BufferOverflow)"
    using Cons.prems by (intro Cons.IH) auto
  show ?case
  proof (cases "MAX_NODES \<le> length acc")
    case True
    with k show ?thesis by (simp add: add_endpoint_def)
  next
    case False
    with k have "add_endpoint u acc = Inr (acc @ [CStr k])" by (simp add: add_endpoint_def strncpy_def)
    with rest k False show ?thesis by auto
  qed
qed simp

text \<open>
  C38. Listing the published wires: with a well-formed reply the call answers the keys of all
  wires, zone by zone and node by node, as long as there are at most 256 of them; one more
  overruns the caller's array, although the loops allow 256 wires for each of 256 nodes in
  each of 64 zones.
\<close>

theorem etcd_getEndpoints_keys:
  assumes "\<And>n. realloc_ok lib n"
    and "http lib GET (etcd_url c (directory @ ''?recursive=true'')) None x = ((0, bs), x')" "bs \<noteq> []"
    and "json_loads lib (concat bs) = Some root"
    and "\<forall>u\<in>set (all_wires (Some root)). \<exists>k. json_is_object u \<and>
      json_string_value (json_object_get (Some u) ''key'') = Some k \<and> length k < MAX_KEY_LENGTH"
  shows "etcd_getEndpoints lib c directory x =
    (let keys = map (\<lambda>u. CStr (the (json_string_value (json_object_get (Some u) ''key'')))) (all_wires (Some root))
     in if length keys \<le> 256 then Inr ((keys \<noteq> [], keys), x') else Inl BufferOverflow)"
  using performRequest_reply [where lib = lib, OF assms(1,2)] assms(3,4) add_endpoints_spec [OF assms(5), of "[]"]
  by (simp add: etcd_getEndpoints_def parse_reply_def Let_def MAX_NODES_def)

text \<open>A tiny etcd for the witnesses: the answer to every request, and one text it parses.\<close>

definition demo_tree :: json where
  "demo_tree = JObject [(''node'', JObject [(''nodes'', JArray [JObject [(''nodes'', JArray [JObject [(''nodes'',
     JArray [JObject [(''key'', JString ''/r/z/n/w1'')], JObject [(''key'', JString ''/r/z/n/w2'')]])]])]])])]"

definition demo_lib :: "json \<Rightarrow> nat etcd_lib" where
  "demo_lib j = \<lparr>json_loads = (\<lambda>t. if t = ''{}'' then Some j else None),
     http = (\<lambda>r u d x. ((0, [''{'', ''}'']), x + 1)), realloc_ok = (\<lambda>n. True), curl_global_init = True\<rparr>"

definition demo_conn :: etcd_conn where
  "demo_conn = \<lparr>etcd_server = ''etcd'', etcd_port = 4001\<rparr>"

lemma demo_all_wires: "all_wires (Some demo_tree) =
    [JObject [(''key'', JString ''/r/z/n/w1'')], JObject [(''key'', JString ''/r/z/n/w2'')]]"
  by (simp add: all_wires_def zones_of_root_def nodes_of_zone_def wires_of_node_def demo_tree_def json_object_get_def
      json_elements_def MAX_ZONES_def MAX_NODES_def MAX_WIRES_def)

theorem etcd_getEndpoints_keys_witness:
  "etcd_getEndpoints (demo_lib demo_tree) demo_conn ''r'' 0 = Inr ((True, [CStr ''/r/z/n/w1'', CStr ''/r/z/n/w2'']), 1)"
  by (subst etcd_getEndpoints_keys [where bs = "[''{'', ''}'']" and x' = 1 and root = demo_tree])
    (simp_all add: demo_lib_def demo_all_wires json_is_object_def json_object_get_def json_string_value_def
      MAX_KEY_LENGTH_def Let_def)

lemma append_part_fits:
  assumes "length req = pos" "pos + length s < MAX_CONTENT_LENGTH"
  shows "append_part s (req, pos) = Inr (req @ s, length (req @ s))"
  using assms by (simp add: append_part_def snprintf_id)

text \<open>
  Publishing a value of less than 4096 characters (what the writer of endpoint
  descriptions produces) stays inside the request buffer: the form holds the value and the
  time to live in full, it is sent to the key's URL, and the call answers whether the store
  echoes the value.
\<close>

theorem etcd_set_form:
  assumes "length value < 4096" "0 < ttl" "ttl < 2 ^ 31"
    and "\<And>n. realloc_ok lib n"
    and "http lib PUT (etcd_url c key) (Some (''value='' @ value @ '';ttl='' @ dec (nat ttl))) x = ((0, bs), x')" "bs \<noteq> []"
  shows "etcd_set lib c key value ttl False x =
    Inr (json_string_value (json_object_get (json_object_get (json_loads lib (concat bs)) ''node'') ''value'') = Some value, x')"
proof -
  have "nat ttl < 10 ^ 10" using assms(3) by simp
  then have "length (dec (nat ttl)) \<le> 10" by (intro length_dec_le) simp_all
  moreover have "dec_int ttl = dec (nat ttl)" using assms(2) by (simp add: dec_int_def)
  ultimately have req: "set_request value ttl False = Inr (''value='' @ value @ '';ttl='' @ dec (nat ttl))"
    using assms(1,2)
    by (simp add: set_request_def append_part_def snprintf_def MAX_CONTENT_LENGTH_def)
  show ?thesis
    using performRequest_reply [where lib = lib, OF assms(4,5)] assms(6)
    by (simp add: etcd_set_def req [simplified] parse_reply_def Let_def)
qed

theorem etcd_set_form_witness:
  "etcd_set (demo_lib (JObject [(''node'', JObject [(''value'', JString ''v'')])])) demo_conn ''r/z/n/w'' ''v'' 30 False 0 =
   Inr (json_string_value (json_object_get (json_object_get (json_loads (demo_lib (JObject [(''node'',
     JObject [(''value'', JString ''v'')])])) (concat [''{'', ''}''])) ''node'') ''value'') = Some ''v'', 1)"
  by (rule etcd_set_form) (simp_all add: demo_lib_def)

text \<open>
  A watch that returns an event answers the event's key and action, the new value and
  the index of the change, read from the reply; it asks for events after the given index,
  and a reply without an event answers false with the index unchanged.
\<close>

theorem etcd_watch_event:
  assumes "\<And>n. realloc_ok lib n"
    and "http lib GET (etcd_url c (watch_path key index)) None x = ((0, bs), x')" "bs \<noteq> []"
    and "json_loads lib (concat bs) = Some (JObject root)" "map_of root ''action'' = Some (JString action)"
    and "map_of root ''node'' = Some (JObject node)" "map_of node ''key'' = Some (JString rkey)"
    and "map_of node ''value'' = Some (JString value)" "map_of node ''modifiedIndex'' = Some (JInteger i)"
    and "length action < 64" "length rkey < 256" "length value < 4096" "0 \<le> i" "i < 2 ^ 31"
  shows "\<exists>r. etcd_watch lib c key index x = Inr ((True, r), x') \<and> w_action r = CStr action \<and>
    w_rkey r = CStr rkey \<and> w_value r = CStr value \<and> w_modifiedIndex r = Some i"
  using performRequest_reply [where lib = lib, OF assms(1,2)] assms(3-)
  by (simp add: etcd_watch_def parse_reply_def Let_def json_object_get_def json_string_value_def json_is_string_def
      json_is_integer_def json_integer_value_def copy_string_def MAX_ACTION_LENGTH_def MAX_KEY_LENGTH_def
      MAX_VALUE_LENGTH_def int_of_long_id)

definition demo_event :: "(string \<times> json) list" where
  "demo_event = [(''action'', JString ''set''), (''node'', JObject [(''key'', JString ''/r/z/n/w1''),
     (''value'', JString ''a=b''), (''modifiedIndex'', JInteger 12)])]"

theorem etcd_watch_event_witness:
  "\<exists>r. etcd_watch (demo_lib (JObject demo_event)) demo_conn ''r'' 7 0 = Inr ((True, r), 1) \<and> w_action r = CStr ''set'' \<and>
    w_rkey r = CStr ''/r/z/n/w1'' \<and> w_value r = CStr ''a=b'' \<and> w_modifiedIndex r = Some 12"
  by (rule etcd_watch_event [where bs = "[''{'', ''}'']" and root = demo_event and
        node = "[(''key'', JString ''/r/z/n/w1''), (''value'', JString ''a=b''), (''modifiedIndex'', JInteger 12)]"])
    (simp_all add: demo_lib_def demo_event_def)

text \<open>
  The URL of a request names the key in full exactly when the whole URL has at most 255
  characters; a longer one is cut, and addresses another key.
\<close>

theorem etcd_url_exact:
  "let full = ''http://'' @ etcd_server c @ '':'' @ dec_int (etcd_port c) @ ''/v2/keys/'' @ key
   in etcd_url c key = take 255 full \<and> (etcd_url c key = full) = (length full \<le> 255)"
  unfolding etcd_url_def Let_def by (intro conjI) (simp_all only: snprintf_def MAX_URL_LENGTH_def take_all_iff, simp_all)

end
