(* ===== verification/Etcd_Watcher.thy ===== *)
theory Etcd_Watcher
  imports Node_Discovery_Correct Endpoint_Codec Etcd
begin

text \<open>
  \<^verbatim>\<open>node_discovery/private/src/etcd_watcher.c\<close>: the watcher publishes the endpoints of the own
  node in etcd, reads the endpoints of other nodes from there and follows the changes. The
  state of etcd and of the network is the \<open>rest\<close> of the world; the loop of the thread is run
  over the list of what it observes in each round (the lock, the flag, the clock).
\<close>

record 'x ew_env =
  ew_nd :: "'x nd_env"
  ew_lib :: "'x etcd_lib"
  ew_conn :: etcd_conn
  ew_calloc :: "'x world \<Rightarrow> wed_ptr option"
  ew_uuid :: string

abbreviation ew_cx :: "'x ew_env \<Rightarrow> celix" where
  "ew_cx env \<equiv> nd_cx (ew_nd env)"

definition MAX_ROOTNODE_LENGTH :: nat where "MAX_ROOTNODE_LENGTH = 64"
definition MAX_LOCALNODE_LENGTH :: nat where "MAX_LOCALNODE_LENGTH = 4096"

section \<open>Paths\<close>

definition etcdWatcher_getRootPath :: "celix \<Rightarrow> celix_status \<times> cbuf" where
  "etcdWatcher_getRootPath cx =
     (CELIX_SUCCESS,
      let root = (case getProperty_ok cx ''NODE_DISCOVERY_ETCD_ROOT_PATH'' of
                    None \<Rightarrow> ''inaetics/discovery'' | Some p \<Rightarrow> p)
      in if length root < MAX_ROOTNODE_LENGTH then CStr root else Unterminated (take MAX_ROOTNODE_LENGTH root))"

definition rootPath :: "celix \<Rightarrow> string result" where
  "rootPath cx = read_buf (snd (etcdWatcher_getRootPath cx))"

text \<open>The last character of the root path is read; an empty path has none.\<close>

definition etcdWatcher_getLocalNodePath :: "celix \<Rightarrow> node_description \<Rightarrow> string result" where
  "etcdWatcher_getLocalNodePath cx own =
     rbind (rootPath cx) (\<lambda>root.
       case (zoneId own, nodeId own) of
         (Some zone, Some node) \<Rightarrow>
           if root = [] then Inl BufferOverflow
           else if last root = CHR ''/''
           then Inr (snprintf MAX_LOCALNODE_LENGTH (root @ zone @ ''/'' @ node))
           else Inr (snprintf MAX_LOCALNODE_LENGTH (root @ ''/'' @ zone @ ''/'' @ node))
       | _ \<Rightarrow> Inl NullPointer)"

text \<open>
  \<^verbatim>\<open>sscanf(key, "/<root>/%[^/]/%[^/]/%[^/].*", ...)\<close>. A text in the format is matched
  literally, except that white space matches any run of white space and a percent sign
  starts a conversion, for which there are no arguments.
\<close>

fun scan_literal :: "string \<Rightarrow> string \<Rightarrow> string option result" where
  "scan_literal [] s = Inr (Some s)"
| "scan_literal (c # f) s =
     (if c = CHR ''%'' then Inl BadFormat
      else if is_cspace c then scan_literal f (dropWhile is_cspace s)
      else case s of
        [] \<Rightarrow> Inr None
      | d # s' \<Rightarrow> if c = d then scan_literal f s' else Inr None)"

definition scan_field :: "string \<Rightarrow> (string \<times> string) option" where
  "scan_field s =
     (let f = takeWhile (\<lambda>c. c \<noteq> CHR ''/'') s
      in if f = [] then None else Some (f, dropWhile (\<lambda>c. c \<noteq> CHR ''/'') s))"

definition scan_slash :: "string \<Rightarrow> string option" where
  "scan_slash s = (case s of c # s' \<Rightarrow> if c = CHR ''/'' then Some s' else None | [] \<Rightarrow> None)"

definition scan_fields :: "string \<Rightarrow> (string \<times> string \<times> string) option" where
  "scan_fields s =
     Option.bind (scan_field s) (\<lambda>(zone, s).
     Option.bind (scan_slash s) (\<lambda>s.
     Option.bind (scan_field s) (\<lambda>(node, s).
     Option.bind (scan_slash s) (\<lambda>s.
     Option.bind (scan_field s) (\<lambda>(wire, s). Some (zone, node, wire))))))"

definition scan_key :: "string \<Rightarrow> string \<Rightarrow> (string \<times> string \<times> string) option result" where
  "scan_key root key =
     rbind (scan_literal (''/'' @ root @ ''/'') key) (\<lambda>r.
       Inr (case r of None \<Rightarrow> None | Some s \<Rightarrow> scan_fields s))"

section \<open>Publishing the own node\<close>

definition etcd_ttl :: "celix \<Rightarrow> int" where
  "etcd_ttl cx = config_int (getProperty_ok cx ''DISCOVERY_ETCD_TTL'') 30"

definition publish_endpoint ::
    "'x ew_env \<Rightarrow> string \<Rightarrow> wed_ptr \<Rightarrow> 'x world \<Rightarrow> 'x world result" where
  "publish_endpoint env localNodePath d w =
     rbind (wed_deref d w) (\<lambda>p.
     rbind (wiringEndpoint_properties_store p) (\<lambda>(st, stored).
       case (stored, properties_get (ew_cx env) p WIRE_ID_KEY) of
         (Some etcdValue, Some wireId) \<Rightarrow>
           rbind (etcd_set (ew_lib env) (ew_conn env)
                    (snprintf MAX_LOCALNODE_LENGTH (localNodePath @ ''/'' @ wireId)) etcdValue (etcd_ttl (ew_cx env)) False
                    (rest w))
             (\<lambda>(ok, x). Inr (w\<lparr>rest := x\<rparr>))
       | (None, _) \<Rightarrow> Inl Uninitialised
       | (_, None) \<Rightarrow> Inl NullPointer))"

definition etcdWatcher_addOwnNode ::
    "'x ew_env \<Rightarrow> node_description \<Rightarrow> 'x world \<Rightarrow> (celix_status \<times> 'x world) result" where
  "etcdWatcher_addOwnNode env own w =
     rbind (etcdWatcher_getLocalNodePath (ew_cx env) own) (\<lambda>localNodePath.
     rbind (rfold (publish_endpoint env localNodePath) (wiring_ep_descriptions_list own) w) (\<lambda>w.
       Inr (CELIX_SUCCESS, w)))"

section \<open>Reading other nodes\<close>

text \<open>An address in use is no answer of an allocator and counts as a refusal.\<close>

definition ew_alloc :: "'x ew_env \<Rightarrow> 'x world \<Rightarrow> wed_ptr option" where
  "ew_alloc env w =
     (case ew_calloc env w of None \<Rightarrow> None | Some d \<Rightarrow> if weds w d = None then Some d else None)"

definition etcdWatcher_getWiringEndpointFromKey ::
    "'x ew_env \<Rightarrow> string \<Rightarrow> string option \<Rightarrow> 'x world \<Rightarrow>
     (celix_status \<times> node_description option \<times> 'x world) result" where
  "etcdWatcher_getWiringEndpointFromKey env etcdKey etcdValue w =
     rbind (rootPath (ew_cx env)) (\<lambda>root.
     rbind (scan_key root etcdKey) (\<lambda>found.
       case found of
         None \<Rightarrow> Inr (CELIX_ILLEGAL_STATE, None, w)
       | Some (zone, node, wireId) \<Rightarrow>
           (let n = snd (nodeDescription_create (Some node) (Some zone) (Some []))
            in rbind (case etcdValue of
                        None \<Rightarrow> Inr []
                      | Some v \<Rightarrow> rbind (wiringEndpoint_properties_load (ew_cx env) v (Some []))
                                    (\<lambda>(st, q). Inr (case q of Some p \<Rightarrow> p | None \<Rightarrow> []))) (\<lambda>props.
               case ew_alloc env w of
                 None \<Rightarrow> Inr (CELIX_ENOMEM, Some n, w)
               | Some d \<Rightarrow>
                   rbind (wiringEndpointDescription_create (ew_cx env) True (ew_uuid env) (Some wireId) (Some props))
                     (\<lambda>(status, p).
                        Inr (status, Some (n\<lparr>wiring_ep_descriptions_list := [d]\<rparr>),
                             w\<lparr>weds := (weds w)(d := p)\<rparr>))))))"

definition existing_node ::
    "'x ew_env \<Rightarrow> cbuf \<Rightarrow> celix_status \<times> int \<times> node_discovery \<times> 'x world \<Rightarrow>
     (celix_status \<times> int \<times> node_discovery \<times> 'x world) result" where
  "existing_node env keybuf s =
     (case s of (status, highest, nd, w) \<Rightarrow>
       rbind (read_buf keybuf) (\<lambda>key.
       rbind (etcd_get (ew_lib env) (ew_conn env) key (rest w)) (\<lambda>(r, x).
         let w = w\<lparr>rest := x\<rparr> in
         case r of
           None \<Rightarrow> Inr (CELIX_ILLEGAL_STATE, max highest 0, nd, w)
         | Some (value, modIndex) \<Rightarrow>
             rbind (read_buf value) (\<lambda>etcdValue.
             rbind (etcdWatcher_getWiringEndpointFromKey env key (Some etcdValue) w) (\<lambda>(status, n, w).
               case n of
                 None \<Rightarrow> Inl NullPointer
               | Some node \<Rightarrow>
                   rbind (node_discovery_addNode (ew_nd env) node nd w) (\<lambda>(st, nd, w).
                     Inr (status, max highest modIndex, nd, w)))))))"

definition etcdWatcher_addAlreadyExistingNodes ::
    "'x ew_env \<Rightarrow> bool \<Rightarrow> node_discovery \<Rightarrow> 'x world \<Rightarrow> (celix_status \<times> int \<times> node_discovery \<times> 'x world) result" where
  "etcdWatcher_addAlreadyExistingNodes env calloc_ok nd w =
     (if \<not> calloc_ok then Inr (CELIX_ENOMEM, -1, nd, w)
      else rbind (rootPath (ew_cx env)) (\<lambda>root.
           rbind (etcd_getEndpoints (ew_lib env) (ew_conn env) root (rest w)) (\<lambda>((ok, endpoints), x).
             if ok then rfold (existing_node env) endpoints (CELIX_SUCCESS, -1, nd, w\<lparr>rest := x\<rparr>)
             else Inr (CELIX_SUCCESS, -1, nd, w\<lparr>rest := x\<rparr>))))"

section \<open>Following the changes\<close>

definition handle_event ::
    "'x ew_env \<Rightarrow> watch_result \<Rightarrow> node_discovery \<Rightarrow> 'x world \<Rightarrow> (node_discovery \<times> 'x world) result" where
  "handle_event env r nd w =
     rbind (read_buf (w_action r)) (\<lambda>action.
       if action = ''set'' \<or> action = ''create'' \<or> action = ''update''
       then rbind (read_buf (w_rkey r)) (\<lambda>rkey.
            rbind (read_buf (w_value r)) (\<lambda>value.
            rbind (etcdWatcher_getWiringEndpointFromKey env rkey (Some value) w) (\<lambda>(status, n, w).
              if status = CELIX_SUCCESS
              then (case n of
                      None \<Rightarrow> Inl NullPointer
                    | Some node \<Rightarrow> rbind (node_discovery_addNode (ew_nd env) node nd w) (\<lambda>(st, nd, w). Inr (nd, w)))
              else Inr (nd, w))))
       else if action = ''delete'' \<or> action = ''expire''
       then rbind (read_buf (w_rkey r)) (\<lambda>rkey.
            rbind (etcdWatcher_getWiringEndpointFromKey env rkey None w) (\<lambda>(status, n, w).
              if status = CELIX_SUCCESS
              then (case n of
                      None \<Rightarrow> Inl NullPointer
                    | Some node \<Rightarrow> rbind (node_discovery_removeNode (ew_nd env) node nd w) (\<lambda>(st, nd, w). Inr (nd, w)))
              else Inr (nd, w)))
       else Inr (nd, w))"

text \<open>
  What one round observes: the answer of the lock, the flag \<open>running\<close> and the two readings
  of the clock that decide the update and restart the interval.
\<close>

record round =
  rd_lock :: celix_status
  rd_running :: bool
  rd_calloc :: bool
  rd_now :: int
  rd_after :: int

record 'x watch_state =
  ws_highest :: int
  ws_time :: int
  ws_nd :: node_discovery
  ws_world :: "'x world"

definition watch_round :: "'x ew_env \<Rightarrow> string \<Rightarrow> round \<Rightarrow> 'x watch_state \<Rightarrow> 'x watch_state result" where
  "watch_round env root r s =
     rbind (etcd_watch (ew_lib env) (ew_conn env) root (int_of_long (ws_highest s + 1)) (rest (ws_world s)))
       (\<lambda>((event, wr), x).
     rbind (if event
            then rbind (handle_event env wr (ws_nd s) ((ws_world s)\<lparr>rest := x\<rparr>)) (\<lambda>(nd, w).
                   Inr (s\<lparr>ws_nd := nd, ws_world := w,
                          ws_highest := (case w_modifiedIndex wr of Some i \<Rightarrow> i | None \<Rightarrow> ws_highest s)\<rparr>))
            else Inr (s\<lparr>ws_world := (ws_world s)\<lparr>rest := x\<rparr>\<rparr>)) (\<lambda>s.
       if rd_now r - ws_time s > 7
       then rbind (etcdWatcher_addOwnNode env (ownNode (ws_nd s)) (ws_world s)) (\<lambda>(st, w).
            rbind (etcdWatcher_addAlreadyExistingNodes env (rd_calloc r) (ws_nd s) w) (\<lambda>(st, highest, nd, w).
              Inr (s\<lparr>ws_highest := highest, ws_time := rd_after r, ws_nd := nd, ws_world := w\<rparr>)))
       else Inr s))"

text \<open>The rounds until the lock fails or the flag is cleared.\<close>

fun watch_rounds :: "'x ew_env \<Rightarrow> string \<Rightarrow> round list \<Rightarrow> 'x watch_state \<Rightarrow> 'x watch_state result" where
  "watch_rounds env root [] s = Inr s"
| "watch_rounds env root (r # rs) s =
     (if rd_lock r = CELIX_SUCCESS \<and> rd_running r
      then rbind (watch_round env root r s) (watch_rounds env root rs)
      else Inr s)"

definition etcdWatcher_run ::
    "'x ew_env \<Rightarrow> int \<Rightarrow> bool \<Rightarrow> round list \<Rightarrow> node_discovery \<Rightarrow> 'x world \<Rightarrow> 'x watch_state result" where
  "etcdWatcher_run env now calloc_ok rounds nd w =
     rbind (etcdWatcher_addAlreadyExistingNodes env calloc_ok nd w) (\<lambda>(st, highest, nd, w).
     rbind (rootPath (ew_cx env)) (\<lambda>root.
       watch_rounds env root rounds \<lparr>ws_highest = highest, ws_time = now, ws_nd = nd, ws_world = w\<rparr>))"

section \<open>Creating and destroying the watcher\<close>

text \<open>
  \<open>thread_status\<close> are the answers of creating the mutex, locking it, creating the thread
  and unlocking it, in this order. The result carries the connection and whether the
  thread may run.
\<close>

definition etcdWatcher_create ::
    "'x ew_env \<Rightarrow> bool \<Rightarrow> celix_status list \<Rightarrow> node_discovery option \<Rightarrow> 'x world \<Rightarrow>
     (celix_status \<times> etcd_conn option \<times> bool \<times> 'x world) result" where
  "etcdWatcher_create env calloc_ok thread_status node_discovery w =
     (case node_discovery of
        None \<Rightarrow> Inr (CELIX_BUNDLE_EXCEPTION, None, False, w)
      | Some nd \<Rightarrow>
          if \<not> calloc_ok then Inr (CELIX_ENOMEM, None, False, w)
          else (let server = (case getProperty_ok (ew_cx env) ''NODE_DISCOVERY_ETCD_SERVER_IP'' of
                                None \<Rightarrow> ''127.0.0.1'' | Some s \<Rightarrow> s);
                    port = config_int (getProperty_ok (ew_cx env) ''NODE_DISCOVERY_ETCD_SERVER_PORT'') 4001
                in case etcd_init (ew_lib env) server port of
                     (False, conn) \<Rightarrow> Inr (CELIX_BUNDLE_EXCEPTION, Some conn, False, w)
                   | (True, conn) \<Rightarrow>
                       rbind (etcdWatcher_addOwnNode (env\<lparr>ew_conn := conn\<rparr>) (ownNode nd) w) (\<lambda>(st, w).
                         case dropWhile (\<lambda>st. st = CELIX_SUCCESS) thread_status of
                           [] \<Rightarrow> Inr (CELIX_SUCCESS, Some conn, True, w)
                         | st # rest_sts \<Rightarrow>
                             Inr (st, Some conn, length rest_sts = 0 \<and> length thread_status = 4, w))))"

definition etcdWatcher_destroy ::
    "'x ew_env \<Rightarrow> node_description \<Rightarrow> 'x world \<Rightarrow> (celix_status \<times> 'x world) result" where
  "etcdWatcher_destroy env own w =
     rbind (etcdWatcher_getLocalNodePath (ew_cx env) own) (\<lambda>localNodePath.
     rbind (etcd_del (ew_lib env) (ew_conn env) localNodePath (rest w)) (\<lambda>(ok, x).
       Inr (CELIX_SUCCESS, w\<lparr>rest := x\<rparr>)))"

text \<open>Starting the discovery creates the watcher.\<close>

definition node_discovery_start ::
    "'x ew_env \<Rightarrow> bool \<Rightarrow> celix_status list \<Rightarrow> node_discovery \<Rightarrow> 'x world \<Rightarrow>
     (celix_status \<times> etcd_conn option \<times> bool \<times> 'x world) result" where
  "node_discovery_start env calloc_ok thread_status nd w = etcdWatcher_create env calloc_ok thread_status (Some nd) w"

end
