(* ===== verification/Etcd_Watcher_Correct.thy ===== *)
theory Etcd_Watcher_Correct
  imports Etcd_Watcher
begin

text \<open>
  Correctness of the watcher: the keys it writes are the keys it reads, events reach the discovery, and the
  discovery with its watcher is a listener that keeps the wires.
\<close>

section \<open>Keys\<close>

text \<open>A name that is a path component, and a root path the format text can hold.\<close>

definition path_name :: "string \<Rightarrow> bool" where
  "path_name s \<longleftrightarrow> s \<noteq> [] \<and> CHR ''/'' \<notin> set s"

definition plain_root :: "string \<Rightarrow> bool" where
  "plain_root s \<longleftrightarrow> s \<noteq> [] \<and> (\<forall>c\<in>set s. c \<noteq> CHR ''%'' \<and> \<not> is_cspace c)"

lemma slash_plain [simp]: "\<not> is_cspace CHR ''/''"
  by (simp add: is_cspace_def)

lemma scan_literal_append:
  "\<forall>c\<in>set f. c \<noteq> CHR ''%'' \<and> \<not> is_cspace c \<Longrightarrow> scan_literal f (f @ s) = Inr (Some s)"
  by (induction f) auto

lemma scan_literal_skip:
  "\<forall>c\<in>set f. c \<noteq> CHR ''%'' \<and> \<not> is_cspace c \<Longrightarrow> scan_literal (f @ g) (f @ s) = scan_literal g s"
  by (induction f) auto

lemma scan_field_name:
  "path_name n \<Longrightarrow> scan_field (n @ CHR ''/'' # s) = Some (n, CHR ''/'' # s)"
  "path_name n \<Longrightarrow> scan_field n = Some (n, [])"
proof -
  assume n: "path_name n"
  then have all: "\<forall>c\<in>set n. c \<noteq> CHR ''/''" by (auto simp: path_name_def)
  then have t: "takeWhile (\<lambda>c. c \<noteq> CHR ''/'') (n @ CHR ''/'' # s) = n"
    "dropWhile (\<lambda>c. c \<noteq> CHR ''/'') (n @ CHR ''/'' # s) = CHR ''/'' # s"
    "takeWhile (\<lambda>c. c \<noteq> CHR ''/'') n = n" "dropWhile (\<lambda>c. c \<noteq> CHR ''/'') n = []"
    by (simp_all add: takeWhile_append2 dropWhile_append2 takeWhile_eq_all_conv)
  show "scan_field (n @ CHR ''/'' # s) = Some (n, CHR ''/'' # s)" "scan_field n = Some (n, [])"
    unfolding scan_field_def Let_def t using n by (simp_all add: path_name_def)
qed

lemma scan_key_parts:
  assumes "plain_root root" "path_name zone" "path_name node" "path_name wire"
  shows "scan_key root (''/'' @ root @ ''/'' @ zone @ ''/'' @ node @ ''/'' @ wire) = Inr (Some (zone, node, wire))"
proof -
  have "\<forall>c\<in>set (''/'' @ root @ ''/''). c \<noteq> CHR ''%'' \<and> \<not> is_cspace c"
    using assms(1) by (auto simp: plain_root_def)
  from scan_literal_append [OF this, of "zone @ ''/'' @ node @ ''/'' @ wire"]
  show ?thesis
    using assms(2-4) by (simp add: scan_key_def scan_fields_def scan_field_name scan_slash_def)
qed

text \<open>The key under which a wire of the own node is published; etcd reports it with a leading slash.\<close>

lemma localNodePath_plain:
  assumes "rootPath cx = Inr root" "root \<noteq> []" "last root \<noteq> CHR ''/''"
    and "zoneId n = Some zone" "nodeId n = Some node" "length root + length zone + length node < 4000"
  shows "etcdWatcher_getLocalNodePath cx n = Inr (root @ ''/'' @ zone @ ''/'' @ node)"
  using assms by (simp add: etcdWatcher_getLocalNodePath_def snprintf_def MAX_LOCALNODE_LENGTH_def)

lemma getWiringEndpointFromKey_ok:
  assumes "rootPath (ew_cx env) = Inr root" "scan_key root key = Inr (Some (zone, node, wire))"
    and "wiringEndpoint_properties_load (ew_cx env) v (Some []) = Inr (CELIX_SUCCESS, Some q)"
    and "map_of q WIRE_ID_KEY = Some wire" "ew_alloc env w = Some d"
  shows "etcdWatcher_getWiringEndpointFromKey env key (Some v) w =
    Inr (CELIX_SUCCESS, Some \<lparr>nodeId = Some node, zoneId = Some zone, node_properties = [],
      wiring_ep_descriptions_list = [d]\<rparr>, w\<lparr>weds := (weds w)(d \<mapsto> q)\<rparr>)"
  using assms
  by (simp add: etcdWatcher_getWiringEndpointFromKey_def nodeDescription_create_def Let_def
      wiringEndpointDescription_create_def properties_get_map_of)

definition demo_ew_cx :: celix where
  "demo_ew_cx = celix0\<lparr>bundleContext_getProperty := (\<lambda>k. (CELIX_SUCCESS, None))\<rparr>"

definition demo_ew :: "nat ew_env" where
  "demo_ew = \<lparr>ew_nd = demo_nd_env\<lparr>nd_cx := demo_ew_cx\<rparr>, ew_lib = demo_lib demo_tree, ew_conn = demo_conn,
     ew_calloc = (\<lambda>w. Some 9), ew_uuid = ''u''\<rparr>"

lemma demo_rootPath: "rootPath (ew_cx demo_ew) = Inr ''inaetics/discovery''"
  by (simp add: rootPath_def etcdWatcher_getRootPath_def demo_ew_def demo_ew_cx_def getProperty_ok_def
      MAX_ROOTNODE_LENGTH_def read_buf_def)

lemma demo_plain_root: "plain_root ''inaetics/discovery''"
  by (simp add: plain_root_def is_cspace_def)

lemmas path_simps = path_name_def plain_root_def is_cspace_def

lemma scan_literal_mismatch:
  assumes "c \<noteq> CHR ''%''" "\<not> is_cspace c" "s \<noteq> []" "hd s \<noteq> c"
  shows "scan_literal (c # f) s = Inr None"
  using assms by (cases s) auto

text \<open>
  With a root path that ends in a slash nothing is discovered: the publisher leaves out
  the second slash, the reader demands it, so the keys the own node publishes are refused.
\<close>

theorem trailing_slash_not_discovered:
  assumes "rootPath (ew_cx env) = Inr (root @ ''/'')" "plain_root root"
    and "zoneId own = Some zone" "nodeId own = Some node" "path_name zone"
    and "length root + length zone + length node + length wire < 3900"
  shows "\<exists>path. etcdWatcher_getLocalNodePath (ew_cx env) own = Inr path \<and>
    etcdWatcher_getWiringEndpointFromKey env (''/'' @ snprintf MAX_LOCALNODE_LENGTH (path @ ''/'' @ wire)) v w =
      Inr (CELIX_ILLEGAL_STATE, None, w)"
proof -
  have path: "etcdWatcher_getLocalNodePath (ew_cx env) own = Inr (root @ ''/'' @ zone @ ''/'' @ node)"
    using assms by (simp add: etcdWatcher_getLocalNodePath_def snprintf_def MAX_LOCALNODE_LENGTH_def)
  have plain: "\<forall>c\<in>set (''/'' @ root @ ''/''). c \<noteq> CHR ''%'' \<and> \<not> is_cspace c"
    using assms(2) by (auto simp: plain_root_def)
  have "zone @ ''/'' @ node @ ''/'' @ wire \<noteq> []" "hd (zone @ ''/'' @ node @ ''/'' @ wire) \<noteq> CHR ''/''"
    using assms(5) by (cases zone; auto simp: path_name_def)+
  then have "scan_literal ''/'' (zone @ ''/'' @ node @ ''/'' @ wire) = Inr None"
    by (intro scan_literal_mismatch) simp_all
  then have "scan_literal ((''/'' @ root @ ''/'') @ ''/'') ((''/'' @ root @ ''/'') @ zone @ ''/'' @ node @ ''/'' @ wire) = Inr None"
    using scan_literal_skip [OF plain] by simp
  then have "scan_key (root @ ''/'') (''/'' @ root @ ''/'' @ zone @ ''/'' @ node @ ''/'' @ wire) = Inr None"
    by (simp add: scan_key_def)
  then show ?thesis
    using path assms(1,6)
    by (simp add: etcdWatcher_getWiringEndpointFromKey_def snprintf_def MAX_LOCALNODE_LENGTH_def)
qed

theorem trailing_slash_not_discovered_witness:
  "\<exists>path. etcdWatcher_getLocalNodePath (ew_cx (demo_ew\<lparr>ew_nd := demo_nd_env\<lparr>nd_cx := demo_ew_cx\<lparr>bundleContext_getProperty :=
       (\<lambda>k. (CELIX_SUCCESS, Some ''r/''))\<rparr>\<rparr>\<rparr>)) (demo_node []) = Inr path \<and>
    etcdWatcher_getWiringEndpointFromKey (demo_ew\<lparr>ew_nd := demo_nd_env\<lparr>nd_cx := demo_ew_cx\<lparr>bundleContext_getProperty :=
       (\<lambda>k. (CELIX_SUCCESS, Some ''r/''))\<rparr>\<rparr>\<rparr>)
      (''/'' @ snprintf MAX_LOCALNODE_LENGTH (path @ ''/'' @ ''w1'')) None demo_nd_world =
      Inr (CELIX_ILLEGAL_STATE, None, demo_nd_world)"
  by (rule trailing_slash_not_discovered [where root = "''r''" and zone = "''z''" and node = "''n1''"])
    (simp_all add: path_simps demo_node_def rootPath_def etcdWatcher_getRootPath_def getProperty_ok_def
      MAX_ROOTNODE_LENGTH_def read_buf_def)

section \<open>Events\<close>

text \<open>A well-formed key of the configured tree.\<close>

definition wire_key :: "'x ew_env \<Rightarrow> string \<Rightarrow> string \<Rightarrow> string \<Rightarrow> string \<Rightarrow> bool" where
  "wire_key env key zone node wire \<longleftrightarrow>
     (\<exists>root. rootPath (ew_cx env) = Inr root \<and> scan_key root key = Inr (Some (zone, node, wire)))"

lemma removeRequest_node:
  assumes "wire_key env key zone node wire" "ew_alloc env w = Some d"
  shows "\<exists>p. etcdWatcher_getWiringEndpointFromKey env key None w =
    Inr (CELIX_SUCCESS, Some \<lparr>nodeId = Some node, zoneId = Some zone, node_properties = [],
      wiring_ep_descriptions_list = [d]\<rparr>, w\<lparr>weds := (weds w)(d \<mapsto> p)\<rparr>) \<and> map_of p WIRE_ID_KEY = Some wire"
  using assms
  by (auto simp: wire_key_def etcdWatcher_getWiringEndpointFromKey_def nodeDescription_create_def Let_def
      wiringEndpointDescription_create_def properties_get_map_of properties_set_map_of)

text \<open>
  A delete or expire event for a wire of a known node withdraws exactly the node's
  endpoints with that wire id; the other endpoints of the node stay.
\<close>

theorem delete_event_withdraws:
  assumes "listeners_ok (ew_nd env)" "celixThreadMutex_lock (ew_cx env) ''discoveredNodesMutex'' = CELIX_SUCCESS"
    and "w_action r = CStr ''delete'' \<or> w_action r = CStr ''expire''" "w_rkey r = CStr key"
    and "wire_key env key zone node wire" "ew_alloc env w = Some d"
    and "map_of (discoveredNodes nd) node = Some old" "d \<notin> set (wiring_ep_descriptions_list old)"
    and "\<forall>e\<in>set (wiring_ep_descriptions_list old). wireId_of (ew_cx env) w e \<noteq> None"
    and "handle_event env r nd w = Inr (nd', w')" "distinct (map fst (discoveredNodes nd))"
  shows "map_of (discoveredNodes nd') = (map_of (discoveredNodes nd))(node \<mapsto> old\<lparr>wiring_ep_descriptions_list :=
    filter (\<lambda>e. wireId_of (ew_cx env) w e \<noteq> Some wire) (wiring_ep_descriptions_list old)\<rparr>)"
proof -
  obtain p where req: "etcdWatcher_getWiringEndpointFromKey env key None w =
      Inr (CELIX_SUCCESS, Some \<lparr>nodeId = Some node, zoneId = Some zone, node_properties = [],
        wiring_ep_descriptions_list = [d]\<rparr>, w\<lparr>weds := (weds w)(d \<mapsto> p)\<rparr>)" "map_of p WIRE_ID_KEY = Some wire"
    using removeRequest_node [OF assms(5,6)] by blast
  let ?w = "w\<lparr>weds := (weds w)(d \<mapsto> p)\<rparr>" and ?n = "\<lparr>nodeId = Some node, zoneId = Some zone, node_properties = [],
        wiring_ep_descriptions_list = [d]\<rparr>"
  let ?f = "wireId_of (ew_cx env) ?w"
  have fd: "?f d = Some wire" using req(2) by (simp add: wireId_of_def properties_get_map_of)
  have fo: "?f e = wireId_of (ew_cx env) w e" if "e \<in> set (wiring_ep_descriptions_list old)" for e
    using that assms(8) by (auto simp: wireId_of_def)
  obtain st where rm: "node_discovery_removeNode (ew_nd env) ?n nd ?w = Inr (st, nd', w')"
    using assms(3,4,10) req(1) by (auto simp: handle_event_def read_buf_def rbind_eq_Inr)
  let ?l = "filter (\<lambda>e. ?f e \<notin> ?f ` {d}) (wiring_ep_descriptions_list old)"
  have "nd' = nd\<lparr>discoveredNodes := hashMap_replace (string_same (ew_cx env)) node
      (old\<lparr>wiring_ep_descriptions_list := ?l\<rparr>) (discoveredNodes nd)\<rparr>"
    using rm removeNode_result [OF assms(1,2), of ?n node nd old ?w] assms(7,9) fd fo by (auto simp: Inr_eq_rbind)
  moreover have "?l = filter (\<lambda>e. wireId_of (ew_cx env) w e \<noteq> Some wire) (wiring_ep_descriptions_list old)"
    using fd fo by (intro filter_cong) auto
  moreover have "node \<in> fst ` set (discoveredNodes nd)" using assms(7) by (force dest: map_of_SomeD)
  ultimately show ?thesis by (simp add: smap.replace_map_of)
qed

theorem delete_event_withdraws_witness:
  "map_of (discoveredNodes (demo_nd\<lparr>discoveredNodes := [(''n1'', demo_node [])]\<rparr>)) =
    (map_of (discoveredNodes demo_nd))(''n1'' \<mapsto> (demo_node [1])\<lparr>wiring_ep_descriptions_list :=
      filter (\<lambda>e. wireId_of (ew_cx demo_ew) demo_nd_world e \<noteq> Some ''a'') (wiring_ep_descriptions_list (demo_node [1]))\<rparr>)"
proof (rule delete_event_withdraws [where env = demo_ew and r = "no_watch\<lparr>w_action := CStr ''expire'',
      w_rkey := CStr ''/inaetics/discovery/z/n1/a''\<rparr>" and key = "''/inaetics/discovery/z/n1/a''" and d = 9 and
      zone = "''z''" and w' = "\<lparr>weds = (weds demo_nd_world)(9 \<mapsto> [(WIRE_ID_KEY, ''a'')]), rest = 0 - 1\<rparr>"])
  show "listeners_ok (ew_nd demo_ew)"
    using quiet.listener_contract_axioms by (auto simp: listeners_ok_def demo_ew_def demo_nd_env_def)
  have scan: "scan_key ''inaetics/discovery'' ''/inaetics/discovery/z/n1/a'' = Inr (Some (''z'', ''n1'', ''a''))"
    using scan_key_parts [OF demo_plain_root, of "''z''" "''n1''" "''a''"] by (simp add: path_name_def)
  show "wire_key demo_ew ''/inaetics/discovery/z/n1/a'' ''z'' ''n1'' ''a''"
    using demo_rootPath scan by (simp add: wire_key_def)
  show "handle_event demo_ew (no_watch\<lparr>w_action := CStr ''expire'', w_rkey := CStr ''/inaetics/discovery/z/n1/a''\<rparr>)
      demo_nd demo_nd_world = Inr (demo_nd\<lparr>discoveredNodes := [(''n1'', demo_node [])]\<rparr>,
        \<lparr>weds = (weds demo_nd_world)(9 \<mapsto> [(WIRE_ID_KEY, ''a'')]), rest = 0 - 1\<rparr>)"
    using demo_rootPath scan
    by (simp add: handle_event_def read_buf_def etcdWatcher_getWiringEndpointFromKey_def nodeDescription_create_def
        demo_ew_def demo_ew_cx_def demo_nd_defs ew_alloc_def wiringEndpointDescription_create_def
        node_discovery_removeNode_def remove_wep_def wire_of_def wed_deref_def str_equal_def inform_def
        node_discovery_informWiringEndpointListeners_def inform_listener_def quiet_listener_def properties_set_def
        properties_get_def hashMap_get_def hashMap_put_def hashMap_containsKey_def insert_at_def string_same_def
        same_key_def)
qed (simp_all add: demo_ew_def demo_ew_cx_def demo_nd_defs wireId_of_def properties_get_map_of ew_alloc_def)

section \<open>The discovery as a listener\<close>

text \<open>The discovery with its watcher, as the service struct its activator registers.\<close>

definition wired_nd :: "'x ew_env \<Rightarrow> 'x nd_env" where
  "wired_nd env = (ew_nd env)\<lparr>nd_addOwnNode := (\<lambda>own w. rbind (etcdWatcher_addOwnNode env own w) (\<lambda>(st, w). Inr w))\<rparr>"

definition on_discovery ::
    "(node_discovery \<Rightarrow> 'x world \<Rightarrow> (celix_status \<times> node_discovery \<times> 'x world) result) \<Rightarrow>
     (node_discovery \<times> 'x) world \<Rightarrow> (celix_status \<times> (node_discovery \<times> 'x) world) result" where
  "on_discovery f W =
     rbind (f (fst (rest W)) \<lparr>weds = weds W, rest = snd (rest W)\<rparr>)
       (\<lambda>(st, nd, w). Inr (st, \<lparr>weds = weds w, rest = (nd, rest w)\<rparr>))"

definition discovery_listener :: "'x ew_env \<Rightarrow> (node_discovery \<times> 'x) wiring_endpoint_listener" where
  "discovery_listener env =
     \<lparr>wiringEndpointAdded = (\<lambda>d s. on_discovery (node_discovery_wiringEndpointAdded (wired_nd env) d)),
      wiringEndpointRemoved = (\<lambda>d s. on_discovery (node_discovery_wiringEndpointRemoved (wired_nd env) d))\<rparr>"

lemma publish_endpoint_weds:
  assumes "publish_endpoint env path d w = Inr w'"
  shows "weds w' = weds w"
proof -
  obtain p where p: "wed_deref d w = Inr p" using assms by (auto simp: publish_endpoint_def rbind_eq_Inr)
  obtain st v where v: "wiringEndpoint_properties_store p = Inr (st, v)"
    using assms p by (auto simp: publish_endpoint_def rbind_eq_Inr)
  show ?thesis
    using assms p v
    by (cases v; cases "properties_get (ew_cx env) p WIRE_ID_KEY") (auto simp: publish_endpoint_def rbind_eq_Inr)
qed

lemma addOwnNode_weds:
  assumes "etcdWatcher_addOwnNode env own w = Inr (st, w')"
  shows "weds w' = weds w"
proof -
  obtain path where "rfold (publish_endpoint env path) (wiring_ep_descriptions_list own) w = Inr w'"
    using assms by (auto simp: etcdWatcher_addOwnNode_def rbind_eq_Inr)
  then show ?thesis
    by (rule rfold_invariant) (auto dest: publish_endpoint_weds)
qed

lemma own_added_weds:
  "node_discovery_wiringEndpointAdded (wired_nd env) d nd w = Inr (st, nd', w') \<Longrightarrow> weds w' = weds w"
  by (auto simp: node_discovery_wiringEndpointAdded_def wired_nd_def rbind_eq_Inr Let_def
      split: if_splits dest: addOwnNode_weds)

lemma own_removed_weds:
  "node_discovery_wiringEndpointRemoved env d nd w = Inr (st, nd', w') \<Longrightarrow> weds w' = weds w"
  by (auto simp: node_discovery_wiringEndpointRemoved_def rbind_eq_Inr)

interpretation discovery: listener_contract cx "discovery_listener env" for cx env
  by unfold_locales
    (auto simp: discovery_listener_def on_discovery_def rbind_eq_Inr
      intro!: wires_kept_weds dest: own_added_weds own_removed_weds)

end
