(* ===== verification/Node.thy ===== *)
theory Node
  imports Topology_Correct Wiring_Admin_Correct Etcd_Watcher_Correct Trust_Properties
begin

text \<open>
  A node: the topology manager with the wiring admin as its admin and the node discovery as
  its listener, over one world that holds the states of both and of the outside. The bundles
  find each other through the service registry; here the references resolve to the services
  of the model.
\<close>

section \<open>Services over the state of a node\<close>

type_synonym 'x node_state = "wiring_admin \<times> node_discovery \<times> 'x"

definition on_admin :: "'x node_state world \<Rightarrow> wiring_admin world" where
  "on_admin W = \<lparr>weds = weds W, rest = fst (rest W)\<rparr>"

definition admin_done :: "'x node_state world \<Rightarrow> wiring_admin world \<Rightarrow> 'x node_state world" where
  "admin_done W w = \<lparr>weds = weds w, rest = (rest w, snd (rest W))\<rparr>"

definition node_admin :: "wa_env \<Rightarrow> 'x node_state wiring_admin_service" where
  "node_admin env = (let S = wa_service env in \<lparr>
     exportWiringEndpoint = (\<lambda>W. rbind (exportWiringEndpoint S (on_admin W)) (\<lambda>(st, e, w). Inr (st, e, admin_done W w))),
     removeExportedWiringEndpoint = (\<lambda>d W. rbind (removeExportedWiringEndpoint S d (on_admin W)) (\<lambda>(st, w). Inr (st, admin_done W w))),
     getWiringAdminProperties = (\<lambda>W. getWiringAdminProperties S (on_admin W)),
     importWiringEndpoint = (\<lambda>d W. rbind (importWiringEndpoint S d (on_admin W)) (\<lambda>(st, w). Inr (st, admin_done W w))),
     removeImportedWiringEndpoint = (\<lambda>d W. rbind (removeImportedWiringEndpoint S d (on_admin W)) (\<lambda>(st, w). Inr (st, admin_done W w)))\<rparr>)"

definition node_call ::
    "((node_discovery \<times> 'x) world \<Rightarrow> (celix_status \<times> (node_discovery \<times> 'x) world) result) \<Rightarrow>
     'x node_state world \<Rightarrow> (celix_status \<times> 'x node_state world) result" where
  "node_call f W =
     rbind (f \<lparr>weds = weds W, rest = snd (rest W)\<rparr>)
       (\<lambda>(st, w). Inr (st, \<lparr>weds = weds w, rest = (fst (rest W), rest w)\<rparr>))"

definition node_listener :: "'x ew_env \<Rightarrow> 'x node_state wiring_endpoint_listener" where
  "node_listener env = (let L = discovery_listener env in
     \<lparr>wiringEndpointAdded = (\<lambda>d s. node_call (wiringEndpointAdded L d s)),
      wiringEndpointRemoved = (\<lambda>d s. node_call (wiringEndpointRemoved L d s))\<rparr>)"

definition node_env :: "wa_env \<Rightarrow> 'x ew_env \<Rightarrow> 'x node_state wtm_env" where
  "node_env wenv eenv = \<lparr>wtm_cx = ew_cx eenv, wtm_admin = (\<lambda>wa. node_admin wenv),
     wtm_getService = (\<lambda>ref. (CELIX_SUCCESS, node_listener eenv))\<rparr>"

lemma on_admin_weds [simp]: "weds (on_admin W) = weds W"
  by (simp add: on_admin_def)

lemma admin_done_weds [simp]: "weds (admin_done W w) = weds w"
  by (simp add: admin_done_def)

interpretation node_admin: wiring_admin_contract "node_admin env" for env
proof unfold_locales
  fix w w' :: "'a node_state world" and e
  assume "exportWiringEndpoint (node_admin env) w = Inr (CELIX_SUCCESS, e, w')"
  then obtain v where v: "exportWiringEndpoint (wa_service env) (on_admin w) = Inr (CELIX_SUCCESS, e, v)" "w' = admin_done w v"
    by (auto simp: node_admin_def rbind_eq_Inr Let_def)
  show "\<exists>d p. e = Some d \<and> weds w d = None \<and> weds w' = (weds w)(d \<mapsto> p) \<and> map_of p WIRE_ID_KEY \<noteq> None"
    using wa.export_fresh [OF v(1)] v(2) by simp
qed (auto simp: node_admin_def rbind_eq_Inr Let_def
    dest: wa.import_weds wa.removeImported_weds wa.removeExported_weds)

lemma wires_kept_rest:
  "wires_kept cx \<lparr>weds = a, rest = x\<rparr> \<lparr>weds = b, rest = y\<rparr> \<Longrightarrow> wires_kept cx \<lparr>weds = a, rest = x'\<rparr> \<lparr>weds = b, rest = y'\<rparr>"
  by (simp add: wires_kept_def wireId_of_def)

lemma node_call_keeps:
  assumes "node_call f W = Inr (st, W')"
    and "\<And>w st w'. f w = Inr (st, w') \<Longrightarrow> wires_kept cx w w'"
  shows "wires_kept cx W W'"
proof -
  obtain w where w: "f \<lparr>weds = weds W, rest = snd (rest W)\<rparr> = Inr (st, w)"
      "W' = \<lparr>weds = weds w, rest = (fst (rest W), rest w)\<rparr>"
    using assms(1) by (auto simp: node_call_def rbind_eq_Inr)
  show ?thesis
    using assms(2) [OF w(1)] w(2) by (cases W; cases w) (auto intro: wires_kept_rest)
qed

interpretation node_listener: listener_contract cx "node_listener env" for cx env
  by unfold_locales (auto simp: node_listener_def Let_def
    dest!: node_call_keeps [where cx = cx] intro: discovery.added_keeps discovery.removed_keeps)

section \<open>Publishing\<close>

text \<open>The store answers every request with an error or with a reply that is not empty.\<close>

definition store_answers :: "'x etcd_lib \<Rightarrow> bool" where
  "store_answers lib \<longleftrightarrow> (\<forall>r u b x. fst (performRequest lib u r b x) = 0 \<longrightarrow> fst (snd (performRequest lib u r b x)) \<noteq> None)"

definition publishable :: "properties \<Rightarrow> bool" where
  "publishable q \<longleftrightarrow> map_of q WIRE_ID_KEY \<noteq> None \<and>
     (\<exists>st v. wiringEndpoint_properties_store q = Inr (st, Some v) \<and> length v < 4096)"

lemma int_of_long_bound: "int_of_long v < 2 ^ 31"
  using sint_lt [of "word_of_int v :: 32 word"] by (simp add: int_of_long_def)

lemma etcd_ttl_bound: "etcd_ttl cx < 2 ^ 31"
  using int_of_long_bound by (simp add: etcd_ttl_def config_int_def split: option.split prod.split)

lemma set_request_fits:
  assumes "length v < 4096" "ttl < 2 ^ 31"
  shows "\<exists>r. set_request v ttl False = Inr r"
proof (cases "0 < ttl")
  case True
  have "nat ttl < 10 ^ 10" using assms(2) by simp
  then have "length (dec (nat ttl)) \<le> 10" by (intro length_dec_le) simp_all
  moreover have "dec_int ttl = dec (nat ttl)" using True by (simp add: dec_int_def)
  ultimately show ?thesis using assms(1) True
    by (simp add: set_request_def append_part_def snprintf_def MAX_CONTENT_LENGTH_def)
next
  case False
  then show ?thesis using assms(1)
    by (simp add: set_request_def append_part_def snprintf_def MAX_CONTENT_LENGTH_def)
qed

lemma etcd_set_returns:
  assumes "store_answers lib" "length v < 4096" "ttl < 2 ^ 31"
  shows "\<exists>ok x'. etcd_set lib c k v ttl False x = Inr (ok, x')"
proof -
  obtain r where r: "set_request v ttl False = Inr r" using set_request_fits [OF assms(2,3)] by blast
  obtain res memory x' where p: "performRequest lib (etcd_url c k) PUT (Some r) x = (res, memory, x')"
    by (cases "performRequest lib (etcd_url c k) PUT (Some r) x")
  then have "res = 0 \<longrightarrow> memory \<noteq> None"
    using assms(1) unfolding store_answers_def by (metis fst_conv snd_conv)
  then show ?thesis using r p by (auto simp: etcd_set_def parse_reply_def Let_def)
qed

lemma publish_returns:
  assumes "store_answers (ew_lib env)" "weds w d = Some q" "publishable q"
  shows "\<exists>x. publish_endpoint env path d w = Inr (w\<lparr>rest := x\<rparr>)"
proof -
  obtain wid st v where q: "map_of q WIRE_ID_KEY = Some wid" "wiringEndpoint_properties_store q = Inr (st, Some v)"
      "length v < 4096" using assms(3) by (auto simp: publishable_def)
  obtain ok x where "etcd_set (ew_lib env) (ew_conn env) (snprintf MAX_LOCALNODE_LENGTH (path @ ''/'' @ wid)) v
      (etcd_ttl (ew_cx env)) False (rest w) = Inr (ok, x)"
    using etcd_set_returns [OF assms(1) q(3) etcd_ttl_bound] by blast
  then show ?thesis using assms(2) q(1,2)
    by (intro exI [of _ x]) (simp add: publish_endpoint_def wed_deref_def properties_get_map_of)
qed

lemma publish_all:
  assumes "store_answers (ew_lib env)" "\<forall>d \<in> set l. \<exists>q. weds w d = Some q \<and> publishable q"
  shows "\<exists>x. rfold (publish_endpoint env path) l w = Inr (w\<lparr>rest := x\<rparr>)"
  using assms(2)
proof (induction l arbitrary: w)
  case Nil
  show ?case by (intro exI [of _ "rest w"]) simp
next
  case (Cons d l)
  then obtain q where "weds w d = Some q" "publishable q" by auto
  then obtain x where x: "publish_endpoint env path d w = Inr (w\<lparr>rest := x\<rparr>)"
    using publish_returns [OF assms(1)] by blast
  moreover obtain y where "rfold (publish_endpoint env path) l (w\<lparr>rest := x\<rparr>) = Inr (w\<lparr>rest := x\<rparr>\<lparr>rest := y\<rparr>)"
    using Cons.IH [of "w\<lparr>rest := x\<rparr>"] Cons.prems by auto
  ultimately show ?case by (intro exI [of _ y]) simp
qed

section \<open>From the topology manager to the store\<close>

text \<open>
  What has to hold of the node before an export: a running admin with an exported wire, a
  framework whose calls succeed, a listener scope that admits every endpoint, and an own
  node whose endpoints can be published.
\<close>

definition node_ready ::
    "wa_env \<Rightarrow> 'x ew_env \<Rightarrow> service_reference \<Rightarrow> string \<Rightarrow> wed_ptr \<Rightarrow> string \<Rightarrow> 'x node_state world \<Rightarrow> bool" where
  "node_ready wenv eenv ref u d path W \<longleftrightarrow>
     framework_ok wenv u \<and> wiringReceiveTracker (fst (rest W)) \<noteq> [] \<and>
     heap_calloc wenv \<lparr>weds = weds W, rest = lockE (fst (rest W))\<rparr> = Some d \<and>
     (\<forall>l. celixThreadMutex_lock (ew_cx eenv) l = CELIX_SUCCESS \<and> celixThreadMutex_unlock (ew_cx eenv) l = CELIX_SUCCESS) \<and>
     (\<forall>q. filter_match (ew_cx eenv) (serviceReference_getProperty (ew_cx eenv) ref INAETICS_WIRING_ENDPOINT_LISTENER_SCOPE) q) \<and>
     store_answers (ew_lib eenv) \<and>
     etcdWatcher_getLocalNodePath (ew_cx eenv) (ownNode (fst (snd (rest W)))) = Inr path \<and>
     (\<forall>e \<in> set (wiring_ep_descriptions_list (ownNode (fst (snd (rest W))))).
        \<exists>q. weds W e = Some q \<and> publishable q \<and>
          map_of q WIRE_ID_KEY \<noteq> Some (wa_uuid wenv \<lparr>weds = weds W, rest = lockE (fst (rest W))\<rparr>))"

definition own_with :: "node_discovery \<Rightarrow> wed_ptr \<Rightarrow> node_discovery" where
  "own_with nd d = nd\<lparr>ownNode := (ownNode nd)\<lparr>wiring_ep_descriptions_list :=
     wiring_ep_descriptions_list (ownNode nd) @ [d]\<rparr>\<rparr>"

lemma localNodePath_own: "etcdWatcher_getLocalNodePath cx (n\<lparr>wiring_ep_descriptions_list := l\<rparr>) = etcdWatcher_getLocalNodePath cx n"
  by (simp add: etcdWatcher_getLocalNodePath_def)

text \<open>The discovery learns of an endpoint with a new wire id: the own node grows and is published.\<close>

lemma listener_publishes:
  assumes "\<forall>l. celixThreadMutex_lock (ew_cx eenv) l = CELIX_SUCCESS"
    and "celixThreadMutex_unlock (ew_cx eenv) ''ownNodeMutex'' = CELIX_SUCCESS"
    and "store_answers (ew_lib eenv)"
    and "etcdWatcher_getLocalNodePath (ew_cx eenv) (ownNode nd) = Inr path"
    and "weds W d = Some q" "publishable q" "rest W = (a, nd, x)"
    and "\<forall>e \<in> set (wiring_ep_descriptions_list (ownNode nd)).
      \<exists>r. weds W e = Some r \<and> publishable r \<and> map_of r WIRE_ID_KEY \<noteq> map_of q WIRE_ID_KEY"
  shows "\<exists>x'. wiringEndpointAdded (node_listener eenv) d s W =
      Inr (CELIX_SUCCESS, W\<lparr>rest := (a, own_with nd d, x')\<rparr>) \<and>
    rfold (publish_endpoint eenv path) (wiring_ep_descriptions_list (ownNode nd) @ [d]) \<lparr>weds = weds W, rest = x\<rparr> =
      Inr \<lparr>weds = weds W, rest = x'\<rparr>"
proof -
  let ?w = "\<lparr>weds = weds W, rest = x\<rparr>" and ?l = "wiring_ep_descriptions_list (ownNode nd)"
  let ?own = "(ownNode nd)\<lparr>wiring_ep_descriptions_list := ?l @ [d]\<rparr>"
  have "\<forall>e \<in> set (?l @ [d]). \<exists>q. weds ?w e = Some q \<and> publishable q" using assms(5,6,8) by auto
  then obtain x' where x': "rfold (publish_endpoint eenv path) (?l @ [d]) ?w = Inr (?w\<lparr>rest := x'\<rparr>)"
    using publish_all [OF assms(3)] by blast
  have wid: "wireId_of (ew_cx eenv) ?w e = map_of r WIRE_ID_KEY" if "weds W e = Some r" for e r
    using that by (simp add: wireId_of_def properties_get_map_of)
  have have_ids: "\<forall>e \<in> insert d (set ?l). wireId_of (nd_cx (wired_nd eenv)) ?w e \<noteq> None"
    using assms(5,6,8) wid by (fastforce simp: publishable_def wired_nd_def)
  have new: "wireId_of (ew_cx eenv) ?w d \<notin> wireId_of (ew_cx eenv) ?w ` set ?l"
    using assms(5,8) wid by (auto simp: image_iff)
  have "nd_addOwnNode (wired_nd eenv) ?own ?w = Inr (?w\<lparr>rest := x'\<rparr>)"
    using x' assms(4) by (simp add: wired_nd_def etcdWatcher_addOwnNode_def localNodePath_own)
  then have "node_discovery_wiringEndpointAdded (wired_nd eenv) d nd ?w = Inr (CELIX_SUCCESS, own_with nd d, ?w\<lparr>rest := x'\<rparr>)"
    using own_added_eq [OF _ have_ids] assms(1,2) new
    by (simp add: Let_def own_with_def) (simp add: wired_nd_def)
  then show ?thesis using x' assms(7)
    by (intro exI [of _ x']) (simp add: node_listener_def Let_def node_call_def discovery_listener_def on_discovery_def)
qed

text \<open>The admin of the node makes the wire; the discovery and the outside are left alone.\<close>

lemma node_admin_exports:
  assumes "framework_ok wenv u" "wiringReceiveTracker a \<noteq> []" "rest W = (a, y)"
    and "heap_calloc wenv \<lparr>weds = weds W, rest = lockE a\<rparr> = Some d"
  defines "uuid \<equiv> wa_uuid wenv \<lparr>weds = weds W, rest = lockE a\<rparr>"
  defines "q \<equiv> wire_properties wenv a u uuid"
  shows "\<exists>a'. exportWiringEndpoint (node_admin wenv) W =
      Inr (CELIX_SUCCESS, Some d, \<lparr>weds = (weds W)(d \<mapsto> q), rest = (a', y)\<rparr>) \<and>
    weds W d = None \<and> map_of q WIRE_ID_KEY = Some uuid \<and> map_of q HTTP_URL_KEY = Some (wa_url a) \<and>
    map_of q WIRING_ADMIN_PROPERTIES_SECURE_KEY = Some WIRING_ADMIN_PROPERTIES_SECURE_VALUE"
proof -
  have w: "(on_admin W)\<lparr>rest := lockE a\<rparr> = \<lparr>weds = weds W, rest = lockE a\<rparr>"
    and a: "rest (on_admin W) = a" using assms(3) by (simp_all add: on_admin_def)
  obtain w' where
    w': "wiringAdmin_exportWiringEndpoint wenv (on_admin W) = Inr (CELIX_SUCCESS, Some d, w')" "weds W d = None"
      "weds w' = (weds W)(d \<mapsto> q)" "map_of q WIRE_ID_KEY = Some uuid" "map_of q HTTP_URL_KEY = Some (wa_url a)"
      "map_of q WIRING_ADMIN_PROPERTIES_SECURE_KEY = Some WIRING_ADMIN_PROPERTIES_SECURE_VALUE"
    using export_describes_wire [OF assms(1), of "on_admin W" d] assms(2,4)
    unfolding a w q_def uuid_def by auto
  then show ?thesis using assms(3)
    by (intro exI [of _ "rest w'"]) (simp add: node_admin_def wa_service_def admin_done_def Let_def)
qed

lemma node_export_publishes:
  assumes "node_ready wenv eenv ref u d path W" "rest W = (a, nd, x)"
    and "waList m = [wa]" "listenerList m = [(ref, ())]"
    and "hashMap_get (srvc_same (ew_cx eenv)) (exportedWiringEndpoints m) p = None"
    and "properties_match (ew_cx eenv) p (snd (wiringAdmin_getWiringAdminProperties a))"
    and "map_of p ''service.id'' = Some sid"
    and "uuid = wa_uuid wenv \<lparr>weds = weds W, rest = lockE a\<rparr>"
    and "q = properties_set (ew_cx eenv) (wire_properties wenv a u uuid) ''requested.service.id'' (Some sid)"
    and "publishable q"
  shows "\<exists>a' x'.
    wiringTopologyManager_exportWiringEndpoint (node_env wenv eenv) (Some p) m W =
      Inr (CELIX_SUCCESS,
        m\<lparr>exportedWiringEndpoints := hashMap_put (ew_cx eenv) (srvc_hash (ew_cx eenv)) (srvc_same (ew_cx eenv)) p [(wa, d)]
            (exportedWiringEndpoints m)\<rparr>,
        \<lparr>weds = (weds W)(d \<mapsto> q), rest = (a', own_with nd d, x')\<rparr>) \<and>
    map_of q WIRE_ID_KEY = Some uuid \<and> map_of q HTTP_URL_KEY = Some (wa_url a) \<and>
    map_of q WIRING_ADMIN_PROPERTIES_SECURE_KEY = Some WIRING_ADMIN_PROPERTIES_SECURE_VALUE \<and>
    map_of q ''requested.service.id'' = Some sid \<and>
    rfold (publish_endpoint eenv path) (wiring_ep_descriptions_list (ownNode nd) @ [d])
        \<lparr>weds = (weds W)(d \<mapsto> q), rest = x\<rparr> = Inr \<lparr>weds = (weds W)(d \<mapsto> q), rest = x'\<rparr>"
proof -
  note ready = assms(1) [unfolded node_ready_def assms(2) fst_conv snd_conv]
  let ?cx = "ew_cx eenv" and ?env = "node_env wenv eenv" and ?q0 = "wire_properties wenv a u uuid"
  obtain a' where ex: "exportWiringEndpoint (node_admin wenv) W =
      Inr (CELIX_SUCCESS, Some d, \<lparr>weds = (weds W)(d \<mapsto> ?q0), rest = (a', nd, x)\<rparr>)" "weds W d = None"
      "map_of ?q0 WIRE_ID_KEY = Some uuid" "map_of ?q0 HTTP_URL_KEY = Some (wa_url a)"
      "map_of ?q0 WIRING_ADMIN_PROPERTIES_SECURE_KEY = Some WIRING_ADMIN_PROPERTIES_SECURE_VALUE"
    using node_admin_exports [of wenv u a W "(nd, x)" d] ready assms(2,8) by blast
  have q: "map_of q = (map_of ?q0)(''requested.service.id'' \<mapsto> sid)"
    unfolding assms(9) by (rule properties_set_map_of)
  have props: "map_of q WIRE_ID_KEY = Some uuid" "map_of q HTTP_URL_KEY = Some (wa_url a)"
      "map_of q WIRING_ADMIN_PROPERTIES_SECURE_KEY = Some WIRING_ADMIN_PROPERTIES_SECURE_VALUE"
    using ex(3-5) by (simp_all add: q WIRE_ID_KEY_def HTTP_URL_KEY_def WIRING_ADMIN_PROPERTIES_SECURE_KEY_def)
  let ?W = "\<lparr>weds = (weds W)(d \<mapsto> q), rest = (a', nd, x)\<rparr>"
  let ?scope = "serviceReference_getProperty ?cx ref INAETICS_WIRING_ENDPOINT_LISTENER_SCOPE"
  have "\<forall>e \<in> set (wiring_ep_descriptions_list (ownNode nd)).
      \<exists>r. weds ?W e = Some r \<and> publishable r \<and> map_of r WIRE_ID_KEY \<noteq> map_of q WIRE_ID_KEY"
    using ready props(1) ex(2) assms(8) by fastforce
  then obtain x' where lis: "wiringEndpointAdded (node_listener eenv) d ?scope ?W =
      Inr (CELIX_SUCCESS, ?W\<lparr>rest := (a', own_with nd d, x')\<rparr>)"
    and pub: "rfold (publish_endpoint eenv path) (wiring_ep_descriptions_list (ownNode nd) @ [d]) \<lparr>weds = weds ?W, rest = x\<rparr> =
      Inr \<lparr>weds = weds ?W, rest = x'\<rparr>"
    using listener_publishes [of eenv nd path ?W d q a' x ?scope] ready assms(10) by auto
  have "announce ?env m p d \<lparr>weds = (weds W)(d \<mapsto> ?q0), rest = (a', nd, x)\<rparr> =
      Inr (CELIX_SUCCESS, ?W\<lparr>rest := (a', own_with nd d, x')\<rparr>)"
    using ready lis assms(4,7,9)
    by (simp add: announce_def node_env_def wed_set_def wed_deref_def properties_get_map_of notify_listener_def
      wiringTopologyManager_notifyListenersWiringEndpointAdded_def notifyListeners_def Let_def)
  then have "wiringTopologyManager_exportWiringEndpoint ?env (Some p) m W =
      Inr (CELIX_SUCCESS,
        m\<lparr>exportedWiringEndpoints := hashMap_put ?cx (srvc_hash ?cx) (srvc_same ?cx) p [(wa, d)] (exportedWiringEndpoints m)\<rparr>,
        ?W\<lparr>rest := (a', own_with nd d, x')\<rparr>)"
    using export_first_capable [of ?env m p "[]" wa "[]" W "snd (wiringAdmin_getWiringAdminProperties a)" d] ex(1) assms(2,3,5,6)
    by (simp add: node_env_def node_admin_def wa_service_def on_admin_def Let_def)
  then show ?thesis using pub props by (intro exI [of _ a'] exI [of _ x']) (simp add: q)
qed

text \<open>
  C14. Exporting a service on a node reaches the store: the topology manager has its wiring
  admin make a wire, notes the id of the requested service in the wire's description, records
  the wire, and the discovery, told as a listener, adds the wire to the own node and
  publishes every endpoint of the own node; the description that is published carries the
  new wire id, the URL of the admin's web server, the secure mark and the service id.
\<close>

theorem node_export_is_published:
  assumes "node_ready wenv eenv ref u d path W" "rest W = (a, nd, x)"
    and "waList m = [wa]" "listenerList m = [(ref, ())]"
    and "hashMap_get (srvc_same (ew_cx eenv)) (exportedWiringEndpoints m) p = None"
    and "properties_match (ew_cx eenv) p (snd (wiringAdmin_getWiringAdminProperties a))"
    and "map_of p ''service.id'' = Some sid"
    and "uuid = wa_uuid wenv \<lparr>weds = weds W, rest = lockE a\<rparr>"
    and "q = properties_set (ew_cx eenv) (wire_properties wenv a u uuid) ''requested.service.id'' (Some sid)"
    and "publishable q"
  shows "\<exists>a' x'.
    wiringTopologyManager_exportWiringEndpoint (node_env wenv eenv) (Some p) m W =
      Inr (CELIX_SUCCESS,
        m\<lparr>exportedWiringEndpoints := hashMap_put (ew_cx eenv) (srvc_hash (ew_cx eenv)) (srvc_same (ew_cx eenv)) p [(wa, d)]
            (exportedWiringEndpoints m)\<rparr>,
        \<lparr>weds = (weds W)(d \<mapsto> q), rest = (a', own_with nd d, x')\<rparr>) \<and>
    map_of q WIRE_ID_KEY = Some uuid \<and> map_of q HTTP_URL_KEY = Some (wa_url a) \<and>
    map_of q WIRING_ADMIN_PROPERTIES_SECURE_KEY = Some WIRING_ADMIN_PROPERTIES_SECURE_VALUE \<and>
    map_of q ''requested.service.id'' = Some sid \<and>
    rfold (publish_endpoint eenv path) (wiring_ep_descriptions_list (ownNode nd) @ [d])
        \<lparr>weds = (weds W)(d \<mapsto> q), rest = x\<rparr> = Inr \<lparr>weds = (weds W)(d \<mapsto> q), rest = x'\<rparr>"
  using assms by (rule node_export_publishes)

definition demo_exporter :: wiring_admin where
  "demo_exporter = demo_wa\<lparr>wiringReceiveTracker := [(5, 3)], wa_url := ''https://h:1''\<rparr>"

definition demo_node_world :: "nat node_state world" where
  "demo_node_world = \<lparr>weds = Map.empty, rest = (demo_exporter, demo_nd, 0)\<rparr>"

definition demo_manager :: wtm where
  "demo_manager = demo_wtm\<lparr>waList := [0], listenerList := [(7, ())], waitingForExport := []\<rparr>"

definition demo_wire :: properties where
  "demo_wire = properties_set (ew_cx demo_ew) (wire_properties demo_wa_env demo_exporter ''fw-1'' ''uuid-1'')
     ''requested.service.id'' (Some ''7'')"

lemma demo_wire_text:
  "demo_wire = [(WIRE_ID_KEY, ''uuid-1''), (WIRING_ADMIN_PROPERTIES_CONFIG_KEY, WIRING_ADMIN_PROPERTIES_CONFIG_VALUE),
     (WIRING_ADMIN_PROPERTIES_SECURE_KEY, WIRING_ADMIN_PROPERTIES_SECURE_VALUE),
     (HTTP_URL_KEY, ''https://h:1''), (''endpoint.framework.uuid'', ''fw-1''), (''requested.service.id'', ''7'')]"
  by (simp add: demo_wire_def demo_ew_def demo_ew_cx_def demo_nd_env_def wire_properties_def exported_properties_def Let_def demo_wa_defs
    demo_exporter_def properties_set_def hashMap_put_def hashMap_containsKey_def string_same_def same_key_def insert_at_def
    WIRE_ID_KEY_def HTTP_URL_KEY_def WIRING_ADMIN_PROPERTIES_CONFIG_KEY_def WIRING_ADMIN_PROPERTIES_SECURE_KEY_def)

lemma demo_wire_publishable: "publishable demo_wire"
proof -
  have fits: "\<forall>e \<in> set demo_wire. entry_fits e"
    by (simp add: demo_wire_text entry_fits_def needs_escape_def buffer_sizes WIRE_ID_KEY_def HTTP_URL_KEY_def
      WIRING_ADMIN_PROPERTIES_CONFIG_KEY_def WIRING_ADMIN_PROPERTIES_SECURE_KEY_def
      WIRING_ADMIN_PROPERTIES_CONFIG_VALUE_def WIRING_ADMIN_PROPERTIES_SECURE_VALUE_def)
  have len: "length (entries_text demo_wire) < 4096"
    by (simp add: demo_wire_text entry_line_def escape_def needs_escape_def WIRE_ID_KEY_def HTTP_URL_KEY_def
      WIRING_ADMIN_PROPERTIES_CONFIG_KEY_def WIRING_ADMIN_PROPERTIES_SECURE_KEY_def
      WIRING_ADMIN_PROPERTIES_CONFIG_VALUE_def WIRING_ADMIN_PROPERTIES_SECURE_VALUE_def)
  have some: "map_of demo_wire WIRE_ID_KEY = Some ''uuid-1''" "demo_wire \<noteq> []" by (simp_all add: demo_wire_text)
  have "wiringEndpoint_properties_store demo_wire = Inr (CELIX_SUCCESS, Some (entries_text demo_wire))"
    by (rule store_in_full [OF fits some(2)]) (use len in \<open>simp add: Endpoint_Codec.MAX_VALUE_LENGTH_def\<close>)
  with some show ?thesis using len by (auto simp: publishable_def)
qed

lemma demo_store_answers: "store_answers (ew_lib demo_ew)"
  by (simp add: store_answers_def demo_ew_def Etcd.demo_lib_def performRequest_def WriteMemoryCallback_def)

lemma demo_node_ready: "node_ready demo_wa_env demo_ew 7 ''fw-1'' 1 ''inaetics/discovery/z/n1'' demo_node_world"
  using demo_framework_ok demo_rootPath demo_store_answers
  by (simp add: node_ready_def demo_node_world_def demo_exporter_def heap_calloc_def demo_wa_env_def demo_nd_defs
    demo_ew_def demo_ew_cx_def celix0_def etcdWatcher_getLocalNodePath_def snprintf_def MAX_LOCALNODE_LENGTH_def)

theorem node_export_is_published_witness:
  "\<exists>a' x'.
    wiringTopologyManager_exportWiringEndpoint (node_env demo_wa_env demo_ew) (Some [(''service.id'', ''7'')]) demo_manager
        demo_node_world =
      Inr (CELIX_SUCCESS,
        demo_manager\<lparr>exportedWiringEndpoints := [([(''service.id'', ''7'')], [(0, 1)])]\<rparr>,
        \<lparr>weds = [1 \<mapsto> demo_wire], rest = (a', own_with demo_nd 1, x')\<rparr>)"
proof -
  let ?p = "[(''service.id'', ''7'')]"
  have empty: "exportedWiringEndpoints demo_manager = []" by (simp add: demo_manager_def demo_wtm_def)
  have "properties_match (ew_cx demo_ew) ?p r" for r
    by (simp add: demo_ew_def demo_ew_cx_def demo_nd_defs)
  note export = node_export_is_published [OF demo_node_ready _ _ _ _ this, of demo_exporter demo_nd 0 demo_manager 0
    "''7''" "''uuid-1''" demo_wire]
  have "wa_uuid demo_wa_env w = ''uuid-1''" for w by (simp add: demo_wa_env_def)
  then show ?thesis
    using export demo_wire_publishable empty demo_wire_def
    by (simp add: demo_node_world_def hashMap_get_def hashMap_put_empty demo_manager_def del: properties_match.simps) blast
qed

end
