(* ===== verification/Rsa_Reachable.thy ===== *)
theory Rsa_Reachable
  imports Rsa_Heap Node
begin

text \<open>
  Conformance of every state that a remote service admin can reach, with a topology manager
  and a wiring admin on its node. New objects are allocated before a table gets them; what the
  topology managers do meanwhile is a contract, which the manager of the model keeps.
\<close>

section \<open>New exports\<close>

lemma createEndpoint_cases:
  assumes "remoteServiceAdmin_createEndpointDescription env ref c s = Inr (st, p, s')"
  obtains "p = None" "s' = s" | a ep where "p = Some a" "eps s a = None" "s' = s\<lparr>eps := (eps s)(a \<mapsto> ep)\<rparr>"
proof -
  let ?cx = "rsa_cx env"
  obtain k i where k: "hashMap_getEntry (string_same ?cx) (endpoint_keys env ref) (OSGI_FRAMEWORK_SERVICE_ID ?cx) = Some (k, i)"
    using assms
    by (cases "hashMap_getEntry (string_same ?cx) (endpoint_keys env ref) (OSGI_FRAMEWORK_SERVICE_ID ?cx)")
      (auto simp: remoteServiceAdmin_createEndpointDescription_def Let_def)
  show thesis
  proof (cases "new_object env EndpointKind (\<lambda>a. eps s a \<noteq> None) s")
    case None
    then show thesis using assms k that(1) by (simp add: remoteServiceAdmin_createEndpointDescription_def Let_def)
  next
    case (Some a)
    have "eps s a = None" using new_object_Some [OF Some] by simp
    moreover obtain ep where "p = Some a" "s' = s\<lparr>eps := (eps s)(a \<mapsto> ep)\<rparr>"
      using assms k Some by (auto simp: remoteServiceAdmin_createEndpointDescription_def Let_def split: option.split_asm)
    ultimately show thesis using that(2) by blast
  qed
qed

lemma export_destroyed:
  assumes "exportRegistration_destroy a (s\<lparr>exps := (exps s)(a \<mapsto> reg)\<rparr>) = Inr s'" "exps s a = None" "er_endpoint reg = p"
  shows "s' = (case p of None \<Rightarrow> s | Some q \<Rightarrow> s\<lparr>eps := (eps s)(q := None)\<rparr>)"
  using assms
  by (auto simp: exportRegistration_destroy_def endpointDescription_destroy_def deref_def rbind_eq_Inr fun_upd_idem split: option.split_asm option.split)

lemma createExport_cases:
  assumes "exportRegistration_create env ref p s = Inr (st, r, s')"
  obtains "r = None" "s' = s" | q where "r = None" "p = Some q" "s' = s\<lparr>eps := (eps s)(q := None)\<rparr>"
  | e reg where "r = Some e" "exps s e = None" "er_endpoint reg = p" "s' = s\<lparr>exps := (exps s)(e \<mapsto> reg)\<rparr>"
proof -
  note cases = that
  let ?new = "new_object env ExportKind (\<lambda>a. exps s a \<noteq> None) s"
  have made: "thesis" if "(case (if ok then ?new else None) of None \<Rightarrow> Inr (st1, None, s)
      | Some a \<Rightarrow> let t = s\<lparr>exps := (exps s)(a \<mapsto> \<lparr>er_endpoint = p, er_reference = ref, er_intf = i, er_tracker = t, er_service = None\<rparr>)\<rparr>
          in if st1 = CELIX_SUCCESS then Inr (st1, Some a, t) else rbind (exportRegistration_destroy a t) (\<lambda>s. Inr (st1, None, s))) =
      Inr (st, r, s')" for ok st1 i t
  proof (cases "if ok then ?new else None")
    case None
    then show thesis using that cases(1) by simp
  next
    case (Some a)
    let ?reg = "\<lparr>er_endpoint = p, er_reference = ref, er_intf = i, er_tracker = t, er_service = None\<rparr>"
    have a: "exps s a = None" using Some new_object_Some by (fastforce split: if_split_asm)
    show thesis
    proof (cases "st1 = CELIX_SUCCESS")
      case True
      then have "r = Some a" "s' = s\<lparr>exps := (exps s)(a \<mapsto> ?reg)\<rparr>" using that Some by (auto simp: Let_def)
      then show thesis by (intro cases(3) [OF _ a, of ?reg]) simp_all
    next
      case False
      then have d: "r = None" "exportRegistration_destroy a (s\<lparr>exps := (exps s)(a \<mapsto> ?reg)\<rparr>) = Inr s'"
        using that Some by (auto simp: Let_def rbind_eq_Inr)
      show thesis
        using export_destroyed [OF d(2) a refl] d(1) cases(1,2) by (cases p) auto
    qed
  qed
  show thesis
    using assms made
    unfolding exportRegistration_create_def Let_def
    by (simp add: rbind_eq_Inr case_prod_beta) blast
qed

lemma registrations_extend:
  assumes "export_registrations env ref c s = Inr (st, l, s')"
  shows "extends s s' \<and> distinct l \<and> (\<forall>e \<in> set l. exps s e = None \<and> live_export s' e)"
proof -
  obtain st1 p s1 st2 r s2 where s1: "remoteServiceAdmin_createEndpointDescription env ref c s = Inr (st1, p, s1)"
      and s2: "exportRegistration_create env ref p s1 = Inr (st2, r, s2)"
      and r: "(case r of None \<Rightarrow> Inr (st2, [], s2) | Some e \<Rightarrow> rbind (exportRegistration_start env e s2) (\<lambda>(status, s).
          Inr (status, if status = CELIX_SUCCESS then [e] else [], s))) = Inr (st, l, s')"
    using assms by (auto simp: export_registrations_def rbind_eq_Inr)
  have s1': "extends s s1" "\<And>q. p = Some q \<Longrightarrow> eps s1 q \<noteq> None" "\<And>q. p = Some q \<Longrightarrow> eps s q = None"
    using s1 by (auto elim!: createEndpoint_cases simp: extends_def)
  from s2 show ?thesis
  proof (cases rule: createExport_cases)
    case 1
    then show ?thesis using r s1'(1) by simp
  next
    case (2 q)
    have "extends s s2" using s1'(1,3) 2 by (auto simp: extends_def)
    then show ?thesis using r 2(1) by simp
  next
    case (3 e reg)
    then obtain st3 where st3: "exportRegistration_start env e s2 = Inr (st3, s')" "set l \<subseteq> {e} \<and> distinct l"
      using r that by (cases "st = CELIX_SUCCESS") (auto simp: rbind_eq_Inr)
    have "exps s e = None" using s1'(1) 3(2) unfolding extends_def by (metis not_None_eq)
    have "extends s1 s2" using 3 by (auto simp: extends_def)
    moreover have "extends s2 s'" by (rule start_extends [OF st3(1)])
    moreover have "live_export s2 e" using 3 s1'(2) by (simp add: live_export_def)
    ultimately have "extends s s'" "live_export s' e"
      using s1'(1) by (blast intro: extends_trans live_extends)+
    then show ?thesis using st3(2) \<open>exps s e = None\<close> by auto
  qed
qed

section \<open>Operations that ask the topology managers\<close>

lemma getWTMs_extends:
  assumes "remoteServiceAdmin_getWTMs env s = Inr (l, s')"
  shows "extends s s'"
proof -
  obtain st1 s1 where s1: "rsa_lock env wtmListLock s = Inr (st1, s1)"
      "s' = s1 \<or> (\<exists>st. rsa_unlock env wtmListLock s1 = Inr (st, s'))"
    using assms by (auto simp: remoteServiceAdmin_getWTMs_def rbind_eq_Inr split: if_split_asm)
  show ?thesis using s1(2) lock_extends [OF s1(1)] extends_trans [OF lock_extends [OF s1(1)] unlock_extends] by auto
qed

lemma in_world_conforms:
  assumes "in_world f W = Inr (r, W')" "conforms (rest W)" "\<And>s s'. f s = Inr (r, s') \<Longrightarrow> extends s s'"
  shows "conforms (rest W')"
  using assms(1) by (rule in_worldE) (simp add: extends_conforms [OF assms(3) assms(2)])

lemma import_recorded_cases:
  assumes "import_recorded env p ep None s = Inr (r, s')"
  obtains "s' = s"
  | pre post where "importedServices s = pre @ post" "s' = s\<lparr>importedServices := pre @ (p, None) # post\<rparr>"
  | pre post a reg where "importedServices s = pre @ post" "imps s a = None"
      "s' = s\<lparr>imps := (imps s)(a \<mapsto> reg), importedServices := pre @ (p, Some a) # post\<rparr>"
proof -
  note cases = that
  let ?cx = "rsa_cx env" and ?m = "importedServices s" and ?same = "ep_same (rsa_cx env) s"
  have "import_recorded env p ep None s = Inl NullPointer" if "ep_service ep = None \<or> ep_id ep = None"
    using that by (simp add: import_recorded_def Let_def)
  then have named: "\<not> (ep_service ep = None \<or> ep_id ep = None)" using assms by force
  show thesis
  proof (cases "hashMap_containsKey ?same ?m p")
    case True
    then show thesis using assms named cases(1) by (simp add: import_recorded_def Let_def)
  next
    case False
    show thesis
    proof (cases "properties_get ?cx (ep_properties ep) ''objectClass''")
      case None
      have s': "s' = s\<lparr>importedServices := hashMap_put ?cx (remoteServiceAdmin_endpointDescription_hash ?cx s) ?same p None ?m\<rparr>"
        using assms named False None by (auto simp: import_recorded_def Let_def)
      obtain pre post where "?m = pre @ post" "hashMap_put ?cx (remoteServiceAdmin_endpointDescription_hash ?cx s) ?same p None ?m = pre @ (p, None) # post"
        using hashMap_put_split [OF False] by blast
      then show thesis using cases(2) s' by simp
    next
      case (Some c)
      show thesis
      proof (cases "new_object env ImportKind (\<lambda>a. imps s a \<noteq> None) s")
        case None
        then have "s' = s" using assms named False Some by (auto simp: import_recorded_def importRegistration_create_def Let_def)
        then show thesis by (rule cases(1))
      next
        case (Some a)
        let ?reg = "\<lparr>ir_endpoint = p, ir_classObject = c, ir_send = None, ir_factoryReg = None, ir_proxies = []\<rparr>"
        let ?t = "s\<lparr>imps := (imps s)(a \<mapsto> ?reg)\<rparr>"
        have a: "imps s a = None" using new_object_Some [OF Some] by simp
        have same: "ep_same ?cx ?t = ?same" by (rule ep_same_eps) simp
        have s': "s' = ?t\<lparr>importedServices := hashMap_put ?cx (remoteServiceAdmin_endpointDescription_hash ?cx ?t) ?same p (Some a) ?m\<rparr>"
          using assms named False Some same \<open>properties_get ?cx (ep_properties ep) ''objectClass'' = Some c\<close>
          by (auto simp: import_recorded_def importRegistration_create_def Let_def)
        obtain pre post where "?m = pre @ post" "hashMap_put ?cx (remoteServiceAdmin_endpointDescription_hash ?cx ?t) ?same p (Some a) ?m = pre @ (p, Some a) # post"
          using hashMap_put_split [OF False] by blast
        then show thesis using cases(3) a s' by simp
      qed
    qed
  qed
qed

lemma import_recorded_conforms:
  assumes "import_recorded env p ep None s = Inr (r, s')" "conforms s" "eps s p \<noteq> None"
  shows "conforms s'"
  using assms(1)
proof (cases rule: import_recorded_cases)
  case (2 pre post)
  have old: "(q, i) \<in> set (pre @ post) \<Longrightarrow> (q, i) \<in> set (importedServices s)" for q i by (simp add: 2(1))
  show ?thesis
  proof (rule conforms_imports [OF assms(2)])
    show "eps s q \<noteq> None" if "(q, i) \<in> set (importedServices s')" for q i
      using that assms(3) conforms_import(1) [OF assms(2) old, of q i] by (auto simp: 2(2))
    show "imps s' a \<noteq> None" if "(q, Some a) \<in> set (importedServices s')" for q a
      using that conforms_import(2) [OF assms(2) old refl, of q a] by (auto simp: 2(2))
    show "distinct (List.map_filter snd (importedServices s'))"
      using assms(2) by (simp add: conforms_def 2(2)) (simp add: 2(1) map_filter_append List.map_filter_simps)
  qed (simp_all add: 2(2))
next
  case (3 pre post a reg)
  have old: "(q, i) \<in> set (pre @ post) \<Longrightarrow> (q, i) \<in> set (importedServices s)" for q i by (simp add: 3(1))
  have "(q, Some a) \<notin> set (pre @ post)" for q using conforms_import(2) [OF assms(2) old refl, of q a] 3(2) by auto
  then have new: "a \<notin> set (List.map_filter snd (pre @ post))" by (force simp: List.map_filter_def)
  show ?thesis
  proof (rule conforms_imports [OF assms(2)])
    show "eps s q \<noteq> None" if "(q, i) \<in> set (importedServices s')" for q i
      using that assms(3) conforms_import(1) [OF assms(2) old, of q i] by (auto simp: 3(3))
    show "imps s' b \<noteq> None" if "(q, Some b) \<in> set (importedServices s')" for q b
      using that conforms_import(2) [OF assms(2) old refl, of q b] by (auto simp: 3(3))
    have "distinct (List.map_filter snd (pre @ post))" using assms(2) unfolding 3(1) [symmetric] by (simp add: conforms_def)
    then show "distinct (List.map_filter snd (importedServices s'))"
      using new by (auto simp: 3(3) map_filter_append List.map_filter_simps)
  qed (simp_all add: 3(3))
qed (use assms(2) in simp)

text \<open>What the admin relies on: a call of a topology manager leaves a state that conforms conforming.\<close>

locale managers_conform =
  fixes env :: "'x rsa_env"
  assumes export_call: "wtm_export env m p W = Inr (st, W') \<Longrightarrow> conforms (rest W) \<Longrightarrow> conforms (rest W')"
    and import_call: "wtm_import env m p W = Inr (st, W') \<Longrightarrow> conforms (rest W) \<Longrightarrow> conforms (rest W')"
begin

lemma world_lock: "in_world (rsa_lock env l) W = Inr (st, W') \<Longrightarrow> conforms (rest W) \<Longrightarrow> conforms (rest W')"
  by (erule in_world_conforms) (auto dest: lock_extends)

lemma world_unlock: "in_world (rsa_unlock env l) W = Inr (st, W') \<Longrightarrow> conforms (rest W) \<Longrightarrow> conforms (rest W')"
  by (erule in_world_conforms) (auto dest: unlock_extends)

lemma offer_export_conforms: "offer_export env p m W = Inr W' \<Longrightarrow> conforms (rest W) \<Longrightarrow> conforms (rest W')"
  by (auto simp: offer_export_def rbind_eq_Inr dest: export_call)

lemma offer_import_conforms:
  assumes "offer_import env p m W = Inr W'" "conforms (rest W)"
  shows "conforms (rest W')"
proof -
  obtain st1 W1 st2 W2 st3 where W: "in_world (rsa_unlock env importedServicesLock) W = Inr (st1, W1)"
      "wtm_import env m p W1 = Inr (st2, W2)" "in_world (rsa_lock env importedServicesLock) W2 = Inr (st3, W')"
    using assms(1) by (auto simp: offer_import_def rbind_eq_Inr)
  show ?thesis by (rule world_lock [OF W(3) import_call [OF W(2) world_unlock [OF W(1) assms(2)]]])
qed

lemma rfold_world:
  assumes "rfold f xs W = Inr W'" "conforms (rest W)"
    and "\<And>x V V'. f x V = Inr V' \<Longrightarrow> conforms (rest V) \<Longrightarrow> conforms (rest V')"
  shows "conforms (rest W')"
  by (rule rfold_invariant [where P = "\<lambda>W. conforms (rest W)", OF assms(1,2)]) (rule assms(3))

lemma export_recorded_conforms:
  assumes "export_recorded env ref l p W = Inr W'" "conforms (rest W)" "\<forall>e \<in> set l. live_export (rest W) e"
    and "distinct l" "set l \<inter> set (all_exports (rest W)) = {}"
  shows "conforms (rest W')"
proof -
  let ?put = "hashMap_put (rsa_cx env) (ptr_hash (rsa_cx env)) (ptr_same (rsa_cx env)) ref l"
  obtain st1 W1 st2 W2 ms W3 where
      W1: "in_world (rsa_lock env exportedServicesLock) W = Inr (st1, W1)" and
      W2: "in_world (\<lambda>s. rsa_unlock env exportedServicesLock (s\<lparr>exportedServices := ?put (exportedServices s)\<rparr>)) W1 = Inr (st2, W2)" and
      W3: "in_world (remoteServiceAdmin_getWTMs env) W2 = Inr (ms, W3)" and
      W4: "rfold (offer_export env (case p of None \<Rightarrow> reference_properties env ref | Some q \<Rightarrow> q)) ms W3 = Inr W'"
    using assms(1) by (auto simp: export_recorded_def rbind_eq_Inr Let_def)
  have c1: "conforms (rest W1)" by (rule world_lock [OF W1 assms(2)])
  have live: "\<forall>e \<in> set l. live_export (rest W1) e"
    using W1 assms(3) by (auto elim!: in_worldE dest!: lock_extends intro: live_extends)
  have table: "exportedServices (rest W1) = exportedServices (rest W)"
    using W1 by (auto elim!: in_worldE dest!: lock_extends simp: extends_def)
  have "conforms ((rest W1)\<lparr>exportedServices := ?put (exportedServices (rest W1))\<rparr>)"
  proof (rule conforms_exports [OF c1], rule ballI)
    fix e
    assume "e \<in> set (concat (map snd (?put (exportedServices (rest W1)))))"
    then obtain k where "k \<in> snd ` set (?put (exportedServices (rest W1)))" "e \<in> set k" by auto
    then have "k = l \<or> k \<in> snd ` set (exportedServices (rest W1))"
      using hashMap_put_values [of "rsa_cx env" "ptr_hash (rsa_cx env)" "ptr_same (rsa_cx env)" ref l "exportedServices (rest W1)"] by blast
    then show "e \<in> set (all_exports (rest W1)) \<or> live_export (rest W1) e"
      using live \<open>e \<in> set k\<close> by (auto simp: all_exports_def)
  next
    show "distinct (concat (map snd (?put (exportedServices (rest W1)))))"
      using c1 assms(4,5) by (intro put_entry_distinct) (simp_all add: conforms_def all_exports_def table)
  qed
  then have "conforms (rest W2)" using W2 by (elim in_worldE) (simp add: unlock_conforms)
  then have "conforms (rest W3)" by (rule in_world_conforms [OF W3]) (rule getWTMs_extends)
  then show ?thesis by (rule rfold_world [OF W4]) (rule offer_export_conforms)
qed

lemma exportService_conforms:
  assumes "remoteServiceAdmin_exportService env i p W = Inr (st, l, W')" "conforms (rest W)"
  shows "conforms (rest W')"
proof (cases "W' = W")
  case False
  let ?made = "\<lambda>ref c. in_world (\<lambda>s. rbind (export_registrations env ref c s) (\<lambda>(st, l, s). Inr ((st, l), s)))"
  obtain ref c st1 l1 W1 where W1: "?made ref c W = Inr ((st1, l1), W1)" "W' = W1 \<or> export_recorded env ref l1 p W1 = Inr W'"
    using assms(1) False
    by (auto simp: remoteServiceAdmin_exportService_def Let_def rbind_eq_Inr split: list.split_asm option.split_asm if_split_asm)
  obtain s1 where s1: "export_registrations env ref c (rest W) = Inr (st1, l1, s1)" "rest W1 = s1"
    using W1(1) by (auto elim!: in_worldE simp: rbind_eq_Inr)
  have ext: "extends (rest W) (rest W1)" "\<forall>e \<in> set l1. live_export (rest W1) e" "distinct l1"
    using registrations_extend [OF s1(1)] s1(2) by simp_all
  have "exps (rest W) e \<noteq> None" if "e \<in> set (all_exports (rest W))" for e
    using assms(2) that unfolding conforms_def by blast
  then have new: "set l1 \<inter> set (all_exports (rest W1)) = {}"
    using registrations_extend [OF s1(1)] ext(1) by (force simp: extends_def all_exports_def)
  have c1: "conforms (rest W1)" by (rule extends_conforms [OF ext(1) assms(2)])
  show ?thesis using W1(2) c1 export_recorded_conforms [OF _ c1 ext(2,3) new] by blast
qed (use assms(2) in simp)

lemma importService_conforms:
  assumes "remoteServiceAdmin_importService env p None W = Inr (st, r, W')" "conforms (rest W)"
  shows "conforms (rest W')"
proof -
  obtain ep st1 W1 W2 st3 where ep: "eps (rest W) p = Some ep"
      and W1: "in_world (rsa_lock env importedServicesLock) W = Inr (st1, W1)"
      and W2: "(case properties_get (rsa_cx env) (ep_properties ep) WIRE_ID_KEY of
               None \<Rightarrow> Inr ((CELIX_SERVICE_EXCEPTION, None), W1)
             | Some w \<Rightarrow>
                 rbind (in_world (import_recorded env p ep None) W1) (\<lambda>(r, W).
                 rbind (in_world (remoteServiceAdmin_getWTMs env) W) (\<lambda>(ms, W).
                 rbind (rfold (offer_import env (import_request env w ep)) ms W) (\<lambda>W. Inr (r, W))))) = Inr ((st, r), W2)"
      and W3: "in_world (rsa_unlock env importedServicesLock) W2 = Inr (st3, W')"
    using assms(1) by (auto simp: remoteServiceAdmin_importService_def Let_def rbind_eq_Inr)
  have c1: "conforms (rest W1)" by (rule world_lock [OF W1 assms(2)])
  have alive: "eps (rest W1) p \<noteq> None"
    using W1 ep by (auto elim!: in_worldE dest!: lock_extends simp: extends_def)
  have "conforms (rest W2)"
  proof (cases "properties_get (rsa_cx env) (ep_properties ep) WIRE_ID_KEY")
    case None
    then show ?thesis using W2 c1 by simp
  next
    case (Some w)
    then obtain V ms U where V: "in_world (import_recorded env p ep None) W1 = Inr ((st, r), V)"
        "in_world (remoteServiceAdmin_getWTMs env) V = Inr (ms, U)" "rfold (offer_import env (import_request env w ep)) ms U = Inr W2"
      using W2 by (auto simp: rbind_eq_Inr)
    have "conforms (rest V)" using V(1) by (rule in_worldE) (simp add: import_recorded_conforms [OF _ c1 alive])
    then have "conforms (rest U)" by (rule in_world_conforms [OF V(2)]) (rule getWTMs_extends)
    then show ?thesis by (rule rfold_world [OF V(3)]) (rule offer_import_conforms)
  qed
  then show ?thesis by (rule world_unlock [OF W3])
qed

lemma wtmAdded_conforms:
  assumes "remoteServiceAdmin_wtmAdded env wtm W = Inr (st, W')" "conforms (rest W)"
  shows "conforms (rest W')"
proof -
  obtain st1 W1 st2 W2 st3 W3 where W1: "in_world (wtm_listed env wtm) W = Inr (st1, W1)"
      and W2: "(if st1 = CELIX_SUCCESS then wtm_imports env wtm W1 else Inr (st1, W1)) = Inr (st2, W2)"
      and W3: "(if st2 = CELIX_SUCCESS then wtm_exports env wtm W2 else Inr (st2, W2)) = Inr (st3, W3)"
      and W4: "(if st3 = CELIX_SUCCESS then in_world (register_admin env) W3 else Inr (st3, W3)) = Inr (st, W')"
    using assms(1) by (auto simp: remoteServiceAdmin_wtmAdded_def rbind_eq_Inr)
  have listed: "extends s s'" if wtm: "wtm_listed env wtm s = Inr (st', s')" for st' s s'
  proof -
    obtain st1 s1 where s1: "rsa_lock env wtmListLock s = Inr (st1, s1)"
        "s' = s1 \<or> rsa_unlock env wtmListLock (s1\<lparr>wtmList := wtmList s1 @ [wtm]\<rparr>) = Inr (st', s')"
      using wtm by (cases "celixThreadMutex_lock (rsa_cx env) wtmListLock = CELIX_SUCCESS")
        (auto simp: wtm_listed_def rbind_eq_Inr rsa_lock_def Let_def split: if_split_asm)
    have "extends s1 s'" using s1(2) extends_trans [OF extends_other(7) unlock_extends] by auto
    then show ?thesis by (rule extends_trans [OF lock_extends [OF s1(1)]])
  qed
  have replayed_in: "conforms (rest V')" if run: "wtm_imports env wtm V = Inr (st', V')" and ok: "conforms (rest V)" for V st' V'
  proof -
    obtain st1 V1 V2 where V: "in_world (rsa_lock env importedServicesLock) V = Inr (st1, V1)"
        "rfold (replay_import env wtm) (map fst (importedServices (rest V1))) V1 = Inr V2"
        "in_world (rsa_unlock env importedServicesLock) V2 = Inr (st', V')"
      using run by (auto simp: wtm_imports_def rbind_eq_Inr)
    have "conforms (rest V2)"
      by (rule rfold_world [OF V(2) world_lock [OF V(1) ok]])
        (auto simp: replay_import_def rbind_eq_Inr split: option.split_asm dest: import_call)
    then show ?thesis by (rule world_unlock [OF V(3)])
  qed
  have replayed_out: "conforms (rest V')" if run: "wtm_exports env wtm V = Inr (st', V')" and ok: "conforms (rest V)" for V st' V'
  proof -
    obtain st1 V1 where V1: "in_world (rsa_lock env exportedServicesLock) V = Inr (st1, V1)"
      using run by (auto simp: wtm_exports_def rbind_eq_Inr)
    have c1: "conforms (rest V1)" by (rule world_lock [OF V1 ok])
    show ?thesis
    proof (cases "st1 = CELIX_SUCCESS")
      case True
      then obtain V2 where V2: "rfold (replay_export env wtm) (map fst (exportedServices (rest V1))) V1 = Inr V2"
          "in_world (rsa_unlock env exportedServicesLock) V2 = Inr (st', V')"
        using run V1 by (auto simp: wtm_exports_def rbind_eq_Inr)
      have "conforms (rest V2)"
        by (rule rfold_world [OF V2(1) c1]) (auto simp: replay_export_def rbind_eq_Inr dest: export_call)
      then show ?thesis by (rule world_unlock [OF V2(2)])
    qed (use run V1 c1 in \<open>simp add: wtm_exports_def\<close>)
  qed
  have registered: "extends s s'" if "register_admin env s = Inr (st', s')" for st' s s'
    using that by (auto simp: register_admin_def split: if_split_asm prod.split_asm)
  have "conforms (rest W1)" by (rule in_world_conforms [OF W1 assms(2)]) (rule listed)
  then have "conforms (rest W2)" using W2 replayed_in by (auto split: if_split_asm)
  then have "conforms (rest W3)" using W3 replayed_out by (auto split: if_split_asm)
  then show ?thesis using W4 registered by (auto split: if_split_asm elim: in_world_conforms)
qed

end

section \<open>Send services and the start\<close>

lemma send_service_conforms:
  assumes "remoteServiceAdmin_sendServiceAdded env q W = Inr (st, W') \<or> remoteServiceAdmin_sendServiceRemoved env q W = Inr (st, W')"
    and "conforms (rest W)"
  shows "conforms (rest W')"
proof -
  obtain st1 W1 where W1: "in_world (rsa_lock env sendServicesLock) W = Inr (st1, W1)"
      "W' = W1 \<or> (\<exists>g. in_world (\<lambda>s. rsa_unlock env sendServicesLock (s\<lparr>sendServices := g (sendServices s)\<rparr>)) W1 = Inr (st, W'))"
    using assms(1)
    by (fastforce simp: remoteServiceAdmin_sendServiceAdded_def remoteServiceAdmin_sendServiceRemoved_def rbind_eq_Inr
        split: if_split_asm option.split_asm)
  have c1: "conforms (rest W1)" by (rule in_world_conforms [OF W1(1) assms(2)]) (rule lock_extends)
  have "extends s s'" if "rsa_unlock env sendServicesLock (s\<lparr>sendServices := x\<rparr>) = Inr (st, s')" for s s' x
    using extends_trans [OF extends_other(8) unlock_extends [OF that]] .
  then show ?thesis using W1(2) c1 by (auto elim!: in_world_conforms)
qed

lemma created_conforms:
  assumes "remoteServiceAdmin_create env True W = Inr (st, W')"
  shows "conforms (rest W')"
proof -
  let ?W = "W\<lparr>rest := no_tables (rest W)\<rparr>"
  have start: "conforms (rest ?W)" by (simp add: no_tables_def conforms_def all_exports_def List.map_filter_simps)
  have "W' = ?W \<or> rfold (track_send_service env) (snd (send_open env)) ?W = Inr W'"
    using assms
    by (auto simp: remoteServiceAdmin_create_def remoteServiceAdmin_createSendServiceTracker_def rbind_eq_Inr
        split: if_split_asm prod.split_asm)
  then show ?thesis
  proof
    assume tracked: "rfold (track_send_service env) (snd (send_open env)) ?W = Inr W'"
    show ?thesis
      by (rule rfold_invariant [where P = "\<lambda>W. conforms (rest W)", OF tracked start])
        (auto simp: track_send_service_def rbind_eq_Inr split: if_split_asm dest: send_service_conforms [OF disjI1])
  qed (use start in simp)
qed

lemma stop_conforms:
  assumes "remoteServiceAdmin_stop env W = Inr (st, W')" "conforms (rest W)"
  shows "conforms (rest W')"
proof -
  let ?out = "\<lambda>e s. rbind (exportRegistration_stop env e s) (\<lambda>(st, s). Inr s)"
  let ?in = "\<lambda>i s. case i of None \<Rightarrow> Inr s | Some a \<Rightarrow> rbind (importRegistration_stop env a s) (\<lambda>(st, s). Inr s)"
  obtain W1 st1 s1 s2 st3 s3 st4 s4 s5 st6 s6 where
      s1: "rsa_lock env exportedServicesLock (rest W) = Inr (st1, s1)" and
      s2: "rfold ?out (concat (map snd (exportedServices s1))) s1 = Inr s2" and
      s3: "rsa_unlock env exportedServicesLock s2 = Inr (st3, s3)" and
      s4: "rsa_lock env importedServicesLock s3 = Inr (st4, s4)" and
      s5: "rfold ?in (map snd (importedServices s4)) s4 = Inr s5" and
      s6: "rsa_unlock env importedServicesLock s5 = Inr (st6, s6)" and
      W1: "rest W1 = s6\<lparr>exportedServices := [], importedServices := []\<rparr>" and
      W': "remoteServiceAdmin_destroySendServiceTracker env W1 = Inr (st, W')"
    using assms(1) by (force simp: remoteServiceAdmin_stop_def rbind_eq_Inr in_world_def)
  have stops: "extends s s'" if "?out e s = Inr s'" for e s s' using that by (auto simp: rbind_eq_Inr dest: stop_extends)
  have drops: "extends s s'" if "?in i s = Inr s'" for i s s'
    using that by (auto simp: rbind_eq_Inr split: option.split_asm dest: import_stop_extends)
  have "extends s1 s2" using s2 by (rule rfold_extends) (rule stops)
  moreover have "extends s4 s5" using s5 by (rule rfold_extends) (rule drops)
  ultimately have "conforms s6"
    using lock_conforms [OF s1 assms(2)] by (blast intro: extends_conforms unlock_conforms [OF s3] lock_conforms [OF s4] unlock_conforms [OF s6])
  then have c1: "conforms (rest W1)" by (simp add: W1 conforms_def all_exports_def List.map_filter_simps)
  let ?gone = "\<lambda>q W. rbind (remoteServiceAdmin_sendServiceRemoved env q W) (\<lambda>(st, W). Inr W)"
  obtain l where l: "rfold ?gone l W1 = Inr W'"
    using W' by (auto simp: remoteServiceAdmin_destroySendServiceTracker_def rbind_eq_Inr split: prod.split_asm)
  show ?thesis
    by (rule rfold_invariant [where P = "\<lambda>W. conforms (rest W)", OF l c1])
      (auto simp: rbind_eq_Inr dest: send_service_conforms [OF disjI2])
qed

section \<open>A node\<close>

text \<open>
  The wiring admin over the state of the node, the topology manager with that admin and the
  remote service admin as its listener, and the remote service admin with that manager.
\<close>

type_synonym 'y rsa_node_state = "(wtm \<times> wiring_admin \<times> 'y) rsa_state"

definition wiring_part :: "'y rsa_node_state world \<Rightarrow> wiring_admin world" where
  "wiring_part W = \<lparr>weds = weds W, rest = fst (snd (outside (rest W)))\<rparr>"

definition wiring_done :: "'y rsa_node_state world \<Rightarrow> wiring_admin world \<Rightarrow> 'y rsa_node_state world" where
  "wiring_done W w = \<lparr>weds = weds w,
     rest = (rest W)\<lparr>outside := (fst (outside (rest W)), rest w, snd (snd (outside (rest W))))\<rparr>\<rparr>"

definition rsa_wiring_admin :: "wa_env \<Rightarrow> 'y rsa_node_state wiring_admin_service" where
  "rsa_wiring_admin wenv = (let S = wa_service wenv in \<lparr>
     exportWiringEndpoint = (\<lambda>W. rbind (exportWiringEndpoint S (wiring_part W)) (\<lambda>(st, e, w). Inr (st, e, wiring_done W w))),
     removeExportedWiringEndpoint =
       (\<lambda>d W. rbind (removeExportedWiringEndpoint S d (wiring_part W)) (\<lambda>(st, w). Inr (st, wiring_done W w))),
     getWiringAdminProperties = (\<lambda>W. getWiringAdminProperties S (wiring_part W)),
     importWiringEndpoint = (\<lambda>d W. rbind (importWiringEndpoint S d (wiring_part W)) (\<lambda>(st, w). Inr (st, wiring_done W w))),
     removeImportedWiringEndpoint =
       (\<lambda>d W. rbind (removeImportedWiringEndpoint S d (wiring_part W)) (\<lambda>(st, w). Inr (st, wiring_done W w)))\<rparr>)"

definition manager_env :: "(wtm \<times> wiring_admin \<times> 'y) rsa_env \<Rightarrow> wa_env \<Rightarrow> 'y rsa_node_state wtm_env" where
  "manager_env env wenv = \<lparr>wtm_cx = rsa_cx env, wtm_admin = (\<lambda>wa. rsa_wiring_admin wenv),
     wtm_getService = (\<lambda>ref. (CELIX_SUCCESS, rsa_listener env))\<rparr>"

definition topology_import ::
    "(wtm \<times> 'x) rsa_state wtm_env \<Rightarrow> properties \<Rightarrow> (wtm \<times> 'x) rsa_state world \<Rightarrow>
     (celix_status \<times> (wtm \<times> 'x) rsa_state world) result" where
  "topology_import wenv p W =
     rbind (wiringTopologyManager_importWiringEndpoint wenv p (fst (outside (rest W))) W) (\<lambda>(st, m, W).
       Inr (st, W\<lparr>rest := (rest W)\<lparr>outside := (m, snd (outside (rest W)))\<rparr>\<rparr>))"

definition rsa_node :: "(wtm \<times> wiring_admin \<times> 'y) rsa_env \<Rightarrow> wa_env \<Rightarrow> (wtm \<times> wiring_admin \<times> 'y) rsa_env" where
  "rsa_node env wenv = (with_manager env (manager_env env wenv))\<lparr>wtm_import := (\<lambda>m. topology_import (manager_env env wenv))\<rparr>"

lemma wiring_done_conforms: "conforms (rest W) \<Longrightarrow> conforms (rest (wiring_done W w))"
  by (simp add: wiring_done_def extends_conforms [OF extends_other(2)])

interpretation node_calls: calls_keep "manager_env env wenv" "\<lambda>W. conforms (rest W)" for env wenv
  by unfold_locales
    (auto simp: manager_env_def rsa_wiring_admin_def Let_def rbind_eq_Inr rsa_listener_def wed_set_rest
      intro: wiring_done_conforms addWiringEndpoint_conforms removeWiringEndpoint_conforms)

interpretation managed: managers_conform "rsa_node env wenv" for env wenv
proof unfold_locales
  have out: "conforms (rest (W\<lparr>rest := (rest W)\<lparr>outside := x\<rparr>\<rparr>))" if "conforms (rest W)" for W :: "(wtm \<times> wiring_admin \<times> 'a) rsa_state world" and x
    using that by (simp add: extends_conforms [OF extends_other(2)])
  fix m st p and W W' :: "(wtm \<times> wiring_admin \<times> 'a) rsa_state world"
  show "conforms (rest W')" if "wtm_export (rsa_node env wenv) m p W = Inr (st, W')" "conforms (rest W)"
    using that by (auto simp: rsa_node_def with_manager_def topology_export_def rbind_eq_Inr intro: out dest: node_calls.export_keeps)
  show "conforms (rest W')" if "wtm_import (rsa_node env wenv) m p W = Inr (st, W')" "conforms (rest W)"
    using that by (auto simp: rsa_node_def topology_import_def rbind_eq_Inr intro: out dest: node_calls.import_keeps)
qed

section \<open>Reachable states\<close>

text \<open>
  The calls the framework, the other bundles and the clients of a proxy make, in any order. A
  topology manager that asks for an import starts with an empty variable for the registration.
  Endpoint descriptions are made by a discovery and are not freed while they are in use. The
  other bundles change what is theirs at any time.
\<close>

inductive rsa_reach :: "'x rsa_env \<Rightarrow> 'x rsa_state world \<Rightarrow> bool" for env where
  created: "remoteServiceAdmin_create env True W = Inr (st, W') \<Longrightarrow> rsa_reach env W'"
| exported: "rsa_reach env W \<Longrightarrow> remoteServiceAdmin_exportService env i p W = Inr (st, l, W') \<Longrightarrow> rsa_reach env W'"
| imported: "rsa_reach env W \<Longrightarrow> remoteServiceAdmin_importService env d None W = Inr (st, r, W') \<Longrightarrow> rsa_reach env W'"
| export_removed: "rsa_reach env W \<Longrightarrow> in_world (remoteServiceAdmin_removeExportedService env e) W = Inr (st, W') \<Longrightarrow> rsa_reach env W'"
| import_removed: "rsa_reach env W \<Longrightarrow> in_world (remoteServiceAdmin_removeImportedService env a) W = Inr (st, W') \<Longrightarrow> rsa_reach env W'"
| wire_added: "rsa_reach env W \<Longrightarrow> remoteServiceAdmin_addWiringEndpoint env w f W = Inr (st, W') \<Longrightarrow> rsa_reach env W'"
| wire_removed: "rsa_reach env W \<Longrightarrow> remoteServiceAdmin_removeWiringEndpoint env w f W = Inr (st, W') \<Longrightarrow> rsa_reach env W'"
| manager_added: "rsa_reach env W \<Longrightarrow> remoteServiceAdmin_wtmAdded env m W = Inr (st, W') \<Longrightarrow> rsa_reach env W'"
| listener_added: "rsa_reach env W \<Longrightarrow> in_world (remoteServiceAdmin_endpointListenerAdded env ref) W = Inr (st, W') \<Longrightarrow> rsa_reach env W'"
| listener_removed: "rsa_reach env W \<Longrightarrow> in_world (remoteServiceAdmin_endpointListenerRemoved env ref) W = Inr (st, W') \<Longrightarrow> rsa_reach env W'"
| sender_added: "rsa_reach env W \<Longrightarrow> remoteServiceAdmin_sendServiceAdded env q W = Inr (st, W') \<Longrightarrow> rsa_reach env W'"
| sender_removed: "rsa_reach env W \<Longrightarrow> remoteServiceAdmin_sendServiceRemoved env q W = Inr (st, W') \<Longrightarrow> rsa_reach env W'"
| received: "rsa_reach env W \<Longrightarrow> remoteServiceAdmin_receive env data (rest W) = Inr (st, response, s) \<Longrightarrow> rsa_reach env (W\<lparr>rest := s\<rparr>)"
| sent: "rsa_reach env W \<Longrightarrow> remoteServiceAdmin_send env d request out (rest W) = Inr (st, reply, s) \<Longrightarrow> rsa_reach env (W\<lparr>rest := s\<rparr>)"
| got: "rsa_reach env W \<Longrightarrow> importRegistration_getService env a b (rest W) = Inr (st, v, s) \<Longrightarrow> rsa_reach env (W\<lparr>rest := s\<rparr>)"
| given_back: "rsa_reach env W \<Longrightarrow> importRegistration_ungetService env a b v (rest W) = Inr (st, s) \<Longrightarrow> rsa_reach env (W\<lparr>rest := s\<rparr>)"
| described: "rsa_reach env W \<Longrightarrow> endpointDescription_create env p (rest W) = Inr (st, d, s) \<Longrightarrow> rsa_reach env (W\<lparr>rest := s\<rparr>)"
| elsewhere: "rsa_reach env W \<Longrightarrow> rsa_reach env (\<lparr>weds = d, rest = (rest W)\<lparr>outside := x\<rparr>\<rparr>)"
| stopped: "rsa_reach env W \<Longrightarrow> remoteServiceAdmin_stop env W = Inr (st, W') \<Longrightarrow> rsa_reach env W'"

lemma describe_extends: "endpointDescription_create env p s = Inr (st, d, s') \<Longrightarrow> extends s s'"
  by (auto simp: endpointDescription_create_def Let_def extends_def dest!: new_object_Some split: option.split_asm)

lemmas heap_extenders = receive_extends send_extends getService_extends ungetService_extends describe_extends
  listener_added_extends listener_removed_extends

context managers_conform
begin

lemma reach_conforms: "rsa_reach env W \<Longrightarrow> conforms (rest W)"
proof (induction rule: rsa_reach.induct)
  case created
  then show ?case by (rule created_conforms)
next
  case (exported W i p st l W')
  show ?case by (rule exportService_conforms) fact+
next
  case (imported W d st r W')
  show ?case by (rule importService_conforms) fact+
next
  case export_removed
  then show ?case by (auto elim!: in_worldE intro: removeExported_conforms)
next
  case import_removed
  then show ?case by (auto elim!: in_worldE intro: removeImported_conforms)
next
  case (wire_added W w f st W')
  show ?case by (rule addWiringEndpoint_conforms) fact+
next
  case (wire_removed W w f st W')
  show ?case by (rule removeWiringEndpoint_conforms) fact+
next
  case (manager_added W m st W')
  show ?case by (rule wtmAdded_conforms) fact+
next
  case (sender_added W q st W')
  show ?case by (rule send_service_conforms [OF disjI1]) fact+
next
  case (sender_removed W q st W')
  show ?case by (rule send_service_conforms [OF disjI2]) fact+
next
  case (elsewhere W d x)
  then show ?case by (simp add: extends_conforms [OF extends_other(2)])
next
  case (stopped W st W')
  show ?case by (rule stop_conforms) fact+
next
  case (listener_added W ref st W')
  show ?case by (rule in_world_conforms) (fact, fact, erule listener_added_extends)
next
  case (listener_removed W ref st W')
  show ?case by (rule in_world_conforms) (fact, fact, erule listener_removed_extends)
qed (auto intro: extends_conforms dest: heap_extenders)

end

text \<open>A request from the wire reads no memory that was freed.\<close>

lemma match_export_alive:
  assumes "\<forall>e \<in> set es. live_export s e"
  shows "match_export env s i es \<noteq> Inl UseAfterFree"
  using assms
proof (induction es)
  case (Cons e es)
  then obtain reg where reg: "exps s e = Some reg" "\<And>p. er_endpoint reg = Some p \<Longrightarrow> eps s p \<noteq> None"
    by (auto simp: live_export_def)
  have "exported_endpoint env s e \<noteq> Inl UseAfterFree"
    using reg
    by (auto simp: exported_endpoint_def exportRegistration_getExportReference_def exportReference_getExportedEndpoint_def
        rbind_eq_Inl deref_def split: option.split_asm)
  then show ?case using Cons by (auto simp: rbind_eq_Inl split: if_split_asm)
qed simp

lemma match_export_member: "match_export env s i es = Inr (Some e) \<Longrightarrow> e \<in> set es"
  by (induction es) (auto simp: rbind_eq_Inr split: if_split_asm)

lemma find_export_alive:
  assumes "\<forall>e \<in> set (concat (map snd m)). live_export s e" "\<And>e. acc = Some e \<Longrightarrow> live_export s e"
  shows "find_export env s i m acc \<noteq> Inl UseAfterFree \<and> (\<forall>e. find_export env s i m acc = Inr (Some e) \<longrightarrow> live_export s e)"
  using assms
proof (induction m arbitrary: acc)
  case (Cons x m)
  obtain ref es where x: "x = (ref, es)" by (cases x)
  have "match_export env s i es \<noteq> Inl UseAfterFree" by (rule match_export_alive) (use Cons.prems(1) x in simp)
  moreover have "live_export s e" if "match_export env s i es = Inr (Some e)" for e
    using match_export_member [OF that] Cons.prems(1) x by simp
  moreover have "find_export env s i m acc' \<noteq> Inl UseAfterFree \<and> (\<forall>e. find_export env s i m acc' = Inr (Some e) \<longrightarrow> live_export s e)"
    if "\<And>e. acc' = Some e \<Longrightarrow> live_export s e" for acc'
    by (rule Cons.IH) (use Cons.prems(1) x that in auto)
  ultimately show ?case
    using Cons.prems(2) x by (cases "match_export env s i es") (auto split: option.split)
qed simp

lemma receive_alive:
  assumes "conforms s"
  shows "remoteServiceAdmin_receive env data s \<noteq> Inl UseAfterFree"
proof -
  have live: "\<forall>e \<in> set (concat (map snd (exportedServices s))). live_export s e"
    using assms by (simp add: conforms_def all_exports_def live_export_def)
  have call: "exportRegistration_call env e d s \<noteq> Inl UseAfterFree" if "live_export s e" for e d
    using that by (auto simp: exportRegistration_call_def live_export_def deref_def case_prod_beta)
  show ?thesis
    using find_export_alive [OF live, of None env] call
    by (auto simp: remoteServiceAdmin_receive_def rbind_eq_Inl split: option.split prod.split)
qed

section \<open>The property\<close>

text \<open>C4. On a node with the topology manager and the wiring admin of this development, whatever
  happens leaves the tables of the remote service admin conforming: every export registration is
  allocated together with its endpoint description, every import registration with the
  description it is listed under, every receiver is allocated, and none of them is listed twice,
  in one entry or in two. So no
  request from the wire, whatever its text, reads freed memory.\<close>
theorem rsa_reachable_conforms:
  assumes "rsa_reach (rsa_node env wenv) W"
  shows "conforms (rest W) \<and> remoteServiceAdmin_receive (rsa_node env wenv) data (rest W) \<noteq> Inl UseAfterFree"
  using managed.reach_conforms [OF assms] receive_alive by blast

text \<open>A run for the witness: a manager without admins, a description and an import of it.\<close>

definition demo_run_env :: "(wtm \<times> wiring_admin \<times> nat) rsa_env" where
  "demo_run_env = rsa_node (demo_env_on id) demo_wa_env"

definition demo_described :: properties where
  "demo_described = [(''endpoint.framework.uuid'', ''fw-2''), (''endpoint.id'', ''ep-9''), (''objectClass'', ''calc''), (WIRE_ID_KEY, ''w1'')]"

definition demo_first :: "(wtm \<times> wiring_admin \<times> nat) rsa_state" where
  "demo_first = \<lparr>eps = Map.empty, exps = Map.empty, imps = Map.empty, proxs = Map.empty, sends = Map.empty, rcvs = Map.empty,
     exportedServices = [], importedServices = [], rsa_receiveServices = [], rsa_receiveRegistrations = [], exportedWires = [],
     sendServices = [], rsa_listenerList = [], wtmList = [], rsa_registration = None, held = [], outside = (demo_manager, demo_wa, 0)\<rparr>"

lemmas demo_run_defs = demo_run_env_def rsa_node_def with_manager_def demo_described_def demo_first_def demo_manager_def
  demo_env_on_def celix0_def

lemma demo_created: "remoteServiceAdmin_create demo_run_env True \<lparr>weds = Map.empty, rest = demo_first\<rparr> =
    Inr (CELIX_SUCCESS, \<lparr>weds = Map.empty, rest = demo_first\<rparr>)"
  by (simp add: remoteServiceAdmin_create_def remoteServiceAdmin_createSendServiceTracker_def no_tables_def demo_run_defs)

definition demo_known :: "(wtm \<times> wiring_admin \<times> nat) rsa_state" where
  "demo_known = demo_first\<lparr>eps := [1 \<mapsto> \<lparr>frameworkUUID = Some ''fw-2'', ep_id = Some ''ep-9'', ep_service = Some ''calc'',
     ep_properties = demo_described, ep_serviceId = 0\<rparr>]\<rparr>"

lemma demo_describes: "endpointDescription_create demo_run_env demo_described demo_first = Inr (CELIX_SUCCESS, 1, demo_known)"
  by (simp add: endpointDescription_create_def demo_run_defs demo_known_def new_object_def properties_get_def hashMap_get_def
      string_same_def same_key_def endpointDescription_verifyLongProperty_def WIRE_ID_KEY_def)

definition demo_managed :: "(wtm \<times> wiring_admin \<times> nat) rsa_state" where
  "demo_managed = demo_known\<lparr>wtmList := [9], rsa_registration := Some 6\<rparr>"

lemma demo_manages: "remoteServiceAdmin_wtmAdded demo_run_env 9 \<lparr>weds = Map.empty, rest = demo_known\<rparr> =
    Inr (CELIX_SUCCESS, \<lparr>weds = Map.empty, rest = demo_managed\<rparr>)"
  by (simp add: remoteServiceAdmin_wtmAdded_def wtm_listed_def wtm_imports_def wtm_exports_def register_admin_def in_world_def
      demo_managed_def demo_known_def demo_run_defs rsa_lock_def rsa_unlock_def)

definition demo_topology_asked :: wtm where
  "demo_topology_asked = demo_manager\<lparr>waitingForImport := [import_request demo_run_env ''w1'' (the (eps demo_known 1))]\<rparr>"

definition demo_run_end :: "(wtm \<times> wiring_admin \<times> nat) rsa_state" where
  "demo_run_end = demo_managed\<lparr>
      imps := [1 \<mapsto> \<lparr>ir_endpoint = 1, ir_classObject = ''calc'', ir_send = None, ir_factoryReg = None, ir_proxies = []\<rparr>],
      importedServices := [(1, Some 1)], outside := (demo_topology_asked, demo_wa, 0)\<rparr>"

lemma demo_run_env_simps:
  "rsa_cx demo_run_env = celix0" "unlock_free_ok demo_run_env"
  "wtm_import demo_run_env m = topology_import (manager_env (demo_env_on id) demo_wa_env)"
  "rsa_calloc demo_run_env ImportKind s = Some (if imps s 1 = None then 1 else 2)"
  by (simp_all add: demo_run_defs)

lemma demo_got: "properties_get celix0 demo_described WIRE_ID_KEY = Some ''w1''" "properties_get celix0 demo_described ''objectClass'' = Some ''calc''"
  by (simp_all add: properties_get_def hashMap_get_def string_same_def same_key_def demo_described_def celix0_def WIRE_ID_KEY_def)

lemma demo_locks: "celixThreadMutex_lock celix0 l = CELIX_SUCCESS" "celixThreadMutex_unlock celix0 l = CELIX_SUCCESS"
  by (simp_all add: celix0_def)

lemma demo_imports: "remoteServiceAdmin_importService demo_run_env 1 None \<lparr>weds = Map.empty, rest = demo_managed\<rparr> =
    Inr (CELIX_SUCCESS, Some 1, \<lparr>weds = Map.empty, rest = demo_run_end\<rparr>)"
  by (simp add: remoteServiceAdmin_importService_def import_recorded_def importRegistration_create_def in_world_def
      demo_managed_def demo_known_def demo_first_def demo_run_env_simps demo_got demo_locks rsa_lock_def rsa_unlock_def deref_def
      remoteServiceAdmin_getWTMs_def hashMap_put_empty offer_import_def topology_import_def new_object_def
      wiringTopologyManager_importWiringEndpoint_def demo_topology_asked_def demo_manager_def demo_wtm_def demo_run_end_def
      hashMap_containsKey_def wtmListLock_def importedServicesLock_def)

theorem rsa_reachable_conforms_witness:
  "\<exists>W :: (wtm \<times> wiring_admin \<times> nat) rsa_state world. importedServices (rest W) = [(1, Some 1)] \<and> conforms (rest W) \<and>
     remoteServiceAdmin_receive demo_run_env ''{3 {q}}'' (rest W) \<noteq> Inl UseAfterFree"
proof -
  let ?W = "\<lparr>weds = Map.empty, rest = demo_run_end\<rparr>"
  have "rsa_reach demo_run_env (\<lparr>weds = Map.empty, rest = demo_first\<rparr>\<lparr>rest := demo_known\<rparr>)"
    by (rule rsa_reach.described [OF rsa_reach.created [OF demo_created]]) (simp, rule demo_describes)
  then have "rsa_reach demo_run_env ?W" by (intro rsa_reach.imported [OF rsa_reach.manager_added [OF _ demo_manages] demo_imports]) simp
  then show ?thesis
    using rsa_reachable_conforms [of "demo_env_on id" demo_wa_env ?W "''{3 {q}}''"]
    by (intro exI [of _ ?W]) (simp add: demo_run_env_def [symmetric], simp add: demo_run_end_def)
qed

end
