(* ===== verification/Topology_Bundle.thy ===== *)
theory Topology_Bundle
  imports Topology_Frame
begin

text \<open>
  \<^verbatim>\<open>wiring_topology_manager/private/src/wtm_activator.c\<close>, the creation of the two trackers in
  \<^verbatim>\<open>wtm_wadmin_tracker.c\<close> and \<^verbatim>\<open>wtm_wendpointlistener_tracker.c\<close>, and
  \<^verbatim>\<open>wiringTopologyManager_destroy\<close> of \<^verbatim>\<open>wtm.c\<close>. What the framework answers is a record: opening a
  tracker reports the services that are there, closing it those that it still tracks.
\<close>

section \<open>Destroying the manager\<close>

text \<open>
  The result lists the properties that are destroyed, in order: the keys of the exported wires
  and the requests that wait for an import, the last one first.
\<close>

definition wiringTopologyManager_destroy :: "wtm \<Rightarrow> celix_status \<times> properties list" where
  "wiringTopologyManager_destroy m =
     (CELIX_SUCCESS, map fst (exportedWiringEndpoints m) @ rev (waitingForImport m))"

section \<open>Trackers\<close>

record wtm_framework =
  tb_calloc :: bool
  tb_malloc :: bool
  tb_calloc_listener :: bool
  tb_calloc_service :: bool
  tb_customizer_epl :: celix_status
  tb_create_epl :: "celix_status \<times> tracker"
  tb_customizer_wa :: celix_status
  tb_create_wa :: "celix_status \<times> tracker"
  tb_open_epl :: "celix_status \<times> service_reference list"
  tb_open_wa :: "service_reference list"
  tb_getService_wa :: "service_reference \<Rightarrow> celix_status \<times> wiring_admin_ptr"
  tb_register_listener :: "properties \<Rightarrow> celix_status \<times> registration"
  tb_register_service :: "properties \<Rightarrow> celix_status \<times> registration"
  tb_close_epl :: "service_reference list"
  tb_close_wa :: "service_reference list"

definition wiringTopologyManager_createWiringEndpointListenerTracker :: "wtm_framework \<Rightarrow> celix_status \<times> tracker option" where
  "wiringTopologyManager_createWiringEndpointListenerTracker fw =
     (if tb_customizer_epl fw = CELIX_SUCCESS
      then (case tb_create_epl fw of (status, t) \<Rightarrow> (status, if status = CELIX_SUCCESS then Some t else None))
      else (tb_customizer_epl fw, None))"

definition wiringTopologyManager_createWaTracker :: "wtm_framework \<Rightarrow> celix_status \<times> tracker option" where
  "wiringTopologyManager_createWaTracker fw =
     (if tb_customizer_wa fw = CELIX_SUCCESS
      then (case tb_create_wa fw of (status, t) \<Rightarrow> (status, if status = CELIX_SUCCESS then Some t else None))
      else (tb_customizer_wa fw, None))"

text \<open>A tracker tracks a service when the callback succeeds and leaves a service.\<close>

definition wiringTopologyManager_waAdding :: "wtm_framework \<Rightarrow> service_reference \<Rightarrow> celix_status \<times> wiring_admin_ptr option" where
  "wiringTopologyManager_waAdding fw ref =
     (case tb_getService_wa fw ref of (status, wa) \<Rightarrow> (status, if status = CELIX_SUCCESS then Some wa else None))"

definition wiringTopologyManager_wiringEndpointListenerAdding ::
    "'x wtm_env \<Rightarrow> service_reference \<Rightarrow> celix_status \<times> 'x wiring_endpoint_listener option" where
  "wiringTopologyManager_wiringEndpointListenerAdding env ref =
     (case wtm_getService env ref of (status, l) \<Rightarrow> (CELIX_SUCCESS, if status = CELIX_SUCCESS then Some l else None))"

definition wiringTopologyManager_waModified :: "wtm \<Rightarrow> celix_status \<times> wtm" where
  "wiringTopologyManager_waModified m = (CELIX_SUCCESS, m)"

definition track_wa :: "'x wtm_env \<Rightarrow> wtm_framework \<Rightarrow> service_reference \<Rightarrow> wtm \<times> 'x world \<Rightarrow> (wtm \<times> 'x world) result" where
  "track_wa env fw ref s =
     (case (wiringTopologyManager_waAdding fw ref, s) of
        ((status, Some wa), (m, w)) \<Rightarrow>
          if status = CELIX_SUCCESS then rbind (wiringTopologyManager_waAdded env wa m w) (\<lambda>(st, s). Inr s) else Inr (m, w)
      | ((status, None), s) \<Rightarrow> Inr s)"

definition track_listener :: "'x wtm_env \<Rightarrow> service_reference \<Rightarrow> wtm \<times> 'x world \<Rightarrow> (wtm \<times> 'x world) result" where
  "track_listener env ref s =
     (case (wiringTopologyManager_wiringEndpointListenerAdding env ref, s) of
        ((status, Some l), (m, w)) \<Rightarrow>
          if status = CELIX_SUCCESS
          then rbind (wiringTopologyManager_wiringEndpointListenerAdded env ref l m w) (\<lambda>(st, s). Inr s) else Inr (m, w)
      | ((status, None), s) \<Rightarrow> Inr s)"

definition untrack_wa :: "'x wtm_env \<Rightarrow> wtm_framework \<Rightarrow> service_reference \<Rightarrow> wtm \<times> 'x world \<Rightarrow> (wtm \<times> 'x world) result" where
  "untrack_wa env fw ref s =
     (case s of (m, w) \<Rightarrow>
        rbind (wiringTopologyManager_waRemoved env (snd (tb_getService_wa fw ref)) m w) (\<lambda>(st, s). Inr s))"

section \<open>The activator\<close>

record wtm_activator =
  ta_manager :: wtm
  ta_waTracker :: tracker
  ta_listenerTracker :: tracker
  ta_listener :: bool
  ta_listenerRegistration :: "registration option"
  ta_service :: bool
  ta_serviceRegistration :: "registration option"

text \<open>A failure leaves the activator to nobody: it is not handed to the framework and not freed.\<close>

definition wtm_bundleActivator_create :: "wtm_framework \<Rightarrow> celix_status \<times> wtm_activator option" where
  "wtm_bundleActivator_create fw =
     (if \<not> tb_calloc fw then (CELIX_ENOMEM, None)
      else case wiringTopologyManager_create (tb_malloc fw) of
        (status, None) \<Rightarrow> (status, None)
      | (status, Some m) \<Rightarrow>
          (case wiringTopologyManager_createWiringEndpointListenerTracker fw of
             (status, None) \<Rightarrow> (status, None)
           | (status, Some epl) \<Rightarrow>
               (case wiringTopologyManager_createWaTracker fw of
                  (status, None) \<Rightarrow> (status, None)
                | (status, Some wa) \<Rightarrow>
                    (status, Some \<lparr>ta_manager = m, ta_waTracker = wa, ta_listenerTracker = epl, ta_listener = False,
                       ta_listenerRegistration = None, ta_service = False, ta_serviceRegistration = None\<rparr>))))"

definition wtm_bundleActivator_destroy :: "wtm_activator option \<Rightarrow> celix_status \<times> properties list" where
  "wtm_bundleActivator_destroy act =
     (case act of None \<Rightarrow> (CELIX_BUNDLE_EXCEPTION, []) | Some a \<Rightarrow> wiringTopologyManager_destroy (ta_manager a))"

text \<open>The two scopes share one array, which is longer than either.\<close>

definition scope_length :: "celix \<Rightarrow> string \<Rightarrow> nat" where
  "scope_length cx uuid =
     14 + length (OSGI_FRAMEWORK_OBJECTCLASS cx) + length (OSGI_RSA_ENDPOINT_FRAMEWORK_UUID cx) + length uuid"

definition listener_properties :: "celix \<Rightarrow> string \<Rightarrow> properties" where
  "listener_properties cx uuid =
     properties_set cx
       (properties_set cx [] INAETICS_WIRING_ENDPOINT_LISTENER_SCOPE
          (Some (snprintf (scope_length cx uuid) (''(!('' @ OSGI_RSA_ENDPOINT_FRAMEWORK_UUID cx @ ''='' @ uuid @ ''))''))))
       ''WTM'' (Some ''true'')"

definition manager_properties :: "celix \<Rightarrow> string \<Rightarrow> properties" where
  "manager_properties cx uuid =
     properties_set cx [] ''wiring.topology_manager.scope''
       (Some (snprintf (scope_length cx uuid) (''('' @ OSGI_RSA_ENDPOINT_FRAMEWORK_UUID cx @ ''='' @ uuid @ '')'')))"

definition wtm_open_trackers ::
    "'x wtm_env \<Rightarrow> wtm_framework \<Rightarrow> celix_status \<Rightarrow> wtm \<times> 'x world \<Rightarrow> (celix_status \<times> wtm \<times> 'x world) result" where
  "wtm_open_trackers env fw status s =
     (if status \<noteq> CELIX_SUCCESS then Inr (status, s)
      else rbind (rfold (track_listener env) (snd (tb_open_epl fw)) s) (\<lambda>s.
        let status = fst (tb_open_epl fw) in
        if status \<noteq> CELIX_SUCCESS then Inr (status, s)
        else rbind (rfold (track_wa env fw) (tb_open_wa fw) s) (\<lambda>s. Inr (status, s))))"

text \<open>
  Without memory for the listener the activator destroys itself. The status of asking for the
  identifier decides whether the trackers are opened; the registrations are made in any case,
  their answers are dropped.
\<close>

definition wtm_bundleActivator_start ::
    "'x wtm_env \<Rightarrow> wtm_framework \<Rightarrow> wtm_activator \<Rightarrow> 'x world \<Rightarrow> (celix_status \<times> wtm_activator option \<times> 'x world) result" where
  "wtm_bundleActivator_start env fw act w =
     (let cx = wtm_cx env in
      if \<not> tb_calloc_listener fw then Inr (CELIX_ENOMEM, None, w)
      else
        let act = act\<lparr>ta_listener := True\<rparr>;
            (status, uuid) = bundleContext_getProperty cx (OSGI_FRAMEWORK_FRAMEWORK_UUID cx)
        in case uuid of
             None \<Rightarrow> Inr (CELIX_ILLEGAL_STATE, Some act, w)
           | Some u \<Rightarrow>
               let (st1, r1) = tb_register_listener fw (listener_properties cx u);
                   act = (if st1 = CELIX_SUCCESS then act\<lparr>ta_listenerRegistration := Some r1\<rparr> else act)
               in if \<not> tb_calloc_service fw then Inl NullPointer
                  else
                    let act = act\<lparr>ta_service := True\<rparr>;
                        (st2, r2) = tb_register_service fw (manager_properties cx u);
                        act = (if st2 = CELIX_SUCCESS then act\<lparr>ta_serviceRegistration := Some r2\<rparr> else act)
                    in rbind (wtm_open_trackers env fw status (ta_manager act, w)) (\<lambda>(status, m, w).
                         Inr (status, Some (act\<lparr>ta_manager := m\<rparr>), w)))"

text \<open>The pointers of the activator stay as they are; a registration that failed is NULL here.\<close>

definition wtm_bundleActivator_stop ::
    "'x wtm_env \<Rightarrow> wtm_framework \<Rightarrow> wtm_activator \<Rightarrow> 'x world \<Rightarrow> (celix_status \<times> wtm_activator \<times> 'x world) result" where
  "wtm_bundleActivator_stop env fw act w =
     (let m = fold (\<lambda>ref m. snd (wiringTopologyManager_wiringEndpointListenerRemoved env ref m)) (tb_close_epl fw) (ta_manager act)
      in rbind (rfold (untrack_wa env fw) (tb_close_wa fw) (m, w)) (\<lambda>(m, w).
           if ta_listenerRegistration act = None \<or> ta_serviceRegistration act = None then Inl NullPointer
           else Inr (CELIX_SUCCESS, act\<lparr>ta_manager := m\<rparr>, w)))"

section \<open>The services of the bundle\<close>

text \<open>
  The endpoint listener that the bundle registers, over a world that holds the manager beside
  the state of the others.
\<close>

definition topology_listener :: "(wtm \<times> 'x) wtm_env \<Rightarrow> (wtm \<times> 'x) wiring_endpoint_listener" where
  "topology_listener env = \<lparr>
     wiringEndpointAdded = (\<lambda>d scope W. rbind (wiringTopologyManager_WiringEndpointAdded env d (fst (rest W)) W) (\<lambda>(st, m, W).
       Inr (st, W\<lparr>rest := (m, snd (rest W))\<rparr>))),
     wiringEndpointRemoved = (\<lambda>d scope W. rbind (wiringTopologyManager_WiringEndpointRemoved env d (fst (rest W)) W) (\<lambda>(st, m, W).
       Inr (st, W\<lparr>rest := (m, snd (rest W))\<rparr>)))\<rparr>"

lemma topology_listener_contract:
  assumes "\<And>w. imports_keep env (wires_kept (wtm_cx env) w)"
  shows "listener_contract (wtm_cx env) (topology_listener env)"
proof unfold_locales
  have out: "wires_kept (wtm_cx env) W (V\<lparr>rest := x\<rparr>)" if "wires_kept (wtm_cx env) W V" for W V :: "(wtm \<times> 'a) world" and x
    using that by (simp add: wires_kept_def wireId_of_def)
  fix d s st and W W' :: "(wtm \<times> 'a) world"
  show "wires_kept (wtm_cx env) W W'" if "wiringEndpointAdded (topology_listener env) d s W = Inr (st, W')"
    using that imports_keep.endpointAdded_keeps [OF assms, of W W] by (auto simp: topology_listener_def rbind_eq_Inr intro: out)
  show "wires_kept (wtm_cx env) W W'" if "wiringEndpointRemoved (topology_listener env) d s W = Inr (st, W')"
    using that imports_keep.endpointRemoved_keeps [OF assms, of W W] by (auto simp: topology_listener_def rbind_eq_Inr intro: out)
qed

section \<open>Starting\<close>

text \<open>Both scopes fit, so neither is cut.\<close>

lemma scopes_fit:
  "map_of (listener_properties cx u) INAETICS_WIRING_ENDPOINT_LISTENER_SCOPE =
     Some (''(!('' @ OSGI_RSA_ENDPOINT_FRAMEWORK_UUID cx @ ''='' @ u @ ''))'')"
  "map_of (listener_properties cx u) ''WTM'' = Some ''true''"
  "map_of (manager_properties cx u) ''wiring.topology_manager.scope'' =
     Some (''('' @ OSGI_RSA_ENDPOINT_FRAMEWORK_UUID cx @ ''='' @ u @ '')'')"
  by (simp_all add: listener_properties_def manager_properties_def properties_set_map_of snprintf_def scope_length_def
      INAETICS_WIRING_ENDPOINT_LISTENER_SCOPE_def)

text \<open>A manager that knows no wire and no request.\<close>

definition idle :: "wtm \<Rightarrow> bool" where
  "idle m \<longleftrightarrow> exportedWiringEndpoints m = [] \<and> waitingForExport m = [] \<and> waitingForImport m = [] \<and> importedWiringEndpoints m = []"

lemma idle_waAdded:
  "idle m \<Longrightarrow> wiringTopologyManager_waAdded env wa m w = Inr (CELIX_SUCCESS, m\<lparr>waList := waList m @ [wa]\<rparr>, w)"
  by (simp add: idle_def wiringTopologyManager_waAdded_def wiringTopologyManager_checkWaitingForImportServices_def Let_def)

lemma idle_track_was:
  assumes "idle m"
  shows "rfold (track_wa env fw) refs (m, w) =
    Inr (m\<lparr>waList := waList m @ List.map_filter (\<lambda>r. snd (wiringTopologyManager_waAdding fw r)) refs\<rparr>, w)"
  using assms
proof (induction refs arbitrary: m)
  case (Cons r refs)
  have "idle (m\<lparr>waList := l\<rparr>)" for l using Cons.prems by (simp add: idle_def)
  then show ?case
    using Cons
    by (cases "tb_getService_wa fw r")
      (simp add: track_wa_def wiringTopologyManager_waAdding_def idle_waAdded List.map_filter_simps)
qed (simp add: List.map_filter_simps)

text \<open>The listeners that a tracker would report to the manager: those of other managers are not its own.\<close>

definition listens :: "'x wtm_env \<Rightarrow> service_reference \<Rightarrow> bool" where
  "listens env ref \<longleftrightarrow> fst (wtm_getService env ref) = CELIX_SUCCESS \<and> serviceReference_getProperty (wtm_cx env) ref ''WTM'' \<noteq> Some ''true''"

lemma idle_track_listeners:
  assumes "idle m" "\<forall>l. celixThreadMutex_lock (wtm_cx env) l = CELIX_SUCCESS"
  shows "\<exists>l. rfold (track_listener env) refs (m, w) = Inr (m\<lparr>listenerList := l\<rparr>, w) \<and>
    fst ` set l = fst ` set (listenerList m) \<union> {r \<in> set refs. listens env r}"
  using assms(1)
proof (induction refs arbitrary: m)
  case Nil
  then show ?case by (intro exI [of _ "listenerList m"]) simp
next
  case (Cons r refs)
  let ?l = "if listens env r then hashMap_put (wtm_cx env) (ptr_hash (wtm_cx env)) (ptr_same (wtm_cx env)) r () (listenerList m)
    else listenerList m"
  have step: "track_listener env r (m, w) = Inr (m\<lparr>listenerList := ?l\<rparr>, w)"
    using Cons.prems assms(2)
    by (cases "wtm_getService env r")
      (simp add: track_listener_def wiringTopologyManager_wiringEndpointListenerAdding_def listens_def idle_def
        wiringTopologyManager_wiringEndpointListenerAdded_def Let_def)
  have "idle (m\<lparr>listenerList := ?l\<rparr>)" using Cons.prems by (simp add: idle_def)
  from Cons.IH [OF this] obtain l where l:
      "rfold (track_listener env) refs (m\<lparr>listenerList := ?l\<rparr>, w) = Inr (m\<lparr>listenerList := l\<rparr>, w)"
      "fst ` set l = fst ` set ?l \<union> {r \<in> set refs. listens env r}" by auto
  have "fst ` set ?l = fst ` set (listenerList m) \<union> (if listens env r then {r} else {})" by (simp add: pmap.keys_put)
  then show ?case using step l by (intro exI [of _ l]) auto
qed

lemma created_idle:
  assumes "wtm_bundleActivator_create fw = (st, Some act)"
  shows "st = CELIX_SUCCESS" "idle (ta_manager act)" "waList (ta_manager act) = []" "listenerList (ta_manager act) = []"
  using assms
  by (auto simp: wtm_bundleActivator_create_def wiringTopologyManager_create_def wiringTopologyManager_createWaTracker_def
      wiringTopologyManager_createWiringEndpointListenerTracker_def idle_def split: if_split_asm option.split_asm prod.split_asm)

text \<open>
  C25. A new bundle that starts registers its endpoint listener for the wires of all other
  frameworks and its manager for its own one; the manager then knows the listeners that are
  there, its own left out, and the wiring admins, in the order in which they are found.
\<close>

theorem start_finds_services:
  assumes "wtm_bundleActivator_create fw = (CELIX_SUCCESS, Some act)" "tb_calloc_listener fw" "tb_calloc_service fw"
    and "bundleContext_getProperty (wtm_cx env) (OSGI_FRAMEWORK_FRAMEWORK_UUID (wtm_cx env)) = (CELIX_SUCCESS, Some u)"
    and "\<forall>l. celixThreadMutex_lock (wtm_cx env) l = CELIX_SUCCESS" "fst (tb_open_epl fw) = CELIX_SUCCESS"
    and "tb_register_listener fw (listener_properties (wtm_cx env) u) = (CELIX_SUCCESS, r1)"
    and "tb_register_service fw (manager_properties (wtm_cx env) u) = (CELIX_SUCCESS, r2)"
  shows "\<exists>m. wtm_bundleActivator_start env fw act w = Inr (CELIX_SUCCESS,
      Some (act\<lparr>ta_listener := True, ta_listenerRegistration := Some r1, ta_service := True, ta_serviceRegistration := Some r2,
        ta_manager := m\<rparr>), w) \<and>
    fst ` set (listenerList m) = {r \<in> set (snd (tb_open_epl fw)). listens env r} \<and>
    waList m = List.map_filter (\<lambda>r. snd (wiringTopologyManager_waAdding fw r)) (tb_open_wa fw) \<and>
    map_of (listener_properties (wtm_cx env) u) INAETICS_WIRING_ENDPOINT_LISTENER_SCOPE =
      Some (''(!('' @ OSGI_RSA_ENDPOINT_FRAMEWORK_UUID (wtm_cx env) @ ''='' @ u @ ''))'') \<and>
    map_of (manager_properties (wtm_cx env) u) ''wiring.topology_manager.scope'' =
      Some (''('' @ OSGI_RSA_ENDPOINT_FRAMEWORK_UUID (wtm_cx env) @ ''='' @ u @ '')'')"
proof -
  let ?m = "ta_manager act"
  note new = created_idle [OF assms(1)]
  obtain l where l: "rfold (track_listener env) (snd (tb_open_epl fw)) (?m, w) = Inr (?m\<lparr>listenerList := l\<rparr>, w)"
      "fst ` set l = {r \<in> set (snd (tb_open_epl fw)). listens env r}"
    using idle_track_listeners [OF new(2) assms(5), of "snd (tb_open_epl fw)" w] new(4) by auto
  have "idle (?m\<lparr>listenerList := l\<rparr>)" using new(2) by (simp add: idle_def)
  then have "wtm_open_trackers env fw CELIX_SUCCESS (?m, w) = Inr (CELIX_SUCCESS, ?m\<lparr>listenerList := l,
      waList := List.map_filter (\<lambda>r. snd (wiringTopologyManager_waAdding fw r)) (tb_open_wa fw)\<rparr>, w)"
    using l(1) assms(6) new(3) by (simp add: wtm_open_trackers_def idle_track_was)
  then show ?thesis
    using assms(2-4,7,8) l(2)
    by (intro exI [of _ "?m\<lparr>listenerList := l,
        waList := List.map_filter (\<lambda>r. snd (wiringTopologyManager_waAdding fw r)) (tb_open_wa fw)\<rparr>"])
      (simp add: wtm_bundleActivator_start_def scopes_fit Let_def)
qed

text \<open>
  A framework for the witnesses: the services 4 and 5 are wiring admins, but 4 is gone when it
  is asked for; 7 is a listener.
\<close>

definition demo_framework :: wtm_framework where
  "demo_framework = \<lparr>tb_calloc = True, tb_malloc = True, tb_calloc_listener = True, tb_calloc_service = True,
     tb_customizer_epl = CELIX_SUCCESS, tb_create_epl = (CELIX_SUCCESS, 20), tb_customizer_wa = CELIX_SUCCESS,
     tb_create_wa = (CELIX_SUCCESS, 21), tb_open_epl = (CELIX_SUCCESS, [7]), tb_open_wa = [4, 5],
     tb_getService_wa = (\<lambda>r. (if r = 4 then CELIX_ILLEGAL_STATE else CELIX_SUCCESS, r)),
     tb_register_listener = (\<lambda>p. (CELIX_SUCCESS, 30)), tb_register_service = (\<lambda>p. (CELIX_SUCCESS, 31)),
     tb_close_epl = [7], tb_close_wa = [5]\<rparr>"

definition demo_listener_env :: "nat wtm_env" where
  "demo_listener_env = demo_env\<lparr>wtm_getService := (\<lambda>r. (CELIX_SUCCESS,
     \<lparr>wiringEndpointAdded = (\<lambda>d s w. Inr (CELIX_SUCCESS, w\<lparr>rest := rest w + 10\<rparr>)),
      wiringEndpointRemoved = (\<lambda>d s w. Inr (CELIX_SUCCESS, w\<lparr>rest := rest w + 20\<rparr>))\<rparr>))\<rparr>"

definition demo_created :: wtm_activator where
  "demo_created = \<lparr>ta_manager = \<lparr>waList = [], listenerList = [], exportedWiringEndpoints = [], waitingForExport = [],
       waitingForImport = [], importedWiringEndpoints = []\<rparr>, ta_waTracker = 21, ta_listenerTracker = 20, ta_listener = False,
     ta_listenerRegistration = None, ta_service = False, ta_serviceRegistration = None\<rparr>"

theorem start_finds_services_witness:
  "\<exists>m. wtm_bundleActivator_start demo_listener_env demo_framework demo_created demo_world = Inr (CELIX_SUCCESS,
      Some (demo_created\<lparr>ta_listener := True, ta_listenerRegistration := Some 30, ta_service := True,
        ta_serviceRegistration := Some 31, ta_manager := m\<rparr>), demo_world) \<and>
    fst ` set (listenerList m) = {7} \<and> waList m = [5]"
proof -
  have found: "{r \<in> set (snd (tb_open_epl demo_framework)). listens demo_listener_env r} = {7}"
      "List.map_filter (\<lambda>r. snd (wiringTopologyManager_waAdding demo_framework r)) (tb_open_wa demo_framework) = [5]"
    by (auto simp: demo_framework_def demo_listener_env_def demo_defs listens_def wiringTopologyManager_waAdding_def
        List.map_filter_simps)
  show ?thesis
    using start_finds_services [of demo_framework demo_created demo_listener_env "''fw-1''" 30 31 demo_world] unfolding found
    by (simp add: demo_framework_def demo_listener_env_def demo_created_def demo_defs wtm_bundleActivator_create_def
        wiringTopologyManager_create_def wiringTopologyManager_createWaTracker_def
        wiringTopologyManager_createWiringEndpointListenerTracker_def) blast
qed

section \<open>Stopping\<close>

lemma notify_nobody: "listenerList m = [] \<Longrightarrow> notifyListeners (env\<lparr>wtm_getService := g\<rparr>) op m d w = notifyListeners env op m d w"
  by (simp add: notifyListeners_def Let_def cong: if_cong)

lemma notify_none:
  "listenerList m = [] \<Longrightarrow> notifyListeners env op m d w =
     Inr (if celixThreadMutex_lock (wtm_cx env) ''listenerListLock'' = CELIX_SUCCESS
          then celixThreadMutex_unlock (wtm_cx env) ''listenerListLock'' else celixThreadMutex_lock (wtm_cx env) ''listenerListLock'', w)"
  by (simp add: notifyListeners_def Let_def)

lemma waRemoved_nobody:
  assumes "listenerList m = []"
  shows "wiringTopologyManager_waRemoved (env\<lparr>wtm_getService := g\<rparr>) wa m w = wiringTopologyManager_waRemoved env wa m w"
proof -
  have "waRemoved_exported (env\<lparr>wtm_getService := g\<rparr>) m wa = waRemoved_exported env m wa"
    by (simp add: fun_eq_iff waRemoved_exported_def wiringTopologyManager_notifyListenersWiringEndpointRemoved_def
        notify_nobody [OF assms] cong: if_cong split: prod.split option.split)
  moreover have "waRemoved_imported (env\<lparr>wtm_getService := g\<rparr>) wa = waRemoved_imported env wa"
    by (simp add: fun_eq_iff waRemoved_imported_def)
  ultimately show ?thesis by (simp add: wiringTopologyManager_waRemoved_def)
qed

lemma waRemoved_frame:
  assumes "wiringTopologyManager_waRemoved env wa m w = Inr (st, m', w')" "wtm_inv m"
  shows "listenerList m' = listenerList m \<and> set (waList m') = set (waList m) - {wa}"
  using assms by (auto simp: wiringTopologyManager_waRemoved_def rbind_eq_Inr arrayList_removeElement_def wtm_inv_def)

lemma untrack_frame:
  assumes "untrack_wa env fw ref (m, w) = Inr (m', w')" "wtm_inv m"
  shows "wtm_inv m'" "listenerList m' = listenerList m" "set (waList m') = set (waList m) - {snd (tb_getService_wa fw ref)}"
  using assms waRemoved_inv waRemoved_frame by (fastforce simp: untrack_wa_def rbind_eq_Inr)+

lemma untrack_all:
  assumes "rfold (untrack_wa env fw) refs (m, w) = Inr (m', w')" "wtm_inv m" "listenerList m = []"
  shows "wtm_inv m' \<and> listenerList m' = [] \<and> set (waList m') = set (waList m) - (\<lambda>r. snd (tb_getService_wa fw r)) ` set refs \<and>
    rfold (untrack_wa (env\<lparr>wtm_getService := g\<rparr>) fw) refs (m, w) = Inr (m', w')"
  using assms
proof (induction refs arbitrary: m w)
  case (Cons ref refs)
  obtain m1 w1 where s: "untrack_wa env fw ref (m, w) = Inr (m1, w1)" "rfold (untrack_wa env fw) refs (m1, w1) = Inr (m', w')"
    using Cons.prems(1) by (auto simp: rbind_eq_Inr)
  have "untrack_wa (env\<lparr>wtm_getService := g\<rparr>) fw ref (m, w) = Inr (m1, w1)"
    using s(1) Cons.prems(3) by (simp add: untrack_wa_def waRemoved_nobody)
  then show ?case
    using Cons.IH [OF s(2)] untrack_frame [OF s(1) Cons.prems(2)] Cons.prems(3) by auto
qed simp

lemma listeners_dropped:
  assumes "celixThreadMutex_lock (wtm_cx env) ''listenerListLock'' = CELIX_SUCCESS"
  shows "fold (\<lambda>ref m. snd (wiringTopologyManager_wiringEndpointListenerRemoved env ref m)) refs m =
    m\<lparr>listenerList := fold (hashMap_remove (ptr_same (wtm_cx env))) refs (listenerList m)\<rparr>"
  using assms
  by (induction refs arbitrary: m) (simp_all add: wiringTopologyManager_wiringEndpointListenerRemoved_def)

lemma fold_remove_keys:
  "distinct (map fst l) \<Longrightarrow> fst ` set (fold (hashMap_remove (ptr_same cx)) refs l) = fst ` set l - set refs"
  by (induction refs arbitrary: l) (auto simp: pmap.remove_distinct pmap.keys_remove)

text \<open>The tracker of the listeners is closed first: no listener is left when the admins go.\<close>

lemma stop_parts:
  assumes "wtm_bundleActivator_stop env fw act w = Inr (st, act', w')"
    and "celixThreadMutex_lock (wtm_cx env) ''listenerListLock'' = CELIX_SUCCESS" "wtm_inv (ta_manager act)"
    and "fst ` set (listenerList (ta_manager act)) \<subseteq> set (tb_close_epl fw)"
  obtains m where "m = (ta_manager act)\<lparr>listenerList := []\<rparr>" "wtm_inv m"
    "rfold (untrack_wa env fw) (tb_close_wa fw) (m, w) = Inr (ta_manager act', w')" "act' = act\<lparr>ta_manager := ta_manager act'\<rparr>"
    "ta_listenerRegistration act \<noteq> None" "ta_serviceRegistration act \<noteq> None" "st = CELIX_SUCCESS"
proof -
  let ?l = "fold (hashMap_remove (ptr_same (wtm_cx env))) (tb_close_epl fw) (listenerList (ta_manager act))"
  have "fst ` set ?l = {}" using assms(3,4) by (simp add: fold_remove_keys wtm_inv_def)
  then have "?l = []" by simp
  then have "rbind (rfold (untrack_wa env fw) (tb_close_wa fw) ((ta_manager act)\<lparr>listenerList := []\<rparr>, w)) (\<lambda>(m, w).
      if ta_listenerRegistration act = None \<or> ta_serviceRegistration act = None then Inl NullPointer
      else Inr (CELIX_SUCCESS, act\<lparr>ta_manager := m\<rparr>, w)) = Inr (st, act', w')"
    using assms(1) by (simp add: wtm_bundleActivator_stop_def listeners_dropped [OF assms(2)] Let_def)
  moreover have "wtm_inv ((ta_manager act)\<lparr>listenerList := []\<rparr>)" using assms(3) by (simp add: wtm_inv_def)
  ultimately show thesis by (intro that [OF refl]) (auto simp: rbind_eq_Inr split: if_split_asm)
qed

text \<open>
  What an admin is asked when it goes: to remove each exported wire that is recorded with it, in
  the order of the entries, then to remove each endpoint that it imported.
\<close>

definition wires_of :: "wiring_admin_ptr \<Rightarrow> (properties \<times> (wiring_admin_ptr \<times> wed_ptr) list) list \<Rightarrow> wed_ptr list" where
  "wires_of wa ex = concat (map (\<lambda>e. map snd (filter (\<lambda>e. fst e = wa) (snd e))) ex)"

definition imports_of :: "wiring_admin_ptr \<Rightarrow> (wed_ptr \<times> wiring_admin_ptr list) list \<Rightarrow> wed_ptr list" where
  "imports_of wa im = map fst (filter (\<lambda>(d, was). wa \<in> set was) im)"

definition removal_calls ::
    "'x wtm_env \<Rightarrow> wtm \<Rightarrow> wiring_admin_ptr \<Rightarrow> ('x world \<Rightarrow> (celix_status \<times> 'x world) result) list" where
  "removal_calls env m wa =
     map (removeExportedWiringEndpoint (wtm_admin env wa)) (wires_of wa (exportedWiringEndpoints m)) @
     map (removeImportedWiringEndpoint (wtm_admin env wa)) (imports_of wa (importedWiringEndpoints m))"

definition calls_made :: "('x world \<Rightarrow> (celix_status \<times> 'x world) result) list \<Rightarrow> 'x world \<Rightarrow> 'x world result" where
  "calls_made fs = rfold (\<lambda>f w. rbind (f w) (\<lambda>(st, w). Inr w)) fs"

lemma calls_made_simps [simp]:
  "calls_made [] w = Inr w"
  "calls_made (f # fs) w = rbind (f w) (\<lambda>(st, w). calls_made fs w)"
  by (simp add: calls_made_def) (cases "f w"; auto simp: calls_made_def)

lemma calls_made_append: "calls_made (fs @ gs) w = rbind (calls_made fs w) (calls_made gs)"
  by (simp add: calls_made_def rfold_append)

definition locks_work :: "'x wtm_env \<Rightarrow> bool" where
  "locks_work env \<longleftrightarrow> celixThreadMutex_lock (wtm_cx env) ''listenerListLock'' = CELIX_SUCCESS \<and>
     celixThreadMutex_unlock (wtm_cx env) ''listenerListLock'' = CELIX_SUCCESS"

text \<open>An entry has at most one wire of an admin.\<close>

lemma admin_entry:
  assumes "distinct (map fst l)"
  shows "hashMap_get (ptr_same cx) l wa = None \<Longrightarrow> filter (\<lambda>e. fst e = wa) l = [] \<and> filter (\<lambda>e. fst e \<noteq> wa) l = l"
    and "hashMap_get (ptr_same cx) l wa = Some d \<Longrightarrow> filter (\<lambda>e. fst e = wa) l = [(wa, d)] \<and>
      hashMap_remove (ptr_same cx) wa l = filter (\<lambda>e. fst e \<noteq> wa) l"
proof -
  have none: "filter (\<lambda>e. fst e = wa) l = [] \<and> filter (\<lambda>e. fst e \<noteq> wa) l = l" if "wa \<notin> fst ` set l"
    using that by (induction l) auto
  show "hashMap_get (ptr_same cx) l wa = None \<Longrightarrow> filter (\<lambda>e. fst e = wa) l = [] \<and> filter (\<lambda>e. fst e \<noteq> wa) l = l"
    using none by (simp add: pmap.get_map_of map_of_eq_None_iff)
  show "hashMap_get (ptr_same cx) l wa = Some d \<Longrightarrow> filter (\<lambda>e. fst e = wa) l = [(wa, d)] \<and>
      hashMap_remove (ptr_same cx) wa l = filter (\<lambda>e. fst e \<noteq> wa) l"
    using assms
  proof (induction l)
    case (Cons e l)
    obtain a c where e: "e = (a, c)" by (cases e)
    have rest: "filter (\<lambda>e. fst e = wa) l = []" "filter (\<lambda>e. fst e \<noteq> wa) l = l" if "wa \<notin> fst ` set l"
      using that by (induction l) auto
    show ?case using Cons rest by (auto simp: e hashMap_get_def pmap.same_iff)
  qed (simp add: hashMap_get_def)
qed

lemma exported_calls:
  assumes "rmapfold (waRemoved_exported env m wa) ex (st, w) = Inr (ex', st', w')" "listenerList m = []" "locks_work env"
    and "\<forall>(p, l) \<in> set ex. distinct (map fst l)"
  shows "calls_made (map (removeExportedWiringEndpoint (wtm_admin env wa)) (wires_of wa ex)) w = Inr w' \<and>
    ex' = map (\<lambda>e. (fst e, filter (\<lambda>e. fst e \<noteq> wa) (snd e))) ex"
  using assms(1,4)
proof (induction ex arbitrary: st w ex')
  case (Cons e ex)
  obtain p l where e: "e = (p, l)" by (cases e)
  obtain y st1 w1 ys where run: "waRemoved_exported env m wa (p, l) (st, w) = Inr (y, st1, w1)"
      "rmapfold (waRemoved_exported env m wa) ex (st1, w1) = Inr (ys, st', w')" "ex' = y # ys"
    using Cons.prems(1) by (auto simp: e rbind_eq_Inr)
  have l: "distinct (map fst l)" using Cons.prems(2) by (simp add: e)
  have quiet: "wiringTopologyManager_notifyListenersWiringEndpointRemoved env m d v = Inr (CELIX_SUCCESS, v)" for d v
    using assms(3) by (simp add: wiringTopologyManager_notifyListenersWiringEndpointRemoved_def notify_none [OF assms(2)] locks_work_def)
  have "calls_made (map (removeExportedWiringEndpoint (wtm_admin env wa)) (map snd (filter (\<lambda>e. fst e = wa) l))) w = Inr w1 \<and>
      y = (p, filter (\<lambda>e. fst e \<noteq> wa) l)"
  proof (cases "hashMap_get (ptr_same (wtm_cx env)) l wa")
    case None
    then show ?thesis using run(1) admin_entry(1) [OF l None] by (simp add: waRemoved_exported_def)
  next
    case (Some d)
    then show ?thesis using run(1) admin_entry(2) [OF l Some] by (auto simp: waRemoved_exported_def quiet rbind_eq_Inr)
  qed
  moreover have "calls_made (map (removeExportedWiringEndpoint (wtm_admin env wa)) (wires_of wa ex)) w1 = Inr w' \<and>
      ys = map (\<lambda>e. (fst e, filter (\<lambda>e. fst e \<noteq> wa) (snd e))) ex"
    by (rule Cons.IH [OF run(2)]) (use Cons.prems(2) in simp)
  ultimately show ?case by (simp add: e run(3) wires_of_def calls_made_append)
qed (simp add: wires_of_def)

lemma imported_calls:
  assumes "rmapfold (waRemoved_imported env wa) im (st, w) = Inr (im', st', w')"
  shows "calls_made (map (removeImportedWiringEndpoint (wtm_admin env wa)) (imports_of wa im)) w = Inr w' \<and>
    (\<forall>a. a \<noteq> wa \<longrightarrow> imports_of a im' = imports_of a im)"
  using assms
proof (induction im arbitrary: st w im')
  case (Cons e im)
  obtain d was where e: "e = (d, was)" by (cases e)
  obtain y st1 w1 ys where run: "waRemoved_imported env wa (d, was) (st, w) = Inr (y, st1, w1)"
      "rmapfold (waRemoved_imported env wa) im (st1, w1) = Inr (ys, st', w')" "im' = y # ys"
    using Cons.prems by (auto simp: e rbind_eq_Inr)
  have "calls_made (if wa \<in> set was then [removeImportedWiringEndpoint (wtm_admin env wa) d] else []) w = Inr w1 \<and>
      (\<exists>was'. y = (d, was') \<and> (\<forall>a. a \<noteq> wa \<longrightarrow> a \<in> set was' \<longleftrightarrow> a \<in> set was))"
    using run(1) by (auto simp: waRemoved_imported_def arrayList_contains_def arrayList_removeElement_def rbind_eq_Inr split: if_split_asm)
  then show ?case using Cons.IH [OF run(2)]
    by (cases "wa \<in> set was") (auto simp: e run(3) imports_of_def rbind_eq_Inr)
qed (simp add: imports_of_def)

lemma waRemoved_calls:
  assumes "wiringTopologyManager_waRemoved env wa m w = Inr (st, m', w')" "listenerList m = []" "locks_work env" "wtm_inv m"
  shows "calls_made (removal_calls env m wa) w = Inr w' \<and> (\<forall>a. a \<noteq> wa \<longrightarrow> removal_calls env m' a = removal_calls env m a)"
proof -
  obtain ex st1 w1 im where ex: "rmapfold (waRemoved_exported env m wa) (exportedWiringEndpoints m) (CELIX_SUCCESS, w) = Inr (ex, st1, w1)"
      and im: "rmapfold (waRemoved_imported env wa) (importedWiringEndpoints m) (st1, w1) = Inr (im, st, w')"
      and m': "exportedWiringEndpoints m' = ex" "importedWiringEndpoints m' = im"
    using assms(1) by (auto simp: wiringTopologyManager_waRemoved_def rbind_eq_Inr)
  have "\<forall>(p, l) \<in> set (exportedWiringEndpoints m). distinct (map fst l)"
    using assms(4) by (auto simp: wtm_inv_def exported_known_def admins_known_def)
  note calls = exported_calls [OF ex assms(2,3) this] imported_calls [OF im]
  have "wires_of a ex = wires_of a (exportedWiringEndpoints m)" if "a \<noteq> wa" for a
  proof -
    have "filter (\<lambda>e. fst e \<noteq> wa \<and> fst e = a) l = filter (\<lambda>e. fst e = a) l" for l :: "(wiring_admin_ptr \<times> wed_ptr) list"
      by (rule filter_cong) (use that in auto)
    then show ?thesis using calls(1) by (simp add: wires_of_def comp_def)
  qed
  then show ?thesis using calls by (simp add: removal_calls_def m' calls_made_append)
qed

lemma untrack_calls:
  assumes "rfold (untrack_wa env fw) refs (m, w) = Inr (m', w')" "listenerList m = []" "locks_work env" "wtm_inv m"
    and "distinct (map (\<lambda>r. snd (tb_getService_wa fw r)) refs)"
  shows "calls_made (concat (map (\<lambda>r. removal_calls env m (snd (tb_getService_wa fw r))) refs)) w = Inr w'"
  using assms
proof (induction refs arbitrary: m w)
  case (Cons ref refs)
  let ?wa = "snd (tb_getService_wa fw ref)"
  obtain m1 w1 where s: "untrack_wa env fw ref (m, w) = Inr (m1, w1)" "rfold (untrack_wa env fw) refs (m1, w1) = Inr (m', w')"
    using Cons.prems(1) by (auto simp: rbind_eq_Inr)
  obtain st where "wiringTopologyManager_waRemoved env ?wa m w = Inr (st, m1, w1)"
    using s(1) by (auto simp: untrack_wa_def rbind_eq_Inr)
  note calls = waRemoved_calls [OF this Cons.prems(2-4)]
  have "calls_made (concat (map (\<lambda>r. removal_calls env m1 (snd (tb_getService_wa fw r))) refs)) w1 = Inr w'"
    using Cons.IH [OF s(2)] untrack_frame [OF s(1) Cons.prems(4)] Cons.prems(2,3,5) by simp
  moreover have "map (\<lambda>r. removal_calls env m1 (snd (tb_getService_wa fw r))) refs = map (\<lambda>r. removal_calls env m (snd (tb_getService_wa fw r))) refs"
  proof (rule map_cong [OF refl])
    fix x
    assume "x \<in> set refs"
    then have "snd (tb_getService_wa fw x) \<in> (\<lambda>r. snd (tb_getService_wa fw r)) ` set refs" by (rule imageI)
    then have "snd (tb_getService_wa fw x) \<noteq> ?wa" using Cons.prems(5) by auto
    then show "removal_calls env m1 (snd (tb_getService_wa fw x)) = removal_calls env m (snd (tb_getService_wa fw x))"
      using calls by blast
  qed
  ultimately show ?case using calls by (simp add: calls_made_append)
qed simp


definition demo_running :: wtm_activator where
  "demo_running = demo_created\<lparr>ta_listener := True, ta_listenerRegistration := Some 30, ta_service := True,
     ta_serviceRegistration := Some 31, ta_manager := (ta_manager demo_created)\<lparr>waList := [5], listenerList := [(7, ())],
       exportedWiringEndpoints := [(demo_srvc, [(5, 1)])]\<rparr>\<rparr>"

definition demo_stopped :: wtm_activator where
  "demo_stopped = demo_running\<lparr>ta_manager := (ta_manager demo_created)\<lparr>exportedWiringEndpoints := [(demo_srvc, [])]\<rparr>\<rparr>"


end
