(* ===== verification/Discovery_Bundle.thy ===== *)
theory Discovery_Bundle
  imports Etcd_Watcher_Correct
begin

text \<open>
  \<^verbatim>\<open>node_discovery/private/src/node_discovery_activator.c\<close>: the life cycle of the node discovery.
  The thread of the watcher runs between starting and stopping. What the framework answers is a
  record: opening the tracker reports the listeners that are there, closing it those that it
  still tracks.
\<close>

section \<open>The activator\<close>

record nd_framework =
  nb_calloc :: bool
  nb_calloc_discovery :: bool
  nb_mutex :: "string \<Rightarrow> celix_status"
  nb_customizer :: celix_status
  nb_create :: "celix_status \<times> tracker"
  nb_calloc_listener :: bool
  nb_calloc_watcher :: bool
  nb_thread :: "celix_status list"
  nb_open :: "celix_status \<times> service_reference list"
  nb_register :: "properties \<Rightarrow> celix_status \<times> registration"
  nb_close :: "service_reference list"

record nd_activator =
  da_discovery :: node_discovery
  da_watcher :: "etcd_conn option"
  da_tracker :: tracker
  da_listener :: bool
  da_registration :: "registration option"

definition createWiringEndpointListenerTracker :: "nd_framework \<Rightarrow> celix_status \<times> tracker option" where
  "createWiringEndpointListenerTracker fw =
     (if nb_customizer fw = CELIX_SUCCESS
      then (case nb_create fw of (status, t) \<Rightarrow> (status, if status = CELIX_SUCCESS then Some t else None))
      else (nb_customizer fw, None))"

definition nd_bundleActivator_create :: "celix \<Rightarrow> nd_framework \<Rightarrow> celix_status \<times> nd_activator option" where
  "nd_bundleActivator_create cx fw =
     (if \<not> nb_calloc fw then (CELIX_ENOMEM, None)
      else case node_discovery_create cx (nb_calloc_discovery fw) (nb_mutex fw) of
        (status, None) \<Rightarrow> (status, None)
      | (status, Some nd) \<Rightarrow>
          (case createWiringEndpointListenerTracker fw of
             (status, None) \<Rightarrow> (status, None)
           | (status, Some t) \<Rightarrow>
               (status, Some \<lparr>da_discovery = nd, da_watcher = None, da_tracker = t, da_listener = False, da_registration = None\<rparr>)))"

text \<open>The scope is printed into an array of \<open>len + 1\<close> characters.\<close>

definition discovery_scope :: "celix \<Rightarrow> string \<Rightarrow> string result" where
  "discovery_scope cx uuid =
     (let len = 11 + length (OSGI_FRAMEWORK_OBJECTCLASS cx) + length (OSGI_RSA_ENDPOINT_FRAMEWORK_UUID cx) + length uuid;
          scope = ''('' @ OSGI_RSA_ENDPOINT_FRAMEWORK_UUID cx @ ''='' @ uuid @ '')''
      in if length scope < len + 1 then Inr scope else Inl BufferOverflow)"

definition node_discovery_wiringEndpointListenerAdding ::
    "'x nd_env \<Rightarrow> service_reference \<Rightarrow> 'x wiring_endpoint_listener option" where
  "node_discovery_wiringEndpointListenerAdding env ref = nd_getService env ref"

definition track_discovery_listener ::
    "'x nd_env \<Rightarrow> service_reference \<Rightarrow> node_discovery \<times> 'x world \<Rightarrow> (node_discovery \<times> 'x world) result" where
  "track_discovery_listener env ref s =
     (case (node_discovery_wiringEndpointListenerAdding env ref, s) of
        (None, s) \<Rightarrow> Inr s
      | (Some l, (nd, w)) \<Rightarrow> rbind (node_discovery_wiringEndpointListenerAdded env ref l nd w) (\<lambda>(st, s). Inr s))"

definition nd_bundleActivator_start ::
    "'x ew_env \<Rightarrow> nd_framework \<Rightarrow> nd_activator \<Rightarrow> 'x world \<Rightarrow> (celix_status \<times> nd_activator \<times> 'x world) result" where
  "nd_bundleActivator_start env fw act w =
     (let cx = ew_cx env; (status, uuid) = bundleContext_getProperty cx (OSGI_FRAMEWORK_FRAMEWORK_UUID cx) in
      if status \<noteq> CELIX_SUCCESS then Inr (status, act, w)
      else case uuid of
        None \<Rightarrow> Inl NullPointer
      | Some u \<Rightarrow>
          if \<not> nb_calloc_listener fw then Inr (CELIX_ENOMEM, act, w)
          else rbind (discovery_scope cx u) (\<lambda>scope.
            let act = act\<lparr>da_listener := True\<rparr>;
                props = properties_set cx (properties_set cx [] ''NODE_DISCOVERY'' (Some ''true''))
                          ''wiring.endpoint.listener.scope'' (Some scope)
            in rbind (node_discovery_start env (nb_calloc_watcher fw) (nb_thread fw) (da_discovery act) w) (\<lambda>(status, conn, running, w).
                 let act = act\<lparr>da_watcher := conn\<rparr> in
                 if status \<noteq> CELIX_SUCCESS then Inr (status, act, w)
                 else rbind (rfold (track_discovery_listener (ew_nd env)) (snd (nb_open fw)) (da_discovery act, w)) (\<lambda>(nd, w).
                   let act = act\<lparr>da_discovery := nd\<rparr>; status = fst (nb_open fw) in
                   if status \<noteq> CELIX_SUCCESS then Inr (status, act, w)
                   else case nb_register fw props of (status, r) \<Rightarrow>
                     Inr (status, if status = CELIX_SUCCESS then act\<lparr>da_registration := Some r\<rparr> else act, w)))))"

text \<open>Stopping uses the watcher and the registration whether or not the start made them.\<close>

definition nd_bundleActivator_stop ::
    "'x ew_env \<Rightarrow> nd_framework \<Rightarrow> nd_activator \<Rightarrow> 'x world \<Rightarrow> (celix_status \<times> nd_activator \<times> 'x world) result" where
  "nd_bundleActivator_stop env fw act w =
     (case da_watcher act of
        None \<Rightarrow> Inl NullPointer
      | Some conn \<Rightarrow>
          rbind (etcdWatcher_destroy (env\<lparr>ew_conn := conn\<rparr>) (ownNode (da_discovery act)) w) (\<lambda>(st, w).
          rbind (node_discovery_stop (ew_nd env) st (da_discovery act) w) (\<lambda>(st, w).
            let nd = fold (\<lambda>ref nd. snd (node_discovery_wiringEndpointListenerRemoved (ew_cx env) ref nd)) (nb_close fw) (da_discovery act)
            in if da_registration act = None then Inl NullPointer
               else Inr (CELIX_SUCCESS, act\<lparr>da_discovery := nd\<rparr>, w))))"

definition nd_bundleActivator_destroy :: "nd_activator \<Rightarrow> 'x world \<Rightarrow> (celix_status \<times> 'x world) result" where
  "nd_bundleActivator_destroy act w =
     rbind (node_discovery_destroy (da_discovery act) w) (\<lambda>(st, w). Inr (CELIX_SUCCESS, w))"

end
