(* ===== verification/Discovery_Bundle_Correct.thy ===== *)
theory Discovery_Bundle_Correct
  imports Discovery_Bundle
begin

text \<open>
  What holds of the discovered endpoints from the creation of the bundle to its end: the
  discovery owns the descriptions that the watcher makes for it. The listeners are only known
  through their contract.
\<close>

section \<open>Discovered endpoints\<close>

text \<open>
  Every discovered endpoint is listed once, its description is alive and has a wire id, and no
  node is known twice.
\<close>

definition found :: "node_discovery \<Rightarrow> wed_ptr list" where
  "found nd = concat (map (wiring_ep_descriptions_list \<circ> snd) (discoveredNodes nd))"

definition nd_sound :: "celix \<Rightarrow> node_discovery \<Rightarrow> 'x world \<Rightarrow> bool" where
  "nd_sound cx nd w \<longleftrightarrow> distinct (map fst (discoveredNodes nd)) \<and> distinct (found nd) \<and>
     (\<forall>d \<in> set (found nd). wireId_of cx w d \<noteq> None)"

lemma nd_sound_wires: "nd_sound cx nd w \<Longrightarrow> wires_kept cx w w' \<Longrightarrow> nd_sound cx nd w'"
  by (simp add: nd_sound_def wires_kept_def)

lemma nd_sound_weds: "nd_sound cx nd w \<Longrightarrow> weds w' = weds w \<Longrightarrow> nd_sound cx nd w'"
  by (simp add: nd_sound_def wireId_of_def)

lemma nd_sound_alive: "nd_sound cx nd w \<Longrightarrow> d \<in> set (found nd) \<Longrightarrow> weds w d \<noteq> None"
  by (cases "weds w d") (auto simp: nd_sound_def wireId_of_def)

text \<open>The list of one node is replaced by another one.\<close>

lemma nd_sound_replace:
  assumes "nd_sound cx nd w" "map_of (discoveredNodes nd) nid = Some old"
    and "distinct l" "set l \<inter> set (found nd) \<subseteq> set (wiring_ep_descriptions_list old)"
    and "\<forall>d \<in> (set (found nd) - set (wiring_ep_descriptions_list old)) \<union> set l. wireId_of cx w' d \<noteq> None"
  shows "nd_sound cx (nd\<lparr>discoveredNodes := hashMap_replace (string_same cx) nid (old\<lparr>wiring_ep_descriptions_list := l\<rparr>) (discoveredNodes nd)\<rparr>) w'"
proof -
  have "hashMap_get (string_same cx) (discoveredNodes nd) nid = Some old" using assms(2) by (simp add: smap.get_map_of)
  then obtain pre k post where m: "discoveredNodes nd = pre @ (k, old) # post"
      "\<And>v. hashMap_replace (string_same cx) nid v (discoveredNodes nd) = pre @ (k, v) # post"
    using hashMap_replace_split by fast
  obtain A B where AB: "concat (map (wiring_ep_descriptions_list \<circ> snd) pre) = A"
      "concat (map (wiring_ep_descriptions_list \<circ> snd) post) = B" by blast
  have f: "found nd = A @ wiring_ep_descriptions_list old @ B" by (simp add: found_def m(1) AB)
  have "distinct (found nd)" "distinct (map fst (discoveredNodes nd))" using assms(1) by (simp_all add: nd_sound_def)
  then have "distinct (A @ l @ B)" "distinct (map fst (pre @ (k, old) # post))"
    using assms(3,4) unfolding f m(1) by auto
  moreover have "\<forall>d \<in> set (A @ l @ B). wireId_of cx w' d \<noteq> None"
    using assms(5) \<open>distinct (found nd)\<close> unfolding f by auto
  ultimately show ?thesis by (simp add: nd_sound_def found_def m(2) AB)
qed

lemma nd_sound_put:
  assumes "nd_sound cx nd w" "map_of (discoveredNodes nd) nid = None"
    and "distinct (wiring_ep_descriptions_list n)" "set (wiring_ep_descriptions_list n) \<inter> set (found nd) = {}"
    and "\<forall>d \<in> set (found nd) \<union> set (wiring_ep_descriptions_list n). wireId_of cx w' d \<noteq> None"
  shows "nd_sound cx (nd\<lparr>discoveredNodes := hashMap_put cx h (string_same cx) nid n (discoveredNodes nd)\<rparr>) w'"
proof -
  have new: "\<not> hashMap_containsKey (string_same cx) (discoveredNodes nd) nid"
    using assms(2) by (simp add: smap.containsKey_iff map_of_eq_None_iff)
  obtain pre post where m: "discoveredNodes nd = pre @ post"
      "hashMap_put cx h (string_same cx) nid n (discoveredNodes nd) = pre @ (nid, n) # post"
    using hashMap_put_split [OF new] by blast
  obtain A B where AB: "concat (map (wiring_ep_descriptions_list \<circ> snd) pre) = A"
      "concat (map (wiring_ep_descriptions_list \<circ> snd) post) = B" by blast
  have f: "found nd = A @ B" by (simp add: found_def m(1) AB)
  have "distinct (A @ wiring_ep_descriptions_list n @ B)"
    using assms(1,3,4) unfolding nd_sound_def f by auto
  moreover have "distinct (map fst (pre @ (nid, n) # post))"
    using assms(1,2) unfolding nd_sound_def m(1) by (auto simp: map_of_eq_None_iff)
  ultimately show ?thesis using assms(5) unfolding f by (simp add: nd_sound_def found_def m(2) AB ball_Un) 
qed

text \<open>The reports of the watcher name one new endpoint, or none when there was no memory for it.\<close>

definition fresh_report :: "celix \<Rightarrow> node_discovery \<Rightarrow> 'x world \<Rightarrow> node_description \<Rightarrow> bool" where
  "fresh_report cx nd w n \<longleftrightarrow> nodeId n \<noteq> None \<and> (wiring_ep_descriptions_list n = [] \<or>
     (\<exists>d. wiring_ep_descriptions_list n = [d] \<and> d \<notin> set (found nd) \<and> wireId_of cx w d \<noteq> None))"

lemma add_wep_cases:
  assumes "listeners_ok env" "add_wep env nd d (l, w) = Inr (l', w')"
  shows "(l' = l @ [d] \<and> wires_kept (nd_cx env) w w') \<or> (l' = l \<and> destroy_wed d w = Inr w')"
  using assms(2) inform_keeps [OF assms(1)] by (auto simp: add_wep_def rbind_eq_Inr split: if_split_asm)

lemma found_member: "map_of (discoveredNodes nd) nid = Some n \<Longrightarrow> d \<in> set (wiring_ep_descriptions_list n) \<Longrightarrow> d \<in> set (found nd)"
  by (force simp: found_def dest: map_of_SomeD)

lemma found_distinct:
  "nd_sound cx nd w \<Longrightarrow> map_of (discoveredNodes nd) nid = Some n \<Longrightarrow> distinct (wiring_ep_descriptions_list n)"
  by (force simp: nd_sound_def found_def distinct_concat_iff dest: map_of_SomeD)

lemma addNode_sound:
  assumes "listeners_ok env" "nd_sound (nd_cx env) nd w" "fresh_report (nd_cx env) nd w n"
    and "node_discovery_addNode env n nd w = Inr (st, nd', w')"
  shows "nd_sound (nd_cx env) nd' w'"
proof -
  let ?cx = "nd_cx env"
  obtain nid where nid: "nodeId n = Some nid" using assms(3) by (auto simp: fresh_report_def)
  have ids: "\<forall>d \<in> set (found nd) \<union> set (wiring_ep_descriptions_list n). wireId_of ?cx w d \<noteq> None"
    and fresh: "set (wiring_ep_descriptions_list n) \<inter> set (found nd) = {}" "distinct (wiring_ep_descriptions_list n)"
    using assms(2,3) by (auto simp: fresh_report_def nd_sound_def)
  show ?thesis
  proof (cases "map_of (discoveredNodes nd) nid")
    case None
    let ?nd = "nd\<lparr>discoveredNodes := hashMap_put ?cx (utils_stringHash ?cx) (string_same ?cx) nid n (discoveredNodes nd)\<rparr>"
    have run: "rfold (inform env ?nd True) (wiring_ep_descriptions_list n) w = Inr w'" "nd' = ?nd"
      using assms(4) nid None by (auto simp: node_discovery_addNode_def smap.get_map_of Let_def rbind_eq_Inr)
    show ?thesis
      unfolding run(2)
      by (rule nd_sound_put [OF assms(2) None fresh(2,1)])
        (use ids rfold_inform_keeps [OF assms(1) run(1)] in \<open>simp add: wires_kept_def\<close>)
  next
    case (Some old)
    let ?l = "wiring_ep_descriptions_list old"
    obtain l where run: "rfold (add_wep env nd) (wiring_ep_descriptions_list n) (?l, w) = Inr (l, w')"
        "nd' = nd\<lparr>discoveredNodes := hashMap_replace (string_same ?cx) nid (old\<lparr>wiring_ep_descriptions_list := l\<rparr>) (discoveredNodes nd)\<rparr>"
      using assms(4) nid Some by (auto simp: node_discovery_addNode_def smap.get_map_of nodeDescription_destroy_def rbind_eq_Inr)
    have old: "set ?l \<subseteq> set (found nd)" "distinct ?l" using found_member [OF Some] found_distinct [OF assms(2) Some] by auto
    have "distinct l \<and> set l \<inter> set (found nd) \<subseteq> set ?l \<and> (\<forall>d \<in> set (found nd) \<union> set l. wireId_of ?cx w' d \<noteq> None)"
    proof (cases "wiring_ep_descriptions_list n")
      case Nil
      then show ?thesis using run(1) old ids by auto
    next
      case (Cons d ds)
      then have n: "wiring_ep_descriptions_list n = [d]" using assms(3) by (auto simp: fresh_report_def)
      then have "add_wep env nd d (?l, w) = Inr (l, w')" using run(1) by (auto simp: rbind_eq_Inr)
      then consider "l = ?l @ [d]" "wires_kept ?cx w w'" | "l = ?l" "destroy_wed d w = Inr w'"
        using add_wep_cases [OF assms(1)] by blast
      then show ?thesis
      proof cases
        case 1
        then show ?thesis using old ids fresh n by (auto simp: wires_kept_def)
      next
        case 2
        have "wireId_of ?cx w' e = wireId_of ?cx w e" if "e \<in> set (found nd)" for e
          by (rule destroy_wed_other [OF 2(2)]) (use that fresh n in auto)
        then show ?thesis using 2(1) old ids by auto
      qed
    qed
    then show ?thesis unfolding run(2) by (intro nd_sound_replace [OF assms(2) Some]) auto
  qed
qed

lemma removeNode_sound:
  assumes "listeners_ok env" "nd_sound (nd_cx env) nd w" "fresh_report (nd_cx env) nd w n"
    and "node_discovery_removeNode env n nd w = Inr (st, nd', w')"
  shows "nd_sound (nd_cx env) nd' w'"
proof (cases "celixThreadMutex_lock (nd_cx env) ''discoveredNodesMutex'' = CELIX_SUCCESS")
  case True
  let ?cx = "nd_cx env" and ?f = "wireId_of (nd_cx env) w"
  obtain nid where nid: "nodeId n = Some nid" using assms(3) by (auto simp: fresh_report_def)
  show ?thesis
  proof (cases "map_of (discoveredNodes nd) nid")
    case None
    then show ?thesis using assms(2,4) True nid by (simp add: node_discovery_removeNode_def smap.get_map_of)
  next
    case (Some old)
    let ?l = "wiring_ep_descriptions_list old" and ?r = "wiring_ep_descriptions_list n"
    have "\<forall>d \<in> set ?r \<union> set ?l. ?f d \<noteq> None"
      using assms(2,3) found_member [OF Some] by (auto simp: fresh_report_def nd_sound_def)
    from removeNode_result [OF assms(1) True nid Some this]
    have run: "rfold (inform env nd False) (withdrawn ?f ?l ?r) w = Inr w'" "nd' = nd\<lparr>discoveredNodes := hashMap_replace (string_same ?cx) nid
        (old\<lparr>wiring_ep_descriptions_list := filter (\<lambda>d. ?f d \<notin> ?f ` set ?r) ?l\<rparr>) (discoveredNodes nd)\<rparr>"
      using assms(4) by (auto simp: Inr_eq_rbind)
    show ?thesis
      unfolding run(2)
      using assms(2) found_member [OF Some] found_distinct [OF assms(2) Some] rfold_inform_keeps [OF assms(1) run(1)]
      by (intro nd_sound_replace [OF assms(2) Some]) (auto simp: nd_sound_def wires_kept_def)
  qed
next
  case False
  then show ?thesis using assms(2,4) by (simp add: node_discovery_removeNode_def)
qed

section \<open>The watcher\<close>

lemma getWiringEndpoint_cases:
  assumes "etcdWatcher_getWiringEndpointFromKey env key v w = Inr (st, n, w')"
  obtains "n = None" "w' = w"
  | node where "n = Some node" "nodeId node \<noteq> None" "wiring_ep_descriptions_list node = []" "w' = w"
  | node d p where "n = Some node" "nodeId node \<noteq> None" "wiring_ep_descriptions_list node = [d]" "weds w d = None"
      "map_of p WIRE_ID_KEY \<noteq> None" "w' = w\<lparr>weds := (weds w)(d \<mapsto> p)\<rparr>"
proof -
  note cases = that
  obtain root r where r: "rootPath (ew_cx env) = Inr root" "scan_key root key = Inr r"
    using assms by (auto simp: etcdWatcher_getWiringEndpointFromKey_def rbind_eq_Inr)
  show thesis
  proof (cases r)
    case None
    then show thesis using assms r cases(1) by (simp add: etcdWatcher_getWiringEndpointFromKey_def)
  next
    case (Some zn)
    obtain zone node wire where zn: "zn = (zone, node, wire)" by (cases zn)
    let ?n = "snd (nodeDescription_create (Some node) (Some zone) (Some []))"
    have n: "nodeId ?n \<noteq> None" "wiring_ep_descriptions_list ?n = []" by (simp_all add: nodeDescription_create_def)
    let ?props = "case v of None \<Rightarrow> Inr [] | Some t \<Rightarrow> rbind (wiringEndpoint_properties_load (ew_cx env) t (Some []))
        (\<lambda>(st, q). Inr (case q of Some p \<Rightarrow> p | None \<Rightarrow> []))"
    obtain props where props: "?props = Inr props"
      using assms r Some zn by (cases ?props) (simp_all add: etcdWatcher_getWiringEndpointFromKey_def Let_def)
    show thesis
    proof (cases "ew_alloc env w")
      case None
      then show thesis using assms r Some zn props n cases(2) [of ?n] by (simp add: etcdWatcher_getWiringEndpointFromKey_def Let_def)
    next
      case (Some d)
      then have d: "weds w d = None" by (auto simp: ew_alloc_def split: option.split_asm if_split_asm)
      obtain p where p: "wiringEndpointDescription_create (ew_cx env) True (ew_uuid env) (Some wire) (Some props) = Inr (CELIX_SUCCESS, Some p)"
        by (cases "properties_get (ew_cx env) props WIRE_ID_KEY = None") (simp_all add: wiringEndpointDescription_create_def)
      have "n = Some (?n\<lparr>wiring_ep_descriptions_list := [d]\<rparr>)" "w' = w\<lparr>weds := (weds w)(d \<mapsto> p)\<rparr>"
        using assms r \<open>r = Some zn\<close> zn props Some p by (simp_all add: etcdWatcher_getWiringEndpointFromKey_def Let_def)
      then show thesis using cases(3) [of _ d p] n(1) d create_wireId [OF p] by simp
    qed
  qed
qed

lemma getWiringEndpoint_report:
  assumes "etcdWatcher_getWiringEndpointFromKey env key v w = Inr (st, Some n, w')" "nd_sound (ew_cx env) nd w"
  shows "nd_sound (ew_cx env) nd w' \<and> fresh_report (ew_cx env) nd w' n"
  using assms(1)
proof (cases rule: getWiringEndpoint_cases)
  case (3 node d p)
  have "wireId_of (ew_cx env) w' d \<noteq> None" using 3 by (simp add: wireId_of_def properties_get_map_of)
  moreover have new: "d \<notin> set (found nd)" using nd_sound_alive [OF assms(2), of d] 3(4) by blast
  moreover have "wireId_of (ew_cx env) w' e = wireId_of (ew_cx env) w e" if "e \<in> set (found nd)" for e
    using that new by (auto simp: 3(6) wireId_of_def)
  ultimately show ?thesis using assms(2) 3(1,2,3) by (auto simp: fresh_report_def nd_sound_def)
qed (use assms(2) in \<open>auto simp: fresh_report_def\<close>)

lemma getWiringEndpoint_nothing:
  "etcdWatcher_getWiringEndpointFromKey env key v w = Inr (st, None, w') \<Longrightarrow> w' = w"
  by (erule getWiringEndpoint_cases) auto

lemma existing_node_sound:
  assumes "listeners_ok (ew_nd env)" "nd_sound (ew_cx env) nd w"
    and "existing_node env k (st, h, nd, w) = Inr (st', h', nd', w')"
  shows "nd_sound (ew_cx env) nd' w'"
proof -
  obtain key r x where r: "read_buf k = Inr key" "etcd_get (ew_lib env) (ew_conn env) key (rest w) = Inr (r, x)"
    using assms(3) by (auto simp: existing_node_def rbind_eq_Inr)
  let ?w = "w\<lparr>rest := x\<rparr>"
  have w: "nd_sound (ew_cx env) nd ?w" by (rule nd_sound_weds [OF assms(2)]) simp
  show ?thesis
  proof (cases r)
    case None
    then show ?thesis using assms(3) r w by (simp add: existing_node_def)
  next
    case (Some vi)
    obtain v i where vi: "vi = (v, i)" by (cases vi)
    obtain text1 st1 n w1 st2 where a: "read_buf v = Inr text1"
        "etcdWatcher_getWiringEndpointFromKey env key (Some text1) ?w = Inr (st1, Some n, w1)"
        "node_discovery_addNode (ew_nd env) n nd w1 = Inr (st2, nd', w')"
      using assms(3) r Some vi by (auto simp: existing_node_def rbind_eq_Inr split: option.split_asm)
    note report = getWiringEndpoint_report [OF a(2) w]
    show ?thesis by (rule addNode_sound [OF assms(1) _ _ a(3)]) (use report in simp_all)
  qed
qed

lemma addExisting_sound:
  assumes "listeners_ok (ew_nd env)" "nd_sound (ew_cx env) nd w"
    and "etcdWatcher_addAlreadyExistingNodes env ok nd w = Inr (st, h, nd', w')"
  shows "nd_sound (ew_cx env) nd' w'"
proof (cases ok)
  case True
  obtain root b l x where l: "rootPath (ew_cx env) = Inr root" "etcd_getEndpoints (ew_lib env) (ew_conn env) root (rest w) = Inr ((b, l), x)"
      "(if b then rfold (existing_node env) l (CELIX_SUCCESS, -1, nd, w\<lparr>rest := x\<rparr>) else Inr (CELIX_SUCCESS, -1, nd, w\<lparr>rest := x\<rparr>)) =
        Inr (st, h, nd', w')"
    using assms(3) True by (auto simp: etcdWatcher_addAlreadyExistingNodes_def rbind_eq_Inr)
  have w: "nd_sound (ew_cx env) nd (w\<lparr>rest := x\<rparr>)" by (rule nd_sound_weds [OF assms(2)]) simp
  show ?thesis
  proof (cases b)
    case True
    then have run: "rfold (existing_node env) l (CELIX_SUCCESS, -1, nd, w\<lparr>rest := x\<rparr>) = Inr (st, h, nd', w')" using l(3) by simp
    have "(\<lambda>(st, h, nd, w). nd_sound (ew_cx env) nd w) (st, h, nd', w')"
      by (rule rfold_invariant [OF run]) (use w in \<open>auto intro: existing_node_sound [OF assms(1)]\<close>)
    then show ?thesis by simp
  qed (use l(3) w in simp)
qed (use assms(2,3) in \<open>simp add: etcdWatcher_addAlreadyExistingNodes_def\<close>)

lemma reported_sound:
  assumes "listeners_ok (ew_nd env)" "nd_sound (ew_cx env) nd w"
    and "f = node_discovery_addNode (ew_nd env) \<or> f = node_discovery_removeNode (ew_nd env)"
    and "rbind (etcdWatcher_getWiringEndpointFromKey env key v w) (\<lambda>(status, n, w).
        if status = CELIX_SUCCESS
        then (case n of None \<Rightarrow> Inl NullPointer | Some node \<Rightarrow> rbind (f node nd w) (\<lambda>(st, nd, w). Inr (nd, w)))
        else Inr (nd, w)) = Inr (nd', w')"
  shows "nd_sound (ew_cx env) nd' w'"
proof -
  obtain st n w1 where g: "etcdWatcher_getWiringEndpointFromKey env key v w = Inr (st, n, w1)"
      "(if st = CELIX_SUCCESS then (case n of None \<Rightarrow> Inl NullPointer
          | Some node \<Rightarrow> rbind (f node nd w1) (\<lambda>(st, nd, w). Inr (nd, w))) else Inr (nd, w1)) = Inr (nd', w')"
    using assms(4) by (auto simp: rbind_eq_Inr)
  show ?thesis
  proof (cases n)
    case None
    then show ?thesis using g assms(2) getWiringEndpoint_nothing [of env key v w st w1] by (simp split: if_split_asm)
  next
    case (Some node)
    have w1: "nd_sound (ew_cx env) nd w1" "fresh_report (ew_cx env) nd w1 node"
      using getWiringEndpoint_report [OF g(1) [unfolded Some] assms(2)] by auto
    show ?thesis
    proof (cases "st = CELIX_SUCCESS")
      case True
      then obtain st2 where "f node nd w1 = Inr (st2, nd', w')" using g(2) Some by (auto simp: rbind_eq_Inr)
      then show ?thesis using assms(3) addNode_sound [OF assms(1) w1] removeNode_sound [OF assms(1) w1] by blast
    qed (use g(2) w1 in simp)
  qed
qed

lemma handle_event_sound:
  assumes "listeners_ok (ew_nd env)" "nd_sound (ew_cx env) nd w" "handle_event env r nd w = Inr (nd', w')"
  shows "nd_sound (ew_cx env) nd' w'"
proof -
  obtain action where a: "read_buf (w_action r) = Inr action"
    using assms(3) unfolding handle_event_def rbind_eq_Inr by blast
  note event = assms(3) [unfolded handle_event_def a rbind_simps]
  note report = reported_sound [OF assms(1,2)]
  show ?thesis
  proof (cases "action = ''set'' \<or> action = ''create'' \<or> action = ''update''")
    case True
    from event obtain key v where kv: "read_buf (w_rkey r) = Inr key" "read_buf (w_value r) = Inr v"
      unfolding if_P [OF True] rbind_eq_Inr by blast
    show ?thesis
      by (rule report [OF disjI1 [OF refl]]) (rule event [unfolded if_P [OF True] kv rbind_simps])
  next
    case other: False
    show ?thesis
    proof (cases "action = ''delete'' \<or> action = ''expire''")
      case True
      from event obtain key where key: "read_buf (w_rkey r) = Inr key"
        unfolding if_not_P [OF other] if_P [OF True] rbind_eq_Inr by blast
      show ?thesis
        by (rule report [OF disjI2 [OF refl]]) (rule event [unfolded if_not_P [OF other] if_P [OF True] key rbind_simps])
    next
      case False
      from event show ?thesis unfolding if_not_P [OF other] if_not_P [OF False] using assms(2) by simp
    qed
  qed
qed

lemma watch_round_sound:
  assumes "listeners_ok (ew_nd env)" "nd_sound (ew_cx env) (ws_nd s) (ws_world s)" "watch_round env root r s = Inr s'"
  shows "nd_sound (ew_cx env) (ws_nd s') (ws_world s')"
proof -
  obtain event wr x s1 where s1: "etcd_watch (ew_lib env) (ew_conn env) root (int_of_long (ws_highest s + 1)) (rest (ws_world s)) = Inr ((event, wr), x)"
      "(if event then rbind (handle_event env wr (ws_nd s) ((ws_world s)\<lparr>rest := x\<rparr>)) (\<lambda>(nd, w).
          Inr (s\<lparr>ws_nd := nd, ws_world := w, ws_highest := (case w_modifiedIndex wr of Some i \<Rightarrow> i | None \<Rightarrow> ws_highest s)\<rparr>))
        else Inr (s\<lparr>ws_world := (ws_world s)\<lparr>rest := x\<rparr>\<rparr>)) = Inr s1"
      "(if rd_now r - ws_time s1 > 7
        then rbind (etcdWatcher_addOwnNode env (ownNode (ws_nd s1)) (ws_world s1)) (\<lambda>(st, w).
          rbind (etcdWatcher_addAlreadyExistingNodes env (rd_calloc r) (ws_nd s1) w) (\<lambda>(st, highest, nd, w).
            Inr (s1\<lparr>ws_highest := highest, ws_time := rd_after r, ws_nd := nd, ws_world := w\<rparr>)))
        else Inr s1) = Inr s'"
    using assms(3) by (auto simp: watch_round_def rbind_eq_Inr)
  have "nd_sound (ew_cx env) (ws_nd s) ((ws_world s)\<lparr>rest := x\<rparr>)" by (rule nd_sound_weds [OF assms(2)]) simp
  then have "nd_sound (ew_cx env) (ws_nd s1) (ws_world s1)"
    using s1(2) handle_event_sound [OF assms(1)] by (auto simp: rbind_eq_Inr split: if_split_asm)
  then show ?thesis
  proof (cases "rd_now r - ws_time s1 > 7")
    case True
    then obtain st w1 st' h nd w2 where a: "etcdWatcher_addOwnNode env (ownNode (ws_nd s1)) (ws_world s1) = Inr (st, w1)"
        "etcdWatcher_addAlreadyExistingNodes env (rd_calloc r) (ws_nd s1) w1 = Inr (st', h, nd, w2)"
        "ws_nd s' = nd" "ws_world s' = w2"
      using s1(3) by (auto simp: rbind_eq_Inr)
    have "nd_sound (ew_cx env) (ws_nd s1) w1"
      by (rule nd_sound_weds [OF _ addOwnNode_weds [OF a(1)]]) fact
    then show ?thesis using addExisting_sound [OF assms(1) _ a(2)] a(3,4) by simp
  qed (use s1(3) in simp)
qed

lemma watch_rounds_sound:
  "watch_rounds env root rs s = Inr s' \<Longrightarrow> listeners_ok (ew_nd env) \<Longrightarrow> nd_sound (ew_cx env) (ws_nd s) (ws_world s) \<Longrightarrow>
    nd_sound (ew_cx env) (ws_nd s') (ws_world s')"
proof (induction rs arbitrary: s)
  case (Cons r rs)
  then show ?case using watch_round_sound [of env s root r] by (auto simp: rbind_eq_Inr split: if_split_asm)
qed simp

lemma run_sound:
  assumes "listeners_ok (ew_nd env)" "nd_sound (ew_cx env) nd w" "etcdWatcher_run env now ok rounds nd w = Inr s"
  shows "nd_sound (ew_cx env) (ws_nd s) (ws_world s)"
proof -
  obtain st h nd1 w1 root where a: "etcdWatcher_addAlreadyExistingNodes env ok nd w = Inr (st, h, nd1, w1)"
      "watch_rounds env root rounds \<lparr>ws_highest = h, ws_time = now, ws_nd = nd1, ws_world = w1\<rparr> = Inr s"
    using assms(3) by (auto simp: etcdWatcher_run_def rbind_eq_Inr)
  show ?thesis
    by (rule watch_rounds_sound [OF a(2) assms(1)]) (simp add: addExisting_sound [OF assms(1,2) a(1)])
qed

section \<open>The life of the bundle\<close>

text \<open>The discovery and its nodes stay; only listeners, own node and the world change.\<close>

lemma nd_sound_nodes:
  "nd_sound cx nd w \<Longrightarrow> discoveredNodes nd' = discoveredNodes nd \<Longrightarrow> wires_kept cx w w' \<Longrightarrow> nd_sound cx nd' w'"
  by (simp add: nd_sound_def found_def wires_kept_def)

lemma listener_replay_keeps:
  assumes "listener_contract (nd_cx env) l" "listener_replay env l scope d w = Inr w'"
  shows "wires_kept (nd_cx env) w w'"
  using assms(2) listener_contract.added_keeps [OF assms(1)]
  by (auto simp: listener_replay_def rbind_eq_Inr split: if_split_asm)

lemma listenerAdded_nodes:
  assumes "listener_contract (nd_cx env) l" "node_discovery_wiringEndpointListenerAdded env r l nd w = Inr (st, nd', w')"
  shows "discoveredNodes nd' = discoveredNodes nd" "wires_kept (nd_cx env) w w'"
proof -
  have "wires_kept (nd_cx env) w u" if "rfold (listener_replay env l scope) ds w = Inr u" for scope ds u
    by (rule rfold_invariant [OF that]) (auto intro: wires_kept_trans listener_replay_keeps [OF assms(1)])
  then show "discoveredNodes nd' = discoveredNodes nd" "wires_kept (nd_cx env) w w'"
    using assms(2) by (auto simp: node_discovery_wiringEndpointListenerAdded_def Let_def rbind_eq_Inr split: if_split_asm)
qed

lemma listenerRemoved_nodes:
  "discoveredNodes (snd (node_discovery_wiringEndpointListenerRemoved cx r nd)) = discoveredNodes nd"
  by (simp add: node_discovery_wiringEndpointListenerRemoved_def Let_def)

lemma listenersRemoved_nodes:
  "discoveredNodes (fold (\<lambda>r nd. snd (node_discovery_wiringEndpointListenerRemoved cx r nd)) refs nd) = discoveredNodes nd"
  by (induction refs arbitrary: nd) (simp_all add: listenerRemoved_nodes)

lemma listenerModified_nodes:
  assumes "listener_contract (nd_cx env) l" "node_discovery_wiringEndpointListenerModified env r l nd w = Inr (st, nd', w')"
  shows "discoveredNodes nd' = discoveredNodes nd \<and> wires_kept (nd_cx env) w w'"
  using assms(2) listenerAdded_nodes [OF assms(1)] listenerRemoved_nodes [of "nd_cx env" r nd]
  by (cases "node_discovery_wiringEndpointListenerRemoved (nd_cx env) r nd")
    (auto simp: node_discovery_wiringEndpointListenerModified_def split: if_split_asm)

lemma own_nodes:
  "node_discovery_wiringEndpointAdded (wired_nd env) d nd w = Inr (st, nd', w') \<Longrightarrow> discoveredNodes nd' = discoveredNodes nd"
  "node_discovery_wiringEndpointRemoved env' d nd v = Inr (st, nd', v') \<Longrightarrow> discoveredNodes nd' = discoveredNodes nd"
  by (auto simp: node_discovery_wiringEndpointAdded_def node_discovery_wiringEndpointRemoved_def wired_nd_def Let_def rbind_eq_Inr
      split: if_split_asm)

lemma track_nodes:
  assumes "listeners_ok env" "rfold (track_discovery_listener env) refs (nd, w) = Inr (nd', w')"
  shows "discoveredNodes nd' = discoveredNodes nd \<and> wires_kept (nd_cx env) w w'"
proof -
  let ?P = "\<lambda>(n, v). discoveredNodes n = discoveredNodes nd \<and> wires_kept (nd_cx env) w v"
  have step: "?P t'" if "?P t" "track_discovery_listener env r t = Inr t'" for r t t'
  proof (cases "nd_getService env r")
    case (Some l)
    have "listener_contract (nd_cx env) l" using assms(1) Some by (simp add: listeners_ok_def)
    then show ?thesis
      using that Some by (cases t)
        (auto simp: track_discovery_listener_def node_discovery_wiringEndpointListenerAdding_def rbind_eq_Inr
          dest: listenerAdded_nodes intro: wires_kept_trans)
  qed (use that in \<open>cases t, simp add: track_discovery_listener_def node_discovery_wiringEndpointListenerAdding_def\<close>)
  have "?P (nd', w')" by (rule rfold_invariant [where P = ?P, OF assms(2)]) (simp, rule step)
  then show ?thesis by simp
qed

lemma watcher_created_weds:
  assumes "etcdWatcher_create env ok sts (Some nd) w = Inr (st, c, b, w')"
  shows "weds w' = weds w"
proof (cases ok)
  case True
  let ?server = "case getProperty_ok (ew_cx env) ''NODE_DISCOVERY_ETCD_SERVER_IP'' of None \<Rightarrow> ''127.0.0.1'' | Some s \<Rightarrow> s"
  let ?port = "config_int (getProperty_ok (ew_cx env) ''NODE_DISCOVERY_ETCD_SERVER_PORT'') 4001"
  obtain good conn where init: "etcd_init (ew_lib env) ?server ?port = (good, conn)" by fastforce
  show ?thesis
  proof (cases good)
    case good: True
    obtain st1 w1 where own: "etcdWatcher_addOwnNode (env\<lparr>ew_conn := conn\<rparr>) (ownNode nd) w = Inr (st1, w1)"
      using assms \<open>ok\<close> init good by (auto simp: etcdWatcher_create_def Let_def rbind_eq_Inr)
    then have "w' = w1"
      using assms \<open>ok\<close> init good by (auto simp: etcdWatcher_create_def Let_def split: list.split_asm)
    then show ?thesis using addOwnNode_weds [OF own] by simp
  qed (use assms \<open>ok\<close> init in \<open>simp add: etcdWatcher_create_def Let_def\<close>)
qed (use assms in \<open>simp add: etcdWatcher_create_def\<close>)

lemma start_nodes:
  assumes "listeners_ok (ew_nd env)" "nd_bundleActivator_start env fw act w = Inr (st, act', w')"
  shows "discoveredNodes (da_discovery act') = discoveredNodes (da_discovery act) \<and> wires_kept (ew_cx env) w w'"
proof -
  obtain st1 u where u: "bundleContext_getProperty (ew_cx env) (OSGI_FRAMEWORK_FRAMEWORK_UUID (ew_cx env)) = (st1, u)" by fastforce
  show ?thesis
  proof (cases "st1 = CELIX_SUCCESS \<and> nb_calloc_listener fw")
    case False
    then show ?thesis using assms(2) u by (cases u) (auto simp: nd_bundleActivator_start_def Let_def split: if_split_asm)
  next
    case True
    let ?act = "act\<lparr>da_listener := True\<rparr>"
    obtain v scope where v: "u = Some v" "discovery_scope (ew_cx env) v = Inr scope"
      using assms(2) u True by (cases u) (auto simp: nd_bundleActivator_start_def rbind_eq_Inr Let_def)
    obtain st2 conn b w1 where s: "node_discovery_start env (nb_calloc_watcher fw) (nb_thread fw) (da_discovery act) w = Inr (st2, conn, b, w1)"
      using assms(2) u True v by (auto simp: nd_bundleActivator_start_def rbind_eq_Inr Let_def)
    have w1: "wires_kept (ew_cx env) w w1"
      using s watcher_created_weds wires_kept_weds by (fastforce simp: node_discovery_start_def)
    show ?thesis
    proof (cases "st2 = CELIX_SUCCESS")
      case False
      then show ?thesis using assms(2) u True v s w1 by (auto simp: nd_bundleActivator_start_def Let_def)
    next
      case started: True
      obtain nd w2 where t: "rfold (track_discovery_listener (ew_nd env)) (snd (nb_open fw)) (da_discovery act, w1) = Inr (nd, w2)"
        using assms(2) u True v s started by (auto simp: nd_bundleActivator_start_def Let_def rbind_eq_Inr)
      have "da_discovery act' = nd" "w' = w2"
        using assms(2) u True v s started t by (auto simp: nd_bundleActivator_start_def Let_def split: if_split_asm prod.split_asm)
      then show ?thesis using track_nodes [OF assms(1) t] w1 wires_kept_trans by blast
    qed
  qed
qed

lemma stop_nodes:
  assumes "listeners_ok (ew_nd env)" "nd_bundleActivator_stop env fw act w = Inr (st, act', w')"
  shows "discoveredNodes (da_discovery act') = discoveredNodes (da_discovery act) \<and> wires_kept (ew_cx env) w w'"
proof -
  obtain conn st1 w1 st2 where s: "etcdWatcher_destroy (env\<lparr>ew_conn := conn\<rparr>) (ownNode (da_discovery act)) w = Inr (st1, w1)"
      "node_discovery_stop (ew_nd env) st1 (da_discovery act) w1 = Inr (st2, w')"
      "da_discovery act' = fold (\<lambda>r nd. snd (node_discovery_wiringEndpointListenerRemoved (ew_cx env) r nd)) (nb_close fw) (da_discovery act)"
    using assms(2) by (auto simp: nd_bundleActivator_stop_def Let_def rbind_eq_Inr split: option.split_asm if_split_asm)
  have "weds w1 = weds w" using s(1) by (auto simp: etcdWatcher_destroy_def rbind_eq_Inr)
  moreover have "wires_kept (ew_cx env) w1 w'"
    using s(2) rfold_inform_keeps [OF assms(1)] by (auto simp: node_discovery_stop_def rbind_eq_Inr split: if_split_asm)
  ultimately show ?thesis using s(3) wires_kept_trans wires_kept_weds by (metis listenersRemoved_nodes)
qed

text \<open>
  Everything that happens to the bundle, in any order: the calls of the framework, rounds of the
  thread, the calls of the topology manager for the own node, and whatever other bundles do to
  the world as long as they leave the discovered descriptions alone.
\<close>

inductive nd_life :: "'x ew_env \<Rightarrow> nd_activator \<times> 'x world \<Rightarrow> bool" for env where
  created: "nd_bundleActivator_create (ew_cx env) fw = (st, Some act) \<Longrightarrow> nd_life env (act, w)"
| started: "nd_life env (act, w) \<Longrightarrow> nd_bundleActivator_start env fw act w = Inr (st, act', w') \<Longrightarrow> nd_life env (act', w')"
| watched: "nd_life env (act, w) \<Longrightarrow> etcdWatcher_run (env\<lparr>ew_conn := c\<rparr>) now ok rounds (da_discovery act) w = Inr s \<Longrightarrow>
    nd_life env (act\<lparr>da_discovery := ws_nd s\<rparr>, ws_world s)"
| own_added: "nd_life env (act, w) \<Longrightarrow> node_discovery_wiringEndpointAdded (wired_nd env) d (da_discovery act) w = Inr (st, nd, w') \<Longrightarrow>
    nd_life env (act\<lparr>da_discovery := nd\<rparr>, w')"
| own_removed: "nd_life env (act, w) \<Longrightarrow> node_discovery_wiringEndpointRemoved (wired_nd env) d (da_discovery act) w = Inr (st, nd, w') \<Longrightarrow>
    nd_life env (act\<lparr>da_discovery := nd\<rparr>, w')"
| listener_added: "nd_life env (act, w) \<Longrightarrow> nd_getService (ew_nd env) r = Some l \<Longrightarrow>
    node_discovery_wiringEndpointListenerAdded (ew_nd env) r l (da_discovery act) w = Inr (st, nd, w') \<Longrightarrow>
    nd_life env (act\<lparr>da_discovery := nd\<rparr>, w')"
| listener_modified: "nd_life env (act, w) \<Longrightarrow> nd_getService (ew_nd env) r = Some l \<Longrightarrow>
    node_discovery_wiringEndpointListenerModified (ew_nd env) r l (da_discovery act) w = Inr (st, nd, w') \<Longrightarrow>
    nd_life env (act\<lparr>da_discovery := nd\<rparr>, w')"
| listener_removed: "nd_life env (act, w) \<Longrightarrow> node_discovery_wiringEndpointListenerRemoved (ew_cx env) r (da_discovery act) = (st, nd) \<Longrightarrow>
    nd_life env (act\<lparr>da_discovery := nd\<rparr>, w)"
| elsewhere: "nd_life env (act, w) \<Longrightarrow> \<forall>d \<in> set (found (da_discovery act)). weds w' d = weds w d \<Longrightarrow> nd_life env (act, w')"
| stopped: "nd_life env (act, w) \<Longrightarrow> nd_bundleActivator_stop env fw act w = Inr (st, act', w') \<Longrightarrow> nd_life env (act', w')"

lemma nd_life_sound:
  assumes "nd_life env s" "listeners_ok (ew_nd env)"
  shows "nd_sound (ew_cx env) (da_discovery (fst s)) (snd s)"
  using assms(1)
proof (induction rule: nd_life.induct)
  case (created fw st act w)
  then have "discoveredNodes (da_discovery act) = []"
    by (auto simp: nd_bundleActivator_create_def node_discovery_create_def createWiringEndpointListenerTracker_def
        split: if_split_asm option.split_asm prod.split_asm)
  then show ?case by (simp add: nd_sound_def found_def)
next
  case (started act w fw st act' w')
  show ?case using nd_sound_nodes [OF started.IH] start_nodes [OF assms(2) started.hyps(2)] by simp
next
  case (watched act w c now ok rounds s)
  have "listeners_ok (ew_nd (env\<lparr>ew_conn := c\<rparr>))" using assms(2) by simp
  then show ?case using run_sound [OF _ _ watched.hyps(2)] watched.IH by simp
next
  case (own_added act w d st nd w')
  show ?case
    using nd_sound_nodes [OF own_added.IH] own_nodes(1) [OF own_added.hyps(2)] wires_kept_weds [OF own_added_weds [OF own_added.hyps(2)]]
    by simp
next
  case (own_removed act w d st nd w')
  show ?case
    using nd_sound_nodes [OF own_removed.IH] own_nodes(2) [OF own_removed.hyps(2)] wires_kept_weds [OF own_removed_weds [OF own_removed.hyps(2)]]
    by simp
next
  case (listener_added act w r l st nd w')
  have "listener_contract (ew_cx env) l" using assms(2) listener_added.hyps(2) by (simp add: listeners_ok_def)
  then show ?case using nd_sound_nodes [OF listener_added.IH] listenerAdded_nodes [OF _ listener_added.hyps(3)] by simp
next
  case (listener_modified act w r l st nd w')
  have "listener_contract (ew_cx env) l" using assms(2) listener_modified.hyps(2) by (simp add: listeners_ok_def)
  then show ?case using nd_sound_nodes [OF listener_modified.IH] listenerModified_nodes [OF _ listener_modified.hyps(3)] by simp
next
  case (listener_removed act w r st nd)
  show ?case
    using nd_sound_nodes [OF listener_removed.IH] listenerRemoved_nodes [of "ew_cx env" r "da_discovery act"] listener_removed.hyps(2)
    by simp
next
  case (elsewhere act w w')
  then show ?case by (auto simp: nd_sound_def wireId_of_def)
next
  case (stopped act w fw st act' w')
  show ?case using nd_sound_nodes [OF stopped.IH] stop_nodes [OF assms(2) stopped.hyps(2)] by simp
qed

section \<open>The end of the bundle\<close>

lemma destroy_weds:
  assumes "distinct l" "\<forall>d \<in> set l. weds w d \<noteq> None"
  shows "rfold destroy_wed l w = Inr (w\<lparr>weds := weds w |` (- set l)\<rparr>)"
  using assms
proof (induction l arbitrary: w)
  case (Cons d l)
  obtain p where "weds w d = Some p" using Cons.prems(2) by auto
  then have free: "destroy_wed d w = Inr (w\<lparr>weds := (weds w)(d := None)\<rparr>)"
    by (simp add: destroy_wed_def wiringEndpointDescription_destroy_def)
  have more: "weds w |` (- set (d # l)) = ((weds w)(d := None)) |` (- set l)" by (auto simp: restrict_map_def fun_eq_iff)
  have "rfold destroy_wed l (w\<lparr>weds := (weds w)(d := None)\<rparr>) = Inr (w\<lparr>weds := ((weds w)(d := None)) |` (- set l)\<rparr>)"
    by (subst Cons.IH) (use Cons.prems in auto)
  then show ?case unfolding more rfold.simps free rbind_simps .
qed (simp add: restrict_map_def)

lemma destroy_nodes:
  "rfold (\<lambda>n w. rbind (nodeDescription_destroy n True w) (\<lambda>(st, w). Inr w)) ns w = rfold destroy_wed (concat (map wiring_ep_descriptions_list ns)) w"
proof (induction ns arbitrary: w)
  case (Cons n ns)
  then show ?case
    by (cases "rfold destroy_wed (wiring_ep_descriptions_list n) w") (simp_all add: nodeDescription_destroy_def rfold_append)
qed simp

text \<open>
  C5. Whatever happens to the bundle from its creation on, every discovered endpoint is listed
  once, its description is alive and has a wire id; so destroying the bundle ends normally and
  frees the descriptions of all discovered endpoints and no others.
\<close>

theorem discovery_owns_its_endpoints:
  assumes "nd_life env (act, w)" "listeners_ok (ew_nd env)"
  shows "nd_sound (ew_cx env) (da_discovery act) w \<and>
    nd_bundleActivator_destroy act w = Inr (CELIX_SUCCESS, w\<lparr>weds := weds w |` (- set (found (da_discovery act)))\<rparr>)"
proof -
  have sound: "nd_sound (ew_cx env) (da_discovery act) w" using nd_life_sound [OF assms] by simp
  have l: "concat (map wiring_ep_descriptions_list (map snd (discoveredNodes (da_discovery act)))) = found (da_discovery act)"
    by (simp add: found_def comp_def)
  have "\<forall>d \<in> set (found (da_discovery act)). weds w d \<noteq> None" using nd_sound_alive [OF sound] by blast
  then have "rfold (\<lambda>n w. rbind (nodeDescription_destroy n True w) (\<lambda>(st, w). Inr w)) (map snd (discoveredNodes (da_discovery act))) w =
      Inr (w\<lparr>weds := weds w |` (- set (found (da_discovery act)))\<rparr>)"
    unfolding destroy_nodes l using sound by (simp add: destroy_weds nd_sound_def)
  then show ?thesis
    using sound by (simp add: nd_bundleActivator_destroy_def node_discovery_destroy_def nodeDescription_destroy_def)
qed

text \<open>A bundle for the witness: it has been created, and a wire of another node has been set.\<close>

definition demo_nd_framework :: nd_framework where
  "demo_nd_framework = \<lparr>nb_calloc = True, nb_calloc_discovery = True, nb_mutex = (\<lambda>m. CELIX_SUCCESS), nb_customizer = CELIX_SUCCESS,
     nb_create = (CELIX_SUCCESS, 20), nb_calloc_listener = True, nb_calloc_watcher = True,
     nb_thread = [CELIX_SUCCESS, CELIX_SUCCESS, CELIX_SUCCESS, CELIX_SUCCESS], nb_open = (CELIX_SUCCESS, [7]),
     nb_register = (\<lambda>p. (CELIX_SUCCESS, 30)), nb_close = [7]\<rparr>"

definition demo_reply :: json where
  "demo_reply = JObject [(''node'', JObject [(''nodes'', JArray [JObject [(''nodes'', JArray [JObject [(''nodes'',
     JArray [JObject [(''key'', JString ''/fw-1/z/n1/w1'')]])]])]]),
     (''value'', JString []), (''modifiedIndex'', JInteger 3)])]"

definition demo_disc :: "nat ew_env" where
  "demo_disc = \<lparr>ew_nd = demo_nd_env, ew_lib = demo_lib demo_reply, ew_conn = demo_conn, ew_calloc = (\<lambda>w. Some 9), ew_uuid = ''u''\<rparr>"

definition demo_born :: nd_activator where
  "demo_born = \<lparr>da_discovery = \<lparr>ownNode = \<lparr>nodeId = Some ''fw-1'', zoneId = Some ''fw-1'', node_properties = [],
     wiring_ep_descriptions_list = []\<rparr>, discoveredNodes = [], listenerReferences = []\<rparr>,
     da_watcher = None, da_tracker = 20, da_listener = False, da_registration = None\<rparr>"

lemma demo_birth: "nd_bundleActivator_create (ew_cx demo_disc) demo_nd_framework = (CELIX_SUCCESS, Some demo_born)"
  by (simp add: nd_bundleActivator_create_def node_discovery_create_def createWiringEndpointListenerTracker_def demo_nd_framework_def
      node_discovery_createOwnNodeDescription_def getProperty_ok_def nodeDescription_create_def demo_disc_def demo_nd_env_def
      celix0_def demo_born_def)

lemma demo_wires: "all_wires (Some demo_reply) = [JObject [(''key'', JString ''/fw-1/z/n1/w1'')]]"
  by (simp add: all_wires_def zones_of_root_def nodes_of_zone_def wires_of_node_def demo_reply_def json_object_get_def
      json_elements_def MAX_ZONES_def MAX_NODES_def MAX_WIRES_def)

lemma demo_endpoints: "etcd_getEndpoints (demo_lib demo_reply) demo_conn d x = Inr ((True, [CStr ''/fw-1/z/n1/w1'']), x + 1)"
  by (simp add: etcd_getEndpoints_def performRequest_def demo_lib_def WriteMemoryCallback_def parse_reply_def demo_wires add_endpoint_def json_is_object_def
      json_object_get_def json_string_value_def strncpy_def MAX_NODES_def Etcd.MAX_KEY_LENGTH_def)

lemma demo_value: "etcd_get (demo_lib demo_reply) demo_conn k x = Inr (Some (CStr [], 3), x + 1)"
  by (simp add: etcd_get_def performRequest_def demo_lib_def WriteMemoryCallback_def parse_reply_def demo_reply_def
      json_object_get_def json_string_value_def json_integer_value_def strncpy_def Etcd.MAX_VALUE_LENGTH_def int_of_long_def)

definition demo_grown :: nd_activator where
  "demo_grown = demo_born\<lparr>da_discovery := (da_discovery demo_born)\<lparr>discoveredNodes := [(''n1'', \<lparr>nodeId = Some ''n1'', zoneId = Some ''z'',
     node_properties = [], wiring_ep_descriptions_list = [9]\<rparr>)]\<rparr>\<rparr>"

lemma demo_watch: "\<exists>h w. etcdWatcher_run (demo_disc\<lparr>ew_conn := demo_conn\<rparr>) 0 True [] (da_discovery demo_born) \<lparr>weds = [1 \<mapsto> []], rest = 0\<rparr> =
    Inr \<lparr>ws_highest = h, ws_time = 0, ws_nd = da_discovery demo_grown, ws_world = w\<rparr> \<and> dom (weds w) = {1, 9}"
proof -
  have root: "rootPath (ew_cx demo_disc) = Inr ''fw-1''"
    by (simp add: rootPath_def etcdWatcher_getRootPath_def demo_disc_def demo_nd_env_def celix0_def getProperty_ok_def
      MAX_ROOTNODE_LENGTH_def read_buf_def)
  have key: "scan_key ''fw-1'' ''/fw-1/z/n1/w1'' = Inr (Some (''z'', ''n1'', ''w1''))"
    using scan_key_parts [of "''fw-1''" "''z''" "''n1''" "''w1''"] by (simp add: path_simps)
  have load: "wiringEndpoint_properties_load cx [] (Some []) = Inr (CELIX_SUCCESS, Some [])" for cx
    by (simp add: wiringEndpoint_properties_load_def)
  show ?thesis
    using root key load
    by (simp add: etcdWatcher_run_def etcdWatcher_addAlreadyExistingNodes_def demo_endpoints demo_value existing_node_def read_buf_def
        etcdWatcher_getWiringEndpointFromKey_def nodeDescription_create_def ew_alloc_def wiringEndpointDescription_create_def
        node_discovery_addNode_def demo_disc_def demo_nd_env_def demo_born_def demo_grown_def hashMap_get_def hashMap_put_empty
        inform_def node_discovery_informWiringEndpointListeners_def celix0_def insert_commute)
qed

theorem discovery_owns_its_endpoints_witness:
  "\<exists>w :: nat world. dom (weds w) = {1, 9} \<and> nd_sound (ew_cx demo_disc) (da_discovery demo_grown) w \<and>
    nd_bundleActivator_destroy demo_grown w = Inr (CELIX_SUCCESS, w\<lparr>weds := weds w |` {1}\<rparr>)"
proof -
  obtain h w where w: "etcdWatcher_run (demo_disc\<lparr>ew_conn := demo_conn\<rparr>) 0 True [] (da_discovery demo_born) \<lparr>weds = [1 \<mapsto> []], rest = 0\<rparr> =
      Inr \<lparr>ws_highest = h, ws_time = 0, ws_nd = da_discovery demo_grown, ws_world = w\<rparr>" "dom (weds w) = {1, 9}"
    using demo_watch by blast
  have "demo_born\<lparr>da_discovery := da_discovery demo_grown\<rparr> = demo_grown" by (simp add: demo_grown_def)
  then have life: "nd_life demo_disc (demo_grown, w)" using nd_life.watched [OF nd_life.created [OF demo_birth] w(1)] by simp
  have ok: "listeners_ok (ew_nd demo_disc)" using demo_listeners_ok by (simp add: demo_disc_def)
  have f: "found (da_discovery demo_grown) = [9]" by (simp add: found_def demo_grown_def)
  have "weds w |` (- {9}) = weds w |` {1}" using w(2) by (auto simp: restrict_map_def fun_eq_iff)
  then show ?thesis using discovery_owns_its_endpoints [OF life ok] w(2) unfolding f by auto
qed

end
