(* ===== verification/Node_Import.thy ===== *)
theory Node_Import
  imports Node Topology_Bundle Discovery_Bundle_Correct
begin

text \<open>
  The importing side of a node: the watcher reads a wire that another node published, the
  discovery tells its listener, the topology manager, and the manager has its wiring admin import
  the wire for a request that waits. One world holds the states of manager and admin and the
  outside.
\<close>

section \<open>Manager and admin\<close>

type_synonym 'y importer_state = "wtm \<times> wiring_admin \<times> 'y"

definition on_wiring :: "'y importer_state world \<Rightarrow> wiring_admin world" where
  "on_wiring W = \<lparr>weds = weds W, rest = fst (snd (rest W))\<rparr>"

definition wiring_put :: "'y importer_state world \<Rightarrow> wiring_admin world \<Rightarrow> 'y importer_state world" where
  "wiring_put W w = \<lparr>weds = weds w, rest = (fst (rest W), rest w, snd (snd (rest W)))\<rparr>"

definition importer_admin :: "wa_env \<Rightarrow> 'y importer_state wiring_admin_service" where
  "importer_admin wenv = (let S = wa_service wenv in \<lparr>
     exportWiringEndpoint = (\<lambda>W. rbind (exportWiringEndpoint S (on_wiring W)) (\<lambda>(st, e, w). Inr (st, e, wiring_put W w))),
     removeExportedWiringEndpoint = (\<lambda>d W. rbind (removeExportedWiringEndpoint S d (on_wiring W)) (\<lambda>(st, w). Inr (st, wiring_put W w))),
     getWiringAdminProperties = (\<lambda>W. getWiringAdminProperties S (on_wiring W)),
     importWiringEndpoint = (\<lambda>d W. rbind (importWiringEndpoint S d (on_wiring W)) (\<lambda>(st, w). Inr (st, wiring_put W w))),
     removeImportedWiringEndpoint = (\<lambda>d W. rbind (removeImportedWiringEndpoint S d (on_wiring W)) (\<lambda>(st, w). Inr (st, wiring_put W w)))\<rparr>)"

text \<open>\<open>L\<close> are the listeners of the manager, the remote service admins of the node.\<close>

definition importer_env ::
    "wa_env \<Rightarrow> (service_reference \<Rightarrow> 'y importer_state wiring_endpoint_listener) \<Rightarrow> 'y importer_state wtm_env" where
  "importer_env wenv L = \<lparr>wtm_cx = wa_cx wenv, wtm_admin = (\<lambda>wa. importer_admin wenv), wtm_getService = (\<lambda>ref. (CELIX_SUCCESS, L ref))\<rparr>"

lemma wiring_put_kept: "weds w = weds W \<Longrightarrow> wires_kept cx W (wiring_put W w)"
  by (simp add: wires_kept_def wireId_of_def wiring_put_def)

lemma importer_admin_keeps:
  "importWiringEndpoint (importer_admin wenv) d W = Inr (st, W') \<Longrightarrow> wires_kept cx W W'"
  "removeImportedWiringEndpoint (importer_admin wenv) d W = Inr (st, W') \<Longrightarrow> wires_kept cx W W'"
  by (auto simp: importer_admin_def Let_def rbind_eq_Inr on_wiring_def intro!: wiring_put_kept
      dest: wa.import_weds wa.removeImported_weds)

text \<open>The manager with this admin keeps the contract that the discovery expects of a listener.\<close>

lemma importer_listener:
  assumes "null_value_ok (wa_cx wenv)" "\<And>ref. listener_contract (wa_cx wenv) (L ref)"
  shows "listener_contract (wa_cx wenv) (topology_listener (importer_env wenv L))"
proof -
  have "imports_keep (importer_env wenv L) (wires_kept (wa_cx wenv) W)" for W
    by unfold_locales
      (auto simp: importer_env_def intro: wires_kept_trans importer_admin_keeps wed_set_wires [OF _ assms(1)]
        listener_contract.added_keeps [OF assms(2)] listener_contract.removed_keeps [OF assms(2)])
  then show ?thesis using topology_listener_contract [of "importer_env wenv L"] by (simp add: importer_env_def)
qed

section \<open>Importing a wire\<close>

text \<open>The admin speaks the configuration \<open>c\<close>; the admin has a send service for the wire.\<close>

definition speaks :: "string \<Rightarrow> 'y importer_state world \<Rightarrow> bool" where
  "speaks c W \<longleftrightarrow> map_of (adminProperties (fst (snd (rest W)))) WIRING_ADMIN_PROPERTIES_CONFIG_KEY = Some c"

definition send_service_for :: "celix \<Rightarrow> wed_ptr \<Rightarrow> 'y importer_state world \<Rightarrow> bool" where
  "send_service_for cx d W \<longleftrightarrow>
     hashMap_get (wed_same cx W) (wiringSendServices (fst (snd (rest W)))) d = Some \<lparr>ss_endpoint = d, ss_errorCount = 0\<rparr>"

text \<open>Listeners that answer and leave the wires, their properties and the admin alone.\<close>

definition bystander :: "'y importer_state wiring_endpoint_listener \<Rightarrow> bool" where
  "bystander l \<longleftrightarrow> (\<forall>d s W. \<exists>st W'. wiringEndpointAdded l d s W = Inr (st, W') \<and> weds W' = weds W \<and>
     fst (snd (rest W')) = fst (snd (rest W)))"

lemma wed_same_kept: "wires_kept cx w w' \<Longrightarrow> wed_same cx w' = wed_same cx w"
  by (simp add: wed_same_def wires_kept_def wiringEndpointDescription_hash_def wiringEndpointDescription_equals_def fun_eq_iff
    same_key_def)

lemma bystanders_told:
  assumes "\<And>ref. bystander (L ref)" "weds W d \<noteq> None"
  shows "\<exists>st W'. notifyListeners (importer_env wenv L) wiringEndpointAdded m d W = Inr (st, W') \<and> weds W' = weds W \<and>
    fst (snd (rest W')) = fst (snd (rest W))"
proof -
  let ?P = "\<lambda>W'. weds W' = weds W \<and> fst (snd (rest W')) = fst (snd (rest W))"
  have step: "\<exists>V'. notify_listener (importer_env wenv L) wiringEndpointAdded d ref V = Inr V' \<and> ?P V'" if V: "?P V" for ref V
  proof -
    obtain p where "wed_deref d V = Inr p" using assms(2) V by (auto simp: wed_deref_def)
    moreover obtain st V' where "wiringEndpointAdded (L ref) d (serviceReference_getProperty (wa_cx wenv) ref INAETICS_WIRING_ENDPOINT_LISTENER_SCOPE) V = Inr (st, V')" "?P V'"
      using assms(1) [of ref] V unfolding bystander_def by metis
    ultimately show ?thesis using V by (simp add: notify_listener_def importer_env_def Let_def)
  qed
  have "\<exists>W'. rfold (notify_listener (importer_env wenv L) wiringEndpointAdded d) refs V = Inr W' \<and> ?P W'" if "?P V" for refs V
    using that
  proof (induction refs arbitrary: V)
    case (Cons ref refs)
    obtain V1 where V1: "notify_listener (importer_env wenv L) wiringEndpointAdded d ref V = Inr V1" "?P V1" using step [OF Cons.prems] by blast
    then show ?case using Cons.IH [OF V1(2)] by simp
  qed simp
  then obtain W' where "rfold (notify_listener (importer_env wenv L) wiringEndpointAdded d) (map fst (listenerList m)) W = Inr W'" "?P W'"
    by blast
  then show ?thesis by (simp add: notifyListeners_def Let_def)
qed

lemma importer_sole:
  assumes "\<And>ref. bystander (L ref)" "waList m = [wa]" "map_of q WIRING_ADMIN_PROPERTIES_CONFIG_KEY = Some c"
    and "wa_calloc_send wenv" "\<And>p. fst (wa_registerService wenv p) = CELIX_SUCCESS"
  shows "sole_importer (importer_env wenv L) m wa d q (speaks c) (send_service_for (wa_cx wenv) d)"
proof -
  let ?env = "importer_env wenv L" and ?cx = "wa_cx wenv"
  have props: "\<exists>ap. getWiringAdminProperties (wtm_admin ?env wa) W = Some ap \<and> map_of ap WIRING_ADMIN_PROPERTIES_CONFIG_KEY = Some c"
    if "speaks c W" for W
    using that by (simp add: importer_env_def importer_admin_def wa_service_def wiringAdmin_getWiringAdminProperties_def on_wiring_def speaks_def)
  have imp: "\<exists>W'. importWiringEndpoint (wtm_admin ?env wa) d W = Inr (CELIX_SUCCESS, W') \<and> weds W' d = weds W d \<and> speaks c W' \<and>
      send_service_for ?cx d W'" if W: "speaks c W" "weds W d \<noteq> None" for W
  proof -
    obtain p where p: "weds W d = Some p" using W(2) by blast
    obtain reg where reg: "wa_registerService wenv (properties_set ?cx [] ''wire.id'' (properties_get ?cx p WIRE_ID_KEY)) = (CELIX_SUCCESS, reg)"
      using assms(5) by (metis prod.collapse)
    let ?a = "fst (snd (rest W))" and ?h = "wiringEndpointDescription_hash ?cx (on_wiring W)" and ?same = "wed_same ?cx (on_wiring W)"
    let ?w = "(on_wiring W)\<lparr>rest := ?a\<lparr>wiringSendServices := hashMap_put ?cx ?h ?same d \<lparr>ss_endpoint = d, ss_errorCount = 0\<rparr> (wiringSendServices ?a),
      wiringSendRegistrations := hashMap_put ?cx ?h ?same d reg (wiringSendRegistrations ?a)\<rparr>\<rparr>"
    have "wiringAdmin_importWiringEndpoint wenv d (on_wiring W) = Inr (CELIX_SUCCESS, ?w)"
      using assms(4) p reg by (simp add: wiringAdmin_importWiringEndpoint_def wed_deref_def on_wiring_def Let_def)
    then have run: "importWiringEndpoint (wtm_admin ?env wa) d W = Inr (CELIX_SUCCESS, wiring_put W ?w)"
      by (simp add: importer_env_def importer_admin_def wa_service_def Let_def)
    have same: "wed_same ?cx (wiring_put W ?w) = ?same"
      by (simp add: wed_same_def wiringEndpointDescription_hash_def wiringEndpointDescription_equals_def wireId_of_def wiring_put_def
        on_wiring_def fun_eq_iff same_key_def)
    have "send_service_for ?cx d (wiring_put W ?w)"
      unfolding send_service_for_def same by (simp add: wiring_put_def hashMap_get_put_same)
    moreover have "speaks c (wiring_put W ?w)" using W(1) by (simp add: speaks_def wiring_put_def)
    moreover have "weds (wiring_put W ?w) d = weds W d" by (simp add: wiring_put_def on_wiring_def)
    ultimately show ?thesis using run by blast
  qed
  have told: "\<exists>st W'. notifyListeners ?env wiringEndpointAdded m d W = Inr (st, W') \<and> weds W' d = weds W d \<and> speaks c W' \<and>
      (send_service_for ?cx d W \<longrightarrow> send_service_for ?cx d W')" if W: "speaks c W" "weds W d \<noteq> None" for W
  proof -
    obtain st W' where run: "notifyListeners ?env wiringEndpointAdded m d W = Inr (st, W')" "weds W' = weds W" "fst (snd (rest W')) = fst (snd (rest W))"
      using bystanders_told [of L, OF assms(1) W(2)] by blast
    have "wed_same ?cx W' = wed_same ?cx W" by (rule wed_same_cong) (rule run(2))
    then show ?thesis using run W(1) by (auto simp: speaks_def send_service_for_def)
  qed
  have set: "let W' = W\<lparr>weds := (weds W)(d \<mapsto> properties_set (wtm_cx ?env) p ''requested.service'' (Some v))\<rparr>
      in speaks c W' \<and> (send_service_for ?cx d W \<longrightarrow> send_service_for ?cx d W')" if "speaks c W" "weds W d = Some p" for W p v
  proof -
    let ?W = "W\<lparr>weds := (weds W)(d \<mapsto> properties_set (wtm_cx ?env) p ''requested.service'' (Some v))\<rparr>"
    have "wires_kept ?cx W ?W"
      using that(2) by (auto simp: wires_kept_def wireId_of_def properties_get_map_of properties_set_map_of WIRE_ID_KEY_def)
    then show ?thesis using that(1) wed_same_kept [of ?cx W ?W] by (simp add: speaks_def send_service_for_def Let_def)
  qed
  show ?thesis
    unfolding sole_importer_def using assms(2,3) props imp told set by blast
qed

text \<open>
  A node whose discovery has the manager as its only listener, a key of its tree and the text of
  a wire that the manager's admin can import.
\<close>

definition importer_ready ::
    "'y importer_state ew_env \<Rightarrow> wa_env \<Rightarrow> (service_reference \<Rightarrow> 'y importer_state wiring_endpoint_listener) \<Rightarrow> service_reference \<Rightarrow>
     node_discovery \<Rightarrow> bool" where
  "importer_ready env wenv L ref nd \<longleftrightarrow>
     ew_cx env = wa_cx wenv \<and> nd_getService (ew_nd env) ref = Some (topology_listener (importer_env wenv L)) \<and>
     listenerReferences nd = [(ref, ())] \<and> serviceReference_getProperty (ew_cx env) ref ''RSA'' = None \<and>
     celixThreadMutex_lock (ew_cx env) ''listenerReferencesMutex'' = CELIX_SUCCESS \<and>
     (\<forall>r. bystander (L r)) \<and> wa_calloc_send wenv \<and> (\<forall>p. fst (wa_registerService wenv p) = CELIX_SUCCESS)"

definition importable :: "'y importer_state ew_env \<Rightarrow> service_reference \<Rightarrow> string \<Rightarrow> string \<Rightarrow> properties \<Rightarrow> bool" where
  "importable env ref wire v q \<longleftrightarrow>
     wiringEndpoint_properties_load (ew_cx env) v (Some []) = Inr (CELIX_SUCCESS, Some q) \<and> map_of q WIRE_ID_KEY = Some wire \<and>
     filter_match (ew_cx env) (serviceReference_getProperty (ew_cx env) ref ''wiring.endpoint.listener.scope'') q"

text \<open>
  When another node publishes a wire that a waiting request asks for, the event makes the
  discovery list the node with a new description of the wire; the manager takes every satisfied
  request off its queue and records the wire as imported by its admin, and the admin has a
  service to send over it.
\<close>

theorem published_wire_is_imported:
  assumes "importer_ready env wenv L ref nd" "importable env ref wire v q" "wire_key env k zone node wire"
    and "w_action r = CStr ''set'' \<or> w_action r = CStr ''create'' \<or> w_action r = CStr ''update''" "w_rkey r = CStr k" "w_value r = CStr v"
    and "ew_alloc env W = Some d" "map_of (discoveredNodes nd) node = None" "rest W = (m, a, y)"
    and "waList m = [wa]" "importedWiringEndpoints m = []" "\<forall>p\<in>set (waitingForImport m). map_of p ''requested.service'' \<noteq> None"
    and "\<exists>p\<in>set (waitingForImport m). properties_match (ew_cx env) p q"
    and "map_of (adminProperties a) WIRING_ADMIN_PROPERTIES_CONFIG_KEY = Some c" "map_of q WIRING_ADMIN_PROPERTIES_CONFIG_KEY = Some c"
  shows "\<exists>nd' W'. handle_event env r nd W = Inr (nd', W') \<and>
    map_of (discoveredNodes nd') = (map_of (discoveredNodes nd))(node \<mapsto> \<lparr>nodeId = Some node, zoneId = Some zone, node_properties = [],
      wiring_ep_descriptions_list = [d]\<rparr>) \<and>
    fst (rest W') = m\<lparr>importedWiringEndpoints := [(d, [wa])],
      waitingForImport := filter (\<lambda>p. \<not> properties_match (ew_cx env) p q) (waitingForImport m)\<rparr> \<and>
    send_service_for (ew_cx env) d W'"
proof -
  let ?cx = "ew_cx env" and ?menv = "importer_env wenv L"
  let ?n = "\<lparr>nodeId = Some node, zoneId = Some zone, node_properties = [], wiring_ep_descriptions_list = [d]\<rparr>"
  let ?W = "W\<lparr>weds := (weds W)(d \<mapsto> q)\<rparr>"
  have cxe: "wa_cx wenv = ?cx" and ready: "nd_getService (ew_nd env) ref = Some (topology_listener ?menv)"
      "listenerReferences nd = [(ref, ())]" "serviceReference_getProperty ?cx ref ''RSA'' = None"
      "celixThreadMutex_lock ?cx ''listenerReferencesMutex'' = CELIX_SUCCESS"
    and bys: "\<And>r. bystander (L r)" "wa_calloc_send wenv" "\<And>p. fst (wa_registerService wenv p) = CELIX_SUCCESS"
    using assms(1) unfolding importer_ready_def by metis+
  note wire = assms(2) [unfolded importable_def]
  have cx: "wtm_cx ?menv = ?cx" by (simp add: importer_env_def cxe)
  obtain root where root: "rootPath ?cx = Inr root" "scan_key root k = Inr (Some (zone, node, wire))"
    using assms(3) by (auto simp: wire_key_def)
  have read: "etcdWatcher_getWiringEndpointFromKey env k (Some v) W = Inr (CELIX_SUCCESS, Some ?n, ?W)"
    by (rule getWiringEndpointFromKey_ok [OF root]) (use wire assms(7) in auto)
  have sole: "sole_importer ?menv m wa d q (speaks c) (send_service_for ?cx d)"
    using importer_sole [of L m wa q c wenv d] bys assms(10,15) unfolding cxe by blast
  have "speaks c ?W" using assms(9,14) by (simp add: speaks_def)
  then obtain V where V: "wiringTopologyManager_WiringEndpointAdded ?menv d m ?W = Inr (CELIX_SUCCESS, m\<lparr>importedWiringEndpoints := [(d, [wa])],
        waitingForImport := filter (\<lambda>p. \<not> properties_match ?cx p q) (waitingForImport m)\<rparr>, V)" "send_service_for ?cx d V"
    using endpointAdded_sole [OF sole, of ?W] assms(11-13) unfolding cx by auto
  let ?V = "V\<lparr>rest := (m\<lparr>importedWiringEndpoints := [(d, [wa])],
        waitingForImport := filter (\<lambda>p. \<not> properties_match ?cx p q) (waitingForImport m)\<rparr>, snd (rest V))\<rparr>"
  have added: "wiringEndpointAdded (topology_listener ?menv) d s ?W = Inr (CELIX_SUCCESS, ?V)" for s
    using V(1) assms(9) by (simp add: topology_listener_def)
  let ?nd = "nd\<lparr>discoveredNodes := hashMap_put ?cx (utils_stringHash ?cx) (string_same ?cx) node ?n (discoveredNodes nd)\<rparr>"
  have "inform (ew_nd env) ?nd True d ?W = Inr ?V"
    using ready wire added
    by (simp add: inform_def node_discovery_informWiringEndpointListeners_def inform_listener_def wed_deref_def Let_def)
  then have add: "node_discovery_addNode (ew_nd env) ?n nd ?W = Inr (CELIX_SUCCESS, ?nd, ?V)"
    using assms(8) by (simp add: node_discovery_addNode_def smap.get_map_of Let_def)
  have act: "\<exists>action. w_action r = CStr action \<and> (action = ''set'' \<or> action = ''create'' \<or> action = ''update'')"
    using assms(4) by blast
  then have "handle_event env r nd W = Inr (?nd, ?V)"
    unfolding handle_event_def using assms(5,6) read add by (auto simp: read_buf_def)
  moreover have "send_service_for ?cx d ?V"
  proof -
    have "wed_same ?cx ?V = wed_same ?cx V" by (rule wed_same_cong) simp
    then show ?thesis using V(2) by (simp add: send_service_for_def)
  qed
  ultimately show ?thesis by (simp add: smap.put_map_of)
qed

text \<open>A node for the witness: its manager waits for the wire w1, and its own listeners do nothing.\<close>

definition demo_idle_listener :: "nat importer_state wiring_endpoint_listener" where
  "demo_idle_listener = \<lparr>wiringEndpointAdded = (\<lambda>d s W. Inr (CELIX_SUCCESS, W)), wiringEndpointRemoved = (\<lambda>d s W. Inr (CELIX_SUCCESS, W))\<rparr>"

definition demo_import_env :: "nat importer_state ew_env" where
  "demo_import_env = \<lparr>ew_nd = \<lparr>nd_cx = demo_cx,
       nd_getService = (\<lambda>r. Some (topology_listener (importer_env demo_wa_env (\<lambda>r. demo_idle_listener)))), nd_addOwnNode = (\<lambda>n W. Inr W)\<rparr>,
     ew_lib = \<lparr>json_loads = (\<lambda>t. None), http = (\<lambda>r u d x. ((0, []), x)), realloc_ok = (\<lambda>n. True), curl_global_init = True\<rparr>,
     ew_conn = demo_conn, ew_calloc = (\<lambda>W. Some 9), ew_uuid = ''u''\<rparr>"

definition demo_request :: properties where
  "demo_request = [(WIRE_ID_KEY, ''w1''), (''requested.service'', ''ep-9'')]"

definition demo_wanting :: wtm where
  "demo_wanting = \<lparr>waList = [0], listenerList = [(7, ())], exportedWiringEndpoints = [], waitingForExport = [],
     waitingForImport = [demo_request], importedWiringEndpoints = []\<rparr>"

definition demo_import_world :: "nat importer_state world" where
  "demo_import_world = \<lparr>weds = Map.empty,
     rest = (demo_wanting, demo_wa\<lparr>adminProperties := [(WIRING_ADMIN_PROPERTIES_CONFIG_KEY, ''https'')]\<rparr>, 0)\<rparr>"

definition demo_listening :: node_discovery where
  "demo_listening = \<lparr>ownNode = demo_node [], discoveredNodes = [], listenerReferences = [(8, ())]\<rparr>"

definition demo_published :: properties where
  "demo_published = [(WIRE_ID_KEY, ''w1''), (WIRING_ADMIN_PROPERTIES_CONFIG_KEY, ''https'')]"

lemmas demo_import_defs = demo_import_env_def demo_request_def demo_wanting_def demo_import_world_def demo_listening_def
  demo_published_def demo_idle_listener_def

lemma demo_text: "\<exists>v q. importable demo_import_env 8 ''w1'' v q \<and> map_of q = map_of demo_published"
proof -
  have trims: "trims_blanks_only (ew_cx demo_import_env)"
    by (simp add: trims_blanks_only_def demo_import_env_def demo_cx_def celix0_def)
  obtain v q where "wiringEndpoint_properties_load (ew_cx demo_import_env) v (Some []) = Inr (CELIX_SUCCESS, Some q)"
      "map_of q = map_of demo_published"
    using store_load_id [OF trims, of demo_published]
    by (auto simp: demo_published_def clean_key_def clean_value_def entry_fits_def Endpoint_Codec.MAX_VALUE_LENGTH_def needs_escape_def buffer_sizes is_cspace_def
        entry_line_def WIRE_ID_KEY_def WIRING_ADMIN_PROPERTIES_CONFIG_KEY_def)
  then show ?thesis
    by (intro exI [of _ v] exI [of _ q]) (simp add: importable_def demo_import_env_def demo_cx_def celix0_def demo_published_def)
qed

theorem published_wire_is_imported_witness:
  "\<exists>v nd' W'. handle_event demo_import_env (no_watch\<lparr>w_action := CStr ''set'', w_rkey := CStr ''/fw-1/z/n1/w1'', w_value := CStr v\<rparr>)
      demo_listening demo_import_world = Inr (nd', W') \<and>
    map_of (discoveredNodes nd') = [''n1'' \<mapsto> demo_node [9]] \<and>
    fst (rest W') = demo_wanting\<lparr>importedWiringEndpoints := [(9, [0])], waitingForImport := []\<rparr> \<and> send_service_for (ew_cx demo_import_env) 9 W'"
proof -
  obtain v q where vq: "importable demo_import_env 8 ''w1'' v q" "map_of q = map_of demo_published" using demo_text by blast
  let ?r = "no_watch\<lparr>w_action := CStr ''set'', w_rkey := CStr ''/fw-1/z/n1/w1'', w_value := CStr v\<rparr>"
  have ready: "importer_ready demo_import_env demo_wa_env (\<lambda>r. demo_idle_listener) 8 demo_listening"
    by (simp add: importer_ready_def demo_import_defs demo_wa_env_def demo_cx_def celix0_def bystander_def)
  have "rootPath (ew_cx demo_import_env) = Inr ''fw-1''"
    by (simp add: rootPath_def etcdWatcher_getRootPath_def demo_import_env_def demo_cx_def celix0_def getProperty_ok_def
        MAX_ROOTNODE_LENGTH_def read_buf_def)
  moreover have "scan_key ''fw-1'' ''/fw-1/z/n1/w1'' = Inr (Some (''z'', ''n1'', ''w1''))"
    using scan_key_parts [of "''fw-1''" "''z''" "''n1''" "''w1''"] by (simp add: path_simps)
  ultimately have k: "wire_key demo_import_env ''/fw-1/z/n1/w1'' ''z'' ''n1'' ''w1''" by (simp add: wire_key_def)
  have "properties_match (ew_cx demo_import_env) demo_request q"
    by (simp add: properties_match_set match_relevant_def srvc_ignored_def vq(2) demo_import_defs WIRE_ID_KEY_def)
  then have m: "properties_match (ew_cx demo_import_env) demo_request q" .
  have req: "map_of demo_request ''requested.service'' = Some ''ep-9''" by (simp add: demo_request_def WIRE_ID_KEY_def)
  have c: "map_of q WIRING_ADMIN_PROPERTIES_CONFIG_KEY = Some ''https''"
    by (simp add: vq(2) demo_published_def WIRE_ID_KEY_def WIRING_ADMIN_PROPERTIES_CONFIG_KEY_def)
  have alloc: "ew_alloc demo_import_env demo_import_world = Some 9"
    by (simp add: ew_alloc_def demo_import_env_def demo_import_world_def)
  show ?thesis
    using published_wire_is_imported [OF ready vq(1) k, of ?r demo_import_world 9 demo_wanting _ 0 0] m req c alloc
    by (intro exI [of _ v]) (simp add: demo_listening_def demo_import_world_def demo_wanting_def demo_node_def)
qed

end
