(* ===== verification/Two_Nodes.thy ===== *)
theory Two_Nodes
  imports Node_Import
begin

text \<open>
  A wire between two nodes: the export on one node, the key and the text that its discovery
  writes to the store, and the import on the other node when the store reports them.
\<close>

section \<open>What the store carries\<close>

text \<open>The text format gives the properties back, and the key names the parts of the path.\<close>

definition carried :: "properties \<Rightarrow> bool" where
  "carried p \<longleftrightarrow> distinct (map fst p) \<and> (\<forall>(k, v) \<in> set p. clean_key k \<and> clean_value v \<and> entry_fits (k, v)) \<and>
     length (entries_text p) < 4096"

definition key_fits :: "string \<Rightarrow> string \<Rightarrow> string \<Rightarrow> string \<Rightarrow> bool" where
  "key_fits root zone node wire \<longleftrightarrow> plain_root root \<and> last root \<noteq> CHR ''/'' \<and> path_name zone \<and> path_name node \<and> path_name wire \<and>
     length root + length zone + length node + length wire < 3900"

definition wire_path :: "string \<Rightarrow> string \<Rightarrow> string \<Rightarrow> string \<Rightarrow> string" where
  "wire_path root zone node wire = root @ ''/'' @ zone @ ''/'' @ node @ ''/'' @ wire"

text \<open>An event of the store that reports a key and its value; keys are reported with a leading slash.\<close>

definition set_event :: "string \<Rightarrow> string \<Rightarrow> watch_result" where
  "set_event k v = no_watch\<lparr>w_action := CStr ''set'', w_rkey := CStr (''/'' @ k), w_value := CStr v\<rparr>"

lemma carried_text:
  assumes "carried p" "map_of p WIRE_ID_KEY = Some wire" "trims_blanks_only cx"
  shows "\<exists>v q. wiringEndpoint_properties_store p = Inr (CELIX_SUCCESS, Some v) \<and>
    wiringEndpoint_properties_load cx v (Some []) = Inr (CELIX_SUCCESS, Some q) \<and> map_of q = map_of p"
  using assms by (intro store_load_id) (auto simp: carried_def Endpoint_Codec.MAX_VALUE_LENGTH_def)

lemma carried_publishable:
  assumes "carried p" "map_of p WIRE_ID_KEY = Some wire"
  shows "publishable p"
proof -
  have "wiringEndpoint_properties_store p = Inr (CELIX_SUCCESS, Some (entries_text p))"
    using assms by (intro store_in_full) (auto simp: carried_def Endpoint_Codec.MAX_VALUE_LENGTH_def)
  then show ?thesis using assms by (auto simp: publishable_def carried_def)
qed

lemma path_of_node:
  assumes "rootPath cx = Inr root" "key_fits root zone node wire" "zoneId n = Some zone" "nodeId n = Some node"
  shows "etcdWatcher_getLocalNodePath cx n = Inr (root @ ''/'' @ zone @ ''/'' @ node)"
  using assms by (intro localNodePath_plain) (auto simp: key_fits_def plain_root_def)

text \<open>Publishing a description writes its text under the path of the wire.\<close>

lemma publish_writes:
  assumes "key_fits root zone node wire" "weds U d = Some q" "map_of q WIRE_ID_KEY = Some wire"
    and "wiringEndpoint_properties_store q = Inr (CELIX_SUCCESS, Some v)"
  shows "publish_endpoint env (root @ ''/'' @ zone @ ''/'' @ node) d U =
    rbind (etcd_set (ew_lib env) (ew_conn env) (wire_path root zone node wire) v (etcd_ttl (ew_cx env)) False (rest U))
      (\<lambda>(ok, x). Inr (U\<lparr>rest := x\<rparr>))"
proof -
  have "snprintf MAX_LOCALNODE_LENGTH ((root @ ''/'' @ zone @ ''/'' @ node) @ ''/'' @ wire) = wire_path root zone node wire"
    using assms(1) by (auto simp: snprintf_def MAX_LOCALNODE_LENGTH_def key_fits_def wire_path_def)
  then show ?thesis using assms(2-4) by (simp add: publish_endpoint_def wed_deref_def properties_get_map_of)
qed

lemma wire_path_key:
  "rootPath (ew_cx env) = Inr root \<Longrightarrow> key_fits root zone node wire \<Longrightarrow> wire_key env (''/'' @ wire_path root zone node wire) zone node wire"
  unfolding wire_key_def key_fits_def wire_path_def using scan_key_parts [of root zone node wire] by blast

section \<open>From export to import\<close>

text \<open>
  The manager of the importing node: one admin that speaks the configuration of the wiring
  admin, nothing imported yet, and requests that name the service they are for.
\<close>

definition importer_waits :: "wiring_admin_ptr \<Rightarrow> wtm \<Rightarrow> wiring_admin \<Rightarrow> bool" where
  "importer_waits wa m a \<longleftrightarrow> waList m = [wa] \<and> importedWiringEndpoints m = [] \<and>
     (\<forall>p \<in> set (waitingForImport m). map_of p ''requested.service'' \<noteq> None) \<and>
     map_of (adminProperties a) WIRING_ADMIN_PROPERTIES_CONFIG_KEY = Some WIRING_ADMIN_PROPERTIES_CONFIG_VALUE"

lemma wire_published_props:
  assumes "framework_ok env u"
  shows "map_of (properties_set cx (wire_properties env a u uuid) ''requested.service.id'' (Some sid)) WIRE_ID_KEY = Some uuid"
    "map_of (properties_set cx (wire_properties env a u uuid) ''requested.service.id'' (Some sid)) WIRING_ADMIN_PROPERTIES_CONFIG_KEY =
      Some WIRING_ADMIN_PROPERTIES_CONFIG_VALUE"
proof -
  have keys: "WIRE_ID_KEY \<noteq> ''requested.service.id''" "WIRING_ADMIN_PROPERTIES_CONFIG_KEY \<noteq> ''requested.service.id''"
      "WIRE_ID_KEY \<notin> {WIRING_ADMIN_PROPERTIES_CONFIG_KEY, WIRING_ADMIN_PROPERTIES_SECURE_KEY, HTTP_URL_KEY}"
      "WIRING_ADMIN_PROPERTIES_CONFIG_KEY \<notin> {WIRING_ADMIN_PROPERTIES_SECURE_KEY, HTTP_URL_KEY}"
    by (simp_all add: WIRE_ID_KEY_def WIRING_ADMIN_PROPERTIES_CONFIG_KEY_def WIRING_ADMIN_PROPERTIES_SECURE_KEY_def HTTP_URL_KEY_def)
  have "OSGI_RSA_ENDPOINT_FRAMEWORK_UUID (wa_cx env) \<notin> {WIRE_ID_KEY, WIRING_ADMIN_PROPERTIES_CONFIG_KEY}"
    using assms by (simp add: framework_ok_def)
  with keys show "map_of (properties_set cx (wire_properties env a u uuid) ''requested.service.id'' (Some sid)) WIRE_ID_KEY = Some uuid"
    "map_of (properties_set cx (wire_properties env a u uuid) ''requested.service.id'' (Some sid)) WIRING_ADMIN_PROPERTIES_CONFIG_KEY =
      Some WIRING_ADMIN_PROPERTIES_CONFIG_VALUE"
    by (auto simp: properties_set_map_of wire_properties_def exported_properties_def Let_def)
qed

lemma match_cong: "map_of q' = map_of q \<Longrightarrow> properties_match cx p q' = properties_match cx p q"
  by (simp add: properties_match_set)

lemma event_of_store:
  "w_action (set_event k v) = CStr ''set''" "w_rkey (set_event k v) = CStr (''/'' @ k)" "w_value (set_event k v) = CStr v"
  by (simp_all add: set_event_def)

text \<open>
  C2. A service that is exported on one node is reached from another: the export makes the wire
  and publishes it, which writes a text under the path of the wire; when the store reports that
  key and text to another node, its discovery lists the exporting node, its manager takes every
  request that the published properties satisfy off its queue and records the import, and its
  admin has a send service for the wire.
\<close>

theorem wire_crosses_nodes:
  assumes "node_ready wenv eenv ref u d path W" "rest W = (a, nd, x)" "waList m = [wa]" "listenerList m = [(ref, ())]"
    and "hashMap_get (srvc_same (ew_cx eenv)) (exportedWiringEndpoints m) p = None"
    and "properties_match (ew_cx eenv) p (snd (wiringAdmin_getWiringAdminProperties a))"
    and "map_of p ''service.id'' = Some sid" "wire = wa_uuid wenv \<lparr>weds = weds W, rest = lockE a\<rparr>"
    and "q = properties_set (ew_cx eenv) (wire_properties wenv a u wire) ''requested.service.id'' (Some sid)" "carried q"
    and "rootPath (ew_cx eenv) = Inr root" "zoneId (ownNode nd) = Some zone" "nodeId (ownNode nd) = Some node"
    and "key_fits root zone node wire"
    and "importer_ready env wenv' L iref nd'" "rest V = (m', a', y)" "importer_waits wa' m' a'" "ew_alloc env V = Some e"
    and "map_of (discoveredNodes nd') node = None" "rootPath (ew_cx env) = Inr root" "trims_blanks_only (ew_cx env)"
    and "\<forall>q'. map_of q' = map_of q \<longrightarrow>
      filter_match (ew_cx env) (serviceReference_getProperty (ew_cx env) iref ''wiring.endpoint.listener.scope'') q'"
    and "\<exists>r \<in> set (waitingForImport m'). properties_match (ew_cx env) r q"
  shows "\<exists>a1 x1 v nd1 V1.
    wiringTopologyManager_exportWiringEndpoint (node_env wenv eenv) (Some p) m W =
      Inr (CELIX_SUCCESS,
        m\<lparr>exportedWiringEndpoints := hashMap_put (ew_cx eenv) (srvc_hash (ew_cx eenv)) (srvc_same (ew_cx eenv)) p [(wa, d)]
            (exportedWiringEndpoints m)\<rparr>,
        \<lparr>weds = (weds W)(d \<mapsto> q), rest = (a1, own_with nd d, x1)\<rparr>) \<and>
    rfold (publish_endpoint eenv path) (wiring_ep_descriptions_list (ownNode nd) @ [d])
        \<lparr>weds = (weds W)(d \<mapsto> q), rest = x\<rparr> = Inr \<lparr>weds = (weds W)(d \<mapsto> q), rest = x1\<rparr> \<and>
    (\<forall>U. weds U d = Some q \<longrightarrow> publish_endpoint eenv path d U =
      rbind (etcd_set (ew_lib eenv) (ew_conn eenv) (wire_path root zone node wire) v (etcd_ttl (ew_cx eenv)) False (rest U))
        (\<lambda>(ok, x). Inr (U\<lparr>rest := x\<rparr>))) \<and>
    handle_event env (set_event (wire_path root zone node wire) v) nd' V = Inr (nd1, V1) \<and>
    map_of (discoveredNodes nd1) = (map_of (discoveredNodes nd'))(node \<mapsto> \<lparr>nodeId = Some node, zoneId = Some zone,
      node_properties = [], wiring_ep_descriptions_list = [e]\<rparr>) \<and>
    fst (rest V1) = m'\<lparr>importedWiringEndpoints := [(e, [wa'])],
      waitingForImport := filter (\<lambda>r. \<not> properties_match (ew_cx env) r q) (waitingForImport m')\<rparr> \<and>
    send_service_for (ew_cx env) e V1"
proof -
  have fw: "framework_ok wenv u" and path: "path = root @ ''/'' @ zone @ ''/'' @ node"
    using assms(1,2) path_of_node [OF assms(11,14,12,13)] by (simp_all add: node_ready_def)
  have wid: "map_of q WIRE_ID_KEY = Some wire"
    and conf: "map_of q WIRING_ADMIN_PROPERTIES_CONFIG_KEY = Some WIRING_ADMIN_PROPERTIES_CONFIG_VALUE"
    using wire_published_props [OF fw] by (simp_all add: assms(9))
  obtain v q' where io: "wiringEndpoint_properties_store q = Inr (CELIX_SUCCESS, Some v)"
      "wiringEndpoint_properties_load (ew_cx env) v (Some []) = Inr (CELIX_SUCCESS, Some q')" "map_of q' = map_of q"
    using carried_text [OF assms(10) wid assms(21)] by blast
  note export = node_export_publishes [OF assms(1-9) carried_publishable [OF assms(10) wid]]
  have imp: "importable env iref wire v q'" using io wid assms(22) by (simp add: importable_def)
  have waits: "waList m' = [wa']" "importedWiringEndpoints m' = []" "\<forall>p \<in> set (waitingForImport m'). map_of p ''requested.service'' \<noteq> None"
      "map_of (adminProperties a') WIRING_ADMIN_PROPERTIES_CONFIG_KEY = Some WIRING_ADMIN_PROPERTIES_CONFIG_VALUE"
    using assms(17) by (simp_all add: importer_waits_def)
  have event: "\<exists>nd1 V1. handle_event env (set_event (wire_path root zone node wire) v) nd' V = Inr (nd1, V1) \<and>
    map_of (discoveredNodes nd1) = (map_of (discoveredNodes nd'))(node \<mapsto> \<lparr>nodeId = Some node, zoneId = Some zone,
      node_properties = [], wiring_ep_descriptions_list = [e]\<rparr>) \<and>
    fst (rest V1) = m'\<lparr>importedWiringEndpoints := [(e, [wa'])],
      waitingForImport := filter (\<lambda>p. \<not> properties_match (ew_cx env) p q') (waitingForImport m')\<rparr> \<and>
    send_service_for (ew_cx env) e V1"
    by (rule published_wire_is_imported [OF assms(15) imp wire_path_key [OF assms(20,14)], where c = WIRING_ADMIN_PROPERTIES_CONFIG_VALUE])
      (use waits assms(16,18,19,23) io(3) conf in \<open>auto simp: event_of_store match_cong [OF io(3)]\<close>)
  from export event publish_writes [OF assms(14) _ wid io(1)] show ?thesis
    unfolding path match_cong [OF io(3)] by blast
qed

text \<open>Two nodes for the witness: the second one waits for the wire that the first one makes.\<close>

definition demo_far_wa :: wa_env where
  "demo_far_wa = demo_wa_env\<lparr>wa_cx := demo_ew_cx\<rparr>"

definition demo_far_env :: "nat importer_state ew_env" where
  "demo_far_env = demo_import_env\<lparr>ew_nd := \<lparr>nd_cx = demo_ew_cx,
     nd_getService = (\<lambda>r. Some (topology_listener (importer_env demo_far_wa (\<lambda>r. demo_idle_listener)))), nd_addOwnNode = (\<lambda>n W. Inr W)\<rparr>\<rparr>"

definition demo_far_wtm :: wtm where
  "demo_far_wtm = demo_wanting\<lparr>waitingForImport := [[(WIRE_ID_KEY, ''uuid-1''), (''requested.service'', ''ep-9'')]]\<rparr>"

definition demo_far_world :: "nat importer_state world" where
  "demo_far_world = \<lparr>weds = Map.empty, rest = (demo_far_wtm,
     demo_wa\<lparr>adminProperties := [(WIRING_ADMIN_PROPERTIES_CONFIG_KEY, WIRING_ADMIN_PROPERTIES_CONFIG_VALUE)]\<rparr>, 0)\<rparr>"

lemma demo_wire_carried: "carried demo_wire"
  by (simp add: carried_def demo_wire_text clean_key_def clean_value_def is_cspace_def entry_fits_def needs_escape_def buffer_sizes
      entry_line_def escape_def WIRE_ID_KEY_def HTTP_URL_KEY_def WIRING_ADMIN_PROPERTIES_CONFIG_KEY_def
      WIRING_ADMIN_PROPERTIES_SECURE_KEY_def WIRING_ADMIN_PROPERTIES_CONFIG_VALUE_def WIRING_ADMIN_PROPERTIES_SECURE_VALUE_def)

lemma demo_far_ready:
  "importer_ready demo_far_env demo_far_wa (\<lambda>r. demo_idle_listener) 8 demo_listening"
  "importer_waits 0 demo_far_wtm (fst (snd (rest demo_far_world)))"
  "ew_alloc demo_far_env demo_far_world = Some 9"
  by (simp_all add: importer_ready_def importer_waits_def bystander_def ew_alloc_def demo_far_env_def demo_far_wa_def demo_wa_env_def
      demo_ew_cx_def celix0_def demo_import_defs demo_far_wtm_def demo_far_world_def WIRE_ID_KEY_def)

lemma demo_far_root:
  "rootPath (ew_cx demo_far_env) = Inr ''inaetics/discovery''" "trims_blanks_only (ew_cx demo_far_env)"
  "filter_match (ew_cx demo_far_env) (serviceReference_getProperty (ew_cx demo_far_env) r k) q"
  using demo_rootPath by (simp_all add: demo_far_env_def demo_ew_def trims_blanks_only_def demo_ew_cx_def celix0_def)

lemma demo_far_match:
  "properties_match (ew_cx demo_far_env) [(WIRE_ID_KEY, ''uuid-1''), (''requested.service'', ''ep-9'')] demo_wire"
  by (simp add: properties_match_set match_relevant_def demo_wire_text)

theorem wire_crosses_nodes_witness:
  "\<exists>v nd1 V1. handle_event demo_far_env (set_event ''inaetics/discovery/z/n1/uuid-1'' v) demo_listening demo_far_world = Inr (nd1, V1) \<and>
    map_of (discoveredNodes nd1) = [''n1'' \<mapsto> demo_node [9]] \<and>
    fst (rest V1) = demo_far_wtm\<lparr>importedWiringEndpoints := [(9, [0])], waitingForImport := []\<rparr> \<and>
    send_service_for (ew_cx demo_far_env) 9 V1"
proof -
  let ?p = "[(''service.id'', ''7'')]"
  have world: "rest demo_node_world = (demo_exporter, demo_nd, 0)" by (simp add: demo_node_world_def)
  have manager: "waList demo_manager = [0]" "listenerList demo_manager = [(7, ())]"
      "hashMap_get (srvc_same (ew_cx demo_ew)) (exportedWiringEndpoints demo_manager) ?p = None"
    by (simp_all add: demo_manager_def demo_wtm_def hashMap_get_def)
  have export: "properties_match (ew_cx demo_ew) ?p r" "map_of ?p ''service.id'' = Some ''7''"
      "''uuid-1'' = wa_uuid demo_wa_env \<lparr>weds = weds demo_node_world, rest = lockE demo_exporter\<rparr>" for r
    by (simp_all add: demo_ew_def demo_ew_cx_def demo_nd_defs demo_wa_env_def)
  have own: "zoneId (ownNode demo_nd) = Some ''z''" "nodeId (ownNode demo_nd) = Some ''n1''" by (simp_all add: demo_nd_defs)
  have key: "key_fits ''inaetics/discovery'' ''z'' ''n1'' ''uuid-1''" by (simp add: key_fits_def path_simps)
  have far: "rest demo_far_world = (demo_far_wtm, fst (snd (rest demo_far_world)), 0)" "map_of (discoveredNodes demo_listening) ''n1'' = None"
    by (simp_all add: demo_far_world_def demo_listening_def)
  have wants: "\<exists>r \<in> set (waitingForImport demo_far_wtm). properties_match (ew_cx demo_far_env) r demo_wire"
      "filter (\<lambda>r. \<not> properties_match (ew_cx demo_far_env) r demo_wire) (waitingForImport demo_far_wtm) = []"
    using demo_far_match by (simp_all add: demo_far_wtm_def)
  have scope: "\<forall>q'. map_of q' = map_of demo_wire \<longrightarrow> filter_match (ew_cx demo_far_env)
      (serviceReference_getProperty (ew_cx demo_far_env) 8 ''wiring.endpoint.listener.scope'') q'"
    using demo_far_root(3) by blast
  have path: "wire_path ''inaetics/discovery'' ''z'' ''n1'' ''uuid-1'' = ''inaetics/discovery/z/n1/uuid-1''" by (simp add: wire_path_def)
  have nodes: "(map_of (discoveredNodes demo_listening))(''n1'' \<mapsto> \<lparr>nodeId = Some ''n1'', zoneId = Some ''z'', node_properties = [],
      wiring_ep_descriptions_list = [9]\<rparr>) = [''n1'' \<mapsto> demo_node [9]]"
    by (simp add: demo_listening_def demo_node_def)
  from wire_crosses_nodes [OF demo_node_ready world manager export demo_wire_def demo_wire_carried demo_rootPath own key
      demo_far_ready(1) far(1) demo_far_ready(2,3) far(2) demo_far_root(1,2) scope wants(1)]
  show ?thesis unfolding path nodes wants(2) by blast
qed

end
