(* ===== verification/Published_Endpoint.thy ===== *)
theory Published_Endpoint
  imports Two_Nodes
begin

text \<open>
  From a description on one node over the store to a description on another: the publisher's
  request, what the store keeps of it, the event a watch of the other node is answered with, and
  the reading of its key and value.
\<close>

section \<open>Keys and values that need no escaping\<close>

text \<open>
  The publisher escapes nothing: names become parts of a URL as they are, and the text becomes a
  field of a form. Names of letters, digits and dashes and texts without the characters that
  separate or encode the fields of a form are what the store takes over unchanged.
\<close>

definition name_char :: "char \<Rightarrow> bool" where
  "name_char c \<longleftrightarrow> c = CHR ''-'' \<or> is_digit c \<or> (let n = of_char c :: nat in 65 \<le> n \<and> n \<le> 90 \<or> 97 \<le> n \<and> n \<le> 122)"

definition segment :: "string \<Rightarrow> bool" where
  "segment n \<longleftrightarrow> n \<noteq> [] \<and> list_all name_char n"

fun path_of :: "string list \<Rightarrow> string" where
  "path_of [] = []"
| "path_of [n] = n"
| "path_of (n # m # ns) = n @ ''/'' @ path_of (m # ns)"

definition form_plain :: "string \<Rightarrow> bool" where
  "form_plain v \<longleftrightarrow> (\<forall>c \<in> set v. c \<notin> {CHR ''&'', CHR '';'', CHR ''%'', CHR ''+''})"

definition store_url :: "etcd_conn \<Rightarrow> string \<Rightarrow> string" where
  "store_url c path = ''http://'' @ etcd_server c @ '':'' @ dec_int (etcd_port c) @ ''/v2/keys/'' @ path"

definition etcd_form :: "string \<Rightarrow> int \<Rightarrow> string" where
  "etcd_form v ttl = ''value='' @ v @ (if 0 < ttl then '';ttl='' @ dec_int ttl else [])"

section \<open>The store\<close>

text \<open>
  What a store that is served promises: a PUT of a value to a key that it can have (nothing is
  stored above or below it) is answered, and afterwards the key has that value and every other key
  the one it had. A watch of a path is answered with an event that names a key under it, with a
  leading slash, and the value it was set to.
\<close>

definition keeps_values :: "'x etcd_lib \<Rightarrow> etcd_conn \<Rightarrow> ('x \<Rightarrow> string \<Rightarrow> bool) \<Rightarrow> ('x \<Rightarrow> string \<rightharpoonup> string) \<Rightarrow> bool" where
  "keeps_values lib c free stored \<longleftrightarrow>
     (\<forall>ns v ttl x. ns \<noteq> [] \<and> (\<forall>n \<in> set ns. segment n) \<and> form_plain v \<and> free x (path_of ns) \<longrightarrow>
        (\<exists>bs x'. http lib PUT (store_url c (path_of ns)) (Some (etcd_form v ttl)) x = ((0, bs), x') \<and> bs \<noteq> [] \<and>
           stored x' = (stored x)(path_of ns \<mapsto> v)))"

definition event_of_set :: "string \<Rightarrow> string \<Rightarrow> json \<Rightarrow> bool" where
  "event_of_set k v j \<longleftrightarrow>
     (\<exists>root node i. j = JObject root \<and> map_of root ''action'' = Some (JString ''set'') \<and> map_of root ''node'' = Some (JObject node) \<and>
        map_of node ''key'' = Some (JString (''/'' @ k)) \<and> map_of node ''value'' = Some (JString v) \<and>
        map_of node ''modifiedIndex'' = Some (JInteger i) \<and> 0 \<le> i \<and> i < 2 ^ 31)"

definition watch_reports :: "'x etcd_lib \<Rightarrow> etcd_conn \<Rightarrow> string \<Rightarrow> int \<Rightarrow> string \<Rightarrow> string \<Rightarrow> 'x \<Rightarrow> 'x \<Rightarrow> bool" where
  "watch_reports lib c root i k v y y' \<longleftrightarrow>
     (\<exists>bs j. http lib GET (store_url c (watch_path root i)) None y = ((0, bs), y') \<and> bs \<noteq> [] \<and>
        json_loads lib (concat bs) = Some j \<and> event_of_set k v j)"

lemma etcd_url_fits: "length (store_url c path) < 256 \<Longrightarrow> etcd_url c path = store_url c path"
  by (simp add: etcd_url_def store_url_def snprintf_def MAX_URL_LENGTH_def)

lemma set_request_form:
  assumes "length v < 4096" "ttl < 2 ^ 31"
  shows "set_request v ttl False = Inr (etcd_form v ttl)"
proof (cases "0 < ttl")
  case True
  have "nat ttl < 10 ^ 10" using assms(2) by simp
  then have "length (dec (nat ttl)) \<le> 10" by (intro length_dec_le) simp_all
  moreover have "dec_int ttl = dec (nat ttl)" using True by (simp add: dec_int_def)
  ultimately show ?thesis using assms(1) True
    by (simp add: set_request_def append_part_def snprintf_def MAX_CONTENT_LENGTH_def etcd_form_def)
next
  case False
  then show ?thesis using assms(1)
    by (simp add: set_request_def append_part_def snprintf_def MAX_CONTENT_LENGTH_def etcd_form_def)
qed

text \<open>A value that is set is in the store afterwards, whole and under the whole key.\<close>

lemma etcd_set_stores:
  assumes "keeps_values lib c free stored" "\<forall>n. realloc_ok lib n" "ns \<noteq> []" "\<forall>n \<in> set ns. segment n" "form_plain v"
    and "free x (path_of ns)" "length (store_url c (path_of ns)) < 256" "length v < 4096" "ttl < 2 ^ 31"
  shows "\<exists>ok x'. etcd_set lib c (path_of ns) v ttl False x = Inr (ok, x') \<and> stored x' = (stored x)(path_of ns \<mapsto> v)"
proof -
  obtain bs x' where put: "http lib PUT (store_url c (path_of ns)) (Some (etcd_form v ttl)) x = ((0, bs), x')" "bs \<noteq> []"
      "stored x' = (stored x)(path_of ns \<mapsto> v)"
    using assms(1,3-6) unfolding keeps_values_def by blast
  have "performRequest lib (store_url c (path_of ns)) PUT (Some (etcd_form v ttl)) x = (0, Some (concat bs), x')"
    using performRequest_reply [where lib = lib, OF _ put(1)] assms(2) put(2) by simp
  then show ?thesis
    using put(3) by (simp add: etcd_set_def set_request_form [OF assms(8,9)] etcd_url_fits [OF assms(7)] parse_reply_def Let_def)
qed

lemma watch_answers:
  assumes "watch_reports lib c root i k v y y'" "\<forall>n. realloc_ok lib n" "length (store_url c (watch_path root i)) < 256"
    and "length k < 255" "length v < 4096"
  shows "\<exists>r. etcd_watch lib c root i y = Inr ((True, r), y') \<and> w_action r = CStr ''set'' \<and> w_rkey r = CStr (''/'' @ k) \<and>
    w_value r = CStr v"
proof -
  obtain bs j where watch: "http lib GET (etcd_url c (watch_path root i)) None y = ((0, bs), y')" "bs \<noteq> []"
      "json_loads lib (concat bs) = Some j" "event_of_set k v j"
    using assms(1) by (auto simp: watch_reports_def etcd_url_fits [OF assms(3)])
  then show ?thesis
    using performRequest_reply [where lib = lib, OF _ watch(1)] assms(2,4,5)
    by (auto simp: event_of_set_def etcd_watch_def parse_reply_def Let_def json_object_get_def json_string_value_def
        json_is_string_def json_is_integer_def copy_string_def MAX_ACTION_LENGTH_def MAX_KEY_LENGTH_def MAX_VALUE_LENGTH_def)
qed

section \<open>Paths\<close>

lemma path_of_append: "ns \<noteq> [] \<Longrightarrow> ms \<noteq> [] \<Longrightarrow> path_of (ns @ ms) = path_of ns @ ''/'' @ path_of ms"
proof (induction ns rule: path_of.induct)
  case (2 n)
  then show ?case by (cases ms) simp_all
qed simp_all

lemma name_char_plain:
  assumes "name_char c"
  shows "c \<noteq> CHR ''/'' \<and> c \<noteq> CHR ''%'' \<and> \<not> is_cspace c"
proof -
  have "c = CHR ''-'' \<or> 48 \<le> (of_char c :: nat) \<and> c \<noteq> CHR ''/''"
    using assms by (auto simp: name_char_def is_digit_def Let_def)
  then show ?thesis by (auto simp: is_cspace_def)
qed

lemma segment_chars:
  assumes "segment n"
  shows "n \<noteq> []" "\<forall>c \<in> set n. c \<noteq> CHR ''/'' \<and> c \<noteq> CHR ''%'' \<and> \<not> is_cspace c"
  using assms name_char_plain by (auto simp: segment_def list_all_iff)

lemma segment_path: "segment n \<Longrightarrow> path_name n"
  using segment_chars [of n] by (auto simp: path_name_def)

lemma path_of_plain:
  assumes "ns \<noteq> []" "\<forall>n \<in> set ns. segment n"
  shows "plain_root (path_of ns) \<and> last (path_of ns) \<noteq> CHR ''/''"
  using assms
proof (induction ns rule: path_of.induct)
  case (2 n)
  then have n: "segment n" by simp
  then have "last n \<noteq> CHR ''/''" using segment_chars [OF n] last_in_set by blast
  then show ?case using segment_chars [OF n] by (auto simp: plain_root_def)
next
  case (3 n m ns)
  then have "plain_root (path_of (m # ns))" "last (path_of (m # ns)) \<noteq> CHR ''/''" "segment n" by simp_all
  then show ?case using segment_chars [of n] by (auto simp: plain_root_def)
qed simp

section \<open>From publisher to reader\<close>

text \<open>
  C15. What one node publishes another node discovers. Publishing a description, whose properties
  the text format can carry, writes to a store that keeps values the text of the properties under
  the key with root path, zone, node and wire id, and nothing else; a node that watches the same
  root and is told of that key and value reads them back as this zone, node and wire with the same
  properties. The URLs of the two requests fit their buffers of 256 characters, so no key is cut.
\<close>

theorem published_endpoint_is_discovered:
  assumes store: "keeps_values (ew_lib env) (ew_conn env) free stored" "free (rest w) k"
      "\<forall>n. realloc_ok (ew_lib env) n" "\<forall>n. realloc_ok (ew_lib env') n"
    and names: "k = path_of (rs @ [zone, node, wire])" "rs \<noteq> []" "\<forall>n \<in> set (rs @ [zone, node, wire]). segment n"
      "rootPath (ew_cx env) = Inr (path_of rs)" "rootPath (ew_cx env') = Inr (path_of rs)"
      "zoneId own = Some zone" "nodeId own = Some node"
    and fits: "length (store_url (ew_conn env) k) < 256" "length (store_url (ew_conn env') (watch_path (path_of rs) i)) < 256"
    and wire: "weds w d = Some p" "map_of p WIRE_ID_KEY = Some wire" "carried p" "form_plain (entries_text p)"
    and reader: "trims_blanks_only (ew_cx env')" "ew_alloc env' V = Some e"
  shows "\<exists>path x' v. etcdWatcher_getLocalNodePath (ew_cx env) own = Inr path \<and>
    publish_endpoint env path d w = Inr (w\<lparr>rest := x'\<rparr>) \<and> stored x' = (stored (rest w))(k \<mapsto> v) \<and>
    (\<forall>y y'. watch_reports (ew_lib env') (ew_conn env') (path_of rs) i k v y y' \<longrightarrow>
      (\<exists>r q. etcd_watch (ew_lib env') (ew_conn env') (path_of rs) i y = Inr ((True, r), y') \<and>
        w_action r = CStr ''set'' \<and> w_rkey r = CStr (''/'' @ k) \<and> w_value r = CStr v \<and>
        etcdWatcher_getWiringEndpointFromKey env' (''/'' @ k) (Some v) V =
          Inr (CELIX_SUCCESS, Some \<lparr>nodeId = Some node, zoneId = Some zone, node_properties = [],
            wiring_ep_descriptions_list = [e]\<rparr>, V\<lparr>weds := (weds V)(e \<mapsto> q)\<rparr>) \<and> map_of q = map_of p))"
proof -
  let ?root = "path_of rs" and ?v = "entries_text p"
  have root: "plain_root ?root" "last ?root \<noteq> CHR ''/''" using path_of_plain [OF names(2)] names(3) by simp_all
  have parts: "path_name zone" "path_name node" "path_name wire" using names(3) by (simp_all add: segment_path)
  have k: "k = wire_path ?root zone node wire" using names(1,2) by (simp add: path_of_append wire_path_def)
  have short: "length k < 240" using fits(1) by (simp add: store_url_def)
  then have kf: "key_fits ?root zone node wire"
    using root parts unfolding key_fits_def k by (simp add: wire_path_def)
  have path: "etcdWatcher_getLocalNodePath (ew_cx env) own = Inr (?root @ ''/'' @ zone @ ''/'' @ node)"
    by (rule path_of_node [OF names(4) kf names(6,7)])
  have io: "wiringEndpoint_properties_store p = Inr (CELIX_SUCCESS, Some ?v)" and len: "length ?v < 4096"
    using wire(2,3) by (auto intro!: store_in_full simp: carried_def Endpoint_Codec.MAX_VALUE_LENGTH_def)
  obtain ok x' where put: "etcd_set (ew_lib env) (ew_conn env) k ?v (etcd_ttl (ew_cx env)) False (rest w) = Inr (ok, x')"
      "stored x' = (stored (rest w))(k \<mapsto> ?v)"
    using etcd_set_stores [OF store(1,3) _ names(3) wire(4), of "rest w" "etcd_ttl (ew_cx env)"] store(2) fits(1) len etcd_ttl_bound
    by (auto simp: names(1))
  have pub: "publish_endpoint env (?root @ ''/'' @ zone @ ''/'' @ node) d w = Inr (w\<lparr>rest := x'\<rparr>)"
    using publish_writes [OF kf wire(1,2) io] put(1) by (simp add: k)
  obtain q where q: "wiringEndpoint_properties_load (ew_cx env') ?v (Some []) = Inr (CELIX_SUCCESS, Some q)" "map_of q = map_of p"
    using carried_text [OF wire(3,2) reader(1)] io by auto
  have scan: "scan_key ?root (''/'' @ k) = Inr (Some (zone, node, wire))"
    using scan_key_parts [OF root(1) parts] by (simp add: k wire_path_def)
  have "map_of q WIRE_ID_KEY = Some wire" using q(2) wire(2) by simp
  note read = getWiringEndpointFromKey_ok [OF names(5) scan q(1) this reader(2)]
  have "\<exists>r. etcd_watch (ew_lib env') (ew_conn env') ?root i y = Inr ((True, r), y') \<and> w_action r = CStr ''set'' \<and>
      w_rkey r = CStr (''/'' @ k) \<and> w_value r = CStr ?v"
    if "watch_reports (ew_lib env') (ew_conn env') ?root i k ?v y y'" for y y'
    using watch_answers [OF that store(4) fits(2) _ len] short by simp
  with path pub put(2) read q(2) show ?thesis by blast
qed

text \<open>
  A store for the witness: a map that a PUT changes and a GET answers with the value of one key,
  which its parser makes the event of a set.
\<close>

definition demo_key :: string where
  "demo_key = ''inaetics/discovery/z/n1/w1''"

definition demo_store_lib :: "(string \<rightharpoonup> string) etcd_lib" where
  "demo_store_lib = \<lparr>
     json_loads = (\<lambda>t. Some (JObject [(''action'', JString ''set''), (''node'', JObject [(''key'', JString (''/'' @ demo_key)),
       (''value'', JString t), (''modifiedIndex'', JInteger 12)])])),
     http = (\<lambda>r url form x. case form of
         Some f \<Rightarrow> ((0, [''{}'']), x(drop (length ''http://etcd:4001/v2/keys/'') url \<mapsto> takeWhile (\<lambda>c. c \<noteq> CHR '';'') (drop 6 f)))
       | None \<Rightarrow> ((0, [case x demo_key of None \<Rightarrow> [] | Some t \<Rightarrow> t]), x)),
     realloc_ok = (\<lambda>n. True), curl_global_init = True\<rparr>"

definition demo_store_env :: "(string \<rightharpoonup> string) ew_env" where
  "demo_store_env = \<lparr>ew_nd = \<lparr>nd_cx = demo_ew_cx, nd_getService = (\<lambda>r. None), nd_addOwnNode = (\<lambda>n w. Inr w)\<rparr>,
     ew_lib = demo_store_lib, ew_conn = demo_conn, ew_calloc = (\<lambda>w. Some 9), ew_uuid = ''u''\<rparr>"

lemma dec_4001: "dec_int 4001 = ''4001''"
  by (simp add: dec_int_def dec.simps digit_def char_of_def bit_iff_odd)

lemma demo_store_url: "store_url demo_conn k = ''http://etcd:4001/v2/keys/'' @ k"
  by (simp add: store_url_def demo_conn_def dec_4001)

lemma demo_keeps_values: "keeps_values demo_store_lib demo_conn (\<lambda>x k. True) (\<lambda>x. x)"
proof -
  have "takeWhile (\<lambda>c. c \<noteq> CHR '';'') (v @ (if 0 < ttl then '';ttl='' @ dec_int ttl else [])) = v" if "form_plain v" for v ttl
    using that by (induction v) (auto simp: form_plain_def)
  then show ?thesis
    by (simp add: keeps_values_def demo_store_lib_def demo_store_url etcd_form_def)
qed

definition demo_props :: properties where
  "demo_props = [(WIRE_ID_KEY, ''w1''), (HTTP_URL_KEY, ''https://h:80'')]"

lemma demo_props_carried: "carried demo_props" "form_plain (entries_text demo_props)"
  by (simp_all add: demo_props_def carried_def WIRE_ID_KEY_def HTTP_URL_KEY_def clean_key_def clean_value_def is_cspace_def
      entry_fits_def needs_escape_def buffer_sizes entry_line_def escape_def form_plain_def)

lemma demo_told_watch: "watch_reports demo_store_lib demo_conn root i demo_key v [demo_key \<mapsto> v] [demo_key \<mapsto> v]"
  by (auto simp: watch_reports_def event_of_set_def demo_store_lib_def)

theorem published_endpoint_is_discovered_witness:
  "\<exists>path v r q. etcdWatcher_getLocalNodePath (ew_cx demo_store_env) (demo_node [1]) = Inr path \<and>
    publish_endpoint demo_store_env path 1 \<lparr>weds = [1 \<mapsto> demo_props], rest = Map.empty\<rparr> =
      Inr \<lparr>weds = [1 \<mapsto> demo_props], rest = [demo_key \<mapsto> v]\<rparr> \<and>
    etcd_watch demo_store_lib demo_conn ''inaetics/discovery'' 3 [demo_key \<mapsto> v] = Inr ((True, r), [demo_key \<mapsto> v]) \<and>
    w_rkey r = CStr (''/'' @ demo_key) \<and> w_value r = CStr v \<and>
    etcdWatcher_getWiringEndpointFromKey demo_store_env (''/'' @ demo_key) (Some v) \<lparr>weds = Map.empty, rest = Map.empty\<rparr> =
      Inr (CELIX_SUCCESS, Some (demo_node [9]), \<lparr>weds = [9 \<mapsto> q], rest = Map.empty\<rparr>) \<and> map_of q = map_of demo_props"
proof -
  let ?w = "\<lparr>weds = [1 \<mapsto> demo_props], rest = Map.empty\<rparr> :: (string \<rightharpoonup> string) world"
  let ?V = "\<lparr>weds = Map.empty, rest = Map.empty\<rparr> :: (string \<rightharpoonup> string) world"
  let ?env = demo_store_env and ?rs = "[''inaetics'', ''discovery'']"
  have cx: "ew_cx ?env = demo_ew_cx" "ew_lib ?env = demo_store_lib" "ew_conn ?env = demo_conn"
    by (simp_all add: demo_store_env_def)
  have root: "rootPath (ew_cx ?env) = Inr (path_of ?rs)" using demo_rootPath by (simp add: demo_ew_def cx)
  have segs: "\<forall>n \<in> set (?rs @ [''z'', ''n1'', ''w1'']). segment n" by (simp add: segment_def name_char_def is_digit_def)
  have props: "map_of demo_props WIRE_ID_KEY = Some ''w1''" by (simp add: demo_props_def)
  have cxs: "keeps_values (ew_lib ?env) (ew_conn ?env) (\<lambda>x k. True) (\<lambda>x. x)" unfolding cx by (rule demo_keeps_values)
  have "\<exists>path x' v. etcdWatcher_getLocalNodePath (ew_cx ?env) (demo_node [1]) = Inr path \<and>
    publish_endpoint ?env path 1 ?w = Inr (?w\<lparr>rest := x'\<rparr>) \<and> x' = (rest ?w)(demo_key \<mapsto> v) \<and>
    (\<forall>y y'. watch_reports (ew_lib ?env) (ew_conn ?env) (path_of ?rs) 3 demo_key v y y' \<longrightarrow>
      (\<exists>r q. etcd_watch (ew_lib ?env) (ew_conn ?env) (path_of ?rs) 3 y = Inr ((True, r), y') \<and>
        w_action r = CStr ''set'' \<and> w_rkey r = CStr (''/'' @ demo_key) \<and> w_value r = CStr v \<and>
        etcdWatcher_getWiringEndpointFromKey ?env (''/'' @ demo_key) (Some v) ?V =
          Inr (CELIX_SUCCESS, Some \<lparr>nodeId = Some ''n1'', zoneId = Some ''z'', node_properties = [],
            wiring_ep_descriptions_list = [9]\<rparr>, ?V\<lparr>weds := (weds ?V)(9 \<mapsto> q)\<rparr>) \<and> map_of q = map_of demo_props))"
    by (rule published_endpoint_is_discovered [OF cxs _ _ _ _ _ segs root root _ _ _ _ _ props demo_props_carried])
      (simp_all add: cx demo_key_def demo_store_lib_def demo_node_def demo_store_url watch_path_def dec_int_def dec.simps
        trims_blanks_only_def demo_ew_cx_def celix0_def ew_alloc_def demo_store_env_def)
  then obtain path x' v where *: "etcdWatcher_getLocalNodePath (ew_cx ?env) (demo_node [1]) = Inr path"
      "publish_endpoint ?env path 1 ?w = Inr (?w\<lparr>rest := x'\<rparr>)" "x' = [demo_key \<mapsto> v]"
      "\<forall>y y'. watch_reports demo_store_lib demo_conn ''inaetics/discovery'' 3 demo_key v y y' \<longrightarrow>
      (\<exists>r q. etcd_watch demo_store_lib demo_conn ''inaetics/discovery'' 3 y = Inr ((True, r), y') \<and>
        w_action r = CStr ''set'' \<and> w_rkey r = CStr (''/'' @ demo_key) \<and> w_value r = CStr v \<and>
        etcdWatcher_getWiringEndpointFromKey ?env (''/'' @ demo_key) (Some v) ?V =
          Inr (CELIX_SUCCESS, Some \<lparr>nodeId = Some ''n1'', zoneId = Some ''z'', node_properties = [],
            wiring_ep_descriptions_list = [9]\<rparr>, ?V\<lparr>weds := (weds ?V)(9 \<mapsto> q)\<rparr>) \<and> map_of q = map_of demo_props)"
    by (auto simp: cx)
  moreover have "demo_node [9] = \<lparr>nodeId = Some ''n1'', zoneId = Some ''z'', node_properties = [], wiring_ep_descriptions_list = [9]\<rparr>"
    by (simp add: demo_node_def)
  ultimately show ?thesis using demo_told_watch [of "''inaetics/discovery''" 3 v] by fastforce
qed

end
