(* ===== verification/Civetweb_Strings.thy ===== *)
theory Civetweb_Strings
  imports Prelude
begin

text \<open>
  \<^verbatim>\<open>wiring_common_secure/private/src/civetweb.c\<close>, the routines on strings: comparison without case, words
  and lists of values, the encoding of URLs and the clean-up of paths. A pointer into a string is the
  text from there to its end. The build sets neither \<^verbatim>\<open>USE_WEBSOCKET\<close>, \<^verbatim>\<open>USE_LUA\<close>,
  \<^verbatim>\<open>USE_DUKTAPE\<close>, \<^verbatim>\<open>USE_IPV6\<close>, \<^verbatim>\<open>NO_FILES\<close> nor \<^verbatim>\<open>NO_SSL\<close>, on Linux.
\<close>

section \<open>Characters\<close>

definition code :: "char \<Rightarrow> nat" where
  "code c = of_char c"

definition c_tolower :: "char \<Rightarrow> char" where
  "c_tolower c = (if 65 \<le> code c \<and> code c \<le> 90 then char_of (code c + 32) else c)"

definition c_isalnum :: "char \<Rightarrow> bool" where
  "c_isalnum c \<longleftrightarrow> is_digit c \<or> (97 \<le> code (c_tolower c) \<and> code (c_tolower c) \<le> 122)"

definition c_isxdigit :: "char \<Rightarrow> bool" where
  "c_isxdigit c \<longleftrightarrow> is_digit c \<or> (97 \<le> code (c_tolower c) \<and> code (c_tolower c) \<le> 102)"

definition c_isprint :: "char \<Rightarrow> bool" where
  "c_isprint c \<longleftrightarrow> 32 \<le> code c \<and> code c < 127"

abbreviation crlf :: string where
  "crlf \<equiv> [CHR 0x0D, CHR 0x0A]"

section \<open>Comparison\<close>

fun mg_strcasecmp :: "string \<Rightarrow> string \<Rightarrow> int" where
  "mg_strcasecmp [] [] = 0"
| "mg_strcasecmp [] (d # t) = - int (code (c_tolower d))"
| "mg_strcasecmp (c # s) [] = int (code (c_tolower c))"
| "mg_strcasecmp (c # s) (d # t) =
     (let diff = int (code (c_tolower c)) - int (code (c_tolower d)) in if diff = 0 then mg_strcasecmp s t else diff)"

fun mg_strncasecmp :: "string \<Rightarrow> string \<Rightarrow> nat \<Rightarrow> int" where
  "mg_strncasecmp s t 0 = 0"
| "mg_strncasecmp [] [] (Suc n) = 0"
| "mg_strncasecmp [] (d # t) (Suc n) = - int (code (c_tolower d))"
| "mg_strncasecmp (c # s) [] (Suc n) = int (code (c_tolower c))"
| "mg_strncasecmp (c # s) (d # t) (Suc n) =
     (let diff = int (code (c_tolower c)) - int (code (c_tolower d)) in if diff = 0 then mg_strncasecmp s t n else diff)"

section \<open>Words\<close>

text \<open>
  A word ends at a delimiter that no quote character precedes; a quoted delimiter takes the
  place of its quote character.
\<close>

function quoted_word :: "string \<Rightarrow> char \<Rightarrow> string \<Rightarrow> string \<Rightarrow> string \<times> string" where
  "quoted_word delimiters quotechar w rest =
     (if w \<noteq> [] \<and> last w = quotechar
      then (case rest of
              [] \<Rightarrow> (butlast w, [])
            | c # r \<Rightarrow> quoted_word delimiters quotechar
                (butlast w @ c # takeWhile (\<lambda>c. c \<notin> set delimiters) r) (dropWhile (\<lambda>c. c \<notin> set delimiters) r))
      else (w, rest))"
  by pat_completeness auto
termination
  by (relation "measure (\<lambda>(ds, q, w, rest). length rest)") (auto simp: le_imp_less_Suc length_dropWhile_le)

declare quoted_word.simps [simp del]

definition skip_quoted :: "string \<Rightarrow> string \<Rightarrow> string \<Rightarrow> char \<Rightarrow> string \<times> string" where
  "skip_quoted buf delimiters whitespace quotechar =
     (case quoted_word delimiters quotechar (takeWhile (\<lambda>c. c \<notin> set delimiters) buf) (dropWhile (\<lambda>c. c \<notin> set delimiters) buf) of
        (w, []) \<Rightarrow> (w, [])
      | (w, c # r) \<Rightarrow> (w, dropWhile (\<lambda>c. c \<in> set whitespace) r))"

definition skip :: "string \<Rightarrow> string \<Rightarrow> string \<times> string" where
  "skip buf delimiters = skip_quoted buf delimiters delimiters CHR 0x00"

section \<open>Lists of values\<close>

text \<open>
  A \<^verbatim>\<open>struct vec\<close> points into the text of the option: what it points at up to the end of the text,
  and its length.
\<close>

record vec =
  vec_ptr :: string
  vec_len :: nat

text \<open>
  The rest of the list, the value and, when the caller asks for it, what follows its equals
  sign, which ends the value then.
\<close>

definition next_option :: "bool \<Rightarrow> string option \<Rightarrow> (string \<times> vec \<times> vec option) option" where
  "next_option with_eq list =
     (case list of
        None \<Rightarrow> None
      | Some l \<Rightarrow>
          if l = [] then None
          else (let v = takeWhile (\<lambda>c. c \<noteq> CHR '','') l;
                    rest = drop (Suc (length v)) l;
                    n = takeWhile (\<lambda>c. c \<noteq> CHR ''='') v
                in if with_eq \<and> length n < length v
                   then Some (rest, \<lparr>vec_ptr = l, vec_len = length n\<rparr>,
                          Some \<lparr>vec_ptr = drop (Suc (length n)) l, vec_len = length v - Suc (length n)\<rparr>)
                   else Some (rest, \<lparr>vec_ptr = l, vec_len = length v\<rparr>, None)))"

lemma next_option_Some: "next_option eqs list = Some (rest, v, eq) \<Longrightarrow> \<exists>l. list = Some l \<and> length rest < length l"
  by (cases list) (auto simp: next_option_def Let_def split: if_splits)

section \<open>Numbers\<close>

text \<open>
  \<^verbatim>\<open>strtoul\<close> with base 10: blanks, a sign, digits; a value beyond \<^verbatim>\<open>unsigned long\<close> is the largest
  one. The result is the value and the text behind it, the whole text where there are no digits.
\<close>

definition strtoul10 :: "string \<Rightarrow> 64 word \<times> string" where
  "strtoul10 s =
     (let s1 = dropWhile is_cspace s;
          neg = (s1 \<noteq> [] \<and> hd s1 = CHR ''-'');
          s2 = (if s1 \<noteq> [] \<and> (hd s1 = CHR ''-'' \<or> hd s1 = CHR ''+'') then tl s1 else s1);
          ds = takeWhile is_digit s2;
          n = int (digits_val ds)
      in if ds = [] then (0, s)
         else (word_of_int (if 2 ^ 64 \<le> n then - 1 else if neg then - n else n), dropWhile is_digit s2))"

text \<open>The conversions \<^verbatim>\<open>%u\<close> and \<^verbatim>\<open>%d\<close> of \<^verbatim>\<open>sscanf\<close>, which keep the low 32 bits.\<close>

definition scan_unsigned :: "string \<Rightarrow> (32 word \<times> string) option" where
  "scan_unsigned s = (case strtoul10 s of (v, rest) \<Rightarrow> if rest = s then None else Some (ucast v, rest))"

definition scan_int :: "string \<Rightarrow> (32 word \<times> string) option" where
  "scan_int s = (case strtol10 s of (v, rest, erange) \<Rightarrow> if rest = s then None else Some (word_of_int v, rest))"

definition scan_char :: "char \<Rightarrow> string \<Rightarrow> string option" where
  "scan_char c s = (case s of d # s' \<Rightarrow> if d = c then Some s' else None | [] \<Rightarrow> None)"

definition c_atoi :: "string \<Rightarrow> int" where
  "c_atoi s = int_of_long (fst (strtol10 s))"

section \<open>URLs\<close>

definition hex_digit :: "nat \<Rightarrow> char" where
  "hex_digit n = ''0123456789abcdef'' ! n"

definition HEXTOI :: "char \<Rightarrow> nat" where
  "HEXTOI c = (if is_digit c then code c - 48 else code c - 87)"

text \<open>
  The loop of the decoding: \<open>room\<close> is what is left of the destination. The result is what was stored and
  whether the source was read to its end.
\<close>

fun url_decode_loop :: "string \<Rightarrow> nat \<Rightarrow> bool \<Rightarrow> string \<times> bool" where
  "url_decode_loop [] room form = ([], True)"
| "url_decode_loop (c # s) 0 form = ([], False)"
| "url_decode_loop (c # s) (Suc room) form =
     (if c = CHR ''%'' \<and> 2 \<le> length s \<and> c_isxdigit (s ! 0) \<and> c_isxdigit (s ! 1)
      then (let a = c_tolower (s ! 0); b = c_tolower (s ! 1);
                (d, complete) = url_decode_loop (drop 2 s) room form
            in (char_of (HEXTOI a * 16 + HEXTOI b) # d, complete))
      else (let (d, complete) = url_decode_loop s room form
            in ((if form \<and> c = CHR ''+'' then CHR '' '' else c) # d, complete)))"

definition mg_url_decode :: "string \<Rightarrow> nat \<Rightarrow> bool \<Rightarrow> string \<times> int" where
  "mg_url_decode src dst_len form =
     (case url_decode_loop src (dst_len - 1) form of (dst, complete) \<Rightarrow> (dst, if complete then int (length dst) else - 1))"

definition dont_escape :: string where
  "dont_escape = ''._-$,;~()''"

fun url_encode_loop :: "string \<Rightarrow> nat \<Rightarrow> string \<times> bool" where
  "url_encode_loop [] room = ([], True)"
| "url_encode_loop (c # s) room =
     (if room = 0 then ([], False)
      else if c_isalnum c \<or> c \<in> set dont_escape
      then (let (d, complete) = url_encode_loop s (room - 1) in (c # d, complete))
      else if 2 < room
      then (let (d, complete) = url_encode_loop s (room - 3)
            in (CHR ''%'' # hex_digit (code c div 16) # hex_digit (code c mod 16) # d, complete))
      else ([], False))"

definition mg_url_encode :: "string \<Rightarrow> nat \<Rightarrow> string \<times> int" where
  "mg_url_encode src dst_len =
     (case url_encode_loop src (dst_len - 1) of (dst, complete) \<Rightarrow> (dst, if complete then int (length dst) else - 1))"

definition is_slash :: "char \<Rightarrow> bool" where
  "is_slash c \<longleftrightarrow> c = CHR ''/'' \<or> c = CHR 0x5C"

fun skip_dots :: "string \<Rightarrow> string" where
  "skip_dots [] = []"
| "skip_dots (c # s) =
     (if is_slash c then skip_dots s
      else if c = CHR ''.'' \<and> s \<noteq> [] \<and> hd s = CHR ''.'' then skip_dots (tl s)
      else c # s)"

lemma length_skip_dots: "length (skip_dots s) \<le> length s"
  by (induction s rule: skip_dots.induct) (auto simp: le_Suc_eq le_diff_conv)

function remove_double_dots_and_double_slashes :: "string \<Rightarrow> string" where
  "remove_double_dots_and_double_slashes [] = []"
| "remove_double_dots_and_double_slashes (c # s) =
     c # remove_double_dots_and_double_slashes (if is_slash c then skip_dots s else s)"
  by pat_completeness auto
termination
  by (relation "measure length") (auto simp: le_imp_less_Suc length_skip_dots)

section \<open>Request URIs\<close>

definition is_valid_port :: "64 word \<Rightarrow> bool" where
  "is_valid_port port \<longleftrightarrow> unat port < 0xffff"

definition abs_uri_protocols :: "(string \<times> nat) list" where
  "abs_uri_protocols = [(''http://'', 80), (''https://'', 443), (''ws://'', 80), (''wss://'', 443)]"

definition find_protocol :: "string \<Rightarrow> (string \<times> nat) option" where
  "find_protocol uri = find (\<lambda>(proto, port). mg_strncasecmp uri proto (length proto) = 0) abs_uri_protocols"

definition strchr :: "string \<Rightarrow> char \<Rightarrow> string option" where
  "strchr s c = (case dropWhile (\<lambda>d. d \<noteq> c) s of [] \<Rightarrow> None | t \<Rightarrow> Some t)"

text \<open>0 for an invalid URI, 1 for an asterisk, 2 for a relative one, 3 and 4 for an absolute one without and with port.\<close>

definition get_uri_type :: "string \<Rightarrow> int" where
  "get_uri_type uri =
     (if uri = ''*'' then 1
      else if uri \<noteq> [] \<and> hd uri = CHR ''/'' then 2
      else case find_protocol uri of
        None \<Rightarrow> 0
      | Some (proto, default_port) \<Rightarrow>
          (let host = drop (length proto) uri
           in case strchr host CHR ''/'' of
                None \<Rightarrow> 0
              | Some hostend \<Rightarrow>
                  (case strchr host CHR '':'' of
                     None \<Rightarrow> 3
                   | Some portbegin \<Rightarrow>
                       (case strtoul10 (tl portbegin) of (port, portend) \<Rightarrow>
                          if length portend \<noteq> length hostend \<or> port = 0 \<or> \<not> is_valid_port port then 0 else 4))))"

text \<open>
  What is left of an absolute URI that addresses the port of this server: the path. Without a
  known protocol the port stays 0.
\<close>

definition get_rel_url_at_current_server :: "string option \<Rightarrow> 16 word \<Rightarrow> string \<Rightarrow> string option" where
  "get_rel_url_at_current_server domain local_port uri =
     (case domain of
        None \<Rightarrow> None
      | Some d \<Rightarrow>
          if d = [] then None
          else case find_protocol uri of
            None \<Rightarrow> None
          | Some (proto, default_port) \<Rightarrow>
              (let host = drop (length proto) uri
               in case strchr host CHR ''/'' of
                    None \<Rightarrow> None
                  | Some hostend \<Rightarrow>
                      (case (case strchr host CHR '':'' of
                               None \<Rightarrow> Some (word_of_nat default_port)
                             | Some portbegin \<Rightarrow>
                                 (case strtoul10 (tl portbegin) of (port, portend) \<Rightarrow>
                                    if length portend \<noteq> length hostend \<or> port = 0 \<or> \<not> is_valid_port port then None
                                    else Some port)) of
                         None \<Rightarrow> None
                       | Some port \<Rightarrow> if ucast local_port = port then Some hostend else None)))"

end
