(* ===== verification/Civetweb_Start.thy ===== *)
theory Civetweb_Start
  imports Civetweb_Strings
begin

text \<open>
  \<^verbatim>\<open>wiring_common_secure/private/src/civetweb.c\<close>, starting the server: the options and their
  defaults, the listening ports, the access list and the steps of \<^verbatim>\<open>mg_start\<close>. The build sets
  neither \<^verbatim>\<open>USE_WEBSOCKET\<close>, \<^verbatim>\<open>USE_LUA\<close>, \<^verbatim>\<open>USE_DUKTAPE\<close>, \<^verbatim>\<open>USE_IPV6\<close>, \<^verbatim>\<open>NO_FILES\<close> nor \<^verbatim>\<open>NO_SSL\<close>.
  Sockets, OpenSSL, threads and the file system are parameters.
\<close>

section \<open>Options\<close>

definition config_options :: "(string \<times> string option) list" where
  "config_options =
     [(''cgi_pattern'', Some ''**.cgi$|**.pl$|**.php$''),
      (''cgi_environment'', None),
      (''put_delete_auth_file'', None),
      (''cgi_interpreter'', None),
      (''protect_uri'', None),
      (''authentication_domain'', Some ''mydomain.com''),
      (''ssi_pattern'', Some ''**.shtml$|**.shtm$''),
      (''throttle'', None),
      (''access_log_file'', None),
      (''enable_directory_listing'', Some ''yes''),
      (''error_log_file'', None),
      (''global_auth_file'', None),
      (''index_files'', Some ''index.xhtml,index.html,index.htm,index.cgi,index.shtml,index.php''),
      (''enable_keep_alive'', Some ''no''),
      (''access_control_list'', None),
      (''extra_mime_types'', None),
      (''listening_ports'', Some ''8080''),
      (''document_root'', None),
      (''ssl_certificate'', None),
      (''num_threads'', Some ''50''),
      (''run_as_user'', None),
      (''url_rewrite_patterns'', None),
      (''hide_files_patterns'', None),
      (''request_timeout_ms'', Some ''30000''),
      (''ssl_verify_peer'', Some ''no''),
      (''ssl_ca_path'', None),
      (''ssl_ca_file'', None),
      (''ssl_verify_depth'', Some ''9''),
      (''ssl_default_verify_paths'', Some ''yes''),
      (''ssl_cipher_list'', None),
      (''ssl_protocol_version'', Some ''0''),
      (''decode_url'', Some ''yes''),
      (''access_control_allow_origin'', Some ''*''),
      (''error_pages'', None)]"

fun option_index :: "(string \<times> string option) list \<Rightarrow> nat \<Rightarrow> string \<Rightarrow> nat option" where
  "option_index [] i name = None"
| "option_index ((n, v) # os) i name = (if n = name then Some i else option_index os (Suc i) name)"

definition get_option_index :: "string \<Rightarrow> nat option" where
  "get_option_index name = option_index config_options 0 name"

text \<open>The values of a context, in the order of the options.\<close>

type_synonym config = "string option list"

definition config_of :: "config \<Rightarrow> string \<Rightarrow> string option" where
  "config_of cfg name = (case get_option_index name of None \<Rightarrow> None | Some i \<Rightarrow> cfg ! i)"

text \<open>
  The options of the caller, names and values in turn up to the NULL that ends them. An unknown
  name and a name without value are refused.
\<close>

fun set_options :: "string list \<Rightarrow> config \<Rightarrow> config option" where
  "set_options [] cfg = Some cfg"
| "set_options [name] cfg = None"
| "set_options (name # v # os) cfg =
     (case get_option_index name of
        None \<Rightarrow> None
      | Some idx \<Rightarrow> set_options os (cfg[idx := Some v]))"

definition set_defaults :: "config \<Rightarrow> config" where
  "set_defaults cfg = map (\<lambda>(v, (name, default_value)). if v = None then default_value else v) (zip cfg config_options)"

section \<open>Addresses\<close>

text \<open>Four numbers with dots between them.\<close>

definition scan_dotted ::
    "(string \<Rightarrow> (32 word \<times> string) option) \<Rightarrow> string \<Rightarrow> ((32 word \<times> 32 word \<times> 32 word \<times> 32 word) \<times> string) option" where
  "scan_dotted number s =
     Option.bind (number s) (\<lambda>(a, s).
     Option.bind (scan_char CHR ''.'' s) (\<lambda>s.
     Option.bind (number s) (\<lambda>(b, s).
     Option.bind (scan_char CHR ''.'' s) (\<lambda>s.
     Option.bind (number s) (\<lambda>(c, s).
     Option.bind (scan_char CHR ''.'' s) (\<lambda>s.
     Option.bind (number s) (\<lambda>(d, s). Some ((a, b, c, d), s))))))))"

definition dotted_word :: "32 word \<times> 32 word \<times> 32 word \<times> 32 word \<Rightarrow> 32 word" where
  "dotted_word q = (case q of (a, b, c, d) \<Rightarrow> or (or (or (push_bit 24 a) (push_bit 16 b)) (push_bit 8 c)) d)"

definition isbyte :: "32 word \<Rightarrow> bool" where
  "isbyte n \<longleftrightarrow> 0 \<le> sint n \<and> sint n \<le> 255"

text \<open>A net \<^verbatim>\<open>a.b.c.d/slash\<close>: its address and mask, or nothing where the code answers 0.\<close>

definition parse_net :: "string \<Rightarrow> (32 word \<times> 32 word) option" where
  "parse_net spec =
     (case scan_dotted scan_int spec of
        None \<Rightarrow> None
      | Some ((a, b, c, d), s) \<Rightarrow>
          (let slash = (case Option.bind (scan_char CHR ''/'' s) scan_int of
                          None \<Rightarrow> 32 | Some (n, s) \<Rightarrow> sint n)
           in if isbyte a \<and> isbyte b \<and> isbyte c \<and> isbyte d \<and> 0 \<le> slash \<and> slash < 33
              then Some (dotted_word (a, b, c, d), if slash = 0 then 0 else push_bit (nat (32 - slash)) (- 1))
              else None))"

section \<open>Access list\<close>

text \<open>Whether an address is allowed; nothing where the list cannot be read.\<close>

function check_acl_loop :: "32 word \<Rightarrow> string option \<Rightarrow> char \<Rightarrow> bool option" where
  "check_acl_loop remote_ip list allowed =
     (case next_option False list of
        None \<Rightarrow> Some (allowed = CHR ''+'')
      | Some (rest, v, eq) \<Rightarrow>
          (case vec_ptr v of
             [] \<Rightarrow> None
           | flag # spec \<Rightarrow>
               if flag \<noteq> CHR ''+'' \<and> flag \<noteq> CHR ''-'' then None
               else (case parse_net spec of
                       None \<Rightarrow> None
                     | Some (net, m) \<Rightarrow>
                         check_acl_loop remote_ip (Some rest) (if net = and remote_ip m then flag else allowed))))"
  by pat_completeness auto

termination
  by (relation "measure (\<lambda>(ip, list, a). case list of None \<Rightarrow> 0 | Some l \<Rightarrow> Suc (length l))")
    (auto dest: next_option_Some)

declare check_acl_loop.simps [simp del]

definition check_acl :: "config \<Rightarrow> 32 word \<Rightarrow> bool option" where
  "check_acl cfg remote_ip =
     (let list = config_of cfg ''access_control_list''
      in check_acl_loop remote_ip list (if list = None then CHR ''+'' else CHR ''-''))"

definition set_acl_option :: "config \<Rightarrow> bool" where
  "set_acl_option cfg \<longleftrightarrow> check_acl cfg 0x7f000001 \<noteq> None"

section \<open>Listening ports\<close>

record listen_socket =
  so_addr :: "32 word"
  so_port :: "16 word"
  so_is_ssl :: bool
  so_ssl_redir :: bool

text \<open>
  The address, the port and the letter behind it. The text behind the number goes on past the
  value when it is followed by others.
\<close>

definition parse_port_string :: "vec \<Rightarrow> listen_socket option" where
  "parse_port_string v =
     (let (addr, port, rest) =
            (case Option.bind (scan_dotted scan_unsigned (vec_ptr v)) (\<lambda>(q, s).
                    Option.bind (scan_char CHR '':'' s) (\<lambda>s. map_option (\<lambda>(p, s). (dotted_word q, p, s)) (scan_unsigned s))) of
               Some r \<Rightarrow> r
             | None \<Rightarrow> (case scan_unsigned (vec_ptr v) of
                          Some (p, s) \<Rightarrow> (0, p, s)
                        | None \<Rightarrow> (0, 0, vec_ptr v)));
          ends = (\<lambda>cs. rest = [] \<or> hd rest \<in> cs)
      in if is_valid_port (ucast port) \<and> ends {CHR ''s'', CHR ''r'', CHR '',''}
         then Some \<lparr>so_addr = addr, so_port = ucast port, so_is_ssl = (rest \<noteq> [] \<and> hd rest = CHR ''s''),
                    so_ssl_redir = (rest \<noteq> [] \<and> hd rest = CHR ''r'')\<rparr>
         else None)"

text \<open>What the system answers while the server starts.\<close>

record ssl_answers =
  ssl_crypto_loads :: bool
  ssl_mutexes_calloc :: bool
  ssl_library_loads :: bool
  ssl_locks :: bool
  SSL_CTX_new :: bool
  SSL_CTX_use_certificate_file :: "string \<Rightarrow> bool"
  SSL_CTX_use_PrivateKey_file :: "string \<Rightarrow> bool"
  SSL_CTX_check_private_key :: bool
  SSL_CTX_use_certificate_chain_file :: "string \<Rightarrow> bool"
  SSL_CTX_load_verify_locations :: "string option \<Rightarrow> string option \<Rightarrow> bool"
  SSL_CTX_set_default_verify_paths :: bool

record mg_env =
  me_calloc :: bool
  me_key_create :: bool
  me_sync :: bool
  me_stat :: "string \<Rightarrow> bool"
  me_init_ssl :: "int option"
  me_ssl :: ssl_answers
  me_socket :: "nat \<Rightarrow> listen_socket \<Rightarrow> bool"
  me_bind :: "nat \<Rightarrow> listen_socket \<Rightarrow> bool"
  me_listen :: "nat \<Rightarrow> listen_socket \<Rightarrow> bool"
  me_getsockname :: "nat \<Rightarrow> listen_socket \<Rightarrow> 16 word option"
  me_realloc_sockets :: "nat \<Rightarrow> bool"
  me_realloc_ports :: "nat \<Rightarrow> bool"
  me_getpwnam :: "string \<Rightarrow> (nat \<times> nat) option"
  me_setgid :: "nat \<Rightarrow> bool"
  me_setgroups :: bool
  me_setuid :: "nat \<Rightarrow> bool"
  me_calloc_ids :: bool
  me_thread :: "nat \<Rightarrow> bool"

text \<open>
  One value of the port list: counted, and when everything works out listened at. Without memory
  for the second array the first one is freed although the context may still point to it.
\<close>

definition add_listener ::
    "mg_env \<Rightarrow> bool \<Rightarrow> nat \<Rightarrow> vec \<Rightarrow> (listen_socket \<times> 16 word) list \<Rightarrow> (bool \<times> (listen_socket \<times> 16 word) list) result" where
  "add_listener env ssl_ctx portsTotal v sockets =
     (case parse_port_string v of
        None \<Rightarrow> Inr (False, sockets)
      | Some so \<Rightarrow>
          if so_is_ssl so \<and> \<not> ssl_ctx then Inr (False, sockets)
          else if \<not> me_socket env portsTotal so then Inr (False, sockets)
          else if \<not> me_bind env portsTotal so then Inr (False, sockets)
          else if \<not> me_listen env portsTotal so then Inr (False, sockets)
          else (case me_getsockname env portsTotal so of
                  None \<Rightarrow> Inr (False, sockets)
                | Some port \<Rightarrow>
                    if \<not> me_realloc_sockets env portsTotal then Inr (False, sockets)
                    else if \<not> me_realloc_ports env portsTotal
                    then (if sockets = [] then Inr (False, sockets) else Inl UseAfterFree)
                    else Inr (True, sockets @ [(so, port)])))"

function set_ports_loop ::
    "mg_env \<Rightarrow> bool \<Rightarrow> string option \<Rightarrow> nat \<Rightarrow> nat \<Rightarrow> (listen_socket \<times> 16 word) list \<Rightarrow>
     (nat \<times> (listen_socket \<times> 16 word) list) result" where
  "set_ports_loop env ssl_ctx list portsTotal portsOk sockets =
     (case next_option False list of
        None \<Rightarrow> Inr (if portsOk \<noteq> portsTotal then (0, []) else (portsOk, sockets))
      | Some (rest, v, eq) \<Rightarrow>
          rbind (add_listener env ssl_ctx (Suc portsTotal) v sockets) (\<lambda>(ok, sockets).
            set_ports_loop env ssl_ctx (Some rest) (Suc portsTotal) (if ok then Suc portsOk else portsOk) sockets))"
  by pat_completeness auto
termination
  by (relation "measure (\<lambda>(env, ssl, list, t, ok, s). case list of None \<Rightarrow> 0 | Some l \<Rightarrow> Suc (length l))")
    (auto dest: next_option_Some)

declare set_ports_loop.simps [simp del]

definition set_ports_option ::
    "mg_env \<Rightarrow> bool \<Rightarrow> config \<Rightarrow> (nat \<times> (listen_socket \<times> 16 word) list) result" where
  "set_ports_option env ssl_ctx cfg = set_ports_loop env ssl_ctx (config_of cfg ''listening_ports'') 0 0 []"

section \<open>Users and password files\<close>

definition set_uid_option :: "mg_env \<Rightarrow> config \<Rightarrow> bool" where
  "set_uid_option env cfg =
     (case config_of cfg ''run_as_user'' of
        None \<Rightarrow> True
      | Some uid \<Rightarrow>
          (case me_getpwnam env uid of
             None \<Rightarrow> False
           | Some (pw_uid, pw_gid) \<Rightarrow> me_setgid env pw_gid \<and> me_setgroups env \<and> me_setuid env pw_uid))"

definition set_gpass_option :: "mg_env \<Rightarrow> config \<Rightarrow> bool" where
  "set_gpass_option env cfg =
     (case config_of cfg ''global_auth_file'' of None \<Rightarrow> True | Some path \<Rightarrow> me_stat env path)"

section \<open>OpenSSL\<close>

text \<open>
  The state that all contexts share: how many use the thread local storage and the crypto
  library, which libraries are loaded, whether the array of locks for OpenSSL exists and
  whether OpenSSL has been told to use it.
\<close>

record mg_globals =
  sTlsInit :: int
  cryptolib_users :: int
  cryptolib_dll :: bool
  ssllib_dll :: bool
  ssl_mutexes :: bool
  ssl_callback :: bool

definition initialize_ssl :: "ssl_answers \<Rightarrow> mg_globals \<Rightarrow> bool \<times> mg_globals" where
  "initialize_ssl ssl g =
     (if \<not> cryptolib_dll g \<and> \<not> ssl_crypto_loads ssl then (False, g)
      else (let g = g\<lparr>cryptolib_dll := True, cryptolib_users := cryptolib_users g + 1\<rparr>
            in if cryptolib_users g > 1 then (True, g)
               else if \<not> ssl_mutexes_calloc ssl then (False, g\<lparr>ssl_mutexes := False\<rparr>)
               else (True, g\<lparr>ssl_mutexes := True, ssl_callback := True\<rparr>)))"

text \<open>OpenSSL takes its locks in the array, when it was told to and still uses such locks.\<close>

definition ssl_call :: "ssl_answers \<Rightarrow> mg_globals \<Rightarrow> unit result" where
  "ssl_call ssl g = (if ssl_locks ssl \<and> ssl_callback g \<and> \<not> ssl_mutexes g then Inl NullPointer else Inr ())"

definition ssl_use_pem_file :: "ssl_answers \<Rightarrow> string \<Rightarrow> bool" where
  "ssl_use_pem_file ssl pem \<longleftrightarrow> SSL_CTX_use_certificate_file ssl pem \<and> SSL_CTX_use_PrivateKey_file ssl pem \<and>
     SSL_CTX_check_private_key ssl \<and> SSL_CTX_use_certificate_chain_file ssl pem"

definition is_yes :: "string option \<Rightarrow> bool" where
  "is_yes v \<longleftrightarrow> (case v of None \<Rightarrow> False | Some s \<Rightarrow> mg_strcasecmp s ''yes'' = 0)"

text \<open>
  The success of the call, whether the context has its OpenSSL context then, and the shared
  state. The text \<open>protocol_ver\<close> only chooses options that OpenSSL keeps.
\<close>

definition set_ssl_option :: "mg_env \<Rightarrow> config \<Rightarrow> mg_globals \<Rightarrow> ((bool \<times> bool) \<times> mg_globals) result" where
  "set_ssl_option env cfg g =
     (let ssl = me_ssl env; pem = config_of cfg ''ssl_certificate''
      in if pem = None \<and> me_init_ssl env = None then Inr ((True, False), g)
         else case initialize_ssl ssl g of
           (False, g) \<Rightarrow> Inr ((False, False), g)
         | (True, g) \<Rightarrow>
             if \<not> ssllib_dll g \<and> \<not> ssl_library_loads ssl then Inr ((False, False), g)
             else (let g = g\<lparr>ssllib_dll := True\<rparr>
               in rbind (ssl_call ssl g) (\<lambda>u.
                  if \<not> SSL_CTX_new ssl then Inr ((False, False), g)
                  else (let callback_ret = (case me_init_ssl env of None \<Rightarrow> 0 | Some r \<Rightarrow> r)
                    in if callback_ret < 0 then Inr ((False, True), g)
                       else if callback_ret > 0 then Inr ((True, True), g)
                       else if (case pem of Some p \<Rightarrow> \<not> ssl_use_pem_file ssl p | None \<Rightarrow> False) then Inr ((False, True), g)
                       else if is_yes (config_of cfg ''ssl_verify_peer'') \<and>
                              (\<not> SSL_CTX_load_verify_locations ssl (config_of cfg ''ssl_ca_file'') (config_of cfg ''ssl_ca_path'') \<or>
                               is_yes (config_of cfg ''ssl_default_verify_paths'') \<and> \<not> SSL_CTX_set_default_verify_paths ssl)
                            then Inr ((False, True), g)
                       else Inr ((True, True), g)))))"

definition uninitialize_ssl :: "mg_globals \<Rightarrow> mg_globals result" where
  "uninitialize_ssl g =
     (let g = g\<lparr>cryptolib_users := cryptolib_users g - 1\<rparr>
      in if cryptolib_users g = 0
         then (if ssl_mutexes g then Inr (g\<lparr>ssl_callback := False\<rparr>) else Inl NullPointer)
         else Inr g)"

section \<open>The server\<close>

record mg_context =
  ctx_config :: config
  ctx_listening_sockets :: "(listen_socket \<times> 16 word) list"
  ctx_ssl :: bool
  ctx_workers :: nat

text \<open>What is freed of the shared state with a context.\<close>

definition free_context :: "mg_globals \<Rightarrow> mg_globals" where
  "free_context g = g\<lparr>ssl_mutexes := False, sTlsInit := sTlsInit g - 1\<rparr>"

definition MAX_WORKER_THREADS :: int where
  "MAX_WORKER_THREADS = 65536"

text \<open>
  The number of threads that could be started. When the first one cannot be started the context is
  freed under the master thread.
\<close>

fun start_workers :: "mg_env \<Rightarrow> nat \<Rightarrow> nat \<Rightarrow> nat result" where
  "start_workers env i 0 = Inr i"
| "start_workers env i (Suc n) =
     (if me_thread env i then start_workers env (Suc i) n else if i > 0 then Inr i else Inl UseAfterFree)"

text \<open>
  The five steps that make a context from its options, in their order; one that fails ends them.
\<close>

definition mg_set_up :: "mg_env \<Rightarrow> config \<Rightarrow> mg_globals \<Rightarrow> (mg_context option \<times> mg_globals) result" where
  "mg_set_up env cfg g =
     (if \<not> set_gpass_option env cfg then Inr (None, g)
      else rbind (set_ssl_option env cfg g) (\<lambda>((ok, ssl), g).
        if \<not> ok then Inr (None, g)
        else rbind (set_ports_option env ssl cfg) (\<lambda>(portsOk, sockets).
          if portsOk = 0 then Inr (None, g)
          else if \<not> set_uid_option env cfg then Inr (None, g)
          else if \<not> set_acl_option cfg then Inr (None, g)
          else Inr (Some \<lparr>ctx_config = cfg, ctx_listening_sockets = sockets, ctx_ssl = ssl, ctx_workers = 0\<rparr>, g))))"

definition mg_run_threads :: "mg_env \<Rightarrow> mg_context \<Rightarrow> mg_globals \<Rightarrow> (mg_context option \<times> mg_globals) result" where
  "mg_run_threads env ctx g =
     (let workerthreadcount = (case config_of (ctx_config ctx) ''num_threads'' of None \<Rightarrow> 0 | Some s \<Rightarrow> c_atoi s)
      in if workerthreadcount > MAX_WORKER_THREADS then Inr (None, free_context g)
         else if workerthreadcount > 0 \<and> \<not> me_calloc_ids env then Inr (None, free_context g)
         else rbind (start_workers env 0 (nat workerthreadcount)) (\<lambda>n. Inr (Some (ctx\<lparr>ctx_workers := n\<rparr>), g)))"

text \<open>\<^verbatim>\<open>mg_start\<close>, whose name belongs to the parameter of the wiring admin.\<close>

definition mg_start_ctx :: "mg_env \<Rightarrow> string list \<Rightarrow> mg_globals \<Rightarrow> (mg_context option \<times> mg_globals) result" where
  "mg_start_ctx env options g =
     (if \<not> me_calloc env then Inr (None, g)
      else (let g = g\<lparr>sTlsInit := sTlsInit g + 1\<rparr>
        in if sTlsInit g = 1 \<and> \<not> me_key_create env then Inr (None, g\<lparr>sTlsInit := sTlsInit g - 1\<rparr>)
           else if \<not> me_sync env then Inr (None, g)
           else case set_options options (replicate (length config_options) None) of
             None \<Rightarrow> Inr (None, free_context g)
           | Some cfg \<Rightarrow>
               rbind (mg_set_up env (set_defaults cfg) g) (\<lambda>(ctx, g).
                 case ctx of
                   None \<Rightarrow> Inr (None, free_context g)
                 | Some ctx \<Rightarrow> mg_run_threads env ctx g)))"

text \<open>The end of the master thread and what follows it.\<close>

definition mg_stop :: "mg_context \<Rightarrow> mg_globals \<Rightarrow> mg_globals result" where
  "mg_stop ctx g = rbind (if ctx_ssl ctx then uninitialize_ssl g else Inr g) (\<lambda>g. Inr (free_context g))"

end
