(* ===== verification/Civetweb_Io.thy ===== *)
theory Civetweb_Io
  imports Civetweb_Strings
begin

text \<open>
  \<^verbatim>\<open>wiring_common_secure/private/src/civetweb.c\<close>, reading from a connection: the loops that
  receive, the reading of a body with a known length and of a chunked one.
\<close>

section \<open>Connections\<close>

text \<open>
  What one call of \<^verbatim>\<open>recv\<close> or \<^verbatim>\<open>SSL_read\<close> comes back with: bytes (none when the peer has closed its
  side; the flag says whether the request timeout has passed by then), nothing within the timeout
  of the socket while the timeout of the request has not passed yet, or has, an error, or the server
  is being stopped. After the last one nothing comes until the timeout.
\<close>

datatype arrival = Got bool string | Again | TimedOut | Broken | StopFlag

text \<open>
  The fields of \<^verbatim>\<open>struct mg_connection\<close> that the requests use, with the flag of the context that
  stops the server and its timeout in milliseconds. \<open>late\<close> is set when the clock, read after data
  has come, is beyond the timeout of the request; \<open>written\<close> is what was given to \<^verbatim>\<open>mg_write\<close> so far.
\<close>

record connection =
  arrivals :: "arrival list"
  is_ssl :: bool
  stop_flag :: bool
  request_timeout :: int
  late :: bool
  conn_buf :: string
  data_len :: nat
  request_len :: int
  content_len :: int
  consumed_content :: int
  is_chunked :: nat
  chunk_remainder :: nat
  must_close :: bool
  status_code :: int
  written :: string

definition to_int64 :: "int \<Rightarrow> int" where
  "to_int64 i = sint (word_of_int i :: 64 word)"

definition INT64_MAX :: int where
  "INT64_MAX = 2 ^ 63 - 1"

definition INT_MAX :: nat where
  "INT_MAX = 2 ^ 31 - 1"

section \<open>Receiving\<close>

text \<open>
  One call of \<^verbatim>\<open>pull\<close> for a positive number of bytes: the bytes, or \<open>None\<close> for a negative result, and
  what is still to arrive. OpenSSL reports a missing record as an error of its own, which ends the
  call; a plain socket is asked again until the timeout.
\<close>

fun pull_loop :: "bool \<Rightarrow> int \<Rightarrow> nat \<Rightarrow> arrival list \<Rightarrow> arrival option \<times> arrival list" where
  "pull_loop ssl timeout len [] = (None, [])"
| "pull_loop ssl timeout len (Got l s # as) =
     (if s = [] then (None, Got l s # as)
      else (Some (Got l (take len s)), if len < length s then Got l (drop len s) # as else as))"
| "pull_loop ssl timeout len (Again # as) = (if ssl then (None, as) else pull_loop ssl timeout len as)"
| "pull_loop ssl timeout len (TimedOut # as) =
     (if ssl \<or> 0 < timeout then (None, as) else pull_loop ssl timeout len as)"
| "pull_loop ssl timeout len (Broken # as) = (None, Broken # as)"
| "pull_loop ssl timeout len (StopFlag # as) = (Some StopFlag, as)"

definition pull :: "nat \<Rightarrow> connection \<Rightarrow> string option \<times> connection" where
  "pull len c =
     (case pull_loop (is_ssl c) (request_timeout c) len (arrivals c) of
        (Some (Got l s), as) \<Rightarrow>
          (if stop_flag c then None else Some s, c\<lparr>arrivals := as, late := l\<rparr>)
      | (Some a, as) \<Rightarrow> (None, c\<lparr>arrivals := as, stop_flag := True\<rparr>)
      | (None, as) \<Rightarrow> (None, c\<lparr>arrivals := as\<rparr>))"

text \<open>Bytes until the wanted number is there; the result is negative when the first call fails.\<close>

function pull_all_loop :: "nat \<Rightarrow> string \<Rightarrow> connection \<Rightarrow> int \<times> string \<times> connection" where
  "pull_all_loop len got c =
     (if len = 0 \<or> stop_flag c then (int (length got), got, c)
      else case pull len c of
        (None, c) \<Rightarrow> (if got = [] then - 1 else int (length got), got, c)
      | (Some s, c) \<Rightarrow>
          if s = [] then (int (length got), got, c)
          else pull_all_loop (len - length s) (got @ s) (c\<lparr>consumed_content := consumed_content c + int (length s)\<rparr>))"
  by pat_completeness auto
termination
  by (relation "measure (\<lambda>(len, got, c). len)") auto

declare pull_all_loop.simps [simp del]

definition pull_all :: "nat \<Rightarrow> connection \<Rightarrow> int \<times> string \<times> connection" where
  "pull_all len c = pull_all_loop len [] c"

section \<open>Reading a body\<close>

text \<open>The result of the call, the bytes it stored and the connection.\<close>

definition mg_read_inner :: "nat \<Rightarrow> connection \<Rightarrow> int \<times> string \<times> connection" where
  "mg_read_inner len c =
     (let len64 = int (min len INT_MAX);
          c = (if consumed_content c = 0 \<and> content_len c = - 1
               then c\<lparr>content_len := INT64_MAX, must_close := True\<rparr> else c)
      in if consumed_content c < content_len c
         then (let len64 = min len64 (content_len c - consumed_content c);
                   buffered_len = int (data_len c) - request_len c - consumed_content c;
                   n = (if 0 < buffered_len then min len64 buffered_len else 0);
                   body = take (nat n) (drop (nat (request_len c + consumed_content c)) (conn_buf c));
                   c = c\<lparr>consumed_content := consumed_content c + n\<rparr>
               in case pull_all (nat (len64 - n)) c of
                    (m, s, c) \<Rightarrow> (if 0 \<le> m then n + m else if 0 < n then n else m, body @ s, c))
         else (0, [], c))"

definition mg_getc :: "connection \<Rightarrow> char \<times> connection" where
  "mg_getc c =
     (case mg_read_inner 1 (c\<lparr>content_len := to_int64 (content_len c + 1)\<rparr>) of
        (n, s, c) \<Rightarrow> (if n \<le> 0 then CHR 0x00 else hd s, c))"

section \<open>Chunked bodies\<close>

text \<open>\<^verbatim>\<open>strtoul\<close> with base 16, which takes a \<^verbatim>\<open>0x\<close> too.\<close>

definition hex_val :: "string \<Rightarrow> nat" where
  "hex_val ds = foldl (\<lambda>n c. n * 16 + HEXTOI (c_tolower c)) 0 ds"

definition skip_0x :: "string \<Rightarrow> string" where
  "skip_0x s = (if 2 < length s \<and> s ! 0 = CHR ''0'' \<and> c_tolower (s ! 1) = CHR ''x'' \<and> c_isxdigit (s ! 2) then drop 2 s else s)"

definition strtoul16 :: "string \<Rightarrow> nat \<times> string" where
  "strtoul16 s =
     (let s1 = dropWhile is_cspace s;
          neg = (s1 \<noteq> [] \<and> hd s1 = CHR ''-'');
          s2 = skip_0x (if s1 \<noteq> [] \<and> (hd s1 = CHR ''-'' \<or> hd s1 = CHR ''+'') then tl s1 else s1);
          n = hex_val (takeWhile c_isxdigit s2)
      in if takeWhile c_isxdigit s2 = [] then (0, s)
         else (if 2 ^ 64 \<le> n then 2 ^ 64 - 1 else if neg then (2 ^ 64 - n) mod 2 ^ 64 else n, dropWhile c_isxdigit s2))"

text \<open>
  The line with the length of the next chunk, at most 63 characters, and the length in it: the
  characters before the line end are letters and digits, the number ends at the line end.
\<close>

fun read_chunk_line :: "nat \<Rightarrow> string \<Rightarrow> connection \<Rightarrow> string option \<times> connection" where
  "read_chunk_line 0 lenbuf c = (None, c)"
| "read_chunk_line (Suc k) lenbuf c =
     (case mg_getc c of (ch, c) \<Rightarrow>
        if 0 < length lenbuf \<and> ch = CHR 0x0D \<and> last lenbuf \<noteq> CHR 0x0D then read_chunk_line k (lenbuf @ [ch]) c
        else if 1 < length lenbuf \<and> ch = CHR 0x0A \<and> last lenbuf = CHR 0x0D then (Some (lenbuf @ [ch]), c)
        else if \<not> c_isalnum ch then (None, c)
        else read_chunk_line k (lenbuf @ [ch]) c)"

definition read_chunk_size :: "connection \<Rightarrow> nat option \<times> connection" where
  "read_chunk_size c =
     (case read_chunk_line 63 [] c of
        (None, c) \<Rightarrow> (None, c)
      | (Some lenbuf, c) \<Rightarrow>
          (case strtoul16 lenbuf of (chunkSize, rest) \<Rightarrow> if hd rest \<noteq> CHR 0x0D then None else Some chunkSize, c))"

text \<open>The two characters behind a chunk. The second is read only behind the right first one.\<close>

definition read_chunk_end :: "connection \<Rightarrow> bool \<times> connection" where
  "read_chunk_end c =
     (case mg_getc c of (d, c) \<Rightarrow>
        if d \<noteq> CHR 0x0D then (False, c) else (case mg_getc c of (e, c) \<Rightarrow> (e = CHR 0x0A, c)))"

text \<open>
  The loop over the chunks: \<open>dst\<close> is what the destination holds,
  \<open>all_read\<close> where the next bytes go. A failed read moves it one back.
\<close>

function read_chunks :: "nat \<Rightarrow> int \<Rightarrow> string \<Rightarrow> connection \<Rightarrow> (int \<times> string \<times> connection) result" where
  "read_chunks len all_read dst c =
     (if len = 0 then Inr (all_read, dst, c)
      else if chunk_remainder c \<noteq> 0
      then (let read_now = min (chunk_remainder c) len
            in case mg_read_inner read_now (c\<lparr>content_len := to_int64 (content_len c + int read_now)\<rparr>) of (n, s, c) \<Rightarrow>
                 if all_read < 0 \<and> s \<noteq> [] then Inl BufferOverflow
                 else (let dst = take (nat all_read) dst @ s @ drop (nat all_read + length s) dst;
                           c = c\<lparr>chunk_remainder := chunk_remainder c - read_now\<rparr>
                       in if chunk_remainder c = 0
                          then (case read_chunk_end c of (complete, c) \<Rightarrow>
                                  if complete then read_chunks (len - read_now) (all_read + n) dst c else Inr (- 1, dst, c))
                          else read_chunks (len - read_now) (all_read + n) dst c))
      else (case read_chunk_size c of
              (None, c) \<Rightarrow> Inr (- 1, dst, c)
            | (Some chunkSize, c) \<Rightarrow>
                if chunkSize = 0 then Inr (all_read, dst, c\<lparr>chunk_remainder := 0, is_chunked := 2\<rparr>)
                else read_chunks len all_read dst (c\<lparr>chunk_remainder := chunkSize\<rparr>)))"
  by pat_completeness auto
termination
  by (relation "measure (\<lambda>(len, all_read, dst, c). 2 * len + (if chunk_remainder c = 0 then 1 else 0))") auto

declare read_chunks.simps [simp del]

definition mg_read_conn :: "nat \<Rightarrow> connection \<Rightarrow> (int \<times> string \<times> connection) result" where
  "mg_read_conn len c =
     (if is_chunked c \<noteq> 0 then read_chunks (min len INT_MAX) 0 [] c else Inr (mg_read_inner (min len INT_MAX) c))"

end
