(* ===== verification/Civetweb_Request.thy ===== *)
theory Civetweb_Request
  imports Civetweb_Start Civetweb_Io
begin

text \<open>
  \<^verbatim>\<open>wiring_common_secure/private/src/civetweb.c\<close>, from the bytes of a connection to the call of the
  handler: finding the end of the request in the buffer, its lines and headers, the length of its body,
  its URI, and the pages civetweb sends for a request it does not take.
\<close>

section \<open>The text of a request\<close>

text \<open>
  The length of the request in the buffer: 0 while its end is not there, -1 at a control character.
\<close>

fun request_len_from :: "nat \<Rightarrow> string \<Rightarrow> int" where
  "request_len_from i (c # d # s) =
     (if \<not> c_isprint c \<and> c \<noteq> CHR 0x0D \<and> c \<noteq> CHR 0x0A \<and> code c < 128 then - 1
      else if c = CHR 0x0A \<and> d = CHR 0x0A then int i + 2
      else if c = CHR 0x0A \<and> s \<noteq> [] \<and> d = CHR 0x0D \<and> hd s = CHR 0x0A then int i + 3
      else request_len_from (Suc i) (d # s))"
| "request_len_from i s = 0"

definition get_request_len :: "string \<Rightarrow> int" where
  "get_request_len buf = request_len_from 0 buf"

record request_info =
  request_method :: string
  request_uri :: string
  http_version :: string
  local_uri :: "string option"
  query_string :: "string option"
  http_headers :: "(string \<times> string option) list"
  ri_content_length :: int

definition get_header :: "request_info \<Rightarrow> string \<Rightarrow> string option" where
  "get_header ri name =
     (case find (\<lambda>(n, v). mg_strcasecmp name n = 0) (http_headers ri) of None \<Rightarrow> None | Some (n, v) \<Rightarrow> v)"

text \<open>The text before the first line end, and the text behind it.\<close>

fun split_crlf :: "string \<Rightarrow> (string \<times> string) option" where
  "split_crlf (c # d # s) =
     (if c = CHR 0x0D \<and> d = CHR 0x0A then Some ([], s)
      else (case split_crlf (d # s) of None \<Rightarrow> None | Some (v, t) \<Rightarrow> Some (c # v, t)))"
| "split_crlf s = None"

text \<open>
  At most \<open>n\<close> headers. A line without a colon is a header without a value; the last line may lack its
  end.
\<close>

fun parse_headers :: "nat \<Rightarrow> string \<Rightarrow> (string \<times> string option) list" where
  "parse_headers 0 s = []"
| "parse_headers (Suc n) s =
     (let name = takeWhile (\<lambda>c. c \<noteq> CHR '':'' \<and> c \<noteq> CHR 0x0D) s;
          go_on = (\<lambda>t. if t \<noteq> [] \<and> hd t = CHR 0x0D then [] else parse_headers n t)
      in case drop (length name) s of
           [] \<Rightarrow> []
         | c # t \<Rightarrow>
             if c = CHR 0x0D
             then (if t \<noteq> [] \<and> hd t = CHR 0x0A then (name, None) # go_on (tl t) else [])
             else (let v = dropWhile (\<lambda>c. c = CHR '' '') t
                   in case split_crlf v of
                        None \<Rightarrow> [(name, Some v)]
                      | Some (v, t) \<Rightarrow> (name, Some v) # go_on t))"

definition parse_http_headers :: "string \<Rightarrow> (string \<times> string option) list" where
  "parse_http_headers s = parse_headers 64 s"

definition is_valid_http_method :: "string \<Rightarrow> bool" where
  "is_valid_http_method method \<longleftrightarrow>
     method \<in> set [''GET'', ''POST'', ''HEAD'', ''PUT'', ''DELETE'', ''OPTIONS'', ''CONNECT'', ''PROPFIND'', ''MKCOL'', ''PATCH'']"

definition no_request :: request_info where
  "no_request = \<lparr>request_method = [], request_uri = [], http_version = [], local_uri = None, query_string = None,
     http_headers = [], ri_content_length = - 1\<rparr>"

text \<open>
  The words are cut out of the buffer with NUL characters; no byte behind the request changes. What
  is parsed here of a request that is refused is read by nobody.
\<close>

definition parse_http_message :: "string \<Rightarrow> int \<times> request_info" where
  "parse_http_message buf =
     (let request_length = get_request_len buf
      in if 0 < request_length
         then (let s = dropWhile is_cspace (take (nat request_length - 1) buf);
                   (method, s) = skip s '' '';
                   (uri, s) = skip s '' '';
                   (version, s) = skip s crlf;
                   is_request = is_valid_http_method method
               in if is_request \<and> take 5 version \<noteq> ''HTTP/'' \<or> \<not> is_request \<and> take 5 method \<noteq> ''HTTP/''
                  then (- 1, no_request)
                  else (request_length, no_request\<lparr>
                    request_method := method, request_uri := uri,
                    http_version := if is_request then drop 5 version else version,
                    http_headers := parse_http_headers s\<rparr>))
         else (request_length, no_request))"

section \<open>Reading a request\<close>

definition store_at :: "nat \<Rightarrow> string \<Rightarrow> string \<Rightarrow> string" where
  "store_at k s buf = take k buf @ s @ drop (k + length s) buf"

text \<open>The result is the length of the request, or not positive, and the number of bytes in the buffer.\<close>

function read_request_loop :: "nat \<Rightarrow> nat \<Rightarrow> int \<Rightarrow> int \<Rightarrow> connection \<Rightarrow> int \<times> nat \<times> connection" where
  "read_request_loop bufsiz nread reqlen n c =
     (let result = (if reqlen \<le> 0 \<and> n \<le> 0 then - 1 else reqlen)
      in if \<not> stop_flag c \<and> nread < bufsiz \<and> reqlen = 0 \<and> \<not> (late c \<and> 0 < request_timeout c)
         then (case pull (bufsiz - nread) c of
                 (None, c) \<Rightarrow> (- 1, nread, c)
               | (Some s, c) \<Rightarrow>
                   if s = [] then (- 1, nread, c)
                   else (let buf = store_at nread s (conn_buf c)
                         in read_request_loop bufsiz (nread + length s) (get_request_len (take (nread + length s) buf))
                              (int (length s)) (c\<lparr>conn_buf := buf\<rparr>)))
         else (result, nread, c))"
  by pat_completeness auto
termination
  by (relation "measure (\<lambda>(bufsiz, nread, reqlen, n, c). bufsiz - nread)") (auto intro!: diff_less_mono2)

declare read_request_loop.simps [simp del]

definition read_request :: "connection \<Rightarrow> int \<times> nat \<times> connection" where
  "read_request c =
     read_request_loop (length (conn_buf c)) (data_len c) (get_request_len (take (data_len c) (conn_buf c))) 0 (c\<lparr>late := False\<rparr>)"

definition reset_per_request_attributes :: "connection \<Rightarrow> connection" where
  "reset_per_request_attributes c =
     c\<lparr>consumed_content := 0, status_code := - 1, is_chunked := 0, must_close := False, request_len := 0,
       data_len := 0, chunk_remainder := 0\<rparr>"

text \<open>
  What went wrong: the status to send, 0 for none, and the text. A request is accepted with its
  information. The end of \<^verbatim>\<open>getreq\<close> looks how long the body is.
\<close>

type_synonym request_result = "((int \<times> string) + request_info) \<times> connection"

definition length_of_body :: "request_info \<Rightarrow> connection \<Rightarrow> request_result" where
  "length_of_body ri c =
     (case get_header ri ''Content-Length'' of
        Some cl \<Rightarrow>
          (case strtol10 cl of (n, endptr, _) \<Rightarrow>
             if endptr = cl then (Inl (411, ''Bad Request''), c\<lparr>content_len := n\<rparr>)
             else (Inr (ri\<lparr>ri_content_length := n\<rparr>), c\<lparr>content_len := n\<rparr>))
      | None \<Rightarrow>
          if get_header ri ''Transfer-Encoding'' = Some ''chunked'' then (Inr ri, c\<lparr>is_chunked := 1\<rparr>)
          else if mg_strcasecmp (request_method ri) ''POST'' = 0 \<or> mg_strcasecmp (request_method ri) ''PUT'' = 0 \<or>
                  mg_strncasecmp (request_method ri) ''HTTP/'' 5 = 0
          then (Inr ri, c\<lparr>content_len := - 1\<rparr>)
          else (Inr ri, c\<lparr>content_len := 0\<rparr>))"

definition getreq :: "connection \<Rightarrow> request_result" where
  "getreq c =
     (case read_request (reset_per_request_attributes c) of (reqlen, nread, c) \<Rightarrow>
        let c = c\<lparr>data_len := nread, request_len := reqlen\<rparr>
        in if 0 \<le> reqlen \<and> int nread < reqlen then (Inl (500, ''Invalid request size''), c)
           else if reqlen = 0 \<and> nread = length (conn_buf c) then (Inl (413, ''Request Too Large''), c)
           else if reqlen \<le> 0
           then (if 0 < nread then (Inl (400, ''Client sent malformed request''), c)
                 else (Inl (0, ''Client did not send a request''), c\<lparr>must_close := True\<rparr>))
           else (case parse_http_message (conn_buf c) of (len, ri) \<Rightarrow>
                   if len \<le> 0 then (Inl (400, ''Bad Request''), c) else length_of_body ri c))"

section \<open>Pages of civetweb\<close>

definition response_texts :: "(int \<times> string) list" where
  "response_texts =
     [(100, ''Continue''), (101, ''Switching Protocols''),
      (102, ''Processing''), (200, ''OK''),
      (201, ''Created''), (202, ''Accepted''),
      (203, ''Non-Authoritative Information''), (204, ''No Content''),
      (205, ''Reset Content''), (206, ''Partial Content''),
      (207, ''Multi-Status''), (300, ''Multiple Choices''),
      (301, ''Moved Permanently''), (302, ''Found''),
      (303, ''See Other''), (304, ''Not Modified''),
      (305, ''Use Proxy''), (307, ''Temporary Redirect''),
      (400, ''Bad Request''), (401, ''Unauthorized''),
      (402, ''Payment Required''), (403, ''Forbidden''),
      (404, ''Not Found''), (405, ''Method Not Allowed''),
      (406, ''Not Acceptable''), (407, ''Proxy Authentication Required''),
      (408, ''Request Time-out''), (409, ''Conflict''),
      (410, ''Gone''), (411, ''Length Required''),
      (412, ''Precondition Failed''), (413, ''Request Entity Too Large''),
      (414, ''Request-URI Too Large''), (415, ''Unsupported Media Type''),
      (416, ''Requested range not satisfiable''), (417, ''Expectation Failed''),
      (422, ''Unproccessable entity''), (423, ''Locked''),
      (424, ''Failed Dependency''), (428, ''Precondition Required''),
      (429, ''Too Many Requests''), (431, ''Request Header Fields Too Large''),
      (500, ''Internal Server Error''), (501, ''Not Implemented''),
      (502, ''Bad Gateway''), (503, ''Service Unavailable''),
      (504, ''Gateway Time-out''), (505, ''HTTP Version not supported''),
      (507, ''Insufficient Storage''), (511, ''Network Authentication Required''),
      (426, ''Upgrade Required''), (208, ''Already Reported''),
      (226, ''IM used''), (308, ''Permanent Redirect''),
      (418, ''I am a teapot''), (419, ''Authentication Timeout''),
      (451, ''Unavailable For Legal Reasons''), (506, ''Variant Also Negotiates''),
      (508, ''Loop Detected''), (510, ''Not Extended'')]"

definition mg_get_response_code_text :: "int \<Rightarrow> string" where
  "mg_get_response_code_text response_code =
     (case map_of response_texts response_code of
        Some t \<Rightarrow> t
      | None \<Rightarrow>
          if 100 \<le> response_code \<and> response_code < 200 then ''Information''
          else if 200 \<le> response_code \<and> response_code < 300 then ''Success''
          else if 300 \<le> response_code \<and> response_code < 400 then ''Redirection''
          else if 400 \<le> response_code \<and> response_code < 500 then ''Client Error''
          else if 500 \<le> response_code \<and> response_code < 600 then ''Server Error''
          else [])"

definition no_cache_header :: string where
  "no_cache_header = ''Cache-Control: no-cache, no-store, must-revalidate, private, max-age=0'' @ crlf @
     ''Pragma: no-cache'' @ crlf @ ''Expires: 0'' @ crlf"

definition write_text :: "string \<Rightarrow> connection \<Rightarrow> connection" where
  "write_text s c = c\<lparr>written := written c @ s\<rparr>"

text \<open>
  The page for an error, when neither a handler for errors nor error pages are set; \<open>date\<close> is the
  time of day as text.
\<close>

definition send_http_error :: "string \<Rightarrow> int \<Rightarrow> string \<Rightarrow> connection \<Rightarrow> connection" where
  "send_http_error date status msg c =
     write_text
       (''HTTP/1.1 '' @ dec_int status @ '' '' @ mg_get_response_code_text status @ crlf @ no_cache_header @
        ''Date: '' @ date @ crlf @ ''Connection: close'' @ crlf @ crlf @
        (if 199 < status \<and> status \<noteq> 204 \<and> status \<noteq> 304
         then ''Error '' @ dec_int status @ '': '' @ mg_get_response_code_text status @ [CHR 0x0A] @ snprintf 8192 msg
         else []))
       (c\<lparr>status_code := status, must_close := True\<rparr>)"

section \<open>Handling a request\<close>

text \<open>The context of a running server, and the socket of a client: the address and port it reached.\<close>

record web_server =
  srv_config :: config
  srv_listening :: "listen_socket list"
  srv_date :: string

record client_socket =
  cl_ssl_redir :: bool
  cl_local_port :: "16 word"
  cl_local_addr :: string

definition should_keep_alive :: "web_server \<Rightarrow> request_info \<Rightarrow> connection \<Rightarrow> bool" where
  "should_keep_alive srv ri c \<longleftrightarrow>
     (let header = get_header ri ''Connection''
      in \<not> (must_close c \<or> status_code c = 401 \<or>
            mg_strcasecmp (the (config_of (srv_config srv) ''enable_keep_alive'')) ''yes'' \<noteq> 0 \<or>
            header \<noteq> None \<and> mg_strcasecmp (the header) ''keep-alive'' \<noteq> 0 \<or>
            header = None \<and> http_version ri \<noteq> ''1.1''))"

definition should_decode_url :: "web_server \<Rightarrow> bool" where
  "should_decode_url srv \<longleftrightarrow> mg_strcasecmp (the (config_of (srv_config srv) ''decode_url'')) ''yes'' = 0"

fun first_ssl :: "nat \<Rightarrow> listen_socket list \<Rightarrow> nat option" where
  "first_ssl i [] = None"
| "first_ssl i (l # ls) = (if so_is_ssl l then Some i else first_ssl (Suc i) ls)"

definition get_first_ssl_listener_index :: "web_server \<Rightarrow> nat option" where
  "get_first_ssl_listener_index srv = first_ssl 0 (srv_listening srv)"

definition redirect_to_https_port :: "web_server \<Rightarrow> client_socket \<Rightarrow> request_info \<Rightarrow> nat \<Rightarrow> connection \<Rightarrow> connection" where
  "redirect_to_https_port srv cl ri ssl_index c =
     (let host = (case get_header ri ''Host'' of
                    Some h \<Rightarrow> takeWhile (\<lambda>c. c \<noteq> CHR '':'') (snprintf 1025 h)
                  | None \<Rightarrow> cl_local_addr cl)
      in write_text (''HTTP/1.1 302 Found'' @ crlf @ ''Location: https://'' @ host @ '':'' @
           dec (unat (so_port (srv_listening srv ! ssl_index))) @ the (local_uri ri) @
           (case query_string ri of None \<Rightarrow> [] | Some q \<Rightarrow> CHR ''?'' # q) @ crlf @ crlf) c)"

text \<open>
  The query is cut off where the request URI has its question mark. The local URI is an end of the
  request URI, in the same memory.
\<close>

definition split_query :: "request_info \<Rightarrow> request_info" where
  "split_query ri =
     (case strchr (request_uri ri) CHR ''?'' of
        None \<Rightarrow> ri\<lparr>query_string := None\<rparr>
      | Some q \<Rightarrow>
          (let at = length (request_uri ri) - length q
           in ri\<lparr>query_string := Some (tl q), request_uri := take at (request_uri ri),
                local_uri := map_option (\<lambda>l. let off = length (request_uri ri) - length l
                  in if at < off then l else take (at - off) l) (local_uri ri)\<rparr>))"

text \<open>
  The request up to the callback for all requests, which the wiring admin sets. The result says
  whether that ended it; else civetweb goes on to its own handlers and files. No limit of the speed
  (\<^verbatim>\<open>throttle\<close>) is configured.
\<close>

type_synonym 's begin_request = "connection \<Rightarrow> request_info \<Rightarrow> 's \<Rightarrow> (int \<times> connection \<times> 's) result"

definition handle_request ::
    "web_server \<Rightarrow> client_socket \<Rightarrow> 's begin_request \<Rightarrow> request_info \<Rightarrow> connection \<Rightarrow> 's \<Rightarrow> (bool \<times> request_info \<times> connection \<times> 's) result" where
  "handle_request srv cl begin_request ri c s =
     (let ri = split_query ri
      in case local_uri ri of
           None \<Rightarrow> Inl NullPointer
         | Some l \<Rightarrow>
             (let l = (if should_decode_url srv
                       then takeWhile (\<lambda>c. c \<noteq> CHR 0x00) (fst (mg_url_decode l (length l + 1) False)) else l);
                  ri = ri\<lparr>local_uri := Some (remove_double_dots_and_double_slashes l)\<rparr>
              in if \<not> is_ssl c \<and> cl_ssl_redir cl
                 then (case get_first_ssl_listener_index srv of
                         Some i \<Rightarrow> Inr (True, ri, redirect_to_https_port srv cl ri i c, s)
                       | None \<Rightarrow> Inr (True, ri,
                           send_http_error (srv_date srv) 503 ''Error: SSL forward not configured properly'' c, s))
                 else rbind (begin_request c ri s) (\<lambda>(i, c, s).
                   if 0 < i then Inr (True, ri, c\<lparr>status_code := i\<rparr>, s)
                   else Inr (i \<noteq> 0, ri, c, s))))"

section \<open>A connection\<close>

text \<open>
  One round of the loop: whether the next request of the connection is waited for, or the request
  is left to civetweb's own handlers.
\<close>

datatype 's served_round = Served bool connection 's | ToFiles request_info connection 's

definition after_request :: "web_server \<Rightarrow> request_info \<Rightarrow> connection \<Rightarrow> 's \<Rightarrow> 's served_round" where
  "after_request srv ri c s =
     (let keep_alive = (\<not> stop_flag c \<and> config_of (srv_config srv) ''enable_keep_alive'' = Some ''yes'' \<and>
            0 \<le> content_len c \<and> should_keep_alive srv ri c);
          discard_len = (if 0 \<le> content_len c \<and> 0 < request_len c \<and> request_len c + content_len c < int (data_len c)
                         then nat (request_len c + content_len c) else data_len c);
          left = data_len c - discard_len
      in Served keep_alive
           (c\<lparr>data_len := left, conn_buf := store_at 0 (take left (drop discard_len (conn_buf c))) (conn_buf c)\<rparr>) s)"

definition local_uri_of :: "web_server \<Rightarrow> client_socket \<Rightarrow> string \<Rightarrow> string option option" where
  "local_uri_of srv cl uri =
     (let t = get_uri_type uri
      in if t = 1 then Some None
         else if t = 2 then Some (Some uri)
         else if t = 3 \<or> t = 4
         then Some (get_rel_url_at_current_server (config_of (srv_config srv) ''authentication_domain'') (cl_local_port cl) uri)
         else None)"

definition serve_request ::
    "web_server \<Rightarrow> client_socket \<Rightarrow> 's begin_request \<Rightarrow> connection \<Rightarrow> 's \<Rightarrow> 's served_round result" where
  "serve_request srv cl begin_request c s =
     (let refuse = (\<lambda>ri status msg c. after_request srv ri (send_http_error (srv_date srv) status msg c) s)
      in case getreq c of
           (Inl (err, ebuf), c) \<Rightarrow>
             Inr (if 0 < err then refuse no_request err ebuf c else after_request srv no_request (c\<lparr>must_close := True\<rparr>) s)
         | (Inr ri, c) \<Rightarrow>
             if http_version ri \<noteq> ''1.0'' \<and> http_version ri \<noteq> ''1.1''
             then Inr (refuse ri 505 (snprintf 100 (''Bad HTTP version: ['' @ http_version ri @ '']'')) c)
             else (case local_uri_of srv cl (request_uri ri) of
                     None \<Rightarrow> Inr (refuse ri 400 (snprintf 100 (''Invalid URI: ['' @ request_uri ri @ '']'')) c)
                   | Some l \<Rightarrow>
                       rbind (handle_request srv cl begin_request (ri\<lparr>local_uri := l\<rparr>) c s) (\<lambda>(handled, ri, c, s).
                         Inr (if handled then after_request srv ri c s else ToFiles ri c s))))"

text \<open>All requests of a connection. \<open>None\<close> is a client that never stops sending requests.\<close>

definition next_round :: "'s served_round result \<Rightarrow> (connection \<times> 's) option" where
  "next_round r = (case r of Inr (Served keep_alive c s) \<Rightarrow> if keep_alive then Some (c, s) else None | _ \<Rightarrow> None)"

partial_function (option) process_requests ::
    "web_server \<Rightarrow> client_socket \<Rightarrow> 's begin_request \<Rightarrow> connection \<Rightarrow> 's \<Rightarrow> 's served_round result option" where
  "process_requests srv cl begin_request c s =
     (let r = serve_request srv cl begin_request c s
      in case next_round r of
           None \<Rightarrow> Some r
         | Some (c, s) \<Rightarrow> process_requests srv cl begin_request c s)"

definition process_new_connection ::
    "web_server \<Rightarrow> client_socket \<Rightarrow> 's begin_request \<Rightarrow> connection \<Rightarrow> 's \<Rightarrow> 's served_round result option" where
  "process_new_connection srv cl begin_request c s = process_requests srv cl begin_request (c\<lparr>data_len := 0\<rparr>) s"

end
