(* ===== verification/Civetweb_Io_Correct.thy ===== *)
theory Civetweb_Io_Correct
  imports Civetweb_Io
begin

text \<open>
  Reading a body does not depend on how the network cut it: what \<^verbatim>\<open>mg_read\<close> sees is the rest of the
  buffer followed by what arrives, as one stream.
\<close>

section \<open>The stream behind a connection\<close>

fun plain :: "arrival \<Rightarrow> bool" where
  "plain (Got l s) = (\<not> l \<and> s \<noteq> [])"
| "plain _ = False"

fun bytes_of :: "arrival \<Rightarrow> string" where
  "bytes_of (Got l s) = s"
| "bytes_of _ = []"

text \<open>What arrives before the first thing that is not data in time.\<close>

definition incoming :: "connection \<Rightarrow> string" where
  "incoming c = (if stop_flag c then [] else concat (map bytes_of (takeWhile plain (arrivals c))))"

definition unread_buffer :: "connection \<Rightarrow> string" where
  "unread_buffer c = drop (nat (request_len c + consumed_content c)) (take (data_len c) (conn_buf c))"

definition body_stream :: "connection \<Rightarrow> string" where
  "body_stream c = unread_buffer c @ incoming c"

text \<open>The fields the reading works on are set, all others are those of the connection before.\<close>

definition same_request :: "connection \<Rightarrow> connection \<Rightarrow> bool" where
  "same_request c c' \<longleftrightarrow>
     c' = c\<lparr>arrivals := arrivals c', late := late c', consumed_content := consumed_content c',
            content_len := content_len c', chunk_remainder := chunk_remainder c', is_chunked := is_chunked c'\<rparr>"

lemma same_request_refl [simp]: "same_request c c"
  by (simp add: same_request_def)

lemma same_request_trans [trans]: "same_request c c' \<Longrightarrow> same_request c' c'' \<Longrightarrow> same_request c c''"
  by (cases c; cases c'; cases c'') (simp add: same_request_def)

lemma same_request_fields:
  "same_request c c' \<Longrightarrow>
     is_ssl c' = is_ssl c \<and> stop_flag c' = stop_flag c \<and> request_timeout c' = request_timeout c \<and>
     conn_buf c' = conn_buf c \<and> data_len c' = data_len c \<and> request_len c' = request_len c \<and>
     must_close c' = must_close c \<and> status_code c' = status_code c \<and> written c' = written c"
  by (cases c; cases c') (simp add: same_request_def)

lemma same_request_update [simp]:
  "same_request c (c\<lparr>arrivals := a\<rparr>)" "same_request c (c\<lparr>late := l\<rparr>)"
  "same_request c (c\<lparr>consumed_content := n\<rparr>)" "same_request c (c\<lparr>content_len := n\<rparr>)"
  "same_request c (c\<lparr>chunk_remainder := k\<rparr>)" "same_request c (c\<lparr>is_chunked := k\<rparr>)"
  by (simp_all add: same_request_def)

text \<open>Reading \<open>n\<close> bytes of the body moves the position by \<open>n\<close>, and nothing else of the request.\<close>

definition read_on :: "connection \<Rightarrow> int \<Rightarrow> connection \<Rightarrow> bool" where
  "read_on c n c' \<longleftrightarrow>
     same_request c c' \<and> content_len c' = content_len c \<and> chunk_remainder c' = chunk_remainder c \<and>
     is_chunked c' = is_chunked c \<and> consumed_content c' = consumed_content c + n"

lemma read_on_trans: "read_on c m c' \<Longrightarrow> read_on c' n c'' \<Longrightarrow> read_on c (m + n) c''"
  by (auto simp: read_on_def intro: same_request_trans)

lemma body_stream_update [simp]:
  "body_stream (c\<lparr>content_len := n\<rparr>) = body_stream c" "body_stream (c\<lparr>chunk_remainder := k\<rparr>) = body_stream c"
  "body_stream (c\<lparr>is_chunked := k\<rparr>) = body_stream c"
  by (simp_all add: body_stream_def unread_buffer_def incoming_def)

section \<open>Receiving\<close>

lemma pull_stream:
  assumes "incoming c \<noteq> []" "0 < len"
  obtains s c' where "pull len c = (Some s, c')" "s \<noteq> []" "length s \<le> len" "incoming c = s @ incoming c'" "read_on c 0 c'" "\<not> late c'"
proof -
  obtain s as where a: "arrivals c = Got False s # as" "s \<noteq> []" and run: "\<not> stop_flag c"
  proof -
    obtain a as where "arrivals c = a # as" "plain a" "\<not> stop_flag c" using assms(1)
      by (cases "arrivals c") (auto simp: incoming_def split: if_splits)
    then show ?thesis using that by (cases a) auto
  qed
  let ?c' = "c\<lparr>arrivals := if len < length s then Got False (drop len s) # as else as, late := False\<rparr>"
  have "incoming c = take len s @ incoming ?c'" using a run by (simp add: incoming_def)
  then show thesis using that [of "take len s" ?c'] a run assms(2) by (simp add: pull_def read_on_def same_request_def)
qed

lemma pull_all_loop_stream:
  assumes "len \<le> length (incoming c)"
  shows "\<exists>c'. pull_all_loop len got c = (int (length got + len), got @ take len (incoming c), c') \<and>
     incoming c' = drop len (incoming c) \<and> read_on c (int len) c'"
  using assms
proof (induction len arbitrary: got c rule: less_induct)
  case (less len)
  show ?case
  proof (cases "len = 0")
    case True
    then show ?thesis by (subst pull_all_loop.simps) (simp add: read_on_def)
  next
    case False
    then have ne: "incoming c \<noteq> []" "0 < len" using less.prems by auto
    then have run: "\<not> stop_flag c" by (auto simp: incoming_def)
    obtain s c1 where p: "pull len c = (Some s, c1)" and s: "s \<noteq> []" "length s \<le> len" "incoming c = s @ incoming c1"
      and c1: "read_on c 0 c1" using pull_stream [OF ne] by metis
    define c2 where "c2 = c1\<lparr>consumed_content := consumed_content c1 + int (length s)\<rparr>"
    have in2: "incoming c2 = incoming c1" by (simp add: c2_def incoming_def)
    have r2: "read_on c (int (length s)) c2" using c1 by (auto simp: read_on_def c2_def intro: same_request_trans)
    have "len - length s < len" "len - length s \<le> length (incoming c2)" using s less.prems ne by (auto simp: in2)
    from less.IH [OF this, of "got @ s"] obtain c' where c':
      "pull_all_loop (len - length s) (got @ s) c2 = (int (length (got @ s) + (len - length s)), (got @ s) @ take (len - length s) (incoming c2), c')"
      "incoming c' = drop (len - length s) (incoming c2)" "read_on c2 (int (len - length s)) c'" by blast
    have "pull_all_loop len got c = pull_all_loop (len - length s) (got @ s) c2"
      by (subst pull_all_loop.simps) (use ne run s p in \<open>simp add: c2_def\<close>)
    then show ?thesis using c' s in2 read_on_trans [OF r2 c'(3)] by (auto simp: of_nat_diff)
  qed
qed

lemma pull_all_stream:
  "len \<le> length (incoming c) \<Longrightarrow>
     \<exists>c'. pull_all len c = (int len, take len (incoming c), c') \<and> incoming c' = drop len (incoming c) \<and> read_on c (int len) c'"
  using pull_all_loop_stream [of len c "[]"] by (simp add: pull_all_def)

section \<open>Reading a body of known length\<close>

text \<open>Enough of the body is announced and comes.\<close>

definition ready :: "connection \<Rightarrow> nat \<Rightarrow> bool" where
  "ready c len \<longleftrightarrow>
     0 \<le> request_len c \<and> 0 \<le> consumed_content c \<and> consumed_content c + int len \<le> content_len c \<and>
     data_len c \<le> length (conn_buf c) \<and> len \<le> INT_MAX \<and> len \<le> length (body_stream c)"

lemma mg_read_inner_stream:
  assumes "ready c len"
  shows "\<exists>c'. mg_read_inner len c = (int len, take len (body_stream c), c') \<and>
     body_stream c' = drop len (body_stream c) \<and> read_on c (int len) c'"
proof (cases "len = 0 \<and> consumed_content c = content_len c")
  case True
  then show ?thesis using assms by (auto simp: mg_read_inner_def ready_def read_on_def)
next
  case False
  define u where "u = unread_buffer c"
  define n where "n = min len (length u)"
  define c1 where "c1 = c\<lparr>consumed_content := consumed_content c + int n\<rparr>"
  have r: "0 \<le> request_len c" "0 \<le> consumed_content c" "consumed_content c + int len \<le> content_len c" "data_len c \<le> length (conn_buf c)"
    "len \<le> INT_MAX" "len \<le> length (body_stream c)" using assms by (simp_all add: ready_def)
  have less: "consumed_content c < content_len c" using r False by linarith
  have lenu: "length u = nat (int (data_len c) - request_len c - consumed_content c)"
    using r by (simp add: u_def unread_buffer_def)
  have rest: "len - n = len - length u" by (simp add: n_def min_def)
  have nu: "n \<le> length u" "n \<le> len" by (simp_all add: n_def)
  have buffered: "(if 0 < int (data_len c) - request_len c - consumed_content c
      then min (int len) (int (data_len c) - request_len c - consumed_content c) else 0) = int n"
    using lenu unfolding n_def min_def by (simp split: if_split) linarith
  have body: "take n (drop (nat (request_len c + consumed_content c)) (conn_buf c)) = take len u"
  proof -
    have "take len u = take n u" by (simp add: n_def min_def)
    moreover have "n \<le> data_len c - nat (request_len c + consumed_content c)" using nu(1) by (simp add: u_def unread_buffer_def)
    ultimately show ?thesis by (simp add: u_def unread_buffer_def drop_take min_absorb1)
  qed
  have in1: "incoming c1 = incoming c" by (simp add: c1_def incoming_def)
  have "len - n \<le> length (incoming c1)" using r(6) by (auto simp: in1 n_def body_stream_def u_def)
  from pull_all_stream [OF this] obtain c' where c':
    "pull_all (len - n) c1 = (int (len - n), take (len - n) (incoming c1), c')"
    "incoming c' = drop (len - n) (incoming c1)" "read_on c1 (int (len - n)) c'" by blast
  have "read_on c (int n) c1" by (simp add: read_on_def c1_def)
  from read_on_trans [OF this c'(3)] have on: "read_on c (int len) c'" using nu by (simp add: of_nat_diff)
  then have "unread_buffer c' = drop len u"
    using r by (auto simp: read_on_def unread_buffer_def u_def nat_add_distrib add_ac dest!: same_request_fields)
  then have str: "body_stream c' = drop len (body_stream c)"
    using c'(2) by (simp add: body_stream_def in1 rest u_def)
  have "mg_read_inner len c = (int len, take len (body_stream c), c')"
  proof -
    have facts: "(content_len c = - 1) = False" "min (int (min len INT_MAX)) (content_len c - consumed_content c) = int len"
      using r by auto
    have left: "nat (int len - int n) = len - n" by simp
    have bytes: "take len u @ take (len - n) (incoming c) = take len (body_stream c)" by (simp add: body_stream_def u_def rest)
    show ?thesis
      unfolding mg_read_inner_def Let_def
      by (simp only: facts less buffered simp_thms if_True if_False left body nat_int c1_def [symmetric] c'(1) prod.case)
        (use nu bytes in \<open>simp add: in1\<close>)
  qed
  then show ?thesis using str on by blast
qed

section \<open>A source of bytes\<close>

text \<open>
  What a reader of a body relies on: while a number of bytes \<open>can\<close> be had, \<open>get\<close> answers the next ones
  of the \<open>content\<close> and leaves the rest.
\<close>

locale byte_stream =
  fixes can :: "'c \<Rightarrow> nat \<Rightarrow> bool"
    and content :: "'c \<Rightarrow> string"
    and get :: "nat \<Rightarrow> 'c \<Rightarrow> int \<times> string \<times> 'c"
  assumes can_less: "can c (m + n) \<Longrightarrow> can c m"
    and get_next: "can c (m + n) \<Longrightarrow>
      \<exists>c'. get m c = (int m, take m (content c), c') \<and> content c' = drop m (content c) \<and> can c' n"
begin

text \<open>A body that is read in two pieces, the second from where the first one ended, is read whole.\<close>

lemma get_pieces:
  assumes "can c (m + n)"
  shows "\<exists>c1 c2. get m c = (int m, take m (content c), c1) \<and>
     get n c1 = (int n, drop m (take (m + n) (content c)), c2) \<and> content c2 = drop (m + n) (content c)"
proof -
  obtain c1 where c1: "get m c = (int m, take m (content c), c1)" "content c1 = drop m (content c)" "can c1 n"
    using get_next [OF assms] by blast
  obtain c2 where "get n c1 = (int n, take n (content c1), c2)" "content c2 = drop n (content c1)"
    using get_next [of c1 n 0] c1(3) by auto
  then show ?thesis using c1(1,2) by (auto simp: drop_take add.commute)
qed

end

lemma ready_after:
  assumes "ready c (m + n)" "read_on c (int m) c'" "body_stream c' = drop m (body_stream c)"
  shows "ready c' n"
  using assms same_request_fields [of c c'] by (auto simp: ready_def read_on_def)

interpretation body: byte_stream ready body_stream mg_read_inner
proof
  fix c m n assume r: "ready c (m + n)"
  then show less: "ready c m" by (simp add: ready_def)
  show "\<exists>c'. mg_read_inner m c = (int m, take m (body_stream c), c') \<and> body_stream c' = drop m (body_stream c) \<and> ready c' n"
    using mg_read_inner_stream [OF less] ready_after [OF r] by blast
qed

section \<open>Reading a chunked body\<close>

text \<open>While chunks are read the length of the content grows with the position in it.\<close>

definition chunk_ready :: "connection \<Rightarrow> bool" where
  "chunk_ready c \<longleftrightarrow>
     0 \<le> request_len c \<and> 0 \<le> consumed_content c \<and> consumed_content c \<le> content_len c \<and>
     content_len c + int (length (body_stream c)) < 2 ^ 63 \<and> data_len c \<le> length (conn_buf c)"

definition chunk_on :: "connection \<Rightarrow> connection \<Rightarrow> bool" where
  "chunk_on c c' \<longleftrightarrow> same_request c c' \<and> chunk_remainder c' = chunk_remainder c \<and> is_chunked c' = is_chunked c \<and> chunk_ready c'"

lemma chunk_on_trans: "chunk_on c c' \<Longrightarrow> chunk_on c' c'' \<Longrightarrow> chunk_on c c''"
  by (auto simp: chunk_on_def intro: same_request_trans)

lemma to_int64_id: "0 \<le> i \<Longrightarrow> i < 2 ^ 63 \<Longrightarrow> to_int64 i = i"
  by (simp add: to_int64_def signed_of_int signed_take_bit_int_eq_self)

lemma read_more_stream:
  assumes "chunk_ready c" "k \<le> length (body_stream c)" "k \<le> INT_MAX"
  shows "\<exists>c'. mg_read_inner k (c\<lparr>content_len := to_int64 (content_len c + int k)\<rparr>) = (int k, take k (body_stream c), c') \<and>
     body_stream c' = drop k (body_stream c) \<and> chunk_on c c'"
proof -
  have len: "to_int64 (content_len c + int k) = content_len c + int k"
    using assms by (intro to_int64_id) (auto simp: chunk_ready_def)
  let ?c = "c\<lparr>content_len := content_len c + int k\<rparr>"
  have s: "body_stream ?c = body_stream c" by (simp add: body_stream_def unread_buffer_def incoming_def)
  have "ready ?c k" using assms by (simp add: ready_def chunk_ready_def s)
  from mg_read_inner_stream [OF this] obtain c' where c':
    "mg_read_inner k ?c = (int k, take k (body_stream c), c')" "body_stream c' = drop k (body_stream c)" "read_on ?c (int k) c'"
    by (auto simp: s)
  have "same_request c c'" using c'(3) same_request_trans [of c ?c c'] by (simp add: read_on_def)
  moreover have "chunk_ready c'"
    using c'(2,3) assms same_request_fields [OF calculation] by (simp add: chunk_ready_def read_on_def)
  ultimately have "chunk_on c c'" using c'(3) by (simp add: chunk_on_def read_on_def)
  then show ?thesis using c' by (simp add: len)
qed

lemma mg_getc_stream:
  assumes "chunk_ready c" "body_stream c = x # rest"
  obtains c' where "mg_getc c = (x, c')" "body_stream c' = rest" "chunk_on c c'"
proof -
  obtain c' where "mg_read_inner 1 (c\<lparr>content_len := to_int64 (content_len c + 1)\<rparr>) = (1, [x], c')"
    "body_stream c' = rest" "chunk_on c c'"
    using read_more_stream [OF assms(1), of 1] by (auto simp: assms(2) INT_MAX_def)
  then show thesis using that by (simp add: mg_getc_def)
qed

lemma read_chunk_end_stream:
  assumes "chunk_ready c" "body_stream c = crlf @ rest"
  obtains c' where "read_chunk_end c = (True, c')" "body_stream c' = rest" "chunk_on c c'"
proof -
  obtain c1 where c1: "mg_getc c = (CHR 0x0D, c1)" "body_stream c1 = CHR 0x0A # rest" "chunk_on c c1"
    using mg_getc_stream [OF assms(1), of "CHR 0x0D" "CHR 0x0A # rest"] assms(2) by auto
  obtain c2 where c2: "mg_getc c1 = (CHR 0x0A, c2)" "body_stream c2 = rest" "chunk_on c1 c2"
    using mg_getc_stream [OF _ c1(2)] c1(3) by (auto simp: chunk_on_def)
  show thesis using that [of c2] c1 c2 chunk_on_trans [OF c1(3) c2(3)] by (simp add: read_chunk_end_def)
qed

lemma no_line_end_alnum: "\<not> c_isalnum (CHR 0x0D)" "\<not> c_isalnum (CHR 0x0A)"
  by code_simp+

lemma read_chunk_line_stream:
  assumes "chunk_ready c" "body_stream c = ds @ crlf @ rest" "list_all c_isalnum ds" "length ds + 2 \<le> k"
    "list_all c_isalnum lenbuf" "lenbuf @ ds \<noteq> []"
  shows "\<exists>c'. read_chunk_line k lenbuf c = (Some (lenbuf @ ds @ crlf), c') \<and> body_stream c' = rest \<and> chunk_on c c'"
  using assms
proof (induction ds arbitrary: k lenbuf c)
  case Nil
  have last: "last lenbuf \<noteq> CHR 0x0D"
    using Nil.prems(5,6) no_line_end_alnum(1) by (metis append_Nil2 last_in_set list.pred_set)
  obtain j where k: "k = Suc (Suc j)" using Nil.prems(4) by (cases k; cases "k - 1") auto
  obtain c1 where c1: "mg_getc c = (CHR 0x0D, c1)" "body_stream c1 = CHR 0x0A # rest" "chunk_on c c1"
    using mg_getc_stream [OF Nil.prems(1), of "CHR 0x0D" "CHR 0x0A # rest"] Nil.prems(2) by auto
  obtain c2 where c2: "mg_getc c1 = (CHR 0x0A, c2)" "body_stream c2 = rest" "chunk_on c1 c2"
    using mg_getc_stream [OF _ c1(2)] c1(3) by (auto simp: chunk_on_def)
  have ne: "lenbuf \<noteq> []" using Nil.prems(6) by simp
  have "1 < length (lenbuf @ [CHR 0x0D])" using ne by (cases lenbuf) auto
  then have "read_chunk_line k lenbuf c = (Some (lenbuf @ crlf), c2)"
    using c1(1) c2(1) ne last by (simp add: k)
  then show ?case using c2 chunk_on_trans [OF c1(3) c2(3)] by auto
next
  case (Cons d ds)
  obtain j where k: "k = Suc j" using Cons.prems(4) by (cases k) auto
  obtain c1 where c1: "mg_getc c = (d, c1)" "body_stream c1 = ds @ crlf @ rest" "chunk_on c c1"
    using mg_getc_stream [OF Cons.prems(1), of d "ds @ crlf @ rest"] Cons.prems(2) by auto
  have d: "c_isalnum d" using Cons.prems(3) by simp
  then have "d \<noteq> CHR 0x0D" "d \<noteq> CHR 0x0A" using no_line_end_alnum by metis+
  then have "read_chunk_line k lenbuf c = read_chunk_line j (lenbuf @ [d]) c1" using c1(1) d by (simp add: k)
  moreover have "\<exists>c'. read_chunk_line j (lenbuf @ [d]) c1 = (Some ((lenbuf @ [d]) @ ds @ crlf), c') \<and> body_stream c' = rest \<and> chunk_on c1 c'"
    using Cons.prems c1 d by (intro Cons.IH) (auto simp: k chunk_on_def)
  ultimately show ?case using chunk_on_trans [OF c1(3)] by auto
qed

text \<open>What a client sends: the length of each chunk in hexadecimal, the chunk, and a last empty one.\<close>

fun hexs :: "nat \<Rightarrow> string" where
  "hexs n = (if n < 16 then [hex_digit n] else hexs (n div 16) @ [hex_digit (n mod 16)])"

declare hexs.simps [simp del]

definition chunk :: "string \<Rightarrow> string" where
  "chunk s = hexs (length s) @ crlf @ s @ crlf"

definition chunked_body :: "string list \<Rightarrow> string" where
  "chunked_body cs = concat (map chunk cs) @ ''0'' @ crlf"

lemma hex_digit_facts:
  assumes "n < 16"
  shows "c_isxdigit (hex_digit n) \<and> c_isalnum (hex_digit n) \<and> HEXTOI (c_tolower (hex_digit n)) = n \<and>
     c_tolower (hex_digit n) \<noteq> CHR ''x'' \<and> \<not> is_cspace (hex_digit n) \<and> hex_digit n \<noteq> CHR ''-'' \<and> hex_digit n \<noteq> CHR ''+''"
proof -
  have "list_all (\<lambda>n. c_isxdigit (hex_digit n) \<and> c_isalnum (hex_digit n) \<and> HEXTOI (c_tolower (hex_digit n)) = n \<and>
     c_tolower (hex_digit n) \<noteq> CHR ''x'' \<and> \<not> is_cspace (hex_digit n) \<and> hex_digit n \<noteq> CHR ''-'' \<and> hex_digit n \<noteq> CHR ''+'') [0..<16]"
    by code_simp
  then show ?thesis using assms by (simp add: list_all_iff)
qed

lemma hexs_digits: "c \<in> set (hexs n) \<Longrightarrow> \<exists>d < 16. c = hex_digit d"
proof (induction n rule: hexs.induct)
  case (1 n)
  then show ?case by (cases "n < 16") (auto simp: hexs.simps [of n] intro: exI [of _ "n mod 16"])
qed

lemma hexs_neq_Nil [simp]: "hexs n \<noteq> []"
  by (subst hexs.simps) simp

lemma hex_val_hexs: "hex_val (hexs n) = n"
proof (induction n rule: hexs.induct)
  case (1 n)
  then show ?case using hex_digit_facts [of n] hex_digit_facts [of "n mod 16"]
    by (cases "n < 16") (auto simp: hexs.simps [of n] hex_val_def)
qed

lemma length_hexs: "0 < k \<Longrightarrow> n < 16 ^ k \<Longrightarrow> length (hexs n) \<le> k"
proof (induction k arbitrary: n)
  case (Suc k)
  show ?case
  proof (cases "n < 16")
    case False
    then have "n div 16 < 16 ^ k" "0 < k" using Suc.prems by (auto simp: less_mult_imp_div_less mult.commute intro: gr0I)
    then show ?thesis using Suc.IH [of "n div 16"] False by (subst hexs.simps) simp
  qed (simp add: hexs.simps)
qed simp

lemma strtoul16_hexs:
  assumes "n < 2 ^ 64"
  shows "strtoul16 (hexs n @ crlf) = (n, crlf)"
proof -
  have all: "\<forall>c \<in> set (hexs n). c_isxdigit c \<and> \<not> is_cspace c \<and> c \<noteq> CHR ''-'' \<and> c \<noteq> CHR ''+'' \<and> c_tolower c \<noteq> CHR ''x''"
  proof
    fix c assume "c \<in> set (hexs n)"
    then obtain d where "d < 16" "c = hex_digit d" using hexs_digits by blast
    then show "c_isxdigit c \<and> \<not> is_cspace c \<and> c \<noteq> CHR ''-'' \<and> c \<noteq> CHR ''+'' \<and> c_tolower c \<noteq> CHR ''x''"
      using hex_digit_facts [of d] by simp
  qed
  have cr: "\<not> c_isxdigit (CHR 0x0D)" "c_tolower (CHR 0x0D) \<noteq> CHR ''x''" by code_simp+
  have "hexs n \<noteq> []" by simp
  then obtain d ds where h: "hexs n = d # ds" by (meson neq_Nil_conv)
  have d: "\<not> is_cspace d" "d \<noteq> CHR ''-''" "d \<noteq> CHR ''+''" using all by (simp_all add: h)
  have second: "c_tolower ((d # ds @ crlf) ! 1) \<noteq> CHR ''x''" using all cr(2) by (cases ds) (simp_all add: h)
  have w: "takeWhile c_isxdigit (d # ds @ crlf) = d # ds" "dropWhile c_isxdigit (d # ds @ crlf) = crlf"
    using all cr(1) takeWhile_append2 [of "d # ds" c_isxdigit crlf] dropWhile_append2 [of "d # ds" c_isxdigit crlf]
    by (simp_all add: h)
  have b: "dropWhile is_cspace (d # ds @ crlf) = d # ds @ crlf" using d(1) by simp
  have x: "skip_0x (d # ds @ crlf) = d # ds @ crlf" unfolding skip_0x_def using second by (simp only: simp_thms if_False)
  have v: "hex_val (d # ds) = n" using hex_val_hexs [of n] by (simp add: h)
  have "strtoul16 (d # ds @ crlf) = (n, crlf)"
    unfolding strtoul16_def Let_def b using d assms by (simp only: list.sel simp_thms if_False x w v list.distinct) simp
  then show ?thesis by (simp add: h)
qed

lemma read_chunk_size_stream:
  assumes "chunk_ready c" "body_stream c = hexs n @ crlf @ rest" "n < 2 ^ 64"
  obtains c' where "read_chunk_size c = (Some n, c')" "body_stream c' = rest" "chunk_on c c'"
proof -
  have "n < 16 ^ 16" using assms(3) by simp
  then have "length (hexs n) \<le> 16" by (intro length_hexs) auto
  moreover have "list_all c_isalnum (hexs n)" using hexs_digits hex_digit_facts by (fastforce simp: list_all_iff)
  ultimately obtain c' where "read_chunk_line 63 [] c = (Some (hexs n @ crlf), c')" "body_stream c' = rest" "chunk_on c c'"
    using read_chunk_line_stream [OF assms(1,2), of 63 "[]"] by auto
  then show thesis using that strtoul16_hexs [OF assms(3)] by (simp add: read_chunk_size_def)
qed

lemma read_chunks_stream:
  assumes "chunk_ready c" "chunk_remainder c = 0" "body_stream c = chunked_body cs @ rest" "[] \<notin> set cs"
    "length (concat cs) < len" "len \<le> INT_MAX"
  shows "\<exists>c'. read_chunks len (int (length dst)) dst c = Inr (int (length (dst @ concat cs)), dst @ concat cs, c') \<and>
     is_chunked c' = 2 \<and> body_stream c' = rest"
  using assms
proof (induction cs arbitrary: len dst c)
  case Nil
  have "body_stream c = hexs 0 @ crlf @ rest" using Nil.prems(3) by (simp add: chunked_body_def hexs.simps hex_digit_def)
  from read_chunk_size_stream [OF Nil.prems(1) this] obtain c' where c': "read_chunk_size c = (Some 0, c')" "body_stream c' = rest" by auto
  then show ?case using Nil.prems by (subst read_chunks.simps) simp
next
  case (Cons s cs)
  have s: "s \<noteq> []" "length s < len" "length s \<le> INT_MAX" using Cons.prems(4-6) by auto
  have "body_stream c = hexs (length s) @ crlf @ s @ crlf @ chunked_body cs @ rest" "length s < 2 ^ 64"
    using Cons.prems(3) s(3) by (simp_all add: chunked_body_def chunk_def INT_MAX_def)
  from read_chunk_size_stream [OF Cons.prems(1) this] obtain c1 where
    c1: "read_chunk_size c = (Some (length s), c1)" "body_stream c1 = s @ crlf @ chunked_body cs @ rest" "chunk_on c c1" .
  define c2 where "c2 = c1\<lparr>chunk_remainder := length s\<rparr>"
  have c2: "body_stream c2 = body_stream c1" "chunk_ready c2"
    using c1(3) by (simp_all add: c2_def chunk_on_def chunk_ready_def)
  obtain c3 where c3: "mg_read_inner (length s) (c2\<lparr>content_len := to_int64 (content_len c2 + int (length s))\<rparr>) = (int (length s), s, c3)"
    "body_stream c3 = crlf @ chunked_body cs @ rest" "chunk_on c2 c3"
    using read_more_stream [OF c2(2), of "length s"] s(3) by (auto simp: c2(1) c1(2))
  define c4 where "c4 = c3\<lparr>chunk_remainder := 0\<rparr>"
  have c4: "body_stream c4 = crlf @ chunked_body cs @ rest" "chunk_ready c4"
    using c3 by (simp_all add: c4_def chunk_on_def chunk_ready_def)
  obtain c5 where c5: "read_chunk_end c4 = (True, c5)" "body_stream c5 = chunked_body cs @ rest" "chunk_on c4 c5"
    using read_chunk_end_stream [OF c4(2,1)] .
  have rem3: "chunk_remainder c3 = length s" using c3(3) by (simp add: chunk_on_def c2_def)
  have "read_chunks len (int (length dst)) dst c = read_chunks len (int (length dst)) dst c2"
    using Cons.prems(2) s c1(1) by (subst read_chunks.simps) (simp add: c2_def)
  also have "\<dots> = read_chunks (len - length s) (int (length (dst @ s))) (dst @ s) c5"
    using s c3(1) rem3 c5(1) by (subst read_chunks.simps) (simp add: c2_def c4_def min_def Let_def)
  finally have step: "read_chunks len (int (length dst)) dst c = read_chunks (len - length s) (int (length (dst @ s))) (dst @ s) c5" .
  have "chunk_ready c5" "chunk_remainder c5 = 0" using c5(3) by (simp_all add: chunk_on_def c4_def)
  from Cons.IH [OF this c5(2), of "len - length s" "dst @ s"] show ?case
    using Cons.prems(4-6) step by auto
qed

section \<open>The properties\<close>

text \<open>
  Reading a body that is announced and comes is reading a stream. However the network cut the bytes
  and however much of them already lies in the buffer, two reads of \<open>m\<close> and \<open>n\<close> bytes store the next
  \<open>m\<close> and the \<open>n\<close> after them, report them all and leave the rest.
\<close>

theorem body_read_as_stream:
  assumes "is_chunked c = 0" "ready c (m + n)"
  shows "\<exists>c1 c2. mg_read_conn m c = Inr (int m, take m (body_stream c), c1) \<and>
     mg_read_conn n c1 = Inr (int n, drop m (take (m + n) (body_stream c)), c2) \<and> body_stream c2 = drop (m + n) (body_stream c)"
proof -
  obtain c1 c2 where pieces: "mg_read_inner m c = (int m, take m (body_stream c), c1)"
    "mg_read_inner n c1 = (int n, drop m (take (m + n) (body_stream c)), c2)" "body_stream c2 = drop (m + n) (body_stream c)"
    using body.get_pieces [OF assms(2)] by blast
  moreover have "is_chunked c1 = 0"
    using mg_read_inner_stream [OF body.can_less [OF assms(2)]] pieces(1) assms(1) by (auto simp: read_on_def)
  moreover have "min m INT_MAX = m" "min n INT_MAX = n" using assms(2) by (simp_all add: ready_def)
  ultimately show ?thesis using assms(1) by (simp add: mg_read_conn_def)
qed

definition sample_connection :: "arrival list \<Rightarrow> string \<Rightarrow> nat \<Rightarrow> int \<Rightarrow> connection" where
  "sample_connection as b k n =
     \<lparr>arrivals = as, is_ssl = True, stop_flag = False, request_timeout = 30000, late = False, conn_buf = b,
      data_len = length b, request_len = int k, content_len = n, consumed_content = 0, is_chunked = 0,
      chunk_remainder = 0, must_close = False, status_code = - 1, written = []\<rparr>"

lemma body_read_as_stream_witness:
  "\<exists>c1 c2. mg_read_conn 2 (sample_connection [Got False ''el'', Got False ''lo''] ''ABh'' 2 5) = Inr (2, ''he'', c1) \<and>
     mg_read_conn 3 c1 = Inr (3, ''llo'', c2)"
proof -
  let ?c = "sample_connection [Got False ''el'', Got False ''lo''] ''ABh'' 2 5"
  have s: "body_stream ?c = ''hello''" by (simp add: body_stream_def unread_buffer_def incoming_def sample_connection_def)
  have "is_chunked ?c = 0" "ready ?c (2 + 3)" using s by (simp_all add: ready_def INT_MAX_def sample_connection_def)
  from body_read_as_stream [OF this] s show ?thesis by (auto simp: numeral_eq_Suc)
qed

text \<open>
  C17. A chunked body is decoded to what was encoded: chunks of any number and size, none of them
  empty, cut by the network in any way, are read as the concatenation of the chunks, by a read with
  room for one byte more; the body is then marked as read, and what follows its last chunk line is
  left in the stream.
\<close>

theorem chunked_body_decoded:
  assumes "is_chunked c = 1" "chunk_ready c" "chunk_remainder c = 0"
    "body_stream c = chunked_body cs @ rest" "[] \<notin> set cs" "length (concat cs) < len" "len \<le> INT_MAX"
  shows "\<exists>c'. mg_read_conn len c = Inr (int (length (concat cs)), concat cs, c') \<and> is_chunked c' = 2 \<and> body_stream c' = rest"
  using read_chunks_stream [OF assms(2-7), of "[]"] assms(1,7) by (simp add: mg_read_conn_def)

lemma chunked_body_decoded_witness:
  "\<exists>c'. mg_read_conn 8 (sample_connection [Got False (''2'' @ crlf @ ''h''), Got False (''i'' @ crlf @ ''0'' @ crlf)] [] 0 0\<lparr>is_chunked := 1\<rparr>) =
     Inr (2, ''hi'', c')"
proof -
  let ?c = "sample_connection [Got False (''2'' @ crlf @ ''h''), Got False (''i'' @ crlf @ ''0'' @ crlf)] [] 0 0\<lparr>is_chunked := 1\<rparr>"
  have "body_stream ?c = chunked_body [''hi''] @ []"
    by (simp add: body_stream_def unread_buffer_def incoming_def sample_connection_def chunked_body_def chunk_def hexs.simps hex_digit_def)
  moreover have "chunk_ready ?c" using calculation
    by (simp add: chunk_ready_def sample_connection_def chunked_body_def chunk_def hexs.simps)
  ultimately show ?thesis
    using chunked_body_decoded [of ?c "[''hi'']" "[]" 8] by (auto simp: sample_connection_def INT_MAX_def)
qed

end
