(* ===== verification/Civetweb_Request_Correct.thy ===== *)
theory Civetweb_Request_Correct
  imports Civetweb_Request Civetweb_Io_Correct
begin

text \<open>
  What a client prints is what civetweb parses, whatever pieces it comes in; and a request whose
  target is an asterisk or another server makes the server read through a NULL pointer.
\<close>

section \<open>Printed requests\<close>

definition text_char :: "char \<Rightarrow> bool" where
  "text_char c \<longleftrightarrow> c_isprint c \<or> 128 \<le> code c"

lemma text_char_no_line_end: "text_char c \<Longrightarrow> c \<noteq> CHR 0x0D \<and> c \<noteq> CHR 0x0A \<and> c \<noteq> CHR 0x00"
  by (auto simp: text_char_def c_isprint_def code_def)

lemma text_no_nul: "list_all text_char w \<Longrightarrow> CHR 0x00 \<notin> set w"
  using text_char_no_line_end by (auto simp: list_all_iff)

fun header_line :: "string \<times> string \<Rightarrow> string" where
  "header_line (n, v) = n @ '': '' @ v"

fun header_ok :: "string \<times> string \<Rightarrow> bool" where
  "header_ok (n, v) \<longleftrightarrow> list_all text_char n \<and> CHR '':'' \<notin> set n \<and> list_all text_char v \<and> (v = [] \<or> hd v \<noteq> CHR '' '')"

definition print_headers :: "(string \<times> string) list \<Rightarrow> string" where
  "print_headers hs = concat (map (\<lambda>h. header_line h @ crlf) hs)"

definition print_request :: "string \<Rightarrow> string \<Rightarrow> (string \<times> string) list \<Rightarrow> string" where
  "print_request method uri hs = method @ '' '' @ uri @ '' HTTP/1.1'' @ crlf @ print_headers hs @ crlf"

definition request_ok :: "string \<Rightarrow> string \<Rightarrow> (string \<times> string) list \<Rightarrow> bool" where
  "request_ok method uri hs \<longleftrightarrow>
     is_valid_http_method method \<and> uri \<noteq> [] \<and> list_all text_char uri \<and> CHR '' '' \<notin> set uri \<and>
     list_all header_ok hs \<and> length hs \<le> 64"

lemma header_line_text: "header_ok h \<Longrightarrow> list_all text_char (header_line h) \<and> header_line h \<noteq> []"
  by (cases h) (auto simp: text_char_def c_isprint_def code_def)

section \<open>The end of a request\<close>

lemma request_len_text: "list_all text_char l \<Longrightarrow> t \<noteq> [] \<Longrightarrow> request_len_from i (l @ t) = request_len_from (i + length l) t"
proof (induction l arbitrary: i)
  case (Cons c l)
  obtain d s where t: "l @ t = d # s" using Cons.prems(2) by (cases "l @ t") auto
  have c: "c \<noteq> CHR 0x0A" "\<not> (\<not> c_isprint c \<and> code c < 128)"
    using Cons.prems(1) text_char_no_line_end [of c] by (auto simp: text_char_def)
  have "request_len_from i ((c # l) @ t) = request_len_from (Suc i) (l @ t)" using c by (auto simp: t)
  then show ?case using Cons by simp
qed simp

lemma request_len_line_end:
  assumes "t \<noteq> []" "text_char (hd t)"
  shows "request_len_from i (crlf @ t) = request_len_from (i + 2) t"
  using assms text_char_no_line_end [of "hd t"] by (cases t) auto

lemma request_len_end: "request_len_from i (crlf @ crlf @ t) = int i + 4"
  by simp

lemma request_len_headers:
  "list_all header_ok hs \<Longrightarrow>
     request_len_from i (crlf @ print_headers hs @ crlf @ t) = int i + 4 + int (length (print_headers hs))"
proof (induction hs arbitrary: i)
  case Nil
  then show ?case using request_len_end [of i t] by (simp add: print_headers_def)
next
  case (Cons h hs)
  let ?t = "crlf @ print_headers hs @ crlf @ t"
  have line: "list_all text_char (header_line h)" "header_line h \<noteq> []" using Cons.prems header_line_text by simp_all
  then have "text_char (hd (header_line h @ ?t))" by (cases "header_line h") auto
  then have "request_len_from i (crlf @ header_line h @ ?t) = request_len_from (i + 2) (header_line h @ ?t)"
    using line(2) by (intro request_len_line_end) auto
  also have "\<dots> = request_len_from (i + 2 + length (header_line h)) ?t" using line(1) by (intro request_len_text) auto
  also have "\<dots> = int (i + 2 + length (header_line h)) + 4 + int (length (print_headers hs))" using Cons by simp
  finally show ?case by (simp add: print_headers_def)
qed

lemma method_text: "is_valid_http_method m \<Longrightarrow> list_all text_char m \<and> m \<noteq> [] \<and> CHR '' '' \<notin> set m \<and> \<not> is_cspace (hd m)"
  by (auto simp: is_valid_http_method_def) (code_simp+)?

lemma get_request_len_printed:
  assumes "request_ok m u hs"
  shows "get_request_len (print_request m u hs @ t) = int (length (print_request m u hs))"
proof -
  have first: "list_all text_char (m @ '' '' @ u @ '' HTTP/1.1'')"
    using assms method_text [of m] by (auto simp: request_ok_def text_char_def c_isprint_def code_def)
  have "get_request_len (print_request m u hs @ t) = request_len_from 0 ((m @ '' '' @ u @ '' HTTP/1.1'') @ crlf @ print_headers hs @ crlf @ t)"
    by (simp add: get_request_len_def print_request_def)
  also have "\<dots> = int (0 + length (m @ '' '' @ u @ '' HTTP/1.1'')) + 4 + int (length (print_headers hs))"
    using assms by (subst request_len_text [OF first], simp, subst request_len_headers) (simp_all add: request_ok_def)
  finally show ?thesis by (simp add: print_request_def del: append.simps)
qed

text \<open>Bytes that follow do not change an answer, and it lies in the bytes scanned.\<close>

lemma request_len_append: "request_len_from i p \<noteq> 0 \<Longrightarrow> request_len_from i (p @ q) = request_len_from i p"
proof (induction i p rule: request_len_from.induct)
  case (1 i c d s)
  show ?case
  proof (cases "s = []")
    case True
    then show ?thesis using "1.prems" by (simp split: if_split_asm)
  next
    case False
    then have "hd (s @ q) = hd s" "s @ q \<noteq> []" by simp_all
    let ?bad = "\<not> c_isprint c \<and> c \<noteq> CHR 0x0D \<and> c \<noteq> CHR 0x0A \<and> code c < 128"
    let ?one = "c = CHR 0x0A \<and> d = CHR 0x0A"
    let ?two = "c = CHR 0x0A \<and> s \<noteq> [] \<and> d = CHR 0x0D \<and> hd s = CHR 0x0A"
    have unfold: "request_len_from i (c # d # s) =
        (if ?bad then - 1 else if ?one then int i + 2 else if ?two then int i + 3 else request_len_from (Suc i) (d # s))"
      "request_len_from i (c # d # s @ q) =
        (if ?bad then - 1 else if ?one then int i + 2 else if ?two then int i + 3 else request_len_from (Suc i) (d # s @ q))"
      using \<open>hd (s @ q) = hd s\<close> False by simp_all
    show ?thesis
    proof (cases "?bad \<or> ?one \<or> ?two")
      case True
      then show ?thesis unfolding append_Cons unfold by argo
    next
      case False
      then have n: "\<not> ?bad" "\<not> ?one" "\<not> ?two" by blast+
      have "request_len_from i (c # d # s) = request_len_from (Suc i) (d # s)" unfolding unfold(1) using n by (simp only: if_False)
      moreover have "request_len_from i (c # d # s @ q) = request_len_from (Suc i) (d # s @ q)" unfolding unfold(2) using n by (simp only: if_False)
      ultimately show ?thesis using "1.IH" [OF n] "1.prems" by (simp only: append_Cons simp_thms)
    qed
  qed
qed simp_all

lemma request_len_bound: "request_len_from i p \<le> int i + int (length p)"
proof (induction i p rule: request_len_from.induct)
  case (1 i c d s)
  have "s \<noteq> [] \<Longrightarrow> 1 \<le> int (length s)" by (cases s) simp_all
  then show ?case using "1.IH" unfolding request_len_from.simps list.size by (simp only: of_nat_Suc split: if_split) linarith
qed simp_all

lemma get_request_len_prefix:
  assumes "get_request_len head = int (length head)" "length p < length head" "head = p @ q"
  shows "get_request_len p = 0"
proof (rule ccontr)
  assume "get_request_len p \<noteq> 0"
  then have "int (length head) = get_request_len p" using assms(1,3) request_len_append [of 0 p q] by (simp add: get_request_len_def)
  then show False using assms(2) request_len_bound [of 0 p] by (simp add: get_request_len_def)
qed

section \<open>Parsing a printed request\<close>

lemma skip_word:
  assumes "\<forall>c \<in> set w. c \<notin> set ds" "CHR 0x00 \<notin> set w" "d \<in> set ds"
  shows "skip (w @ d # t) ds = (w, dropWhile (\<lambda>c. c \<in> set ds) t)"
proof -
  have "takeWhile (\<lambda>c. c \<notin> set ds) (w @ d # t) = w" "dropWhile (\<lambda>c. c \<notin> set ds) (w @ d # t) = d # t"
    using assms(1,3) by (simp_all add: takeWhile_append2 dropWhile_append2)
  moreover have "quoted_word ds (CHR 0x00) w (d # t) = (w, d # t)"
  proof -
    have "(w \<noteq> [] \<and> last w = CHR 0x00) = False" using assms(2) last_in_set [of w] by (metis (no_types))
    then show ?thesis by (subst quoted_word.simps) (simp only: if_False)
  qed
  ultimately show ?thesis unfolding skip_def skip_quoted_def by (simp only: prod.case list.case)
qed

lemma take_front: "take (length (x @ [y]) - 1) ((x @ [y]) @ t) = x"
  by simp

lemma split_crlf_value: "CHR 0x0D \<notin> set v \<Longrightarrow> split_crlf (v @ crlf @ t) = Some (v, t)"
proof (induction v)
  case (Cons c v)
  obtain d s where "v @ crlf @ t = d # s" by (cases "v @ crlf @ t") auto
  then show ?case using Cons by auto
qed simp

lemma parse_header_line:
  assumes "header_ok (n, v)"
  shows "parse_headers (Suc k) (header_line (n, v) @ crlf @ t) =
     (n, Some v) # (if t \<noteq> [] \<and> hd t = CHR 0x0D then [] else parse_headers k t)"
proof -
  have n: "\<forall>c \<in> set n. c \<noteq> CHR '':'' \<and> c \<noteq> CHR 0x0D" and v: "CHR 0x0D \<notin> set v"
    using assms text_char_no_line_end by (auto simp: list_all_iff)
  have "takeWhile (\<lambda>c. c \<noteq> CHR '':'' \<and> c \<noteq> CHR 0x0D) (n @ CHR '':'' # CHR '' '' # v @ crlf @ t) = n"
    using n by (simp add: takeWhile_append2)
  moreover have "dropWhile (\<lambda>c. c = CHR '' '') (CHR '' '' # v @ crlf @ t) = v @ crlf @ t" using assms by (cases v) auto
  ultimately show ?thesis using split_crlf_value [OF v, of t] by (simp add: Let_def)
qed

lemma printed_header_start:
  assumes "list_all header_ok hs" "hs \<noteq> []"
  shows "print_headers hs \<noteq> [] \<and> text_char (hd (print_headers hs))"
proof -
  obtain h hs' where hs: "hs = h # hs'" using assms(2) by (cases hs) auto
  then obtain c l where "header_line h = c # l" "text_char c"
    using assms(1) header_line_text [of h] by (cases "header_line h") auto
  then show ?thesis by (simp add: hs print_headers_def)
qed

lemma parse_headers_printed:
  "list_all header_ok hs \<Longrightarrow> hs \<noteq> [] \<Longrightarrow> length hs \<le> k \<Longrightarrow>
     parse_headers k (print_headers hs @ [CHR 0x0D]) = map (\<lambda>(n, v). (n, Some v)) hs"
proof (induction hs arbitrary: k)
  case (Cons h hs)
  obtain n v where h: "h = (n, v)" by (cases h)
  obtain j where k: "k = Suc j" using Cons.prems(3) by (cases k) auto
  have "parse_headers k (print_headers (h # hs) @ [CHR 0x0D]) =
      (n, Some v) # (if hd (print_headers hs @ [CHR 0x0D]) = CHR 0x0D then [] else parse_headers j (print_headers hs @ [CHR 0x0D]))"
    using parse_header_line [of n v j "print_headers hs @ [CHR 0x0D]"] Cons.prems(1) by (simp add: print_headers_def h k)
  moreover have "hd (print_headers hs @ [CHR 0x0D]) \<noteq> CHR 0x0D" if "hs \<noteq> []"
    using printed_header_start [OF _ that] Cons.prems(1) text_char_no_line_end by (cases "print_headers hs") auto
  ultimately show ?case using Cons by (cases "hs = []") (simp_all add: print_headers_def h k)
qed simp

lemma printed_request_parse:
  assumes "request_ok m u hs"
  shows "parse_http_message (print_request m u hs @ t) =
     (int (length (print_request m u hs)),
      no_request\<lparr>request_method := m, request_uri := u, http_version := ''1.1'', http_headers := map (\<lambda>(n, v). (n, Some v)) hs\<rparr>)"
proof -
  let ?p = "print_request m u hs"
  let ?s = "m @ CHR '' '' # u @ CHR '' '' # ''HTTP/1.1'' @ CHR 0x0D # CHR 0x0A # print_headers hs @ [CHR 0x0D]"
  let ?v = "''HTTP/1.1'' @ CHR 0x0D # CHR 0x0A # print_headers hs @ [CHR 0x0D]"
  let ?u = "u @ CHR '' '' # ?v"
  have ok: "is_valid_http_method m" "u \<noteq> []" "list_all text_char u" "CHR '' '' \<notin> set u" "list_all header_ok hs" "length hs \<le> 64"
    using assms by (simp_all add: request_ok_def)
  have m: "list_all text_char m" "m \<noteq> []" "CHR '' '' \<notin> set m" "\<not> is_cspace (hd m)" using method_text [OF ok(1)] by auto
  have len: "get_request_len (?p @ t) = int (length ?p)" using assms by (rule get_request_len_printed)
  have pos: "0 < length ?p" by (simp add: print_request_def)
  have p: "?p = ?s @ [CHR 0x0A]" by (simp add: print_request_def)
  have "take (length ?p - 1) (?p @ t) = ?s" unfolding p by (rule take_front)
  moreover have "dropWhile is_cspace ?s = ?s" using m(2,4) by (cases m) auto
  moreover have "skip ?s '' '' = (m, ?u)"
  proof -
    have "skip ?s '' '' = (m, dropWhile (\<lambda>c. c \<in> set '' '') ?u)"
      using m(3) text_no_nul [OF m(1)] by (intro skip_word) auto
    moreover have "dropWhile (\<lambda>c. c \<in> set '' '') ?u = ?u" using ok(2,4) by (cases u) auto
    ultimately show ?thesis by simp
  qed
  moreover have "skip ?u '' '' = (u, ?v)"
  proof -
    have "skip ?u '' '' = (u, dropWhile (\<lambda>c. c \<in> set '' '') ?v)"
      using ok(4) text_no_nul [OF ok(3)] by (intro skip_word) auto
    then show ?thesis by simp
  qed
  moreover have "skip ?v crlf = (''HTTP/1.1'', dropWhile (\<lambda>c. c \<in> set crlf) (CHR 0x0A # print_headers hs @ [CHR 0x0D]))"
    by (rule skip_word) auto
  moreover have "parse_http_headers (dropWhile (\<lambda>c. c \<in> set crlf) (CHR 0x0A # print_headers hs @ [CHR 0x0D])) = map (\<lambda>(n, v). (n, Some v)) hs"
  proof (cases "hs = []")
    case True
    have "parse_headers k [] = []" for k by (cases k) simp_all
    then show ?thesis by (simp add: True print_headers_def parse_http_headers_def)
  next
    case False
    then have "dropWhile (\<lambda>c. c \<in> set crlf) (CHR 0x0A # print_headers hs @ [CHR 0x0D]) = print_headers hs @ [CHR 0x0D]"
      using printed_header_start [OF ok(5)] text_char_no_line_end by (cases "print_headers hs") auto
    then show ?thesis using parse_headers_printed [OF ok(5) False ok(6)] by (simp add: parse_http_headers_def)
  qed
  ultimately show ?thesis using pos ok(1) by (simp add: parse_http_message_def len nat_diff_distrib Let_def)
qed

text \<open>
  C11. A request a client prints is parsed back. For every method civetweb knows, every target without
  blanks and control characters and up to 64 headers, the printed request is found complete whatever
  follows it in the buffer, with the method, the target, the version and the headers that were printed.
\<close>

theorem printed_request_parsed:
  assumes "request_ok m u hs"
  shows "parse_http_message (print_request m u hs @ t) =
     (int (length (print_request m u hs)),
      no_request\<lparr>request_method := m, request_uri := u, http_version := ''1.1'', http_headers := map (\<lambda>(n, v). (n, Some v)) hs\<rparr>)"
  using assms by (rule printed_request_parse)

lemma printed_request_parsed_witness:
  "parse_http_message (print_request ''POST'' ''/'' [(''Host'', ''a''), (''Content-Length'', ''2'')] @ ''hi'') =
     (int (length (print_request ''POST'' ''/'' [(''Host'', ''a''), (''Content-Length'', ''2'')])),
      no_request\<lparr>request_method := ''POST'', request_uri := ''/'', http_version := ''1.1'',
        http_headers := [(''Host'', Some ''a''), (''Content-Length'', Some ''2'')]\<rparr>)"
proof -
  have "request_ok ''POST'' ''/'' [(''Host'', ''a''), (''Content-Length'', ''2'')]" by code_simp
  from printed_request_parsed [OF this] show ?thesis by simp
qed

section \<open>Fetching a request\<close>

text \<open>Reading a request changes what has arrived and the buffer only.\<close>

definition fetched :: "connection \<Rightarrow> connection \<Rightarrow> bool" where
  "fetched c c' \<longleftrightarrow> c' = c\<lparr>arrivals := arrivals c', late := late c', conn_buf := conn_buf c'\<rparr>"

lemma fetched_refl [simp]: "fetched c c"
  by (simp add: fetched_def)

lemma fetched_trans: "fetched c c' \<Longrightarrow> fetched c' c'' \<Longrightarrow> fetched c c''"
  by (cases c; cases c'; cases c'') (simp add: fetched_def)

lemma fetched_fields:
  "fetched c c' \<Longrightarrow>
     is_ssl c' = is_ssl c \<and> stop_flag c' = stop_flag c \<and> request_timeout c' = request_timeout c \<and> data_len c' = data_len c \<and>
     request_len c' = request_len c \<and> content_len c' = content_len c \<and> consumed_content c' = consumed_content c \<and>
     is_chunked c' = is_chunked c \<and> chunk_remainder c' = chunk_remainder c \<and> must_close c' = must_close c \<and>
     status_code c' = status_code c \<and> written c' = written c"
  by (cases c; cases c') (simp add: fetched_def)

lemma read_on_fetched:
  assumes "read_on c 0 c'"
  shows "fetched c c' \<and> conn_buf c' = conn_buf c"
proof (cases c; cases c')
qed (use assms in \<open>simp add: read_on_def same_request_def fetched_def\<close>)

lemma read_request_loop_stream:
  assumes "take nread (conn_buf c) @ incoming c = head @ rest" "get_request_len head = int (length head)" "0 < length head"
    "nread \<le> length (conn_buf c)" "length head \<le> length (conn_buf c)" "\<not> stop_flag c" "\<not> late c"
    "reqlen = get_request_len (take nread (conn_buf c))" "bufsiz = length (conn_buf c)"
  shows "\<exists>nread' c'. read_request_loop bufsiz nread reqlen n c = (int (length head), nread', c') \<and>
     length head \<le> nread' \<and> nread' \<le> bufsiz \<and> length (conn_buf c') = bufsiz \<and>
     take nread' (conn_buf c') @ incoming c' = head @ rest \<and> fetched c c'"
  using assms
proof (induction "bufsiz - nread" arbitrary: nread reqlen n c rule: less_induct)
  case less
  show ?case
  proof (cases "length head \<le> nread")
    case True
    have "take (length head) (take nread (conn_buf c) @ incoming c) = head" by (simp add: less.prems(1))
    then have "take (length head) (take nread (conn_buf c)) = head" using True less.prems(4) by (simp add: min_absorb1)
    then obtain q where "take nread (conn_buf c) = head @ q" by (metis append_take_drop_id)
    then have "reqlen = int (length head)"
      using less.prems(2,3,8) request_len_append [of 0 head q] by (simp add: get_request_len_def)
    then show ?thesis using less.prems True by (subst read_request_loop.simps) (simp add: Let_def)
  next
    case False
    let ?p = "take nread (conn_buf c)"
    have lenp: "length ?p = nread" using less.prems(4) by simp
    have "take nread (?p @ incoming c) = take nread (head @ rest)" by (simp only: less.prems(1))
    then have "take nread head = ?p" using lenp False by simp
    then have "head = ?p @ drop nread head" using append_take_drop_id [of nread head] by simp
    then have r0: "reqlen = 0" using get_request_len_prefix [OF less.prems(2)] lenp False less.prems(8) by (metis not_le)
    have "incoming c \<noteq> []" using arg_cong [OF less.prems(1), of length] lenp False by auto
    moreover have "0 < bufsiz - nread" using False less.prems(5,9) by simp
    ultimately obtain s c1 where p: "pull (bufsiz - nread) c = (Some s, c1)" and s: "s \<noteq> []" "length s \<le> bufsiz - nread"
      "incoming c = s @ incoming c1" and on: "read_on c 0 c1" and late: "\<not> late c1" by (elim pull_stream)
    define buf where "buf = store_at nread s (conn_buf c)"
    define c2 where "c2 = c1\<lparr>conn_buf := buf\<rparr>"
    have lenbuf: "length buf = bufsiz" using s(2) less.prems(4,9) False by (simp add: buf_def store_at_def)
    have tk: "take (nread + length s) buf = ?p @ s" using lenp by (simp add: buf_def store_at_def)
    have in2: "incoming c2 = incoming c1" by (simp add: c2_def incoming_def)
    have f1: "fetched c c1" using read_on_fetched [OF on] by simp
    then have f2: "fetched c c2" by (cases c; cases c1) (simp add: fetched_def c2_def)
    have "\<exists>nread' c'. read_request_loop bufsiz (nread + length s) (get_request_len (take (nread + length s) buf)) (int (length s)) c2 =
        (int (length head), nread', c') \<and>
       length head \<le> nread' \<and> nread' \<le> bufsiz \<and> length (conn_buf c') = bufsiz \<and>
       take nread' (conn_buf c') @ incoming c' = head @ rest \<and> fetched c2 c'"
    proof (rule less.hyps)
      show "bufsiz - (nread + length s) < bufsiz - nread" using s(1) \<open>0 < bufsiz - nread\<close> by (intro diff_less_mono2) auto
      show "take (nread + length s) (conn_buf c2) @ incoming c2 = head @ rest"
        using less.prems(1) s(3) in2 tk by (simp add: c2_def)
      show "\<not> stop_flag c2" "\<not> late c2" using fetched_fields [OF f2] less.prems(6) late by (simp_all add: c2_def)
      show "nread + length s \<le> length (conn_buf c2)" "length head \<le> length (conn_buf c2)" "bufsiz = length (conn_buf c2)"
        "get_request_len (take (nread + length s) buf) = get_request_len (take (nread + length s) (conn_buf c2))"
        using s(2) lenbuf less.prems(5,9) \<open>0 < bufsiz - nread\<close> by (simp_all add: c2_def)
    qed (use less.prems in simp_all)
    moreover have "conn_buf c1 = conn_buf c" using read_on_fetched [OF on] by simp
    then have "read_request_loop bufsiz nread reqlen n c =
        read_request_loop bufsiz (nread + length s) (get_request_len (take (nread + length s) buf)) (int (length s)) c2"
      using r0 p s(1) less.prems(6,7) \<open>0 < bufsiz - nread\<close> by (subst read_request_loop.simps) (simp add: Let_def buf_def c2_def)
    ultimately show ?thesis using fetched_trans [OF f2] by fastforce
  qed
qed

definition printed_info :: "string \<Rightarrow> string \<Rightarrow> (string \<times> string) list \<Rightarrow> request_info" where
  "printed_info m u hs =
     no_request\<lparr>request_method := m, request_uri := u, http_version := ''1.1'', http_headers := map (\<lambda>(n, v). (n, Some v)) hs\<rparr>"

text \<open>A printed request comes first on the connection and fits into the buffer.\<close>

definition comes_first :: "string \<Rightarrow> string \<Rightarrow> (string \<times> string) list \<Rightarrow> string \<Rightarrow> connection \<Rightarrow> bool" where
  "comes_first m u hs rest c \<longleftrightarrow>
     request_ok m u hs \<and> incoming c = print_request m u hs @ rest \<and>
     length (print_request m u hs) \<le> length (conn_buf c) \<and> \<not> stop_flag c"

lemma read_request_printed:
  assumes "comes_first m u hs rest c" "data_len c = 0"
  obtains nread c' where "read_request c = (int (length (print_request m u hs)), nread, c')"
    "length (print_request m u hs) \<le> nread" "nread \<le> length (conn_buf c')"
    "take nread (conn_buf c') @ incoming c' = print_request m u hs @ rest" "fetched c c'"
proof -
  let ?p = "print_request m u hs" and ?c = "c\<lparr>late := False\<rparr>"
  have len: "get_request_len ?p = int (length ?p)" "0 < length ?p"
    using get_request_len_printed [of m u hs "[]"] assms(1) by (simp_all add: comes_first_def print_request_def)
  have in0: "incoming ?c = incoming c" by (simp add: incoming_def)
  obtain nread c' where r: "read_request_loop (length (conn_buf ?c)) 0 (get_request_len []) 0 ?c = (int (length ?p), nread, c')"
    "length ?p \<le> nread \<and> nread \<le> length (conn_buf ?c) \<and> length (conn_buf c') = length (conn_buf ?c) \<and>
     take nread (conn_buf c') @ incoming c' = ?p @ rest \<and> fetched ?c c'"
    using read_request_loop_stream [of 0 ?c ?p rest "get_request_len []" "length (conn_buf ?c)" 0] assms(1) len
    by (auto simp: comes_first_def in0)
  moreover have "fetched c ?c" by (simp add: fetched_def)
  ultimately show thesis using that [of nread c'] assms(2) fetched_trans [of c ?c c'] by (simp add: read_request_def)
qed

text \<open>So the request is accepted, with the length of the body as its headers give it, and the body is next.\<close>

lemma getreq_printed:
  assumes "comes_first m u hs rest c"
  obtains c' where "getreq c = length_of_body (printed_info m u hs) c'"
    "body_stream c' = rest" "consumed_content c' = 0" "is_chunked c' = 0" "0 \<le> request_len c'" "data_len c' \<le> length (conn_buf c')"
    "is_ssl c' = is_ssl c" "written c' = written c" "\<not> must_close c'"
proof -
  let ?p = "print_request m u hs" and ?r = "reset_per_request_attributes c"
  have "comes_first m u hs rest ?r" "data_len ?r = 0"
    using assms by (auto simp: comes_first_def reset_per_request_attributes_def incoming_def)
  from read_request_printed [OF this] obtain nread c1 where
    c1: "read_request ?r = (int (length ?p), nread, c1)" "length ?p \<le> nread" "nread \<le> length (conn_buf c1)"
      "take nread (conn_buf c1) @ incoming c1 = ?p @ rest" "fetched ?r c1" .
  let ?c = "c1\<lparr>data_len := nread, request_len := int (length ?p)\<rparr>"
  have "take (length ?p) (take nread (conn_buf c1) @ incoming c1) = ?p" by (simp add: c1(4))
  then have "take (length ?p) (conn_buf c1) = ?p" using c1(2,3) by (simp add: min_absorb1)
  then have "conn_buf c1 = ?p @ drop (length ?p) (conn_buf c1)" by (metis append_take_drop_id)
  then have "parse_http_message (conn_buf c1) = (int (length ?p), printed_info m u hs)"
    using printed_request_parse [of m u hs] assms by (metis comes_first_def printed_info_def)
  moreover have pos: "0 < length ?p" by (simp add: print_request_def)
  moreover have f: "consumed_content c1 = 0 \<and> is_chunked c1 = 0 \<and> is_ssl c1 = is_ssl c \<and> written c1 = written c \<and> \<not> must_close c1"
    using fetched_fields [OF c1(5)] by (simp add: reset_per_request_attributes_def)
  moreover have "body_stream ?c = rest"
  proof -
    have "drop (length ?p) (take nread (conn_buf c1) @ incoming c1) = drop (length ?p) (take nread (conn_buf c1)) @ incoming c1"
      using c1(2,3) by simp
    then have "drop (length ?p) (take nread (conn_buf c1)) @ incoming c1 = rest" by (simp add: c1(4))
    moreover have "incoming ?c = incoming c1" by (simp add: incoming_def)
    ultimately show ?thesis using f by (simp add: body_stream_def unread_buffer_def)
  qed
  ultimately show thesis using that [of ?c] c1(1-3)
    by (simp add: getreq_def Let_def)
qed

end
