(* ===== verification/Wiring_Admin_Http.thy ===== *)
theory Wiring_Admin_Http
  imports Civetweb_Request_Correct Wiring_Admin_Correct
begin

text \<open>
  The handler of the wiring admin behind the web server it is built with: from the bytes a client
  sends to the receive callback and the bytes handed back.
\<close>

section \<open>The handler on a connection\<close>

text \<open>
  \<^verbatim>\<open>wiringAdmin_callback\<close> reads the body of a POST request with \<^verbatim>\<open>mg_read\<close>, up to the length it takes
  from the request; \<open>garbage\<close> is what the memory for it held before.
\<close>

definition handled_request :: "string \<Rightarrow> string \<Rightarrow> request_info \<Rightarrow> http_request" where
  "handled_request body garbage ri =
     \<lparr>req_uri = local_uri ri, req_method = request_method ri, content_length = ri_content_length ri,
      mg_read = body, fresh = garbage\<rparr>"

definition wa_begin_request :: "wa_env \<Rightarrow> string \<Rightarrow> wiring_admin begin_request" where
  "wa_begin_request env garbage c ri a =
     rbind (if local_uri ri \<noteq> None \<and> request_method ri = ''POST''
            then mg_read_conn (unat (word_of_int (ri_content_length ri) :: 64 word)) c else Inr (0, [], c)) (\<lambda>(n, body, c).
     rbind (wiringAdmin_callback env (handled_request body garbage ri) a) (\<lambda>(result, out, a).
       Inr (result, write_text out c, a)))"

text \<open>Reading a body fails in one way only: a write outside the destination.\<close>

lemma read_chunks_fault: "read_chunks len all_read dst c = Inl e \<Longrightarrow> e = BufferOverflow"
proof (induction "2 * len + (if chunk_remainder c = 0 then 1 else 0)" arbitrary: len all_read dst c rule: less_induct)
  case less
  have IH: "read_chunks len' r' dst' c' = Inl e \<Longrightarrow>
      2 * len' + (if chunk_remainder c' = 0 then 1 else 0) < 2 * len + (if chunk_remainder c = 0 then 1 else 0) \<Longrightarrow> e = BufferOverflow"
    for len' r' dst' c' using less.hyps by blast
  from less.prems show ?case
    by (subst (asm) read_chunks.simps)
      (auto simp: Let_def split: if_split_asm prod.split_asm option.split_asm dest!: IH)
qed

lemma mg_read_conn_fault: "mg_read_conn len c = Inl e \<Longrightarrow> e = BufferOverflow"
  by (auto simp: mg_read_conn_def split: if_split_asm dest: read_chunks_fault)

section \<open>Requests that reach the handler\<close>

lemma split_query_fields:
  "request_method (split_query ri) = request_method ri \<and> ri_content_length (split_query ri) = ri_content_length ri \<and>
   (local_uri (split_query ri) = None \<longleftrightarrow> local_uri ri = None)"
  by (simp add: split_query_def Let_def split: option.split)

lemma handle_request_local:
  assumes "local_uri ri = Some l" "is_ssl c"
  obtains ri' l' where "request_method ri' = request_method ri" "ri_content_length ri' = ri_content_length ri" "local_uri ri' = Some l'"
    "handle_request srv cl f ri c s =
       rbind (f c ri' s) (\<lambda>(i, c, s). if 0 < i then Inr (True, ri', c\<lparr>status_code := i\<rparr>, s) else Inr (i \<noteq> 0, ri', c, s))"
proof -
  obtain k where k: "local_uri (split_query ri) = Some k" using assms(1) split_query_fields [of ri] by (cases "local_uri (split_query ri)") auto
  let ?l = "remove_double_dots_and_double_slashes (if should_decode_url srv
     then takeWhile (\<lambda>c. c \<noteq> CHR 0x00) (fst (mg_url_decode k (length k + 1) False)) else k)"
  let ?ri = "(split_query ri)\<lparr>local_uri := Some ?l\<rparr>"
  show thesis
  proof (rule that [of ?ri ?l])
    show "handle_request srv cl f ri c s =
       rbind (f c ?ri s) (\<lambda>(i, c, s). if 0 < i then Inr (True, ?ri, c\<lparr>status_code := i\<rparr>, s) else Inr (i \<noteq> 0, ?ri, c, s))"
      using assms(2) by (simp add: handle_request_def k Let_def)
  qed (simp_all add: split_query_fields)
qed

lemma relative_uri: "uri \<noteq> [] \<Longrightarrow> hd uri = CHR ''/'' \<Longrightarrow> local_uri_of srv cl uri = Some (Some uri)"
  by (cases uri) (auto simp: local_uri_of_def get_uri_type_def Let_def)

text \<open>A printed request for a path of this server goes to the handler as it was printed.\<close>

lemma serve_printed:
  assumes "comes_first m uri hs behind c" "hd uri = CHR ''/''" "is_ssl c"
    "getreq c = (Inr (printed_info m uri hs\<lparr>ri_content_length := n\<rparr>), c')" "is_ssl c'"
  obtains ri' l' where "request_method ri' = m" "ri_content_length ri' = n" "local_uri ri' = Some l'"
    "serve_request srv cl f c s =
       rbind (f c' ri' s) (\<lambda>(i, c, s). Inr (if i \<noteq> 0 then after_request srv ri' (if 0 < i then c\<lparr>status_code := i\<rparr> else c) s
                                                    else ToFiles ri' c s))"
proof -
  have uri: "uri \<noteq> []" using assms(1) by (simp add: comes_first_def request_ok_def)
  let ?ri = "printed_info m uri hs\<lparr>ri_content_length := n, local_uri := Some uri\<rparr>"
  obtain ri' l' where ri': "request_method ri' = request_method ?ri" "ri_content_length ri' = ri_content_length ?ri" "local_uri ri' = Some l'"
    "handle_request srv cl f ?ri c' s =
       rbind (f c' ri' s) (\<lambda>(i, c, s). if 0 < i then Inr (True, ri', c\<lparr>status_code := i\<rparr>, s) else Inr (i \<noteq> 0, ri', c, s))"
    using handle_request_local [of ?ri uri c' srv cl f s] assms(5) by auto
  have v: "http_version (printed_info m uri hs) = ''1.1''" "request_uri (printed_info m uri hs) = uri"
    by (simp_all add: printed_info_def)
  have "serve_request srv cl f c s =
      rbind (handle_request srv cl f ?ri c' s) (\<lambda>(handled, ri, c, s). Inr (if handled then after_request srv ri c s else ToFiles ri c s))"
    using relative_uri [OF uri assms(2)] by (simp add: serve_request_def assms(4) v Let_def)
  also have "\<dots> = rbind (f c' ri' s) (\<lambda>(i, c, s). Inr (if i \<noteq> 0 then after_request srv ri' (if 0 < i then c\<lparr>status_code := i\<rparr> else c) s
                                                    else ToFiles ri' c s))"
    unfolding ri'(4) rbind_assoc by (intro arg_cong2 [of _ _ _ _ rbind] refl ext) (auto split: prod.split)
  finally show thesis using that ri'(1-3) by (simp add: printed_info_def)
qed

lemma comes_first_again: "comes_first m uri hs behind c \<Longrightarrow> comes_first m uri hs behind (c\<lparr>data_len := 0\<rparr>)"
  by (auto simp: comes_first_def incoming_def)

lemma process_last:
  assumes "next_round (serve_request srv cl f (c\<lparr>data_len := 0\<rparr>) s) = None"
  shows "process_new_connection srv cl f c s = Some (serve_request srv cl f (c\<lparr>data_len := 0\<rparr>) s)"
  unfolding process_new_connection_def by (subst process_requests.simps) (simp add: assms Let_def)

lemma after_request_closes:
  assumes "config_of (srv_config srv) ''enable_keep_alive'' \<noteq> Some ''yes''"
  obtains c' where "after_request srv ri c s = Served False c' s" "written c' = written c"
  using that assms by (simp add: after_request_def Let_def)

text \<open>A request without a length is accepted as it is, whatever its method.\<close>

lemma getreq_no_length:
  assumes "comes_first m uri hs behind c" "get_header (printed_info m uri hs) ''Content-Length'' = None"
  obtains c' where "getreq c = (Inr (printed_info m uri hs\<lparr>ri_content_length := - 1\<rparr>), c')" "is_ssl c' = is_ssl c"
proof -
  have "printed_info m uri hs\<lparr>ri_content_length := - 1\<rparr> = printed_info m uri hs" by (simp add: printed_info_def no_request_def)
  moreover obtain c1 where "getreq c = length_of_body (printed_info m uri hs) c1" "is_ssl c1 = is_ssl c"
    by (rule getreq_printed [OF assms(1)])
  ultimately show thesis using that assms(2) by (auto simp: length_of_body_def split: if_split_asm)
qed

text \<open>
  C8. Three kinds of request that any client may send make the server of the wiring admin leave the
  defined behaviour of C; what happens then is up to the platform. A target \<^verbatim>\<open>*\<close> leaves the request
  without a local URI, and the length of NULL is taken. With a path as target and without
  \<^verbatim>\<open>Content-Length\<close>, a method other than POST makes the handler release a lock that it does not hold,
  and a POST, chunked or not, makes it write outside the buffer of its body.
\<close>

theorem requests_leave_defined_behaviour:
  assumes "comes_first m uri hs behind c" "is_ssl c" "\<not> exportedLock a"
    and "get_header (printed_info m uri hs) ''Content-Length'' = None"
  shows "(uri = ''*'' \<longrightarrow> process_new_connection srv cl (wa_begin_request env garbage) c a = Some (Inl NullPointer)) \<and>
     (hd uri = CHR ''/'' \<and> m \<noteq> ''POST'' \<longrightarrow>
        process_new_connection srv cl (wa_begin_request env garbage) c a = Some (Inl UnlockNotHeld)) \<and>
     (hd uri = CHR ''/'' \<and> m = ''POST'' \<longrightarrow>
        process_new_connection srv cl (wa_begin_request env garbage) c a = Some (Inl BufferOverflow))"
proof -
  let ?c = "c\<lparr>data_len := 0\<rparr>" and ?f = "wa_begin_request env garbage"
  have first: "comes_first m uri hs behind ?c" using assms(1) by (rule comes_first_again)
  obtain c1 where c1: "getreq ?c = (Inr (printed_info m uri hs\<lparr>ri_content_length := - 1\<rparr>), c1)" "is_ssl c1"
    using getreq_no_length [OF first assms(4)] assms(2) by auto
  have result: "process_new_connection srv cl ?f c a = Some (Inl e)" if "serve_request srv cl ?f ?c a = Inl e" for e
    using that process_last [of srv cl ?f c a] by (simp add: next_round_def)
  have star: "serve_request srv cl ?f ?c a = Inl NullPointer" if target: "uri = ''*''"
  proof -
    have "local_uri_of srv cl ''*'' = Some None" by (simp add: local_uri_of_def get_uri_type_def)
    moreover have "handle_request srv cl ?f (printed_info m uri hs\<lparr>ri_content_length := - 1, local_uri := None\<rparr>) c1 a = Inl NullPointer"
      using split_query_fields [of "printed_info m uri hs\<lparr>ri_content_length := - 1, local_uri := None\<rparr>"]
      by (simp add: handle_request_def Let_def)
    moreover have "http_version (printed_info m uri hs) = ''1.1''" "request_uri (printed_info m uri hs) = ''*''"
      using target by (simp_all add: printed_info_def)
    ultimately show ?thesis by (simp add: serve_request_def c1(1) Let_def)
  qed
  have "serve_request srv cl ?f ?c a = Inl (if m = ''POST'' then BufferOverflow else UnlockNotHeld)" if path: "hd uri = CHR ''/''"
  proof -
    obtain ri' l' where ri': "request_method ri' = m" "ri_content_length ri' = - 1" "local_uri ri' = Some l'"
      "serve_request srv cl ?f ?c a = rbind (?f c1 ri' a) (\<lambda>(i, c, s).
         Inr (if i \<noteq> 0 then after_request srv ri' (if 0 < i then c\<lparr>status_code := i\<rparr> else c) s else ToFiles ri' c s))"
      by (rule serve_printed [OF first path _ c1, of srv cl ?f a]) (use assms(2) in auto)
    have call: "wiringAdmin_callback env (handled_request body garbage ri') a =
        Inl (if m = ''POST'' then BufferOverflow else UnlockNotHeld)" for body
      using ri' assms(3) by (simp add: handled_request_def wiringAdmin_callback_def request_data_def unlockE_def)
    have "?f c1 ri' a = Inl (if m = ''POST'' then BufferOverflow else UnlockNotHeld)"
      by (cases "mg_read_conn (unat (word_of_int (- 1) :: 64 word)) c1")
        (auto simp: wa_begin_request_def ri'(1-3) call dest: mg_read_conn_fault)
    then show ?thesis by (simp add: ri'(4))
  qed
  then show ?thesis using result star by simp
qed

section \<open>Posted messages\<close>

text \<open>The length a request announces, and its body, as the handler reads it.\<close>

lemma getreq_with_length:
  assumes "comes_first m uri hs body c" "get_header (printed_info m uri hs) ''Content-Length'' = Some (dec (length body))"
    "length body \<le> INT_MAX"
  obtains c' c'' where "getreq c = (Inr (printed_info m uri hs\<lparr>ri_content_length := int (length body)\<rparr>), c')" "is_ssl c' = is_ssl c"
    "mg_read_conn (length body) c' = Inr (int (length body), body, c'')" "written c'' = written c"
proof -
  obtain c1 where c1: "getreq c = length_of_body (printed_info m uri hs) c1" "body_stream c1 = body" "consumed_content c1 = 0"
    "is_chunked c1 = 0" "0 \<le> request_len c1" "data_len c1 \<le> length (conn_buf c1)" "is_ssl c1 = is_ssl c" "written c1 = written c"
    by (rule getreq_printed [OF assms(1)])
  let ?c = "c1\<lparr>content_len := int (length body)\<rparr>"
  have num: "strtol10 (dec (length body)) = (int (length body), [], False)" "dec (length body) \<noteq> []"
    using assms(3) by (simp_all add: strtol10_dec INT_MAX_def)
  have "getreq c = (Inr (printed_info m uri hs\<lparr>ri_content_length := int (length body)\<rparr>), ?c)"
    using num(1) num(2) [symmetric] by (simp add: c1(1) length_of_body_def assms(2))
  moreover have "ready ?c (length body)" using c1 assms(3) by (simp add: ready_def)
  then obtain c2 where c2: "mg_read_inner (length body) ?c = (int (length body), body, c2)" "read_on ?c (int (length body)) c2"
    using mg_read_inner_stream [of ?c "length body"] c1(2) by auto
  moreover have "mg_read_conn (length body) ?c = Inr (int (length body), body, c2)"
    using c1(4) c2(1) assms(3) by (simp add: mg_read_conn_def)
  moreover have "written c2 = written c" using c2(2) c1(8) by (auto simp: read_on_def dest!: same_request_fields)
  ultimately show thesis using that c1(7) by simp
qed

lemma posted_request_handled:
  assumes "comes_first ''POST'' uri hs body c" "hd uri = CHR ''/''" "is_ssl c" "length body \<le> INT_MAX"
    "get_header (printed_info ''POST'' uri hs) ''Content-Length'' = Some (dec (length body))"
    "config_of (srv_config srv) ''enable_keep_alive'' \<noteq> Some ''yes''"
    "\<And>l. wiringAdmin_callback env \<lparr>req_uri = Some l, req_method = ''POST'', content_length = int (length body),
       mg_read = body, fresh = garbage\<rparr> a = Inr (1, out, a')"
  shows "\<exists>c'. process_new_connection srv cl (wa_begin_request env garbage) c a = Some (Inr (Served False c' a')) \<and>
     written c' = written c @ out"
proof -
  let ?c = "c\<lparr>data_len := 0\<rparr>" and ?f = "wa_begin_request env garbage"
  have first: "comes_first ''POST'' uri hs body ?c" using assms(1) by (rule comes_first_again)
  obtain c1 c2 where c1: "getreq ?c = (Inr (printed_info ''POST'' uri hs\<lparr>ri_content_length := int (length body)\<rparr>), c1)"
    "is_ssl c1 = is_ssl ?c" and c2: "mg_read_conn (length body) c1 = Inr (int (length body), body, c2)" "written c2 = written ?c"
    by (rule getreq_with_length [OF first assms(5,4)])
  obtain ri' l' where ri': "request_method ri' = ''POST''" "ri_content_length ri' = int (length body)" "local_uri ri' = Some l'"
    "serve_request srv cl ?f ?c a = rbind (?f c1 ri' a) (\<lambda>(i, c, s).
       Inr (if i \<noteq> 0 then after_request srv ri' (if 0 < i then c\<lparr>status_code := i\<rparr> else c) s else ToFiles ri' c s))"
    by (rule serve_printed [OF first assms(2) _ c1(1), of srv cl ?f a]) (use assms(3) c1(2) in auto)
  have len: "unat (word_of_int (int (length body)) :: 64 word) = length body"
    using assms(4) unat_word64 [of "length body"] by (simp add: INT_MAX_def)
  have "?f c1 ri' a = Inr (1, write_text out c2, a')"
    using assms(7) [of l'] by (simp add: wa_begin_request_def handled_request_def ri'(1-3) len c2(1) del: of_int_of_nat_eq)
  then have "serve_request srv cl ?f ?c a = Inr (after_request srv ri' ((write_text out c2)\<lparr>status_code := 1\<rparr>) a')"
    by (simp add: ri'(4))
  moreover obtain c' where "after_request srv ri' ((write_text out c2)\<lparr>status_code := 1\<rparr>) a' = Served False c' a'"
    "written c' = written ((write_text out c2)\<lparr>status_code := 1\<rparr>)"
    by (rule after_request_closes [OF assms(6)])
  ultimately show ?thesis
    using process_last [of srv cl ?f c a] c2(2) by (simp add: next_round_def write_text_def)
qed

text \<open>
  C7. A message posted to the web server of a wiring admin reaches the receiver as it was sent, and
  the answer of the receiver goes back. Whatever pieces the network delivers the request in, whatever
  the path and the other headers, the worker of the vendored server that takes the connection hands
  exactly the body to the first receiver, writes the headers of the response and the answer (or only
  the headers for no content), and closes the connection without waiting for another request; the
  wiring admin is as before, its lock free.
\<close>

theorem posted_message_answered:
  assumes "comes_first ''POST'' uri hs body c" "hd uri = CHR ''/''" "is_ssl c" "length body \<le> INT_MAX" "CHR 0x00 \<notin> set body"
    and "get_header (printed_info ''POST'' uri hs) ''Content-Length'' = Some (dec (length body))"
    and "config_of (srv_config srv) ''enable_keep_alive'' \<noteq> Some ''yes''" "receivers_inv a" "\<not> exportedLock a"
    and "wiringReceiveServices a = (wid, s # l) # m" "rs_receive env s body = (status, response)"
  shows "\<exists>c'. process_new_connection srv cl (wa_begin_request env garbage) c a = Some (Inr (Served False c' a)) \<and>
     written c' = written c @ (case response of
       Some t \<Rightarrow> if status = CELIX_SUCCESS then data_response_headers @ t else no_content_response_headers
     | None \<Rightarrow> no_content_response_headers)"
proof (rule posted_request_handled [OF assms(1-4,6,7)])
  fix p
  show "wiringAdmin_callback env \<lparr>req_uri = Some p, req_method = ''POST'', content_length = int (length body),
      mg_read = body, fresh = garbage\<rparr> a = Inr (1, case response of
       Some t \<Rightarrow> if status = CELIX_SUCCESS then data_response_headers @ t else no_content_response_headers
     | None \<Rightarrow> no_content_response_headers, a)"
    using assms(4,5,8-11)
      callback_answers [of "\<lparr>req_uri = Some p, req_method = ''POST'', content_length = int (length body), mg_read = body, fresh = garbage\<rparr>"]
    by (simp add: INT_MAX_def)
qed

definition http_server :: web_server where
  "http_server = \<lparr>srv_config = set_defaults (replicate (length config_options) None), srv_listening = [], srv_date = []\<rparr>"

definition http_client :: client_socket where
  "http_client = \<lparr>cl_ssl_redir = False, cl_local_port = 6789, cl_local_addr = []\<rparr>"

definition demo_connection :: "string list \<Rightarrow> connection" where
  "demo_connection pieces = sample_connection (map (Got False) pieces) (replicate 100 (CHR 0x00)) 0 0"

lemma posted_message_answered_witness:
  "\<exists>c'. process_new_connection http_server http_client (wa_begin_request demo_wa_env [])
      (demo_connection [''PO'', ''ST / HTTP/1.1'' @ crlf @ ''Content-Length: 2'' @ [CHR 0x0D], CHR 0x0A # crlf @ ''h'', ''i''])
      (demo_wa\<lparr>wiringReceiveServices := [(''uuid-1'', [8])]\<rparr>) =
    Some (Inr (Served False c' (demo_wa\<lparr>wiringReceiveServices := [(''uuid-1'', [8])]\<rparr>))) \<and>
    written c' = data_response_headers @ ''re:hi''"
proof -
  let ?c = "demo_connection [''PO'', ''ST / HTTP/1.1'' @ crlf @ ''Content-Length: 2'' @ [CHR 0x0D], CHR 0x0A # crlf @ ''h'', ''i'']"
  let ?a = "demo_wa\<lparr>wiringReceiveServices := [(''uuid-1'', [8])]\<rparr>" and ?hs = "[(''Content-Length'', ''2'')]"
  have "request_ok ''POST'' ''/'' ?hs" by code_simp
  moreover have "incoming ?c = print_request ''POST'' ''/'' ?hs @ ''hi''"
    by (simp add: demo_connection_def sample_connection_def incoming_def print_request_def print_headers_def)
  ultimately have "comes_first ''POST'' ''/'' ?hs ''hi'' ?c"
    by (simp add: comes_first_def demo_connection_def sample_connection_def print_request_def print_headers_def)
  moreover have "get_header (printed_info ''POST'' ''/'' ?hs) ''Content-Length'' = Some (dec (length ''hi''))"
    by code_simp
  moreover have "config_of (srv_config http_server) ''enable_keep_alive'' \<noteq> Some ''yes''" by code_simp
  moreover have "receivers_inv ?a" "\<not> exportedLock ?a" "rs_receive demo_wa_env 8 ''hi'' = (CELIX_SUCCESS, Some ''re:hi'')"
    by (simp_all add: demo_wa_defs receivers_inv_def)
  ultimately show ?thesis
    using posted_message_answered [of "''/''" ?hs "''hi''" ?c http_server ?a "''uuid-1''" 8 "[]" "[]" demo_wa_env CELIX_SUCCESS
        "Some ''re:hi''" http_client "[]"]
    by (simp add: demo_connection_def sample_connection_def INT_MAX_def)
qed

lemma requests_leave_defined_behaviour_witness:
  "process_new_connection http_server http_client (wa_begin_request demo_wa_env [])
     (demo_connection [''GET / HT'', ''TP/1.1'' @ crlf @ crlf]) demo_wa = Some (Inl UnlockNotHeld)"
proof -
  let ?c = "demo_connection [''GET / HT'', ''TP/1.1'' @ crlf @ crlf]"
  have "request_ok ''GET'' ''/'' []" by code_simp
  moreover have "incoming ?c = print_request ''GET'' ''/'' [] @ []"
    by (simp add: demo_connection_def sample_connection_def incoming_def print_request_def print_headers_def)
  ultimately have "comes_first ''GET'' ''/'' [] [] ?c"
    by (simp add: comes_first_def demo_connection_def sample_connection_def print_request_def print_headers_def)
  moreover have "get_header (printed_info ''GET'' ''/'' []) ''Content-Length'' = None" by code_simp
  moreover have "\<not> exportedLock demo_wa" "is_ssl ?c" by (simp_all add: demo_wa_defs demo_connection_def sample_connection_def)
  ultimately show ?thesis
    using requests_leave_defined_behaviour [of "''GET''" "''/''" "[]" "[]" ?c demo_wa http_server http_client demo_wa_env "[]"] by simp
qed

end
