(* ===== verification/Remote_Call.thy ===== *)
theory Remote_Call
  imports Rsa_Calls Wiring_Admin_Http
begin

text \<open>
  A remote call through both wiring admins: the remote service admin of the client sends over the
  send service of its wiring admin, the request is posted to the web server of the other wiring
  admin, whose handler gives it to the receiver, the remote service admin of the server.
\<close>

section \<open>The path of a request\<close>

text \<open>
  The receivers of the server's wiring admin are those that its remote service admin registered;
  \<open>x\<close> is the state in which the request arrives.
\<close>

definition rsa_server :: "wa_env \<Rightarrow> 'y rsa_env \<Rightarrow> 'y rsa_state \<Rightarrow> wa_env" where
  "rsa_server env srv x = env\<lparr>rs_receive := (\<lambda>s data. case remoteServiceAdmin_receive srv data x of
     Inr (st, r, x') \<Rightarrow> (st, r) | Inl f \<Rightarrow> (CELIX_ILLEGAL_STATE, None))\<rparr>"

definition post_request :: "string \<Rightarrow> string \<Rightarrow> string \<Rightarrow> http_request" where
  "post_request uri body garbage = \<lparr>req_uri = Some uri, req_method = ''POST'', content_length = int (length body),
     mg_read = body, fresh = garbage\<rparr>"

text \<open>A body that is posted to the URL of an admin is answered with status 200, in blocks.\<close>

definition comes_back ::
    "wiring_admin \<Rightarrow> string \<Rightarrow> string \<Rightarrow> string \<Rightarrow> (curl_options \<Rightarrow> post \<Rightarrow> curl_transfer) \<Rightarrow> string \<Rightarrow> string \<Rightarrow> bool" where
  "comes_back a cert key ca curl body answer \<longleftrightarrow>
     (let t = curl \<lparr>CURLOPT_URL = Some (wa_url a), CURLOPT_SSLCERT = cert, CURLOPT_SSLKEY = key, CURLOPT_CAINFO = ca,
                    CURLOPT_POSTFIELDSIZE = int (length body)\<rparr> \<lparr>readptr = body, post_size = int (length body)\<rparr>
      in ct_http_code t = 200 \<and> ct_res t = 0 \<and> ct_blocks t \<noteq> [] \<and> concat (ct_blocks t) = answer)"

text \<open>
  HTTP as the wiring admins rely on it: a body that is posted to the URL of an admin reaches the
  handler of its web server as a POST request with its length, and what the handler writes after the
  headers of an answer with data comes back with status 200, in blocks.
\<close>

definition http_serves :: "wa_env \<Rightarrow> wiring_admin \<Rightarrow> string \<Rightarrow> string \<Rightarrow> string \<Rightarrow> (curl_options \<Rightarrow> post \<Rightarrow> curl_transfer) \<Rightarrow> bool" where
  "http_serves env a cert key ca curl \<longleftrightarrow> (\<forall>body. length body < 2 ^ 31 \<longrightarrow> (\<exists>uri garbage. \<forall>answer a'.
     wiringAdmin_callback env (post_request uri body garbage) a = Inr (1, data_response_headers @ answer, a') \<longrightarrow> answer \<noteq> [] \<longrightarrow>
     comes_back a cert key ca curl body answer))"

text \<open>
  The half of it that is curl's and the network's: curl prints a POST request for a path with the
  length of the body in its headers and the body behind them, TLS with certificates that the admin
  accepts carries it to the server in some pieces, and what the server has written when it closes the
  connection is, behind the headers of an answer with data, given to the caller with status 200.
\<close>

definition posted :: "string \<Rightarrow> (string \<times> string) list \<Rightarrow> string \<Rightarrow> connection \<Rightarrow> bool" where
  "posted uri hs body c \<longleftrightarrow>
     comes_first ''POST'' uri hs body c \<and> hd uri = CHR ''/'' \<and> is_ssl c \<and> written c = [] \<and>
     get_header (printed_info ''POST'' uri hs) ''Content-Length'' = Some (dec (length body))"

definition curl_posts ::
    "web_server \<Rightarrow> client_socket \<Rightarrow> wa_env \<Rightarrow> wiring_admin \<Rightarrow> string \<Rightarrow> string \<Rightarrow> string \<Rightarrow> (curl_options \<Rightarrow> post \<Rightarrow> curl_transfer) \<Rightarrow> bool" where
  "curl_posts web cl env a cert key ca curl \<longleftrightarrow> (\<forall>body. length body < 2 ^ 31 \<longrightarrow> (\<exists>uri hs c garbage. posted uri hs body c \<and>
     (\<forall>c' a' answer. process_new_connection web cl (wa_begin_request env garbage) c a = Some (Inr (Served False c' a')) \<longrightarrow>
        written c' = data_response_headers @ answer \<longrightarrow> answer \<noteq> [] \<longrightarrow>
     comes_back a cert key ca curl body answer)))"

text \<open>The other half is civetweb's, with a configuration that does not keep connections.\<close>

lemma callback_any_uri:
  "wiringAdmin_callback env (post_request uri body garbage) a = wiringAdmin_callback env (post_request uri' body garbage) a"
proof -
  have "request_data (post_request uri body garbage) = request_data (post_request uri' body garbage)"
    by (simp add: request_data_def post_request_def Let_def cong: if_cong)
  then show ?thesis by (simp add: wiringAdmin_callback_def) (simp add: post_request_def)
qed

lemma civetweb_serves:
  assumes "curl_posts web cl env a cert key ca curl" "config_of (srv_config web) ''enable_keep_alive'' \<noteq> Some ''yes''"
  shows "http_serves env a cert key ca curl"
  unfolding http_serves_def
proof (intro allI impI)
  fix body :: string assume len: "length body < 2 ^ 31"
  then obtain uri hs c garbage where p: "posted uri hs body c" and returns: "\<forall>c' a' answer.
     process_new_connection web cl (wa_begin_request env garbage) c a = Some (Inr (Served False c' a')) \<longrightarrow>
        written c' = data_response_headers @ answer \<longrightarrow> answer \<noteq> [] \<longrightarrow>
     comes_back a cert key ca curl body answer"
    using assms(1) unfolding curl_posts_def by blast
  show "\<exists>uri garbage. \<forall>answer a'.
     wiringAdmin_callback env (post_request uri body garbage) a = Inr (1, data_response_headers @ answer, a') \<longrightarrow> answer \<noteq> [] \<longrightarrow>
     comes_back a cert key ca curl body answer"
  proof (rule exI [of _ uri], rule exI [of _ garbage], intro allI impI)
    fix answer a' assume answered: "wiringAdmin_callback env (post_request uri body garbage) a = Inr (1, data_response_headers @ answer, a')"
      and ne: "answer \<noteq> []"
    have "\<exists>c'. process_new_connection web cl (wa_begin_request env garbage) c a = Some (Inr (Served False c' a')) \<and>
        written c' = written c @ data_response_headers @ answer"
    proof (rule posted_request_handled [where uri = uri and hs = hs])
      show "length body \<le> INT_MAX" using len by (simp add: INT_MAX_def)
      show "wiringAdmin_callback env \<lparr>req_uri = Some l, req_method = ''POST'', content_length = int (length body),
          mg_read = body, fresh = garbage\<rparr> a = Inr (1, data_response_headers @ answer, a')" for l
        using answered callback_any_uri [of env uri body garbage a l] by (simp add: post_request_def)
    qed (use p assms(2) in \<open>simp_all add: posted_def\<close>)
    then show "comes_back a cert key ca curl body answer"
      using returns p ne by (auto simp: posted_def)
  qed
qed

text \<open>
  The send service \<open>q\<close> of the client's remote service admin is the one of its wiring admin for an
  imported wire; the server's remote service admin goes on from the state after the request.
\<close>

definition sends_over_http ::
    "'y rsa_state rsa_env \<Rightarrow> send_ptr \<Rightarrow> wa_env \<Rightarrow> wiring_send_service \<Rightarrow> 'w world \<Rightarrow> 'y rsa_env \<Rightarrow>
     ('y rsa_state \<Rightarrow> curl_options \<Rightarrow> post \<Rightarrow> curl_transfer) \<Rightarrow> bool" where
  "sends_over_http cli q env ss w srv net \<longleftrightarrow> (\<forall>t out x st reply rs st' r x'.
     wiringAdmin_send env (Some (net x)) True ss t w = Inr (st, Some reply, Some rs) \<longrightarrow>
     remoteServiceAdmin_receive srv t x = Inr (st', r, x') \<longrightarrow> send_service cli q (Some t) out x = (st, (reply, rs), x'))"

text \<open>The handler gives the request to the remote service admin and writes its response.\<close>

lemma handler_answers:
  assumes "remoteServiceAdmin_receive srv t x = Inr (CELIX_SUCCESS, Some response, x')"
    and "receivers_inv a" "wiringReceiveServices a \<noteq> []" "\<not> exportedLock a" "length t < 2 ^ 63" "CHR 0x00 \<notin> set t"
  shows "wiringAdmin_callback (rsa_server env srv x) (post_request uri t garbage) a = Inr (1, data_response_headers @ response, a)"
proof -
  obtain wid l m where m: "wiringReceiveServices a = (wid, l) # m" using assms(3) by (cases "wiringReceiveServices a") auto
  have "rs_receive (rsa_server env srv x) r t = (CELIX_SUCCESS, Some response)" for r
    using assms(1) by (simp add: rsa_server_def)
  then show ?thesis
    using callback_answers [of "post_request uri t garbage" uri a "rsa_server env srv x"] assms(2,4-6) m
    by (simp add: post_request_def)
qed

text \<open>So the send service answers what the remote service admin on the other side answered.\<close>

lemma http_answers:
  assumes "sends_over_http cli q env ss w srv net" "weds w (ss_endpoint ss) = Some p" "map_of p HTTP_URL_KEY = Some (wa_url a)"
    and "wa_trust env = Some tp" "tp_cert tp = Some cert" "tp_private_key tp = Some key" "tp_ca_cert tp = Some ca"
    and "http_serves (rsa_server senv srv x) a cert key ca (net x)"
    and "receivers_inv a" "wiringReceiveServices a \<noteq> []" "\<not> exportedLock a"
    and "length t < 2 ^ 31" "CHR 0x00 \<notin> set t" "response \<noteq> []" "length response < 2 ^ 31"
  shows "answers_call srv cli q t response x"
  unfolding answers_call_def
proof (intro allI impI)
  fix x' assume r: "remoteServiceAdmin_receive srv t x = Inr (CELIX_SUCCESS, Some response, x')"
  let ?t = "net x \<lparr>CURLOPT_URL = Some (wa_url a), CURLOPT_SSLCERT = cert, CURLOPT_SSLKEY = key, CURLOPT_CAINFO = ca,
      CURLOPT_POSTFIELDSIZE = int (length t)\<rparr> \<lparr>readptr = t, post_size = int (length t)\<rparr>"
  have "wiringAdmin_callback (rsa_server senv srv x) (post_request uri t garbage) a = Inr (1, data_response_headers @ response, a)" for uri garbage
    using handler_answers [OF r assms(9-11)] assms(12,13) by simp
  then have "ct_http_code ?t = 200" "ct_res ?t = 0" "ct_blocks ?t \<noteq> []" "concat (ct_blocks ?t) = response"
    using assms(8,12,14) unfolding http_serves_def comes_back_def Let_def by blast+
  then have "wiringAdmin_send env (Some (net x)) True ss t w = Inr (CELIX_SUCCESS, Some (Some response), Some 0)"
    using send_answers [OF assms(2-7,12) refl, of "net x"] assms(15) by simp
  then show "send_service cli q (Some t) (None, 0) x = (CELIX_SUCCESS, (Some response, 0), x')"
    using assms(1) r unfolding sends_over_http_def by blast
qed

section \<open>A call from proxy to service\<close>

text \<open>The client's wiring admin has a URL of the server's one, and the files of its trust manager.\<close>

definition posts_to :: "wa_env \<Rightarrow> 'w world \<Rightarrow> wiring_send_service \<Rightarrow> wiring_admin \<Rightarrow> string \<Rightarrow> string \<Rightarrow> string \<Rightarrow> bool" where
  "posts_to env w ss a cert key ca \<longleftrightarrow>
     (\<exists>p. weds w (ss_endpoint ss) = Some p \<and> map_of p HTTP_URL_KEY = Some (wa_url a)) \<and>
     (\<exists>tp. wa_trust env = Some tp \<and> tp_cert tp = Some cert \<and> tp_private_key tp = Some key \<and> tp_ca_cert tp = Some ca)"

definition serving :: "wiring_admin \<Rightarrow> bool" where
  "serving a \<longleftrightarrow> receivers_inv a \<and> wiringReceiveServices a \<noteq> [] \<and> \<not> exportedLock a"

text \<open>
  C1. A call through a proxy crosses both wiring admins: the request is packed, posted to the URL
  of the wire with the certificates of the trust manager, read and parsed by the web server of the
  other node, handed by its handler to the remote service admin there, which calls the export with
  the service id of the request; the response comes back through HTTP and is handed to the caller's
  method, and on the calling node nothing else has changed. Of HTTP only curl's half is a hypothesis.
\<close>

theorem call_crosses_http:
  assumes "rsa_locks_ok cli" "sendServicesLock \<notin> set (held s)" "sends_ok s" "wired_import s imp ep q"
    and "prepare args = (CELIX_SUCCESS, request)" "rsa_json_loads cli request = Some r"
    and "msg = JObject [(''service.id'', JInteger (sint (ep_serviceId ep))), (''request'', r)]"
    and "rsa_json_dumps cli msg = Some t" "rsa_json_loads srv t = Some msg"
    and "length t < 2 ^ 31" "CHR 0x00 \<notin> set t"
    and "sends_over_http cli q env ss w srv net" "posts_to env w ss a cert key ca" "serving a"
    and "\<forall>x. curl_posts web cl (rsa_server senv srv x) a cert key ca (net x)"
    and "sint (ep_serviceId ep) \<in> {- (2 ^ 31) ..< 2 ^ 31}" "exports_ok srv (outside s)"
    and "e \<in> set (all_exports (outside s))" "has_serviceId (outside s) (ep_serviceId ep) e"
    and "\<forall>f \<in> set (all_exports (outside s)). has_serviceId (outside s) (ep_serviceId ep) f \<longrightarrow> f = e"
    and "exps (outside s) e = Some reg"
    and "jsonRpc_call srv (er_intf reg) (er_service reg) (rsa_json_dumps srv r) (outside (outside s)) = (CELIX_SUCCESS, Some response, y)"
    and "response \<noteq> []" "length response < 2 ^ 31" "config_of (srv_config web) ''enable_keep_alive'' \<noteq> Some ''yes''"
  shows "importRegistration_proxyFunc prepare handle (\<lambda>f. remoteServiceAdmin_send cli) (Some imp) args s =
    Inr (Some 0, snd (handle (Some response) args), s\<lparr>outside := (outside s)\<lparr>outside := y\<rparr>\<rparr>)"
proof -
  obtain p tp where at: "weds w (ss_endpoint ss) = Some p" "map_of p HTTP_URL_KEY = Some (wa_url a)" "wa_trust env = Some tp"
      "tp_cert tp = Some cert" "tp_private_key tp = Some key" "tp_ca_cert tp = Some ca"
    using assms(13) by (auto simp: posts_to_def)
  have "answers_call srv cli q t response (outside s)"
    using http_answers [OF assms(12) at, where senv = senv and x = "outside s"]
      civetweb_serves [OF assms(15) [rule_format] assms(25), of "outside s"] assms(10,11,14,23,24) by (simp add: serving_def)
  from assms(1-9) this assms(16-22) show ?thesis by (rule proxy_call)
qed

text \<open>
  A pair of nodes for the witness: the request is printed with one header, comes to the server in two
  pieces, and what the server writes comes back without its headers.
\<close>

definition demo_posted :: "string \<Rightarrow> connection" where
  "demo_posted body = sample_connection
     [Got False (print_request ''POST'' ''/'' [(''Content-Length'', dec (length body))] @ body)] (replicate 100 (CHR 0x00)) 0 0"

definition demo_net :: "nat rsa_state \<Rightarrow> curl_options \<Rightarrow> post \<Rightarrow> curl_transfer" where
  "demo_net x opts body = (case process_new_connection http_server http_client
       (wa_begin_request (rsa_server demo_wa_env demo_rsa_env x) []) (demo_posted (readptr body))
       (demo_wa\<lparr>wiringReceiveServices := [(''w1'', [8])]\<rparr>) of
     Some (Inr (Served k c a)) \<Rightarrow>
       \<lparr>ct_blocks = [drop (length data_response_headers) (written c)], ct_res = 0, ct_http_code = 200\<rparr>
   | _ \<Rightarrow> \<lparr>ct_blocks = [], ct_res = 52, ct_http_code = 0\<rparr>)"

definition demo_http_world :: "unit world" where
  "demo_http_world = \<lparr>weds = [1 \<mapsto> [(HTTP_URL_KEY, wa_url demo_wa)]], rest = ()\<rparr>"

definition demo_http_client :: "nat rsa_state rsa_env" where
  "demo_http_client = demo_client_env\<lparr>send_service := (\<lambda>q d out x. case d of None \<Rightarrow> (CELIX_ILLEGAL_ARGUMENT, out, x)
     | Some t \<Rightarrow> (case (wiringAdmin_send demo_wa_env (Some (demo_net x)) True \<lparr>ss_endpoint = 1, ss_errorCount = 0\<rparr> t demo_http_world,
           remoteServiceAdmin_receive demo_rsa_env t x) of
         (Inr (st, Some reply, Some rs), Inr (st', r, x')) \<Rightarrow> (st, (reply, rs), x') | _ \<Rightarrow> (CELIX_ILLEGAL_STATE, out, x)))\<rparr>"

lemma demo_serving: "serving (demo_wa\<lparr>wiringReceiveServices := [(''w1'', [8])]\<rparr>)"
  by (simp add: serving_def receivers_inv_def demo_wa_def)

lemma demo_header:
  assumes "n < 2 ^ 31"
  shows "request_ok ''POST'' ''/'' [(''Content-Length'', dec n)]" "length (print_request ''POST'' ''/'' [(''Content-Length'', dec n)]) \<le> 100"
    "get_header (printed_info ''POST'' ''/'' [(''Content-Length'', dec n)]) ''Content-Length'' = Some (dec n)"
proof -
  have digits: "\<forall>c \<in> set (dec n). text_char c \<and> c \<noteq> CHR '' ''"
    using dec_all_digits [of n] by (auto simp: text_char_def c_isprint_def code_def is_digit_def)
  then have "dec n = [] \<or> hd (dec n) \<noteq> CHR '' ''" using hd_in_set by blast
  moreover have "list_all text_char ''/''" "list_all text_char ''Content-Length''" "is_valid_http_method ''POST''" by code_simp+
  ultimately show "request_ok ''POST'' ''/'' [(''Content-Length'', dec n)]"
    using digits by (simp add: request_ok_def list_all_iff)
  have "length (dec n) \<le> 10" using assms by (intro length_dec_le) auto
  then show "length (print_request ''POST'' ''/'' [(''Content-Length'', dec n)]) \<le> 100"
    by (simp add: print_request_def print_headers_def)
  have "mg_strcasecmp ''Content-Length'' ''Content-Length'' = 0" by code_simp
  then show "get_header (printed_info ''POST'' ''/'' [(''Content-Length'', dec n)]) ''Content-Length'' = Some (dec n)"
    by (simp add: get_header_def printed_info_def)
qed

lemma demo_posted_arrives:
  "length body < 2 ^ 31 \<Longrightarrow> posted ''/'' [(''Content-Length'', dec (length body))] body (demo_posted body)"
  using demo_header [of "length body"]
  by (simp add: posted_def comes_first_def demo_posted_def sample_connection_def incoming_def print_request_def)

lemma demo_net_answers:
  assumes "process_new_connection http_server http_client (wa_begin_request (rsa_server demo_wa_env demo_rsa_env x) []) (demo_posted body)
      (demo_wa\<lparr>wiringReceiveServices := [(''w1'', [8])]\<rparr>) = Some (Inr (Served k c' a'))"
    "written c' = data_response_headers @ answer"
  shows "comes_back a cert key ca (demo_net x) body answer"
  using assms by (simp add: comes_back_def demo_net_def Let_def)

lemma demo_http: "curl_posts http_server http_client (rsa_server demo_wa_env demo_rsa_env x)
    (demo_wa\<lparr>wiringReceiveServices := [(''w1'', [8])]\<rparr>) cert key ca (demo_net x)"
  unfolding curl_posts_def using demo_posted_arrives demo_net_answers by blast

lemma demo_posts:
  "\<exists>cert key ca. posts_to demo_wa_env demo_http_world \<lparr>ss_endpoint = 1, ss_errorCount = 0\<rparr>
     (demo_wa\<lparr>wiringReceiveServices := [(''w1'', [8])]\<rparr>) cert key ca"
  by (simp add: posts_to_def demo_http_world_def demo_wa_defs)

lemma demo_sends_http:
  "sends_over_http demo_http_client q demo_wa_env \<lparr>ss_endpoint = 1, ss_errorCount = 0\<rparr> demo_http_world demo_rsa_env demo_net"
  by (simp add: sends_over_http_def demo_http_client_def)

theorem call_crosses_http_witness:
  "importRegistration_proxyFunc (\<lambda>args. (CELIX_SUCCESS, ''{q}'')) (\<lambda>reply args. (CELIX_SUCCESS, reply))
      (\<lambda>f. remoteServiceAdmin_send demo_http_client) (Some 1) None demo_client =
    Inr (Some 0, snd (CELIX_SUCCESS, Some ''{q}''), demo_client\<lparr>outside := (outside demo_client)\<lparr>outside := 1\<rparr>\<rparr>)"
proof -
  obtain cert key ca where posts: "posts_to demo_wa_env demo_http_world \<lparr>ss_endpoint = 1, ss_errorCount = 0\<rparr>
      (demo_wa\<lparr>wiringReceiveServices := [(''w1'', [8])]\<rparr>) cert key ca" using demo_posts by blast
  have serves: "\<forall>x. curl_posts http_server http_client (rsa_server demo_wa_env demo_rsa_env x)
      (demo_wa\<lparr>wiringReceiveServices := [(''w1'', [8])]\<rparr>) cert key ca (demo_net x)" by (simp add: demo_http)
  have closes: "config_of (srv_config http_server) ''enable_keep_alive'' \<noteq> Some ''yes''" by code_simp
  have exports: "exports_ok demo_rsa_env (outside demo_client)" using demo_exports_ok by (simp add: demo_client_def)
  show ?thesis
    by (rule call_crosses_http [OF _ _ _ demo_client_wired _ _ _ _ _ _ _ demo_sends_http posts demo_serving serves _ exports,
        where e = 1 and t = "''{3 {q}}''" and
        reg = "\<lparr>er_endpoint = Some 1, er_reference = 7, er_intf = Some 4, er_tracker = 5, er_service = Some 70\<rparr>"])
      (simp_all add: closes demo_http_client_def demo_client_def demo_client_env_def demo_env_on_def demo_server_def demo_rsa_defs
        rsa_locks_ok_def sends_ok_def all_exports_def has_serviceId_def export_ep_def)
qed

end
