(* ===== verification/Wiring_Admin_Reachable.thy ===== *)
theory Wiring_Admin_Reachable
  imports Wiring_Admin_Correct
begin

text \<open>
  What holds of a wiring admin after any sequence of calls: every wire it knows, exported or
  imported, has a description that is alive, the tables are keyed without collisions, send
  services and their registrations go together, and its lock is free between the calls.
\<close>

section \<open>Tables keyed by descriptions\<close>

text \<open>Keys that are alive and that the map keeps apart.\<close>

definition keyed :: "celix \<Rightarrow> 'x world \<Rightarrow> wed_ptr list \<Rightarrow> bool" where
  "keyed cx w ds \<longleftrightarrow> distinct ds \<and> (\<forall>d \<in> set ds. wireId_of cx w d \<noteq> None) \<and>
     (\<forall>d \<in> set ds. \<forall>d' \<in> set ds. wed_same cx w d d' \<longrightarrow> d = d')"

lemma wed_same_sym: "wed_same cx w d d' \<Longrightarrow> wed_same cx w d' d"
  by (auto simp: wed_same_iff)

lemma wed_same_local:
  "wireId_of cx w' d = wireId_of cx w d \<Longrightarrow> wireId_of cx w' d' = wireId_of cx w d' \<Longrightarrow> wed_same cx w' d d' = wed_same cx w d d'"
  by (simp add: wed_same_iff wiringEndpointDescription_hash_def)

lemma keyed_cong: "keyed cx w ds \<Longrightarrow> \<forall>d \<in> set ds. wireId_of cx w' d = wireId_of cx w d \<Longrightarrow> keyed cx w' ds"
  unfolding keyed_def using wed_same_local by (metis (no_types, opaque_lifting))

lemma keyed_Nil [simp]: "keyed cx w []"
  by (simp add: keyed_def)

lemma keyed_remove:
  assumes "keyed cx w (map fst m)"
  shows "keyed cx w (map fst (hashMap_remove (wed_same cx w) d m))" "d \<notin> fst ` set (hashMap_remove (wed_same cx w) d m)"
proof -
  have "\<exists>pre post k. map fst m = pre @ k # post \<and> map fst (hashMap_remove (wed_same cx w) d m) = pre @ post \<and> wed_same cx w d k"
    if "hashMap_get (wed_same cx w) m d \<noteq> None"
    using that by (induction m) (auto simp: hashMap_get_def, (metis append_Cons append_Nil)+)
  then consider "hashMap_remove (wed_same cx w) d m = m" "\<forall>k \<in> fst ` set m. \<not> wed_same cx w d k"
    | pre post k where "map fst m = pre @ k # post" "map fst (hashMap_remove (wed_same cx w) d m) = pre @ post" "wed_same cx w d k"
    by (metis hashMap_get_None_iff hashMap_remove_absent imageE)
  then have "keyed cx w (map fst (hashMap_remove (wed_same cx w) d m)) \<and> d \<notin> set (map fst (hashMap_remove (wed_same cx w) d m))"
  proof cases
    case 1
    then show ?thesis using assms by auto
  next
    case 2
    then show ?thesis using assms unfolding keyed_def by auto
  qed
  then show "keyed cx w (map fst (hashMap_remove (wed_same cx w) d m))" "d \<notin> fst ` set (hashMap_remove (wed_same cx w) d m)"
    by simp_all
qed

lemma hashMap_replace_keys: "map fst (hashMap_replace same k v m) = map fst m"
  by (induction m) auto

lemma hashMap_put_keys:
  "hashMap_containsKey same m k \<Longrightarrow> map fst (hashMap_put cx h same k v m) = map fst m"
  by (simp add: hashMap_put_def hashMap_replace_keys)

lemma keyed_put:
  assumes "keyed cx w (map fst m)" "wireId_of cx w d \<noteq> None"
  shows "keyed cx w (map fst (hashMap_put cx h (wed_same cx w) d v m))"
    "fst ` set (hashMap_put cx h (wed_same cx w) d v m) \<subseteq> insert d (fst ` set m)"
proof -
  have "keyed cx w (map fst (hashMap_put cx h (wed_same cx w) d v m)) \<and>
    set (map fst (hashMap_put cx h (wed_same cx w) d v m)) \<subseteq> insert d (set (map fst m))"
  proof (cases "hashMap_containsKey (wed_same cx w) m d")
    case True
    show ?thesis unfolding hashMap_put_keys [OF True] using assms(1) by blast
  next
    case False
    then obtain pre post where m: "m = pre @ post" "hashMap_put cx h (wed_same cx w) d v m = pre @ (d, v) # post"
      using hashMap_put_split [OF False] by blast
    have no: "\<not> wed_same cx w d k" if "k \<in> set (map fst m)" for k
      using False that by (auto simp: hashMap_containsKey_def getEntry_None_iff)
    have "\<not> wed_same cx w d k \<and> \<not> wed_same cx w k d \<and> k \<noteq> d" if "k \<in> set (map fst m)" for k
      using no [OF that] wed_same_sym [of cx w k d] by (cases "k = d") auto
    then have "\<forall>k \<in> set (map fst m). \<not> wed_same cx w d k \<and> \<not> wed_same cx w k d \<and> k \<noteq> d" by blast
    note new = this [unfolded m(1)] and old = assms(1) [unfolded keyed_def m(1)]
    have parts: "distinct (map fst (pre @ post))" "\<forall>k \<in> set (map fst (pre @ post)). wireId_of cx w k \<noteq> None"
      using old by blast+
    have fresh: "d \<notin> set (map fst (pre @ post))" using new by blast
    have "distinct (map fst (pre @ (d, v) # post))" using fresh parts(1) by auto
    moreover have "\<forall>k \<in> set (map fst (pre @ (d, v) # post)). wireId_of cx w k \<noteq> None" using parts(2) assms(2) by auto
    moreover have "k = k'" if "k \<in> set (map fst (pre @ (d, v) # post))" "k' \<in> set (map fst (pre @ (d, v) # post))" "wed_same cx w k k'" for k k'
    proof (cases "k = d \<or> k' = d")
      case True
      have "k = d \<or> k \<in> set (map fst (pre @ post))" "k' = d \<or> k' \<in> set (map fst (pre @ post))" using that(1,2) by auto
      then show ?thesis using True new that(3) by metis
    next
      case False
      then have "k \<in> set (map fst (pre @ post))" "k' \<in> set (map fst (pre @ post))" using that(1,2) by auto
      then show ?thesis using old that(3) by blast
    qed
    ultimately have "keyed cx w (map fst (pre @ (d, v) # post))" unfolding keyed_def by blast
    moreover have "set (map fst (pre @ (d, v) # post)) \<subseteq> insert d (set (map fst (pre @ post)))" by auto
    ultimately show ?thesis unfolding m(2) unfolding m(1) by blast
  qed
  then show "keyed cx w (map fst (hashMap_put cx h (wed_same cx w) d v m))"
    "fst ` set (hashMap_put cx h (wed_same cx w) d v m) \<subseteq> insert d (fst ` set m)" by simp_all
qed

text \<open>Two tables with the same keys keep them under the same call.\<close>

lemma same_keys_put:
  assumes "map fst m = map fst m'"
  shows "map fst (hashMap_put cx h same k v m) = map fst (hashMap_put cx h same k v' m')"
proof -
  have "hashMap_containsKey same m k = hashMap_containsKey same m' k"
    using assms unfolding hashMap_containsKey_def getEntry_None_iff by (metis (no_types, lifting) image_set imageE imageI)
  moreover have "map (h \<circ> fst) m = map (h \<circ> fst) m'" using arg_cong [OF assms, of "map h"] by simp
  ultimately show ?thesis
    using assms by (simp add: hashMap_put_def insert_at_def hashMap_replace_keys flip: take_map drop_map)
qed

lemma same_keys_remove:
  "map fst m = map fst m' \<Longrightarrow> map fst (hashMap_remove same k m) = map fst (hashMap_remove same k m')"
proof (induction m arbitrary: m')
  case (Cons e m)
  then show ?case by (cases m') auto
qed simp

lemma same_keys_get:
  "map fst m = map fst m' \<Longrightarrow> hashMap_get same m k = None \<longleftrightarrow> hashMap_get same m' k = None"
  unfolding hashMap_get_None_iff by (metis (no_types, lifting) image_set imageE imageI)

section \<open>The invariant\<close>

definition imported_wires :: "wiring_admin \<Rightarrow> wed_ptr set" where
  "imported_wires a = fst ` set (wiringSendServices a) \<union> ss_endpoint ` snd ` set (wiringSendServices a)"

definition known_wires :: "wiring_admin \<Rightarrow> wed_ptr set" where
  "known_wires a = fst ` set (wiringReceiveTracker a) \<union> imported_wires a"

definition wa_tables :: "celix \<Rightarrow> wiring_admin world \<Rightarrow> bool" where
  "wa_tables cx w \<longleftrightarrow> receivers_inv (rest w) \<and> keyed cx w (map fst (wiringReceiveTracker (rest w))) \<and>
     keyed cx w (map fst (wiringSendServices (rest w))) \<and>
     map fst (wiringSendRegistrations (rest w)) = map fst (wiringSendServices (rest w)) \<and>
     (\<forall>d \<in> imported_wires (rest w). wireId_of cx w d \<noteq> None)"

definition wa_inv :: "celix \<Rightarrow> wiring_admin world \<Rightarrow> bool" where
  "wa_inv cx w \<longleftrightarrow> wa_tables cx w \<and> \<not> exportedLock (rest w)"

lemma wa_tables_weds:
  assumes "wa_tables cx w" "rest w' = rest w" "\<forall>d \<in> known_wires (rest w). wireId_of cx w' d = wireId_of cx w d"
  shows "wa_tables cx w'"
proof -
  have "keyed cx w' (map fst (wiringReceiveTracker (rest w)))" "keyed cx w' (map fst (wiringSendServices (rest w)))"
    using assms(1,3) by (auto simp: wa_tables_def known_wires_def imported_wires_def intro!: keyed_cong [of cx w])
  then show ?thesis using assms by (simp add: wa_tables_def known_wires_def)
qed

lemma receivers_inv_added: "receivers_inv a \<Longrightarrow> receivers_inv (wiringAdmin_wiringReceiveAdded env s a)"
  using receiveAdded_distinct by (auto simp: receivers_inv_def receiveAdded_map split: if_split_asm)

lemma receivers_inv_removed: "receivers_inv a \<Longrightarrow> receivers_inv (wiringAdmin_wiringReceiveRemoved env s a)"
  using receiveRemoved_distinct by (auto simp: receivers_inv_def receiveRemoved_map Let_def split: if_split_asm)

lemma fold_keeps: "(\<And>s a. P a \<Longrightarrow> P (g s a)) \<Longrightarrow> P a \<Longrightarrow> P (fold g ss a)"
  by (induction ss arbitrary: a) simp_all

lemma receivers_inv_fold:
  "receivers_inv a \<Longrightarrow> receivers_inv (fold (wiringAdmin_wiringReceiveAdded env) ss a)"
  "receivers_inv a \<Longrightarrow> receivers_inv (close_tracker env t a)"
  unfolding close_tracker_def by (rule fold_keeps, erule receivers_inv_added receivers_inv_removed, assumption)+

lemma receivers_inv_frame [simp]:
  "receivers_inv (a\<lparr>wiringReceiveTracker := t\<rparr>) = receivers_inv a" "receivers_inv (a\<lparr>exportedLock := b\<rparr>) = receivers_inv a"
  "receivers_inv (a\<lparr>wa_ctx := c\<rparr>) = receivers_inv a" "receivers_inv (a\<lparr>wa_url := u\<rparr>) = receivers_inv a"
  "receivers_inv (a\<lparr>wiringSendServices := s\<rparr>) = receivers_inv a" "receivers_inv (a\<lparr>wiringSendRegistrations := r\<rparr>) = receivers_inv a"
  by (simp_all add: receivers_inv_def)

lemma ids_of_rest [simp]: "wireId_of cx (w\<lparr>rest := a\<rparr>) = wireId_of cx w"
  by (simp add: wireId_of_def fun_eq_iff)

lemma keyed_rest [simp]: "keyed cx (w\<lparr>rest := a\<rparr>) ds = keyed cx w ds"
  by (simp add: keyed_def wed_same_iff wiringEndpointDescription_hash_def)

text \<open>A change of the receivers, the server or the lock leaves the tables as they are.\<close>

lemma wa_tables_rest:
  assumes "wa_tables cx w" "receivers_inv a" "wiringReceiveTracker a = wiringReceiveTracker (rest w)"
    and "wiringSendServices a = wiringSendServices (rest w)" "wiringSendRegistrations a = wiringSendRegistrations (rest w)"
  shows "wa_tables cx (w\<lparr>rest := a\<rparr>)"
  using assms by (simp add: wa_tables_def imported_wires_def)

section \<open>Exporting\<close>

lemma startWebserver_cases:
  "wiringAdmin_startWebserver env a = Inr (st, a') \<Longrightarrow> \<exists>c u. a' = a\<lparr>wa_ctx := c, wa_url := u\<rparr>"
  by (auto simp: wiringAdmin_startWebserver_def Let_def rbind_eq_Inr split: option.split_asm)

lemma track_tables:
  assumes "wa_tables (wa_cx env) w" "wireId_of (wa_cx env) w d \<noteq> None" "track_receivers env d i w = Inr (st, w')"
  shows "wa_tables (wa_cx env) w' \<and> exportedLock (rest w') = exportedLock (rest w)"
proof -
  let ?cx = "wa_cx env"
  obtain wid where i: "i = Some wid" using assms(3) by (cases i) (auto simp: track_receivers_def)
  obtain s0 t where t: "wiringAdmin_createWiringReceiveTracker env wid = (s0, t)" by fastforce
  show ?thesis
  proof (cases "s0 = CELIX_SUCCESS \<and> t \<noteq> None")
    case False
    then have "w' = w" using assms(3) i t by (auto simp: track_receivers_def split: celix_status.split_asm option.split_asm)
    then show ?thesis using assms(1) by simp
  next
    case True
    then obtain tr where tr: "s0 = CELIX_SUCCESS" "t = Some tr" by auto
    obtain s1 l where o: "serviceTracker_open env tr = (s1, l)" by fastforce
    let ?a = "fold (wiringAdmin_wiringReceiveAdded env) l (rest w)"
    have tab: "wa_tables ?cx (w\<lparr>rest := ?a\<rparr>)"
      by (rule wa_tables_rest [OF assms(1)]) (use assms(1) in \<open>simp_all add: receivers_inv_fold wa_tables_def\<close>)
    show ?thesis
    proof (cases "s1 = CELIX_SUCCESS")
      case False
      then have "w' = w\<lparr>rest := ?a\<rparr>" using assms(3) i t tr o by (simp add: track_receivers_def Let_def)
      then show ?thesis using tab by simp
    next
      case True
      have w': "w' = w\<lparr>rest := ?a\<lparr>wiringReceiveTracker := hashMap_put ?cx (wiringEndpointDescription_hash ?cx w) (wed_same ?cx w) d tr
          (wiringReceiveTracker (rest w))\<rparr>\<rparr>"
        using True assms(3) i t tr o by (simp add: track_receivers_def Let_def)
      show ?thesis
        using assms(1,2) keyed_put(1) [of ?cx w "wiringReceiveTracker (rest w)" d]
        by (simp add: wa_tables_def imported_wires_def w' receivers_inv_fold)
    qed
  qed
qed

lemma export_described_tables:
  assumes "wa_tables (wa_cx env) w" "export_described env u w = Inr (st, e, w')"
  shows "wa_tables (wa_cx env) w' \<and> exportedLock (rest w') = exportedLock (rest w)"
proof (cases "heap_calloc env w")
  case None
  then show ?thesis using assms by (simp add: export_described_def)
next
  case (Some d)
  then have new: "weds w d = None" by (auto simp: heap_calloc_def split: option.split_asm if_split_asm)
  obtain p st' where t: "track_receivers env d (properties_get (wa_cx env) p WIRE_ID_KEY) (w\<lparr>weds := (weds w)(d \<mapsto> p)\<rparr>) = Inr (st', w')"
    using assms(2) Some by (auto simp: export_described_def rbind_eq_Inr Let_def)
  have "\<forall>k \<in> known_wires (rest w). wireId_of (wa_cx env) w k \<noteq> None"
    using assms(1) by (auto simp: wa_tables_def known_wires_def keyed_def)
  then have old: "\<forall>k \<in> known_wires (rest w). wireId_of (wa_cx env) (w\<lparr>weds := (weds w)(d \<mapsto> p)\<rparr>) k = wireId_of (wa_cx env) w k"
    using new by (auto simp: wireId_of_def)
  have "wa_tables (wa_cx env) (w\<lparr>weds := (weds w)(d \<mapsto> p)\<rparr>)" by (rule wa_tables_weds [OF assms(1)]) (use old in simp_all)
  moreover have "wireId_of (wa_cx env) (w\<lparr>weds := (weds w)(d \<mapsto> p)\<rparr>) d \<noteq> None"
    using track_receivers_wireId [OF t] by (simp add: wireId_of_def)
  ultimately show ?thesis using track_tables [OF _ _ t] by simp
qed

lemma wa_export_inv:
  assumes "wa_inv (wa_cx env) w" "wiringAdmin_exportWiringEndpoint env w = Inr (st, e, w')"
  shows "wa_inv (wa_cx env) w'"
proof -
  let ?w = "w\<lparr>rest := lockE (rest w)\<rparr>"
  obtain st1 w1 a where x: "export_locked env ?w = Inr (st1, e, w1)" "unlockE (rest w1) = Inr a" "w' = w1\<lparr>rest := a\<rparr>"
    using assms(2) by (auto simp: wiringAdmin_exportWiringEndpoint_def rbind_eq_Inr)
  have w: "wa_tables (wa_cx env) ?w"
    using assms(1) by (auto simp: wa_inv_def lockE_def wa_tables_def imported_wires_def)
  obtain st2 a2 where s: "(if wiringReceiveTracker (rest ?w) = [] then wiringAdmin_startWebserver env (rest ?w) else Inr (CELIX_SUCCESS, rest ?w)) =
      Inr (st2, a2)" using x(1) by (auto simp: export_locked_def rbind_eq_Inr)
  have w2: "wa_tables (wa_cx env) (?w\<lparr>rest := a2\<rparr>)"
  proof (cases "wiringReceiveTracker (rest ?w) = []")
    case True
    then have "wiringAdmin_startWebserver env (rest ?w) = Inr (st2, a2)" using s by simp
    from startWebserver_cases [OF this] obtain c u where "a2 = (rest ?w)\<lparr>wa_ctx := c, wa_url := u\<rparr>" by blast
    then show ?thesis using w by (simp add: wa_tables_def imported_wires_def)
  next
    case False
    then show ?thesis using s w by simp
  qed
  have "w1 = ?w\<lparr>rest := a2\<rparr> \<or> (\<exists>u. export_described env u (?w\<lparr>rest := a2\<rparr>) = Inr (st1, e, w1))"
    using x(1) s by (auto simp: export_locked_def Let_def split: if_split_asm prod.split_asm)
  then have w1: "wa_tables (wa_cx env) w1" using w2 export_described_tables [OF w2] by auto
  have "a = (rest w1)\<lparr>exportedLock := False\<rparr>" using x(2) by (auto simp: unlockE_def split: if_split_asm)
  then show ?thesis using w1 x(3) by (simp add: wa_inv_def wa_tables_def imported_wires_def)
qed

section \<open>The other calls\<close>

lemma all_others: "d \<notin> A \<Longrightarrow> (\<And>k. k \<noteq> d \<Longrightarrow> P k) \<Longrightarrow> \<forall>k \<in> A. P k"
  by metis

lemma wa_removeExported_inv:
  assumes "wa_inv (wa_cx env) w" "d \<notin> imported_wires (rest w)"
    and "wiringAdmin_removeExportedWiringEndpoint env (Some d) w = Inr (st, w')"
  shows "wa_inv (wa_cx env) w'"
proof -
  let ?cx = "wa_cx env" and ?same = "wed_same (wa_cx env) w"
  let ?t = "hashMap_remove ?same d (wiringReceiveTracker (rest w))"
  obtain a where a: "w' = w\<lparr>weds := (weds w)(d := None), rest := a\<rparr>" "wiringReceiveTracker a = ?t"
      "wiringSendServices a = wiringSendServices (rest w)" "wiringSendRegistrations a = wiringSendRegistrations (rest w)"
      "receivers_inv a" "\<not> exportedLock a"
    using assms(1,3)
    by (auto simp: wiringAdmin_removeExportedWiringEndpoint_def Let_def rbind_eq_Inr wiringEndpointDescription_destroy_def unlockE_def
        lockE_def wa_inv_def wa_tables_def wiringAdmin_stopWebserver_def receivers_inv_fold split: option.split_asm if_split_asm)
  have ids: "wireId_of ?cx w' k = wireId_of ?cx w k" if "k \<noteq> d" for k using that by (simp add: a(1) wireId_of_def)
  note tab = assms(1) [unfolded wa_inv_def wa_tables_def]
  have t0: "keyed ?cx w (map fst ?t)" "d \<notin> set (map fst ?t)"
    using keyed_remove [of ?cx w "wiringReceiveTracker (rest w)" d] tab by simp_all
  have t: "keyed ?cx w' (map fst ?t)" by (rule keyed_cong [OF t0(1) all_others [OF t0(2) ids]])
  have s0: "d \<notin> set (map fst (wiringSendServices (rest w)))" using assms(2) by (simp add: imported_wires_def)
  have "keyed ?cx w' (map fst (wiringSendServices (rest w)))" by (rule keyed_cong [OF _ all_others [OF s0 ids]]) (use tab in simp)
  moreover have "\<forall>k \<in> imported_wires (rest w). wireId_of ?cx w' k \<noteq> None"
  proof
    fix k assume "k \<in> imported_wires (rest w)"
    moreover from this have "k \<noteq> d" using assms(2) by blast
    ultimately show "wireId_of ?cx w' k \<noteq> None" using tab ids by simp
  qed
  ultimately show ?thesis using tab a t by (simp add: wa_inv_def wa_tables_def imported_wires_def)
qed

lemma wa_import_inv:
  assumes "wa_inv (wa_cx env) w" "wireId_of (wa_cx env) w d \<noteq> None" "wiringAdmin_importWiringEndpoint env d w = Inr (st, w')"
  shows "wa_inv (wa_cx env) w'"
proof (cases "w' = w")
  case False
  let ?cx = "wa_cx env" and ?h = "wiringEndpointDescription_hash (wa_cx env) w" and ?same = "wed_same (wa_cx env) w"
  obtain reg where w': "w' = w\<lparr>rest := (rest w)\<lparr>
       wiringSendServices := hashMap_put ?cx ?h ?same d \<lparr>ss_endpoint = d, ss_errorCount = 0\<rparr> (wiringSendServices (rest w)),
       wiringSendRegistrations := hashMap_put ?cx ?h ?same d reg (wiringSendRegistrations (rest w))\<rparr>\<rparr>"
    using assms(3) False by (auto simp: wiringAdmin_importWiringEndpoint_def rbind_eq_Inr Let_def case_prod_beta split: if_split_asm)
  note tab = assms(1) [unfolded wa_inv_def wa_tables_def]
  let ?m = "hashMap_put ?cx ?h ?same d \<lparr>ss_endpoint = d, ss_errorCount = 0\<rparr> (wiringSendServices (rest w))"
  have keys: "keyed ?cx w (map fst ?m)" "fst ` set ?m \<subseteq> insert d (fst ` set (wiringSendServices (rest w)))"
    using keyed_put [of ?cx w "wiringSendServices (rest w)" d] tab assms(2) by simp_all
  have "snd ` set ?m \<subseteq> insert \<lparr>ss_endpoint = d, ss_errorCount = 0\<rparr> (snd ` set (wiringSendServices (rest w)))" by (rule hashMap_put_values)
  then have "ss_endpoint ` snd ` set ?m \<subseteq> insert d (ss_endpoint ` snd ` set (wiringSendServices (rest w)))" by force
  then have "fst ` set ?m \<union> ss_endpoint ` snd ` set ?m \<subseteq> insert d (imported_wires (rest w))"
    using keys(2) unfolding imported_wires_def by blast
  moreover have "\<forall>k \<in> insert d (imported_wires (rest w)). wireId_of ?cx w k \<noteq> None" using tab assms(2) by simp
  ultimately have "\<forall>k \<in> fst ` set ?m \<union> ss_endpoint ` snd ` set ?m. wireId_of ?cx w k \<noteq> None" by blast
  then show ?thesis
    using tab keys(1) same_keys_put [of "wiringSendRegistrations (rest w)" "wiringSendServices (rest w)" ?cx ?h ?same d reg]
    by (simp add: wa_inv_def wa_tables_def imported_wires_def w')
qed (use assms(1) in simp)

lemma wa_removeImported_inv:
  assumes "wa_inv (wa_cx env) w" "wiringAdmin_removeImportedWiringEndpoint env d w = Inr (st, w')"
  shows "wa_inv (wa_cx env) w'"
proof -
  let ?cx = "wa_cx env" and ?same = "wed_same (wa_cx env) w"
  have w': "w' = w\<lparr>rest := (rest w)\<lparr>wiringSendServices := hashMap_remove ?same d (wiringSendServices (rest w)),
      wiringSendRegistrations := hashMap_remove ?same d (wiringSendRegistrations (rest w))\<rparr>\<rparr>"
    using assms(2) by (auto simp: wiringAdmin_removeImportedWiringEndpoint_def rbind_eq_Inr Let_def)
  note tab = assms(1) [unfolded wa_inv_def wa_tables_def]
  have "keyed ?cx w (map fst (hashMap_remove ?same d (wiringSendServices (rest w))))" using keyed_remove(1) tab by blast
  moreover have live: "\<forall>k \<in> imported_wires (rest w). wireId_of ?cx w k \<noteq> None" using tab by simp
  moreover have "fst ` set (hashMap_remove ?same d (wiringSendServices (rest w))) \<union>
      ss_endpoint ` snd ` set (hashMap_remove ?same d (wiringSendServices (rest w))) \<subseteq> imported_wires (rest w)"
    using set_hashMap_remove [of ?same d "wiringSendServices (rest w)"] unfolding imported_wires_def by blast
  then have "\<forall>k \<in> fst ` set (hashMap_remove ?same d (wiringSendServices (rest w))) \<union>
      ss_endpoint ` snd ` set (hashMap_remove ?same d (wiringSendServices (rest w))). wireId_of ?cx w k \<noteq> None"
    using live by blast
  ultimately show ?thesis
    using tab same_keys_remove [of "wiringSendRegistrations (rest w)" "wiringSendServices (rest w)" ?same d]
    by (simp add: wa_inv_def wa_tables_def imported_wires_def w')
qed

lemma stop_runs:
  obtains a' where "wiringAdmin_stop env a = Inr (CELIX_SUCCESS, a')" "wiringReceiveTracker a' = []" "wiringReceiveServices a' = []"
    "wa_ctx a' = None" "\<not> exportedLock a'"
    "wiringSendServices a' = wiringSendServices a" "wiringSendRegistrations a' = wiringSendRegistrations a"
proof -
  let ?a = "fold (\<lambda>(d, t). close_tracker env t) (wiringReceiveTracker a) (lockE a)"
  have frame: "f ?a = f (lockE a)" if "\<And>t b. f (close_tracker env t b) = f b" for f :: "wiring_admin \<Rightarrow> 'b"
    by (rule fold_frame) (simp add: that split: prod.split)
  have kept: "exportedLock ?a" "wiringSendServices ?a = wiringSendServices a" "wiringSendRegistrations ?a = wiringSendRegistrations a"
    using frame [of exportedLock] frame [of wiringSendServices] frame [of wiringSendRegistrations] by (simp_all add: lockE_def)
  have tracker: "wiringReceiveTracker (lockE a) = wiringReceiveTracker a" by (simp add: lockE_def)
  let ?b = "snd (wiringAdmin_stopWebserver (?a\<lparr>wiringReceiveTracker := []\<rparr>))"
  have b: "wiringAdmin_stop env a = Inr (CELIX_SUCCESS, ?b\<lparr>wiringReceiveServices := [], exportedLock := False\<rparr>)"
    unfolding wiringAdmin_stop_def Let_def tracker using kept(1) by (simp add: unlockE_def wiringAdmin_stopWebserver_def)
  show thesis
    by (rule that [OF b]) (use kept in \<open>simp_all add: wiringAdmin_stopWebserver_def\<close>)
qed

lemma wa_stop_inv:
  assumes "wa_inv cx w" "wiringAdmin_stop env (rest w) = Inr (st, a)"
  shows "wa_inv cx (w\<lparr>rest := a\<rparr>)"
proof -
  obtain a' where "wiringAdmin_stop env (rest w) = Inr (CELIX_SUCCESS, a')" "wiringReceiveTracker a' = []" "wiringReceiveServices a' = []"
    "wa_ctx a' = None" "\<not> exportedLock a'"
    "wiringSendServices a' = wiringSendServices (rest w)" "wiringSendRegistrations a' = wiringSendRegistrations (rest w)"
    by (rule stop_runs)
  then show ?thesis using assms by (simp add: wa_inv_def wa_tables_def imported_wires_def receivers_inv_def)
qed

lemma callback_keeps:
  "wiringAdmin_callback env r a = Inr (n, out, a') \<Longrightarrow> \<not> exportedLock a \<Longrightarrow> a' = a"
  by (auto simp: wiringAdmin_callback_def rbind_eq_Inr Let_def unlockE_def lockE_def split: option.split_asm if_split_asm)

section \<open>The life of an admin\<close>

text \<open>
  The callers keep to their side: they remove no export by the description of an import, they
  import endpoints with a wire id, and they keep what the admin knows alive. Framework, network and
  allocator may answer differently in every step.
\<close>

inductive wa_life :: "celix \<Rightarrow> wiring_admin world \<Rightarrow> bool" for cx where
  created: "wiringAdmin_create cx ok = (CELIX_SUCCESS, Some a) \<Longrightarrow> wa_life cx \<lparr>weds = D, rest = a\<rparr>"
| exported: "wa_life cx w \<Longrightarrow> wa_cx env = cx \<Longrightarrow> wiringAdmin_exportWiringEndpoint env w = Inr (st, e, w') \<Longrightarrow> wa_life cx w'"
| removed_export: "wa_life cx w \<Longrightarrow> wa_cx env = cx \<Longrightarrow> d \<notin> imported_wires (rest w) \<Longrightarrow>
    wiringAdmin_removeExportedWiringEndpoint env (Some d) w = Inr (st, w') \<Longrightarrow> wa_life cx w'"
| imported: "wa_life cx w \<Longrightarrow> wa_cx env = cx \<Longrightarrow> wireId_of cx w d \<noteq> None \<Longrightarrow>
    wiringAdmin_importWiringEndpoint env d w = Inr (st, w') \<Longrightarrow> wa_life cx w'"
| removed_import: "wa_life cx w \<Longrightarrow> wa_cx env = cx \<Longrightarrow>
    wiringAdmin_removeImportedWiringEndpoint env d w = Inr (st, w') \<Longrightarrow> wa_life cx w'"
| requested: "wa_life cx w \<Longrightarrow> wa_cx env = cx \<Longrightarrow> wiringAdmin_callback env r (rest w) = Inr (n, out, a) \<Longrightarrow>
    wa_life cx (w\<lparr>rest := a\<rparr>)"
| receiver_added: "wa_life cx w \<Longrightarrow> wa_cx env = cx \<Longrightarrow> wa_life cx (w\<lparr>rest := wiringAdmin_wiringReceiveAdded env s (rest w)\<rparr>)"
| receiver_removed: "wa_life cx w \<Longrightarrow> wa_cx env = cx \<Longrightarrow> wa_life cx (w\<lparr>rest := wiringAdmin_wiringReceiveRemoved env s (rest w)\<rparr>)"
| stopped: "wa_life cx w \<Longrightarrow> wa_cx env = cx \<Longrightarrow> wiringAdmin_stop env (rest w) = Inr (st, a) \<Longrightarrow> wa_life cx (w\<lparr>rest := a\<rparr>)"
| elsewhere: "wa_life cx w \<Longrightarrow> rest w' = rest w \<Longrightarrow> \<forall>d \<in> known_wires (rest w). wireId_of cx w' d = wireId_of cx w d \<Longrightarrow> wa_life cx w'"

lemma wa_life_inv: "wa_life cx w \<Longrightarrow> wa_inv cx w"
proof (induction rule: wa_life.induct)
  case (created ok a D)
  then show ?case by (auto simp: wiringAdmin_create_def wa_inv_def wa_tables_def imported_wires_def receivers_inv_def split: if_split_asm)
next
  case (exported w env st e w')
  then show ?case using wa_export_inv by blast
next
  case (removed_export w env d st w')
  then show ?case using wa_removeExported_inv by blast
next
  case (imported w env d st w')
  then show ?case using wa_import_inv by blast
next
  case (removed_import w env d st w')
  then show ?case using wa_removeImported_inv by blast
next
  case (requested w env r n out a)
  then have "a = rest w" using callback_keeps by (auto simp: wa_inv_def)
  then show ?case using requested.IH by simp
next
  case (receiver_added w env s)
  then show ?case using wa_tables_rest [of cx w "wiringAdmin_wiringReceiveAdded env s (rest w)"]
    by (simp add: wa_inv_def receivers_inv_added) (simp add: wa_tables_def receivers_inv_added)
next
  case (receiver_removed w env s)
  then show ?case using wa_tables_rest [of cx w "wiringAdmin_wiringReceiveRemoved env s (rest w)"]
    by (simp add: wa_inv_def receivers_inv_removed) (simp add: wa_tables_def receivers_inv_removed)
next
  case (stopped w env st a)
  then show ?case using wa_stop_inv by blast
next
  case (elsewhere w w')
  then show ?case using wa_tables_weds [of cx w w'] by (simp add: wa_inv_def)
qed

lemma removeExported_runs:
  assumes "wa_inv (wa_cx env) w" "d \<in> fst ` set (wiringReceiveTracker (rest w))"
  shows "\<exists>w'. wiringAdmin_removeExportedWiringEndpoint env (Some d) w = Inr (CELIX_SUCCESS, w') \<and> weds w' d = None \<and>
    d \<notin> fst ` set (wiringReceiveTracker (rest w'))"
proof -
  let ?same = "wed_same (wa_cx env) w"
  have "wireId_of (wa_cx env) w d \<noteq> None" and key: "keyed (wa_cx env) w (map fst (wiringReceiveTracker (rest w)))"
    using assms by (auto simp: wa_inv_def wa_tables_def keyed_def)
  then obtain p where "weds w d = Some p" by (cases "weds w d") (auto simp: wireId_of_def)
  moreover have "d \<notin> fst ` set (hashMap_remove ?same d (wiringReceiveTracker (rest w)))" by (rule keyed_remove(2) [OF key])
  ultimately show ?thesis
    by (auto simp: wiringAdmin_removeExportedWiringEndpoint_def Let_def wiringEndpointDescription_destroy_def unlockE_def lockE_def
        wiringAdmin_stopWebserver_def split: option.split)
qed

lemma removeImported_runs:
  assumes "wa_inv (wa_cx env) w" "d \<in> fst ` set (wiringSendServices (rest w))"
  shows "\<exists>reg w'. hashMap_get (wed_same (wa_cx env) w) (wiringSendRegistrations (rest w)) d = Some reg \<and>
    wiringAdmin_removeImportedWiringEndpoint env d w = Inr (wa_unregister env (Some reg), w') \<and>
    d \<notin> fst ` set (wiringSendServices (rest w'))"
proof -
  let ?same = "wed_same (wa_cx env) w"
  have "wireId_of (wa_cx env) w d \<noteq> None" and key: "keyed (wa_cx env) w (map fst (wiringSendServices (rest w)))"
    and keys: "map fst (wiringSendRegistrations (rest w)) = map fst (wiringSendServices (rest w))"
    using assms by (auto simp: wa_inv_def wa_tables_def keyed_def)
  then obtain p where p: "weds w d = Some p" by (cases "weds w d") (auto simp: wireId_of_def)
  obtain b where "(d, b) \<in> set (wiringSendServices (rest w))" using assms(2) by auto
  then have "\<exists>e \<in> set (wiringSendServices (rest w)). ?same d (fst e)" by (intro bexI [of _ "(d, b)"]) simp_all
  then have "hashMap_get ?same (wiringSendServices (rest w)) d \<noteq> None" by (simp add: hashMap_get_None_iff)
  then obtain reg where "hashMap_get ?same (wiringSendRegistrations (rest w)) d = Some reg"
    using same_keys_get [OF keys] by fastforce
  then show ?thesis using p keyed_remove(2) [OF key]
    by (simp add: wiringAdmin_removeImportedWiringEndpoint_def wed_deref_def Let_def)
qed

text \<open>
  C6. After any sequence of calls the tables of the wiring admin are sound and its lock is free:
  every send service reads a description that is alive; every exported wire can be removed, which
  frees its description and forgets the wire; every imported wire can be given up, and its
  registration is there to be unregistered; and the admin can be stopped, which ends all
  tracking and the web server.
\<close>

theorem wa_life_sound:
  assumes "wa_life (wa_cx env) w"
  shows "wa_inv (wa_cx env) w \<and>
    (\<forall>s \<in> snd ` set (wiringSendServices (rest w)). \<exists>p. wed_deref (ss_endpoint s) w = Inr p \<and> map_of p WIRE_ID_KEY \<noteq> None) \<and>
    (\<forall>d \<in> fst ` set (wiringReceiveTracker (rest w)). \<exists>w'.
      wiringAdmin_removeExportedWiringEndpoint env (Some d) w = Inr (CELIX_SUCCESS, w') \<and> weds w' d = None \<and>
      d \<notin> fst ` set (wiringReceiveTracker (rest w'))) \<and>
    (\<forall>d \<in> fst ` set (wiringSendServices (rest w)). \<exists>reg w'.
      hashMap_get (wed_same (wa_cx env) w) (wiringSendRegistrations (rest w)) d = Some reg \<and>
      wiringAdmin_removeImportedWiringEndpoint env d w = Inr (wa_unregister env (Some reg), w') \<and>
      d \<notin> fst ` set (wiringSendServices (rest w'))) \<and>
    (\<exists>a. wiringAdmin_stop env (rest w) = Inr (CELIX_SUCCESS, a) \<and> wiringReceiveTracker a = [] \<and> wiringReceiveServices a = [] \<and>
      wa_ctx a = None \<and> \<not> exportedLock a)"
proof -
  have inv: "wa_inv (wa_cx env) w" using assms by (rule wa_life_inv)
  have "\<exists>p. wed_deref (ss_endpoint s) w = Inr p \<and> map_of p WIRE_ID_KEY \<noteq> None" if "s \<in> snd ` set (wiringSendServices (rest w))" for s
  proof -
    have "wireId_of (wa_cx env) w (ss_endpoint s) \<noteq> None" using inv that by (simp add: wa_inv_def wa_tables_def imported_wires_def)
    then show ?thesis by (auto simp: wireId_of_Some wed_deref_def)
  qed
  moreover obtain a where "wiringAdmin_stop env (rest w) = Inr (CELIX_SUCCESS, a)" "wiringReceiveTracker a = []"
    "wiringReceiveServices a = []" "wa_ctx a = None" "\<not> exportedLock a" by (rule stop_runs)
  ultimately show ?thesis using inv removeExported_runs [OF inv] removeImported_runs [OF inv] by blast
qed

text \<open>An admin for the witness: it has exported a wire and imported another one.\<close>

definition demo_life_env :: wa_env where
  "demo_life_env = demo_wa_env\<lparr>mg_start := (\<lambda>k os. Some 9)\<rparr>"

definition demo_life_wa :: wiring_admin where
  "demo_life_wa = the (snd (wiringAdmin_create demo_cx True))"

lemma demo_life_created: "wiringAdmin_create demo_cx True = (CELIX_SUCCESS, Some demo_life_wa)"
  by (simp add: demo_life_wa_def wiringAdmin_create_def)

lemma demo_life_empty:
  "wiringReceiveTracker demo_life_wa = []" "wiringSendServices demo_life_wa = []" "wiringSendRegistrations demo_life_wa = []"
  by (simp_all add: demo_life_wa_def wiringAdmin_create_def)

lemma demo_life_server:
  "wiringAdmin_startWebserver demo_life_env a = Inr (CELIX_SUCCESS, a\<lparr>wa_ctx := Some 9, wa_url := ''https://10.0.0.1:8080''\<rparr>)"
proof -
  have "webserver_loop demo_life_env full ca 0 MAX_NUMBER_OF_RESTARTS port = Inr (Some 9, port)" for full ca port
    by (simp add: MAX_NUMBER_OF_RESTARTS_def eval_nat_numeral demo_life_env_def demo_wa_env_def)
  moreover have "wa_trust demo_life_env = Some demo_trust" "webserver_ip demo_life_env = Some ''10.0.0.1''"
    "snd (bundleContext_getProperty (wa_cx demo_life_env) ''NODE_DISCOVERY_NODE_WA_PORT'') = Some ''8080''"
    by (simp_all add: demo_life_env_def demo_wa_defs webserver_ip_def)
  ultimately show ?thesis
    by (simp add: wiringAdmin_startWebserver_def demo_trust_def Let_def snprintf_def MAX_URL_LENGTH_def)
qed

lemma demo_life_export:
  "\<exists>w'. wiringAdmin_exportWiringEndpoint demo_life_env \<lparr>weds = [2 \<mapsto> [(WIRE_ID_KEY, ''w2'')]], rest = demo_life_wa\<rparr> =
      Inr (CELIX_SUCCESS, Some 1, w') \<and> wiringReceiveTracker (rest w') = [(1, 3)] \<and> wiringSendServices (rest w') = [] \<and>
      wiringSendRegistrations (rest w') = [] \<and> weds w' 2 = Some [(WIRE_ID_KEY, ''w2'')]"
proof -
  have env: "wa_cx demo_life_env = demo_cx" "wa_calloc demo_life_env w = Some 1" "wa_uuid demo_life_env w = ''uuid-1''"
    "serviceTrackerCustomizer_create demo_life_env = CELIX_SUCCESS" "serviceTracker_createWithFilter demo_life_env f = (CELIX_SUCCESS, 3)"
    "serviceTracker_open demo_life_env t = (CELIX_SUCCESS, [])"
    "bundleContext_getProperty demo_cx (OSGI_FRAMEWORK_FRAMEWORK_UUID demo_cx) = (CELIX_SUCCESS, Some ''fw-1'')" for w f t
    by (simp_all add: demo_life_env_def demo_wa_defs)
  have "map_of (exported_properties demo_life_env a (Some ''fw-1'') p) WIRE_ID_KEY = map_of p WIRE_ID_KEY" for a p
    using exported_properties_map [of demo_life_env a "''fw-1''" p]
    by (simp add: demo_life_env_def demo_wa_defs WIRE_ID_KEY_def HTTP_URL_KEY_def WIRING_ADMIN_PROPERTIES_CONFIG_KEY_def
        WIRING_ADMIN_PROPERTIES_SECURE_KEY_def)
  then show ?thesis
    by (simp add: wiringAdmin_exportWiringEndpoint_def export_locked_def export_described_def heap_calloc_def
        wiringEndpointDescription_create_def track_receivers_def wiringAdmin_createWiringReceiveTracker_def env demo_life_server
        demo_life_empty Let_def lockE_def unlockE_def hashMap_put_empty properties_get_map_of properties_set_map_of)
qed

lemma demo_life:
  "\<exists>w. wa_life demo_cx w \<and> fst ` set (wiringReceiveTracker (rest w)) = {1} \<and> fst ` set (wiringSendServices (rest w)) = {2}"
proof -
  have cx: "wa_cx demo_life_env = demo_cx" by (simp add: demo_life_env_def demo_wa_env_def)
  obtain w1 where w1: "wiringAdmin_exportWiringEndpoint demo_life_env \<lparr>weds = [2 \<mapsto> [(WIRE_ID_KEY, ''w2'')]], rest = demo_life_wa\<rparr> =
      Inr (CELIX_SUCCESS, Some 1, w1)" "wiringReceiveTracker (rest w1) = [(1, 3)]" "wiringSendServices (rest w1) = []"
      "wiringSendRegistrations (rest w1) = []" "weds w1 2 = Some [(WIRE_ID_KEY, ''w2'')]"
    using demo_life_export by blast
  have l1: "wa_life demo_cx w1" by (rule wa_life.exported [OF wa_life.created [OF demo_life_created] cx w1(1)])
  have id: "wireId_of demo_cx w1 2 \<noteq> None" using w1(5) by (simp add: wireId_of_def properties_get_map_of)
  obtain st w2 where w2: "wiringAdmin_importWiringEndpoint demo_life_env 2 w1 = Inr (st, w2)"
      "wiringReceiveTracker (rest w2) = [(1, 3)]" "map fst (wiringSendServices (rest w2)) = [2]"
    using w1(2-5) by (simp add: wiringAdmin_importWiringEndpoint_def wed_deref_def Let_def demo_life_env_def demo_wa_env_def hashMap_put_empty)
  have "wa_life demo_cx w2" by (rule wa_life.imported [OF l1 cx id w2(1)])
  moreover have "fst ` set (wiringSendServices (rest w2)) = set (map fst (wiringSendServices (rest w2)))" by simp
  ultimately show ?thesis using w2(2,3) by (intro exI [of _ w2]) simp
qed

theorem wa_life_sound_witness:
  "\<exists>w. fst ` set (wiringSendServices (rest w)) = {2} \<and> wa_inv demo_cx w \<and>
    (\<exists>w'. wiringAdmin_removeExportedWiringEndpoint demo_life_env (Some 1) w = Inr (CELIX_SUCCESS, w') \<and> weds w' 1 = None) \<and>
    (\<exists>st w'. wiringAdmin_removeImportedWiringEndpoint demo_life_env 2 w = Inr (st, w') \<and> 2 \<notin> fst ` set (wiringSendServices (rest w')))"
proof -
  have cx: "wa_cx demo_life_env = demo_cx" by (simp add: demo_life_env_def demo_wa_env_def)
  obtain w where w: "wa_life demo_cx w" "fst ` set (wiringReceiveTracker (rest w)) = {1}" "fst ` set (wiringSendServices (rest w)) = {2}"
    using demo_life by blast
  note sound = wa_life_sound [of demo_life_env w, unfolded cx, OF w(1), unfolded w(2,3)]
  have "wa_inv demo_cx w" "\<exists>w'. wiringAdmin_removeExportedWiringEndpoint demo_life_env (Some 1) w = Inr (CELIX_SUCCESS, w') \<and> weds w' 1 = None"
    "\<exists>st w'. wiringAdmin_removeImportedWiringEndpoint demo_life_env 2 w = Inr (st, w') \<and> 2 \<notin> fst ` set (wiringSendServices (rest w'))"
    using sound by auto
  then show ?thesis using w(3) by (intro exI [of _ w]) simp
qed

end
