(* ===== verification/Discovery_Sync.thy ===== *)
theory Discovery_Sync
  imports Discovery_Bundle_Correct
begin

text \<open>
  What a full synchronisation is for: the discovery is a set of pairs of a node and a wire, the
  store is another one, and the synchronisation adds the second to the first.
\<close>

section \<open>The discovery as a set of wires\<close>

definition offers :: "celix \<Rightarrow> node_discovery \<Rightarrow> 'x world \<Rightarrow> (string \<times> string) set" where
  "offers cx nd w = (\<Union>(node, n) \<in> set (discoveredNodes nd).
     (\<lambda>d. (node, the (wireId_of cx w d))) ` set (wiring_ep_descriptions_list n))"

lemma offers_cong:
  assumes "discoveredNodes nd' = discoveredNodes nd" "\<And>d. d \<in> set (found nd) \<Longrightarrow> wireId_of cx w' d = wireId_of cx w d"
  shows "offers cx nd' w' = offers cx nd w"
proof -
  have "wireId_of cx w' d = wireId_of cx w d"
    if "(node, n) \<in> set (discoveredNodes nd)" "d \<in> set (wiring_ep_descriptions_list n)" for node n d
    using that by (intro assms(2)) (force simp: found_def)
  then show ?thesis unfolding offers_def assms(1) by (intro SUP_cong refl) (auto intro!: image_cong)
qed

lemma offers_kept: "wires_kept cx w w' \<Longrightarrow> offers cx nd w' = offers cx nd w"
  by (intro offers_cong) (simp_all add: wires_kept_def)

lemma offers_weds: "weds w' = weds w \<Longrightarrow> offers cx nd w' = offers cx nd w"
  by (intro offers_cong) (simp_all add: wireId_of_def)

lemma offers_put:
  assumes "map_of (discoveredNodes nd) node = None" "wiring_ep_descriptions_list n = [d]" "wireId_of cx w d = Some wire"
  shows "offers cx (nd\<lparr>discoveredNodes := hashMap_put cx h (string_same cx) node n (discoveredNodes nd)\<rparr>) w =
    insert (node, wire) (offers cx nd w)"
proof -
  have new: "\<not> hashMap_containsKey (string_same cx) (discoveredNodes nd) node"
    using assms(1) by (simp add: smap.containsKey_iff map_of_eq_None_iff)
  obtain pre post where "discoveredNodes nd = pre @ post"
      "hashMap_put cx h (string_same cx) node n (discoveredNodes nd) = pre @ (node, n) # post"
    using hashMap_put_split [OF new] by blast
  then show ?thesis using assms(2,3) by (simp add: offers_def)
qed

lemma offers_member:
  assumes "map_of (discoveredNodes nd) node = Some n" "e \<in> set (wiring_ep_descriptions_list n)" "Some wire = wireId_of cx w e"
  shows "(node, wire) \<in> offers cx nd w"
proof -
  have "(node, wire) = (node, the (wireId_of cx w e))" by (simp add: assms(3) [symmetric])
  then show ?thesis
    unfolding offers_def by (intro UN_I [OF map_of_SomeD [OF assms(1)]]) (simp add: image_eqI [OF _ assms(2)])
qed

lemma replace_keyed:
  assumes "map_of m node = Some old"
  shows "\<exists>pre post. m = pre @ (node, old) # post \<and> (\<forall>v. hashMap_replace (string_same cx) node v m = pre @ (node, v) # post)"
  using assms
proof (induction m)
  case (Cons e m)
  obtain k v where e: "e = (k, v)" by (cases e)
  show ?case
  proof (cases "k = node")
    case True
    then show ?thesis using Cons.prems e by (intro exI [of _ "[]"] exI [of _ m]) (simp add: smap.same_iff)
  next
    case False
    then obtain pre post where m: "m = pre @ (node, old) # post" "\<And>v. hashMap_replace (string_same cx) node v m = pre @ (node, v) # post"
      using Cons e by auto
    then have "hashMap_replace (string_same cx) node v' (e # m) = (e # pre) @ (node, v') # post" for v'
      using False e by (simp add: smap.same_iff)
    then show ?thesis using m(1) by (metis append_Cons)
  qed
qed simp

lemma offers_append:
  assumes "map_of (discoveredNodes nd) node = Some old" "wireId_of cx w d = Some wire"
  shows "offers cx (nd\<lparr>discoveredNodes := hashMap_replace (string_same cx) node
      (old\<lparr>wiring_ep_descriptions_list := wiring_ep_descriptions_list old @ [d]\<rparr>) (discoveredNodes nd)\<rparr>) w =
    insert (node, wire) (offers cx nd w)"
proof -
  obtain pre post where "discoveredNodes nd = pre @ (node, old) # post"
      "\<And>v. hashMap_replace (string_same cx) node v (discoveredNodes nd) = pre @ (node, v) # post"
    using replace_keyed [OF assms(1)] by blast
  then show ?thesis using assms(2) by (auto simp: offers_def)
qed

section \<open>Listeners that answer\<close>

definition answers :: "celix \<Rightarrow> 'x wiring_endpoint_listener \<Rightarrow> bool" where
  "answers cx l \<longleftrightarrow> (\<forall>d s w. wireId_of cx w d \<noteq> None \<and> finite (dom (weds w)) \<longrightarrow>
     (\<exists>st w'. wiringEndpointAdded l d s w = Inr (st, w') \<and> finite (dom (weds w'))))"

definition audience :: "'x nd_env \<Rightarrow> node_discovery \<Rightarrow> bool" where
  "audience env nd \<longleftrightarrow> listeners_ok env \<and> (\<forall>(ref, u) \<in> set (listenerReferences nd).
     serviceReference_getProperty (nd_cx env) ref ''RSA'' = None \<longrightarrow> (\<exists>l. nd_getService env ref = Some l \<and> answers (nd_cx env) l))"

lemma inform_answers:
  assumes "audience env nd" "wireId_of (nd_cx env) w d \<noteq> None" "finite (dom (weds w))"
  shows "\<exists>w'. inform env nd True d w = Inr w' \<and> wires_kept (nd_cx env) w w' \<and> finite (dom (weds w'))"
proof -
  let ?P = "\<lambda>u. wireId_of (nd_cx env) u d \<noteq> None \<and> finite (dom (weds u))"
  have ok: "listeners_ok env" using assms(1) by (simp add: audience_def)
  have step: "\<exists>u'. inform_listener env d True ref u = Inr u' \<and> ?P u'"
    if ref: "ref \<in> set (map fst (listenerReferences nd))" and u: "?P u" for ref u
  proof -
    obtain p where p: "wed_deref d u = Inr p" using u by (cases "weds u d") (auto simp: wed_deref_def wireId_of_def)
    let ?scope = "serviceReference_getProperty (nd_cx env) ref ''wiring.endpoint.listener.scope''"
    have "\<exists>u'. inform_listener env d True ref u = Inr u' \<and> finite (dom (weds u'))"
    proof (cases "filter_match (nd_cx env) ?scope p \<and> serviceReference_getProperty (nd_cx env) ref ''RSA'' = None")
      case True
      then obtain l where l: "nd_getService env ref = Some l" "answers (nd_cx env) l"
        using assms(1) ref by (auto simp: audience_def)
      then obtain st u' where "wiringEndpointAdded l d ?scope u = Inr (st, u')" "finite (dom (weds u'))"
        using u unfolding answers_def by blast
      then show ?thesis using p l(1) True by (simp add: inform_listener_def Let_def)
    next
      case False
      then show ?thesis using p u by (auto simp: inform_listener_def Let_def)
    qed
    then obtain u' where u': "inform_listener env d True ref u = Inr u'" "finite (dom (weds u'))" by blast
    then have "wires_kept (nd_cx env) u u'" by (intro inform_listener_keeps [OF ok])
    then show ?thesis using u u' by (simp add: wires_kept_def)
  qed
  obtain u where "rfold (inform_listener env d True) (map fst (listenerReferences nd)) w = Inr u" "?P u"
    using rfold_total [where P = ?P and xs = "map fst (listenerReferences nd)" and f = "inform_listener env d True" and s = w] step assms(2,3)
    by blast
  then have "\<exists>w'. inform env nd True d w = Inr w' \<and> finite (dom (weds w'))"
    using assms(3) by (simp add: inform_def node_discovery_informWiringEndpointListeners_def Let_def)
  then show ?thesis using inform_keeps [OF ok] by blast
qed

section \<open>One endpoint\<close>

text \<open>What a report leaves alone.\<close>

definition sync_frame :: "node_discovery \<Rightarrow> node_discovery \<Rightarrow> bool" where
  "sync_frame nd nd' \<longleftrightarrow> ownNode nd' = ownNode nd \<and> listenerReferences nd' = listenerReferences nd"

lemma inform_nodes: "inform env (nd\<lparr>discoveredNodes := x\<rparr>) = inform env nd"
  by (simp add: inform_def node_discovery_informWiringEndpointListeners_def fun_eq_iff Let_def)

lemma addNode_offers:
  assumes "audience env nd" "nd_sound (nd_cx env) nd w" "finite (dom (weds w))"
    and "nodeId n = Some node" "wiring_ep_descriptions_list n = [d]" "d \<notin> set (found nd)" "wireId_of (nd_cx env) w d = Some wire"
  shows "\<exists>nd' w'. node_discovery_addNode env n nd w = Inr (CELIX_SUCCESS, nd', w') \<and>
    offers (nd_cx env) nd' w' = insert (node, wire) (offers (nd_cx env) nd w) \<and> finite (dom (weds w')) \<and> sync_frame nd nd'"
proof -
  let ?cx = "nd_cx env"
  obtain w1 where told: "inform env nd True d w = Inr w1" "wires_kept ?cx w w1" "finite (dom (weds w1))"
    using inform_answers [OF assms(1) _ assms(3), of d] assms(7) by auto
  show ?thesis
  proof (cases "map_of (discoveredNodes nd) node")
    case None
    let ?nd = "nd\<lparr>discoveredNodes := hashMap_put ?cx (utils_stringHash ?cx) (string_same ?cx) node n (discoveredNodes nd)\<rparr>"
    have "node_discovery_addNode env n nd w = Inr (CELIX_SUCCESS, ?nd, w1)"
      using None assms(4,5) told(1) by (simp add: node_discovery_addNode_def smap.get_map_of Let_def inform_nodes)
    moreover have "offers ?cx ?nd w1 = insert (node, wire) (offers ?cx nd w)"
      using offers_put [OF None assms(5,7)] offers_kept [OF told(2)] by simp
    ultimately show ?thesis using told(3) by (simp add: sync_frame_def)
  next
    case (Some old)
    let ?l = "wiring_ep_descriptions_list old"
    let ?with = "\<lambda>l. nd\<lparr>discoveredNodes := hashMap_replace (string_same ?cx) node (old\<lparr>wiring_ep_descriptions_list := l\<rparr>) (discoveredNodes nd)\<rparr>"
    have "\<forall>e \<in> set ?l. wireId_of ?cx w e \<noteq> None"
      using assms(2) found_member [OF Some] by (simp add: nd_sound_def)
    then have known: "find_wire ?cx (Some wire) ?l w = Inr (Some wire \<in> wireId_of ?cx w ` set ?l)" by (simp add: find_wire_eq)
    have id: "wire_of ?cx d w = Inr (Some wire)" using wire_of_eq [of ?cx w d] assms(7) by simp
    have run: "node_discovery_addNode env n nd w = rbind (add_wep env nd d (?l, w)) (\<lambda>(l, w'). Inr (CELIX_SUCCESS, ?with l, w'))"
      using Some assms(4,5) by (cases "add_wep env nd d (?l, w)")
        (simp_all add: node_discovery_addNode_def smap.get_map_of nodeDescription_destroy_def split_beta)
    show ?thesis
    proof (cases "Some wire \<in> wireId_of ?cx w ` set ?l")
      case False
      then have "node_discovery_addNode env n nd w = Inr (CELIX_SUCCESS, ?with (?l @ [d]), w1)"
        unfolding run using known id told(1) by (simp add: add_wep_def)
      moreover have "offers ?cx (?with (?l @ [d])) w1 = insert (node, wire) (offers ?cx nd w)"
        using offers_append [OF Some assms(7)] offers_kept [OF told(2)] by simp
      ultimately show ?thesis using told(3) by (simp add: sync_frame_def)
    next
      case True
      obtain p where p: "weds w d = Some p" using assms(7) by (auto simp: wireId_of_Some)
      then obtain w2 where w2: "destroy_wed d w = Inr w2" "finite (dom (weds w2))"
        using assms(3) by (auto simp: destroy_wed_def wiringEndpointDescription_destroy_def)
      then have "node_discovery_addNode env n nd w = Inr (CELIX_SUCCESS, ?with ?l, w2)"
        unfolding run using known id True by (simp add: add_wep_def)
      moreover have "discoveredNodes (?with ?l) = discoveredNodes nd"
        using replace_keyed [OF Some, of ?cx] by auto
      then have "offers ?cx (?with ?l) w2 = offers ?cx nd w"
        by (rule offers_cong) (rule destroy_wed_other [OF w2(1)], use assms(6) in blast)
      moreover have "(node, wire) \<in> offers ?cx nd w"
        using True offers_member [OF Some] by auto
      ultimately show ?thesis using w2(2) by (simp add: sync_frame_def insert_absorb)
    qed
  qed
qed

section \<open>The store as a set of wires\<close>

text \<open>
  A store holds a text and a modification index under some keys. An entry stands for a wire of
  a node: the node of the key and the wire id of the text, or that of the key when the text has
  none.
\<close>

type_synonym store = "string \<Rightarrow> (string \<times> int) option"

definition entry_wire :: "celix \<Rightarrow> string \<Rightarrow> string \<Rightarrow> string \<Rightarrow> (string \<times> string) option" where
  "entry_wire cx root k v =
     (case scan_key root k of
        Inr (Some (zone, node, wire)) \<Rightarrow>
          (case wiringEndpoint_properties_load cx v (Some []) of
             Inr (st, q) \<Rightarrow> Some (node, case Option.bind q (\<lambda>p. map_of p WIRE_ID_KEY) of Some i \<Rightarrow> i | None \<Rightarrow> wire)
           | Inl e \<Rightarrow> None)
      | _ \<Rightarrow> None)"

definition stored_wire :: "celix \<Rightarrow> string \<Rightarrow> store \<Rightarrow> string \<Rightarrow> (string \<times> string) option" where
  "stored_wire cx root store k = Option.bind (store k) (\<lambda>(v, i). entry_wire cx root k v)"

definition stored_wires :: "celix \<Rightarrow> string \<Rightarrow> store \<Rightarrow> string list \<Rightarrow> (string \<times> string) set" where
  "stored_wires cx root store ks = (\<Union>k \<in> set ks. set_option (stored_wire cx root store k))"

definition stored_index :: "store \<Rightarrow> string \<Rightarrow> int" where
  "stored_index store k = (case store k of None \<Rightarrow> 0 | Some (v, i) \<Rightarrow> i)"

text \<open>The status of a synchronisation is the one of its last key.\<close>

definition sync_status :: "store \<Rightarrow> string list \<Rightarrow> celix_status \<Rightarrow> celix_status" where
  "sync_status store ks st = (if ks = [] then st else if store (last ks) = None then CELIX_ILLEGAL_STATE else CELIX_SUCCESS)"

text \<open>The server answers requests for the keys from the store, and every text it has is that of a wire.\<close>

definition serves :: "'x ew_env \<Rightarrow> string \<Rightarrow> store \<Rightarrow> string list \<Rightarrow> bool" where
  "serves env root store ks \<longleftrightarrow> (\<forall>k \<in> set ks.
     (\<forall>x. \<exists>x'. etcd_get (ew_lib env) (ew_conn env) k x = Inr (map_option (\<lambda>(v, i). (CStr v, i)) (store k), x')) \<and>
     (store k \<noteq> None \<longrightarrow> stored_wire (ew_cx env) root store k \<noteq> None))"

definition never_full :: "'x ew_env \<Rightarrow> bool" where
  "never_full env \<longleftrightarrow> (\<forall>w. finite (dom (weds w)) \<longrightarrow> ew_alloc env w \<noteq> None)"

section \<open>The synchronisation\<close>

lemma entry_read:
  assumes "rootPath (ew_cx env) = Inr root" "entry_wire (ew_cx env) root k v = Some (node, wire)" "ew_alloc env w = Some d"
  shows "\<exists>n p. etcdWatcher_getWiringEndpointFromKey env k (Some v) w = Inr (CELIX_SUCCESS, Some n, w\<lparr>weds := (weds w)(d \<mapsto> p)\<rparr>) \<and>
    nodeId n = Some node \<and> wiring_ep_descriptions_list n = [d] \<and> map_of p WIRE_ID_KEY = Some wire"
proof -
  obtain zone kwire st q where r: "scan_key root k = Inr (Some (zone, node, kwire))"
      "wiringEndpoint_properties_load (ew_cx env) v (Some []) = Inr (st, q)"
      "wire = (case Option.bind q (\<lambda>p. map_of p WIRE_ID_KEY) of Some i \<Rightarrow> i | None \<Rightarrow> kwire)"
    using assms(2) by (auto simp: entry_wire_def split: sum.split_asm option.split_asm)
  let ?p = "case q of Some p \<Rightarrow> p | None \<Rightarrow> []"
  obtain p where p: "wiringEndpointDescription_create (ew_cx env) True (ew_uuid env) (Some kwire) (Some ?p) = Inr (CELIX_SUCCESS, Some p)"
    by (cases "properties_get (ew_cx env) ?p WIRE_ID_KEY = None") (simp_all add: wiringEndpointDescription_create_def)
  have "map_of p WIRE_ID_KEY = Some wire"
    using create_wireId [OF p] r(3) by (cases q) simp_all
  moreover have "\<exists>n. etcdWatcher_getWiringEndpointFromKey env k (Some v) w = Inr (CELIX_SUCCESS, Some n, w\<lparr>weds := (weds w)(d \<mapsto> p)\<rparr>) \<and>
      nodeId n = Some node \<and> wiring_ep_descriptions_list n = [d]"
    using assms(1,3) r(1,2) p by (simp add: etcdWatcher_getWiringEndpointFromKey_def nodeDescription_create_def Let_def)
  ultimately show ?thesis by blast
qed

lemma existing_offers:
  assumes "audience (ew_nd env) nd" "nd_sound (ew_cx env) nd w" "finite (dom (weds w))" "never_full env"
    and "rootPath (ew_cx env) = Inr root" "serves env root store [k]"
  shows "\<exists>nd' w'. existing_node env (CStr k) (st, h, nd, w) =
      Inr (sync_status store [k] st, max h (stored_index store k), nd', w') \<and>
    offers (ew_cx env) nd' w' = offers (ew_cx env) nd w \<union> stored_wires (ew_cx env) root store [k] \<and>
    nd_sound (ew_cx env) nd' w' \<and> finite (dom (weds w')) \<and> sync_frame nd nd'"
proof -
  let ?cx = "ew_cx env"
  obtain x where x: "etcd_get (ew_lib env) (ew_conn env) k (rest w) = Inr (map_option (\<lambda>(v, i). (CStr v, i)) (store k), x)"
    using assms(6) unfolding serves_def by fastforce
  let ?w = "w\<lparr>rest := x\<rparr>"
  have w: "nd_sound ?cx nd ?w" "offers ?cx nd ?w = offers ?cx nd w"
    by (rule nd_sound_weds [OF assms(2)], simp) (rule offers_weds, simp)
  show ?thesis
  proof (cases "store k")
    case None
    then show ?thesis
      using x w assms(3) by (simp add: existing_node_def read_buf_def sync_status_def stored_index_def stored_wires_def
        stored_wire_def sync_frame_def)
  next
    case (Some vi)
    obtain v i where vi: "store k = Some (v, i)" using Some by (cases vi) simp
    then obtain node wire where e: "entry_wire ?cx root k v = Some (node, wire)"
      using assms(6) by (auto simp: serves_def stored_wire_def)
    obtain d where d: "ew_alloc env ?w = Some d" using assms(4) [unfolded never_full_def, rule_format, of ?w] assms(3) by auto
    then have new: "weds ?w d = None" by (auto simp: ew_alloc_def split: option.split_asm if_split_asm)
    obtain n p where read: "etcdWatcher_getWiringEndpointFromKey env k (Some v) ?w = Inr (CELIX_SUCCESS, Some n, ?w\<lparr>weds := (weds ?w)(d \<mapsto> p)\<rparr>)"
        "nodeId n = Some node" "wiring_ep_descriptions_list n = [d]" "map_of p WIRE_ID_KEY = Some wire"
      using entry_read [OF assms(5) e d] by blast
    let ?w1 = "?w\<lparr>weds := (weds ?w)(d \<mapsto> p)\<rparr>"
    have s1: "nd_sound ?cx nd ?w1" "fresh_report ?cx nd ?w1 n" using getWiringEndpoint_report [OF read(1) w(1)] by auto
    have fresh: "d \<notin> set (found nd)" using nd_sound_alive [OF w(1), of d] new by blast
    have "offers ?cx nd ?w1 = offers ?cx nd w"
      unfolding w(2) [symmetric] by (rule offers_cong [OF refl]) (use fresh in \<open>auto simp: wireId_of_def\<close>)
    moreover have "wireId_of ?cx ?w1 d = Some wire" using read(4) by (simp add: wireId_of_Some)
    ultimately obtain nd' w' where run: "node_discovery_addNode (ew_nd env) n nd ?w1 = Inr (CELIX_SUCCESS, nd', w')"
        "offers ?cx nd' w' = insert (node, wire) (offers ?cx nd w)" "finite (dom (weds w'))" "sync_frame nd nd'"
      using addNode_offers [OF assms(1) s1(1) _ read(2,3) fresh] assms(3) by auto
    have "nd_sound ?cx nd' w'"
      by (rule addNode_sound [OF _ s1 run(1)]) (use assms(1) in \<open>simp add: audience_def\<close>)
    then show ?thesis
      using x vi read(1) run e
      by (simp add: existing_node_def read_buf_def sync_status_def stored_index_def stored_wires_def stored_wire_def Let_def)
  qed
qed

lemma existing_all_offer:
  assumes "audience (ew_nd env) nd" "nd_sound (ew_cx env) nd w" "finite (dom (weds w))" "never_full env"
    and "rootPath (ew_cx env) = Inr root" "serves env root store ks"
  shows "\<exists>nd' w'. rfold (existing_node env) (map CStr ks) (st, h, nd, w) =
      Inr (sync_status store ks st, fold (\<lambda>k h. max h (stored_index store k)) ks h, nd', w') \<and>
    offers (ew_cx env) nd' w' = offers (ew_cx env) nd w \<union> stored_wires (ew_cx env) root store ks \<and>
    nd_sound (ew_cx env) nd' w' \<and> finite (dom (weds w')) \<and> sync_frame nd nd'"
  using assms(1-3,6)
proof (induction ks arbitrary: st h nd w)
  case Nil
  then show ?case by (simp add: sync_status_def stored_wires_def sync_frame_def)
next
  case (Cons k ks)
  let ?cx = "ew_cx env"
  have one: "serves env root store [k]" and more: "serves env root store ks" using Cons.prems(4) by (simp_all add: serves_def)
  obtain nd1 w1 where k: "existing_node env (CStr k) (st, h, nd, w) = Inr (sync_status store [k] st, max h (stored_index store k), nd1, w1)"
      "offers ?cx nd1 w1 = offers ?cx nd w \<union> stored_wires ?cx root store [k]" "nd_sound ?cx nd1 w1" "finite (dom (weds w1))" "sync_frame nd nd1"
    using existing_offers [OF Cons.prems(1-3) assms(4,5) one] by blast
  have "audience (ew_nd env) nd1" using Cons.prems(1) k(5) by (simp add: audience_def sync_frame_def)
  from Cons.IH [OF this k(3,4) more, of "sync_status store [k] st" "max h (stored_index store k)"]
  obtain nd' w' where ks: "rfold (existing_node env) (map CStr ks) (sync_status store [k] st, max h (stored_index store k), nd1, w1) =
        Inr (sync_status store ks (sync_status store [k] st), fold (\<lambda>k h. max h (stored_index store k)) ks (max h (stored_index store k)), nd', w')"
      "offers ?cx nd' w' = offers ?cx nd1 w1 \<union> stored_wires ?cx root store ks" "nd_sound ?cx nd' w'" "finite (dom (weds w'))" "sync_frame nd1 nd'"
    by blast
  have "sync_status store ks (sync_status store [k] st) = sync_status store (k # ks) st" by (simp add: sync_status_def)
  moreover have "offers ?cx nd' w' = offers ?cx nd w \<union> stored_wires ?cx root store (k # ks)"
    unfolding ks(2) k(2) by (auto simp: stored_wires_def)
  ultimately show ?case using k(1,5) ks(1,3-5) by (simp add: sync_frame_def)
qed

text \<open>
  C19. The synchronisation refines the union of two sets: afterwards the discovery offers what it
  offered before and the wires of the store, and nothing is withdrawn. The answered index is the
  highest of the store. It is where the watcher goes on, so the removal of a wire that is older
  than the newest entry and was not read yet never reaches the discovery.
\<close>

theorem sync_adds_stored:
  assumes "audience (ew_nd env) nd" "nd_sound (ew_cx env) nd w" "finite (dom (weds w))" "never_full env"
    and "rootPath (ew_cx env) = Inr root"
    and "etcd_getEndpoints (ew_lib env) (ew_conn env) root (rest w) = Inr ((True, map CStr ks), x)" "serves env root store ks"
  shows "\<exists>nd' w'. etcdWatcher_addAlreadyExistingNodes env True nd w =
      Inr (sync_status store ks CELIX_SUCCESS, Max (insert (-1) (stored_index store ` set ks)), nd', w') \<and>
    offers (ew_cx env) nd' w' = offers (ew_cx env) nd w \<union> stored_wires (ew_cx env) root store ks \<and>
    nd_sound (ew_cx env) nd' w' \<and> sync_frame nd nd'"
proof -
  let ?cx = "ew_cx env" and ?w = "w\<lparr>rest := x\<rparr>"
  have w: "nd_sound ?cx nd ?w" "offers ?cx nd ?w = offers ?cx nd w" "finite (dom (weds ?w))"
    by (rule nd_sound_weds [OF assms(2)], simp) (rule offers_weds, simp, use assms(3) in simp)
  have "fold (\<lambda>k h. max h (stored_index store k)) ks (-1) = Max (insert (-1) (stored_index store ` set ks))"
  proof -
    have "(\<lambda>k h. max h (stored_index store k)) = max \<circ> stored_index store" by (simp add: fun_eq_iff max.commute)
    then show ?thesis using Max.set_eq_fold [of "-1" "map (stored_index store) ks"] by (simp add: fold_map)
  qed
  then show ?thesis
    using existing_all_offer [OF assms(1) w(1,3) assms(4,5,7), of CELIX_SUCCESS "-1"] assms(5,6) w(2)
    by (auto simp: etcdWatcher_addAlreadyExistingNodes_def)
qed

text \<open>
  For the witness: one node with one wire is known, the store holds another wire of it, and the
  memory is handed out upwards.
\<close>

definition demo_sync :: "nat ew_env" where
  "demo_sync = demo_disc\<lparr>ew_conn := demo_conn, ew_calloc := (\<lambda>w. Some (Suc (Max (insert 0 (dom (weds w))))))\<rparr>"

lemma demo_sync_ready:
  "audience (ew_nd demo_sync) demo_nd" "nd_sound (ew_cx demo_sync) demo_nd demo_nd_world" "never_full demo_sync"
  "rootPath (ew_cx demo_sync) = Inr ''fw-1''"
proof -
  show "audience (ew_nd demo_sync) demo_nd"
    using demo_listeners_ok by (simp add: audience_def demo_sync_def demo_disc_def demo_nd_defs answers_def quiet_listener_def)
  show "nd_sound (ew_cx demo_sync) demo_nd demo_nd_world"
    by (simp add: nd_sound_def found_def demo_sync_def demo_disc_def demo_nd_defs wireId_of_def properties_get_map_of)
  have "weds w (Suc (Max (insert 0 (dom (weds w))))) = None" if "finite (dom (weds w))" for w :: "nat world"
  proof (rule ccontr)
    assume "weds w (Suc (Max (insert 0 (dom (weds w))))) \<noteq> None"
    then have "Suc (Max (insert 0 (dom (weds w)))) \<le> Max (insert 0 (dom (weds w)))" using that by (intro Max_ge) auto
    then show False by simp
  qed
  then show "never_full demo_sync" by (simp add: never_full_def ew_alloc_def demo_sync_def)
  show "rootPath (ew_cx demo_sync) = Inr ''fw-1''"
    by (simp add: rootPath_def etcdWatcher_getRootPath_def demo_sync_def demo_disc_def demo_nd_env_def celix0_def getProperty_ok_def
      MAX_ROOTNODE_LENGTH_def read_buf_def)
qed

lemma demo_stored: "stored_wire (ew_cx demo_sync) ''fw-1'' (\<lambda>k. Some ([], 3)) ''/fw-1/z/n1/w1'' = Some (''n1'', ''w1'')"
  using scan_key_parts [of "''fw-1''" "''z''" "''n1''" "''w1''"]
  by (simp add: stored_wire_def entry_wire_def path_simps wiringEndpoint_properties_load_def)

theorem sync_adds_stored_witness:
  "\<exists>nd' w'. etcdWatcher_addAlreadyExistingNodes demo_sync True demo_nd demo_nd_world = Inr (CELIX_SUCCESS, 3, nd', w') \<and>
    offers (ew_cx demo_sync) nd' w' = {(''n1'', ''a''), (''n1'', ''w1'')} \<and> sync_frame demo_nd nd'"
proof -
  let ?store = "\<lambda>k. Some ([], 3)" and ?ks = "[''/fw-1/z/n1/w1'']"
  have fin: "finite (dom (weds demo_nd_world))" by (simp add: demo_nd_world_def)
  have list: "etcd_getEndpoints (ew_lib demo_sync) (ew_conn demo_sync) ''fw-1'' (rest demo_nd_world) =
      Inr ((True, map CStr ?ks), rest demo_nd_world + 1)"
    by (simp add: demo_sync_def demo_disc_def demo_endpoints)
  have serves: "serves demo_sync ''fw-1'' ?store ?ks"
    using demo_stored by (simp add: serves_def demo_sync_def demo_disc_def demo_value)
  have "offers (ew_cx demo_sync) demo_nd demo_nd_world = {(''n1'', ''a'')}"
    by (simp add: offers_def demo_sync_def demo_disc_def demo_nd_defs wireId_of_def properties_get_map_of)
  moreover have "stored_wires (ew_cx demo_sync) ''fw-1'' ?store ?ks = {(''n1'', ''w1'')}"
    by (simp add: stored_wires_def demo_stored)
  moreover have "sync_status ?store ?ks CELIX_SUCCESS = CELIX_SUCCESS" "Max (insert (-1) (stored_index ?store ` set ?ks)) = 3"
    by (simp_all add: sync_status_def stored_index_def)
  ultimately show ?thesis
    using sync_adds_stored [OF demo_sync_ready(1,2) fin demo_sync_ready(3,4) list serves] by auto
qed

end
