(* ===== verification/Civetweb_Strings_Correct.thy ===== *)
theory Civetweb_Strings_Correct
  imports Civetweb_Strings
begin

text \<open>
  Properties of the string routines: a cleaned path has no way up, and an encoded text is decoded to
  itself.
\<close>

section \<open>Cleaned paths\<close>

text \<open>After a slash comes no slash and no \<^verbatim>\<open>..\<close>.\<close>

definition goes_up :: "string \<Rightarrow> bool" where
  "goes_up s \<longleftrightarrow> s \<noteq> [] \<and> (is_slash (hd s) \<or> take 2 s = ''..'')"

fun clean :: "string \<Rightarrow> bool" where
  "clean [] \<longleftrightarrow> True"
| "clean (c # s) \<longleftrightarrow> (is_slash c \<longrightarrow> \<not> goes_up s) \<and> clean s"

lemma skip_dots_stops: "\<not> goes_up (skip_dots s)"
proof (induction s rule: skip_dots.induct)
  case (2 c s)
  then show ?case by (cases s) (auto simp: goes_up_def)
qed (simp add: goes_up_def)

lemma skip_dots_id: "\<not> goes_up s \<Longrightarrow> skip_dots s = s"
  by (cases s; cases "tl s") (auto simp: goes_up_def)

lemma remove_goes_up:
  "\<not> goes_up s \<Longrightarrow> \<not> goes_up (remove_double_dots_and_double_slashes s)"
proof (cases s)
  case (Cons c t)
  assume up: "\<not> goes_up s"
  show ?thesis
  proof (cases "c = CHR ''.''")
    case True
    then have "\<not> is_slash c" by (simp add: is_slash_def)
    moreover have "remove_double_dots_and_double_slashes t = [] \<or> hd (remove_double_dots_and_double_slashes t) = hd t"
      by (cases t) simp_all
    ultimately show ?thesis using up Cons True by (cases t) (auto simp: goes_up_def take_Cons')
  next
    case False
    then show ?thesis using up Cons by (auto simp: goes_up_def)
  qed
qed simp

lemma remove_clean: "clean (remove_double_dots_and_double_slashes s)"
proof (induction s rule: remove_double_dots_and_double_slashes.induct)
  case (2 c s)
  then show ?case using remove_goes_up [OF skip_dots_stops [of s]] by (cases "is_slash c") simp_all
qed simp

lemma clean_id: "clean s \<Longrightarrow> remove_double_dots_and_double_slashes s = s"
  by (induction s) (auto simp: skip_dots_id)

text \<open>
  C18. No request climbs out of the directory it names. In the path the server goes on with, no
  slash or backslash is followed by another one or by two dots, whatever the client sent (after the
  decoding of \<^verbatim>\<open>%2e\<close> and the like), and cleaning it once more changes nothing.
\<close>

theorem cleaned_path_stays:
  "clean (remove_double_dots_and_double_slashes s) \<and>
   remove_double_dots_and_double_slashes (remove_double_dots_and_double_slashes s) = remove_double_dots_and_double_slashes s"
  by (simp add: remove_clean clean_id)

section \<open>Encoding and decoding\<close>

lemma escaped_digits:
  assumes "n < 16"
  shows "c_isxdigit (hex_digit n) \<and> HEXTOI (c_tolower (hex_digit n)) = n"
proof -
  have "list_all (\<lambda>n. c_isxdigit (hex_digit n) \<and> HEXTOI (c_tolower (hex_digit n)) = n) [0..<16]" by code_simp
  then show ?thesis using assms by (simp add: list_all_iff)
qed

lemma code_bound: "code c < 256"
  by (simp add: code_def)

lemma char_of_code: "char_of (code c) = c"
  by (simp add: code_def)

lemma unescaped: "c_isalnum c \<or> c \<in> set dont_escape \<Longrightarrow> c \<noteq> CHR ''%'' \<and> c \<noteq> CHR ''+''"
  by (auto simp: c_isalnum_def dont_escape_def c_tolower_def is_digit_def code_def)

lemma decode_encoded:
  "url_encode_loop s room = (d, True) \<Longrightarrow> length s \<le> room' \<Longrightarrow> url_decode_loop d room' form = (s, True)"
proof (induction s room arbitrary: d room' rule: url_encode_loop.induct)
  case (2 c s room)
  obtain r where r: "room' = Suc r" "length s \<le> r" using "2.prems"(2) by (cases room') auto
  show ?case
  proof (cases "c_isalnum c \<or> c \<in> set dont_escape")
    case True
    then obtain d' where d: "d = c # d'" "url_encode_loop s (room - 1) = (d', True)"
      using "2.prems"(1) by (auto split: if_split_asm prod.split_asm)
    have "url_decode_loop d' r form = (s, True)"
      using "2.IH"(1) True d(2) r(2) "2.prems"(1) by (auto split: if_split_asm)
    then show ?thesis using unescaped [OF True] by (simp add: d(1) r(1))
  next
    case False
    then obtain d' where d: "d = CHR ''%'' # hex_digit (code c div 16) # hex_digit (code c mod 16) # d'"
      "url_encode_loop s (room - 3) = (d', True)"
      using "2.prems"(1) by (auto split: if_split_asm prod.split_asm)
    have "url_decode_loop d' r form = (s, True)"
      using "2.IH"(2) False d(2) r(2) "2.prems"(1) by (auto split: if_split_asm)
    moreover have "code c div 16 < 16" using code_bound [of c] by simp
    moreover have "char_of (code c div 16 * 16 + code c mod 16) = c" using char_of_code [of c] by simp
    ultimately show ?thesis
      using escaped_digits [of "code c div 16"] escaped_digits [of "code c mod 16"] by (simp add: d(1) r(1))
  qed
qed simp

text \<open>
  A text that was encoded completely is decoded to itself, as a path and as a form value, in
  every destination with room for it.
\<close>

theorem url_decode_encode:
  assumes "mg_url_encode s n = (d, k)" "k \<noteq> - 1" "length s < m"
  shows "mg_url_decode d m form = (s, int (length s))"
proof -
  have "url_encode_loop s (n - 1) = (d, True)" using assms(1,2) by (auto simp: mg_url_encode_def split: prod.split_asm if_split_asm)
  then show ?thesis using decode_encoded [of s "n - 1" d "m - 1" form] assms(3) by (simp add: mg_url_decode_def)
qed

lemma url_decode_encode_witness: "mg_url_decode ''a%2fb%2b'' 10 True = (''a/b+'', 4)"
proof -
  have "mg_url_encode ''a/b+'' 20 = (''a%2fb%2b'', 8)" by code_simp
  from url_decode_encode [OF this, of 10 True] show ?thesis by simp
qed

end
