(* ===== verification/Civetweb_Start_Correct.thy ===== *)
theory Civetweb_Start_Correct
  imports Civetweb_Start Wiring_Admin_Correct
begin

text \<open>
  Starting the vendored web server: which options it takes, and that it refuses those of the
  wiring admin.
\<close>

section \<open>Options\<close>

text \<open>The options as the array that the caller passes.\<close>

definition option_array :: "(string \<times> string) list \<Rightarrow> string list" where
  "option_array ps = concat (map (\<lambda>(name, v). [name, v]) ps)"

lemma option_array_simps [simp]: "option_array [] = []" "option_array ((n, v) # ps) = n # v # option_array ps"
  by (simp_all add: option_array_def)

lemma option_index_none: "option_index os i name = None \<longleftrightarrow> name \<notin> fst ` set os"
proof (induction os arbitrary: i)
  case (Cons e os)
  then show ?case by (cases e) auto
qed simp

lemma option_index_nth: "option_index os i name = Some j \<Longrightarrow> i \<le> j \<and> j < i + length os \<and> fst (os ! (j - i)) = name"
proof (induction os arbitrary: i)
  case (Cons e os)
  obtain n v where e: "e = (n, v)" by (cases e)
  show ?case
  proof (cases "n = name")
    case False
    then have "option_index os (Suc i) name = Some j" using Cons.prems e by simp
    from Cons.IH [OF this] show ?thesis by (auto simp: nth_Cons' Suc_diff_Suc)
  qed (use Cons.prems e in simp)
qed simp

lemma set_options_unknown:
  assumes "n \<in> fst ` set ps" "get_option_index n = None"
  shows "set_options (option_array ps) cfg = None"
  using assms
proof (induction ps arbitrary: cfg)
  case (Cons p ps)
  obtain m v where p: "p = (m, v)" by (cases p)
  show ?case
  proof (cases "get_option_index m")
    case (Some i)
    then have "n \<in> fst ` set ps" using Cons.prems p by auto
    then show ?thesis using Some Cons.IH Cons.prems(2) p by simp
  qed (simp add: p)
qed simp

lemma set_options_known:
  assumes "\<forall>(n, v) \<in> set ps. get_option_index n \<noteq> None" "length cfg = length config_options"
  shows "\<exists>cfg'. set_options (option_array ps) cfg = Some cfg' \<and> length cfg' = length config_options \<and>
    (\<forall>n i. get_option_index n = Some i \<longrightarrow> cfg' ! i = (case map_of (rev ps) n of Some v \<Rightarrow> Some v | None \<Rightarrow> cfg ! i))"
  using assms
proof (induction ps arbitrary: cfg)
  case (Cons p ps)
  obtain n v where p: "p = (n, v)" by (cases p)
  then obtain i where i: "get_option_index n = Some i" using Cons.prems(1) by auto
  have len: "i < length cfg" using option_index_nth [of config_options 0 n i] i Cons.prems(2) by (simp add: get_option_index_def)
  have inj: "n' = n" if "get_option_index n' = Some i" for n'
    using option_index_nth [of config_options 0 n' i] option_index_nth [of config_options 0 n i] that i by (simp add: get_option_index_def)
  obtain cfg' where cfg': "set_options (option_array ps) (cfg[i := Some v]) = Some cfg'" "length cfg' = length config_options"
      "\<forall>m j. get_option_index m = Some j \<longrightarrow> cfg' ! j = (case map_of (rev ps) m of Some v \<Rightarrow> Some v | None \<Rightarrow> cfg[i := Some v] ! j)"
    using Cons.IH [of "cfg[i := Some v]"] Cons.prems by auto
  have "cfg' ! j = (case map_of (rev (p # ps)) m of Some v \<Rightarrow> Some v | None \<Rightarrow> cfg ! j)" if m: "get_option_index m = Some j" for m j
  proof (cases "m = n")
    case True
    then have "j = i" using m i by simp
    then show ?thesis using cfg'(3) m len True by (auto simp: p map_add_def split: option.splits)
  next
    case False
    then have "j \<noteq> i" using inj m by auto
    then show ?thesis using cfg'(3) m False by (auto simp: p map_add_def split: option.splits)
  qed
  then show ?case using cfg'(1,2) i by (simp add: p)
qed simp

section \<open>The options of the wiring admin\<close>

lemma short_trust_unknown: "get_option_index ''ssl_short_trust'' = None"
  by (simp add: get_option_index_def option_index_none config_options_def)

lemma wiring_options_refused: "set_options (option_array (webserver_options port full ca)) cfg = None"
  by (rule set_options_unknown [OF _ short_trust_unknown]) (simp add: webserver_options_def)

lemma start_refused: "\<exists>g'. mg_start_ctx menv (option_array (webserver_options port full ca)) g = Inr (None, g')"
  by (simp add: mg_start_ctx_def wiring_options_refused Let_def)

text \<open>
  The attempts of the wiring admin are calls of the vendored code; \<open>sys\<close> has the answers of the
  system and the shared state of each attempt, and a context is named by its attempt.
\<close>

definition vendored_server :: "wa_env \<Rightarrow> (nat \<Rightarrow> mg_env \<times> mg_globals) \<Rightarrow> bool" where
  "vendored_server env sys \<longleftrightarrow> (\<forall>k ps. mg_start env k ps =
     (case mg_start_ctx (fst (sys k)) (option_array ps) (snd (sys k)) of Inr (Some ctx, g) \<Rightarrow> Some k | _ \<Rightarrow> None))"

lemma find_nothing: "find (\<lambda>k. False) xs = None"
  by (induction xs) auto

lemma vendored_attempt: "vendored_server env sys \<Longrightarrow> mg_start env k (webserver_options port full ca) = None"
  using start_refused [of "fst (sys k)" port full ca "snd (sys k)"] by (auto simp: vendored_server_def)

text \<open>
  C9. With the web server of this repository no attempt to start it succeeds, whatever the system
  answers: the wiring admin passes an option that the server does not know. The first export ends
  with success nevertheless, without a server, and announces a URL at which nothing listens.
\<close>

theorem vendored_server_never_starts:
  assumes "vendored_server env sys" "framework_ok env u" "wiringReceiveTracker (rest w) = []"
    and "wa_trust env = Some tp" "tp_full_cert tp = Some full" "tp_ca_cert tp = Some ca" "wa_access env full" "wa_access env ca"
    and "snd (bundleContext_getProperty (wa_cx env) ''NODE_DISCOVERY_NODE_WA_PORT'') = Some port"
    and "webserver_ip env = Some ip" "length ip \<le> 100" "length port \<le> 5" "\<forall>a. heap_calloc env (w\<lparr>rest := a\<rparr>) = Some d"
  shows "\<exists>w' p. wiringAdmin_exportWiringEndpoint env w = Inr (CELIX_SUCCESS, Some d, w') \<and> weds w' = (weds w)(d \<mapsto> p) \<and>
    map_of p HTTP_URL_KEY = Some (''https://'' @ ip @ '':'' @ (nextPort ^^ 5) port) \<and> wa_ctx (rest w') = None"
proof -
  have len: "length ((nextPort ^^ k) port) \<le> 5" for k
    using assms(12) by (cases k) (simp_all add: nextPort_def snprintf_def Let_def case_prod_beta)
  have url: "snprintf MAX_URL_LENGTH (''https://'' @ ip @ '':'' @ (nextPort ^^ 5) port) = ''https://'' @ ip @ '':'' @ (nextPort ^^ 5) port"
    using assms(11) len [of 5] by (intro snprintf_id) (simp add: MAX_URL_LENGTH_def)
  have "webserver_loop env full ca 0 5 port = Inr (None, (nextPort ^^ 5) port)"
    using webserver_loop_attempts [OF assms(7,8), of 0 5 port] by (simp add: vendored_attempt [OF assms(1)] find_nothing)
  then have start: "wiringAdmin_startWebserver env a = Inr (CELIX_SUCCESS, a\<lparr>wa_ctx := None, wa_url := ''https://'' @ ip @ '':'' @ (nextPort ^^ 5) port\<rparr>)" for a
    using assms(4-10) url [simplified] by (simp add: wiringAdmin_startWebserver_def MAX_NUMBER_OF_RESTARTS_def)
  let ?a = "(lockE (rest w))\<lparr>wa_ctx := None, wa_url := ''https://'' @ ip @ '':'' @ (nextPort ^^ 5) port\<rparr>"
  have uuid: "bundleContext_getProperty (wa_cx env) (OSGI_FRAMEWORK_FRAMEWORK_UUID (wa_cx env)) = (CELIX_SUCCESS, Some u)"
    using assms(2) by (simp add: framework_ok_def)
  have "export_locked env (w\<lparr>rest := lockE (rest w)\<rparr>) = export_described env (Some u) (w\<lparr>rest := ?a\<rparr>)"
    using assms(3) start uuid by (simp add: export_locked_def lockE_def)
  moreover obtain w' p where "export_described env (Some u) (w\<lparr>rest := ?a\<rparr>) = Inr (CELIX_SUCCESS, Some d, w')" "weds w' = (weds w)(d \<mapsto> p)"
      "map_of p HTTP_URL_KEY = Some (wa_url ?a)" "wa_ctx (rest w') = None" "exportedLock (rest w')"
    using export_described_ok [OF assms(2), of "w\<lparr>rest := ?a\<rparr>" d] assms(13) by (auto simp: lockE_def)
  ultimately show ?thesis
    by (intro exI [of _ "w'\<lparr>rest := (rest w')\<lparr>exportedLock := False\<rparr>\<rparr>"] exI [of _ p])
      (simp add: wiringAdmin_exportWiringEndpoint_def unlockE_def)
qed

text \<open>A system that would let a server start, for the witness.\<close>

definition demo_ssl :: ssl_answers where
  "demo_ssl = \<lparr>ssl_crypto_loads = True, ssl_mutexes_calloc = True, ssl_library_loads = True, ssl_locks = True, SSL_CTX_new = True,
     SSL_CTX_use_certificate_file = (\<lambda>p. True), SSL_CTX_use_PrivateKey_file = (\<lambda>p. True), SSL_CTX_check_private_key = True,
     SSL_CTX_use_certificate_chain_file = (\<lambda>p. True), SSL_CTX_load_verify_locations = (\<lambda>f p. True),
     SSL_CTX_set_default_verify_paths = True\<rparr>"

definition demo_system :: mg_env where
  "demo_system = \<lparr>me_calloc = True, me_key_create = True, me_sync = True, me_stat = (\<lambda>p. True), me_init_ssl = None, me_ssl = demo_ssl,
     me_socket = (\<lambda>i s. True), me_bind = (\<lambda>i s. True), me_listen = (\<lambda>i s. True), me_getsockname = (\<lambda>i s. Some (so_port s)),
     me_realloc_sockets = (\<lambda>i. True), me_realloc_ports = (\<lambda>i. True), me_getpwnam = (\<lambda>u. None), me_setgid = (\<lambda>g. False),
     me_setgroups = False, me_setuid = (\<lambda>u. False), me_calloc_ids = True, me_thread = (\<lambda>i. True)\<rparr>"

definition no_users :: mg_globals where
  "no_users = \<lparr>sTlsInit = 0, cryptolib_users = 0, cryptolib_dll = False, ssllib_dll = False, ssl_mutexes = False, ssl_callback = False\<rparr>"

definition demo_vendored :: wa_env where
  "demo_vendored = demo_wa_env\<lparr>mg_start := (\<lambda>k ps. case mg_start_ctx demo_system (option_array ps) no_users of
     Inr (Some ctx, g) \<Rightarrow> Some k | _ \<Rightarrow> None)\<rparr>"

theorem vendored_server_never_starts_witness:
  "\<exists>w' p. wiringAdmin_exportWiringEndpoint demo_vendored \<lparr>weds = Map.empty, rest = demo_wa\<rparr> = Inr (CELIX_SUCCESS, Some 1, w') \<and>
    weds w' = [1 \<mapsto> p] \<and> map_of p HTTP_URL_KEY = Some (''https://10.0.0.1:'' @ (nextPort ^^ 5) ''8080'') \<and> wa_ctx (rest w') = None"
proof -
  have v: "vendored_server demo_vendored (\<lambda>k. (demo_system, no_users))" by (simp add: vendored_server_def demo_vendored_def)
  have f: "framework_ok demo_vendored ''fw-1''" using demo_framework_ok by (simp add: framework_ok_def demo_vendored_def)
  show ?thesis
    using vendored_server_never_starts [OF v f, of "\<lparr>weds = Map.empty, rest = demo_wa\<rparr>" demo_trust "''/k/full.pem''" "''/k/ca.pem''"
        "''8080''" "''10.0.0.1''" 1]
    by (simp add: demo_vendored_def demo_wa_defs webserver_ip_def heap_calloc_def)
qed

section \<open>A server that starts\<close>

lemma strtoul10_dec:
  assumes "n < 2 ^ 64" "t = [] \<or> \<not> is_digit (hd t)"
  shows "strtoul10 (dec n @ t) = (word_of_nat n, t)"
proof -
  have ne: "dec n \<noteq> []" and dig: "is_digit (hd (dec n @ t))" using hd_dec_digit [of n] by simp_all
  have blank: "dropWhile is_cspace (dec n @ t) = dec n @ t"
    using dig digit_not_special(1) [OF dig] ne by (cases "dec n") auto
  have sign: "hd (dec n @ t) \<noteq> CHR ''-''" "hd (dec n @ t) \<noteq> CHR ''+''" using digit_not_special(2,3) [OF dig] by auto
  have all: "\<And>c. c \<in> set (dec n) \<Longrightarrow> is_digit c" using dec_all_digits by blast
  have "takeWhile is_digit t = []" "dropWhile is_digit t = t" using assms(2) by (cases t; simp)+
  then have "takeWhile is_digit (dec n @ t) = dec n" "dropWhile is_digit (dec n @ t) = t"
    using takeWhile_append2 [of "dec n" is_digit t] dropWhile_append2 [of "dec n" is_digit t] all by auto
  then show ?thesis using assms(1) ne sign by (simp add: strtoul10_def blank Let_def word_of_nat_eq_iff of_nat_less_iff)
qed

text \<open>Every option has the value the caller gave last, or its default.\<close>

definition config_value :: "(string \<times> string) list \<Rightarrow> string \<Rightarrow> string option" where
  "config_value ps n = (case map_of (rev ps) n of Some v \<Rightarrow> Some v | None \<Rightarrow> Option.bind (map_of config_options n) id)"

lemma option_index_map_of: "option_index os i name = Some j \<Longrightarrow> map_of os name = Some (snd (os ! (j - i)))"
proof (induction os arbitrary: i)
  case (Cons e os)
  obtain n v where e: "e = (n, v)" by (cases e)
  show ?case
  proof (cases "n = name")
    case False
    then have j: "option_index os (Suc i) name = Some j" using Cons.prems e by simp
    have "j - i = Suc (j - Suc i)" using option_index_nth [OF j] by linarith
    then show ?thesis using Cons.IH [OF j] False e by simp
  qed (use Cons.prems e in simp)
qed simp

lemma options_taken:
  assumes "\<forall>(n, v) \<in> set ps. get_option_index n \<noteq> None"
  shows "\<exists>cfg. set_options (option_array ps) (replicate (length config_options) None) = Some cfg \<and>
    (\<forall>n. get_option_index n \<noteq> None \<longrightarrow> config_of (set_defaults cfg) n = config_value ps n)"
proof -
  obtain cfg where cfg: "set_options (option_array ps) (replicate (length config_options) None) = Some cfg" "length cfg = length config_options"
      "\<forall>n i. get_option_index n = Some i \<longrightarrow>
         cfg ! i = (case map_of (rev ps) n of Some v \<Rightarrow> Some v | None \<Rightarrow> replicate (length config_options) None ! i)"
    using set_options_known [OF assms, of "replicate (length config_options) None"] by auto
  have "config_of (set_defaults cfg) n = config_value ps n" if n: "get_option_index n = Some i" for n i
  proof -
    have i: "i < length config_options" "map_of config_options n = Some (snd (config_options ! i))"
      using option_index_nth [of config_options 0 n i] option_index_map_of [of config_options 0 n i] n by (simp_all add: get_option_index_def)
    then have "set_defaults cfg ! i = (if cfg ! i = None then snd (config_options ! i) else cfg ! i)"
      using cfg(2) by (simp add: set_defaults_def case_prod_beta)
    moreover have "cfg ! i = map_of (rev ps) n" using cfg(3) n i(1) by (auto split: option.split)
    ultimately show ?thesis using n i(2) by (auto simp: config_of_def config_value_def split: option.split)
  qed
  then show ?thesis using cfg(1) by blast
qed

lemma parse_secure_port:
  assumes "n < 65535"
  shows "parse_port_string \<lparr>vec_ptr = dec n @ ''s'', vec_len = l\<rparr> =
    Some \<lparr>so_addr = 0, so_port = of_nat n, so_is_ssl = True, so_ssl_redir = False\<rparr>"
proof -
  have "n < 2 ^ 64" using assms by simp
  then have "strtoul10 (dec n @ ''s'') = (word_of_nat n, ''s'')" by (intro strtoul10_dec) (simp_all add: is_digit_def)
  moreover have "ucast (word_of_nat n :: 64 word) = (word_of_nat n :: 32 word)"
    using \<open>n < 2 ^ 64\<close> by (simp add: unsigned_of_nat take_bit_eq_mod)
  ultimately have u: "scan_unsigned (dec n @ ''s'') = Some (of_nat n, ''s'')" by (simp add: scan_unsigned_def)
  have "ucast (of_nat n :: 32 word) = (of_nat n :: 64 word)" "ucast (of_nat n :: 32 word) = (of_nat n :: 16 word)"
    using assms by (simp_all add: unsigned_of_nat take_bit_eq_mod)
  moreover have "unat (of_nat n :: 64 word) = n" using assms by (simp add: unat_of_nat)
  ultimately show ?thesis
    using assms u by (simp add: parse_port_string_def scan_dotted_def scan_char_def is_valid_port_def)
qed

text \<open>The options of the wiring admin that the server knows, and a system that answers them.\<close>

definition known_options :: "nat \<Rightarrow> string \<Rightarrow> string \<Rightarrow> (string \<times> string) list" where
  "known_options n full ca = butlast (webserver_options (dec n) full ca)"

definition system_ok :: "mg_env \<Rightarrow> bool" where
  "system_ok env \<longleftrightarrow> me_calloc env \<and> me_key_create env \<and> me_sync env \<and> me_init_ssl env = None \<and>
     ssl_crypto_loads (me_ssl env) \<and> ssl_mutexes_calloc (me_ssl env) \<and> ssl_library_loads (me_ssl env) \<and> SSL_CTX_new (me_ssl env) \<and>
     (\<forall>pem. ssl_use_pem_file (me_ssl env) pem) \<and> (\<forall>f p. SSL_CTX_load_verify_locations (me_ssl env) f p) \<and>
     SSL_CTX_set_default_verify_paths (me_ssl env)"

definition ports_ok :: "mg_env \<Rightarrow> bool" where
  "ports_ok env \<longleftrightarrow> (\<forall>i s. me_socket env i s \<and> me_bind env i s \<and> me_listen env i s \<and> me_getsockname env i s = Some (so_port s)) \<and>
     (\<forall>i. me_realloc_sockets env i \<and> me_realloc_ports env i)"

definition threads_ok :: "mg_env \<Rightarrow> bool" where
  "threads_ok env \<longleftrightarrow> me_calloc_ids env \<and> (\<forall>i. me_thread env i)"

lemma known_options_eq:
  assumes "n < 10000"
  shows "known_options n full ca = [(''listening_ports'', dec n @ ''s''), (''ssl_certificate'', full), (''ssl_verify_peer'', ''yes''), (''ssl_ca_file'', ca)]"
proof -
  have "length (dec n) \<le> 4" using assms by (intro length_dec_le) simp_all
  then show ?thesis by (simp add: known_options_def webserver_options_def securePort_def snprintf_def)
qed

lemma known_options_config:
  assumes "n < 10000"
  shows "\<exists>cfg. set_options (option_array (known_options n full ca)) (replicate (length config_options) None) = Some cfg \<and>
    config_of (set_defaults cfg) ''global_auth_file'' = None \<and> config_of (set_defaults cfg) ''run_as_user'' = None \<and>
    config_of (set_defaults cfg) ''access_control_list'' = None \<and> config_of (set_defaults cfg) ''num_threads'' = Some ''50'' \<and>
    config_of (set_defaults cfg) ''listening_ports'' = Some (dec n @ ''s'') \<and> config_of (set_defaults cfg) ''ssl_certificate'' = Some full \<and>
    config_of (set_defaults cfg) ''ssl_verify_peer'' = Some ''yes'' \<and> config_of (set_defaults cfg) ''ssl_default_verify_paths'' = Some ''yes''"
proof -
  note eq = known_options_eq [OF assms, of full ca]
  have "\<forall>(m, v) \<in> set (known_options n full ca). get_option_index m \<noteq> None"
    by (simp add: eq get_option_index_def option_index_none config_options_def)
  from options_taken [OF this] obtain cfg where cfg: "set_options (option_array (known_options n full ca)) (replicate (length config_options) None) = Some cfg"
      "\<And>m. get_option_index m \<noteq> None \<Longrightarrow> config_of (set_defaults cfg) m = config_value (known_options n full ca) m" by blast
  have "get_option_index ''global_auth_file'' \<noteq> None" "get_option_index ''run_as_user'' \<noteq> None" "get_option_index ''access_control_list'' \<noteq> None"
      "get_option_index ''num_threads'' \<noteq> None" "get_option_index ''listening_ports'' \<noteq> None" "get_option_index ''ssl_certificate'' \<noteq> None"
      "get_option_index ''ssl_verify_peer'' \<noteq> None" "get_option_index ''ssl_default_verify_paths'' \<noteq> None"
    by (simp_all add: get_option_index_def option_index_none config_options_def)
  with cfg(2) show ?thesis using cfg(1) by (intro exI [of _ cfg]) (simp add: config_value_def eq config_options_def)
qed

lemma set_ssl_ok:
  assumes "system_ok env" "cryptolib_users g = 0" "config_of cfg ''ssl_certificate'' = Some full"
  shows "set_ssl_option env cfg g = Inr ((True, True), g\<lparr>cryptolib_users := 1, cryptolib_dll := True, ssllib_dll := True, ssl_mutexes := True, ssl_callback := True\<rparr>)"
  using assms by (simp add: system_ok_def set_ssl_option_def initialize_ssl_def ssl_call_def Let_def)

lemma set_ports_single:
  assumes "config_of cfg ''listening_ports'' = Some (dec n @ ''s'')" "n < 10000"
  shows "set_ports_option env True cfg = rbind (add_listener env True 1 \<lparr>vec_ptr = dec n @ ''s'', vec_len = Suc (length (dec n))\<rparr> [])
    (\<lambda>(ok, sockets). Inr (if ok then (1, sockets) else (0, [])))"
proof -
  have "\<And>c. c \<in> set (dec n @ ''s'') \<Longrightarrow> c \<noteq> CHR '',''" using dec_all_digits [of n] by (auto simp: is_digit_def)
  then have "takeWhile (\<lambda>c. c \<noteq> CHR '','') (dec n @ ''s'') = dec n @ ''s''" by (simp add: takeWhile_eq_all_conv)
  then have opt: "next_option False (Some (dec n @ ''s'')) = Some ([], \<lparr>vec_ptr = dec n @ ''s'', vec_len = Suc (length (dec n))\<rparr>, None)"
    by (simp add: next_option_def Let_def)
  have fin: "next_option False (Some []) = None" by (simp add: next_option_def)
  have last: "set_ports_loop env True (Some []) t ok s = Inr (if ok \<noteq> t then (0, []) else (ok, s))" for t ok s
    by (subst set_ports_loop.simps) (simp add: fin)
  show ?thesis
    unfolding set_ports_option_def assms(1) by (subst set_ports_loop.simps) (auto simp: opt last fun_eq_iff intro!: arg_cong2 [where f = rbind])
qed

lemma start_workers_all: "\<forall>i. me_thread env i \<Longrightarrow> start_workers env i n = Inr (i + n)"
  by (induction n arbitrary: i) simp_all

text \<open>The one port of the options is listened at, with TLS, or nothing is.\<close>

definition tls_socket :: "nat \<Rightarrow> listen_socket" where
  "tls_socket n = \<lparr>so_addr = 0, so_port = of_nat n, so_is_ssl = True, so_ssl_redir = False\<rparr>"

lemma set_up_known:
  assumes "n < 10000" "system_ok env" "cryptolib_users g = 0"
    and "set_options (option_array (known_options n full ca)) (replicate (length config_options) None) = Some cfg"
    and "config_of (set_defaults cfg) ''global_auth_file'' = None" "config_of (set_defaults cfg) ''run_as_user'' = None"
    and "config_of (set_defaults cfg) ''access_control_list'' = None"
    and "config_of (set_defaults cfg) ''listening_ports'' = Some (dec n @ ''s'')"
    and "config_of (set_defaults cfg) ''ssl_certificate'' = Some full"
  shows "mg_set_up env (set_defaults cfg) g = rbind (add_listener env True 1 \<lparr>vec_ptr = dec n @ ''s'', vec_len = Suc (length (dec n))\<rparr> [])
    (\<lambda>(ok, sockets). Inr (if ok then Some \<lparr>ctx_config = set_defaults cfg, ctx_listening_sockets = sockets, ctx_ssl = True, ctx_workers = 0\<rparr> else None,
      g\<lparr>cryptolib_users := 1, cryptolib_dll := True, ssllib_dll := True, ssl_mutexes := True, ssl_callback := True\<rparr>))"
proof -
  have acl: "set_acl_option (set_defaults cfg)"
    unfolding set_acl_option_def check_acl_def Let_def assms(7) by (subst check_acl_loop.simps) (simp add: next_option_def)
  let ?v = "\<lparr>vec_ptr = dec n @ ''s'', vec_len = Suc (length (dec n))\<rparr>"
  show ?thesis
    using set_ssl_ok [OF assms(2,3,9)] set_ports_single [OF assms(8,1), of env] acl assms(5,6)
    by (cases "add_listener env True 1 ?v []") (auto simp: mg_set_up_def set_gpass_option_def set_uid_option_def)
qed

lemma start_known:
  assumes "n < 10000" "system_ok env" "ports_ok env" "threads_ok env" "cryptolib_users g = 0"
  shows "\<exists>ctx g'. mg_start_ctx env (option_array (known_options n full ca)) g = Inr (Some ctx, g') \<and>
    ctx_listening_sockets ctx = [(tls_socket n, of_nat n)] \<and> ctx_ssl ctx \<and> ctx_workers ctx = 50 \<and>
    is_yes (config_of (ctx_config ctx) ''ssl_verify_peer'')"
proof -
  obtain cfg where cfg: "set_options (option_array (known_options n full ca)) (replicate (length config_options) None) = Some cfg"
      "config_of (set_defaults cfg) ''global_auth_file'' = None" "config_of (set_defaults cfg) ''run_as_user'' = None"
      "config_of (set_defaults cfg) ''access_control_list'' = None" "config_of (set_defaults cfg) ''num_threads'' = Some ''50''"
      "config_of (set_defaults cfg) ''listening_ports'' = Some (dec n @ ''s'')" "config_of (set_defaults cfg) ''ssl_certificate'' = Some full"
      "config_of (set_defaults cfg) ''ssl_verify_peer'' = Some ''yes''"
    using known_options_config [OF assms(1), of full ca] by blast
  have parse: "parse_port_string \<lparr>vec_ptr = dec n @ ''s'', vec_len = Suc (length (dec n))\<rparr> = Some (tls_socket n)"
    using parse_secure_port [of n] assms(1) by (simp add: tls_socket_def)
  have add: "add_listener env True 1 \<lparr>vec_ptr = dec n @ ''s'', vec_len = Suc (length (dec n))\<rparr> [] = Inr (True, [(tls_socket n, of_nat n)])"
    using parse assms(3) by (simp add: add_listener_def ports_ok_def tls_socket_def)
  have "dec 50 = ''50''" by code_simp
  then have fifty: "c_atoi ''50'' = 50" using strtol10_dec [of 50] by (simp add: c_atoi_def int_of_long_def)
  have "is_yes (Some ''yes'')" by (simp add: is_yes_def)
  then show ?thesis
    using set_up_known [OF assms(1,2) _ cfg(1-4,6,7), of "g\<lparr>sTlsInit := sTlsInit g + 1\<rparr>"] cfg(1,5,8) assms(2,4,5)
      start_workers_all [of env 0 50]
    by (simp add: mg_start_ctx_def add [unfolded One_nat_def] system_ok_def mg_run_threads_def MAX_WORKER_THREADS_def threads_ok_def fifty)
qed

text \<open>
  Without the unknown option the server starts as the wiring admin means it to: it listens at the
  configured port only, with TLS, and asks its clients for a certificate.
\<close>

theorem known_options_start_tls:
  assumes "n < 10000" "system_ok env" "ports_ok env" "threads_ok env" "cryptolib_users g = 0"
  shows "\<exists>ctx g'. mg_start_ctx env (option_array (butlast (webserver_options (dec n) full ca))) g = Inr (Some ctx, g') \<and>
    ctx_listening_sockets ctx = [(tls_socket n, of_nat n)] \<and> ctx_ssl ctx \<and> ctx_workers ctx = 50 \<and>
    is_yes (config_of (ctx_config ctx) ''ssl_verify_peer'')"
  using start_known [OF assms, of full ca] by (simp add: known_options_def)

lemma demo_system_ok: "system_ok demo_system" "ports_ok demo_system" "threads_ok demo_system"
  by (simp_all add: system_ok_def ports_ok_def threads_ok_def demo_system_def demo_ssl_def ssl_use_pem_file_def)

theorem known_options_start_tls_witness:
  "\<exists>ctx g'. mg_start_ctx demo_system (option_array (butlast (webserver_options (dec 6789) ''/k/full.pem'' ''/k/ca.pem''))) no_users =
      Inr (Some ctx, g') \<and> ctx_listening_sockets ctx = [(tls_socket 6789, 6789)] \<and> ctx_ssl ctx"
proof -
  have "cryptolib_users no_users = 0" "(6789 :: nat) < 10000" by (simp_all add: no_users_def)
  then show ?thesis using known_options_start_tls [OF _ demo_system_ok] by (metis of_nat_numeral)
qed

text \<open>
  C40. A start that fails at its port frees the array of locks while OpenSSL still has it, and the
  next start does not make a new one: it faults at the first lock that OpenSSL takes. The wiring
  admin starts again at the next port in this case.
\<close>

theorem restart_after_taken_port_faults:
  assumes "n < 10000" "m < 10000" "system_ok env" "ssl_locks (me_ssl env)" "\<not> me_bind env 1 (tls_socket n)" "cryptolib_users g = 0"
  shows "\<exists>g'. mg_start_ctx env (option_array (known_options n full ca)) g = Inr (None, g') \<and>
    mg_start_ctx env (option_array (known_options m full ca)) g' = Inl NullPointer"
proof -
  obtain cfg where cfg: "set_options (option_array (known_options n full ca)) (replicate (length config_options) None) = Some cfg"
      "config_of (set_defaults cfg) ''global_auth_file'' = None" "config_of (set_defaults cfg) ''run_as_user'' = None"
      "config_of (set_defaults cfg) ''access_control_list'' = None"
      "config_of (set_defaults cfg) ''listening_ports'' = Some (dec n @ ''s'')" "config_of (set_defaults cfg) ''ssl_certificate'' = Some full"
    using known_options_config [OF assms(1), of full ca] by blast
  obtain cfg2 where cfg2: "set_options (option_array (known_options m full ca)) (replicate (length config_options) None) = Some cfg2"
      "config_of (set_defaults cfg2) ''global_auth_file'' = None" "config_of (set_defaults cfg2) ''ssl_certificate'' = Some full"
    using known_options_config [OF assms(2), of full ca] by blast
  have "parse_port_string \<lparr>vec_ptr = dec n @ ''s'', vec_len = Suc (length (dec n))\<rparr> = Some (tls_socket n)"
    using parse_secure_port [of n] assms(1) by (simp add: tls_socket_def)
  then have add: "add_listener env True (Suc 0) \<lparr>vec_ptr = dec n @ ''s'', vec_len = Suc (length (dec n))\<rparr> [] = Inr (False, [])"
    using assms(5) by (simp add: add_listener_def tls_socket_def)
  let ?g = "g\<lparr>sTlsInit := sTlsInit g, cryptolib_users := 1, cryptolib_dll := True, ssllib_dll := True, ssl_mutexes := False, ssl_callback := True\<rparr>"
  have "mg_start_ctx env (option_array (known_options n full ca)) g = Inr (None, ?g)"
    using set_up_known [OF assms(1,3) _ cfg, of "g\<lparr>sTlsInit := sTlsInit g + 1\<rparr>"] cfg(1) assms(3,6)
    by (simp add: mg_start_ctx_def add system_ok_def free_context_def)
  moreover have "mg_start_ctx env (option_array (known_options m full ca)) ?g = Inl NullPointer"
    using cfg2 assms(3,4) by (simp add: mg_start_ctx_def mg_set_up_def set_gpass_option_def set_ssl_option_def initialize_ssl_def
        ssl_call_def system_ok_def Let_def)
  ultimately show ?thesis by blast
qed

definition taken_port :: mg_env where
  "taken_port = demo_system\<lparr>me_bind := (\<lambda>i s. so_port s \<noteq> 6789)\<rparr>"

theorem restart_after_taken_port_faults_witness:
  "\<exists>g'. mg_start_ctx taken_port (option_array (known_options 6789 ''/k/full.pem'' ''/k/ca.pem'')) no_users = Inr (None, g') \<and>
    mg_start_ctx taken_port (option_array (known_options 6790 ''/k/full.pem'' ''/k/ca.pem'')) g' = Inl NullPointer"
proof -
  have "system_ok taken_port" "ssl_locks (me_ssl taken_port)" "\<not> me_bind taken_port 1 (tls_socket 6789)" "cryptolib_users no_users = 0"
    using demo_system_ok(1) by (simp_all add: system_ok_def taken_port_def tls_socket_def demo_system_def demo_ssl_def no_users_def)
  then show ?thesis by (intro restart_after_taken_port_faults) simp_all
qed

end
