(* ===== verification/Civetweb_Queue.thy ===== *)
theory Civetweb_Queue
  imports Prelude
begin

text \<open>
  \<^verbatim>\<open>wiring_common_secure/private/src/civetweb.c\<close>, the queue of accepted connections between the
  master thread and the worker threads: a ring of \<^verbatim>\<open>MGSQLEN\<close> places with two counters, used under
  a lock. A call that has to wait is one that does not happen yet.
\<close>

section \<open>The ring\<close>

definition QUEUE_SIZE :: int where
  "QUEUE_SIZE = 20"

record 'a socket_queue =
  queue :: "'a list"
  sq_head :: int
  sq_tail :: int
  sq_stop :: bool

text \<open>The master adds a connection. \<open>None\<close> is a call that waits.\<close>

definition produce_socket :: "'a \<Rightarrow> 'a socket_queue \<Rightarrow> 'a socket_queue option" where
  "produce_socket sp q =
     (if \<not> sq_stop q \<and> sq_head q - sq_tail q \<ge> QUEUE_SIZE then None
      else if sq_head q - sq_tail q < QUEUE_SIZE
      then Some (q\<lparr>queue := (queue q)[nat (sq_head q mod QUEUE_SIZE) := sp], sq_head := sq_head q + 1\<rparr>)
      else Some q)"

text \<open>The counters are wrapped while the tail is beyond the ring.\<close>

function wrap_counters :: "int \<Rightarrow> int \<Rightarrow> int \<times> int" where
  "wrap_counters head tail = (if tail > QUEUE_SIZE then wrap_counters (head - QUEUE_SIZE) (tail - QUEUE_SIZE) else (head, tail))"
  by pat_completeness auto
termination
  by (relation "measure (\<lambda>(h, t). nat t)") (auto simp: QUEUE_SIZE_def)

declare wrap_counters.simps [simp del]

text \<open>
  A worker takes a connection: whether it goes on, the connection when there was one, and the
  queue.
\<close>

definition consume_socket :: "'a socket_queue \<Rightarrow> (bool \<times> 'a option \<times> 'a socket_queue) option" where
  "consume_socket q =
     (if sq_head q = sq_tail q \<and> \<not> sq_stop q then None
      else if sq_head q > sq_tail q
      then (let (head, tail) = wrap_counters (sq_head q) (sq_tail q + 1)
            in Some (\<not> sq_stop q, Some (queue q ! nat (sq_tail q mod QUEUE_SIZE)), q\<lparr>sq_head := head, sq_tail := tail\<rparr>))
      else Some (\<not> sq_stop q, None, q))"

section \<open>The queue as a list\<close>

definition queue_list :: "'a socket_queue \<Rightarrow> 'a list" where
  "queue_list q = map (\<lambda>i. queue q ! nat (i mod QUEUE_SIZE)) [sq_tail q .. sq_head q - 1]"

definition queue_inv :: "'a socket_queue \<Rightarrow> bool" where
  "queue_inv q \<longleftrightarrow> length (queue q) = nat QUEUE_SIZE \<and> 0 \<le> sq_tail q \<and> sq_tail q \<le> QUEUE_SIZE \<and>
     sq_tail q \<le> sq_head q \<and> sq_head q \<le> sq_tail q + QUEUE_SIZE"

lemma length_queue_list: "queue_inv q \<Longrightarrow> length (queue_list q) = nat (sq_head q - sq_tail q)"
  by (simp add: queue_list_def)

text \<open>Two counters in the ring name different places.\<close>

lemma ring_places:
  assumes "t \<le> i" "i < h" "h < t + QUEUE_SIZE" "0 \<le> t"
  shows "nat (i mod QUEUE_SIZE) \<noteq> nat (h mod QUEUE_SIZE)"
proof
  assume "nat (i mod QUEUE_SIZE) = nat (h mod QUEUE_SIZE)"
  then have "i mod QUEUE_SIZE = h mod QUEUE_SIZE" by (simp add: QUEUE_SIZE_def)
  then have "(h - i) mod QUEUE_SIZE = 0" by (simp add: mod_diff_eq [symmetric])
  moreover have "0 < h - i" "h - i < QUEUE_SIZE" using assms by linarith+
  ultimately show False by simp
qed

lemma upto_shift: "[i + k .. j + k] = map (\<lambda>x. x + k) [i .. j]" for i j k :: int
proof (induction i j rule: upto.induct)
  case (1 i j)
  show ?case
  proof (cases "i \<le> j")
    case True
    then have "[i + k .. j + k] = (i + k) # [i + 1 + k .. j + k]" by (subst upto.simps) (simp add: add.commute add.left_commute)
    then show ?thesis using "1.IH" [OF True] True by (subst (2) upto.simps) simp
  qed simp
qed

lemma produce_refines:
  assumes "queue_inv q" "produce_socket sp q = Some q'" "\<not> sq_stop q"
  shows "queue_inv q' \<and> queue_list q' = queue_list q @ [sp] \<and> \<not> sq_stop q'"
proof -
  have room: "sq_head q - sq_tail q < QUEUE_SIZE"
    and q': "q' = q\<lparr>queue := (queue q)[nat (sq_head q mod QUEUE_SIZE) := sp], sq_head := sq_head q + 1\<rparr>"
    using assms(2,3) by (auto simp: produce_socket_def split: if_split_asm)
  have len: "nat (sq_head q mod QUEUE_SIZE) < length (queue q)" using assms(1) by (simp add: queue_inv_def QUEUE_SIZE_def)
  have "[sq_tail q .. sq_head q] = [sq_tail q .. sq_head q - 1] @ [sq_head q]"
    using assms(1) by (simp add: queue_inv_def upto_rec2)
  moreover have "map (\<lambda>i. (queue q)[nat (sq_head q mod QUEUE_SIZE) := sp] ! nat (i mod QUEUE_SIZE)) [sq_tail q .. sq_head q - 1] = queue_list q"
    unfolding queue_list_def
  proof (rule map_cong [OF refl])
    fix i assume "i \<in> set [sq_tail q .. sq_head q - 1]"
    then have "nat (sq_head q mod QUEUE_SIZE) \<noteq> nat (i mod QUEUE_SIZE)"
      using ring_places [of "sq_tail q" i "sq_head q"] room assms(1) by (force simp: queue_inv_def)
    then show "(queue q)[nat (sq_head q mod QUEUE_SIZE) := sp] ! nat (i mod QUEUE_SIZE) = queue q ! nat (i mod QUEUE_SIZE)" by simp
  qed
  ultimately have "queue_list q' = queue_list q @ [sp]" using len by (simp add: queue_list_def q')
  then show ?thesis using assms(1,3) room by (simp add: q' queue_inv_def)
qed

lemma consume_refines:
  assumes "queue_inv q" "consume_socket q = Some (go, s, q')" "\<not> sq_stop q"
  shows "go \<and> (\<exists>sp. s = Some sp \<and> queue_list q = sp # queue_list q') \<and> queue_inv q' \<and> \<not> sq_stop q'"
proof -
  have more: "sq_tail q < sq_head q" using assms by (auto simp: consume_socket_def queue_inv_def split: if_split_asm)
  have first: "[sq_tail q .. sq_head q - 1] = sq_tail q # [sq_tail q + 1 .. sq_head q - 1]" using more by (simp add: upto_rec1)
  show ?thesis
  proof (cases "sq_tail q = QUEUE_SIZE")
    case False
    then have small: "\<not> sq_tail q + 1 > QUEUE_SIZE" using assms(1) by (simp add: queue_inv_def)
    have "wrap_counters (sq_head q) (sq_tail q + 1) = (sq_head q, sq_tail q + 1)"
      by (subst wrap_counters.simps) (use small in simp)
    then show ?thesis
      using assms more first small by (auto simp: consume_socket_def queue_inv_def queue_list_def)
  next
    case True
    have "wrap_counters (sq_head q - QUEUE_SIZE) (sq_tail q + 1 - QUEUE_SIZE) = (sq_head q - QUEUE_SIZE, 1)"
      by (subst wrap_counters.simps) (simp add: True QUEUE_SIZE_def)
    then have w: "wrap_counters (sq_head q) (sq_tail q + 1) = (sq_head q - QUEUE_SIZE, 1)"
      by (subst wrap_counters.simps) (simp add: True)
    have "[sq_tail q + 1 .. sq_head q - 1] = map (\<lambda>i. i + QUEUE_SIZE) [1 .. sq_head q - QUEUE_SIZE - 1]"
      using upto_shift [of 1 QUEUE_SIZE "sq_head q - QUEUE_SIZE - 1"] True by (simp add: add.commute)
    then have "map (\<lambda>i. queue q ! nat (i mod QUEUE_SIZE)) [sq_tail q + 1 .. sq_head q - 1] =
        map (\<lambda>i. queue q ! nat (i mod QUEUE_SIZE)) [1 .. sq_head q - QUEUE_SIZE - 1]" by simp
    then show ?thesis
      using assms more first True w by (auto simp: consume_socket_def queue_inv_def queue_list_def)
  qed
qed

section \<open>The master and the workers\<close>

text \<open>
  Between two calls of the queue the lock is free, so a run of the threads is a sequence of whole
  calls: the master queues a connection, a worker comes back from \<^verbatim>\<open>consume_socket\<close>, or somebody
  sets the stop flag.
\<close>

datatype 'a queue_event = Queued 'a | Woken bool "'a option" | Stopping

inductive queue_step :: "'a socket_queue \<Rightarrow> 'a queue_event \<Rightarrow> 'a socket_queue \<Rightarrow> bool" where
  produced: "produce_socket sp q = Some q' \<Longrightarrow> queue_step q (Queued sp) q'"
| consumed: "consume_socket q = Some (go, s, q') \<Longrightarrow> queue_step q (Woken go s) q'"
| stopped: "queue_step q Stopping (q\<lparr>sq_stop := True\<rparr>)"

inductive_cases queue_stepE [elim!]: "queue_step q e q'"

inductive queue_run :: "'a socket_queue \<Rightarrow> 'a queue_event list \<Rightarrow> 'a socket_queue \<Rightarrow> bool" where
  start: "queue_run q [] q"
| step: "\<lbrakk>queue_run q es q'; queue_step q' e q''\<rbrakk> \<Longrightarrow> queue_run q (es @ [e]) q''"

text \<open>The connections given to the queue, and those a worker goes on to serve.\<close>

fun queued_of :: "'a queue_event \<Rightarrow> 'a list" where
  "queued_of (Queued sp) = [sp]"
| "queued_of _ = []"

fun served_of :: "'a queue_event \<Rightarrow> 'a list" where
  "served_of (Woken True (Some sp)) = [sp]"
| "served_of _ = []"

abbreviation all_queued :: "'a queue_event list \<Rightarrow> 'a list" where
  "all_queued es \<equiv> concat (map queued_of es)"

abbreviation all_served :: "'a queue_event list \<Rightarrow> 'a list" where
  "all_served es \<equiv> concat (map served_of es)"

definition fresh_queue :: "'a list \<Rightarrow> 'a socket_queue" where
  "fresh_queue places = \<lparr>queue = places, sq_head = 0, sq_tail = 0, sq_stop = False\<rparr>"

text \<open>Once the flag is set no worker is told to go on.\<close>

lemma produce_keeps_stop: "produce_socket sp q = Some q' \<Longrightarrow> sq_stop q' = sq_stop q"
  by (auto simp: produce_socket_def split: if_split_asm)

lemma consume_keeps_stop: "consume_socket q = Some (go, s, q') \<Longrightarrow> sq_stop q' = sq_stop q \<and> go = (\<not> sq_stop q)"
  by (auto simp: consume_socket_def split: if_split_asm prod.splits)

lemma queue_step_running:
  assumes "queue_step q e q'" "queue_inv q" "\<not> sq_stop q'"
  shows "queue_inv q' \<and> queue_list q @ queued_of e = served_of e @ queue_list q'"
  using assms
proof cases
  case (produced sp)
  then show ?thesis using produce_refines [OF assms(2) produced(2)] assms(3) produce_keeps_stop [OF produced(2)] by simp
next
  case (consumed go s)
  then show ?thesis using consume_refines [OF assms(2) consumed(2)] assms(3) consume_keeps_stop [OF consumed(2)] by auto
qed (use assms in simp)

lemma queue_step_stop: "queue_step q e q' \<Longrightarrow> sq_stop q \<Longrightarrow> sq_stop q' \<and> served_of e = []"
  by (auto dest: produce_keeps_stop consume_keeps_stop)

lemma queue_run_fifo:
  assumes "queue_run q es q'" "q = fresh_queue places" "length places = nat QUEUE_SIZE"
  shows "(\<exists>rest. all_queued es = all_served es @ rest) \<and>
     (\<not> sq_stop q' \<longrightarrow> queue_inv q' \<and> all_queued es = all_served es @ queue_list q')"
  using assms
proof (induction rule: queue_run.induct)
  case (start q)
  then show ?case by (simp add: fresh_queue_def queue_inv_def queue_list_def QUEUE_SIZE_def)
next
  case (step q es q' e q'')
  show ?case
  proof (cases "sq_stop q''")
    case False
    then have run: "\<not> sq_stop q'" using queue_step_stop [OF step.hyps(2)] by auto
    then show ?thesis using step queue_step_running [OF step.hyps(2) _ False] by auto
  next
    case True
    have "served_of e = [] \<or> \<not> sq_stop q' \<and> served_of e \<noteq> []" using queue_step_stop [OF step.hyps(2)] by auto
    then show ?thesis
    proof
      assume "served_of e = []"
      then show ?thesis using step True by auto
    next
      assume "\<not> sq_stop q' \<and> served_of e \<noteq> []"
      then have False using step.hyps(2) True by (auto dest: produce_keeps_stop consume_keeps_stop)
      then show ?thesis ..
    qed
  qed
qed

text \<open>In a queue that is not stopped, at most one of the two sides waits.\<close>

lemma not_both_wait: "produce_socket sp q = None \<Longrightarrow> consume_socket q \<noteq> None"
  by (auto simp: produce_socket_def consume_socket_def QUEUE_SIZE_def split: if_split_asm prod.splits)

text \<open>
  C10. The ring of accepted connections is a bounded first-in-first-out queue. From the fresh queue
  of \<^verbatim>\<open>mg_start\<close>, whatever the interleaving of the master, the workers and a stop, the
  connections the workers serve are the first of those the master queued, in that order, each once;
  while the server runs the rest are the ones in the ring, at most twenty of them, the counters stay
  below twice its size (so that they never overflow), and never do both sides wait.
\<close>

theorem queue_is_fifo:
  assumes "queue_run (fresh_queue places) es q" "length places = nat QUEUE_SIZE"
  shows "(\<exists>rest. all_queued es = all_served es @ rest) \<and>
     (\<not> sq_stop q \<longrightarrow>
        all_queued es = all_served es @ queue_list q \<and> length (queue_list q) \<le> 20 \<and>
        0 \<le> sq_tail q \<and> sq_head q \<le> 40 \<and> (produce_socket sp q \<noteq> None \<or> consume_socket q \<noteq> None))"
proof -
  have fifo: "(\<exists>rest. all_queued es = all_served es @ rest) \<and>
     (\<not> sq_stop q \<longrightarrow> queue_inv q \<and> all_queued es = all_served es @ queue_list q)"
    by (rule queue_run_fifo [OF assms(1) refl assms(2)])
  moreover have "length (queue_list q) \<le> 20 \<and> 0 \<le> sq_tail q \<and> sq_head q \<le> 40" if "queue_inv q"
    using that length_queue_list [OF that] by (auto simp: queue_inv_def QUEUE_SIZE_def)
  ultimately show ?thesis using not_both_wait [of sp q] by blast
qed

lemma queue_is_fifo_witness:
  "\<exists>q. queue_run (fresh_queue (replicate 20 (0::nat))) [Queued 7, Queued 8, Woken True (Some 7)] q \<and> queue_list q = [8]"
proof -
  let ?f = "fresh_queue (replicate 20 (0::nat))"
  obtain q1 where q1: "produce_socket 7 ?f = Some q1" by (simp add: produce_socket_def fresh_queue_def QUEUE_SIZE_def)
  obtain q2 where q2: "produce_socket 8 q1 = Some q2" using q1 by (auto simp: produce_socket_def fresh_queue_def QUEUE_SIZE_def)
  have w: "wrap_counters 2 1 = (2, 1)" by (subst wrap_counters.simps) (simp add: QUEUE_SIZE_def)
  obtain q3 where q3: "consume_socket q2 = Some (True, Some 7, q3)"
    using q1 q2 by (auto simp: produce_socket_def consume_socket_def fresh_queue_def QUEUE_SIZE_def w)
  have "\<not> sq_stop q3" using q1 q2 q3 by (auto simp: fresh_queue_def dest!: produce_keeps_stop consume_keeps_stop)
  have "queue_run ?f ((([] @ [Queued 7]) @ [Queued 8]) @ [Woken True (Some 7)]) q3"
    by (rule queue_run.step [OF queue_run.step [OF queue_run.step [OF queue_run.start]]]) (rule queue_step.intros q1 q2 q3)+
  then have run: "queue_run ?f [Queued 7, Queued 8, Woken True (Some 7)] q3" by simp
  from queue_is_fifo [OF run, of 9] \<open>\<not> sq_stop q3\<close> have "queue_list q3 = [8]" by (simp add: QUEUE_SIZE_def)
  then show ?thesis using run by blast
qed

end
