(* ===== verification/Spec2Isabelle.thy ===== *)
theory Spec2Isabelle
  imports Wiring_Endpoint Endpoint_Codec Topology_Correct Wiring_Admin_Correct
    Trust_Properties Rsa_Reachable Published_Endpoint Remote_Call Wiring_Admin_Reachable Discovery_Sync
    Civetweb_Strings_Correct Civetweb_Start_Correct Civetweb_Queue Wiring_Admin_Http
begin

text \<open>
  A model of the secure wiring of INAETICS in C, the directory
  \<^verbatim>\<open>src/node-wiring-secure-c\<close>, with the properties that make it work. Paths below are relative
  to that directory.

  \<^bold>\<open>The program.\<close> A node runs a Celix framework with five bundles that find each other through
  the service registry. The \<^emph>\<open>remote service admin\<close> exports local services and imports remote
  ones; it speaks to other nodes over \<^emph>\<open>wires\<close>. The \<^emph>\<open>wiring topology manager\<close> decides which wires
  are made: it is asked by the remote service admin, has wiring admins make them, and tells its
  endpoint listeners of every wire. The \<^emph>\<open>wiring admin\<close> makes a wire: for an export it runs an
  HTTPS server and hands requests to the receivers of the wire, for an import it registers a
  service that posts requests with curl. The \<^emph>\<open>node discovery\<close> is a listener that publishes the
  wires of its node in etcd, and whose watcher reads the wires of other nodes from there and tells
  its own listeners, the topology manager among them. The \<^emph>\<open>trust manager\<close> keeps keys and
  certificates in a folder and has a worker thread renew them at a certificate server; the wiring
  admin takes the paths of the files from it.

  \<^bold>\<open>How the model is built.\<close> Every operation is a function from its arguments and the state to a
  \<open>result\<close>: \<open>Inl\<close> of a \<open>fault\<close> (a NULL pointer that is read, a write behind a buffer, memory that
  is freed twice or used after it was freed, a lock that is released without being held, a lock
  that is taken twice by one thread, a variable that is read before it was written) or \<open>Inr\<close> of
  the status and results of the code with the new state. A status is one of the
  codes of Celix, and every early return of the code is a branch. Structs are records, C strings
  are lists of characters, \<^verbatim>\<open>int\<close> and \<^verbatim>\<open>size_t\<close> values that can wrap are kept at their width.
  Endpoint descriptions of wires are shared by several bundles through pointers: they live in the
  heap \<open>weds\<close> of a \<open>world\<close>, whose \<open>rest\<close> is the state of the component and of the others. The
  objects of the remote service admin have heaps of their own in \<open>rsa_state\<close>. A hash map is the
  list of its entries in the order of an iterator, with the key comparison as an argument.

  \<^bold>\<open>Third-party code\<close> is a parameter: Celix (record \<open>celix\<close> and the records of each bundle's
  framework calls), curl and the state of the network and of etcd (\<open>etcd_lib\<close>, the argument
  \<open>perform\<close> of \<open>wiringAdmin_send\<close>), jansson (\<open>json_loads\<close>, over the values of \<open>Json\<close>), mbedtls,
  OpenSSL and the sockets below civetweb, libdfi (\<open>dynInterface_parse\<close>, \<open>jsonRpc_call\<close>), the
  allocator and the file system. A law about such a parameter is a named hypothesis of
  the statement that needs it; the witnesses show that it can hold. Where only the memory
  layout or the allocator decides what undefined behaviour does, a parameter says what it tolerates:
  \<open>properties_set_null\<close> (a property set to NULL), \<open>sn_room\<close> (characters stored at the address of a
  pointer), \<open>stale_decref_ok\<close> (a reference given back twice), \<open>slot_is_null\<close> (a pointer that is freed
  unassigned, asked in each round anew), \<open>fresh_memory\<close> (what allocated memory holds) and \<open>unlock_free_ok\<close> (releasing a lock
  that is free). The web server \<^emph>\<open>civetweb\<close> is vendored: the wiring admin has it as a parameter
  (\<open>mg_start\<close>, \<open>http_request\<close>), and the theories named \<open>Civetweb\<close> model what stands behind the
  parameter, the server of this repository, as far as the wiring admin relies on it; \<open>Remote_Call\<close> puts it behind
  the parameter and is left with what curl does (\<open>curl_posts\<close>).

  \<^bold>\<open>The theories.\<close>
  \<^item> \<open>Prelude\<close>: status codes, faults, the monad \<open>rbind\<close>, \<open>rfold\<close>, \<open>snprintf\<close>, decimal numbers,
    \<^verbatim>\<open>strtol\<close>; the fact collections. \<open>Celix\<close>: the framework, array lists, hash maps and properties;
    the locale \<open>key_map\<close> has the laws of a hash map whose comparison is equality, and is
    interpreted for string keys and for pointer keys. \<open>Json\<close>: JSON values and buffers.
  \<^item> \<open>Wiring_Endpoint\<close> (\<^verbatim>\<open>wiring_common_secure\<close>: \<^verbatim>\<open>wiring_endpoint_description.c\<close>,
    \<^verbatim>\<open>wiring_common_utils.c\<close>): descriptions, their hash and comparison, the lookup of the address;
    the service structs, with the locales \<open>wiring_admin_contract\<close> and \<open>listener_contract\<close> for what
    a client of an admin or of a listener relies on. \<open>Endpoint_Codec\<close>
    (\<^verbatim>\<open>node_discovery\<close>: \<^verbatim>\<open>wiring_endpoint_writer.c\<close>, \<^verbatim>\<open>wiring_endpoint_reader.c\<close>): the text form of
    properties, character by character; round trip and bounds of the buffers.
  \<^item> \<open>Topology_Manager\<close> (\<^verbatim>\<open>wiring_topology_manager\<close>: \<^verbatim>\<open>wtm.c\<close> and the two trackers),
    \<open>Topology_Correct\<close> (matching, exports, imports, waiting lists, the invariant of every run by
    the step relation \<open>wtm_step\<close>), \<open>Topology_Frame\<close> (what its calls keep of the world, locales
    \<open>imports_keep\<close> and \<open>calls_keep\<close>), \<open>Topology_Bundle\<close> (\<^verbatim>\<open>wtm_activator.c\<close>: start, stop, the listener
    service).
  \<^item> \<open>Wiring_Admin\<close> (\<^verbatim>\<open>wiring_admin_secure\<close>: \<^verbatim>\<open>wiring_admin_impl.c\<close>, \<^verbatim>\<open>wiring_admin_activator.c\<close>; it
    interprets \<open>wiring_admin_contract\<close>), \<open>Wiring_Admin_Correct\<close> (server, exports, receivers, requests,
    sending), \<open>Wiring_Admin_Reachable\<close> (the relation \<open>wa_life\<close> of all calls and its invariant).
  \<^item> \<open>Node_Discovery\<close>, \<open>Node_Discovery_Correct\<close> (\<^verbatim>\<open>node_discovery.c\<close>, \<^verbatim>\<open>node_description.c\<close>),
    \<open>Etcd\<close> (\<^verbatim>\<open>etcd.c\<close>), \<open>Etcd_Watcher\<close>, \<open>Etcd_Watcher_Correct\<close> (\<^verbatim>\<open>etcd_watcher.c\<close>; the discovery
    with its watcher interprets \<open>listener_contract\<close>), \<open>Discovery_Bundle\<close>,
    \<open>Discovery_Bundle_Correct\<close> (\<^verbatim>\<open>node_discovery_activator.c\<close>; the life \<open>nd_life\<close> of the bundle
    with the thread of the watcher, and who owns the descriptions), \<open>Discovery_Sync\<close> (the full
    synchronisation refines the union of two sets of pairs of a node and a wire).
  \<^item> \<open>Trust_Storage\<close>, \<open>Trust_Keys\<close>, \<open>Trust_Keys_Correct\<close>, \<open>Trust_Certs\<close>, \<open>Trust_Worker\<close>,
    \<open>Trust_Correct\<close>, \<open>Trust_Properties\<close> (\<^verbatim>\<open>trust_manager\<close>: storage, key generation, answers of
    the server, verification, worker, service, activator). The locale \<open>current_file\<close> is the
    search for one kind of file and is interpreted for all five.
  \<^item> \<open>Rsa_Registrations\<close> (\<^verbatim>\<open>remote_service_admin\<close>: \<^verbatim>\<open>endpoint_description.c\<close>,
    \<^verbatim>\<open>export_registration_dfi.c\<close>, \<^verbatim>\<open>import_registration_dfi.c\<close>), \<open>Rsa\<close>
    (\<^verbatim>\<open>remote_service_admin_inaetics\<close>: \<^verbatim>\<open>remote_service_admin_impl.c\<close> and its activator),
    \<open>Rsa_Proxies\<close> (the proxies count their users: locale \<open>counted_service\<close>, a refinement of a
    counter per bundle), \<open>Rsa_Calls\<close> (dispatch, error counter, calls), \<open>Rsa_Correct\<close>, \<open>Rsa_Export\<close>,
    \<open>Rsa_Faults\<close> (what it does for exports and wires, and where it fails), \<open>Rsa_Heap\<close>,
    \<open>Rsa_Reachable\<close> (its tables refer to live objects in every state it reaches, locale
    \<open>managers_conform\<close> for the topology managers).
  \<^item> \<open>Civetweb_Strings\<close>, \<open>Civetweb_Strings_Correct\<close> (\<^verbatim>\<open>wiring_common_secure\<close>: \<^verbatim>\<open>civetweb.c\<close>; comparison,
    words, lists of values, URLs, paths), \<open>Civetweb_Start\<close>, \<open>Civetweb_Start_Correct\<close> (options, ports,
    access list, OpenSSL, \<^verbatim>\<open>mg_start\<close> and \<^verbatim>\<open>mg_stop\<close>, with the options of the wiring admin),
    \<open>Civetweb_Queue\<close> (the ring between master and workers, refined to a bounded queue), \<open>Civetweb_Io\<close>,
    \<open>Civetweb_Io_Correct\<close> (receiving and reading bodies; a connection refines a stream of bytes, locale \<open>byte_stream\<close>),
    \<open>Civetweb_Request\<close>, \<open>Civetweb_Request_Correct\<close> (from the bytes of a request to the callback and
    to the next request). What a socket brings is a list of arrivals: pieces of any size, timeouts,
    errors, the stop of the server.
  \<^item> Compositions: \<open>Wiring_Admin_Http\<close> (the handler of the wiring admin behind civetweb), \<open>Node\<close> (topology manager, wiring admin and discovery: an export reaches the
    store), \<open>Rsa_Node\<close> (remote service admin and topology manager, which call each other),
    \<open>Node_Import\<close> (watcher, discovery, manager and admin: a published wire is imported),
    \<open>Two_Nodes\<close> (an export on one node is an import on another), \<open>Published_Endpoint\<close> (from the
    publisher's request over a store that keeps values, law \<open>keeps_values\<close>, to the watcher of another
    node, with the URL buffers), \<open>Remote_Call\<close> (a call through a
    proxy crosses both wiring admins and comes back).

  \<^bold>\<open>What the lemmas show.\<close> The two compositions at the end say what the program is for: a wire that
  one node exports is imported by another that waits for it, and a call over it reaches the
  service and returns its answer; a request over the network is parsed to what the client printed,
  and its body reaches the receiver. Four invariants over step relations say that the components stay
  sound under any sequence of calls: topology manager, wiring admin, node discovery, remote service
  admin. Round trips and bounds are proved for the texts that nodes exchange; \<open>replace\<close>, the receivers,
  the queue of connections and the synchronisation with etcd are equal to, or refine, a specification; the worker of the trust
  manager gets from an empty folder to keys and certificates. Failures are properties, too: what
  deadlocks, which requests leave the defined behaviour of C, why no server starts.

  \<^bold>\<open>Loops and bounds.\<close> The loops over lists are structural recursions. The restarting loop over the
  waiting exports, the removal of characters and the retries of the refresh have termination proofs;
  \<open>replace\<close> is defined with possible divergence (\<open>count_loop\<close>, \<open>copy_loop\<close>), and its termination for a
  non-empty pattern is part of its property; the loop over the requests of one connection may not
  end, either (\<open>process_requests\<close>), and is proved to end after the first request with the
  configuration of the wiring admin. The web server makes at most five attempts and the refresh four,
  as in the code. The endless loops of the two threads run over a finite list of the rounds that
  they make, of any length; a round has what the lock, the flag and the clock answer. The buffer
  sizes are those of the headers; texts that enter a proof with a bound (4096 characters for
  properties, 256 for the URL of a key in \<open>Published_Endpoint\<close> and 3900 for the parts of a key
  elsewhere, \<open>2 ^ 31\<close> for requests) have it as a hypothesis.

  \<^bold>\<open>Taken for granted.\<close> An allocation whose answer the code tests, or whose failure is a finding, is a
  branch (\<open>os_malloc\<close> for \<open>replace\<close>, \<open>calloc\<close> of the objects in the tables); the others succeed: the
  path and PEM buffers of a rekey, the buffer for the body of a request, the properties of a new
  description. \<open>mktime\<close> works by the rules of the local zone, which are parameters; a zone with one
  offset for each value of the summer time flag (\<open>fixed_zone\<close>) is an assumption only where it is
  stated. The codes of mbedtls that are added up in an \<^verbatim>\<open>int\<close> are small. A property of a service
  reference that cannot be read leaves NULL. The text of the port in
  \<^verbatim>\<open>wiringAdmin_startWebserver\<close> is read after its block in C ended; the model takes it to be there
  still. Hash and equality of a freed wire description answer a value; the invariants exclude that
  they are asked.

  \<^bold>\<open>Not modelled.\<close> Of civetweb: its own handlers behind the callback (files, CGI, authorization,
  forms in \<^verbatim>\<open>handle_form.inl\<close>, digests in \<^verbatim>\<open>md5.inl\<close>, WebSocket), its client functions, the
  access log, the limit of the speed, the accepting of connections and the writing of a response to the socket: no option
  or call of the wiring admin leads there, but for requests that its callback passes on, which end
  as \<open>ToFiles\<close>. A connection keeps what was given to be written. Output for the log and the dumps for debugging (\<^verbatim>\<open>wiringEndpointDescription_dump\<close>,
  \<^verbatim>\<open>dump_node_description\<close>, \<^verbatim>\<open>print_certificate_info\<close>) do not change a state; the activator of the remote
  service admin is destroyed by freeing it. The interleaving of threads is modelled where a
  component is one: the rounds of the watcher and of the worker are steps between the calls of the
  others; races inside a call are not. The certificate authority, the scripts of the agents and the
  Java implementation are other programs.
\<close>

end
